(* ===== verification/Prelude.thy ===== *)
theory Prelude
  imports Complex_Main
begin

text \<open>
  Shared vocabulary of the development: JavaScript's insertion-ordered \<open>Map\<close> as an
  association list, runs of event-driven components, and the list lemmas the component
  theories use.  Nothing here models a file of the repository by itself.
\<close>

named_theorems js_simps \<open>rewrite rules for the modelled JavaScript library operations\<close>

type_synonym ms = int
type_synonym bytes = int

section \<open>Insertion-ordered maps\<close>

text \<open>
  A JavaScript \<open>Map\<close> iterates its entries in insertion order; \<open>set\<close> on a present key
  keeps the key's position.
\<close>

type_synonym ('k, 'v) js_map = "('k \<times> 'v) list"

definition js_get :: "('k, 'v) js_map \<Rightarrow> 'k \<Rightarrow> 'v option" where
  "js_get m k = map_of m k"

definition js_has :: "('k, 'v) js_map \<Rightarrow> 'k \<Rightarrow> bool" where
  "js_has m k \<longleftrightarrow> k \<in> set (map fst m)"

fun js_set :: "'k \<Rightarrow> 'v \<Rightarrow> ('k, 'v) js_map \<Rightarrow> ('k, 'v) js_map" where
  "js_set k v [] = [(k, v)]"
| "js_set k v ((k', v') # m) = (if k' = k then (k, v) # m else (k', v') # js_set k v m)"

definition js_delete :: "'k \<Rightarrow> ('k, 'v) js_map \<Rightarrow> ('k, 'v) js_map" where
  "js_delete k m = filter (\<lambda>(k', v). k' \<noteq> k) m"

text \<open>\<open>new Map(entries)\<close>: a later entry with the same key replaces the value in place.\<close>

definition js_map_of :: "('k \<times> 'v) list \<Rightarrow> ('k, 'v) js_map" where
  "js_map_of es = fold (\<lambda>(k, v) m. js_set k v m) es []"

definition js_wf :: "('k, 'v) js_map \<Rightarrow> bool" where
  "js_wf m \<longleftrightarrow> distinct (map fst m)"

lemma js_get_Nil [simp, js_simps]: "js_get [] k = None"
  by (simp add: js_get_def)

lemma js_get_set [simp, js_simps]: "js_get (js_set k v m) k' = (if k' = k then Some v else js_get m k')"
  by (induction k v m rule: js_set.induct) (auto simp: js_get_def)

lemma js_get_delete [simp, js_simps]: "js_get (js_delete k m) k' = (if k' = k then None else js_get m k')"
  by (induction m) (auto simp: js_get_def js_delete_def)

lemma js_get_filter:
  "js_wf m \<Longrightarrow> js_get (filter (\<lambda>(k, v). P k v) m) k' =
     (case js_get m k' of None \<Rightarrow> None | Some v \<Rightarrow> if P k' v then Some v else None)"
proof (induction m)
  case Nil
  then show ?case by simp
next
  case (Cons kv m)
  obtain k v where [simp]: "kv = (k, v)" by (cases kv)
  have "js_wf m" and k: "k \<notin> fst ` set m" using Cons.prems by (auto simp: js_wf_def)
  then have IH: "js_get (filter (\<lambda>(k, v). P k v) m) k' =
      (case js_get m k' of None \<Rightarrow> None | Some v \<Rightarrow> if P k' v then Some v else None)"
    by (intro Cons.IH)
  have "js_get m k = None" using k by (auto simp: js_get_def map_of_eq_None_iff)
  then show ?case using IH by (auto simp: js_get_def)
qed

lemma js_has_get: "js_has m k \<longleftrightarrow> js_get m k \<noteq> None"
  by (auto simp: js_has_def js_get_def map_of_eq_None_iff image_iff)

lemma js_keys_set: "set (map fst (js_set k v m)) = insert k (set (map fst m))"
  by (induction k v m rule: js_set.induct) auto

lemma js_keys_delete: "set (map fst (js_delete k m)) = set (map fst m) - {k}"
  by (auto simp: js_delete_def image_iff)

lemma js_wf_Nil [simp, intro]: "js_wf []"
  by (simp add: js_wf_def)

lemma js_wf_set [simp, intro]: "js_wf m \<Longrightarrow> js_wf (js_set k v m)"
proof (induction k v m rule: js_set.induct)
  case (1 k v)
  then show ?case by (simp add: js_wf_def)
next
  case (2 k v k' v' m)
  then show ?case
    using js_keys_set [of k v m] by (cases "k' = k") (simp_all add: js_wf_def)
qed

lemma js_wf_filter [simp, intro]: "js_wf m \<Longrightarrow> js_wf (filter P m)"
  unfolding js_wf_def by (rule distinct_map_filter)

lemma js_wf_delete [simp, intro]: "js_wf m \<Longrightarrow> js_wf (js_delete k m)"
  by (simp add: js_delete_def)

lemma js_set_fresh: "js_get m k = None \<Longrightarrow> js_set k v m = m @ [(k, v)]"
  by (induction k v m rule: js_set.induct) (auto simp: js_get_def split: if_splits)

lemma js_get_mem: "js_wf m \<Longrightarrow> js_get m k = Some v \<longleftrightarrow> (k, v) \<in> set m"
  by (simp add: js_get_def js_wf_def)

lemma js_get_in_set: "js_get m k = Some v \<Longrightarrow> (k, v) \<in> set m"
  by (simp add: js_get_def map_of_SomeD)

lemma js_get_map_of: "js_get (js_map_of es) k = map_of (rev es) k"
proof -
  have "js_get (fold (\<lambda>(k, v) m. js_set k v m) es m) k =
      (case map_of (rev es) k of None \<Rightarrow> js_get m k | Some v \<Rightarrow> Some v)" for m
    by (induction es arbitrary: m) (auto simp: map_add_def split: option.splits)
  then show ?thesis by (simp add: js_map_of_def split: option.splits)
qed

lemma js_wf_map_of: "js_wf (js_map_of es)"
proof -
  have "js_wf m \<Longrightarrow> js_wf (fold (\<lambda>(k, v) m. js_set k v m) es m)" for m :: "('a \<times> 'b) list"
    by (induction es arbitrary: m) auto
  then show ?thesis by (simp add: js_map_of_def)
qed

section \<open>The interface of an ordered map\<close>

text \<open>
  What the components rely on when they keep objects in a \<open>Map\<close>: reads after writes,
  and that the key list is duplicate-free and complete.
\<close>

locale keyed_store =
  fixes get :: "'m \<Rightarrow> 'k \<Rightarrow> 'v option"
    and put :: "'k \<Rightarrow> 'v \<Rightarrow> 'm \<Rightarrow> 'm"
    and delete :: "'k \<Rightarrow> 'm \<Rightarrow> 'm"
    and keys :: "'m \<Rightarrow> 'k list"
    and ok :: "'m \<Rightarrow> bool"
  assumes get_put: "get (put k v m) k' = (if k' = k then Some v else get m k')"
    and get_delete: "get (delete k m) k' = (if k' = k then None else get m k')"
    and keys_get: "ok m \<Longrightarrow> k \<in> set (keys m) \<longleftrightarrow> get m k \<noteq> None"
    and keys_distinct: "ok m \<Longrightarrow> distinct (keys m)"
    and ok_put: "ok m \<Longrightarrow> ok (put k v m)"
    and ok_delete: "ok m \<Longrightarrow> ok (delete k m)"
begin

lemma size_delete:
  assumes "ok m"
  shows "length (keys (delete k m)) =
    (if get m k = None then length (keys m) else length (keys m) - 1)"
proof -
  have "set (keys (delete k m)) = set (keys m) - {k}"
    using assms by (auto simp: keys_get ok_delete get_delete split: if_splits)
  moreover have "length (keys m') = card (set (keys m'))" if "ok m'" for m'
    using that by (simp add: distinct_card keys_distinct)
  ultimately show ?thesis
    using assms by (auto simp: keys_get ok_delete)
qed

lemma size_put_fresh:
  assumes "ok m"
  shows "length (keys (put k v m)) =
    (if get m k = None then Suc (length (keys m)) else length (keys m))"
proof -
  have "set (keys (put k v m)) = insert k (set (keys m))"
    using assms by (auto simp: keys_get ok_put get_put split: if_splits)
  moreover have "length (keys m') = card (set (keys m'))" if "ok m'" for m'
    using that by (simp add: distinct_card keys_distinct)
  ultimately show ?thesis
    using assms by (auto simp: keys_get ok_put insert_absorb)
qed

end

interpretation jm: keyed_store js_get js_set js_delete "map fst" js_wf
proof
  fix m :: "('k \<times> 'v) list" and k
  show "k \<in> set (map fst m) \<longleftrightarrow> js_get m k \<noteq> None"
    using js_has_get [of m k] by (simp add: js_has_def)
qed (simp_all, simp add: js_wf_def)

section \<open>Runs of event-driven components\<close>

text \<open>
  A component's step takes an event and a state; \<open>None\<close> means the synchronous code never
  returns (or the step is undefined).  A run feeds a list of events in order.
\<close>

fun run_events :: "('e \<Rightarrow> 's \<Rightarrow> 's option) \<Rightarrow> 'e list \<Rightarrow> 's \<Rightarrow> 's option" where
  "run_events step [] s = Some s"
| "run_events step (e # es) s =
     (case step e s of None \<Rightarrow> None | Some s' \<Rightarrow> run_events step es s')"

lemma run_events_append:
  "run_events step (es @ fs) s =
     (case run_events step es s of None \<Rightarrow> None | Some s' \<Rightarrow> run_events step fs s')"
  by (induction es arbitrary: s) (auto split: option.splits)

text \<open>
  The events an environment may send in a state; a run is allowed when each of its events
  is allowed in the state that receives it.
\<close>

fun run_allows :: "('e \<Rightarrow> 's \<Rightarrow> bool) \<Rightarrow> ('e \<Rightarrow> 's \<Rightarrow> 's option) \<Rightarrow> 'e list \<Rightarrow> 's \<Rightarrow> bool" where
  "run_allows ok step [] s = True"
| "run_allows ok step (e # es) s =
     (ok e s \<and> (case step e s of None \<Rightarrow> True | Some s' \<Rightarrow> run_allows ok step es s'))"

lemma run_allowsI: "(\<And>e s. e \<in> set es \<Longrightarrow> ok e s) \<Longrightarrow> run_allows ok step es s"
  by (induction es arbitrary: s) (auto split: option.split)

lemma run_allows_append:
  "run_allows ok step (es @ fs) s \<longleftrightarrow> run_allows ok step es s \<and>
     (case run_events step es s of None \<Rightarrow> True | Some s' \<Rightarrow> run_allows ok step fs s')"
  by (induction es arbitrary: s) (auto split: option.splits)

locale invariant_system =
  fixes step :: "'e \<Rightarrow> 's \<Rightarrow> 's option"
    and inv :: "'s \<Rightarrow> bool"
    and allowed :: "'e \<Rightarrow> 's \<Rightarrow> bool"
  assumes step_inv: "inv s \<Longrightarrow> allowed e s \<Longrightarrow> step e s = Some s' \<Longrightarrow> inv s'"
begin

lemma run_inv:
  "inv s \<Longrightarrow> run_allows allowed step es s \<Longrightarrow> run_events step es s = Some s' \<Longrightarrow> inv s'"
  by (induction es arbitrary: s) (auto split: option.splits dest: step_inv)

lemma run_prefix_inv:
  "inv s \<Longrightarrow> run_allows allowed step (es @ fs) s \<Longrightarrow> run_events step (es @ fs) s = Some s' \<Longrightarrow>
    \<exists>m. run_events step es s = Some m \<and> inv m \<and> run_events step fs m = Some s'"
  by (auto simp: run_events_append run_allows_append split: option.splits dest: run_inv)

text \<open>Environments with no obligation.\<close>

lemma run_inv_free:
  "(\<And>e s. allowed e s) \<Longrightarrow> inv s \<Longrightarrow> run_events step es s = Some s' \<Longrightarrow> inv s'"
  by (rule run_inv) (auto intro: run_allowsI)

end

text \<open>A system that never gets stuck on events its environment is allowed to send.\<close>

locale total_system = invariant_system +
  assumes step_total: "inv s \<Longrightarrow> allowed e s \<Longrightarrow> \<exists>s'. step e s = Some s'"
begin

lemma run_total: "inv s \<Longrightarrow> run_allows allowed step es s \<Longrightarrow> \<exists>s'. run_events step es s = Some s' \<and> inv s'"
proof (induction es arbitrary: s)
  case Nil
  then show ?case by simp
next
  case (Cons e es)
  then have "allowed e s" by simp
  with Cons.prems(1) obtain s1 where s1: "step e s = Some s1" using step_total by blast
  with Cons.prems have "inv s1" and "run_allows allowed step es s1" by (auto dest: step_inv)
  then have "\<exists>s'. run_events step es s1 = Some s' \<and> inv s'" by (rule Cons.IH)
  with s1 show ?case by simp
qed

end

section \<open>Lists\<close>

lemma remove1_distinct_set: "distinct xs \<Longrightarrow> set (remove1 x xs) = set xs - {x}"
  by (rule set_remove1_eq)

lemma in_remove1: "x \<in> set (remove1 y xs) \<Longrightarrow> x \<in> set xs"
  using set_remove1_subset [of y xs] by blast

lemma sum_list_map_le:
  fixes f :: "'a \<Rightarrow> int"
  assumes "\<And>x. x \<in> set xs \<Longrightarrow> f x \<le> g x"
  shows "sum_list (map f xs) \<le> sum_list (map g xs)"
  using assms by (induction xs) (auto intro: add_mono)

lemma sum_list_nonneg_int:
  fixes f :: "'a \<Rightarrow> int"
  shows "(\<And>x. x \<in> set xs \<Longrightarrow> 0 \<le> f x) \<Longrightarrow> 0 \<le> sum_list (map f xs)"
  by (induction xs) auto

lemma find_Some_in: "find P xs = Some x \<Longrightarrow> x \<in> set xs \<and> P x"
  by (induction xs) (auto split: if_splits)

section \<open>Sorting by a host comparison\<close>

text \<open>The stable sort by a comparison function.\<close>

fun insort_by :: "('a \<Rightarrow> 'a \<Rightarrow> bool) \<Rightarrow> 'a \<Rightarrow> 'a list \<Rightarrow> 'a list" where
  "insort_by le x [] = [x]"
| "insort_by le x (y # ys) = (if le x y then x # y # ys else y # insort_by le x ys)"

definition sort_by :: "('a \<Rightarrow> 'a \<Rightarrow> bool) \<Rightarrow> 'a list \<Rightarrow> 'a list" where
  "sort_by le xs = foldr (insort_by le) xs []"

lemma mset_insort_by [simp]: "set (insort_by le x xs) = insert x (set xs)" "length (insort_by le x xs) = Suc (length xs)"
  by (induction xs) auto

lemma set_sort_by [simp]: "set (sort_by le xs) = set xs" "length (sort_by le xs) = length xs"
  unfolding sort_by_def by (induction xs) auto

lemma find_by_name: "distinct (map f xs) \<Longrightarrow> a \<in> set xs \<Longrightarrow> find (\<lambda>b. f b = f a) xs = Some a"
  by (induction xs) (auto simp: image_iff)

lemma map_filter_cong: "(\<And>x. x \<in> set xs \<Longrightarrow> f x = g x) \<Longrightarrow> List.map_filter f xs = List.map_filter g xs"
  by (induction xs) (auto simp: List.map_filter_simps split: option.split)

end
