(* ===== verification/Video_Jobs.thy ===== *)
theory Video_Jobs
  imports Prelude "HOL-Library.Multiset"
begin

text \<open>
  The manager of asynchronous video jobs, \<^verbatim>\<open>src/src/domains/runtime/video/video-job-manager.ts\<close>.

  A job object is touched by three suspended calls: the runner (\<open>run\<close>, \<open>submit\<close>, \<open>poll\<close>,
  \<open>applyBackendUpdate\<close>), the containment (\<open>finishTermination\<close>) and the deadline watcher
  (\<open>watchDeadline\<close>), besides \<open>persistArtifact\<close>, whose promise the runner and the containment
  both await.  The job record holds the point at which each of them is suspended; an event settles
  one awaited promise, or resumes one awaiter of a settled promise, and runs the code up to the
  next \<open>await\<close>.  An \<open>async\<close> function's return reaches its caller in the same event.  Job objects
  live in a heap, because suspended calls keep them after the manager has dropped them.

  The options \<open>acquireAdmission\<close> and \<open>supervisedStop\<close> are given, and job directories are created
  and removed without failure; writing, preparing and removing an artifact may fail.  An abort
  error is \<open>AbortReason\<close>.  Sizes and times are integers.  \<open>vj_releases\<close> counts the calls of the
  admission's \<open>release\<close>, and \<open>vm_reports\<close> lists the calls of \<open>onContainmentFailure\<close>.
\<close>

section \<open>Jobs\<close>

datatype job_error =
    AdmissionUnavailable | BackendJobFailed | ArtifactLimit | MemoryPressureRejected
  | BackendIdUnavailable | BackendIdMismatch | AbortReason | ExternalError string

datatype cancel_reason = ByBackend | ByRequest | ByDeadline | ByShutdown

datatype job_disposition = CancelledBy cancel_reason | FailedBy job_error

datatype video_state = Queued | InProgress | Completed | Failed | Cancelled

record video_artifact =
  va_byteLength :: nat
  va_mimeType :: string
  va_outputFormat :: string
  va_fps :: nat
  va_frameCount :: nat

datatype backend_update =
    Progress string bool
  | CompletedUpdate string video_artifact
  | FailedUpdate string
  | CancelledUpdate string

datatype admission_promise = AdmissionPending | AdmissionResolved bool | AdmissionRejected job_error

datatype runner_point =
    AwaitAdmission | AwaitReady | AwaitSubmit | AwaitJob | AwaitCompletion | AwaitPoll | AwaitContain | RunnerDone

datatype persist_point =
    NotPersisting | Preparing | is_Writing: Writing video_artifact | is_Persisted: Persisted "job_error + video_artifact"

datatype containment_point =
    NotContaining
  | is_SettlingAdmission: SettlingAdmission job_disposition
  | is_Stopping: Stopping job_disposition bool
  | is_JoiningCompletion: JoiningCompletion job_disposition

datatype watcher_point = WatchingDeadline | WatcherContaining | WatcherDone

record video_job =
  vj_id :: string
  vj_owner :: string
  vj_created :: int
  vj_state :: video_state
  vj_aborted :: bool
  vj_deadlineAborted :: bool
  vj_admission :: bool
  vj_admissionPromise :: admission_promise
  vj_backendId :: "string option"
  vj_completion :: bool
  vj_terminalAt :: "int option"
  vj_artifact :: "video_artifact option"
  vj_pendingBytes :: "nat option"
  vj_failure :: "job_error option"
  vj_reason :: "cancel_reason option"
  vj_termination :: bool
  vj_runner :: runner_point
  vj_persist :: persist_point
  vj_containment :: containment_point
  vj_watcher :: watcher_point
  vj_releases :: nat

record video_config =
  vc_maxArtifactBytes :: nat
  vc_maxArtifactBytesTotal :: nat
  vc_maxTerminalJobs :: nat
  vc_terminalTtlMs :: int
  vc_prepares :: bool

record video_manager =
  vm_heap :: "(string, video_job) js_map"
  vm_jobs :: "string list"
  vm_active :: "string option"
  vm_stopping :: bool
  vm_reports :: "(string \<times> string \<times> job_error) list"

definition new_manager :: video_manager where
  "new_manager = \<lparr>vm_heap = [], vm_jobs = [], vm_active = None, vm_stopping = False, vm_reports = []\<rparr>"

definition createJob :: "string \<Rightarrow> string \<Rightarrow> int \<Rightarrow> video_job" where
  "createJob i owner now =
     \<lparr>vj_id = i, vj_owner = owner, vj_created = now, vj_state = Queued, vj_aborted = False,
      vj_deadlineAborted = False, vj_admission = False, vj_admissionPromise = AdmissionPending,
      vj_backendId = None, vj_completion = False, vj_terminalAt = None, vj_artifact = None,
      vj_pendingBytes = None, vj_failure = None, vj_reason = None, vj_termination = False,
      vj_runner = AwaitAdmission, vj_persist = NotPersisting, vj_containment = NotContaining,
      vj_watcher = WatchingDeadline, vj_releases = 0\<rparr>"

definition vjob :: "video_manager \<Rightarrow> string \<Rightarrow> video_job" where
  "vjob m i = the (js_get (vm_heap m) i)"

definition upd_job :: "string \<Rightarrow> (video_job \<Rightarrow> video_job) \<Rightarrow> video_manager \<Rightarrow> video_manager" where
  "upd_job i f m = m\<lparr>vm_heap := js_set i (f (vjob m i)) (vm_heap m)\<rparr>"

definition terminal :: "video_job \<Rightarrow> bool" where
  "terminal j \<longleftrightarrow> vj_terminalAt j \<noteq> None"

section \<open>Retention\<close>

definition terminal_time :: "video_job \<Rightarrow> int" where
  "terminal_time j = (case vj_terminalAt j of None \<Rightarrow> 0 | Some t \<Rightarrow> t)"

definition terminalJobs :: "video_manager \<Rightarrow> string list" where
  "terminalJobs m =
     sort_key (\<lambda>i. terminal_time (vjob m i)) (filter (\<lambda>i. terminal (vjob m i)) (vm_jobs m))"

definition retained_bytes :: "video_job \<Rightarrow> nat" where
  "retained_bytes j =
     (case vj_artifact j of
        Some a \<Rightarrow> va_byteLength a
      | None \<Rightarrow> (case vj_pendingBytes j of Some b \<Rightarrow> b | None \<Rightarrow> 0))"

definition artifactBytes :: "video_manager \<Rightarrow> nat" where
  "artifactBytes m = sum_list (map (\<lambda>i. retained_bytes (vjob m i)) (terminalJobs m))"

definition remove_job :: "string \<Rightarrow> video_manager \<Rightarrow> video_manager" where
  "remove_job i m = m\<lparr>vm_jobs := filter (\<lambda>k. k \<noteq> i) (vm_jobs m)\<rparr>"

function prune_excess :: "nat \<Rightarrow> video_manager \<Rightarrow> video_manager" where
  "prune_excess limit m =
     (if length (terminalJobs m) > limit
      then (case terminalJobs m of [] \<Rightarrow> m | oldest # rest \<Rightarrow> prune_excess limit (remove_job oldest m))
      else m)"
  by pat_completeness auto

definition expired :: "video_config \<Rightarrow> int \<Rightarrow> video_job \<Rightarrow> bool" where
  "expired c now j \<longleftrightarrow> (case vj_terminalAt j of None \<Rightarrow> False | Some t \<Rightarrow> now - t \<ge> vc_terminalTtlMs c)"

definition prune :: "video_config \<Rightarrow> int \<Rightarrow> video_manager \<Rightarrow> video_manager" where
  "prune c now m =
     prune_excess (vc_maxTerminalJobs c)
       (fold (\<lambda>i m'. if expired c now (vjob m' i) then remove_job i m' else m') (terminalJobs m) m)"

lemma set_terminalJobs [simp]: "set (terminalJobs m) = {i \<in> set (vm_jobs m). terminal (vjob m i)}"
  by (auto simp: terminalJobs_def)

lemma remove_job_shorter: "terminalJobs m = i # rest \<Longrightarrow> length (vm_jobs (remove_job i m)) < length (vm_jobs m)"
proof -
  assume "terminalJobs m = i # rest"
  then have "i \<in> set (vm_jobs m)" using set_terminalJobs [of m] by auto
  then show ?thesis by (simp add: remove_job_def length_filter_less)
qed

termination prune_excess
  by (relation "measure (\<lambda>(limit, m). length (vm_jobs m))") (simp_all add: remove_job_shorter)

function evict :: "video_config \<Rightarrow> nat \<Rightarrow> video_manager \<Rightarrow> bool \<times> video_manager" where
  "evict c bytes m =
     (if length (terminalJobs m) \<ge> vc_maxTerminalJobs c \<or> artifactBytes m + bytes > vc_maxArtifactBytesTotal c
      then (case terminalJobs m of [] \<Rightarrow> (False, m) | oldest # rest \<Rightarrow> evict c bytes (remove_job oldest m))
      else (True, m))"
  by pat_completeness auto
termination evict
  by (relation "measure (\<lambda>(c, bytes, m). length (vm_jobs m))") (simp_all add: remove_job_shorter)

text \<open>The boolean says whether there is room; without room the code throws an artifact-limit error.\<close>

definition makeRoomForArtifact :: "video_config \<Rightarrow> int \<Rightarrow> nat \<Rightarrow> video_manager \<Rightarrow> bool \<times> video_manager" where
  "makeRoomForArtifact c now bytes m =
     (if bytes > vc_maxArtifactBytesTotal c then (False, m) else evict c bytes (prune c now m))"

section \<open>Finishing\<close>

definition finish :: "video_config \<Rightarrow> int \<Rightarrow> string \<Rightarrow> video_manager \<Rightarrow> video_manager" where
  "finish c now i m =
     (if terminal (vjob m i) then m
      else
        let m1 = upd_job i (\<lambda>j. j\<lparr>vj_terminalAt := Some now, vj_deadlineAborted := True,
                   vj_releases := vj_releases j + (if vj_admission j then 1 else 0)\<rparr>) m
        in prune c now (if vm_active m1 = Some i then m1\<lparr>vm_active := None\<rparr> else m1))"

definition finishCompleted :: "video_config \<Rightarrow> int \<Rightarrow> video_artifact \<Rightarrow> string \<Rightarrow> video_manager \<Rightarrow> video_manager" where
  "finishCompleted c now a i m =
     finish c now i (upd_job i (\<lambda>j. j\<lparr>vj_artifact := Some a, vj_state := Completed\<rparr>) m)"

definition finishFailure :: "video_config \<Rightarrow> int \<Rightarrow> job_error \<Rightarrow> string \<Rightarrow> video_manager \<Rightarrow> video_manager" where
  "finishFailure c now e i m =
     finish c now i (upd_job i (\<lambda>j. j\<lparr>vj_failure := Some e, vj_state := Failed\<rparr>) m)"

definition finishCancelled :: "video_config \<Rightarrow> int \<Rightarrow> cancel_reason \<Rightarrow> string \<Rightarrow> video_manager \<Rightarrow> video_manager" where
  "finishCancelled c now r i m =
     finish c now i (upd_job i (\<lambda>j. j\<lparr>vj_reason := Some r, vj_state := Cancelled\<rparr>) m)"

definition finishDisposition :: "video_config \<Rightarrow> int \<Rightarrow> job_disposition \<Rightarrow> string \<Rightarrow> video_manager \<Rightarrow> video_manager" where
  "finishDisposition c now d i m =
     (case d of CancelledBy r \<Rightarrow> finishCancelled c now r i m | FailedBy e \<Rightarrow> finishFailure c now e i m)"

section \<open>Containment\<close>

text \<open>
  \<open>contain\<close>: join the containment under way or start \<open>finishTermination\<close>, which aborts the job's
  signal and awaits its admission.
\<close>

definition contain :: "job_disposition \<Rightarrow> string \<Rightarrow> video_manager \<Rightarrow> video_manager" where
  "contain d i m =
     (if vj_termination (vjob m i) then m
      else upd_job i (\<lambda>j. j\<lparr>vj_termination := True, vj_aborted := True, vj_containment := SettlingAdmission d\<rparr>) m)"

definition terminate :: "cancel_reason \<Rightarrow> string \<Rightarrow> video_manager \<Rightarrow> video_manager" where
  "terminate r i m = (if terminal (vjob m i) then m else contain (CancelledBy r) i m)"

definition containFailure :: "job_error \<Rightarrow> string \<Rightarrow> video_manager \<Rightarrow> video_manager" where
  "containFailure e i m = (if terminal (vjob m i) then m else contain (FailedBy e) i m)"

definition report :: "string \<Rightarrow> string \<Rightarrow> job_error \<Rightarrow> video_manager \<Rightarrow> video_manager" where
  "report i source e m = m\<lparr>vm_reports := vm_reports m @ [(i, source, e)]\<rparr>"

text \<open>
  The end of a containment as its awaiters see it: the runner and the watcher return, reporting
  the error when there is one; a failed containment can be started again.
\<close>

definition wake_runner :: "string \<Rightarrow> job_error option \<Rightarrow> video_manager \<Rightarrow> video_manager" where
  "wake_runner i e m =
     (if vj_runner (vjob m i) = AwaitContain
      then let m1 = upd_job i (\<lambda>j. j\<lparr>vj_runner := RunnerDone\<rparr>) m
           in (case e of None \<Rightarrow> m1 | Some x \<Rightarrow> report i ''runner'' x m1)
      else m)"

definition wake_watcher :: "string \<Rightarrow> job_error option \<Rightarrow> video_manager \<Rightarrow> video_manager" where
  "wake_watcher i e m =
     (if vj_watcher (vjob m i) = WatcherContaining
      then let m1 = upd_job i (\<lambda>j. j\<lparr>vj_watcher := WatcherDone\<rparr>) m
           in (case e of None \<Rightarrow> m1 | Some x \<Rightarrow> report i ''deadline'' x m1)
      else m)"

definition containment_returns :: "string \<Rightarrow> video_manager \<Rightarrow> video_manager" where
  "containment_returns i m = wake_watcher i None (wake_runner i None m)"

definition containment_fails :: "job_error \<Rightarrow> string \<Rightarrow> video_manager \<Rightarrow> video_manager" where
  "containment_fails e i m = wake_watcher i (Some e) (wake_runner i (Some e)
     (upd_job i (\<lambda>j. j\<lparr>vj_termination := False, vj_containment := NotContaining\<rparr>) m))"

text \<open>The last part of \<open>finishTermination\<close>; \<open>removal\<close> is what \<open>removeArtifact\<close> threw, if anything.\<close>

definition conclude :: "video_config \<Rightarrow> int \<Rightarrow> job_error option \<Rightarrow> job_error option \<Rightarrow> job_disposition \<Rightarrow>
    string \<Rightarrow> video_manager \<Rightarrow> video_manager" where
  "conclude c now removal completionFailure d i m =
     (let m0 = upd_job i (\<lambda>j. j\<lparr>vj_containment := NotContaining\<rparr>) m in
      containment_returns i
        (case removal of
           Some e \<Rightarrow> finishFailure c now e i m0
         | None \<Rightarrow>
             let m1 = upd_job i (\<lambda>j. j\<lparr>vj_pendingBytes := None\<rparr>) m0
             in (case completionFailure of
                   Some e \<Rightarrow> finishFailure c now e i m1
                 | None \<Rightarrow> finishDisposition c now d i m1)))"

text \<open>\<open>settleAdmission\<close> returns: the signal is aborted, so a rejected admission is swallowed.\<close>

definition admission_settled :: "string \<Rightarrow> job_disposition \<Rightarrow> video_manager \<Rightarrow> video_manager" where
  "admission_settled i d m = upd_job i (\<lambda>j. j\<lparr>
       vj_admission := (vj_admission j \<or> vj_admissionPromise j = AdmissionResolved True),
       vj_containment := Stopping d (vj_completion j)\<rparr>) m"

definition stop_settled :: "video_config \<Rightarrow> int \<Rightarrow> job_error option \<Rightarrow> job_error option \<Rightarrow> job_disposition \<Rightarrow> bool \<Rightarrow>
    string \<Rightarrow> video_manager \<Rightarrow> video_manager" where
  "stop_settled c now stopError removal d completion i m =
     (case stopError of
        Some e \<Rightarrow> containment_fails e i m
      | None \<Rightarrow>
          if completion then upd_job i (\<lambda>j. j\<lparr>vj_containment := JoiningCompletion d\<rparr>) m
          else conclude c now removal None d i m)"

definition completion_joined :: "video_config \<Rightarrow> int \<Rightarrow> job_error option \<Rightarrow> job_error + video_artifact \<Rightarrow> job_disposition \<Rightarrow>
    string \<Rightarrow> video_manager \<Rightarrow> video_manager" where
  "completion_joined c now removal result d i m =
     (if terminal (vjob m i) then containment_returns i (upd_job i (\<lambda>j. j\<lparr>vj_containment := NotContaining\<rparr>) m)
      else conclude c now removal
        (case result of Inl e \<Rightarrow> if e = AbortReason then None else Some e | Inr a \<Rightarrow> None) d i m)"

section \<open>The runner\<close>

text \<open>The handler of \<open>run\<close>'s exceptions.\<close>

definition runner_catches :: "job_error \<Rightarrow> string \<Rightarrow> video_manager \<Rightarrow> video_manager" where
  "runner_catches e i m =
     (if vj_termination (vjob m i) \<or> vj_aborted (vjob m i) \<or> terminal (vjob m i)
      then upd_job i (\<lambda>j. j\<lparr>vj_runner := RunnerDone\<rparr>) m
      else upd_job i (\<lambda>j. j\<lparr>vj_runner := AwaitContain\<rparr>) (containFailure e i m))"

definition runner_returns :: "string \<Rightarrow> video_manager \<Rightarrow> video_manager" where
  "runner_returns i m = upd_job i (\<lambda>j. j\<lparr>vj_runner := RunnerDone\<rparr>) m"

definition runner_at :: "runner_point \<Rightarrow> string \<Rightarrow> video_manager \<Rightarrow> video_manager" where
  "runner_at p i m = upd_job i (\<lambda>j. j\<lparr>vj_runner := p\<rparr>) m"

text \<open>The head of \<open>poll\<close>'s loop.\<close>

definition poll_head :: "string \<Rightarrow> video_manager \<Rightarrow> video_manager" where
  "poll_head i m =
     (let j = vjob m i in
      if terminal j \<or> vj_termination j then runner_returns i m
      else if vj_backendId j = None then runner_catches BackendIdUnavailable i m
      else runner_at AwaitJob i m)"

definition runner_admitted :: "string \<Rightarrow> video_manager \<Rightarrow> video_manager" where
  "runner_admitted i m =
     (case vj_admissionPromise (vjob m i) of
        AdmissionPending \<Rightarrow> m
      | AdmissionRejected e \<Rightarrow> runner_catches e i m
      | AdmissionResolved granted \<Rightarrow>
          if terminal (vjob m i) \<or> vj_termination (vjob m i) then runner_returns i m
          else if \<not> granted then runner_catches AdmissionUnavailable i m
          else runner_at AwaitReady i (upd_job i (\<lambda>j. j\<lparr>vj_admission := True\<rparr>) m))"

definition runner_ready :: "job_error option \<Rightarrow> string \<Rightarrow> video_manager \<Rightarrow> video_manager" where
  "runner_ready r i m =
     (case r of
        Some e \<Rightarrow> runner_catches e i m
      | None \<Rightarrow>
          if terminal (vjob m i) \<or> vj_termination (vjob m i) then runner_returns i m
          else runner_at AwaitSubmit i m)"

definition submitted :: "job_error + (string \<times> bool) \<Rightarrow> string \<Rightarrow> video_manager \<Rightarrow> video_manager" where
  "submitted r i m =
     (case r of
        Inl e \<Rightarrow> runner_catches e i m
      | Inr (backendId, generating) \<Rightarrow>
          let m1 = (if terminal (vjob m i) \<or> vj_termination (vjob m i) \<or> vj_aborted (vjob m i) then m
                    else upd_job i (\<lambda>j. j\<lparr>vj_backendId := Some backendId,
                           vj_state := (if generating then InProgress else Queued)\<rparr>) m)
          in if vj_termination (vjob m1 i) then runner_returns i m1 else poll_head i m1)"

text \<open>\<open>persistArtifact\<close> from the point where the prepared media is known.\<close>

definition prepared :: "video_config \<Rightarrow> int \<Rightarrow> video_artifact \<Rightarrow> string \<Rightarrow> video_manager \<Rightarrow> video_manager" where
  "prepared c now a i m =
     (let fails = (\<lambda>e m. upd_job i (\<lambda>j. j\<lparr>vj_persist := Persisted (Inl e)\<rparr>) m) in
      if vj_aborted (vjob m i) then fails AbortReason m
      else if va_byteLength a > vc_maxArtifactBytes c then fails ArtifactLimit m
      else (case makeRoomForArtifact c now (va_byteLength a) m of
          (False, m1) \<Rightarrow> fails ArtifactLimit m1
        | (True, m1) \<Rightarrow> upd_job i (\<lambda>j. j\<lparr>vj_pendingBytes := Some (va_byteLength a), vj_persist := Writing a\<rparr>) m1))"

definition persistArtifact :: "video_config \<Rightarrow> int \<Rightarrow> video_artifact \<Rightarrow> string \<Rightarrow> video_manager \<Rightarrow> video_manager" where
  "persistArtifact c now a i m =
     (if va_byteLength a > vc_maxArtifactBytes c
      then upd_job i (\<lambda>j. j\<lparr>vj_persist := Persisted (Inl ArtifactLimit)\<rparr>) m
      else if vc_prepares c then upd_job i (\<lambda>j. j\<lparr>vj_persist := Preparing\<rparr>) m
      else prepared c now a i m)"

fun update_id :: "backend_update \<Rightarrow> string" where
  "update_id (Progress i g) = i"
| "update_id (CompletedUpdate i a) = i"
| "update_id (FailedUpdate i) = i"
| "update_id (CancelledUpdate i) = i"

text \<open>\<open>poll\<close> after \<open>applyBackendUpdate\<close> returned.\<close>

definition update_applied :: "string \<Rightarrow> video_manager \<Rightarrow> video_manager" where
  "update_applied i m =
     (if terminal (vjob m i) \<or> vj_termination (vjob m i) then runner_returns i m else runner_at AwaitPoll i m)"

definition applyBackendUpdate :: "video_config \<Rightarrow> int \<Rightarrow> backend_update \<Rightarrow> string \<Rightarrow> video_manager \<Rightarrow> video_manager" where
  "applyBackendUpdate c now u i m =
     (let j = vjob m i in
      if terminal j \<or> vj_termination j \<or> vj_aborted j then update_applied i m
      else if vj_backendId j \<noteq> Some (update_id u) then runner_catches BackendIdMismatch i m
      else (case u of
          Progress b generating \<Rightarrow>
            update_applied i (upd_job i (\<lambda>j. j\<lparr>vj_state := (if generating then InProgress else Queued)\<rparr>) m)
        | CompletedUpdate b a \<Rightarrow>
            runner_at AwaitCompletion i
              (upd_job i (\<lambda>j. j\<lparr>vj_completion := True\<rparr>)
                (persistArtifact c now a i (upd_job i (\<lambda>j. j\<lparr>vj_state := InProgress\<rparr>) m)))
        | FailedUpdate b \<Rightarrow> update_applied i (finishFailure c now BackendJobFailed i m)
        | CancelledUpdate b \<Rightarrow> update_applied i (finishCancelled c now ByBackend i m)))"

definition completion_seen :: "video_config \<Rightarrow> int \<Rightarrow> job_error + video_artifact \<Rightarrow> string \<Rightarrow> video_manager \<Rightarrow> video_manager" where
  "completion_seen c now result i m =
     (case result of
        Inl e \<Rightarrow> runner_catches e i (upd_job i (\<lambda>j. j\<lparr>vj_completion := False\<rparr>) m)
      | Inr a \<Rightarrow>
          let m1 = (if terminal (vjob m i) \<or> vj_termination (vjob m i) then m else finishCompleted c now a i m)
          in update_applied i (upd_job i (\<lambda>j. j\<lparr>vj_completion := False\<rparr>) m1))"

section \<open>The deadline watcher\<close>

definition watcher_at :: "watcher_point \<Rightarrow> string \<Rightarrow> video_manager \<Rightarrow> video_manager" where
  "watcher_at p i m = upd_job i (\<lambda>j. j\<lparr>vj_watcher := p\<rparr>) m"

definition deadline_settled :: "job_error option \<Rightarrow> string \<Rightarrow> video_manager \<Rightarrow> video_manager" where
  "deadline_settled r i m =
     (case r of
        Some e \<Rightarrow>
          if e = AbortReason \<or> terminal (vjob m i) then watcher_at WatcherDone i m
          else watcher_at WatcherContaining i (containFailure e i m)
      | None \<Rightarrow>
          if terminal (vjob m i) \<or> vj_termination (vjob m i) then watcher_at WatcherDone i m
          else watcher_at WatcherContaining i (terminate ByDeadline i m))"

section \<open>Client operations\<close>

definition start_job :: "video_config \<Rightarrow> int \<Rightarrow> string \<Rightarrow> string \<Rightarrow> video_manager \<Rightarrow> bool \<times> video_manager" where
  "start_job c now owner i m =
     (let m = prune c now m in
      if vm_stopping m \<or> vm_active m \<noteq> None then (False, m)
      else (True, m\<lparr>vm_heap := js_set i (createJob i owner now) (vm_heap m), vm_jobs := vm_jobs m @ [i], vm_active := Some i\<rparr>))"

definition owned_job :: "string \<Rightarrow> string \<Rightarrow> video_manager \<Rightarrow> video_job option" where
  "owned_job owner i m = (if i \<in> set (vm_jobs m) \<and> vj_owner (vjob m i) = owner then Some (vjob m i) else None)"

datatype video_snapshot =
    ActiveSnapshot string video_state int
  | CompletedSnapshot string int int video_artifact
  | FailedSnapshot string int int job_error
  | CancelledSnapshot string int int cancel_reason

text \<open>\<open>None\<close> is the error thrown for an inconsistent job.\<close>

definition snapshot :: "video_job \<Rightarrow> video_snapshot option" where
  "snapshot j =
     (case vj_state j of
        Queued \<Rightarrow> Some (ActiveSnapshot (vj_id j) Queued (vj_created j))
      | InProgress \<Rightarrow> Some (ActiveSnapshot (vj_id j) InProgress (vj_created j))
      | Completed \<Rightarrow> (case (vj_artifact j, vj_terminalAt j) of
            (Some a, Some t) \<Rightarrow> Some (CompletedSnapshot (vj_id j) (vj_created j) t a) | _ \<Rightarrow> None)
      | Failed \<Rightarrow> (case (vj_failure j, vj_terminalAt j) of
            (Some e, Some t) \<Rightarrow> Some (FailedSnapshot (vj_id j) (vj_created j) t e) | _ \<Rightarrow> None)
      | Cancelled \<Rightarrow> (case (vj_reason j, vj_terminalAt j) of
            (Some r, Some t) \<Rightarrow> Some (CancelledSnapshot (vj_id j) (vj_created j) t r) | _ \<Rightarrow> None))"

definition get_job :: "video_config \<Rightarrow> int \<Rightarrow> string \<Rightarrow> string \<Rightarrow> video_manager \<Rightarrow> video_snapshot option option \<times> video_manager" where
  "get_job c now owner i m = (let m = prune c now m in (map_option snapshot (owned_job owner i m), m))"

definition artifact_of :: "video_config \<Rightarrow> int \<Rightarrow> string \<Rightarrow> string \<Rightarrow> video_manager \<Rightarrow> video_artifact option \<times> video_manager" where
  "artifact_of c now owner i m = (let m = prune c now m in (Option.bind (owned_job owner i m) vj_artifact, m))"

definition cancel_job :: "video_config \<Rightarrow> int \<Rightarrow> string \<Rightarrow> string \<Rightarrow> video_manager \<Rightarrow> video_manager" where
  "cancel_job c now owner i m =
     (let m = prune c now m in if owned_job owner i m = None then m else terminate ByRequest i m)"

definition delete_job :: "video_config \<Rightarrow> int \<Rightarrow> string \<Rightarrow> string \<Rightarrow> video_manager \<Rightarrow> bool \<times> video_manager" where
  "delete_job c now owner i m =
     (let m = prune c now m in
      case owned_job owner i m of
        None \<Rightarrow> (False, m)
      | Some j \<Rightarrow> if terminal j then (True, remove_job i m) else (False, m))"

definition shutdown :: "video_config \<Rightarrow> int \<Rightarrow> video_manager \<Rightarrow> video_manager" where
  "shutdown c now m =
     (let m = (prune c now m)\<lparr>vm_stopping := True\<rparr>
      in case vm_active m of None \<Rightarrow> m | Some i \<Rightarrow> terminate ByShutdown i m)"

definition cancelActive :: "video_config \<Rightarrow> int \<Rightarrow> video_manager \<Rightarrow> video_manager" where
  "cancelActive c now m =
     (let m = prune c now m in case vm_active m of None \<Rightarrow> m | Some i \<Rightarrow> terminate ByRequest i m)"

definition failActiveForMemoryPressure :: "video_config \<Rightarrow> int \<Rightarrow> video_manager \<Rightarrow> video_manager" where
  "failActiveForMemoryPressure c now m =
     (let m = prune c now m in case vm_active m of None \<Rightarrow> m | Some i \<Rightarrow> containFailure MemoryPressureRejected i m)"

section \<open>Events\<close>

datatype video_event =
    StartJob int string string
  | GetJob int string string
  | CancelJob int string string
  | DeleteJob int string string
  | Shutdown int
  | CancelActive int
  | FailForPressure int
  | AdmissionSettles string bool
  | AdmissionFails string job_error
  | RunnerAdmitted string
  | RunnerReady string "job_error option"
  | Submitted string "job_error + (string \<times> bool)"
  | BackendReports int string "job_error + backend_update"
  | Prepared int string "job_error + video_artifact"
  | Written string "job_error option"
  | CompletionSeen int string
  | PollTick string "job_error option"
  | DeadlineSettles string "job_error option"
  | AdmissionJoined string
  | StopSettles int string "job_error option" "job_error option"
  | CompletionJoined int string "job_error option"

text \<open>An event whose promise nobody awaits cannot occur.\<close>

definition at_point :: "string \<Rightarrow> (video_job \<Rightarrow> bool) \<Rightarrow> (string \<Rightarrow> video_manager \<Rightarrow> video_manager) \<Rightarrow> video_manager \<Rightarrow> video_manager option" where
  "at_point i P f m = (if js_has (vm_heap m) i \<and> P (vjob m i) then Some (f i m) else None)"

fun video_step :: "video_config \<Rightarrow> video_event \<Rightarrow> video_manager \<Rightarrow> video_manager option" where
  "video_step c (StartJob now owner i) m = (if js_has (vm_heap m) i then None else Some (snd (start_job c now owner i m)))"
| "video_step c (GetJob now owner i) m = Some (snd (get_job c now owner i m))"
| "video_step c (CancelJob now owner i) m = Some (cancel_job c now owner i m)"
| "video_step c (DeleteJob now owner i) m = Some (snd (delete_job c now owner i m))"
| "video_step c (Shutdown now) m = Some (shutdown c now m)"
| "video_step c (CancelActive now) m = Some (cancelActive c now m)"
| "video_step c (FailForPressure now) m = Some (failActiveForMemoryPressure c now m)"
| "video_step c (AdmissionSettles i granted) m =
     at_point i (\<lambda>j. vj_admissionPromise j = AdmissionPending)
       (\<lambda>i. upd_job i (\<lambda>j. j\<lparr>vj_admissionPromise := AdmissionResolved granted\<rparr>)) m"
| "video_step c (AdmissionFails i e) m =
     at_point i (\<lambda>j. vj_admissionPromise j = AdmissionPending)
       (\<lambda>i. upd_job i (\<lambda>j. j\<lparr>vj_admissionPromise := AdmissionRejected e\<rparr>)) m"
| "video_step c (RunnerAdmitted i) m =
     at_point i (\<lambda>j. vj_runner j = AwaitAdmission \<and> vj_admissionPromise j \<noteq> AdmissionPending) runner_admitted m"
| "video_step c (RunnerReady i r) m = at_point i (\<lambda>j. vj_runner j = AwaitReady) (runner_ready r) m"
| "video_step c (Submitted i r) m = at_point i (\<lambda>j. vj_runner j = AwaitSubmit) (submitted r) m"
| "video_step c (BackendReports now i r) m =
     at_point i (\<lambda>j. vj_runner j = AwaitJob)
       (case r of Inl e \<Rightarrow> runner_catches e | Inr u \<Rightarrow> applyBackendUpdate c now u) m"
| "video_step c (Prepared now i r) m =
     at_point i (\<lambda>j. vj_persist j = Preparing)
       (case r of
          Inl e \<Rightarrow> (\<lambda>i. upd_job i (\<lambda>j. j\<lparr>vj_persist := Persisted (Inl e)\<rparr>))
        | Inr a \<Rightarrow> prepared c now a) m"
| "video_step c (Written i r) m =
     at_point i (\<lambda>j. is_Writing (vj_persist j))
       (\<lambda>i. upd_job i (\<lambda>j. j\<lparr>vj_persist := Persisted
          (case (r, vj_persist j) of (None, Writing a) \<Rightarrow> Inr a | (Some e, p) \<Rightarrow> Inl e | (None, p) \<Rightarrow> Inl AbortReason)\<rparr>)) m"
| "video_step c (CompletionSeen now i) m =
     at_point i (\<lambda>j. vj_runner j = AwaitCompletion \<and> is_Persisted (vj_persist j))
       (\<lambda>i m. case vj_persist (vjob m i) of Persisted r \<Rightarrow> completion_seen c now r i m | _ \<Rightarrow> m) m"
| "video_step c (PollTick i r) m =
     at_point i (\<lambda>j. vj_runner j = AwaitPoll) (case r of Some e \<Rightarrow> runner_catches e | None \<Rightarrow> poll_head) m"
| "video_step c (DeadlineSettles i r) m = at_point i (\<lambda>j. vj_watcher j = WatchingDeadline) (deadline_settled r) m"
| "video_step c (AdmissionJoined i) m =
     at_point i (\<lambda>j. is_SettlingAdmission (vj_containment j) \<and> vj_admissionPromise j \<noteq> AdmissionPending)
       (\<lambda>i m. case vj_containment (vjob m i) of SettlingAdmission d \<Rightarrow> admission_settled i d m | _ \<Rightarrow> m) m"
| "video_step c (StopSettles now i e removal) m =
     at_point i (\<lambda>j. is_Stopping (vj_containment j))
       (\<lambda>i m. case vj_containment (vjob m i) of Stopping d b \<Rightarrow> stop_settled c now e removal d b i m | _ \<Rightarrow> m) m"
| "video_step c (CompletionJoined now i removal) m =
     at_point i (\<lambda>j. is_JoiningCompletion (vj_containment j) \<and> is_Persisted (vj_persist j))
       (\<lambda>i m. case (vj_containment (vjob m i), vj_persist (vjob m i)) of
            (JoiningCompletion d, Persisted r) \<Rightarrow> completion_joined c now removal r d i m | _ \<Rightarrow> m) m"

lemmas point_discs = is_Writing_def is_Persisted_def is_SettlingAdmission_def is_Stopping_def is_JoiningCompletion_def

section \<open>Updates of one job\<close>

lemma js_set_set [simp]: "js_set k w (js_set k v m) = js_set k w m"
  by (induction k v m rule: js_set.induct) auto

lemma vjob_upd [simp]: "vjob (upd_job i f m) k = (if k = i then f (vjob m i) else vjob m k)"
  by (simp add: vjob_def upd_job_def)

lemma upd_job_fields [simp]:
  "vm_jobs (upd_job i f m) = vm_jobs m" "vm_active (upd_job i f m) = vm_active m"
  "vm_stopping (upd_job i f m) = vm_stopping m" "vm_reports (upd_job i f m) = vm_reports m"
  "js_has (vm_heap (upd_job i f m)) k \<longleftrightarrow> k = i \<or> js_has (vm_heap m) k"
  by (simp_all add: upd_job_def js_has_get)

lemma upd_job_upd_job [simp]: "upd_job i g (upd_job i f m) = upd_job i (\<lambda>j. g (f j)) m"
  by (simp add: upd_job_def vjob_def)

lemma upd_job_cong_at: "f (vjob m i) = g (vjob m i) \<Longrightarrow> upd_job i f m = upd_job i g m"
  by (simp add: upd_job_def)

lemma report_fields [simp]:
  "vm_jobs (report i s e m) = vm_jobs m" "vm_active (report i s e m) = vm_active m"
  "vm_stopping (report i s e m) = vm_stopping m" "vm_heap (report i s e m) = vm_heap m"
  "vjob (report i s e m) = vjob m"
  by (simp_all add: report_def vjob_def fun_eq_iff)

lemma remove_job_fields [simp]:
  "vm_heap (remove_job i m) = vm_heap m" "vm_active (remove_job i m) = vm_active m"
  "vm_stopping (remove_job i m) = vm_stopping m" "vjob (remove_job i m) = vjob m"
  "vm_jobs (remove_job i m) = filter (\<lambda>k. k \<noteq> i) (vm_jobs m)"
  "vm_reports (remove_job i m) = vm_reports m"
  by (simp_all add: remove_job_def vjob_def fun_eq_iff)

section \<open>Retention lemmas\<close>

declare prune_excess.simps [simp del] evict.simps [simp del]

abbreviation finished :: "video_manager \<Rightarrow> string list" where
  "finished m \<equiv> filter (\<lambda>i. terminal (vjob m i)) (vm_jobs m)"

lemma length_terminalJobs: "length (terminalJobs m) = length (finished m)"
  by (simp add: terminalJobs_def)

lemma artifactBytes_finished: "artifactBytes m = sum_list (map (\<lambda>i. retained_bytes (vjob m i)) (finished m))"
proof -
  have "mset (map (\<lambda>i. retained_bytes (vjob m i)) (terminalJobs m)) = mset (map (\<lambda>i. retained_bytes (vjob m i)) (finished m))"
    by (simp add: terminalJobs_def)
  then show ?thesis unfolding artifactBytes_def by (metis sum_mset_sum_list)
qed

lemma sum_list_filter_le_nat:
  fixes f :: "'a \<Rightarrow> nat"
  shows "sum_list (map f (filter P xs)) \<le> sum_list (map f xs)"
  by (induction xs) auto

text \<open>A manager with fewer stored jobs, and nothing else changed.\<close>

definition sheds :: "video_manager \<Rightarrow> video_manager \<Rightarrow> bool" where
  "sheds m m' \<longleftrightarrow> (\<exists>P. m' = m\<lparr>vm_jobs := filter P (vm_jobs m)\<rparr> \<and> (\<forall>i \<in> set (vm_jobs m). \<not> terminal (vjob m i) \<longrightarrow> P i))"

lemma sheds_refl [simp]: "sheds m m"
  unfolding sheds_def by (rule exI [of _ "\<lambda>i. True"]) simp

lemma sheds_remove: "terminal (vjob m i) \<Longrightarrow> sheds m (remove_job i m)"
  unfolding sheds_def remove_job_def by (rule exI [of _ "\<lambda>k. k \<noteq> i"]) auto

lemma sheds_trans: "sheds m1 m2 \<Longrightarrow> sheds m2 m3 \<Longrightarrow> sheds m1 m3"
proof -
  assume "sheds m1 m2" "sheds m2 m3"
  then obtain P Q where "m2 = m1\<lparr>vm_jobs := filter P (vm_jobs m1)\<rparr>" "\<forall>i \<in> set (vm_jobs m1). \<not> terminal (vjob m1 i) \<longrightarrow> P i"
    "m3 = m2\<lparr>vm_jobs := filter Q (vm_jobs m2)\<rparr>" "\<forall>i \<in> set (vm_jobs m2). \<not> terminal (vjob m2 i) \<longrightarrow> Q i"
    unfolding sheds_def by blast
  then show ?thesis unfolding sheds_def by (intro exI [of _ "\<lambda>i. P i \<and> Q i"]) (auto simp: vjob_def)
qed

lemma shedsD:
  assumes "sheds m m'"
  shows "vm_heap m' = vm_heap m" "vm_active m' = vm_active m" "vm_stopping m' = vm_stopping m" "vjob m' = vjob m"
    "set (vm_jobs m') \<subseteq> set (vm_jobs m)" "distinct (vm_jobs m) \<Longrightarrow> distinct (vm_jobs m')"
    "i \<in> set (vm_jobs m) \<Longrightarrow> \<not> terminal (vjob m i) \<Longrightarrow> i \<in> set (vm_jobs m')"
    "length (finished m') \<le> length (finished m)" "artifactBytes m' \<le> artifactBytes m"
proof -
  from assms obtain P where m': "m' = m\<lparr>vm_jobs := filter P (vm_jobs m)\<rparr>"
    and keep: "\<forall>i \<in> set (vm_jobs m). \<not> terminal (vjob m i) \<longrightarrow> P i" unfolding sheds_def by blast
  show "vm_heap m' = vm_heap m" "vm_active m' = vm_active m" "vm_stopping m' = vm_stopping m" "set (vm_jobs m') \<subseteq> set (vm_jobs m)"
    "distinct (vm_jobs m) \<Longrightarrow> distinct (vm_jobs m')"
    by (auto simp: m')
  show vj: "vjob m' = vjob m" by (simp add: m' vjob_def fun_eq_iff)
  show "i \<in> set (vm_jobs m) \<Longrightarrow> \<not> terminal (vjob m i) \<Longrightarrow> i \<in> set (vm_jobs m')" using keep by (simp add: m')
  have fin: "filter (\<lambda>i. terminal (vjob m i)) (vm_jobs m') = filter P (finished m)"
    by (simp add: m' conj_commute)
  then show "length (finished m') \<le> length (finished m)" unfolding vj by (metis length_filter_le)
  show "artifactBytes m' \<le> artifactBytes m"
    unfolding artifactBytes_finished fin vj by (rule sum_list_filter_le_nat)
qed

lemma sheds_prune_excess: "sheds m (prune_excess limit m) \<and> length (terminalJobs (prune_excess limit m)) \<le> limit"
proof (induction limit m rule: prune_excess.induct)
  case (1 limit m)
  show ?case
  proof (cases "length (terminalJobs m) > limit")
    case True
    then obtain x xs where t: "terminalJobs m = x # xs" by (cases "terminalJobs m") auto
    then have "terminal (vjob m x)" using set_terminalJobs [of m] by auto
    have eq: "prune_excess limit m = prune_excess limit (remove_job x m)" using True t by (subst prune_excess.simps) simp
    from \<open>terminal (vjob m x)\<close> show ?thesis
      using "1.IH" [OF True t] sheds_trans [OF sheds_remove] by (simp add: eq)
  next
    case False
    then show ?thesis by (simp add: prune_excess.simps [of limit m])
  qed
qed

lemma sheds_fold:
  "(\<And>i. i \<in> set ids0 \<Longrightarrow> terminal (vjob m i)) \<Longrightarrow> sheds m (fold (\<lambda>i m'. if Q (vjob m' i) then remove_job i m' else m') ids0 m)"
proof (induction ids0 arbitrary: m)
  case (Cons i ids)
  have "sheds m (if Q (vjob m i) then remove_job i m else m)" using Cons.prems sheds_remove by simp
  moreover have "sheds (if Q (vjob m i) then remove_job i m else m)
      (fold (\<lambda>i m'. if Q (vjob m' i) then remove_job i m' else m') ids (if Q (vjob m i) then remove_job i m else m))"
    by (rule Cons.IH) (simp add: Cons.prems)
  ultimately show ?case by (auto intro: sheds_trans)
qed simp

lemma sheds_prune: "sheds m (prune c now m)" "length (terminalJobs (prune c now m)) \<le> vc_maxTerminalJobs c"
proof -
  have "sheds m (fold (\<lambda>i m'. if expired c now (vjob m' i) then remove_job i m' else m') (terminalJobs m) m)"
    by (rule sheds_fold) simp
  then show "sheds m (prune c now m)" unfolding prune_def using sheds_prune_excess sheds_trans by blast
  show "length (terminalJobs (prune c now m)) \<le> vc_maxTerminalJobs c" unfolding prune_def using sheds_prune_excess by blast
qed

lemma sheds_evict:
  "sheds m (snd (evict c b m)) \<and> (fst (evict c b m) \<longrightarrow>
     length (terminalJobs (snd (evict c b m))) < vc_maxTerminalJobs c \<and> artifactBytes (snd (evict c b m)) + b \<le> vc_maxArtifactBytesTotal c)"
proof (induction c b m rule: evict.induct)
  case (1 c b m)
  show ?case
  proof (cases "length (terminalJobs m) \<ge> vc_maxTerminalJobs c \<or> artifactBytes m + b > vc_maxArtifactBytesTotal c")
    case full: True
    show ?thesis
    proof (cases "terminalJobs m")
      case Nil
      then show ?thesis using full by (subst (1 2 3 4) evict.simps) simp
    next
      case (Cons x xs)
      then have "terminal (vjob m x)" using set_terminalJobs [of m] by auto
      moreover have "evict c b m = evict c b (remove_job x m)" using full Cons by (subst evict.simps) simp
      ultimately show ?thesis using "1.IH" [OF full Cons] sheds_trans [OF sheds_remove] by auto
    qed
  next
    case False
    then show ?thesis by (subst (1 2 3 4) evict.simps) auto
  qed
qed

lemma sheds_makeRoom:
  assumes "makeRoomForArtifact c now b m = (r, m')"
  shows "sheds m m'" "r \<Longrightarrow> length (terminalJobs m') < vc_maxTerminalJobs c \<and> artifactBytes m' + b \<le> vc_maxArtifactBytesTotal c"
  using assms sheds_prune(1) [of m c now] sheds_evict [of "prune c now m" c b] sheds_trans
  by (auto simp: makeRoomForArtifact_def split: if_splits)

section \<open>The invariant\<close>

definition containing :: "video_job \<Rightarrow> bool" where
  "containing j \<longleftrightarrow> vj_containment j \<noteq> NotContaining"

definition joins :: "video_job \<Rightarrow> bool" where
  "joins j \<longleftrightarrow> (\<exists>d. vj_containment j = Stopping d True \<or> vj_containment j = JoiningCompletion d)"

definition past_admission :: "video_job \<Rightarrow> bool" where
  "past_admission j \<longleftrightarrow> containing j \<and> (\<forall>d. vj_containment j \<noteq> SettlingAdmission d)"

definition admission_known :: "video_job \<Rightarrow> bool" where
  "admission_known j \<longleftrightarrow> vj_admissionPromise j \<noteq> AdmissionPending \<and>
     (vj_admissionPromise j = AdmissionResolved True \<longrightarrow> vj_admission j)"

text \<open>The stored outcome of a job agrees with its state.\<close>

definition outcome_ok :: "video_job \<Rightarrow> bool" where
  "outcome_ok j \<longleftrightarrow>
     (vj_state j \<in> {Queued, InProgress} \<longleftrightarrow> \<not> terminal j) \<and>
     (vj_artifact j \<noteq> None \<longleftrightarrow> vj_state j = Completed) \<and>
     (vj_state j = Failed \<longrightarrow> vj_failure j \<noteq> None) \<and> (vj_state j = Cancelled \<longrightarrow> vj_reason j \<noteq> None)"

text \<open>Where the suspended calls of a job can be.\<close>

definition points_ok :: "video_job \<Rightarrow> bool" where
  "points_ok j \<longleftrightarrow>
     (containing j \<longrightarrow> vj_termination j \<and> vj_aborted j \<and> \<not> terminal j) \<and>
     (vj_termination j \<and> \<not> containing j \<longrightarrow> terminal j) \<and>
     (vj_completion j \<longleftrightarrow> vj_runner j = AwaitCompletion) \<and>
     (vj_runner j = AwaitCompletion \<or> joins j \<longrightarrow> vj_persist j \<noteq> NotPersisting) \<and>
     (vj_persist j = Preparing \<longrightarrow> vj_runner j = AwaitCompletion) \<and>
     (vj_persist j = Preparing \<and> terminal j \<longrightarrow> vj_aborted j) \<and>
     (\<forall>a. vj_persist j = Writing a \<or> vj_persist j = Persisted (Inr a) \<longrightarrow>
        terminal j \<or> vj_pendingBytes j = Some (va_byteLength a))"

text \<open>The admission of a job is released once, when the job ends.\<close>

definition admission_ok :: "video_job \<Rightarrow> bool" where
  "admission_ok j \<longleftrightarrow>
     (vj_admission j \<longrightarrow> vj_admissionPromise j = AdmissionResolved True) \<and>
     (vj_runner j \<in> {AwaitReady, AwaitSubmit, AwaitJob, AwaitCompletion, AwaitPoll} \<longrightarrow> vj_admission j) \<and>
     (past_admission j \<or> terminal j \<longrightarrow> admission_known j) \<and>
     vj_releases j = (if terminal j \<and> vj_admission j then 1 else 0)"

definition job_ok :: "video_job \<Rightarrow> bool" where
  "job_ok j \<longleftrightarrow> outcome_ok j \<and> points_ok j \<and> admission_ok j"

lemmas job_defs = job_ok_def outcome_ok_def points_ok_def admission_ok_def containing_def joins_def
  past_admission_def admission_known_def terminal_def

definition video_inv :: "video_config \<Rightarrow> video_manager \<Rightarrow> bool" where
  "video_inv c m \<longleftrightarrow>
     (\<forall>i j. js_get (vm_heap m) i = Some j \<longrightarrow> job_ok j \<and> vj_id j = i) \<and>
     distinct (vm_jobs m) \<and> (\<forall>i \<in> set (vm_jobs m). js_has (vm_heap m) i) \<and>
     (\<forall>i j. js_get (vm_heap m) i = Some j \<longrightarrow> \<not> terminal j \<longrightarrow> vm_active m = Some i) \<and>
     (\<forall>i. vm_active m = Some i \<longrightarrow> i \<in> set (vm_jobs m) \<and> \<not> terminal (vjob m i) \<and>
        (\<forall>b. vj_pendingBytes (vjob m i) = Some b \<longrightarrow>
           artifactBytes m + b \<le> vc_maxArtifactBytesTotal c)) \<and>
     length (terminalJobs m) \<le> vc_maxTerminalJobs c \<and> artifactBytes m \<le> vc_maxArtifactBytesTotal c"

lemma inv_job: "video_inv c m \<Longrightarrow> js_has (vm_heap m) i \<Longrightarrow> job_ok (vjob m i) \<and> vj_id (vjob m i) = i"
  by (cases "js_get (vm_heap m) i") (auto simp: video_inv_def js_has_get vjob_def)

lemma inv_active: "video_inv c m \<Longrightarrow> js_has (vm_heap m) i \<Longrightarrow> \<not> terminal (vjob m i) \<Longrightarrow> vm_active m = Some i"
  by (cases "js_get (vm_heap m) i") (auto simp: video_inv_def js_has_get vjob_def)

lemma inv_sheds:
  assumes "video_inv c m" "sheds m m'"
  shows "video_inv c m'"
proof -
  note s = shedsD [OF assms(2)]
  have "length (terminalJobs m') \<le> vc_maxTerminalJobs c"
    using s(8) assms(1) by (simp add: length_terminalJobs video_inv_def)
  moreover have "artifactBytes m' + b \<le> vc_maxArtifactBytesTotal c" if "vm_active m = Some i" "vj_pendingBytes (vjob m i) = Some b" for i b
    using s(9) that assms(1) by (force simp: video_inv_def)
  moreover have "artifactBytes m' \<le> vc_maxArtifactBytesTotal c" using s(9) assms(1) by (simp add: video_inv_def)
  moreover have "i \<in> set (vm_jobs m')" if "vm_active m = Some i" for i
    using s(7) that assms(1) by (simp add: video_inv_def)
  moreover have "distinct (vm_jobs m')" "\<forall>i \<in> set (vm_jobs m'). js_has (vm_heap m) i"
    using s(5,6) assms(1) by (auto simp: video_inv_def)
  ultimately show ?thesis
    using assms(1) unfolding video_inv_def s(1) s(2) s(4) by simp
qed

text \<open>Updates that leave the outcome and the retained bytes alone.\<close>

lemma inv_quiet:
  assumes inv: "video_inv c m" and i: "js_has (vm_heap m) i"
    and ok: "job_ok (f (vjob m i))" and same: "vj_id (f (vjob m i)) = vj_id (vjob m i)"
      "vj_terminalAt (f (vjob m i)) = vj_terminalAt (vjob m i)" "vj_artifact (f (vjob m i)) = vj_artifact (vjob m i)"
    and pending: "vj_pendingBytes (f (vjob m i)) = vj_pendingBytes (vjob m i) \<or>
      \<not> terminal (vjob m i) \<and> (vj_pendingBytes (f (vjob m i)) = None \<or>
        (\<exists>b. vj_pendingBytes (f (vjob m i)) = Some b \<and> artifactBytes m + b \<le> vc_maxArtifactBytesTotal c))"
  shows "video_inv c (upd_job i f m)"
proof -
  let ?m = "upd_job i f m"
  have t: "terminal (vjob ?m k) = terminal (vjob m k)" for k using same(2) by (simp add: terminal_def)
  have fin: "finished ?m = finished m" unfolding t upd_job_fields by (rule refl)
  have len: "length (terminalJobs ?m) = length (terminalJobs m)" by (simp only: length_terminalJobs fin)
  have "retained_bytes (vjob ?m k) = retained_bytes (vjob m k)" if "terminal (vjob m k)" for k
  proof (cases "k = i")
    case True
    then have "vj_pendingBytes (f (vjob m i)) = vj_pendingBytes (vjob m i)" using that pending by blast
    then show ?thesis using True same(3) by (simp add: retained_bytes_def split: option.split)
  qed simp
  then have bytes: "artifactBytes ?m = artifactBytes m"
    unfolding artifactBytes_finished fin by (intro arg_cong [where f = sum_list] map_cong) auto
  have heap: "js_get (vm_heap ?m) k = (if k = i then Some (f (vjob m i)) else js_get (vm_heap m) k)" for k
    by (simp add: upd_job_def)
  have "vj_id (f (vjob m i)) = i" using inv_job [OF inv i] same(1) by simp
  then have "\<forall>k j. js_get (vm_heap ?m) k = Some j \<longrightarrow> job_ok j \<and> vj_id j = k"
    using inv ok by (auto simp: heap video_inv_def)
  moreover have "\<forall>k j. js_get (vm_heap ?m) k = Some j \<longrightarrow> \<not> terminal j \<longrightarrow> vm_active ?m = Some k"
    using inv inv_active [OF inv i] same(2) by (auto simp: heap video_inv_def terminal_def)
  moreover have "\<forall>k. vm_active ?m = Some k \<longrightarrow> k \<in> set (vm_jobs ?m) \<and> \<not> terminal (vjob ?m k) \<and>
        (\<forall>b. vj_pendingBytes (vjob ?m k) = Some b \<longrightarrow> artifactBytes ?m + b \<le> vc_maxArtifactBytesTotal c)"
    unfolding t bytes using inv pending by (auto simp: video_inv_def)
  ultimately show ?thesis
    using inv unfolding video_inv_def len bytes by simp
qed

lemma inv_report: "video_inv c m \<Longrightarrow> video_inv c (report i s e m)"
  by (simp add: video_inv_def length_terminalJobs artifactBytes_finished)

text \<open>Ending the active job.\<close>

definition ended :: "int \<Rightarrow> video_job \<Rightarrow> video_job" where
  "ended now j = j\<lparr>vj_terminalAt := Some now, vj_deadlineAborted := True,
     vj_releases := vj_releases j + (if vj_admission j then 1 else 0)\<rparr>"

lemma inv_finish:
  assumes inv: "video_inv c m" and i: "js_has (vm_heap m) i" and nt: "\<not> terminal (vjob m i)"
    and F: "vj_terminalAt (F (vjob m i)) = None" "vj_id (F (vjob m i)) = vj_id (vjob m i)"
    and ok: "job_ok (ended now (F (vjob m i)))"
    and bytes: "retained_bytes (ended now (F (vjob m i))) \<le>
      (case vj_pendingBytes (vjob m i) of None \<Rightarrow> 0 | Some b \<Rightarrow> b)"
  shows "video_inv c (finish c now i (upd_job i F m))" "vm_active (finish c now i (upd_job i F m)) = None"
    "terminal (vjob (finish c now i (upd_job i F m)) i)"
    "js_has (vm_heap (finish c now i (upd_job i F m))) i"
    "vjob (finish c now i (upd_job i F m)) i = ended now (F (vjob m i))"
proof -
  let ?e = "\<lambda>j. ended now (F j)"
  let ?m1 = "(upd_job i ?e m)\<lparr>vm_active := None\<rparr>"
  have act: "vm_active m = Some i" using inv i nt by (rule inv_active)
  have fin_eq: "finish c now i (upd_job i F m) = prune c now ?m1"
    using F(1) act by (simp add: finish_def terminal_def ended_def)
  have vj: "vjob ?m1 k = (if k = i then ?e (vjob m i) else vjob m k)" for k
    using vjob_upd [of i ?e m k] by (simp add: vjob_def)
  have term_e: "terminal (?e (vjob m i))" by (simp add: ended_def terminal_def)
  have dist: "distinct (vm_jobs m)" and mem: "i \<in> set (vm_jobs m)" using inv act by (auto simp: video_inv_def)
  have setf: "set (finished ?m1) = insert i (set (finished m))" using mem nt term_e by (auto simp: vj)
  have "sum_list (map (\<lambda>k. retained_bytes (vjob ?m1 k)) (finished ?m1)) = (\<Sum>k \<in> set (finished ?m1). retained_bytes (vjob ?m1 k))"
    using dist by (simp add: sum_list_distinct_conv_sum_set)
  also have "\<dots> = retained_bytes (?e (vjob m i)) + (\<Sum>k \<in> set (finished m). retained_bytes (vjob ?m1 k))"
    unfolding setf using nt by (subst sum.insert) (auto simp: vj)
  also have "(\<Sum>k \<in> set (finished m). retained_bytes (vjob ?m1 k)) = (\<Sum>k \<in> set (finished m). retained_bytes (vjob m k))"
    using nt by (intro sum.cong) (auto simp: vj)
  also have "\<dots> = artifactBytes m" using dist by (simp add: artifactBytes_finished sum_list_distinct_conv_sum_set)
  finally have "artifactBytes ?m1 = retained_bytes (?e (vjob m i)) + artifactBytes m" by (simp only: artifactBytes_finished)
  moreover have "retained_bytes (?e (vjob m i)) + artifactBytes m \<le> vc_maxArtifactBytesTotal c"
    using bytes inv act by (cases "vj_pendingBytes (vjob m i)") (auto simp: video_inv_def)
  ultimately have b: "artifactBytes ?m1 \<le> vc_maxArtifactBytesTotal c" by simp
  note s = shedsD [OF sheds_prune(1) [of ?m1 c now]]
  have heap1: "js_get (vm_heap ?m1) k = (if k = i then Some (?e (vjob m i)) else js_get (vm_heap m) k)" for k
    by (simp add: upd_job_def)
  have idF: "vj_id (?e (vjob m i)) = i" using inv_job [OF inv i] F(2) by (simp add: ended_def)
  have h: "\<forall>k j. js_get (vm_heap (prune c now ?m1)) k = Some j \<longrightarrow> job_ok j \<and> vj_id j = k \<and> terminal j"
  proof (intro allI impI)
    fix k j assume "js_get (vm_heap (prune c now ?m1)) k = Some j"
    then have j: "(if k = i then Some (?e (vjob m i)) else js_get (vm_heap m) k) = Some j" unfolding s(1) heap1 .
    show "job_ok j \<and> vj_id j = k \<and> terminal j"
    proof (cases "k = i")
      case True
      then show ?thesis using j ok idF term_e by auto
    next
      case False
      then have "js_get (vm_heap m) k = Some j" using j by simp
      then show ?thesis using inv act False unfolding video_inv_def by (metis option.inject)
    qed
  qed
  have has: "\<forall>k \<in> set (vm_jobs (prune c now ?m1)). js_has (vm_heap (prune c now ?m1)) k"
    using inv s(5) by (auto simp: s(1) video_inv_def)
  have a: "vm_active (prune c now ?m1) = None" by (simp add: s(2))
  have "distinct (vm_jobs (prune c now ?m1))" using dist s(6) by simp
  then have "video_inv c (prune c now ?m1)"
    using h has a b s(9) sheds_prune(2) [of c now ?m1] unfolding video_inv_def by auto
  then show "video_inv c (finish c now i (upd_job i F m))" by (simp add: fin_eq)
  show "vm_active (finish c now i (upd_job i F m)) = None" using a by (simp add: fin_eq)
  show "vjob (finish c now i (upd_job i F m)) i = ?e (vjob m i)" by (simp add: fin_eq s(4) vj)
  then show "terminal (vjob (finish c now i (upd_job i F m)) i)" using term_e by simp
  show "js_has (vm_heap (finish c now i (upd_job i F m))) i" using i by (simp add: fin_eq s(1))
qed

text \<open>The updates the handlers make outside \<open>finish\<close>.\<close>

lemma quiet:
  "video_inv c m \<Longrightarrow> js_has (vm_heap m) i \<Longrightarrow> job_ok (f (vjob m i)) \<Longrightarrow> vj_id (f (vjob m i)) = vj_id (vjob m i) \<Longrightarrow>
   vj_terminalAt (f (vjob m i)) = vj_terminalAt (vjob m i) \<Longrightarrow> vj_artifact (f (vjob m i)) = vj_artifact (vjob m i) \<Longrightarrow>
   vj_pendingBytes (f (vjob m i)) = vj_pendingBytes (vjob m i) \<Longrightarrow> video_inv c (upd_job i f m)"
  by (rule inv_quiet) simp_all

lemma job_okI: "outcome_ok j \<Longrightarrow> points_ok j \<Longrightarrow> admission_ok j \<Longrightarrow> job_ok j"
  by (simp add: job_ok_def)

lemmas points_defs = points_ok_def containing_def joins_def terminal_def
lemmas admission_defs = admission_ok_def past_admission_def containing_def admission_known_def terminal_def
lemmas outcome_defs = outcome_ok_def terminal_def

lemma job_ok_upd:
  "job_ok j \<Longrightarrow> (outcome_ok j \<Longrightarrow> outcome_ok k) \<Longrightarrow> (points_ok j \<Longrightarrow> points_ok k) \<Longrightarrow>
   (points_ok j \<Longrightarrow> admission_ok j \<Longrightarrow> admission_ok k) \<Longrightarrow> job_ok k"
  by (simp add: job_ok_def)

lemma job_okD: "job_ok j \<Longrightarrow> outcome_ok j" "job_ok j \<Longrightarrow> points_ok j" "job_ok j \<Longrightarrow> admission_ok j"
  by (simp_all add: job_ok_def)

lemma job_ok_contain:
  "job_ok j \<Longrightarrow> \<not> terminal j \<Longrightarrow> \<not> vj_termination j \<Longrightarrow>
   job_ok (j\<lparr>vj_termination := True, vj_aborted := True, vj_containment := SettlingAdmission d\<rparr>)"
  by (simp add: job_defs)

lemma job_ok_settle:
  "job_ok j \<Longrightarrow> vj_admissionPromise j = AdmissionPending \<Longrightarrow> job_ok (j\<lparr>vj_admissionPromise := p\<rparr>)"
  by (erule job_ok_upd) (simp add: outcome_defs, simp add: points_defs, auto simp: admission_defs)

lemma job_ok_runner:
  "job_ok j \<Longrightarrow> p \<noteq> AwaitCompletion \<Longrightarrow> p \<in> {AwaitContain, RunnerDone, AwaitAdmission} \<or> vj_admission j \<Longrightarrow>
   vj_persist j \<noteq> Preparing \<Longrightarrow> job_ok (j\<lparr>vj_completion := False, vj_runner := p\<rparr>)"
  by (erule job_ok_upd) (auto simp: outcome_defs points_defs admission_defs)

lemma job_ok_submitted: "job_ok j \<Longrightarrow> \<not> terminal j \<Longrightarrow> s = Queued \<or> s = InProgress \<Longrightarrow> job_ok (j\<lparr>vj_state := s\<rparr>)"
  by (erule job_ok_upd) (auto simp: outcome_defs, simp_all add: points_defs admission_defs)

lemma job_ok_backend: "job_ok (j\<lparr>vj_backendId := b\<rparr>) = job_ok j"
  by (simp add: job_defs)

lemma job_ok_watcher: "job_ok (j\<lparr>vj_watcher := w\<rparr>) = job_ok j"
  by (simp add: job_defs)

lemma job_ok_admitted:
  "job_ok j \<Longrightarrow> vj_admissionPromise j = AdmissionResolved True \<Longrightarrow> \<not> terminal j \<Longrightarrow> vj_runner j \<noteq> AwaitCompletion \<Longrightarrow>
   job_ok (j\<lparr>vj_admission := True, vj_runner := AwaitReady\<rparr>)"
  by (erule job_ok_upd) (simp_all add: outcome_defs points_defs admission_defs)

lemma job_ok_persisting:
  "job_ok j \<Longrightarrow> \<not> terminal j \<Longrightarrow> vj_admission j \<Longrightarrow> p \<noteq> NotPersisting \<Longrightarrow>
   \<forall>a. p = Writing a \<or> p = Persisted (Inr a) \<longrightarrow> b = Some (va_byteLength a) \<Longrightarrow>
   job_ok (j\<lparr>vj_pendingBytes := b, vj_persist := p, vj_completion := True, vj_runner := AwaitCompletion\<rparr>)"
  by (erule job_ok_upd) (auto simp: outcome_defs points_defs admission_defs)

lemma job_ok_persisted:
  "job_ok j \<Longrightarrow> vj_persist j \<noteq> NotPersisting \<Longrightarrow> p \<noteq> NotPersisting \<Longrightarrow> p \<noteq> Preparing \<Longrightarrow>
   \<forall>a. p = Writing a \<or> p = Persisted (Inr a) \<longrightarrow> terminal j \<or> b = Some (va_byteLength a) \<Longrightarrow>
   job_ok (j\<lparr>vj_pendingBytes := b, vj_persist := p\<rparr>)"
  by (erule job_ok_upd) (auto simp: outcome_defs points_defs admission_defs)

lemma job_ok_stopping:
  "job_ok j \<Longrightarrow> vj_containment j = SettlingAdmission d \<Longrightarrow> vj_admissionPromise j \<noteq> AdmissionPending \<Longrightarrow>
   job_ok (j\<lparr>vj_admission := (vj_admission j \<or> vj_admissionPromise j = AdmissionResolved True),
       vj_containment := Stopping d (vj_completion j)\<rparr>)"
  by (erule job_ok_upd) (auto simp: outcome_defs points_defs admission_defs)

lemma job_ok_joining:
  "job_ok j \<Longrightarrow> vj_containment j = Stopping d True \<Longrightarrow> job_ok (j\<lparr>vj_containment := JoiningCompletion d'\<rparr>)"
  by (erule job_ok_upd) (auto simp: outcome_defs points_defs admission_defs)

lemma job_ok_stop_failed:
  "job_ok j \<Longrightarrow> containing j \<Longrightarrow> job_ok (j\<lparr>vj_termination := False, vj_containment := NotContaining\<rparr>)"
  by (erule job_ok_upd) (auto simp: outcome_defs points_defs admission_defs)

lemma job_ok_runner_at:
  "job_ok j \<Longrightarrow> vj_runner j \<noteq> AwaitCompletion \<Longrightarrow> p \<noteq> AwaitCompletion \<Longrightarrow>
   p \<in> {AwaitContain, RunnerDone, AwaitAdmission} \<or> vj_admission j \<Longrightarrow> job_ok (j\<lparr>vj_runner := p\<rparr>)"
  by (erule job_ok_upd) (auto simp: outcome_defs points_defs admission_defs)

subsection \<open>Handlers that do not end the job\<close>

lemma inv_upd:
  "video_inv c m \<Longrightarrow> js_has (vm_heap m) i \<Longrightarrow> (job_ok (vjob m i) \<Longrightarrow> job_ok (f (vjob m i))) \<Longrightarrow>
   vj_id (f (vjob m i)) = vj_id (vjob m i) \<Longrightarrow>
   vj_terminalAt (f (vjob m i)) = vj_terminalAt (vjob m i) \<Longrightarrow> vj_artifact (f (vjob m i)) = vj_artifact (vjob m i) \<Longrightarrow>
   vj_pendingBytes (f (vjob m i)) = vj_pendingBytes (vjob m i) \<Longrightarrow> video_inv c (upd_job i f m)"
  using inv_job [of c m i] by (intro quiet) simp_all

lemma inv_contain: "video_inv c m \<Longrightarrow> js_has (vm_heap m) i \<Longrightarrow> \<not> terminal (vjob m i) \<Longrightarrow> video_inv c (contain d i m)"
  unfolding contain_def by (simp, intro impI inv_upd) (simp_all add: job_ok_contain)

lemma inv_terminate: "video_inv c m \<Longrightarrow> js_has (vm_heap m) i \<Longrightarrow> video_inv c (terminate r i m)"
  by (simp add: terminate_def inv_contain)

lemma inv_containFailure: "video_inv c m \<Longrightarrow> js_has (vm_heap m) i \<Longrightarrow> video_inv c (containFailure e i m)"
  by (simp add: containFailure_def inv_contain)

lemma containFailure_same [simp]:
  "vj_runner (vjob (containFailure e i m) k) = vj_runner (vjob m k)"
  "vj_terminalAt (vjob (containFailure e i m) k) = vj_terminalAt (vjob m k)"
  "js_has (vm_heap m) i \<Longrightarrow> js_has (vm_heap (containFailure e i m)) k = js_has (vm_heap m) k"
  by (auto simp: containFailure_def contain_def)

lemma inv_settle:
  "video_inv c m \<Longrightarrow> js_has (vm_heap m) i \<Longrightarrow> vj_admissionPromise (vjob m i) = AdmissionPending \<Longrightarrow>
   video_inv c (upd_job i (\<lambda>j. j\<lparr>vj_admissionPromise := p\<rparr>) m)"
  by (rule inv_upd) (simp_all add: job_ok_settle)

lemma inv_runner_at:
  "video_inv c m \<Longrightarrow> js_has (vm_heap m) i \<Longrightarrow> vj_runner (vjob m i) \<noteq> AwaitCompletion \<Longrightarrow> p \<noteq> AwaitCompletion \<Longrightarrow>
   p \<in> {AwaitContain, RunnerDone, AwaitAdmission} \<or> vj_admission (vjob m i) \<Longrightarrow> video_inv c (runner_at p i m)"
  unfolding runner_at_def by (rule inv_upd) (simp_all add: job_ok_runner_at)

lemma runner_returns_at: "runner_returns i m = runner_at RunnerDone i m"
  by (simp add: runner_returns_def runner_at_def)

lemma runner_catches_at:
  "runner_catches e i m =
     (if vj_termination (vjob m i) \<or> vj_aborted (vjob m i) \<or> terminal (vjob m i) then runner_at RunnerDone i m
      else runner_at AwaitContain i (containFailure e i m))"
  by (simp add: runner_catches_def runner_at_def)

lemma inv_runner_catches:
  "video_inv c m \<Longrightarrow> js_has (vm_heap m) i \<Longrightarrow> vj_runner (vjob m i) \<noteq> AwaitCompletion \<Longrightarrow> video_inv c (runner_catches e i m)"
  by (auto simp: runner_catches_at intro!: inv_runner_at inv_containFailure)

lemma inv_poll_head:
  "video_inv c m \<Longrightarrow> js_has (vm_heap m) i \<Longrightarrow> vj_runner (vjob m i) \<noteq> AwaitCompletion \<Longrightarrow> vj_admission (vjob m i) \<Longrightarrow>
   video_inv c (poll_head i m)"
  by (auto simp: poll_head_def Let_def runner_returns_at intro!: inv_runner_at inv_runner_catches)

lemma inv_update_applied:
  "video_inv c m \<Longrightarrow> js_has (vm_heap m) i \<Longrightarrow> vj_runner (vjob m i) \<noteq> AwaitCompletion \<Longrightarrow> vj_admission (vjob m i) \<Longrightarrow>
   video_inv c (update_applied i m)"
  by (auto simp: update_applied_def runner_returns_at intro!: inv_runner_at)

lemma inv_runner_admitted:
  assumes "video_inv c m" "js_has (vm_heap m) i" "vj_runner (vjob m i) = AwaitAdmission"
  shows "video_inv c (runner_admitted i m)"
proof (cases "vj_admissionPromise (vjob m i)")
  case (AdmissionResolved granted)
  show ?thesis
  proof (cases "granted \<and> \<not> terminal (vjob m i) \<and> \<not> vj_termination (vjob m i)")
    case True
    then show ?thesis
      using assms AdmissionResolved by (auto simp: runner_admitted_def runner_at_def job_ok_admitted intro!: inv_upd)
  next
    case False
    then show ?thesis
      using assms AdmissionResolved
      by (auto simp: runner_admitted_def runner_returns_at intro!: inv_runner_at inv_runner_catches)
  qed
qed (use assms in \<open>simp_all add: runner_admitted_def inv_runner_catches\<close>)

lemma admission_of: "video_inv c m \<Longrightarrow> js_has (vm_heap m) i \<Longrightarrow>
    vj_runner (vjob m i) \<in> {AwaitReady, AwaitSubmit, AwaitJob, AwaitCompletion, AwaitPoll} \<Longrightarrow> vj_admission (vjob m i)"
  using inv_job [of c m i] by (auto simp: job_ok_def admission_ok_def)

lemma inv_runner_ready:
  "video_inv c m \<Longrightarrow> js_has (vm_heap m) i \<Longrightarrow> vj_runner (vjob m i) = AwaitReady \<Longrightarrow> video_inv c (runner_ready r i m)"
  using admission_of [of c m i]
  by (auto simp: runner_ready_def runner_returns_at split: option.split intro!: inv_runner_at inv_runner_catches)

lemma inv_submitted:
  assumes "video_inv c m" "js_has (vm_heap m) i" "vj_runner (vjob m i) = AwaitSubmit"
  shows "video_inv c (submitted r i m)"
proof (cases r)
  case (Inl e)
  then show ?thesis using assms by (simp add: submitted_def inv_runner_catches)
next
  case (Inr bg)
  obtain b g where bg: "bg = (b, g)" by (cases bg)
  let ?m1 = "if terminal (vjob m i) \<or> vj_termination (vjob m i) \<or> vj_aborted (vjob m i) then m
    else upd_job i (\<lambda>j. j\<lparr>vj_backendId := Some b, vj_state := (if g then InProgress else Queued)\<rparr>) m"
  have 1: "video_inv c ?m1"
    using assms by (auto intro!: inv_upd job_ok_submitted simp: job_ok_backend terminal_def)
  have 2: "js_has (vm_heap ?m1) i" "vj_runner (vjob ?m1 i) = AwaitSubmit" using assms by auto
  show ?thesis
    using 1 2 admission_of [OF 1 2(1)]
    unfolding submitted_def Inr bg Let_def by (auto simp: runner_returns_at intro!: inv_runner_at inv_poll_head)
qed

lemma inv_watcher_at: "video_inv c m \<Longrightarrow> js_has (vm_heap m) i \<Longrightarrow> video_inv c (watcher_at w i m)"
  unfolding watcher_at_def by (rule inv_upd) (simp_all add: job_ok_watcher)

lemma contain_has [simp]:
  "js_has (vm_heap m) i \<Longrightarrow> js_has (vm_heap (terminate r i m)) k = js_has (vm_heap m) k"
  by (auto simp: terminate_def contain_def)

lemma inv_deadline_settled: "video_inv c m \<Longrightarrow> js_has (vm_heap m) i \<Longrightarrow> video_inv c (deadline_settled r i m)"
  by (auto simp: deadline_settled_def split: option.split intro!: inv_watcher_at inv_containFailure inv_terminate)

lemma inv_admission_settled:
  "video_inv c m \<Longrightarrow> js_has (vm_heap m) i \<Longrightarrow> vj_containment (vjob m i) = SettlingAdmission d \<Longrightarrow>
   vj_admissionPromise (vjob m i) \<noteq> AdmissionPending \<Longrightarrow> video_inv c (admission_settled i d m)"
  unfolding admission_settled_def by (rule inv_upd) (simp_all add: job_ok_stopping)

lemma inv_wake_runner: "video_inv c m \<Longrightarrow> js_has (vm_heap m) i \<Longrightarrow> video_inv c (wake_runner i e m)"
  using inv_runner_at [of c m i RunnerDone]
  by (auto simp: wake_runner_def Let_def runner_at_def split: option.split intro!: inv_report)

lemma inv_wake_watcher: "video_inv c m \<Longrightarrow> js_has (vm_heap m) i \<Longrightarrow> video_inv c (wake_watcher i e m)"
  using inv_watcher_at [of c m i WatcherDone]
  by (auto simp: wake_watcher_def Let_def watcher_at_def split: option.split intro!: inv_report)

lemma wake_has [simp]:
  "js_has (vm_heap m) i \<Longrightarrow> js_has (vm_heap (wake_runner i e m)) k = js_has (vm_heap m) k"
  by (auto simp: wake_runner_def Let_def split: option.split)

lemma inv_containment_returns: "video_inv c m \<Longrightarrow> js_has (vm_heap m) i \<Longrightarrow> video_inv c (containment_returns i m)"
  by (simp add: containment_returns_def inv_wake_watcher inv_wake_runner)

lemma inv_containment_fails:
  assumes "video_inv c m" "js_has (vm_heap m) i" "containing (vjob m i)"
  shows "video_inv c (containment_fails e i m)"
proof -
  have "video_inv c (upd_job i (\<lambda>j. j\<lparr>vj_termination := False, vj_containment := NotContaining\<rparr>) m)"
    using assms by (intro inv_upd) (simp_all add: job_ok_stop_failed)
  then show ?thesis using assms by (simp add: containment_fails_def inv_wake_watcher inv_wake_runner)
qed

subsection \<open>Persisting\<close>

lemma inv_persisted_error:
  "video_inv c m \<Longrightarrow> js_has (vm_heap m) i \<Longrightarrow> vj_persist (vjob m i) \<noteq> NotPersisting \<Longrightarrow>
   video_inv c (upd_job i (\<lambda>j. j\<lparr>vj_persist := Persisted (Inl e)\<rparr>) m)"
  using job_ok_persisted [of "vjob m i" "Persisted (Inl e)" "vj_pendingBytes (vjob m i)"] by (intro inv_upd) simp_all

lemma inv_prepared:
  assumes inv: "video_inv c m" and i: "js_has (vm_heap m) i" and p: "vj_persist (vjob m i) = Preparing"
  shows "video_inv c (prepared c now a i m)"
proof -
  obtain r m1 where room: "makeRoomForArtifact c now (va_byteLength a) m = (r, m1)" by fastforce
  note s = sheds_makeRoom [OF room] and d = shedsD [OF sheds_makeRoom(1) [OF room]]
  have inv1: "video_inv c m1" using inv s(1) by (rule inv_sheds)
  have i1: "js_has (vm_heap m1) i" and j1: "vjob m1 i = vjob m i" using i by (simp_all add: d(1) d(4))
  have "video_inv c (upd_job i (\<lambda>j. j\<lparr>vj_pendingBytes := Some (va_byteLength a), vj_persist := Writing a\<rparr>) m1)"
    if r and na: "\<not> vj_aborted (vjob m i)"
  proof -
    have nt: "\<not> terminal (vjob m i)" using inv_job [OF inv i] p na by (auto simp: job_ok_def points_ok_def)
    have "job_ok ((vjob m i)\<lparr>vj_pendingBytes := Some (va_byteLength a), vj_persist := Writing a\<rparr>)"
      using inv_job [OF inv i] p by (intro job_ok_persisted) simp_all
    then show ?thesis using inv1 i1 j1 nt s(2) [OF \<open>r\<close>] by (intro inv_quiet) simp_all
  qed
  then show ?thesis
    using inv i i1 j1 p inv1 by (auto simp: prepared_def room Let_def intro!: inv_persisted_error split: bool.split)
qed

lemma inv_written:
  assumes "video_inv c m" "js_has (vm_heap m) i" "vj_persist (vjob m i) = Writing a"
  shows "video_inv c (upd_job i (\<lambda>j. j\<lparr>vj_persist := Persisted (Inr a)\<rparr>) m)"
proof -
  have "terminal (vjob m i) \<or> vj_pendingBytes (vjob m i) = Some (va_byteLength a)"
    using inv_job [OF assms(1,2)] assms(3) by (auto simp: job_ok_def points_ok_def)
  then have "job_ok (vjob m i) \<Longrightarrow>
      job_ok ((vjob m i)\<lparr>vj_pendingBytes := vj_pendingBytes (vjob m i), vj_persist := Persisted (Inr a)\<rparr>)"
    using assms(3) by (intro job_ok_persisted) auto
  then show ?thesis using assms by (intro inv_upd) simp_all
qed

subsection \<open>Handlers that end the job\<close>

text \<open>A job whose suspended calls allow it to end, and the three ways of ending it.\<close>

definition endable :: "video_job \<Rightarrow> bool" where
  "endable j \<longleftrightarrow> \<not> terminal j \<and> \<not> containing j \<and> admission_ok j \<and> admission_known j \<and> vj_artifact j = None \<and>
     (vj_completion j \<longleftrightarrow> vj_runner j = AwaitCompletion) \<and>
     (vj_runner j = AwaitCompletion \<longrightarrow> vj_persist j \<noteq> NotPersisting) \<and>
     (vj_persist j = Preparing \<longrightarrow> vj_runner j = AwaitCompletion \<and> vj_aborted j)"

lemmas ended_defs = endable_def ended_def outcome_defs points_defs admission_defs

lemma admission_ok_ended:
  "admission_ok j \<Longrightarrow> admission_known j \<Longrightarrow> \<not> terminal j \<Longrightarrow> \<not> containing j \<Longrightarrow> admission_ok (ended now j)"
  by (auto simp: ended_def admission_defs)

lemma points_ok_ended: "endable j \<Longrightarrow> points_ok (ended now j)"
  by (auto simp: endable_def ended_def points_defs)

lemma endable_outcome:
  "endable (j\<lparr>vj_failure := e, vj_state := s\<rparr>) = endable j"
  "endable (j\<lparr>vj_reason := r, vj_state := s\<rparr>) = endable j"
  "points_ok (ended now (j\<lparr>vj_artifact := a, vj_state := s\<rparr>)) = points_ok (ended now j)"
  "admission_ok (ended now (j\<lparr>vj_artifact := a, vj_state := s\<rparr>)) = admission_ok (ended now j)"
  by (simp_all add: ended_defs)

lemma endableD: "endable j \<Longrightarrow> admission_ok j \<and> admission_known j \<and> \<not> terminal j \<and> \<not> containing j \<and> vj_artifact j = None"
  by (simp add: endable_def)

lemma endable_ends: "endable j \<Longrightarrow> points_ok (ended now j)" "endable j \<Longrightarrow> admission_ok (ended now j)"
  by (simp_all add: points_ok_ended admission_ok_ended endableD)

lemma job_ok_ended:
  assumes "endable j"
  shows "job_ok (ended now (j\<lparr>vj_failure := Some e, vj_state := Failed\<rparr>))"
    "job_ok (ended now (j\<lparr>vj_reason := Some r, vj_state := Cancelled\<rparr>))"
    "job_ok (ended now (j\<lparr>vj_artifact := Some a, vj_state := Completed\<rparr>))"
  using assms endableD [OF assms]
  by (auto intro!: job_okI simp: endable_ends endable_outcome) (simp_all add: outcome_defs ended_def)

lemma endable_contained:
  "job_ok j \<Longrightarrow> past_admission j \<Longrightarrow> endable (j\<lparr>vj_containment := NotContaining\<rparr>)"
proof -
  assume j: "job_ok j" and p: "past_admission j"
  have c: "containing j" using p by (simp add: past_admission_def)
  have t: "\<not> terminal j" and a: "vj_aborted j" using j c by (auto simp: job_ok_def points_ok_def)
  have k: "admission_known j" using j p by (simp add: job_ok_def admission_ok_def)
  have o: "vj_artifact j = None" using j t by (auto simp: job_ok_def outcome_ok_def)
  have "admission_ok (j\<lparr>vj_containment := NotContaining\<rparr>)" using job_okD(3) [OF j] t by (simp add: admission_defs)
  then show "endable (j\<lparr>vj_containment := NotContaining\<rparr>)"
    using job_okD(2) [OF j] t a k o
    by (simp add: endable_def points_ok_def admission_known_def terminal_def containing_def)
qed

lemma endable_pending: "endable (j\<lparr>vj_pendingBytes := b\<rparr>) = endable j"
  by (simp add: ended_defs)

lemma endable_running:
  "job_ok j \<Longrightarrow> \<not> terminal j \<Longrightarrow> \<not> vj_termination j \<Longrightarrow> vj_admission j \<Longrightarrow> vj_persist j \<noteq> Preparing \<Longrightarrow> endable j"
  by (auto simp: job_ok_def ended_defs)

lemma retained_ended: "vj_artifact (F j) = None \<Longrightarrow> vj_pendingBytes (F j) = vj_pendingBytes j \<or> vj_pendingBytes (F j) = None \<Longrightarrow>
    retained_bytes (ended now (F j)) \<le> (case vj_pendingBytes j of None \<Rightarrow> 0 | Some b \<Rightarrow> b)"
  by (auto simp: retained_bytes_def ended_def split: option.split)

text \<open>What ending the active job yields.\<close>

definition ends_job :: "video_config \<Rightarrow> string \<Rightarrow> video_manager \<Rightarrow> video_manager \<Rightarrow> bool" where
  "ends_job c i m m' \<longleftrightarrow> video_inv c m' \<and> vm_active m' = None \<and> terminal (vjob m' i) \<and> js_has (vm_heap m') i \<and>
     vj_runner (vjob m' i) = vj_runner (vjob m i) \<and> vj_persist (vjob m' i) = vj_persist (vjob m i) \<and>
     vj_admission (vjob m' i) = vj_admission (vjob m i)"

lemma ends_finish:
  assumes "video_inv c m" "js_has (vm_heap m) i" "\<not> terminal (vjob m i)" "vj_terminalAt (F (vjob m i)) = None"
    "vj_id (F (vjob m i)) = vj_id (vjob m i)" "job_ok (ended now (F (vjob m i)))"
    "retained_bytes (ended now (F (vjob m i))) \<le> (case vj_pendingBytes (vjob m i) of None \<Rightarrow> 0 | Some b \<Rightarrow> b)"
    "vj_runner (F (vjob m i)) = vj_runner (vjob m i)" "vj_persist (F (vjob m i)) = vj_persist (vjob m i)"
    "vj_admission (F (vjob m i)) = vj_admission (vjob m i)"
  shows "ends_job c i m (finish c now i (upd_job i F m))"
  using inv_finish [where F = F and now = now, OF assms(1-7)] assms(8-10) by (simp add: ends_job_def ended_def)

lemma ends_fail:
  assumes "video_inv c m" "js_has (vm_heap m) i" "\<not> terminal (vjob m i)" "endable (G (vjob m i))"
    "G = (\<lambda>j. j) \<or> G = (\<lambda>j. j\<lparr>vj_containment := NotContaining\<rparr>) \<or>
     G = (\<lambda>j. j\<lparr>vj_containment := NotContaining, vj_pendingBytes := None\<rparr>)"
  shows "ends_job c i m (finishFailure c now e i (upd_job i G m))"
    "ends_job c i m (finishCancelled c now r i (upd_job i G m))"
proof -
  have g: "vj_terminalAt (G j) = vj_terminalAt j" "vj_id (G j) = vj_id j" "vj_artifact (G j) = vj_artifact j"
    "vj_pendingBytes (G j) = vj_pendingBytes j \<or> vj_pendingBytes (G j) = None" "vj_runner (G j) = vj_runner j"
    "vj_persist (G j) = vj_persist j" "vj_admission (G j) = vj_admission j" for j
    using assms(5) by auto
  have "vj_artifact (vjob m i) = None" using assms(4) g(3) by (simp add: endable_def)
  then show "ends_job c i m (finishFailure c now e i (upd_job i G m))"
    unfolding finishFailure_def upd_job_upd_job using assms(1-4) g(4) [of "vjob m i"]
    by (intro ends_finish retained_ended job_ok_ended(1)) (simp_all add: g(1-3,5-7) terminal_def)
  show "ends_job c i m (finishCancelled c now r i (upd_job i G m))"
    unfolding finishCancelled_def upd_job_upd_job using assms(1-4) g(4) [of "vjob m i"] \<open>vj_artifact (vjob m i) = None\<close>
    by (intro ends_finish retained_ended job_ok_ended(2)) (simp_all add: g(1-3,5-7) terminal_def)
qed

lemma upd_job_id: "js_get (vm_heap m) i = Some j \<Longrightarrow> js_set i j (vm_heap m) = vm_heap m \<Longrightarrow> upd_job i (\<lambda>j. j) m = m"
  by (simp add: upd_job_def vjob_def)

lemma js_set_same: "js_get m i = Some j \<Longrightarrow> js_set i j m = m"
  by (induction i j m rule: js_set.induct) (auto simp: js_get_def split: if_splits)

lemma upd_job_same: "js_has (vm_heap m) i \<Longrightarrow> upd_job i (\<lambda>j. j) m = m"
  by (cases "js_get (vm_heap m) i") (auto simp: js_has_get upd_job_def vjob_def js_set_same)

lemma ends_completed:
  assumes "video_inv c m" "js_has (vm_heap m) i" "\<not> terminal (vjob m i)" "\<not> vj_termination (vjob m i)"
    "vj_persist (vjob m i) = Persisted (Inr a)" "vj_runner (vjob m i) = AwaitCompletion"
  shows "ends_job c i m (finishCompleted c now a i m)"
proof -
  have "vj_pendingBytes (vjob m i) = Some (va_byteLength a)"
    using inv_job [OF assms(1,2)] assms(3,5) by (auto simp: job_ok_def points_ok_def)
  moreover have "endable (vjob m i)"
    using inv_job [OF assms(1,2)] assms admission_of [OF assms(1,2)] by (intro endable_running) auto
  ultimately show ?thesis
    unfolding finishCompleted_def using assms(1-3)
    by (intro ends_finish job_ok_ended(3)) (auto simp: ended_def retained_bytes_def terminal_def)
qed

lemma conclude_ends:
  assumes "video_inv c m" "js_has (vm_heap m) i" "past_admission (vjob m i)"
  shows "\<exists>m'. ends_job c i m m' \<and> conclude c now removal failure d i m = containment_returns i m'"
proof -
  have j: "job_ok (vjob m i)" using inv_job assms(1,2) by blast
  have nt: "\<not> terminal (vjob m i)" using j assms(3) by (auto simp: job_ok_def points_ok_def past_admission_def)
  note e = endable_contained [OF j assms(3)]
  have e': "endable ((vjob m i)\<lparr>vj_containment := NotContaining, vj_pendingBytes := None\<rparr>)"
    using e endable_pending by blast
  note x = ends_fail [OF assms(1,2) nt, of "\<lambda>j. j\<lparr>vj_containment := NotContaining\<rparr>", OF e, simplified]
  note y = ends_fail [OF assms(1,2) nt, of "\<lambda>j. j\<lparr>vj_containment := NotContaining, vj_pendingBytes := None\<rparr>", OF e', simplified]
  show ?thesis
    unfolding conclude_def Let_def
    by (cases removal; cases failure; cases d)
      (simp_all add: finishDisposition_def, (rule exI, rule conjI [OF _ refl], simp add: x y)+)
qed

lemma containment_returns_same [simp]:
  "vm_active (containment_returns i m) = vm_active m"
  "js_has (vm_heap m) i \<Longrightarrow> js_has (vm_heap (containment_returns i m)) k = js_has (vm_heap m) k"
  "vj_terminalAt (vjob (containment_returns i m) k) = vj_terminalAt (vjob m k)"
  by (auto simp: containment_returns_def wake_runner_def wake_watcher_def Let_def)

lemma inv_conclude:
  assumes "video_inv c m" "js_has (vm_heap m) i" "past_admission (vjob m i)"
  shows "video_inv c (conclude c now removal failure d i m) \<and> vm_active (conclude c now removal failure d i m) = None"
proof -
  obtain m' where "ends_job c i m m'" and eq: "conclude c now removal failure d i m = containment_returns i m'"
    using conclude_ends [OF assms] by blast
  then show ?thesis using inv_containment_returns [of c m' i] by (simp add: ends_job_def)
qed

lemma inv_stop_settled:
  assumes "video_inv c m" "js_has (vm_heap m) i" "vj_containment (vjob m i) = Stopping d b"
  shows "video_inv c (stop_settled c now e removal d b i m)"
proof (cases e)
  case None
  show ?thesis
  proof (cases b)
    case True
    then show ?thesis using None assms by (auto simp: stop_settled_def intro!: inv_upd job_ok_joining)
  next
    case False
    have "past_admission (vjob m i)" using assms(3) by (simp add: past_admission_def containing_def)
    then show ?thesis using None False assms inv_conclude by (simp add: stop_settled_def)
  qed
next
  case (Some e')
  have "containing (vjob m i)" using assms(3) by (simp add: containing_def)
  then show ?thesis using Some assms inv_containment_fails by (simp add: stop_settled_def)
qed

lemma inv_completion_joined:
  assumes "video_inv c m" "js_has (vm_heap m) i" "vj_containment (vjob m i) = JoiningCompletion d"
  shows "video_inv c (completion_joined c now removal r d' i m)"
    "vm_active (completion_joined c now removal r d' i m) = None"
proof -
  have p: "past_admission (vjob m i)" using assms(3) by (simp add: past_admission_def containing_def)
  have "\<not> terminal (vjob m i)" using inv_job [OF assms(1,2)] assms(3) by (auto simp: job_ok_def points_ok_def containing_def)
  then show "video_inv c (completion_joined c now removal r d' i m)" "vm_active (completion_joined c now removal r d' i m) = None"
    using inv_conclude [OF assms(1,2) p] by (simp_all add: completion_joined_def)
qed

lemma inv_completion_false:
  assumes "video_inv c m" "js_has (vm_heap m) i" "vj_persist (vjob m i) = Persisted r"
  shows "video_inv c (runner_returns i (upd_job i (\<lambda>j. j\<lparr>vj_completion := False\<rparr>) m))"
    "video_inv c (runner_at AwaitContain i (upd_job i (\<lambda>j. j\<lparr>vj_completion := False\<rparr>) m))"
  using assms by (auto simp: runner_returns_def runner_at_def job_ok_runner intro!: inv_upd)

lemma inv_completion_seen:
  assumes inv: "video_inv c m" and i: "js_has (vm_heap m) i"
    and p: "vj_persist (vjob m i) = Persisted r" and a: "vj_runner (vjob m i) = AwaitCompletion"
  shows "video_inv c (completion_seen c now r i m)"
proof (cases r)
  case (Inl e)
  let ?F = "upd_job i (\<lambda>j. j\<lparr>vj_completion := False\<rparr>)"
  have eq: "runner_at AwaitContain i (containFailure e i (?F m)) = runner_at AwaitContain i (?F (containFailure e i m))"
    by (cases "the (js_get (vm_heap m) i)")
      (simp add: runner_at_def containFailure_def contain_def terminal_def upd_job_def vjob_def)
  have "vj_persist (vjob (containFailure e i m) i) = Persisted r" using p by (simp add: containFailure_def contain_def)
  then have "video_inv c (runner_at AwaitContain i (?F (containFailure e i m)))"
    using inv i inv_containFailure by (intro inv_completion_false(2)) simp_all
  then show ?thesis
    using Inl inv_completion_false(1) [OF inv i p] by (simp add: completion_seen_def runner_catches_at runner_returns_at eq)
next
  case (Inr x)
  let ?m1 = "if terminal (vjob m i) \<or> vj_termination (vjob m i) then m else finishCompleted c now x i m"
  have "video_inv c ?m1 \<and> js_has (vm_heap ?m1) i \<and> vj_persist (vjob ?m1 i) = Persisted r \<and>
      (terminal (vjob ?m1 i) \<or> vj_termination (vjob ?m1 i))"
    using ends_completed [OF inv i] p a Inr by (auto simp: ends_job_def inv i)
  then show ?thesis
    using inv_completion_false(1) [of c ?m1 i r] unfolding completion_seen_def Inr Let_def
    by (simp add: update_applied_def terminal_def)
qed

lemma inv_persisting:
  assumes "video_inv c m" "js_has (vm_heap m) i" "\<not> terminal (vjob m i)" "vj_admission (vjob m i)" "p \<noteq> NotPersisting"
    "\<And>a. p \<noteq> Writing a" "\<And>a. p \<noteq> Persisted (Inr a)"
  shows "video_inv c (runner_at AwaitCompletion i (upd_job i (\<lambda>j. j\<lparr>vj_completion := True\<rparr>)
           (upd_job i (\<lambda>j. j\<lparr>vj_persist := p\<rparr>) m)))"
  unfolding runner_at_def upd_job_upd_job
  using assms job_ok_persisting [of "vjob m i" p "vj_pendingBytes (vjob m i)"] by (intro inv_upd) simp_all

lemma inv_writing:
  assumes "video_inv c m" "js_has (vm_heap m) i" "\<not> terminal (vjob m i)" "vj_admission (vjob m i)"
    "artifactBytes m + va_byteLength a \<le> vc_maxArtifactBytesTotal c"
  shows "video_inv c (runner_at AwaitCompletion i (upd_job i (\<lambda>j. j\<lparr>vj_completion := True\<rparr>)
           (upd_job i (\<lambda>j. j\<lparr>vj_pendingBytes := Some (va_byteLength a), vj_persist := Writing a\<rparr>) m)))"
  unfolding runner_at_def upd_job_upd_job
  using assms job_ok_persisting [of "vjob m i" "Writing a" "Some (va_byteLength a)"] inv_job [OF assms(1,2)]
  by (intro inv_quiet) simp_all

lemma inv_persistArtifact:
  assumes inv: "video_inv c m" and i: "js_has (vm_heap m) i" and nt: "\<not> terminal (vjob m i)" and a: "vj_admission (vjob m i)"
  shows "video_inv c (runner_at AwaitCompletion i (upd_job i (\<lambda>j. j\<lparr>vj_completion := True\<rparr>) (persistArtifact c now x i m)))"
proof -
  obtain r m1 where room: "makeRoomForArtifact c now (va_byteLength x) m = (r, m1)" by fastforce
  note s = sheds_makeRoom [OF room] and d = shedsD [OF sheds_makeRoom(1) [OF room]]
  have inv1: "video_inv c m1" using inv s(1) by (rule inv_sheds)
  have 1: "js_has (vm_heap m1) i" "vjob m1 i = vjob m i" using i by (simp_all add: d(1) d(4))
  show ?thesis
    using inv i nt a inv1 1 s(2)
    by (auto simp: persistArtifact_def prepared_def room Let_def simp del: upd_job_upd_job
        intro!: inv_persisting inv_writing split: bool.split)
qed

lemma inv_applyBackendUpdate:
  assumes inv: "video_inv c m" and i: "js_has (vm_heap m) i" and r: "vj_runner (vjob m i) = AwaitJob"
  shows "video_inv c (applyBackendUpdate c now u i m)"
proof (cases "terminal (vjob m i) \<or> vj_termination (vjob m i) \<or> vj_aborted (vjob m i) \<or> vj_backendId (vjob m i) \<noteq> Some (update_id u)")
  case True
  then show ?thesis
    using inv i r admission_of [OF inv i]
    by (auto simp: applyBackendUpdate_def Let_def intro!: inv_update_applied inv_runner_catches)
next
  case False
  have adm: "vj_admission (vjob m i)" using admission_of [OF inv i] r by simp
  have "vj_persist (vjob m i) \<noteq> Preparing" using inv_job [OF inv i] r by (auto simp: job_ok_def points_ok_def)
  then have e: "endable (vjob m i)" using False adm inv_job [OF inv i] by (intro endable_running) auto
  have st: "video_inv c (upd_job i (\<lambda>j. j\<lparr>vj_state := s\<rparr>) m)" if "s = Queued \<or> s = InProgress" for s
    using inv i False that by (intro inv_upd job_ok_submitted) simp_all
  note ends = ends_fail [OF inv i, of "\<lambda>j. j", simplified, unfolded upd_job_same [OF i], OF _ e]
  show ?thesis
  proof (cases u)
    case (Progress b g)
    then show ?thesis using False i r adm st
      by (simp add: applyBackendUpdate_def Let_def) (auto intro!: inv_update_applied)
  next
    case (CompletedUpdate b a)
    have "video_inv c (runner_at AwaitCompletion i (upd_job i (\<lambda>j. j\<lparr>vj_completion := True\<rparr>)
        (persistArtifact c now a i (upd_job i (\<lambda>j. j\<lparr>vj_state := InProgress\<rparr>) m))))"
      using st i False adm by (intro inv_persistArtifact) (simp_all add: terminal_def)
    then show ?thesis using False CompletedUpdate by (simp add: applyBackendUpdate_def Let_def)
  next
    case (FailedUpdate b)
    have "ends_job c i m (finishFailure c now BackendJobFailed i m)" using ends(1) False by blast
    then show ?thesis
      using False FailedUpdate r adm by (auto simp: applyBackendUpdate_def Let_def ends_job_def intro!: inv_update_applied)
  next
    case (CancelledUpdate b)
    have "ends_job c i m (finishCancelled c now ByBackend i m)" using ends(2) False by blast
    then show ?thesis
      using False CancelledUpdate r adm by (auto simp: applyBackendUpdate_def Let_def ends_job_def intro!: inv_update_applied)
  qed
qed

subsection \<open>Client operations\<close>

lemma inv_prune: "video_inv c m \<Longrightarrow> video_inv c (prune c now m)"
  by (erule inv_sheds) (rule sheds_prune(1))

lemma prune_same [simp]:
  "vm_heap (prune c now m) = vm_heap m" "vm_active (prune c now m) = vm_active m"
  "vm_stopping (prune c now m) = vm_stopping m" "vjob (prune c now m) = vjob m"
  by (simp_all add: shedsD(1-4) [OF sheds_prune(1)])

lemma inv_has_active: "video_inv c m \<Longrightarrow> vm_active m = Some i \<Longrightarrow> js_has (vm_heap m) i"
  by (auto simp: video_inv_def)

lemma inv_stored: "video_inv c m \<Longrightarrow> i \<in> set (vm_jobs m) \<Longrightarrow> js_has (vm_heap m) i"
  by (simp add: video_inv_def)

lemma inv_stopping: "video_inv c m \<Longrightarrow> video_inv c (m\<lparr>vm_stopping := b\<rparr>)"
  by (simp add: video_inv_def length_terminalJobs artifactBytes_finished vjob_def)

lemma job_ok_new: "job_ok (createJob i owner now)"
  by (simp add: createJob_def job_defs)

lemma inv_start:
  assumes inv: "video_inv c m" and fresh: "\<not> js_has (vm_heap m) i" and idle: "vm_active m = None"
  shows "video_inv c (m\<lparr>vm_heap := js_set i (createJob i owner now) (vm_heap m), vm_jobs := vm_jobs m @ [i], vm_active := Some i\<rparr>)"
    (is "video_inv c ?m")
proof -
  have new: "i \<notin> set (vm_jobs m)" using inv fresh by (auto simp: video_inv_def)
  have vj: "vjob ?m k = (if k = i then createJob i owner now else vjob m k)" for k by (simp add: vjob_def)
  have t: "\<not> terminal (createJob i owner now)" by (simp add: terminal_def createJob_def)
  have fin: "finished ?m = finished m" using new t by (simp add: vj) (intro filter_cong, auto simp: vj)
  have len: "length (terminalJobs ?m) = length (terminalJobs m)" by (simp only: length_terminalJobs fin)
  have bytes: "artifactBytes ?m = artifactBytes m"
    unfolding artifactBytes_finished fin using new by (intro arg_cong [where f = sum_list] map_cong) (auto simp: vj)
  have "\<forall>k j. js_get (vm_heap ?m) k = Some j \<longrightarrow> job_ok j \<and> vj_id j = k"
    using inv job_ok_new [of i owner now] by (auto simp: video_inv_def createJob_def)
  moreover have "\<forall>k j. js_get (vm_heap ?m) k = Some j \<longrightarrow> \<not> terminal j \<longrightarrow> vm_active ?m = Some k"
    using inv idle by (auto simp: video_inv_def)
  moreover have "distinct (vm_jobs ?m)" "\<forall>k \<in> set (vm_jobs ?m). js_has (vm_heap ?m) k"
    using inv new by (auto simp: video_inv_def js_has_get)
  moreover have "\<forall>k. vm_active ?m = Some k \<longrightarrow> k \<in> set (vm_jobs ?m) \<and> \<not> terminal (vjob ?m k) \<and>
      (\<forall>b. vj_pendingBytes (vjob ?m k) = Some b \<longrightarrow> artifactBytes ?m + b \<le> vc_maxArtifactBytesTotal c)"
    using t by (simp add: vj) (simp add: createJob_def)
  moreover have "length (terminalJobs ?m) \<le> vc_maxTerminalJobs c" "artifactBytes ?m \<le> vc_maxArtifactBytesTotal c"
    using inv unfolding len bytes by (simp_all add: video_inv_def)
  ultimately show ?thesis unfolding video_inv_def by blast
qed

lemma at_pointE:
  assumes "at_point i Q f m = Some m'"
  obtains "js_has (vm_heap m) i" "Q (vjob m i)" "m' = f i m"
  using assms by (auto simp: at_point_def split: if_splits)

lemma inv_client_step:
  assumes inv: "video_inv c m"
  shows "\<not> js_has (vm_heap m) i \<Longrightarrow> video_inv c (snd (start_job c now owner i m))"
    "video_inv c (snd (get_job c now owner i m))" "video_inv c (cancel_job c now owner i m)"
    "video_inv c (snd (delete_job c now owner i m))" "video_inv c (shutdown c now m)" "video_inv c (cancelActive c now m)"
    "video_inv c (failActiveForMemoryPressure c now m)"
proof -
  note P = inv_prune [OF inv, of now] and A = inv_has_active [OF inv]
  show "\<not> js_has (vm_heap m) i \<Longrightarrow> video_inv c (snd (start_job c now owner i m))"
    using inv_start [OF P] P by (auto simp: start_job_def Let_def)
  show "video_inv c (snd (get_job c now owner i m))" using P by (simp add: get_job_def Let_def)
  show "video_inv c (cancel_job c now owner i m)"
    using P inv_terminate [OF P] inv_stored [OF P, of i] by (auto simp: cancel_job_def owned_job_def Let_def)
  show "video_inv c (snd (delete_job c now owner i m))"
  proof (cases "owned_job owner i (prune c now m)")
    case (Some j)
    then have "j = vjob m i" by (simp add: owned_job_def split: if_splits)
    then show ?thesis
      using P inv_sheds [OF P sheds_remove, of i] Some by (auto simp: delete_job_def Let_def)
  qed (simp add: delete_job_def Let_def P)
  show "video_inv c (shutdown c now m)"
    using inv_stopping [OF P, of True] A by (auto simp: shutdown_def Let_def split: option.split intro!: inv_terminate)
  show "video_inv c (cancelActive c now m)"
    using P A by (auto simp: cancelActive_def Let_def split: option.split intro!: inv_terminate)
  show "video_inv c (failActiveForMemoryPressure c now m)"
    using P A by (auto simp: failActiveForMemoryPressure_def Let_def split: option.split intro!: inv_containFailure)
qed

lemma inv_written_event:
  assumes "video_inv c m" "js_has (vm_heap m) i" "vj_persist (vjob m i) = Writing a"
  shows "video_inv c (upd_job i (\<lambda>j. j\<lparr>vj_persist := Persisted (case (r, vj_persist j) of
          (None, Writing a) \<Rightarrow> Inr a | (Some e, p) \<Rightarrow> Inl e | (None, p) \<Rightarrow> Inl AbortReason)\<rparr>) m)" (is "video_inv c ?m")
proof (cases r)
  case None
  then have "?m = upd_job i (\<lambda>j. j\<lparr>vj_persist := Persisted (Inr a)\<rparr>) m"
    using assms(3) by (intro upd_job_cong_at) simp
  then show ?thesis using inv_written [OF assms] by simp
next
  case (Some e)
  then show ?thesis using inv_persisted_error [OF assms(1,2)] assms(3) by simp
qed

lemma inv_video_step:
  assumes inv: "video_inv c m" and step: "video_step c e m = Some m'"
  shows "video_inv c m'"
proof (cases e)
  case (StartJob now owner i)
  then show ?thesis using step inv_client_step(1) [OF inv] by (auto split: if_splits)
next
  case (Written i r)
  then show ?thesis using step inv inv_written_event by (auto simp: point_discs elim!: at_pointE)
next
  case (BackendReports now i r)
  then show ?thesis
    using step inv by (cases r) (auto elim!: at_pointE intro: inv_runner_catches inv_applyBackendUpdate)
next
  case (Prepared now i r)
  then show ?thesis
    using step inv by (cases r) (auto elim!: at_pointE intro: inv_persisted_error inv_prepared)
next
  case (PollTick i r)
  then show ?thesis
    using step inv admission_of by (cases r) (auto elim!: at_pointE intro!: inv_runner_catches inv_poll_head)
next
  case (StopSettles now i e r)
  then show ?thesis using step inv by (auto simp: point_discs elim!: at_pointE intro: inv_stop_settled)
next
  case (CompletionJoined now i r)
  then show ?thesis using step inv by (auto simp: point_discs elim!: at_pointE intro: inv_completion_joined(1))
next
  case (CompletionSeen now i)
  then show ?thesis using step inv by (auto simp: point_discs elim!: at_pointE intro: inv_completion_seen)
next
  case (AdmissionJoined i)
  then show ?thesis using step inv by (auto simp: point_discs elim!: at_pointE intro: inv_admission_settled)
next
  case (RunnerAdmitted i)
  then show ?thesis using step inv by (auto elim!: at_pointE intro: inv_runner_admitted)
next
  case (AdmissionSettles i g)
  then show ?thesis using step inv by (auto elim!: at_pointE intro: inv_settle)
next
  case (AdmissionFails i g)
  then show ?thesis using step inv by (auto elim!: at_pointE intro: inv_settle)
next
  case (RunnerReady i r)
  then show ?thesis using step inv by (auto elim!: at_pointE intro: inv_runner_ready)
next
  case (Submitted i r)
  then show ?thesis using step inv by (auto elim!: at_pointE intro: inv_submitted)
next
  case (DeadlineSettles i r)
  then show ?thesis using step inv by (auto elim!: at_pointE intro: inv_deadline_settled)
qed (use step inv_client_step(2-7) [OF inv] in auto)

section \<open>Finished jobs do not change\<close>

definition same_outcome :: "video_job \<Rightarrow> video_job \<Rightarrow> bool" where
  "same_outcome j j' \<longleftrightarrow> vj_id j' = vj_id j \<and> vj_owner j' = vj_owner j \<and> vj_created j' = vj_created j \<and>
     vj_state j' = vj_state j \<and> vj_terminalAt j' = vj_terminalAt j \<and> vj_artifact j' = vj_artifact j \<and>
     vj_failure j' = vj_failure j \<and> vj_reason j' = vj_reason j \<and> vj_releases j' = vj_releases j"

lemma same_outcome_refl [simp]: "same_outcome j j"
  by (simp add: same_outcome_def)

lemma same_outcome_terminal: "same_outcome j j' \<Longrightarrow> terminal j' = terminal j"
  by (simp add: same_outcome_def terminal_def)

definition keeps :: "video_manager \<Rightarrow> video_manager \<Rightarrow> bool" where
  "keeps m m' \<longleftrightarrow> (\<forall>i. js_has (vm_heap m) i \<longrightarrow> js_has (vm_heap m') i \<and>
     (terminal (vjob m i) \<longrightarrow> same_outcome (vjob m i) (vjob m' i)))"

lemma keeps_refl [simp, intro]: "keeps m m"
  by (simp add: keeps_def)

lemma keeps_trans: "keeps m1 m2 \<Longrightarrow> keeps m2 m3 \<Longrightarrow> keeps m1 m3"
proof -
  assume k: "keeps m1 m2" "keeps m2 m3"
  show "keeps m1 m3"
    unfolding keeps_def
  proof (intro allI impI conjI)
    fix i assume i: "js_has (vm_heap m1) i"
    then have i2: "js_has (vm_heap m2) i" using k(1) by (simp add: keeps_def)
    then show "js_has (vm_heap m3) i" using k(2) by (simp add: keeps_def)
    assume t: "terminal (vjob m1 i)"
    have 1: "same_outcome (vjob m1 i) (vjob m2 i)" using k(1) i t by (simp add: keeps_def)
    then have "same_outcome (vjob m2 i) (vjob m3 i)" using k(2) i2 t same_outcome_terminal by (simp add: keeps_def)
    with 1 show "same_outcome (vjob m1 i) (vjob m3 i)" by (simp add: same_outcome_def)
  qed
qed

lemma keeps_upd: "(terminal (vjob m i) \<Longrightarrow> same_outcome (vjob m i) (f (vjob m i))) \<Longrightarrow> keeps m (upd_job i f m)"
  by (simp add: keeps_def)

lemma keeps_upd_after: "keeps m m1 \<Longrightarrow> (\<And>j. terminal j \<Longrightarrow> same_outcome j (f j)) \<Longrightarrow> keeps m (upd_job i f m1)"
  by (blast intro: keeps_trans keeps_upd)

lemma keeps_heap: "vm_heap m' = vm_heap m \<Longrightarrow> keeps m m'"
  by (simp add: keeps_def vjob_def)

lemma keeps_sheds: "sheds m m' \<Longrightarrow> keeps m m'"
  by (simp add: keeps_heap shedsD(1))

lemma keeps_report_after: "keeps m m1 \<Longrightarrow> keeps m (report i s e m1)"
  by (simp add: keeps_def)

lemma keeps_finish:
  assumes "\<not> terminal (vjob m i)"
  shows "keeps m (finish c now i (upd_job i F m))"
proof -
  have k: "keeps m (upd_job i G m)" for G using assms by (intro keeps_upd) simp
  have "keeps m (prune c now (upd_job i G m))" for G using keeps_sheds [OF sheds_prune(1)] by (blast intro: keeps_trans k)
  moreover have "keeps (upd_job i G m) (prune c now ((upd_job i G m)\<lparr>vm_active := None\<rparr>))" for G
    by (rule keeps_heap) (simp add: shedsD(1) [OF sheds_prune(1)])
  ultimately show ?thesis using k unfolding finish_def Let_def by (auto intro: keeps_trans)
qed

lemma keeps_finishes:
  assumes "\<not> terminal (vjob m i)"
  shows "keeps m (finishFailure c now e i m)" "keeps m (finishCancelled c now r i m)" "keeps m (finishCompleted c now a i m)"
  unfolding finishFailure_def finishCancelled_def finishCompleted_def using assms by (rule keeps_finish)+

lemma keeps_contain: "keeps m (contain d i m)" "keeps m (terminate r i m)" "keeps m (containFailure e i m)"
proof -
  show c: "keeps m (contain d i m)" for d by (auto simp: contain_def same_outcome_def intro!: keeps_upd)
  show "keeps m (terminate r i m)" "keeps m (containFailure e i m)"
    using c by (simp_all add: terminate_def containFailure_def)
qed

lemma keeps_runner_at: "keeps m m1 \<Longrightarrow> keeps m (runner_at p i m1)"
  unfolding runner_at_def by (erule keeps_upd_after) (simp add: same_outcome_def)

lemma keeps_watcher_at: "keeps m m1 \<Longrightarrow> keeps m (watcher_at p i m1)"
  unfolding watcher_at_def by (erule keeps_upd_after) (simp add: same_outcome_def)

lemma keeps_runner_catches: "keeps m m1 \<Longrightarrow> keeps m (runner_catches e i m1)"
  by (auto simp: runner_catches_at intro!: keeps_runner_at intro: keeps_trans keeps_contain)

lemma keeps_poll_head: "keeps m m1 \<Longrightarrow> keeps m (poll_head i m1)"
  by (auto simp: poll_head_def Let_def runner_returns_at intro!: keeps_runner_at keeps_runner_catches)

lemma keeps_update_applied: "keeps m m1 \<Longrightarrow> keeps m (update_applied i m1)"
  by (auto simp: update_applied_def runner_returns_at intro!: keeps_runner_at)

lemma keeps_wakes: "keeps m m1 \<Longrightarrow> keeps m (wake_runner i e m1)" "keeps m m1 \<Longrightarrow> keeps m (wake_watcher i e m1)"
proof -
  assume "keeps m m1"
  then have "keeps m (runner_at RunnerDone i m1)" "keeps m (watcher_at WatcherDone i m1)"
    by (rule keeps_runner_at, rule keeps_watcher_at)
  with \<open>keeps m m1\<close> show "keeps m (wake_runner i e m1)" "keeps m (wake_watcher i e m1)"
    by (auto simp: wake_runner_def wake_watcher_def runner_at_def watcher_at_def Let_def
        split: option.split intro!: keeps_report_after)
qed

lemma keeps_containment_returns: "keeps m m1 \<Longrightarrow> keeps m (containment_returns i m1)"
  by (simp add: containment_returns_def keeps_wakes)

lemma keeps_containment_fails: "keeps m (containment_fails e i m)"
  unfolding containment_fails_def by (intro keeps_wakes keeps_upd) (simp add: same_outcome_def)

lemma keeps_conclude:
  assumes "\<not> terminal (vjob m i)"
  shows "keeps m (conclude c now removal failure d i m)"
proof -
  have "keeps m (finish c now i (upd_job i F m))" for F using assms by (rule keeps_finish)
  then show ?thesis
    unfolding conclude_def Let_def finishDisposition_def finishFailure_def finishCancelled_def
    by (intro keeps_containment_returns) (auto split: option.split job_disposition.split)
qed

lemma keeps_persist:
  "keeps m (prepared c now a i m)" "keeps m (persistArtifact c now a i m)"
proof -
  show p: "keeps m (prepared c now a i m)"
  proof -
    obtain r m1 where room: "makeRoomForArtifact c now (va_byteLength a) m = (r, m1)" by fastforce
    have "keeps m m1" using sheds_makeRoom(1) [OF room] by (rule keeps_sheds)
    then show ?thesis
      by (auto simp: prepared_def Let_def room same_outcome_def intro!: keeps_upd keeps_upd_after split: bool.split)
  qed
  then show "keeps m (persistArtifact c now a i m)"
    by (auto simp: persistArtifact_def same_outcome_def intro!: keeps_upd)
qed

lemma keeps_backend: "keeps m (applyBackendUpdate c now u i m)"
proof (cases "terminal (vjob m i)")
  case True
  then show ?thesis by (auto simp: applyBackendUpdate_def Let_def intro!: keeps_update_applied)
next
  case False
  have st: "keeps m (upd_job i (\<lambda>j. j\<lparr>vj_state := s\<rparr>) m)" for s using False by (intro keeps_upd) simp
  have "keeps m (upd_job i (\<lambda>j. j\<lparr>vj_completion := True\<rparr>) (persistArtifact c now a i (upd_job i (\<lambda>j. j\<lparr>vj_state := InProgress\<rparr>) m)))" for a
    by (rule keeps_upd_after) (blast intro: keeps_trans st keeps_persist, simp add: same_outcome_def)
  then show ?thesis
    using st keeps_finishes [OF False]
    by (auto simp: applyBackendUpdate_def Let_def split: backend_update.split
        intro!: keeps_update_applied keeps_runner_catches keeps_runner_at)
qed

lemma keeps_completion_seen: "keeps m (completion_seen c now r i m)"
proof -
  have c: "keeps m (upd_job i (\<lambda>j. j\<lparr>vj_completion := False\<rparr>) m1)" if "keeps m m1" for m1
    using that by (rule keeps_upd_after) (simp add: same_outcome_def)
  then show ?thesis
    using keeps_finishes(3) [of m i c now]
    by (auto simp: completion_seen_def Let_def split: sum.split intro!: keeps_runner_catches keeps_update_applied)
qed

lemma keeps_submitted: "keeps m (submitted r i m)"
proof -
  have "keeps m (upd_job i (\<lambda>j. j\<lparr>vj_backendId := b, vj_state := s\<rparr>) m)" if "\<not> terminal (vjob m i)" for b s
    using that by (intro keeps_upd) simp
  then show ?thesis
    by (auto simp: submitted_def Let_def runner_returns_at split: sum.split intro!: keeps_runner_catches keeps_runner_at keeps_poll_head)
qed

lemma keeps_admitted: "keeps m (runner_admitted i m)"
  by (auto simp: runner_admitted_def runner_returns_at same_outcome_def split: admission_promise.split
      intro!: keeps_runner_at keeps_runner_catches keeps_upd)

lemma keeps_ready: "keeps m (runner_ready r i m)"
  by (auto simp: runner_ready_def runner_returns_at split: option.split intro!: keeps_runner_at keeps_runner_catches)

lemma keeps_deadline: "keeps m (deadline_settled r i m)"
  by (auto simp: deadline_settled_def split: option.split intro!: keeps_watcher_at keeps_contain)

lemma keeps_containment:
  assumes inv: "video_inv c m" "js_has (vm_heap m) i"
  shows "keeps m (admission_settled i d m)"
    "vj_containment (vjob m i) = Stopping d b \<Longrightarrow> keeps m (stop_settled c now e removal d b i m)"
    "vj_containment (vjob m i) = JoiningCompletion d \<Longrightarrow> keeps m (completion_joined c now removal r d i m)"
proof -
  have nt: "\<not> terminal (vjob m i)" if "containing (vjob m i)"
    using inv_job [OF inv] that by (auto simp: job_ok_def points_ok_def)
  show "keeps m (admission_settled i d m)" unfolding admission_settled_def by (rule keeps_upd) (simp add: same_outcome_def)
  show "keeps m (stop_settled c now e removal d b i m)" if "vj_containment (vjob m i) = Stopping d b"
  proof -
    have "\<not> terminal (vjob m i)" using nt that by (simp add: containing_def)
    then have "keeps m (upd_job i (\<lambda>j. j\<lparr>vj_containment := JoiningCompletion d\<rparr>) m)" by (intro keeps_upd) simp
    then show ?thesis
      using keeps_conclude [OF \<open>\<not> terminal (vjob m i)\<close>] keeps_containment_fails by (auto simp: stop_settled_def split: option.split)
  qed
  show "keeps m (completion_joined c now removal r d i m)" if "vj_containment (vjob m i) = JoiningCompletion d"
  proof -
    have "\<not> terminal (vjob m i)" using nt that by (simp add: containing_def)
    then show ?thesis using keeps_conclude by (simp add: completion_joined_def)
  qed
qed

lemma keeps_prune: "keeps m (prune c now m)"
  by (rule keeps_sheds) (rule sheds_prune(1))

lemma keeps_prune_after: "(\<And>m1. keeps (m1 :: video_manager) (f m1)) \<Longrightarrow> keeps m (f (prune c now m))"
  by (blast intro: keeps_trans keeps_prune)

lemma keeps_clients:
  "\<not> js_has (vm_heap m) i \<Longrightarrow> keeps m (snd (start_job c now owner i m))"
  "keeps m (snd (get_job c now owner i m))" "keeps m (cancel_job c now owner i m)"
  "keeps m (snd (delete_job c now owner i m))" "keeps m (shutdown c now m)" "keeps m (cancelActive c now m)"
  "keeps m (failActiveForMemoryPressure c now m)"
proof -
  show "keeps m (snd (start_job c now owner i m))" if "\<not> js_has (vm_heap m) i"
    using that keeps_prune by (auto simp: start_job_def Let_def keeps_def vjob_def js_has_get)
  show "keeps m (snd (get_job c now owner i m))" using keeps_prune by (simp add: get_job_def Let_def)
  show "keeps m (cancel_job c now owner i m)"
    using keeps_prune keeps_prune_after [OF keeps_contain(2)] by (auto simp: cancel_job_def Let_def)
  show "keeps m (snd (delete_job c now owner i m))"
    by (auto simp: delete_job_def Let_def split: option.split intro!: keeps_heap)
  have "keeps m ((prune c now m)\<lparr>vm_stopping := True\<rparr>)" by (rule keeps_heap) simp
  then show "keeps m (shutdown c now m)"
    by (auto simp: shutdown_def Let_def split: option.split intro: keeps_trans keeps_contain)
  show "keeps m (cancelActive c now m)" "keeps m (failActiveForMemoryPressure c now m)"
    using keeps_prune keeps_prune_after [OF keeps_contain(2)] keeps_prune_after [OF keeps_contain(3)]
    by (auto simp: cancelActive_def failActiveForMemoryPressure_def Let_def split: option.split)
qed

lemma keeps_step:
  assumes inv: "video_inv c m" and step: "video_step c e m = Some m'"
  shows "keeps m m'"
proof (cases e)
  case (StartJob now owner i)
  then show ?thesis using step keeps_clients(1) by (auto split: if_splits)
next
  case (BackendReports now i r)
  then show ?thesis using step by (cases r) (auto elim!: at_pointE intro: keeps_backend keeps_runner_catches)
next
  case (PollTick i r)
  then show ?thesis using step by (cases r) (auto elim!: at_pointE intro: keeps_poll_head keeps_runner_catches)
next
  case (Prepared now i r)
  then show ?thesis
    using step by (cases r) (auto elim!: at_pointE simp: same_outcome_def intro: keeps_persist keeps_upd)
next
  case (StopSettles now i e r)
  then show ?thesis using step keeps_containment(2) [OF inv] by (auto simp: point_discs elim!: at_pointE)
next
  case (CompletionJoined now i r)
  then show ?thesis using step keeps_containment(3) [OF inv] by (auto simp: point_discs elim!: at_pointE)
next
  case (AdmissionJoined i)
  then show ?thesis using step keeps_containment(1) [OF inv] by (auto simp: point_discs elim!: at_pointE)
next
  case (CompletionSeen now i)
  then show ?thesis using step by (auto simp: point_discs elim!: at_pointE intro: keeps_completion_seen)
next
  case (Written i r)
  then show ?thesis using step by (auto simp: point_discs same_outcome_def elim!: at_pointE intro!: keeps_upd)
next
  case (AdmissionSettles i g)
  then show ?thesis using step by (auto elim!: at_pointE simp: same_outcome_def intro!: keeps_upd)
next
  case (AdmissionFails i g)
  then show ?thesis using step by (auto elim!: at_pointE simp: same_outcome_def intro!: keeps_upd)
qed (use step keeps_clients(2-7) keeps_admitted keeps_ready keeps_submitted keeps_deadline in \<open>auto elim!: at_pointE\<close>)

section \<open>An active job can be ended\<close>

text \<open>
  The events of an environment that cancels the active job, settles what the manager awaits
  and lets the supervised stop succeed.
\<close>

fun cooperative :: "string \<Rightarrow> video_event \<Rightarrow> bool" where
  "cooperative i (CancelActive now) = True"
| "cooperative i (AdmissionFails k e) = (k = i)"
| "cooperative i (AdmissionJoined k) = (k = i)"
| "cooperative i (StopSettles now k e removal) = (k = i \<and> e = None \<and> removal = None)"
| "cooperative i (Prepared now k r) = (k = i \<and> (\<exists>e. r = Inl e))"
| "cooperative i (Written k r) = (k = i \<and> r \<noteq> None)"
| "cooperative i (CompletionJoined now k removal) = (k = i \<and> removal = None)"
| "cooperative i e = False"

definition can_end :: "video_config \<Rightarrow> string \<Rightarrow> nat \<Rightarrow> video_manager \<Rightarrow> bool" where
  "can_end c i n m \<longleftrightarrow> (\<exists>es m'. list_all (cooperative i) es \<and> length es \<le> n \<and>
     run_events (video_step c) es m = Some m' \<and> vm_active m' = None)"

lemma can_end_step:
  assumes "video_step c e m = Some m1" "can_end c i n m1" "cooperative i e"
  shows "can_end c i (Suc n) m"
proof -
  obtain es m' where "list_all (cooperative i) es" "length es \<le> n" "run_events (video_step c) es m1 = Some m'" "vm_active m' = None"
    using assms(2) unfolding can_end_def by blast
  then show ?thesis using assms(1,3) unfolding can_end_def by (intro exI [of _ "e # es"] exI [of _ m']) simp
qed

lemma can_end_mono: "can_end c i n m \<Longrightarrow> n \<le> k \<Longrightarrow> can_end c i k m"
  unfolding can_end_def using le_trans by blast

lemma can_end_done: "vm_active m = None \<Longrightarrow> can_end c i n m"
  unfolding can_end_def by (intro exI [of _ "[]"] exI [of _ m]) simp

lemma can_end_joining:
  assumes inv: "video_inv c m" and i: "js_has (vm_heap m) i" and j: "vj_containment (vjob m i) = JoiningCompletion d"
  shows "can_end c i 2 m"
proof -
  have last: "can_end c i 1 m1"
    if 1: "video_inv c m1" "js_has (vm_heap m1) i" "vj_containment (vjob m1 i) = JoiningCompletion d" "vj_persist (vjob m1 i) = Persisted r"
    for m1 r
  proof -
    have "video_step c (CompletionJoined 0 i None) m1 = Some (completion_joined c 0 None r d i m1)"
      using 1 by (simp add: at_point_def)
    moreover have "can_end c i 0 (completion_joined c 0 None r d i m1)"
      using inv_completion_joined(2) [OF 1(1,2,3)] by (rule can_end_done)
    ultimately have "can_end c i (Suc 0) m1" by (rule can_end_step) simp
    then show ?thesis by simp
  qed
  have np: "vj_persist (vjob m i) \<noteq> NotPersisting"
    using inv_job [OF inv i] j by (auto simp: job_ok_def points_ok_def joins_def)
  let ?m1 = "upd_job i (\<lambda>k. k\<lparr>vj_persist := Persisted (Inl AbortReason)\<rparr>) m"
  have m1: "can_end c i 1 ?m1" using inv_persisted_error [OF inv i np] i j by (intro last) simp_all
  have "can_end c i (Suc 1) m"
  proof (cases "vj_persist (vjob m i)")
    case Preparing
    then have "video_step c (Prepared 0 i (Inl AbortReason)) m = Some ?m1" using i by (simp add: at_point_def)
    then show ?thesis using m1 by (rule can_end_step) simp
  next
    case (Writing a)
    then have "video_step c (Written i (Some AbortReason)) m = Some ?m1" using i by (simp add: at_point_def)
    then show ?thesis using m1 by (rule can_end_step) simp
  next
    case (Persisted r)
    then show ?thesis using can_end_mono [OF last [OF inv i j Persisted]] by simp
  qed (use np in simp)
  then show ?thesis by (simp add: numeral_2_eq_2)
qed

lemma can_end_stopping:
  assumes inv: "video_inv c m" and i: "js_has (vm_heap m) i" and j: "vj_containment (vjob m i) = Stopping d b"
  shows "can_end c i 3 m"
proof -
  have s: "video_step c (StopSettles 0 i None None) m = Some (stop_settled c 0 None None d b i m)" (is "_ = Some ?m1")
    using i j by (simp add: at_point_def)
  have "can_end c i 2 ?m1"
  proof (cases b)
    case True
    have "?m1 = upd_job i (\<lambda>j. j\<lparr>vj_containment := JoiningCompletion d\<rparr>) m" using True by (simp add: stop_settled_def)
    then show ?thesis using inv_video_step [OF inv s] i by (intro can_end_joining [where d = d]) simp_all
  next
    case False
    have "past_admission (vjob m i)" using j by (simp add: past_admission_def containing_def)
    then have "vm_active ?m1 = None" using False inv_conclude [OF inv i] by (simp add: stop_settled_def)
    then show ?thesis by (rule can_end_done)
  qed
  with s have "can_end c i (Suc 2) m" by (rule can_end_step) simp
  then show ?thesis by (simp add: eval_nat_numeral)
qed

lemma can_end_settled:
  assumes inv: "video_inv c m" and i: "js_has (vm_heap m) i" and j: "vj_containment (vjob m i) = SettlingAdmission d"
    and p: "vj_admissionPromise (vjob m i) \<noteq> AdmissionPending"
  shows "can_end c i 4 m"
proof -
  have s: "video_step c (AdmissionJoined i) m = Some (admission_settled i d m)" using i j p by (simp add: at_point_def)
  have "can_end c i 3 (admission_settled i d m)"
    using inv_video_step [OF inv s] i
    by (intro can_end_stopping [where d = d and b = "vj_completion (vjob m i)"]) (simp_all add: admission_settled_def)
  with s have "can_end c i (Suc 3) m" by (rule can_end_step) simp
  then show ?thesis by (simp add: eval_nat_numeral)
qed

lemma can_end_containing:
  assumes inv: "video_inv c m" and i: "js_has (vm_heap m) i" and j: "containing (vjob m i)"
  shows "can_end c i 5 m"
proof (cases "vj_containment (vjob m i)")
  case (SettlingAdmission d)
  show ?thesis
  proof (cases "vj_admissionPromise (vjob m i) = AdmissionPending")
    case True
    let ?m1 = "upd_job i (\<lambda>j. j\<lparr>vj_admissionPromise := AdmissionRejected AbortReason\<rparr>) m"
    have s: "video_step c (AdmissionFails i AbortReason) m = Some ?m1" using i True by (simp add: at_point_def)
    have "can_end c i 4 ?m1" using inv_video_step [OF inv s] i SettlingAdmission by (intro can_end_settled [where d = d]) simp_all
    with s have "can_end c i (Suc 4) m" by (rule can_end_step) simp
    then show ?thesis by (simp add: eval_nat_numeral)
  next
    case False
    show ?thesis using can_end_mono [OF can_end_settled [OF inv i SettlingAdmission False]] by simp
  qed
next
  case (Stopping d b)
  show ?thesis using can_end_mono [OF can_end_stopping [OF inv i Stopping]] by simp
next
  case (JoiningCompletion d)
  show ?thesis using can_end_mono [OF can_end_joining [OF inv i JoiningCompletion]] by simp
qed (use j in \<open>simp add: containing_def\<close>)

lemma can_end_active:
  assumes inv: "video_inv c m" and a: "vm_active m = Some i"
  shows "can_end c i 6 m"
proof -
  have i: "js_has (vm_heap m) i" and nt: "\<not> terminal (vjob m i)" using inv a by (auto simp: video_inv_def)
  let ?m1 = "terminate ByRequest i (prune c 0 m)"
  have s: "video_step c (CancelActive 0) m = Some ?m1" using a by (simp add: cancelActive_def Let_def)
  have "containing (vjob ?m1 i)"
    using inv_job [OF inv i] nt
    by (auto simp: terminate_def contain_def terminal_def containing_def job_ok_def points_ok_def)
  then have "can_end c i 5 ?m1" using inv_video_step [OF inv s] i by (intro can_end_containing) simp_all
  with s have "can_end c i (Suc 5) m" by (rule can_end_step) simp
  then show ?thesis by (simp add: eval_nat_numeral)
qed

section \<open>Properties\<close>

interpretation vj: invariant_system "video_step c" "video_inv c" "\<lambda>e m. True" for c
  by unfold_locales (blast intro: inv_video_step)

lemma inv_new_manager: "video_inv c new_manager"
  by (simp add: video_inv_def new_manager_def terminalJobs_def artifactBytes_def)

lemma inv_reachable: "run_events (video_step c) es new_manager = Some m \<Longrightarrow> video_inv c m"
  by (rule vj.run_inv_free [OF _ inv_new_manager]) simp_all

interpretation vjf: invariant_system "video_step c" "\<lambda>m. video_inv c m \<and> keeps m0 m" "\<lambda>e m. True" for c m0
  by unfold_locales (blast intro: inv_video_step keeps_step keeps_trans)

lemma keeps_run: "video_inv c m \<Longrightarrow> run_events (video_step c) es m = Some m' \<Longrightarrow> keeps m m'"
  using vjf.run_inv_free [of c m m es m'] by simp

definition demo_artifact :: video_artifact where
  "demo_artifact = \<lparr>va_byteLength = 40, va_mimeType = ''video/mp4'', va_outputFormat = ''mp4'', va_fps = 16, va_frameCount = 33\<rparr>"

definition demo_video :: video_config where
  "demo_video = \<lparr>vc_maxArtifactBytes = 64, vc_maxArtifactBytesTotal = 100, vc_maxTerminalJobs = 2,
     vc_terminalTtlMs = 1000, vc_prepares = False\<rparr>"

definition demo_submitted :: "video_event list" where
  "demo_submitted = [StartJob 0 ''u'' ''a'', AdmissionSettles ''a'' True, RunnerAdmitted ''a'', RunnerReady ''a'' None,
     Submitted ''a'' (Inr (''b'', True))]"

definition demo_completion :: "video_event list" where
  "demo_completion = [BackendReports 5 ''a'' (Inr (CompletedUpdate ''b'' demo_artifact)), Written ''a'' None, CompletionSeen 6 ''a'']"

definition demo_finished :: video_manager where
  "demo_finished = the (run_events (video_step demo_video) (demo_submitted @ demo_completion) new_manager)"

lemma demo_evaluates:
  "(case run_events (video_step demo_video) (demo_submitted @ demo_completion) new_manager of
      None \<Rightarrow> False
    | Some m \<Rightarrow> terminal (vjob m ''a'') \<and> js_has (vm_heap m) ''a'' \<and>
        (case run_events (video_step demo_video) [CancelJob 9 ''u'' ''a'', StartJob 10 ''v'' ''d''] m of None \<Rightarrow> False | Some m' \<Rightarrow> True))"
  by code_simp

lemma video_demo_run: "run_events (video_step demo_video) (demo_submitted @ demo_completion) new_manager = Some demo_finished"
  using demo_evaluates by (simp add: demo_finished_def split: option.splits)

lemma demo_facts: "terminal (vjob demo_finished ''a'')" "js_has (vm_heap demo_finished) ''a''"
  using demo_evaluates by (simp_all add: video_demo_run)

lemma demo_more:
  "run_events (video_step demo_video) [CancelJob 9 ''u'' ''a'', StartJob 10 ''v'' ''d''] demo_finished \<noteq> None"
  using demo_evaluates unfolding video_demo_run by (auto split: option.splits)

lemma demo_active:
  "(case run_events (video_step demo_video) demo_submitted new_manager of None \<Rightarrow> False | Some m \<Rightarrow> vm_active m = Some ''a'')"
  by code_simp

text \<open>
  C38: one unfinished job, and bounded retention.  After any sequence of events, an unfinished job
  is the active job and is stored, the active job is unfinished, and the finished jobs that are
  kept stay within the configured count and total size.
\<close>

theorem one_unfinished_video_job:
  assumes "run_events (video_step c) es new_manager = Some m"
  shows "(\<forall>i. js_has (vm_heap m) i \<longrightarrow> (\<not> terminal (vjob m i) \<longleftrightarrow> vm_active m = Some i)) \<and>
    (\<forall>i. vm_active m = Some i \<longrightarrow> i \<in> set (vm_jobs m)) \<and>
    length (terminalJobs m) \<le> vc_maxTerminalJobs c \<and> artifactBytes m \<le> vc_maxArtifactBytesTotal c"
proof -
  have inv: "video_inv c m" using assms by (rule inv_reachable)
  have "terminal (vjob m i) = (vm_active m \<noteq> Some i)" if "js_has (vm_heap m) i" for i
    using inv_active [OF inv that] inv by (auto simp: video_inv_def)
  then show ?thesis using inv unfolding video_inv_def by blast
qed

theorem one_unfinished_video_job_witness:
  "artifactBytes demo_finished \<le> 100 \<and> vm_active demo_finished \<noteq> Some ''a''"
  using one_unfinished_video_job [OF video_demo_run] demo_facts by (auto simp: demo_video_def)

text \<open>
  C39: the admission of a job is released exactly once, when the job ends.  After any sequence of
  events, the number of releases of a job's admission is one if the job has ended and its
  admission was granted, and zero otherwise.
\<close>

theorem video_admission_released_once:
  assumes "run_events (video_step c) es new_manager = Some m" "js_has (vm_heap m) i"
  shows "vj_releases (vjob m i) =
    (if terminal (vjob m i) \<and> vj_admissionPromise (vjob m i) = AdmissionResolved True then 1 else 0)"
proof -
  have "job_ok (vjob m i)" using inv_job [OF inv_reachable [OF assms(1)] assms(2)] by simp
  then show ?thesis by (auto simp: job_ok_def admission_ok_def admission_known_def)
qed

theorem video_admission_released_once_witness:
  "vj_releases (vjob demo_finished ''a'') =
     (if vj_admissionPromise (vjob demo_finished ''a'') = AdmissionResolved True then 1 else 0)"
  using video_admission_released_once [OF video_demo_run demo_facts(2)] demo_facts(1) by simp

text \<open>
  every job has a snapshot.  After any sequence of events, \<open>snapshot\<close> does not throw on a
  job, and it describes an ended job exactly when the job has a terminal time.
\<close>

theorem video_snapshot_defined:
  assumes "run_events (video_step c) es new_manager = Some m" "js_has (vm_heap m) i"
  shows "(case snapshot (vjob m i) of
      None \<Rightarrow> False
    | Some (ActiveSnapshot k s t) \<Rightarrow> k = i \<and> s = vj_state (vjob m i) \<and> vj_terminalAt (vjob m i) = None
    | Some (CompletedSnapshot k t0 t a) \<Rightarrow> k = i \<and> vj_terminalAt (vjob m i) = Some t \<and> vj_artifact (vjob m i) = Some a
    | Some (FailedSnapshot k t0 t e) \<Rightarrow> k = i \<and> vj_terminalAt (vjob m i) = Some t \<and> vj_artifact (vjob m i) = None
    | Some (CancelledSnapshot k t0 t r) \<Rightarrow> k = i \<and> vj_terminalAt (vjob m i) = Some t \<and> vj_artifact (vjob m i) = None)"
proof -
  have "outcome_ok (vjob m i)" "vj_id (vjob m i) = i"
    using inv_job [OF inv_reachable [OF assms(1)] assms(2)] by (simp_all add: job_ok_def)
  then show ?thesis
    by (cases "vj_state (vjob m i)") (auto simp: outcome_defs snapshot_def split: option.split)
qed

theorem video_snapshot_defined_witness: "snapshot (vjob demo_finished ''a'') \<noteq> None"
  using video_snapshot_defined [OF video_demo_run demo_facts(2)] by (auto split: option.splits)

text \<open>
  an ended job is final.  Whatever happens after a job has ended, its identity, state,
  terminal time, artifact, failure, cancellation reason and number of releases stay the same.
\<close>

theorem ended_video_job_is_final:
  assumes "run_events (video_step c) es new_manager = Some m" "run_events (video_step c) fs m = Some m'"
    "js_has (vm_heap m) i" "terminal (vjob m i)"
  shows "js_has (vm_heap m') i \<and> same_outcome (vjob m i) (vjob m' i)"
  using keeps_run [OF inv_reachable [OF assms(1)] assms(2)] assms(3,4) by (simp add: keeps_def)

theorem ended_video_job_is_final_witness:
  "same_outcome (vjob demo_finished ''a'')
     (vjob (the (run_events (video_step demo_video) [CancelJob 9 ''u'' ''a'', StartJob 10 ''v'' ''d''] demo_finished)) ''a'')"
  using ended_video_job_is_final [OF video_demo_run _ demo_facts(2,1), of "[CancelJob 9 ''u'' ''a'', StartJob 10 ''v'' ''d'']"] demo_more
  by (auto split: option.splits)

text \<open>
  C40: the active job can always be ended.  From every reachable state with an active job there is
  a continuation of at most six events that cancel it, settle what the manager awaits and let
  the supervised stop succeed, after which no job is active.
\<close>

theorem active_video_job_can_end:
  assumes "run_events (video_step c) es new_manager = Some m" "vm_active m = Some i"
  shows "\<exists>fs m'. list_all (cooperative i) fs \<and> length fs \<le> 6 \<and>
    run_events (video_step c) (es @ fs) new_manager = Some m' \<and> vm_active m' = None"
proof -
  obtain fs m' where "list_all (cooperative i) fs" "length fs \<le> 6" "run_events (video_step c) fs m = Some m'" "vm_active m' = None"
    using can_end_active [OF inv_reachable [OF assms(1)] assms(2)] unfolding can_end_def by blast
  then show ?thesis using assms(1) by (auto simp: run_events_append)
qed

theorem active_video_job_can_end_witness:
  "\<exists>fs m'. list_all (cooperative ''a'') fs \<and> length fs \<le> 6 \<and>
    run_events (video_step demo_video) (demo_submitted @ fs) new_manager = Some m' \<and> vm_active m' = None"
  using active_video_job_can_end [of demo_video demo_submitted _ "''a''"] demo_active by (auto split: option.splits)

end
