(* ===== verification/Js_Number.thy ===== *)
theory Js_Number
  imports Prelude
begin

text \<open>
  JavaScript numbers, strings and JSON values.  A finite number is an exact rational, so rounding
  is not modelled; NaN and the infinities are there where the code tests for them.  Strings are
  lists of 8-bit characters.
\<close>

datatype js_num = NaN | Infinite bool | Finite rat

text \<open>\<open>Infinite True\<close> is the negative infinity.\<close>

fun js_minus :: "js_num \<Rightarrow> js_num \<Rightarrow> js_num" where
  "js_minus (Finite a) (Finite b) = Finite (a - b)"
| "js_minus (Finite a) (Infinite s) = Infinite (\<not> s)"
| "js_minus (Infinite s) (Finite b) = Infinite s"
| "js_minus (Infinite s) (Infinite t) = (if s = t then NaN else Infinite s)"
| "js_minus a b = NaN"

fun js_ge :: "js_num \<Rightarrow> js_num \<Rightarrow> bool" where
  "js_ge (Finite a) (Finite b) \<longleftrightarrow> a \<ge> b"
| "js_ge (Finite a) (Infinite s) \<longleftrightarrow> s"
| "js_ge (Infinite s) (Finite b) \<longleftrightarrow> \<not> s"
| "js_ge (Infinite s) (Infinite t) \<longleftrightarrow> \<not> s \<or> t"
| "js_ge a b \<longleftrightarrow> False"

definition MAX_SAFE_INTEGER :: int where
  "MAX_SAFE_INTEGER = 9007199254740991"

text \<open>\<open>Number.isSafeInteger\<close>, as the integer.\<close>

definition safe_integer :: "js_num \<Rightarrow> int option" where
  "safe_integer x =
     (case x of
        Finite q \<Rightarrow> (case quotient_of q of (n, d) \<Rightarrow> if d = 1 \<and> \<bar>n\<bar> \<le> MAX_SAFE_INTEGER then Some n else None)
      | _ \<Rightarrow> None)"

lemma quotient_of_of_int: "quotient_of (of_int n :: rat) = (n, 1)"
  by simp

lemma safe_integer_of_int: "safe_integer (Finite (of_int n)) = (if \<bar>n\<bar> \<le> MAX_SAFE_INTEGER then Some n else None)"
  by (simp add: safe_integer_def)

text \<open>\<open>trim\<close>: the white space among 8-bit characters.\<close>

definition js_space :: "char \<Rightarrow> bool" where
  "js_space c \<longleftrightarrow> (of_char c :: nat) \<in> {9, 10, 11, 12, 13, 32, 160}"

definition js_trim :: "string \<Rightarrow> string" where
  "js_trim s = rev (dropWhile js_space (rev (dropWhile js_space s)))"

text \<open>\<open>toLowerCase\<close> of 8-bit characters, on ASCII.\<close>

definition lower_char :: "char \<Rightarrow> char" where
  "lower_char c = (let n = (of_char c :: nat) in if 65 \<le> n \<and> n \<le> 90 then char_of (n + 32) else c)"

definition to_lower :: "string \<Rightarrow> string" where
  "to_lower s = map lower_char s"

text \<open>\<open>split\<close> at a character and \<open>join\<close>.\<close>

fun split_on :: "char \<Rightarrow> string \<Rightarrow> string list" where
  "split_on c [] = [[]]"
| "split_on c (x # xs) =
     (if x = c then [] # split_on c xs
      else case split_on c xs of [] \<Rightarrow> [[x]] | w # ws \<Rightarrow> (x # w) # ws)"

fun join_on :: "string \<Rightarrow> string list \<Rightarrow> string" where
  "join_on sep [] = []"
| "join_on sep [w] = w"
| "join_on sep (w # ws) = w @ sep @ join_on sep ws"

text \<open>Decimal digits.\<close>

definition is_digit :: "char \<Rightarrow> bool" where
  "is_digit c \<longleftrightarrow> 48 \<le> (of_char c :: nat) \<and> (of_char c :: nat) \<le> 57"

definition digits_value :: "string \<Rightarrow> nat" where
  "digits_value s = foldl (\<lambda>n c. 10 * n + (of_char c - 48)) 0 s"

text \<open>The values of \<open>JSON.parse\<close>; an object lists its properties in order.\<close>

datatype json =
    JNull
  | JBool bool
  | JNum rat
  | JStr string
  | JArr "json list"
  | JObj "(string \<times> json) list"

end
