(* ===== verification/Authorization.thy ===== *)
theory Authorization
  imports Prelude
begin

text \<open>
  Principals, permissions and the authorization decision,
  \<^verbatim>\<open>src/src/domains/auth/authorization.ts\<close>.
\<close>

datatype permission =
  InferenceChat | InferenceEmbeddings | InferenceDecision | InferenceImage | InferenceVideo |
  InferenceSpeech | InferenceTranscription | ModelsRead | ModelsManage | ConfigurationRead |
  ConfigurationManage | KeysRead | KeysManage | AccessRead | AccessManage | SessionsRead |
  SessionsRevoke | SystemRead | SystemManage

definition permission_options :: "permission list" where
  "permission_options =
    [InferenceChat, InferenceEmbeddings, InferenceDecision, InferenceImage, InferenceVideo,
     InferenceSpeech, InferenceTranscription, ModelsRead, ModelsManage, ConfigurationRead,
     ConfigurationManage, KeysRead, KeysManage, AccessRead, AccessManage, SessionsRead,
     SessionsRevoke, SystemRead, SystemManage]"

text \<open>The transform of \<open>permissionsSchema\<close>: canonical order, no duplicates.\<close>

definition parse_permissions :: "permission list \<Rightarrow> permission list" where
  "parse_permissions ps = filter (\<lambda>p. p \<in> set ps) permission_options"

definition defaultApiKeyScopes :: "permission list" where
  "defaultApiKeyScopes = parse_permissions
    [InferenceChat, InferenceEmbeddings, InferenceDecision, InferenceImage, InferenceVideo,
     InferenceSpeech, InferenceTranscription, ModelsRead]"

datatype principal =
    Anonymous
  | ApiKey string string "permission list"
  | Environment "permission list"
  | BrowserSession string "permission list"

fun permissions_of :: "principal \<Rightarrow> permission list" where
  "permissions_of Anonymous = []"
| "permissions_of (ApiKey i n ps) = ps"
| "permissions_of (Environment ps) = ps"
| "permissions_of (BrowserSession owner ps) = ps"

datatype requirement = PublicAccess | Authenticated | NeedsPermission permission

datatype decision = PublicDecision | Authorized principal | Unauthenticated | Forbidden permission

definition authorize :: "principal \<Rightarrow> requirement \<Rightarrow> decision" where
  "authorize who req =
     (if req = PublicAccess then PublicDecision
      else if who = Anonymous then Unauthenticated
      else case req of
          NeedsPermission p \<Rightarrow>
            if p \<in> set (permissions_of who) then Authorized who else Forbidden p
        | _ \<Rightarrow> Authorized who)"

fun principalOwnerId :: "principal \<Rightarrow> string option" where
  "principalOwnerId Anonymous = None"
| "principalOwnerId (ApiKey i n ps) = Some (''api-key:'' @ i)"
| "principalOwnerId (Environment ps) = Some ''environment''"
| "principalOwnerId (BrowserSession owner ps) = Some owner"

lemma permission_options_complete [simp]: "set permission_options = UNIV"
proof -
  have "p \<in> set permission_options" for p by (cases p) (simp_all add: permission_options_def)
  then show ?thesis by auto
qed

lemma set_parse_permissions [simp]: "set (parse_permissions ps) = set ps"
  by (auto simp: parse_permissions_def)

lemma distinct_permission_options: "distinct permission_options"
  by (simp add: permission_options_def)

lemma distinct_parse_permissions [simp]: "distinct (parse_permissions ps)"
  by (simp add: parse_permissions_def distinct_permission_options)

lemma parse_permissions_set: "set ps = set qs \<Longrightarrow> parse_permissions ps = parse_permissions qs"
  by (simp add: parse_permissions_def)

lemma authorize_public [simp]: "authorize p r = PublicDecision \<longleftrightarrow> r = PublicAccess"
  by (auto simp: authorize_def split: requirement.splits)

lemma authorize_anonymous [simp]: "r \<noteq> PublicAccess \<Longrightarrow> authorize Anonymous r = Unauthenticated"
  by (simp add: authorize_def)

end
