(* ===== verification/Gateway_Routes.thy ===== *)
theory Gateway_Routes
  imports Authorization Js_Number "HOL-Library.Sublist"
begin

text \<open>
  Route selection and the access requirement of every route:
  \<^verbatim>\<open>src/src/domains/runtime/route-dispatch.ts\<close>,
  \<^verbatim>\<open>src/src/domains/runtime/route-authorization.ts\<close> and the path parser of
  \<^verbatim>\<open>src/src/domains/voices/voice-http.ts\<close>.  Paths are strings of 8-bit characters;
  \<open>decodeURIComponent\<close> is written out, its result being the UTF-8 bytes it decodes.
\<close>

section \<open>JavaScript strings\<close>

definition code :: "char \<Rightarrow> nat" where
  "code c = of_char c"

definition hex_value :: "char \<Rightarrow> nat option" where
  "hex_value c =
     (let n = code c
      in if 48 \<le> n \<and> n \<le> 57 then Some (n - 48)
         else if 65 \<le> n \<and> n \<le> 70 then Some (n - 55)
         else if 97 \<le> n \<and> n \<le> 102 then Some (n - 87)
         else None)"

text \<open>One \<open>%XX\<close> escape at the front of the input.\<close>

fun percent_byte :: "string \<Rightarrow> (nat \<times> string) option" where
  "percent_byte (p # a # b # rest) =
     (if p = CHR ''%''
      then (case (hex_value a, hex_value b) of
              (Some h, Some l) \<Rightarrow> Some (16 * h + l, rest) | _ \<Rightarrow> None)
      else None)"
| "percent_byte _ = None"

fun continuation_bytes :: "nat \<Rightarrow> nat \<Rightarrow> string \<Rightarrow> (nat \<times> nat list \<times> string) option" where
  "continuation_bytes 0 acc s = Some (acc, [], s)"
| "continuation_bytes (Suc n) acc s =
     (case percent_byte s of
        None \<Rightarrow> None
      | Some (b, rest) \<Rightarrow>
          if 128 \<le> b \<and> b < 192
          then (case continuation_bytes n (64 * acc + (b - 128)) rest of
                  None \<Rightarrow> None | Some (v, bs, s') \<Rightarrow> Some (v, b # bs, s'))
          else None)"

text \<open>A whole escaped UTF-8 sequence: length by the lead byte, no overlong form, no surrogate.\<close>

definition utf8_sequence :: "string \<Rightarrow> (nat list \<times> string) option" where
  "utf8_sequence s =
     (case percent_byte s of
        None \<Rightarrow> None
      | Some (b, rest) \<Rightarrow>
          let check = (\<lambda>n low lo. case continuation_bytes n (b - low) rest of
                None \<Rightarrow> None
              | Some (v, bs, s') \<Rightarrow>
                  if lo \<le> v \<and> v < 1114112 \<and> \<not> (55296 \<le> v \<and> v < 57344) then Some (b # bs, s') else None)
          in if b < 128 then Some ([b], rest)
             else if 192 \<le> b \<and> b < 224 then check 1 192 128
             else if 224 \<le> b \<and> b < 240 then check 2 224 2048
             else if 240 \<le> b \<and> b < 248 then check 3 240 65536
             else None)"

fun decode_fuel :: "nat \<Rightarrow> string \<Rightarrow> string option" where
  "decode_fuel 0 s = (if s = [] then Some [] else None)"
| "decode_fuel (Suc n) [] = Some []"
| "decode_fuel (Suc n) (c # s) =
     (if c = CHR ''%''
      then (case utf8_sequence (c # s) of
              None \<Rightarrow> None
            | Some (bs, rest) \<Rightarrow> map_option (\<lambda>r. map char_of bs @ r) (decode_fuel n rest))
      else map_option (Cons c) (decode_fuel n s))"

text \<open>Every step consumes a character, so the length of the input is enough fuel.\<close>

definition decodeURIComponent :: "string \<Rightarrow> string option" where
  "decodeURIComponent s = decode_fuel (length s) s"

section \<open>Routes\<close>

datatype gateway_route =
  Health | Readiness | Instance | AccessManagement | KeyManagement | Transcription |
  SpeechGeneration | ImageGeneration | ImageEdit | VideoCreate | VideoStatus | VideoContent |
  VideoCancel | ChatCompletion | Embeddings | Decision | Models | ModelRetrieve |
  ModelMetadataList | ModelMetadataDetail | NotFound

definition apiHttpRoutes :: "string list" where
  "apiHttpRoutes = [
    ''/health'', ''/health/ready'', ''/_localbase/instance'', ''/_localbase/access-management'',
    ''/_localbase/api-keys'', ''/_localbase/model-management'', ''/_localbase/model-discovery'',
    ''/_localbase/hf-token'', ''/_localbase/voices'', ''/_localbase/voices/{voice_id}'',
    ''/_localbase/voices/{voice_id}/audio'', ''/_localbase/models'',
    ''/_localbase/models/{model_id}'', ''/v1/models'', ''/v1/models/{model}'',
    ''/v1/chat/completions'', ''/v1/embeddings'', ''/v1/systemone'',
    ''/v1/audio/transcriptions'', ''/v1/audio/translations'', ''/v1/audio/speech'',
    ''/v1/images/generations'', ''/v1/images/edits'', ''/v1/videos'', ''/v1/videos/{job_id}'',
    ''/v1/videos/{job_id}/content'', ''/v1/videos/{job_id}/cancel'']"

definition uiHttpRoutes :: "string list" where
  "uiHttpRoutes = [
    ''/'', ''/app'', ''/app/assets/{asset}'', ''/app/login'', ''/app/login/magic'',
    ''/app/logout'', ''/app/session'', ''/oidc/callback'', ''/github/callback'',
    ''/magic-link/callback'']"

definition uiApiPrefix :: string where "uiApiPrefix = ''/app/api''"

definition gatewayHttpRoutes :: "string list" where
  "gatewayHttpRoutes =
     apiHttpRoutes @ uiHttpRoutes @ map (\<lambda>r. ''/app/api'' @ r) apiHttpRoutes @ [''unmatched-route'']"

definition modelMetadataPrefix :: string where "modelMetadataPrefix = ''/_localbase/models/''"
definition videoPrefix :: string where "videoPrefix = ''/v1/videos/''"
definition servedModelPrefix :: string where "servedModelPrefix = ''/v1/models/''"

definition hex_or_dash :: "char \<Rightarrow> bool" where
  "hex_or_dash c \<longleftrightarrow> hex_value c \<noteq> None \<or> c = CHR ''-''"

definition videoJobIdFromPath :: "string \<Rightarrow> string option" where
  "videoJobIdFromPath pathname =
     (if \<not> prefix videoPrefix pathname then None
      else
        let suf = drop (length videoPrefix) pathname;
            ident = hd (split_on (CHR ''/'') suf)
        in if ident = [] \<or> \<not> (length ident = 36 \<and> list_all hex_or_dash ident) then None
           else if suf = ident \<or> suf = ident @ ''/content'' \<or> suf = ident @ ''/cancel'' then Some ident
           else None)"

definition modelMetadataIdFromPath :: "string \<Rightarrow> string option" where
  "modelMetadataIdFromPath pathname =
     (if \<not> prefix modelMetadataPrefix pathname then None
      else
        let encoded = drop (length modelMetadataPrefix) pathname
        in if encoded = [] \<or> CHR ''/'' \<in> set encoded then None else decodeURIComponent encoded)"

definition servedModelIdFromPath :: "string \<Rightarrow> string option" where
  "servedModelIdFromPath pathname =
     (if \<not> prefix servedModelPrefix pathname then None
      else
        let encoded = drop (length servedModelPrefix) pathname
        in if encoded = [] then None else decodeURIComponent encoded)"

text \<open>A string or \<open>undefined\<close> in a condition: the empty string is falsy.\<close>

definition truthy :: "string option \<Rightarrow> bool" where
  "truthy s \<longleftrightarrow> s \<noteq> None \<and> s \<noteq> Some []"

definition exact_routes :: "(string \<times> gateway_route) list" where
  "exact_routes = [
    (''/health'', Health), (''/health/ready'', Readiness), (''/_localbase/instance'', Instance),
    (''/_localbase/access-management'', AccessManagement), (''/_localbase/api-keys'', KeyManagement),
    (''/_localbase/models'', ModelMetadataList), (''/v1/audio/transcriptions'', Transcription),
    (''/v1/audio/translations'', Transcription), (''/v1/audio/speech'', SpeechGeneration),
    (''/v1/images/generations'', ImageGeneration), (''/v1/images/edits'', ImageEdit),
    (''/v1/videos'', VideoCreate), (''/v1/chat/completions'', ChatCompletion),
    (''/v1/embeddings'', Embeddings), (''/v1/systemone'', Decision), (''/v1/models'', Models)]"

definition selectGatewayRoute :: "string \<Rightarrow> gateway_route" where
  "selectGatewayRoute pathname =
     (case map_of exact_routes pathname of
        Some r \<Rightarrow> r
      | None \<Rightarrow>
          if truthy (videoJobIdFromPath pathname) then
            (if suffix ''/content'' pathname then VideoContent
             else if suffix ''/cancel'' pathname then VideoCancel
             else if prefix videoPrefix pathname then VideoStatus else NotFound)
          else if truthy (modelMetadataIdFromPath pathname) then ModelMetadataDetail
          else if truthy (servedModelIdFromPath pathname) then ModelRetrieve
          else NotFound)"

datatype voice_route = VoiceCollection | VoiceItem string | VoiceAudio string

definition VOICES_PATH :: string where "VOICES_PATH = ''/_localbase/voices''"

definition lower_hex :: "char \<Rightarrow> bool" where
  "lower_hex c \<longleftrightarrow> (48 \<le> code c \<and> code c \<le> 57) \<or> (97 \<le> code c \<and> code c \<le> 102)"

definition voice_id_ok :: "string \<Rightarrow> bool" where
  "voice_id_ok s \<longleftrightarrow> prefix ''voice-'' s \<and> length s = 18 \<and> list_all lower_hex (drop 6 s)"

definition voiceRouteFromPath :: "string \<Rightarrow> voice_route option" where
  "voiceRouteFromPath pathname =
     (if pathname = VOICES_PATH then Some VoiceCollection
      else if \<not> prefix (VOICES_PATH @ ''/'') pathname then None
      else case split_on (CHR ''/'') (drop (length VOICES_PATH + 1) pathname) of
          [i] \<Rightarrow> if voice_id_ok i then Some (VoiceItem i) else None
        | [i, s] \<Rightarrow> if voice_id_ok i \<and> s = ''audio'' then Some (VoiceAudio i) else None
        | _ \<Rightarrow> None)"

definition apiHttpRoute :: "string \<Rightarrow> string option" where
  "apiHttpRoute pathname =
     (case selectGatewayRoute pathname of
        Health \<Rightarrow> Some ''/health''
      | Readiness \<Rightarrow> Some ''/health/ready''
      | Instance \<Rightarrow> Some ''/_localbase/instance''
      | AccessManagement \<Rightarrow> Some ''/_localbase/access-management''
      | KeyManagement \<Rightarrow> Some ''/_localbase/api-keys''
      | ModelMetadataList \<Rightarrow> Some ''/_localbase/models''
      | ModelMetadataDetail \<Rightarrow> Some ''/_localbase/models/{model_id}''
      | Transcription \<Rightarrow>
          Some (if pathname = ''/v1/audio/translations'' then ''/v1/audio/translations''
                else ''/v1/audio/transcriptions'')
      | SpeechGeneration \<Rightarrow> Some ''/v1/audio/speech''
      | ImageGeneration \<Rightarrow> Some ''/v1/images/generations''
      | ImageEdit \<Rightarrow> Some ''/v1/images/edits''
      | VideoCreate \<Rightarrow> Some ''/v1/videos''
      | VideoStatus \<Rightarrow> Some ''/v1/videos/{job_id}''
      | VideoContent \<Rightarrow> Some ''/v1/videos/{job_id}/content''
      | VideoCancel \<Rightarrow> Some ''/v1/videos/{job_id}/cancel''
      | ChatCompletion \<Rightarrow> Some ''/v1/chat/completions''
      | Embeddings \<Rightarrow> Some ''/v1/embeddings''
      | Decision \<Rightarrow> Some ''/v1/systemone''
      | Models \<Rightarrow> Some ''/v1/models''
      | ModelRetrieve \<Rightarrow> Some ''/v1/models/{model}''
      | NotFound \<Rightarrow>
          if pathname \<in> {''/_localbase/model-management'', ''/_localbase/model-discovery'',
                          ''/_localbase/hf-token''}
          then Some pathname
          else case voiceRouteFromPath pathname of
              Some VoiceCollection \<Rightarrow> Some ''/_localbase/voices''
            | Some (VoiceItem _) \<Rightarrow> Some ''/_localbase/voices/{voice_id}''
            | Some (VoiceAudio _) \<Rightarrow> Some ''/_localbase/voices/{voice_id}/audio''
            | None \<Rightarrow> None)"

definition without_query :: "string \<Rightarrow> string" where
  "without_query value = takeWhile (\<lambda>c. c \<noteq> CHR ''?'') value"

definition canonicalGatewayHttpRoute :: "string \<Rightarrow> string" where
  "canonicalGatewayHttpRoute value =
     (let pathname = without_query value
      in case apiHttpRoute pathname of
           Some r \<Rightarrow> r
         | None \<Rightarrow>
             if pathname \<in> set uiHttpRoutes then pathname
             else if pathname = ''/app/'' then ''/app''
             else if prefix ''/app/assets/'' pathname then ''/app/assets/{asset}''
             else if prefix (uiApiPrefix @ ''/'') pathname
             then (case apiHttpRoute (drop (length uiApiPrefix) pathname) of
                     Some r \<Rightarrow> uiApiPrefix @ r | None \<Rightarrow> ''unmatched-route'')
             else ''unmatched-route'')"

section \<open>Hints for unmatched routes\<close>

definition MAX_UNMATCHED_ROUTE_SEGMENTS :: nat where
  "MAX_UNMATCHED_ROUTE_SEGMENTS = 16"

definition route_literals :: "string \<Rightarrow> string list" where
  "route_literals route =
     takeWhile (\<lambda>s. s \<noteq> [] \<and> \<not> prefix ''{'' s) (tl (split_on (CHR ''/'') route))"

definition knownRouteLiteralPrefixes :: "string list list" where
  "knownRouteLiteralPrefixes = map route_literals gatewayHttpRoutes"

fun shared_length :: "string list \<Rightarrow> string list \<Rightarrow> nat" where
  "shared_length (l # ls) (s # ss) = (if l = s then Suc (shared_length ls ss) else 0)"
| "shared_length _ _ = 0"

definition unmatchedRouteHint :: "string \<Rightarrow> string \<times> nat" where
  "unmatchedRouteHint value =
     (let segments = tl (split_on (CHR ''/'') (without_query value));
          matched = fold (\<lambda>literals m. max m (shared_length literals segments)) knownRouteLiteralPrefixes 0
      in (if matched = 0 then ''other'' else ''/'' @ join_on ''/'' (take matched segments) @ ''/*'',
          min (length segments) MAX_UNMATCHED_ROUTE_SEGMENTS))"

section \<open>Idle timeouts and buffered responses\<close>

definition unboundedIdleRoutes :: "gateway_route list" where
  "unboundedIdleRoutes = [Transcription, SpeechGeneration, ImageGeneration, ImageEdit, VideoCreate,
     VideoContent, ChatCompletion, Embeddings, Decision]"

definition unboundedIdlePaths :: "string list" where
  "unboundedIdlePaths = [''/_localbase/model-discovery'']"

definition api_path :: "string \<Rightarrow> string" where
  "api_path pathname =
     (if prefix (uiApiPrefix @ ''/'') pathname then drop (length uiApiPrefix) pathname else pathname)"

definition gatewayRequestDisablesIdleTimeout :: "string \<Rightarrow> bool" where
  "gatewayRequestDisablesIdleTimeout pathname \<longleftrightarrow>
     selectGatewayRoute (api_path pathname) \<in> set unboundedIdleRoutes \<or>
     api_path pathname \<in> set unboundedIdlePaths"

definition bufferedJsonRoutes :: "gateway_route list" where
  "bufferedJsonRoutes = [Models, ModelRetrieve, ModelMetadataList, ModelMetadataDetail]"

definition gatewayRouteServesBufferedJson :: "string \<Rightarrow> bool" where
  "gatewayRouteServesBufferedJson pathname \<longleftrightarrow>
     selectGatewayRoute (api_path pathname) \<in> set bufferedJsonRoutes"

section \<open>The requirement of a route\<close>

definition gatewayAuthorizationRequirement :: "gateway_route \<Rightarrow> string \<Rightarrow> bool \<Rightarrow> requirement" where
  "gatewayAuthorizationRequirement route meth authRequired =
     (let inference = (\<lambda>p. if authRequired then NeedsPermission p else PublicAccess)
      in if meth = ''OPTIONS'' then PublicAccess
         else case route of
             Health \<Rightarrow> PublicAccess
           | Readiness \<Rightarrow> PublicAccess
           | Instance \<Rightarrow> PublicAccess
           | AccessManagement \<Rightarrow> if meth = ''GET'' then NeedsPermission AccessRead else Authenticated
           | KeyManagement \<Rightarrow> NeedsPermission (if meth = ''GET'' then KeysRead else KeysManage)
           | ModelMetadataList \<Rightarrow> NeedsPermission ModelsRead
           | ModelMetadataDetail \<Rightarrow> NeedsPermission ModelsRead
           | VideoCreate \<Rightarrow> inference InferenceVideo
           | VideoStatus \<Rightarrow> inference InferenceVideo
           | VideoContent \<Rightarrow> inference InferenceVideo
           | VideoCancel \<Rightarrow> inference InferenceVideo
           | Models \<Rightarrow> inference ModelsRead
           | ModelRetrieve \<Rightarrow> inference ModelsRead
           | Transcription \<Rightarrow> inference InferenceTranscription
           | SpeechGeneration \<Rightarrow> inference InferenceSpeech
           | ImageGeneration \<Rightarrow> inference InferenceImage
           | ImageEdit \<Rightarrow> inference InferenceImage
           | ChatCompletion \<Rightarrow> inference InferenceChat
           | Embeddings \<Rightarrow> inference InferenceEmbeddings
           | Decision \<Rightarrow> inference InferenceDecision
           | NotFound \<Rightarrow> if authRequired then Authenticated else PublicAccess)"

section \<open>Lemmas\<close>

lemma percent_byte_shorter: "percent_byte s = Some (b, rest) \<Longrightarrow> length rest < length s"
  by (induction s rule: percent_byte.induct) (auto split: if_splits option.splits)

lemma continuation_shorter: "continuation_bytes n acc s = Some (v, bs, rest) \<Longrightarrow> length rest \<le> length s"
proof (induction n acc s arbitrary: v bs rest rule: continuation_bytes.induct)
  case (2 n acc s)
  from "2.prems" obtain b r w cs where p: "percent_byte s = Some (b, r)" and range: "128 \<le> b \<and> b < 192"
      and c: "continuation_bytes n (64 * acc + (b - 128)) r = Some (w, cs, rest)"
    by (auto split: option.splits if_splits)
  have "length rest \<le> length r" using "2.IH" [OF p refl range c] .
  then show ?case using percent_byte_shorter [OF p] by simp
qed simp

lemma utf8_shorter:
  assumes "utf8_sequence s = Some (bs, rest)"
  shows "length rest < length s"
proof -
  obtain b r where p: "percent_byte s = Some (b, r)"
    using assms by (auto simp: utf8_sequence_def split: option.splits)
  have "rest = r \<or> (\<exists>n acc v cs. continuation_bytes n acc r = Some (v, cs, rest))"
    using assms p by (auto simp: utf8_sequence_def Let_def simp del: continuation_bytes.simps One_nat_def
        split: option.splits if_splits)
  then have "length rest \<le> length r" using continuation_shorter by auto
  then show ?thesis using percent_byte_shorter [OF p] by simp
qed

lemma decode_fuel_agree: "length s \<le> n \<Longrightarrow> length s \<le> m \<Longrightarrow> decode_fuel n s = decode_fuel m s"
proof (induction n s arbitrary: m rule: decode_fuel.induct)
  case (1 s)
  then show ?case by (cases m) auto
next
  case (2 n)
  then show ?case by (cases m) auto
next
  case (3 n c s)
  then obtain k where m: "m = Suc k" by (cases m) auto
  show ?case
  proof (cases "c = CHR ''%''")
    case True
    show ?thesis
    proof (cases "utf8_sequence (c # s)")
      case None
      then show ?thesis using True by (simp add: m)
    next
      case (Some br)
      obtain bs rest where br: "br = (bs, rest)" by (cases br)
      have "length rest \<le> n" "length rest \<le> k"
        using utf8_shorter [OF Some [unfolded br]] "3.prems" m by simp_all
      from "3.IH" (1) [OF True Some br [symmetric] this] have "decode_fuel n rest = decode_fuel k rest" .
      then show ?thesis by (simp only: m decode_fuel.simps if_P [OF True] Some br option.case prod.case)
    qed
  next
    case False
    have "length s \<le> n" "length s \<le> k" using "3.prems" m by simp_all
    from "3.IH" (2) [OF False this] have "decode_fuel n s = decode_fuel k s" .
    then show ?thesis using False by (simp only: m decode_fuel.simps if_False)
  qed
qed

lemma decode_fuel_enough: "length s \<le> n \<Longrightarrow> decode_fuel n s = decodeURIComponent s"
  unfolding decodeURIComponent_def by (rule decode_fuel_agree) simp_all

lemma exact_route_cases:
  "selectGatewayRoute p = Health \<longleftrightarrow> p = ''/health''"
  "selectGatewayRoute p = Readiness \<longleftrightarrow> p = ''/health/ready''"
  "selectGatewayRoute p = Instance \<longleftrightarrow> p = ''/_localbase/instance''"
  by (simp_all add: selectGatewayRoute_def exact_routes_def)

lemma requirement_public:
  "gatewayAuthorizationRequirement r m True = PublicAccess \<longleftrightarrow>
     m = ''OPTIONS'' \<or> r = Health \<or> r = Readiness \<or> r = Instance"
  by (cases r) (simp_all add: gatewayAuthorizationRequirement_def Let_def)

lemma apiHttpRoute_bounded: "apiHttpRoute p = Some r \<Longrightarrow> r \<in> set apiHttpRoutes"
  unfolding apiHttpRoute_def apiHttpRoutes_def
  by (cases "selectGatewayRoute p") (auto split: option.splits voice_route.splits if_splits)

lemma shared_length_take: "take (shared_length ls ss) ss = take (shared_length ls ss) ls"
  by (induction ls ss rule: shared_length.induct) auto

lemma fold_max_attained:
  "fold (\<lambda>x m. max m (f x)) xs (k :: nat) = k \<or> (\<exists>x \<in> set xs. fold (\<lambda>x m. max m (f x)) xs k = f x)"
proof (induction xs arbitrary: k)
  case (Cons x xs)
  then show ?case using Cons.IH [of "max k (f x)"] by (auto simp: max_def split: if_splits)
qed simp

section \<open>Properties\<close>

text \<open>
  C25: without credentials only the liveness paths are reachable.  With authentication required,
  an anonymous request gets past the authorization check exactly when it is an \<open>OPTIONS\<close> request
  or its path is one of \<open>/health\<close>, \<open>/health/ready\<close> and \<open>/_localbase/instance\<close>.
\<close>

theorem anonymous_reaches_only_liveness:
  "authorize Anonymous (gatewayAuthorizationRequirement (selectGatewayRoute p) m True) \<noteq> Unauthenticated \<longleftrightarrow>
     m = ''OPTIONS'' \<or> p \<in> {''/health'', ''/health/ready'', ''/_localbase/instance''}"
proof -
  have "authorize Anonymous r \<noteq> Unauthenticated \<longleftrightarrow> r = PublicAccess" for r
    by (auto simp: authorize_def)
  then show ?thesis by (simp add: requirement_public exact_route_cases)
qed

text \<open>
  a default API key does inference and nothing else.  With the default scopes a key is
  authorized on every inference and model-reading route, whatever the method, and never on key
  management nor on reading the access policy.
\<close>

theorem default_key_scopes_are_inference_only:
  "(\<forall>r \<in> {VideoCreate, VideoStatus, VideoContent, VideoCancel, Models, ModelRetrieve, Transcription,
        SpeechGeneration, ImageGeneration, ImageEdit, ChatCompletion, Embeddings, Decision,
        ModelMetadataList, ModelMetadataDetail}.
      m \<noteq> ''OPTIONS'' \<longrightarrow>
      authorize (ApiKey i n defaultApiKeyScopes) (gatewayAuthorizationRequirement r m True) =
        Authorized (ApiKey i n defaultApiKeyScopes)) \<and>
   (\<exists>p. m \<noteq> ''OPTIONS'' \<longrightarrow>
      authorize (ApiKey i n defaultApiKeyScopes) (gatewayAuthorizationRequirement KeyManagement m True) = Forbidden p) \<and>
   authorize (ApiKey i n defaultApiKeyScopes) (gatewayAuthorizationRequirement AccessManagement ''GET'' True) =
     Forbidden AccessRead"
  by (simp add: gatewayAuthorizationRequirement_def authorize_def defaultApiKeyScopes_def Let_def)

theorem default_key_scopes_are_inference_only_witness:
  "authorize (ApiKey ''k'' ''n'' defaultApiKeyScopes) (gatewayAuthorizationRequirement ChatCompletion ''POST'' True) =
     Authorized (ApiKey ''k'' ''n'' defaultApiKeyScopes)"
  using default_key_scopes_are_inference_only [of "''POST''" "''k''" "''n''"] by simp

text \<open>
  route labels are bounded.  Whatever path a client sends, the label used in logs, traces
  and metrics is one of the listed routes.
\<close>

theorem route_labels_bounded:
  "canonicalGatewayHttpRoute v \<in> set gatewayHttpRoutes"
proof -
  have "''/app'' \<in> set uiHttpRoutes" "''/app/assets/{asset}'' \<in> set uiHttpRoutes"
    by (simp_all add: uiHttpRoutes_def)
  then show ?thesis
    using apiHttpRoute_bounded
    by (auto simp: canonicalGatewayHttpRoute_def gatewayHttpRoutes_def uiApiPrefix_def Let_def split: option.split)
qed

text \<open>
  an unmatched path never leaks.  The family reported for an unmatched request is either
  \<open>other\<close> or built from literals of a listed route, and the segment count is at most 16.
\<close>

theorem unmatched_hint_never_leaks:
  "fst (unmatchedRouteHint v) \<in> insert ''other''
     {''/'' @ join_on ''/'' (take k (route_literals r)) @ ''/*'' |k r. r \<in> set gatewayHttpRoutes} \<and>
   snd (unmatchedRouteHint v) \<le> 16"
proof -
  let ?s = "tl (split_on (CHR ''/'') (without_query v))"
  let ?m = "fold (\<lambda>literals m. max m (shared_length literals ?s)) knownRouteLiteralPrefixes 0"
  have "?m = 0 \<or> (\<exists>ls \<in> set knownRouteLiteralPrefixes. ?m = shared_length ls ?s)"
    by (rule fold_max_attained)
  then consider "?m = 0" | r where "r \<in> set gatewayHttpRoutes" "take ?m ?s = take ?m (route_literals r)"
    by (auto simp: knownRouteLiteralPrefixes_def shared_length_take)
  then have "fst (unmatchedRouteHint v) \<in> insert ''other''
     {''/'' @ join_on ''/'' (take k (route_literals r)) @ ''/*'' |k r. r \<in> set gatewayHttpRoutes}"
  proof cases
    case (2 r)
    then have "fst (unmatchedRouteHint v) = ''other'' \<or>
        fst (unmatchedRouteHint v) = ''/'' @ join_on ''/'' (take ?m (route_literals r)) @ ''/*''"
      by (simp add: unmatchedRouteHint_def Let_def)
    then show ?thesis using 2 by blast
  qed (simp add: unmatchedRouteHint_def Let_def)
  then show ?thesis by (simp add: unmatchedRouteHint_def Let_def MAX_UNMATCHED_ROUTE_SEGMENTS_def)
qed

end
