(* ===== verification/Model_Catalog.thy ===== *)
theory Model_Catalog
  imports Js_Number Gateway_Routes
begin

text \<open>
  The model catalog, \<^verbatim>\<open>src/src/catalog.ts\<close>: the model specification, the cross-field rules
  a specification must pass, and the lookups on it.  The fields no modelled operation reads (provider,
  names, modalities, licence, notes, generation settings) are left out.  Zod's checks of single fields
  and the URL parser are outside; \<open>hostname\<close> and \<open>pathname\<close> stand for the properties of a parsed URL.
\<close>

section \<open>Specifications\<close>

datatype model_kind = LlmModel | SttModel | TtsModel | ImageModel | VideoModel

datatype artifact_role = PrimaryArtifact | SupplementaryArtifact

record artifact_source =
  repositoryUrl :: string
  revision :: string

record model_artifact =
  ar_sourcePath :: string
  ar_filename :: string
  ar_expectedSizeBytes :: "int option"
  ar_sha256 :: "string option"
  ar_role :: artifact_role
  ar_source :: "artifact_source option"

record reference_voice =
  rv_name :: string
  rv_artifactFilename :: string

record kokoro_artifacts =
  ko_model :: string
  ko_config :: string
  ko_tokenizer :: string
  ko_tokenizerConfig :: string

datatype tts_runtime =
    LlamaTtsRuntime (projectorArtifactFilename: string) "reference_voice list"
  | KokoroOnnx kokoro_artifacts "string list" string

datatype llm_runtime = EmbeddingOnly int int | DecisionOnly

datatype image_runtime =
    DiffusionQwen3 string string string
  | DiffusionFlux1 string string string string
  | Checkpoint string

record image_lora =
  il_artifactFilename :: string
  il_defaultStrength :: rat

record image_launch_options =
  io_diffusionFlashAttention :: bool
  io_lora :: "image_lora option"

datatype video_decoder = VaeDecoder (decoder_file: string) | TaeDecoder (decoder_file: string)

datatype video_mode = T2V | TI2V | S2V string

text \<open>\<open>S2V\<close> carries the audio encoder, which only that mode maps.\<close>

record video_launch_options =
  vo_cpuOffload :: bool
  vo_diffusionFlashAttention :: bool
  vo_vaeConvDirect :: bool

record video_qualification =
  vq_maxWidth :: int
  vq_maxHeight :: int
  vq_maxFrames :: int
  vq_fps :: int
  vq_jobDeadlineMs :: int
  vq_launchOptions :: video_launch_options

record video_target =
  vt_platform :: string
  vt_architecture :: string
  vt_accelerator :: string

record video_runtime =
  vr_mode :: video_mode
  vr_diffusionModel :: string
  vr_textEncoder :: string
  vr_decoder :: video_decoder
  vr_qualification :: video_qualification
  vr_supportedTargets :: "video_target list"

datatype output_format = Wav | Avi

datatype qualification_state = Qualified | Experimental

record model_spec =
  sp_modelId :: string
  sp_qualificationState :: "qualification_state option"
  sp_kind :: model_kind
  sp_family :: string
  sp_size :: string
  sp_quant :: string
  sp_storageGb :: rat
  sp_source :: string
  sp_repositoryRevision :: string
  sp_artifacts :: "model_artifact list"
  sp_llmRuntime :: "llm_runtime option"
  sp_ttsRuntime :: "tts_runtime option"
  sp_imageRuntime :: "image_runtime option"
  sp_imageLaunchOptions :: "image_launch_options option"
  sp_videoRuntime :: "video_runtime option"
  sp_videoCatalogOnly :: bool
  sp_contextWindowTokens :: "int option"
  sp_capabilities :: "string list"
  sp_unsupportedCapabilities :: "string list"
  sp_outputFormat :: "output_format option"
  sp_experimentalRuntime :: bool
  sp_diffusionWeightsOnly :: bool

text \<open>The entries of an image runtime's artifact mapping, in the order of the object's keys.\<close>

fun image_artifacts :: "image_runtime \<Rightarrow> (string \<times> string) list" where
  "image_artifacts (DiffusionQwen3 diffusion vae encoder) =
     [(''diffusionModel'', diffusion), (''vae'', vae), (''textEncoder'', encoder)]"
| "image_artifacts (DiffusionFlux1 diffusion vae clipL t5xxl) =
     [(''diffusionModel'', diffusion), (''vae'', vae), (''clipL'', clipL), (''t5xxl'', t5xxl)]"
| "image_artifacts (Checkpoint diffusion) = [(''diffusionModel'', diffusion)]"

definition kokoro_files :: "kokoro_artifacts \<Rightarrow> (string \<times> string) list" where
  "kokoro_files k = [(''model'', ko_model k), (''config'', ko_config k), (''tokenizer'', ko_tokenizer k),
     (''tokenizerConfig'', ko_tokenizerConfig k)]"

definition video_artifacts :: "video_runtime \<Rightarrow> (string \<times> string) list" where
  "video_artifacts v =
     [(''diffusionModel'', vr_diffusionModel v), (''textEncoder'', vr_textEncoder v)] @
     (case vr_mode v of S2V audio \<Rightarrow> [(''audioEncoder'', audio)] | _ \<Rightarrow> []) @
     [(''decoder'', decoder_file (vr_decoder v))]"

definition is_llama_tts :: "model_spec \<Rightarrow> bool" where
  "is_llama_tts m \<longleftrightarrow> (case sp_ttsRuntime m of Some (LlamaTtsRuntime p v) \<Rightarrow> True | _ \<Rightarrow> False)"

definition find_artifact :: "model_spec \<Rightarrow> string \<Rightarrow> model_artifact option" where
  "find_artifact m filename = find (\<lambda>a. ar_filename a = filename) (sp_artifacts m)"

section \<open>The cross-field rules\<close>

datatype spec_issue =
    DeclaredUnsupported nat
  | GithubPathEscapes nat
  | DuplicateFilename nat
  | TtsRuntimeMissing
  | OnlyTtsRuntime
  | ProjectorNotSupplementary
  | DuplicateReferenceVoice nat
  | ReferenceVoiceNotSupplementary nat
  | ReferenceVoicesMissing
  | KokoroArtifactsNotDistinct
  | KokoroArtifactUndeclared string
  | DuplicateKokoroVoice nat
  | KokoroDefaultUndeclared
  | OnlyLlmRuntime
  | PrimaryCount
  | ImageOptionsMismatch
  | LoraNotSupplementary
  | OnlyImageRuntime
  | ImageArtifactsNotDistinct
  | ImageArtifactRole string
  | CatalogOnlyMismatch
  | VideoRuntimeMissing
  | VideoArtifactUndeclared string
  | OnlyVideoRuntime
  | DuplicateCapability nat
  | OutputFormatMismatch
  | ExperimentalMismatch
  | WeightsOnlyMismatch

text \<open>A loop over entries that keeps the names it has seen, and what each entry adds.\<close>

fun seen_loop :: "(nat \<Rightarrow> string list \<Rightarrow> 'a \<Rightarrow> 'i list) \<Rightarrow> ('a \<Rightarrow> string) \<Rightarrow> nat \<Rightarrow> string list \<Rightarrow> 'a list \<Rightarrow> 'i list" where
  "seen_loop check name i seen [] = []"
| "seen_loop check name i seen (x # xs) = check i seen x @ seen_loop check name (Suc i) (name x # seen) xs"

definition issue_if :: "bool \<Rightarrow> 'i \<Rightarrow> 'i list" where
  "issue_if b i = (if b then [i] else [])"

definition supplementary :: "model_spec \<Rightarrow> string \<Rightarrow> bool" where
  "supplementary m filename \<longleftrightarrow> (case find_artifact m filename of Some a \<Rightarrow> ar_role a = SupplementaryArtifact | None \<Rightarrow> False)"

definition artifact_repository :: "model_spec \<Rightarrow> model_artifact \<Rightarrow> string" where
  "artifact_repository m a = (case ar_source a of Some s \<Rightarrow> repositoryUrl s | None \<Rightarrow> sp_source m)"

definition artifact_issues :: "(string \<Rightarrow> string option) \<Rightarrow> model_spec \<Rightarrow> nat \<Rightarrow> string list \<Rightarrow> model_artifact \<Rightarrow> spec_issue list" where
  "artifact_issues hostname m i seen a =
     issue_if (hostname (artifact_repository m a) = Some ''github.com'' \<and>
         list_ex (\<lambda>s. s = ''.'' \<or> s = ''..'') (split_on (CHR ''/'') (ar_sourcePath a))) (GithubPathEscapes i) @
     issue_if (ar_filename a \<in> set seen) (DuplicateFilename i)"

definition tts_issues :: "model_spec \<Rightarrow> spec_issue list" where
  "tts_issues m =
     (if sp_kind m = TtsModel \<and> sp_ttsRuntime m = None then [TtsRuntimeMissing]
      else issue_if (sp_kind m \<noteq> TtsModel \<and> sp_ttsRuntime m \<noteq> None) OnlyTtsRuntime) @
     (case sp_ttsRuntime m of
        None \<Rightarrow> []
      | Some (LlamaTtsRuntime projector voices) \<Rightarrow>
          issue_if (\<not> supplementary m projector) ProjectorNotSupplementary @
          seen_loop (\<lambda>i seen v. issue_if (rv_name v \<in> set seen) (DuplicateReferenceVoice i) @
              issue_if (\<not> supplementary m (rv_artifactFilename v)) (ReferenceVoiceNotSupplementary i)) rv_name 0 [] voices @
          issue_if (''harbor'' \<notin> set (map rv_name voices) \<or> ''willow'' \<notin> set (map rv_name voices)) ReferenceVoicesMissing
      | Some (KokoroOnnx artifacts voices defaultVoice) \<Rightarrow>
          issue_if (\<not> distinct (map snd (kokoro_files artifacts))) KokoroArtifactsNotDistinct @
          concat (map (\<lambda>(name, filename). issue_if (find_artifact m filename = None) (KokoroArtifactUndeclared name)) (kokoro_files artifacts)) @
          seen_loop (\<lambda>i seen v. issue_if (v \<in> set seen) (DuplicateKokoroVoice i)) (\<lambda>v. v) 0 [] voices @
          issue_if (defaultVoice \<notin> set voices) KokoroDefaultUndeclared)"

definition image_issues :: "model_spec \<Rightarrow> spec_issue list" where
  "image_issues m =
     issue_if ((sp_kind m = ImageModel) \<noteq> (sp_imageLaunchOptions m \<noteq> None)) ImageOptionsMismatch @
     (case Option.bind (sp_imageLaunchOptions m) io_lora of
        None \<Rightarrow> []
      | Some lora \<Rightarrow>
          issue_if (\<not> supplementary m (il_artifactFilename lora) \<or>
            (case sp_imageRuntime m of None \<Rightarrow> False | Some r \<Rightarrow> il_artifactFilename lora \<in> set (map snd (image_artifacts r)))) LoraNotSupplementary) @
     (case sp_imageRuntime m of
        None \<Rightarrow> []
      | Some r \<Rightarrow>
          issue_if (sp_kind m \<noteq> ImageModel) OnlyImageRuntime @
          issue_if (\<not> distinct (map snd (image_artifacts r))) ImageArtifactsNotDistinct @
          concat (map (\<lambda>(name, filename). issue_if
              (case find_artifact m filename of
                 None \<Rightarrow> True
               | Some a \<Rightarrow> ar_role a \<noteq> (if name = ''diffusionModel'' then PrimaryArtifact else SupplementaryArtifact))
              (ImageArtifactRole name)) (image_artifacts r)))"

definition video_issues :: "model_spec \<Rightarrow> spec_issue list" where
  "video_issues m =
     issue_if (sp_videoCatalogOnly m \<and> (sp_kind m \<noteq> VideoModel \<or> sp_videoRuntime m \<noteq> None)) CatalogOnlyMismatch @
     (if sp_kind m = VideoModel
      then (case sp_videoRuntime m of
          None \<Rightarrow> issue_if (\<not> sp_videoCatalogOnly m) VideoRuntimeMissing
        | Some v \<Rightarrow> concat (map (\<lambda>(name, filename). issue_if (find_artifact m filename = None) (VideoArtifactUndeclared name)) (video_artifacts v)))
      else issue_if (sp_videoRuntime m \<noteq> None) OnlyVideoRuntime)"

definition refineModelSpec :: "(string \<Rightarrow> string option) \<Rightarrow> model_spec \<Rightarrow> spec_issue list" where
  "refineModelSpec hostname m =
     concat (map (\<lambda>(i, c). issue_if (c \<in> set (sp_capabilities m)) (DeclaredUnsupported i)) (enumerate 0 (sp_unsupportedCapabilities m))) @
     seen_loop (artifact_issues hostname m) ar_filename 0 [] (sp_artifacts m) @
     tts_issues m @
     issue_if (sp_kind m \<noteq> LlmModel \<and> sp_llmRuntime m \<noteq> None) OnlyLlmRuntime @
     issue_if (length (filter (\<lambda>a. ar_role a = PrimaryArtifact) (sp_artifacts m)) \<noteq> 1) PrimaryCount @
     image_issues m @
     video_issues m @
     seen_loop (\<lambda>i seen c. issue_if (c \<in> set seen) (DuplicateCapability i)) (\<lambda>c. c) 0 [] (sp_capabilities m) @
     issue_if (sp_outputFormat m = Some Wav \<and> sp_kind m \<noteq> TtsModel \<or>
         sp_outputFormat m = Some Avi \<and> (sp_kind m \<noteq> VideoModel \<or> sp_videoRuntime m = None)) OutputFormatMismatch @
     issue_if (sp_experimentalRuntime m \<and> sp_videoRuntime m = None) ExperimentalMismatch @
     issue_if (sp_diffusionWeightsOnly m \<and> \<not> sp_videoCatalogOnly m) WeightsOnlyMismatch"

section \<open>Lookups\<close>

datatype catalog_error =
    NoPrimaryArtifact string
  | NotLlamaTts string
  | MissingReferenceVoices string
  | InvalidReferenceArtifact string
  | InvalidUrl string

definition js_includes :: "string \<Rightarrow> string \<Rightarrow> bool" where
  "js_includes s p \<longleftrightarrow> list_ex (\<lambda>k. prefix p (drop k s)) [0..<Suc (length s)]"

definition embeddingRuntimeProfile :: "model_spec option \<Rightarrow> (int \<times> int) option" where
  "embeddingRuntimeProfile m =
     (case Option.bind m sp_llmRuntime of Some (EmbeddingOnly low high) \<Rightarrow> Some (low, high) | _ \<Rightarrow> None)"

definition isDecisionModel :: "model_spec option \<Rightarrow> bool" where
  "isDecisionModel m \<longleftrightarrow> Option.bind m sp_llmRuntime = Some DecisionOnly"

definition hasCapability :: "model_spec \<Rightarrow> string \<Rightarrow> bool" where
  "hasCapability m capability \<longleftrightarrow> list_ex (\<lambda>c. c = capability) (sp_capabilities m)"

definition legacyFeatures :: "model_spec \<Rightarrow> string list" where
  "legacyFeatures m =
     sp_capabilities m @
     (case sp_outputFormat m of Some Wav \<Rightarrow> [''wav-output''] | Some Avi \<Rightarrow> [''avi-output''] | None \<Rightarrow> []) @
     (if sp_kind m = TtsModel then [''cold-per-request''] else []) @
     (case sp_ttsRuntime m of
        Some (LlamaTtsRuntime p v) \<Rightarrow> [''catalog-reference-voices'']
      | Some (KokoroOnnx a v d) \<Rightarrow> [''bundled-native-voices'']
      | None \<Rightarrow> []) @
     (if sp_experimentalRuntime m then [''experimental''] else []) @
     (if sp_videoCatalogOnly m then [''catalog-only''] else []) @
     (if sp_diffusionWeightsOnly m then [''diffusion-weights-only''] else [])"

definition byId :: "model_spec list \<Rightarrow> string \<Rightarrow> model_spec option" where
  "byId catalog modelId = find (\<lambda>m. sp_modelId m = modelId) catalog"

definition primaryArtifact :: "model_spec \<Rightarrow> catalog_error + model_artifact" where
  "primaryArtifact m =
     (case find (\<lambda>a. ar_role a = PrimaryArtifact) (sp_artifacts m) of
        Some a \<Rightarrow> Inr a | None \<Rightarrow> Inl (NoPrimaryArtifact (sp_modelId m)))"

definition llmProjectorArtifact :: "model_spec \<Rightarrow> model_artifact option" where
  "llmProjectorArtifact m =
     (if sp_kind m \<noteq> LlmModel then None
      else find (\<lambda>a. ar_role a = SupplementaryArtifact \<and> js_includes (to_lower (ar_filename a)) ''mmproj'') (sp_artifacts m))"

definition ttsReferenceArtifacts :: "model_spec \<Rightarrow> catalog_error + (model_artifact \<times> model_artifact)" where
  "ttsReferenceArtifacts m =
     (case (sp_kind m, sp_ttsRuntime m) of
        (TtsModel, Some (LlamaTtsRuntime projector references)) \<Rightarrow>
          (case (find (\<lambda>v. rv_name v = ''harbor'') references, find (\<lambda>v. rv_name v = ''willow'') references) of
             (Some harbor, Some willow) \<Rightarrow>
               let artifactByFilename = js_map_of (map (\<lambda>a. (ar_filename a, a)) (sp_artifacts m)) in
               (case (js_get artifactByFilename (rv_artifactFilename harbor), js_get artifactByFilename (rv_artifactFilename willow)) of
                  (Some harborArtifact, Some willowArtifact) \<Rightarrow> Inr (harborArtifact, willowArtifact)
                | _ \<Rightarrow> Inl (InvalidReferenceArtifact (sp_modelId m)))
           | _ \<Rightarrow> Inl (MissingReferenceVoices (sp_modelId m)))
      | _ \<Rightarrow> Inl (NotLlamaTts (sp_modelId m)))"

definition isCustomSpeechVoiceId :: "string \<Rightarrow> bool" where
  "isCustomSpeechVoiceId voice \<longleftrightarrow> voice_id_ok voice"

definition ttsVoiceAllowed :: "model_spec \<Rightarrow> string \<Rightarrow> bool" where
  "ttsVoiceAllowed m voice \<longleftrightarrow>
     (if sp_kind m \<noteq> TtsModel then False
      else case sp_ttsRuntime m of
          None \<Rightarrow> False
        | Some (LlamaTtsRuntime projector references) \<Rightarrow>
            voice = ''default'' \<or> isCustomSpeechVoiceId voice \<or> list_ex (\<lambda>v. rv_name v = voice) references
        | Some (KokoroOnnx artifacts voices dflt) \<Rightarrow> list_ex (\<lambda>v. v = voice) voices)"

text \<open>
  The installation check; \<open>file_exists\<close> and \<open>file_size\<close> (\<open>None\<close> when \<open>stat\<close> fails) are the file
  system's answers for a file of the kind's directory.
\<close>

record installation_state =
  in_complete :: bool
  in_primaryFilename :: string

definition resolveCatalogInstallation ::
  "(string \<Rightarrow> bool) \<Rightarrow> (string \<Rightarrow> int option) \<Rightarrow> model_spec \<Rightarrow> catalog_error + installation_state" where
  "resolveCatalogInstallation file_exists file_size m =
     (case primaryArtifact m of
        Inl e \<Rightarrow> Inl e
      | Inr primary \<Rightarrow>
          let artifactStates = map (\<lambda>a. file_exists (ar_filename a) \<and>
                (case ar_expectedSizeBytes a of None \<Rightarrow> True | Some expected \<Rightarrow> file_size (ar_filename a) = Some expected)) (sp_artifacts m)
          in Inr \<lparr>in_complete = list_all (\<lambda>b. b) artifactStates, in_primaryFilename = ar_filename primary\<rparr>)"

text \<open>\<open>encodeURIComponent\<close> of a string of bytes.\<close>

definition hex_digit :: "nat \<Rightarrow> char" where
  "hex_digit n = (if n < 10 then char_of (48 + n) else char_of (55 + n))"

definition uri_unreserved :: "char \<Rightarrow> bool" where
  "uri_unreserved c \<longleftrightarrow> (let n = code c in 65 \<le> n \<and> n \<le> 90 \<or> 97 \<le> n \<and> n \<le> 122 \<or> 48 \<le> n \<and> n \<le> 57) \<or>
     c \<in> set ''-_.!~*'' \<or> code c \<in> {39, 40, 41}"

definition encode_char :: "char \<Rightarrow> string" where
  "encode_char c = (if uri_unreserved c then [c] else [CHR 0x25, hex_digit (code c div 16), hex_digit (code c mod 16)])"

definition encodeURIComponent :: "string \<Rightarrow> string" where
  "encodeURIComponent s = concat (map encode_char s)"

definition drop_last_slash :: "string \<Rightarrow> string" where
  "drop_last_slash s = (if s \<noteq> [] \<and> last s = CHR ''/'' then butlast s else s)"

definition artifactDownloadUrl ::
  "(string \<Rightarrow> string option) \<Rightarrow> (string \<Rightarrow> string) \<Rightarrow> model_spec \<Rightarrow> model_artifact \<Rightarrow> catalog_error + string" where
  "artifactDownloadUrl hostname pathname m a =
     (let source = (case ar_source a of Some s \<Rightarrow> s | None \<Rightarrow> \<lparr>repositoryUrl = sp_source m, revision = sp_repositoryRevision m\<rparr>);
          base = drop_last_slash (repositoryUrl source);
          sourcePath = dropWhile (\<lambda>c. c = CHR ''/'') (ar_sourcePath a)
      in case hostname base of
           None \<Rightarrow> Inl (InvalidUrl base)
         | Some host \<Rightarrow>
             if host = ''github.com''
             then Inr (''https://raw.githubusercontent.com'' @ pathname base @ ''/'' @ revision source @ ''/'' @
                    join_on ''/'' (map encodeURIComponent (split_on (CHR ''/'') sourcePath)))
             else Inr (base @ ''/resolve/'' @ revision source @ ''/'' @ sourcePath))"

definition listModels :: "model_spec list \<Rightarrow> model_kind option \<Rightarrow> bool \<Rightarrow> model_spec list" where
  "listModels catalog kind allowExperimental =
     filter (\<lambda>m. (case kind of None \<Rightarrow> True | Some k \<Rightarrow> sp_kind m = k) \<and>
       (allowExperimental \<or> sp_qualificationState m \<noteq> Some Experimental)) catalog"

section \<open>The context a model can be given\<close>

text \<open>\<open>parseFloat\<close>: the sign and the magnitude, where a missing magnitude is the infinity.\<close>

definition power10 :: "int \<Rightarrow> rat" where
  "power10 e = (if 0 \<le> e then 10 ^ nat e else 1 / 10 ^ nat (- e))"

definition split_sign :: "string \<Rightarrow> bool \<times> string" where
  "split_sign s = (case s of c # cs \<Rightarrow> if c = CHR ''-'' then (True, cs) else if c = CHR ''+'' then (False, cs) else (False, s) | [] \<Rightarrow> (False, s))"

definition exponent_of :: "string \<Rightarrow> int" where
  "exponent_of s =
     (case s of
        c # cs \<Rightarrow>
          if c = CHR ''e'' \<or> c = CHR ''E''
          then let (neg, ds) = split_sign cs; n = int (digits_value (takeWhile is_digit ds)) in if neg then - n else n
          else 0
      | [] \<Rightarrow> 0)"

definition parseFloat :: "string \<Rightarrow> (bool \<times> rat option) option" where
  "parseFloat s =
     (let (neg, t) = split_sign (dropWhile js_space s) in
      if prefix ''Infinity'' t then Some (neg, None)
      else
        let whole = takeWhile is_digit t; rest = dropWhile is_digit t;
            fraction = (case rest of c # cs \<Rightarrow> if c = CHR ''.'' then takeWhile is_digit cs else [] | [] \<Rightarrow> []);
            after = (case rest of c # cs \<Rightarrow> if c = CHR ''.'' then dropWhile is_digit cs else rest | [] \<Rightarrow> [])
        in if whole = [] \<and> fraction = [] then None
           else Some (neg, Some (of_nat (digits_value (whole @ fraction)) * power10 (exponent_of after - int (length fraction)))))"

definition standardBlocks :: "int list" where
  "standardBlocks = [4096, 8192, 16384, 24576, 32768, 49152, 65536, 98304, 131072]"

text \<open>\<open>block <= availableGb / (p * 8e-6)\<close> for a positive \<open>availableGb\<close>; a zero divides to an infinity of its sign.\<close>

definition block_fits :: "bool \<times> rat option \<Rightarrow> rat \<Rightarrow> int \<Rightarrow> bool" where
  "block_fits p availableGb block \<longleftrightarrow>
     (case p of
        (neg, None) \<Rightarrow> block \<le> 0
      | (neg, Some q) \<Rightarrow> \<not> neg \<and> (q = 0 \<or> of_int block \<le> availableGb / (q * (8 / 1000000))))"

definition calculateMaxSafeContextSize :: "model_spec \<Rightarrow> rat \<Rightarrow> int" where
  "calculateMaxSafeContextSize m systemVramGb =
     (case parseFloat (sp_size m) of
        None \<Rightarrow> 8192
      | Some p \<Rightarrow>
          let availableGb = (systemVramGb - sp_storageGb m) * (4 / 5) - 4 in
          if availableGb \<le> 0 then 4096
          else
            let recommended = fold (\<lambda>block r. if block_fits p availableGb block then block else r) standardBlocks 4096;
                isOlderModel = js_includes (to_lower (sp_family m)) ''phi-3'' \<or> js_includes (sp_modelId m) ''llama-3.2-'' \<or>
                  js_includes (sp_modelId m) ''llama-3-8b'';
                maxModelCtx = (if isOlderModel then 8192 else 131072)
            in min (min recommended maxModelCtx) (case sp_contextWindowTokens m of Some n \<Rightarrow> n | None \<Rightarrow> maxModelCtx))"

section \<open>What the rules give\<close>

lemma issue_if_Nil [simp]: "issue_if b i = [] \<longleftrightarrow> \<not> b"
  by (simp add: issue_if_def)

lemma seen_loop_distinct:
  assumes "\<And>i seen x. check i seen x = [] \<Longrightarrow> name x \<notin> set seen" "seen_loop check name i seen xs = []"
  shows "distinct (map name xs) \<and> set (map name xs) \<inter> set seen = {}"
  using assms(2)
proof (induction xs arbitrary: i seen)
  case (Cons x xs)
  then have "name x \<notin> set seen" "distinct (map name xs) \<and> set (map name xs) \<inter> set (name x # seen) = {}"
    using assms(1) Cons.IH [of "Suc i" "name x # seen"] by auto
  then show ?case by auto
qed simp

lemma seen_loop_each: "seen_loop check name i seen xs = [] \<Longrightarrow> x \<in> set xs \<Longrightarrow> \<exists>j s. check j s x = []"
  by (induction xs arbitrary: i seen) auto

definition accepted :: "(string \<Rightarrow> string option) \<Rightarrow> model_spec \<Rightarrow> bool" where
  "accepted hostname m \<longleftrightarrow> refineModelSpec hostname m = []"

lemma accepted_parts:
  assumes "accepted hostname m"
  shows "distinct (map ar_filename (sp_artifacts m))"
    and "\<And>a. a \<in> set (sp_artifacts m) \<Longrightarrow> hostname (artifact_repository m a) = Some ''github.com'' \<Longrightarrow>
        ''.'' \<notin> set (split_on (CHR ''/'') (ar_sourcePath a)) \<and> ''..'' \<notin> set (split_on (CHR ''/'') (ar_sourcePath a))"
    and "tts_issues m = []" "image_issues m = []" "video_issues m = []"
    and "length (filter (\<lambda>a. ar_role a = PrimaryArtifact) (sp_artifacts m)) = 1"
    and "sp_kind m \<noteq> LlmModel \<Longrightarrow> sp_llmRuntime m = None"
proof -
  have loop: "seen_loop (artifact_issues hostname m) ar_filename 0 [] (sp_artifacts m) = []"
    using assms by (simp add: accepted_def refineModelSpec_def)
  show "distinct (map ar_filename (sp_artifacts m))"
    using seen_loop_distinct [OF _ loop] by (simp add: artifact_issues_def)
  show "''.'' \<notin> set (split_on (CHR ''/'') (ar_sourcePath a)) \<and> ''..'' \<notin> set (split_on (CHR ''/'') (ar_sourcePath a))"
    if "a \<in> set (sp_artifacts m)" "hostname (artifact_repository m a) = Some ''github.com''" for a
    using seen_loop_each [OF loop that(1)] that(2) by (auto simp: artifact_issues_def list_ex_iff)
qed (use assms in \<open>auto simp: accepted_def refineModelSpec_def\<close>)

lemma find_artifact_Some: "find_artifact m f = Some a \<Longrightarrow> a \<in> set (sp_artifacts m) \<and> ar_filename a = f"
  by (auto simp: find_artifact_def find_Some_iff)

text \<open>With distinct file names the linear search and the map built from the artifacts agree.\<close>

lemma artifact_map_find:
  assumes "distinct (map ar_filename (sp_artifacts m))"
  shows "js_get (js_map_of (map (\<lambda>a. (ar_filename a, g a)) (sp_artifacts m))) f = map_option g (find_artifact m f)"
proof -
  have "map_of (map (\<lambda>a. (ar_filename a, g a)) xs) f = map_option g (find (\<lambda>a. ar_filename a = f) xs)" for xs
    by (induction xs) auto
  moreover have "map_of (rev es) = map_of es" if "distinct (map fst es)" for es :: "(string \<times> 'a) list"
    using that by (subst map_of_inject_set) (simp_all flip: rev_map)
  moreover have "distinct (map fst (map (\<lambda>a. (ar_filename a, g a)) (sp_artifacts m)))"
    using assms by (simp add: comp_def)
  ultimately show ?thesis by (simp add: js_get_map_of find_artifact_def)
qed

text \<open>The file names a runtime maps to artifacts.\<close>

fun tts_files :: "tts_runtime \<Rightarrow> string list" where
  "tts_files (LlamaTtsRuntime projector voices) = projector # map rv_artifactFilename voices"
| "tts_files (KokoroOnnx artifacts voices d) = map snd (kokoro_files artifacts)"

definition each_of :: "('a \<Rightarrow> 'b list) \<Rightarrow> 'a option \<Rightarrow> 'b list" where
  "each_of g x = (case x of Some a \<Rightarrow> g a | None \<Rightarrow> [])"

lemma each_of_mem [simp]: "y \<in> set (each_of g x) \<longleftrightarrow> (\<exists>a. x = Some a \<and> y \<in> set (g a))"
  by (cases x) (simp_all add: each_of_def)

definition mapped_files :: "model_spec \<Rightarrow> string list" where
  "mapped_files m =
     each_of tts_files (sp_ttsRuntime m) @ each_of (\<lambda>r. map snd (image_artifacts r)) (sp_imageRuntime m) @
     each_of (\<lambda>l. [il_artifactFilename l]) (Option.bind (sp_imageLaunchOptions m) io_lora) @
     each_of (\<lambda>v. map snd (video_artifacts v)) (sp_videoRuntime m)"

lemma supplementary_find: "supplementary m f \<Longrightarrow> find_artifact m f \<noteq> None"
  by (auto simp: supplementary_def split: option.splits)

lemma tts_mapped:
  assumes "tts_issues m = []"
  shows "sp_ttsRuntime m = Some (LlamaTtsRuntime p vs) \<Longrightarrow>
      supplementary m p \<and> (\<forall>v \<in> set vs. supplementary m (rv_artifactFilename v)) \<and> ''harbor'' \<in> rv_name ` set vs \<and> ''willow'' \<in> rv_name ` set vs"
    and "sp_ttsRuntime m = Some (KokoroOnnx ks ws d) \<Longrightarrow>
      (\<forall>f \<in> set (map snd (kokoro_files ks)). find_artifact m f \<noteq> None) \<and> d \<in> set ws"
    and "sp_kind m = TtsModel \<longleftrightarrow> sp_ttsRuntime m \<noteq> None"
proof -
  show "sp_ttsRuntime m = Some (LlamaTtsRuntime p vs) \<Longrightarrow>
      supplementary m p \<and> (\<forall>v \<in> set vs. supplementary m (rv_artifactFilename v)) \<and> ''harbor'' \<in> rv_name ` set vs \<and> ''willow'' \<in> rv_name ` set vs"
    using assms seen_loop_each by (fastforce simp: tts_issues_def)
qed (use assms in \<open>auto simp: tts_issues_def split: if_splits\<close>)

lemma image_mapped:
  assumes "image_issues m = []"
  shows "sp_imageRuntime m = Some r \<Longrightarrow> (n, f) \<in> set (image_artifacts r) \<Longrightarrow>
      \<exists>a. find_artifact m f = Some a \<and> ar_role a = (if n = ''diffusionModel'' then PrimaryArtifact else SupplementaryArtifact)"
    and "sp_imageRuntime m = Some r \<Longrightarrow> distinct (map snd (image_artifacts r)) \<and> sp_kind m = ImageModel"
    and "Option.bind (sp_imageLaunchOptions m) io_lora = Some l \<Longrightarrow> supplementary m (il_artifactFilename l)"
  using assms by (auto simp: image_issues_def split: option.splits if_splits)

lemma video_mapped:
  assumes "video_issues m = []" "sp_videoRuntime m = Some v" "f \<in> set (map snd (video_artifacts v))"
  shows "find_artifact m f \<noteq> None"
  using assms by (auto simp: video_issues_def split: if_splits)

lemma mapped_files_found:
  assumes "accepted hostname m" "f \<in> set (mapped_files m)"
  shows "find_artifact m f \<noteq> None"
proof -
  note parts = accepted_parts [OF assms(1)]
  consider (tts) r where "sp_ttsRuntime m = Some r" "f \<in> set (tts_files r)"
    | (image) r where "sp_imageRuntime m = Some r" "f \<in> set (map snd (image_artifacts r))"
    | (lora) l where "Option.bind (sp_imageLaunchOptions m) io_lora = Some l" "f \<in> set [il_artifactFilename l]"
    | (video) v where "sp_videoRuntime m = Some v" "f \<in> set (map snd (video_artifacts v))"
    using assms(2) unfolding mapped_files_def set_append Un_iff each_of_mem by blast
  then show ?thesis
  proof cases
    case tts
    then show ?thesis using tts_mapped [OF parts(3)] supplementary_find by (cases r) auto
  next
    case image
    then show ?thesis using image_mapped(1) [OF parts(4)] by fastforce
  next
    case lora
    then show ?thesis using image_mapped(3) [OF parts(4)] supplementary_find by auto
  next
    case video
    then show ?thesis using video_mapped [OF parts(5)] by blast
  qed
qed

lemma primary_found:
  assumes "accepted hostname m"
  shows "\<exists>a. primaryArtifact m = Inr a \<and> filter (\<lambda>a. ar_role a = PrimaryArtifact) (sp_artifacts m) = [a]"
proof -
  obtain a where a: "filter (\<lambda>a. ar_role a = PrimaryArtifact) (sp_artifacts m) = [a]"
    using accepted_parts(6) [OF assms] by (auto simp: length_Suc_conv numeral_eq_Suc)
  have "find P xs = (case filter P xs of [] \<Rightarrow> None | x # _ \<Rightarrow> Some x)" for P and xs :: "model_artifact list"
    by (induction xs) auto
  then show ?thesis using a by (auto simp: primaryArtifact_def)
qed

lemma reference_voices_found:
  assumes "accepted hostname m" "sp_ttsRuntime m = Some (LlamaTtsRuntime p vs)"
  shows "\<exists>h w. ttsReferenceArtifacts m = Inr (h, w) \<and> ar_role h = SupplementaryArtifact \<and> ar_role w = SupplementaryArtifact"
proof -
  note parts = accepted_parts [OF assms(1)] and tts = tts_mapped [OF accepted_parts(3) [OF assms(1)]]
  have found: "\<exists>v a. find (\<lambda>v. rv_name v = n) vs = Some v \<and> find_artifact m (rv_artifactFilename v) = Some a \<and> ar_role a = SupplementaryArtifact"
    if n: "n \<in> rv_name ` set vs" for n
  proof -
    have "find (\<lambda>v. rv_name v = n) vs \<noteq> None" using n by (auto simp: find_None_iff)
    then obtain v where v: "find (\<lambda>v. rv_name v = n) vs = Some v" by blast
    then have "v \<in> set vs" by (metis find_Some_iff nth_mem)
    then show ?thesis using v tts(1) [OF assms(2)] by (auto simp: supplementary_def split: option.splits)
  qed
  have kind: "sp_kind m = TtsModel" using tts(3) assms(2) by simp
  obtain v a where h: "find (\<lambda>v. rv_name v = ''harbor'') vs = Some v" "find_artifact m (rv_artifactFilename v) = Some a" "ar_role a = SupplementaryArtifact"
    using found [of "''harbor''"] tts(1) [OF assms(2)] by blast
  obtain v' b where w: "find (\<lambda>v. rv_name v = ''willow'') vs = Some v'" "find_artifact m (rv_artifactFilename v') = Some b" "ar_role b = SupplementaryArtifact"
    using found [of "''willow''"] tts(1) [OF assms(2)] by blast
  note lookup = artifact_map_find [OF parts(1), of "\<lambda>a. a"]
  show ?thesis
    unfolding ttsReferenceArtifacts_def assms(2) kind using h w by (simp add: Let_def lookup)
qed

section \<open>Download paths\<close>

text \<open>The segments a URL parser removes from a path or climbs by, percent-encoded dots included.\<close>

definition dot_segment :: "string \<Rightarrow> bool" where
  "dot_segment s \<longleftrightarrow> to_lower s \<in> {''.'', ''..'', ''%2e'', ''.%2e'', ''%2e.'', ''%2e%2e''}"

lemma code_eqD: "c = char_of n \<Longrightarrow> n < 256 \<Longrightarrow> code c = n"
  by (simp add: code_def)

lemma lower_char_special:
  shows "lower_char c = CHR ''.'' \<longleftrightarrow> c = CHR ''.''" and "lower_char c = CHR ''%'' \<longleftrightarrow> c = CHR ''%''"
proof -
  have "lower_char c = c \<or> 97 \<le> code (lower_char c)"
    by (auto simp: lower_char_def code_def Let_def)
  then show "lower_char c = CHR ''.'' \<longleftrightarrow> c = CHR ''.''" "lower_char c = CHR ''%'' \<longleftrightarrow> c = CHR ''%''"
    by (auto simp: code_def lower_char_def)
qed

lemma hex_digit_cases:
  "list_all (\<lambda>k. hex_digit k \<noteq> CHR ''/'' \<and> (lower_char (hex_digit k) = CHR ''2'' \<longleftrightarrow> k = 2) \<and>
     (lower_char (hex_digit k) = CHR ''e'' \<longleftrightarrow> k = 14)) [0..<16]"
  by code_simp

lemma hex_digit_facts:
  assumes "k < 16"
  shows "hex_digit k \<noteq> CHR ''/''" "lower_char (hex_digit k) = CHR ''2'' \<longleftrightarrow> k = 2" "lower_char (hex_digit k) = CHR ''e'' \<longleftrightarrow> k = 14"
  using hex_digit_cases assms by (auto simp: list_all_iff)

text \<open>A character encodes to itself or to three characters that are not an encoded dot.\<close>

lemma encode_char_cases:
  obtains (plain) "encode_char c = [c]" "c \<noteq> CHR ''/''" "c \<noteq> CHR ''%''"
    | (escaped) h l where "encode_char c = [CHR ''%'', h, l]" "\<not> (lower_char h = CHR ''2'' \<and> lower_char l = CHR ''e'')"
        "h \<noteq> CHR ''/''" "l \<noteq> CHR ''/''" "c \<noteq> CHR ''.''"
proof (cases "uri_unreserved c")
  case True
  then have "c \<noteq> CHR ''/''" "c \<noteq> CHR ''%''" by (auto simp: uri_unreserved_def code_def)
  then show ?thesis using True plain by (simp add: encode_char_def)
next
  case False
  then have dot: "c \<noteq> CHR ''.''" by (auto simp: uri_unreserved_def)
  have "code c < 256" by (simp add: code_def)
  then have small: "code c div 16 < 16" "code c mod 16 < 16" by auto
  have "code c \<noteq> 46"
  proof
    assume "code c = 46"
    then have "(of_char c :: nat) = of_char (CHR ''.'')" by (simp add: code_def)
    then have "c = CHR ''.''" by (simp only: of_char_eq_iff)
    then show False using dot by simp
  qed
  then have "\<not> (code c div 16 = 2 \<and> code c mod 16 = 14)" by presburger
  then show ?thesis
    using escaped False small dot hex_digit_facts [OF small(1)] hex_digit_facts [OF small(2)] by (simp add: encode_char_def)
qed

lemma encode_no_slash: "CHR ''/'' \<notin> set (encodeURIComponent s)"
proof -
  have "CHR ''/'' \<notin> set (encode_char c)" for c by (rule encode_char_cases [of c]) auto
  then show ?thesis by (simp add: encodeURIComponent_def)
qed

lemma encode_Cons: "encodeURIComponent (c # s) = encode_char c @ encodeURIComponent s"
  by (simp add: encodeURIComponent_def)

lemma encode_dot:
  shows "to_lower (encodeURIComponent s) = CHR ''.'' # t \<Longrightarrow> \<exists>s'. s = CHR ''.'' # s' \<and> to_lower (encodeURIComponent s') = t"
    and "to_lower (encodeURIComponent s) \<noteq> CHR ''%'' # CHR ''2'' # CHR ''e'' # t"
proof -
  have "\<exists>s'. s = CHR ''.'' # s' \<and> to_lower (encodeURIComponent s') = t" if "to_lower (encodeURIComponent s) = CHR ''.'' # t"
  proof (cases s)
    case Nil
    then show ?thesis using that by (simp add: encodeURIComponent_def to_lower_def)
  next
    case (Cons c s')
    show ?thesis
      by (rule encode_char_cases [of c])
        (use that Cons in \<open>auto simp: encode_Cons to_lower_def lower_char_special\<close>)
  qed
  then show "to_lower (encodeURIComponent s) = CHR ''.'' # t \<Longrightarrow> \<exists>s'. s = CHR ''.'' # s' \<and> to_lower (encodeURIComponent s') = t" .
  show "to_lower (encodeURIComponent s) \<noteq> CHR ''%'' # CHR ''2'' # CHR ''e'' # t"
  proof (cases s)
    case Nil
    then show ?thesis by (simp add: encodeURIComponent_def to_lower_def)
  next
    case (Cons c s')
    show ?thesis
      by (rule encode_char_cases [of c]) (use Cons in \<open>auto simp: encode_Cons to_lower_def lower_char_special\<close>)
  qed
qed

lemma encode_Nil: "to_lower (encodeURIComponent s) = [] \<Longrightarrow> s = []"
  by (cases s) (auto simp: encode_Cons to_lower_def encode_char_def split: if_splits)

lemma encoded_dot_segment: "dot_segment (encodeURIComponent s) \<Longrightarrow> s = ''.'' \<or> s = ''..''"
  unfolding dot_segment_def by (auto dest!: encode_dot(1) encode_Nil simp: encode_dot(2))

lemma split_drop_slashes: "set (split_on c (dropWhile (\<lambda>x. x = c) s)) \<subseteq> set (split_on c s)"
  by (induction s) auto

text \<open>The revision of an artifact's source.\<close>

definition artifact_revision :: "model_spec \<Rightarrow> model_artifact \<Rightarrow> string" where
  "artifact_revision m a = (case ar_source a of Some s \<Rightarrow> revision s | None \<Rightarrow> sp_repositoryRevision m)"

lemma github_download_url:
  assumes "accepted hostname m" "a \<in> set (sp_artifacts m)" "hostname (artifact_repository m a) = Some ''github.com''"
    and slash: "hostname (drop_last_slash (artifact_repository m a)) = hostname (artifact_repository m a)"
  shows "\<exists>segments. artifactDownloadUrl hostname pathname m a =
      Inr (''https://raw.githubusercontent.com'' @ pathname (drop_last_slash (artifact_repository m a)) @ ''/'' @
        artifact_revision m a @ ''/'' @ join_on ''/'' segments) \<and>
    (\<forall>s \<in> set segments. \<not> dot_segment s \<and> CHR ''/'' \<notin> set s)"
proof -
  let ?parts = "split_on (CHR ''/'') (dropWhile (\<lambda>c. c = CHR ''/'') (ar_sourcePath a))"
  have "\<not> dot_segment s \<and> CHR ''/'' \<notin> set s" if mem: "s \<in> set (map encodeURIComponent ?parts)" for s
  proof -
    obtain p where "p \<in> set ?parts" "s = encodeURIComponent p" using mem by auto
    then have p: "p \<in> set (split_on (CHR ''/'') (ar_sourcePath a))" "s = encodeURIComponent p"
      using split_drop_slashes by blast+
    then have "p \<noteq> ''.''" "p \<noteq> ''..''" using accepted_parts(2) [OF assms(1-3)] by auto
    then show ?thesis using p(2) encoded_dot_segment encode_no_slash by blast
  qed
  then show ?thesis
    using assms(3) slash
    by (intro exI [of _ "map encodeURIComponent ?parts"])
      (auto simp: artifactDownloadUrl_def artifact_repository_def artifact_revision_def Let_def split: option.splits)
qed

section \<open>The context grows with the memory\<close>

lemma fold_last_block:
  assumes "sorted (r' # bs)" "r \<le> r'" "\<And>b. P b \<Longrightarrow> P' b"
  shows "fold (\<lambda>b r. if P b then b else r) bs r \<le> fold (\<lambda>b r. if P' b then b else r) bs (r' :: int)"
  using assms
proof (induction bs arbitrary: r r')
  case (Cons b bs)
  let ?s = "if P b then b else r" and ?s' = "if P' b then b else r'"
  have "sorted (?s' # bs)" "?s \<le> ?s'" using Cons.prems by auto
  then show ?case using Cons.IH [of ?s' ?s] Cons.prems(3) by simp
qed simp

lemma fold_block_range:
  assumes "\<And>b. b \<in> set bs \<Longrightarrow> low \<le> b \<and> b \<le> high" "low \<le> r \<and> r \<le> high"
  shows "low \<le> fold (\<lambda>b r. if P b then b else r) bs r \<and> fold (\<lambda>b r. if P b then b else r) bs r \<le> (high :: int)"
  using assms by (induction bs arbitrary: r) auto

lemma power10_pos: "0 < power10 e"
  by (simp add: power10_def)

lemma parseFloat_nonneg: "parseFloat s = Some (neg, Some q) \<Longrightarrow> 0 \<le> q"
  using power10_pos by (fastforce simp: parseFloat_def Let_def intro: mult_nonneg_nonneg less_imp_le split: prod.splits if_splits)

lemma block_fits_mono:
  assumes "block_fits p a b" "a \<le> a'" "\<And>neg q. p = (neg, Some q) \<Longrightarrow> 0 \<le> q"
  shows "block_fits p a' b"
proof (cases p)
  case (Pair neg m)
  show ?thesis
  proof (cases m)
    case None
    then show ?thesis using assms(1) Pair by (simp add: block_fits_def)
  next
    case (Some q)
    have "0 \<le> q" using assms(3) Pair Some by blast
    then have "a / (q * (8 / 1000000)) \<le> a' / (q * (8 / 1000000))" using assms(2) by (intro divide_right_mono) simp_all
    then show ?thesis using assms(1) Pair Some by (auto simp: block_fits_def)
  qed
qed

text \<open>The recommended block, before the caps of the model.\<close>

definition recommended_block :: "bool \<times> rat option \<Rightarrow> rat \<Rightarrow> int" where
  "recommended_block p availableGb = fold (\<lambda>block r. if block_fits p availableGb block then block else r) standardBlocks 4096"

lemma recommended_range: "4096 \<le> recommended_block p a \<and> recommended_block p a \<le> 131072"
  unfolding recommended_block_def by (rule fold_block_range) (auto simp: standardBlocks_def)

lemma recommended_mono:
  assumes "a \<le> a'" "\<And>neg q. p = (neg, Some q) \<Longrightarrow> 0 \<le> q"
  shows "recommended_block p a \<le> recommended_block p a'"
  unfolding recommended_block_def
  by (rule fold_last_block) (simp_all add: standardBlocks_def, rule block_fits_mono [OF _ assms])

definition available_gb :: "model_spec \<Rightarrow> rat \<Rightarrow> rat" where
  "available_gb m g = (g - sp_storageGb m) * (4 / 5) - 4"

lemma available_gb_mono: "g \<le> g' \<Longrightarrow> available_gb m g \<le> available_gb m g'"
  by (simp add: available_gb_def)

lemma context_size_unfold:
  "calculateMaxSafeContextSize m g =
     (case parseFloat (sp_size m) of
        None \<Rightarrow> 8192
      | Some p \<Rightarrow>
          if available_gb m g \<le> 0 then 4096
          else
            let cap = (if js_includes (to_lower (sp_family m)) ''phi-3'' \<or> js_includes (sp_modelId m) ''llama-3.2-'' \<or>
                  js_includes (sp_modelId m) ''llama-3-8b'' then 8192 else 131072)
            in min (min (recommended_block p (available_gb m g)) cap)
                 (case sp_contextWindowTokens m of Some n \<Rightarrow> n | None \<Rightarrow> cap))"
  by (simp add: calculateMaxSafeContextSize_def recommended_block_def available_gb_def Let_def split: option.split)

section \<open>Properties\<close>

text \<open>
  a specification without issues resolves.  It has exactly one primary artifact, which the
  lookup returns; every file name a runtime profile or a LoRA maps is a declared artifact, the same
  in the linear search and in the map by name; an image runtime's diffusion model is the primary
  artifact and its encoders are supplementary; both reference voices of a llama-tts model are found;
  the default voice of a Kokoro model is allowed; and the installation check does not throw.
\<close>

theorem accepted_spec_resolves:
  assumes "refineModelSpec hostname m = []"
  shows "(\<exists>a. primaryArtifact m = Inr a \<and> filter (\<lambda>a. ar_role a = PrimaryArtifact) (sp_artifacts m) = [a]) \<and>
    (\<forall>f \<in> set (mapped_files m). \<exists>a. find_artifact m f = Some a \<and>
        js_get (js_map_of (map (\<lambda>a. (ar_filename a, a)) (sp_artifacts m))) f = Some a) \<and>
    (\<forall>r n f. sp_imageRuntime m = Some r \<and> (n, f) \<in> set (image_artifacts r) \<longrightarrow>
        (\<exists>a. find_artifact m f = Some a \<and> (ar_role a = PrimaryArtifact \<longleftrightarrow> n = ''diffusionModel''))) \<and>
    (\<forall>p vs. sp_ttsRuntime m = Some (LlamaTtsRuntime p vs) \<longrightarrow> (\<exists>h w. ttsReferenceArtifacts m = Inr (h, w))) \<and>
    (\<forall>ks ws d. sp_ttsRuntime m = Some (KokoroOnnx ks ws d) \<longrightarrow> ttsVoiceAllowed m d) \<and>
    (\<exists>state. resolveCatalogInstallation file_exists file_size m = Inr state)"
proof -
  have acc: "accepted hostname m" using assms by (simp add: accepted_def)
  note parts = accepted_parts [OF acc] and primary = primary_found [OF acc]
  have files: "\<exists>a. find_artifact m f = Some a \<and> js_get (js_map_of (map (\<lambda>a. (ar_filename a, a)) (sp_artifacts m))) f = Some a"
    if "f \<in> set (mapped_files m)" for f
    using mapped_files_found [OF acc that] by (simp add: artifact_map_find [OF parts(1)])
  have image: "\<exists>a. find_artifact m f = Some a \<and> (ar_role a = PrimaryArtifact \<longleftrightarrow> n = ''diffusionModel'')"
    if "sp_imageRuntime m = Some r \<and> (n, f) \<in> set (image_artifacts r)" for r n f
    using image_mapped(1) [OF parts(4)] that by (metis artifact_role.distinct(1))
  have kokoro: "ttsVoiceAllowed m d" if "sp_ttsRuntime m = Some (KokoroOnnx ks ws d)" for ks ws d
    using tts_mapped(2,3) [OF parts(3)] that by (simp add: ttsVoiceAllowed_def list_ex_iff)
  have install: "\<exists>state. resolveCatalogInstallation file_exists file_size m = Inr state"
    using primary by (auto simp: resolveCatalogInstallation_def Let_def)
  show ?thesis using primary files image kokoro install reference_voices_found [OF acc] by blast
qed

definition demo_host :: "string \<Rightarrow> string option" where
  "demo_host u = (if prefix ''https://github.com/'' u then Some ''github.com'' else if prefix ''https://'' u then Some ''huggingface.co'' else None)"

definition demo_artifact :: "string \<Rightarrow> artifact_role \<Rightarrow> model_artifact" where
  "demo_artifact f role = \<lparr>ar_sourcePath = ''models/'' @ f, ar_filename = f, ar_expectedSizeBytes = Some 1000, ar_sha256 = None, ar_role = role, ar_source = None\<rparr>"

definition demo_tts :: model_spec where
  "demo_tts = \<lparr>sp_modelId = ''qwen3-tts'', sp_qualificationState = None, sp_kind = TtsModel, sp_family = ''Qwen3-TTS'', sp_size = ''1.7B'',
     sp_quant = ''Q8_0'', sp_storageGb = 2, sp_source = ''https://github.com/example/voices'', sp_repositoryRevision = ''0123'',
     sp_artifacts = [demo_artifact ''talker.gguf'' PrimaryArtifact, demo_artifact ''projector.gguf'' SupplementaryArtifact,
       demo_artifact ''harbor.wav'' SupplementaryArtifact, demo_artifact ''willow v1.wav'' SupplementaryArtifact],
     sp_llmRuntime = None,
     sp_ttsRuntime = Some (LlamaTtsRuntime ''projector.gguf''
       [\<lparr>rv_name = ''harbor'', rv_artifactFilename = ''harbor.wav''\<rparr>, \<lparr>rv_name = ''willow'', rv_artifactFilename = ''willow v1.wav''\<rparr>]),
     sp_imageRuntime = None, sp_imageLaunchOptions = None, sp_videoRuntime = None, sp_videoCatalogOnly = False, sp_contextWindowTokens = None,
     sp_capabilities = [''text-to-speech''], sp_unsupportedCapabilities = [], sp_outputFormat = Some Wav, sp_experimentalRuntime = False,
     sp_diffusionWeightsOnly = False\<rparr>"

lemma demo_tts_accepted: "refineModelSpec demo_host demo_tts = []"
  by code_simp

lemma demo_tts_runtime: "\<exists>p vs. sp_ttsRuntime demo_tts = Some (LlamaTtsRuntime p vs)"
  by (simp add: demo_tts_def)

theorem accepted_spec_resolves_witness:
  "(\<exists>h w. ttsReferenceArtifacts demo_tts = Inr (h, w)) \<and> (\<exists>a. primaryArtifact demo_tts = Inr a)"
  using accepted_spec_resolves [OF demo_tts_accepted] demo_tts_runtime by blast

text \<open>
  C34: the download URL of every artifact of an accepted specification with a GitHub source stays in
  the pinned revision: behind it come segments none of which a URL parser would read as a dot segment,
  percent-encoded or not, or split further.  Assumed of the URL parser: removing a trailing slash does
  not change the host.
\<close>

theorem github_download_stays_in_revision:
  assumes "refineModelSpec hostname m = []" "a \<in> set (sp_artifacts m)" "hostname (artifact_repository m a) = Some ''github.com''"
    and "hostname (drop_last_slash (artifact_repository m a)) = hostname (artifact_repository m a)"
  shows "\<exists>segments. artifactDownloadUrl hostname pathname m a =
      Inr (''https://raw.githubusercontent.com'' @ pathname (drop_last_slash (artifact_repository m a)) @ ''/'' @
        artifact_revision m a @ ''/'' @ join_on ''/'' segments) \<and>
    (\<forall>s \<in> set segments. \<not> dot_segment s \<and> CHR ''/'' \<notin> set s)"
  using github_download_url assms by (simp add: accepted_def)

theorem github_download_stays_in_revision_witness:
  "\<exists>segments. artifactDownloadUrl demo_host (drop 18) demo_tts (demo_artifact ''willow v1.wav'' SupplementaryArtifact) =
      Inr (''https://raw.githubusercontent.com/example/voices/0123/'' @ join_on ''/'' segments) \<and>
    (\<forall>s \<in> set segments. \<not> dot_segment s \<and> CHR ''/'' \<notin> set s)"
  using github_download_stays_in_revision [OF demo_tts_accepted, of "demo_artifact ''willow v1.wav'' SupplementaryArtifact" "drop 18"]
  by (simp add: demo_tts_def demo_artifact_def artifact_repository_def drop_last_slash_def demo_host_def artifact_revision_def)

text \<open>
  the context a model is given lies between 4096 and 131072 tokens, never shrinks when the host
  has more memory, and is at most the model's own window once that window holds 8192 tokens.
\<close>

theorem context_size_bounded_monotone:
  assumes "\<forall>n. sp_contextWindowTokens m = Some n \<longrightarrow> 8192 \<le> n" "g \<le> g'"
  shows "4096 \<le> calculateMaxSafeContextSize m g \<and> calculateMaxSafeContextSize m g \<le> calculateMaxSafeContextSize m g' \<and>
    calculateMaxSafeContextSize m g' \<le> 131072 \<and>
    (\<forall>n. sp_contextWindowTokens m = Some n \<longrightarrow> calculateMaxSafeContextSize m g' \<le> n)"
proof (cases "parseFloat (sp_size m)")
  case None
  then show ?thesis using assms(1) by (simp add: context_size_unfold)
next
  case (Some p)
  define r where "r = recommended_block p (available_gb m g)"
  define r' where "r' = recommended_block p (available_gb m g')"
  have "0 \<le> q" if "p = (neg, Some q)" for neg q using Some that parseFloat_nonneg by blast
  then have "r \<le> r'" unfolding r_def r'_def using assms(2) by (intro recommended_mono available_gb_mono) simp_all
  moreover have "4096 \<le> r" "r' \<le> 131072" "4096 \<le> r'" by (simp_all add: r_def r'_def recommended_range)
  ultimately show ?thesis
    using assms(1) available_gb_mono [OF assms(2), of m]
    by (auto simp: context_size_unfold Some Let_def simp flip: r_def r'_def split: option.split)
qed

theorem context_size_bounded_monotone_witness:
  "calculateMaxSafeContextSize demo_tts 8 \<le> calculateMaxSafeContextSize demo_tts 16 \<and> calculateMaxSafeContextSize demo_tts 16 \<le> 131072"
  using context_size_bounded_monotone [of demo_tts 8 16] by (simp add: demo_tts_def)

text \<open>A smaller window is not respected: with too little memory the model gets 4096 tokens all the same.\<close>

lemma context_beyond_window:
  "calculateMaxSafeContextSize (demo_tts\<lparr>sp_contextWindowTokens := Some 2048\<rparr>) 4 = 4096"
  "calculateMaxSafeContextSize (demo_tts\<lparr>sp_contextWindowTokens := Some 2048\<rparr>) 64 = 2048"
  by code_simp+

end
