(* ===== verification/Catalog_Sources.thy ===== *)
theory Catalog_Sources
  imports Model_Catalog "HOL-Library.Multiset"
begin

text \<open>
  The layers of the model catalog, \<^verbatim>\<open>src/src/catalog/sources.ts\<close>: built-in entries, the remote
  feed and the user's files, with the provenance that decides whether the reference measurements still
  describe an entry.  Entries are JSON objects.  Zod is a parameter: \<open>ce_field\<close> is the schema of a
  field of \<open>modelSpecObjectSchema\<close>, from the value a file gives, if any, to the parsed value, and
  \<open>ce_decode\<close> the typed view of a parsed object, on which the cross-field rules run.
\<close>

section \<open>Values\<close>

type_synonym json_object = "(string, json) js_map"

fun string_le :: "string \<Rightarrow> string \<Rightarrow> bool" where
  "string_le [] t = True"
| "string_le (c # s) [] = False"
| "string_le (c # s) (d # t) = (code c < code d \<or> c = d \<and> string_le s t)"

fun canonical :: "json \<Rightarrow> json" where
  "canonical (JArr xs) = JArr (map canonical xs)"
| "canonical (JObj kvs) = JObj (sort_by (\<lambda>a b. string_le (fst a) (fst b)) (map (\<lambda>(k, v). (k, canonical v)) kvs))"
| "canonical v = v"

text \<open>Deep equality that ignores key order; \<open>None\<close> is \<open>undefined\<close>.\<close>

definition sameValue :: "json option \<Rightarrow> json option \<Rightarrow> bool" where
  "sameValue a b \<longleftrightarrow> map_option canonical a = map_option canonical b"

lemma sameValue_refl [simp]: "sameValue a a"
  by (simp add: sameValue_def)

lemma sameValue_trans: "sameValue a b \<Longrightarrow> sameValue b c \<Longrightarrow> sameValue a c"
  by (simp add: sameValue_def)

section \<open>Specifications and provenance\<close>

definition SPEC_KEYS :: "string list" where
  "SPEC_KEYS =
     [''modelId'', ''qualificationState'', ''kind'', ''provider'', ''displayName'', ''family'', ''version'', ''size'', ''quant'',
      ''codingScore'', ''storageGb'', ''source'', ''repositoryRevision'', ''artifacts'', ''llmRuntime'', ''ttsRuntime'',
      ''imageRuntime'', ''imageLaunchOptions'', ''videoRuntime'', ''videoCatalogOnly'', ''inputModalities'', ''outputModalities'',
      ''contextWindowTokens'', ''capabilities'', ''unsupportedCapabilities'', ''outputFormat'', ''experimentalRuntime'',
      ''diffusionWeightsOnly'', ''commercialStatus'', ''catch'', ''notes'']"

definition LAUNCH_SHAPED_FIELDS :: "string list" where
  "LAUNCH_SHAPED_FIELDS =
     [''kind'', ''source'', ''repositoryRevision'', ''artifacts'', ''llmRuntime'', ''ttsRuntime'', ''imageRuntime'',
      ''imageLaunchOptions'', ''videoRuntime'', ''contextWindowTokens'']"

datatype catalog_tier = BuiltInTier | RemoteTier | UserTier

datatype catalog_trust = TrustQualified | TrustCommunity | TrustUser | TrustModified

record catalog_provenance =
  pv_trust :: catalog_trust
  pv_origin :: catalog_tier
  pv_tier :: catalog_tier
  pv_path :: "string option"
  pv_patchedFields :: "string list"

definition BUILT_IN_PROVENANCE :: catalog_provenance where
  "BUILT_IN_PROVENANCE =
     \<lparr>pv_trust = TrustQualified, pv_origin = BuiltInTier, pv_tier = BuiltInTier, pv_path = None, pv_patchedFields = []\<rparr>"

datatype diagnostic_message =
    NotAnObject
  | MissingModelId
  | UnknownFields "string list"
  | DuplicateEntry string string
  | InvalidPatch
  | InvalidEntry
  | ReadProblem string

record catalog_diagnostic =
  dg_tier :: catalog_tier
  dg_path :: string
  dg_modelId :: "string option"
  dg_message :: diagnostic_message

record layer_entry =
  le_path :: string
  le_data :: json

record catalog_layer =
  cl_tier :: catalog_tier
  cl_entries :: "layer_entry list"
  cl_diagnostics :: "catalog_diagnostic list"

record catalog_env =
  ce_field :: "string \<Rightarrow> json option \<Rightarrow> json option option"
  ce_decode :: "json_object \<Rightarrow> model_spec"
  ce_hostname :: "string \<Rightarrow> string option"

text \<open>
  \<open>modelSpecSchema.safeParse\<close>: the strict object schema rejects unknown keys, every field is parsed on
  its own, in the order of the shape, and the cross-field rules must find no issue.
\<close>

definition parsed_fields :: "catalog_env \<Rightarrow> json_object \<Rightarrow> json_object" where
  "parsed_fields env obj =
     List.map_filter (\<lambda>k. case ce_field env k (js_get obj k) of Some (Some v) \<Rightarrow> Some (k, v) | _ \<Rightarrow> None) SPEC_KEYS"

definition safeParse :: "catalog_env \<Rightarrow> json_object \<Rightarrow> json_object option" where
  "safeParse env obj =
     (if list_all (\<lambda>(k, v). k \<in> set SPEC_KEYS) obj \<and> list_all (\<lambda>k. ce_field env k (js_get obj k) \<noteq> None) SPEC_KEYS \<and>
         refineModelSpec (ce_hostname env) (ce_decode env (parsed_fields env obj)) = []
      then Some (parsed_fields env obj) else None)"

definition modelId_of :: "json_object \<Rightarrow> string" where
  "modelId_of obj = (case js_get obj ''modelId'' of Some (JStr s) \<Rightarrow> s | _ \<Rightarrow> [])"

section \<open>A user file that pins a built-in model\<close>

definition json_field :: "json \<Rightarrow> string \<Rightarrow> json option" where
  "json_field v k = (case v of JObj kvs \<Rightarrow> js_get kvs k | _ \<Rightarrow> None)"

definition lowered :: "json option \<Rightarrow> json option" where
  "lowered v = (case v of Some (JStr s) \<Rightarrow> Some (JStr (to_lower s)) | _ \<Rightarrow> v)"

text \<open>Properties that are \<open>undefined\<close> are not part of the pin's JSON text.\<close>

definition artifactPin :: "json \<Rightarrow> json" where
  "artifactPin a = canonical (JObj (List.map_filter (\<lambda>(k, v). map_option (\<lambda>x. (k, x)) v)
     [(''sourcePath'', json_field a ''sourcePath''), (''filename'', json_field a ''filename''),
      (''expectedSizeBytes'', json_field a ''expectedSizeBytes''), (''sha256'', lowered (json_field a ''sha256'')),
      (''source'', json_field a ''source'')]))"

text \<open>The sorted texts of two lists of pins are equal when the pins are the same with multiplicity.\<close>

definition pinnedFiles :: "json option \<Rightarrow> json multiset option" where
  "pinnedFiles artifacts = (case artifacts of Some (JArr xs) \<Rightarrow> Some (mset (map artifactPin xs)) | _ \<Rightarrow> None)"

definition normalize_url :: "json option \<Rightarrow> json option" where
  "normalize_url v = (case v of Some (JStr s) \<Rightarrow> Some (JStr (rev (dropWhile (\<lambda>c. c = CHR ''/'') (rev s)))) | _ \<Rightarrow> v)"

definition supersededByBuiltIn :: "catalog_env \<Rightarrow> json_object \<Rightarrow> json_object \<Rightarrow> bool" where
  "supersededByBuiltIn env builtIn obj \<longleftrightarrow>
     safeParse env obj \<noteq> None \<and>
     normalize_url (js_get obj ''source'') = normalize_url (js_get builtIn ''source'') \<and>
     js_get obj ''repositoryRevision'' = js_get builtIn ''repositoryRevision'' \<and>
     js_get obj ''kind'' = js_get builtIn ''kind'' \<and>
     pinnedFiles (js_get obj ''artifacts'') = pinnedFiles (js_get builtIn ''artifacts'')"

section \<open>Composition\<close>

record catalog_state =
  ct_models :: "(string, json_object) js_map"
  ct_provenance :: "(string, catalog_provenance) js_map"
  ct_diagnostics :: "catalog_diagnostic list"

text \<open>An entry without provenance counts as built in.\<close>

definition catalogProvenance :: "catalog_state \<Rightarrow> string \<Rightarrow> catalog_provenance" where
  "catalogProvenance st modelId = (case js_get (ct_provenance st) modelId of Some p \<Rightarrow> p | None \<Rightarrow> BUILT_IN_PROVENANCE)"

text \<open>The provenance of an entry after a patch of it.\<close>

definition changed_fields :: "json_object \<Rightarrow> json_object \<Rightarrow> json_object \<Rightarrow> string list" where
  "changed_fields obj base spec =
     filter (\<lambda>k. js_has obj k \<and> \<not> sameValue (js_get base k) (js_get spec k)) SPEC_KEYS"

definition patched_provenance :: "catalog_tier \<Rightarrow> string \<Rightarrow> string list \<Rightarrow> catalog_provenance \<Rightarrow> catalog_provenance" where
  "patched_provenance tier path changed previous =
     \<lparr>pv_trust = (if list_ex (\<lambda>k. k \<in> set LAUNCH_SHAPED_FIELDS) changed \<and>
           (pv_trust previous = TrustQualified \<or> pv_trust previous = TrustCommunity)
         then TrustModified else pv_trust previous),
      pv_origin = pv_origin previous, pv_tier = tier, pv_path = Some path,
      pv_patchedFields = filter (\<lambda>k. k \<in> set changed \<or> k \<in> set (pv_patchedFields previous)) SPEC_KEYS\<rparr>"

definition report_issue :: "catalog_tier \<Rightarrow> string \<Rightarrow> diagnostic_message \<Rightarrow> string option \<Rightarrow> catalog_state \<Rightarrow> catalog_state" where
  "report_issue tier path message modelId st =
     st\<lparr>ct_diagnostics := ct_diagnostics st @ [\<lparr>dg_tier = tier, dg_path = path, dg_modelId = modelId, dg_message = message\<rparr>]\<rparr>"

definition apply_entry ::
  "catalog_env \<Rightarrow> catalog_tier \<Rightarrow> layer_entry \<Rightarrow> catalog_state \<times> (string, string) js_map \<Rightarrow> catalog_state \<times> (string, string) js_map" where
  "apply_entry env tier entry ss =
     (let (st, seen) = ss; path = le_path entry in
      case le_data entry of
        JObj obj \<Rightarrow>
          (case js_get obj ''modelId'' of
             Some (JStr modelId) \<Rightarrow>
               if modelId = [] then (report_issue tier path MissingModelId None st, seen)
               else
                 let unknownKeys = filter (\<lambda>k. k \<notin> set SPEC_KEYS) (map fst obj) in
                 if unknownKeys \<noteq> [] then (report_issue tier path (UnknownFields unknownKeys) (Some modelId) st, seen)
                 else
                   let earlier = (case js_get seen modelId of Some p \<Rightarrow> p | None \<Rightarrow> []) in
                   if earlier \<noteq> [] then (report_issue tier path (DuplicateEntry modelId earlier) (Some modelId) st, seen)
                   else
                        (case js_get (ct_models st) modelId of
                           Some base \<Rightarrow>
                             if tier = UserTier \<and> js_get (ct_provenance st) modelId = Some BUILT_IN_PROVENANCE \<and>
                                supersededByBuiltIn env base obj
                             then (st, js_set modelId path seen)
                             else
                               (case safeParse env (fold (\<lambda>(k, v). js_set k v) obj base) of
                                  None \<Rightarrow> (report_issue tier path InvalidPatch (Some modelId) st, seen)
                                | Some spec \<Rightarrow>
                                    let previous = catalogProvenance st modelId
                                    in (st\<lparr>ct_models := js_set modelId spec (ct_models st),
                                          ct_provenance := js_set modelId
                                            (patched_provenance tier path (changed_fields obj base spec) previous) (ct_provenance st)\<rparr>,
                                        js_set modelId path seen))
                         | None \<Rightarrow>
                             (case safeParse env obj of
                                None \<Rightarrow> (report_issue tier path InvalidEntry (Some modelId) st, seen)
                              | Some spec \<Rightarrow>
                                  (st\<lparr>ct_models := js_set modelId spec (ct_models st),
                                      ct_provenance := js_set modelId
                                        \<lparr>pv_trust = (if tier = RemoteTier then TrustCommunity else TrustUser), pv_origin = tier,
                                         pv_tier = tier, pv_path = Some path, pv_patchedFields = []\<rparr> (ct_provenance st)\<rparr>,
                                   js_set modelId path seen)))
           | _ \<Rightarrow> (report_issue tier path MissingModelId None st, seen))
      | _ \<Rightarrow> (report_issue tier path NotAnObject None st, seen))"

definition apply_layer :: "catalog_env \<Rightarrow> catalog_layer \<Rightarrow> catalog_state \<Rightarrow> catalog_state" where
  "apply_layer env layer st =
     fst (fold (apply_entry env (cl_tier layer)) (cl_entries layer)
       (st\<lparr>ct_diagnostics := ct_diagnostics st @ cl_diagnostics layer\<rparr>, []))"

definition rankedTiers :: "catalog_layer list \<Rightarrow> catalog_layer list" where
  "rankedTiers layers = filter (\<lambda>l. cl_tier l = RemoteTier) layers @ filter (\<lambda>l. cl_tier l = UserTier) layers"

definition built_in_state :: "json_object list \<Rightarrow> catalog_state" where
  "built_in_state builtIn =
     \<lparr>ct_models = js_map_of (map (\<lambda>m. (modelId_of m, m)) builtIn),
      ct_provenance = js_map_of (map (\<lambda>m. (modelId_of m, BUILT_IN_PROVENANCE)) builtIn), ct_diagnostics = []\<rparr>"

definition composeCatalog :: "catalog_env \<Rightarrow> json_object list \<Rightarrow> catalog_layer list \<Rightarrow> catalog_state" where
  "composeCatalog env builtIn layers = fold (apply_layer env) (rankedTiers layers) (built_in_state builtIn)"

section \<open>Reading the effective catalog\<close>

text \<open>\<open>former\<close> are the entries earlier releases shipped, \<open>formerCatalogEntry\<close> of \<^verbatim>\<open>catalog/former\<close>.\<close>

definition matchesFormerEntry :: "(string, json_object) js_map \<Rightarrow> catalog_state \<Rightarrow> json_object \<Rightarrow> bool" where
  "matchesFormerEntry former st model =
     (case js_get former (modelId_of model) of
        None \<Rightarrow> False
      | Some entry \<Rightarrow>
          let current = (case find (\<lambda>m. modelId_of m = modelId_of model) (map snd (ct_models st)) of Some m \<Rightarrow> m | None \<Rightarrow> model)
          in list_all (\<lambda>k. sameValue (js_get entry k) (js_get current k)) LAUNCH_SHAPED_FIELDS)"

definition usesReferenceMeasurements :: "(string, json_object) js_map \<Rightarrow> catalog_state \<Rightarrow> json_object \<Rightarrow> bool" where
  "usesReferenceMeasurements former st model \<longleftrightarrow>
     pv_trust (catalogProvenance st (modelId_of model)) = TrustQualified \<or> matchesFormerEntry former st model"

section \<open>Parsing twice\<close>

text \<open>
  What the composition relies on: parsing a parsed field changes nothing, a model id is kept as it is,
  and objects, which come from \<open>JSON.parse\<close>, have no key twice.
\<close>

definition env_ok :: "catalog_env \<Rightarrow> bool" where
  "env_ok env \<longleftrightarrow> (\<forall>k x y. ce_field env k x = Some y \<longrightarrow> ce_field env k y = Some y) \<and>
     (\<forall>s y. ce_field env ''modelId'' (Some (JStr s)) = Some y \<longrightarrow> y = Some (JStr s))"

definition layer_ok :: "catalog_layer \<Rightarrow> bool" where
  "layer_ok l \<longleftrightarrow> (\<forall>e \<in> set (cl_entries l). \<forall>obj. le_data e = JObj obj \<longrightarrow> js_wf obj)"

lemma distinct_SPEC_KEYS: "distinct SPEC_KEYS" and launch_shaped_keys: "set LAUNCH_SHAPED_FIELDS \<subseteq> set SPEC_KEYS"
  and modelId_key: "''modelId'' \<in> set SPEC_KEYS"
  by (simp_all add: SPEC_KEYS_def LAUNCH_SHAPED_FIELDS_def)

lemma get_map_filter:
  "distinct ks \<Longrightarrow> js_get (List.map_filter (\<lambda>k. case g k of Some (Some v) \<Rightarrow> Some (k, v) | _ \<Rightarrow> None) ks) k =
     (if k \<in> set ks then (case g k of Some x \<Rightarrow> x | None \<Rightarrow> None) else None)"
proof (induction ks)
  case (Cons a ks)
  have "js_get (List.map_filter (\<lambda>k. case g k of Some (Some v) \<Rightarrow> Some (k, v) | _ \<Rightarrow> None) ks) a = None"
    using Cons.prems Cons.IH by (auto simp: js_get_def List.map_filter_def map_of_eq_None_iff split: option.splits)
  then show ?case using Cons by (auto simp: List.map_filter_simps js_get_def split: option.splits)
qed (simp add: List.map_filter_simps)

lemma parsed_get:
  "js_get (parsed_fields env obj) k = (if k \<in> set SPEC_KEYS then (case ce_field env k (js_get obj k) of Some x \<Rightarrow> x | None \<Rightarrow> None) else None)"
  unfolding parsed_fields_def by (rule get_map_filter [OF distinct_SPEC_KEYS])

lemma safeParse_get: "safeParse env obj = Some spec \<Longrightarrow> k \<in> set SPEC_KEYS \<Longrightarrow> ce_field env k (js_get obj k) = Some (js_get spec k)"
  by (auto simp: safeParse_def parsed_get list_all_iff split: if_splits)

lemma safeParse_idem:
  assumes "env_ok env" "safeParse env obj = Some spec"
  shows "safeParse env spec = Some spec"
proof -
  have spec: "spec = parsed_fields env obj" "refineModelSpec (ce_hostname env) (ce_decode env spec) = []"
    using assms(2) by (auto simp: safeParse_def split: if_splits)
  have f: "ce_field env k (js_get spec k) = Some (js_get spec k)" if "k \<in> set SPEC_KEYS" for k
    using safeParse_get [OF assms(2) that] assms(1) by (auto simp: env_ok_def)
  have "parsed_fields env spec = parsed_fields env obj"
    unfolding parsed_fields_def by (rule map_filter_cong) (simp add: f safeParse_get [OF assms(2)])
  then have "parsed_fields env spec = spec" using spec(1) by simp
  moreover have "list_all (\<lambda>(k, v). k \<in> set SPEC_KEYS) spec"
    unfolding spec(1) parsed_fields_def List.map_filter_def list_all_iff by (auto split: option.splits)
  ultimately show ?thesis using f spec(2) by (simp add: safeParse_def list_all_iff)
qed

lemma js_get_fold: "js_get (fold (\<lambda>(k, v). js_set k v) obj m) k = (case map_of (rev obj) k of Some v \<Rightarrow> Some v | None \<Rightarrow> js_get m k)"
  by (induction obj arbitrary: m) (auto simp: map_add_def split: option.splits)

lemma merged_get:
  assumes "js_wf obj"
  shows "js_get (fold (\<lambda>(k, v). js_set k v) obj base) k = (case js_get obj k of Some v \<Rightarrow> Some v | None \<Rightarrow> js_get base k)"
proof -
  have "map_of (rev obj) = map_of obj"
    using assms by (subst map_of_inject_set) (simp_all add: js_wf_def flip: rev_map)
  then show ?thesis unfolding js_get_fold by (simp add: js_get_def)
qed

text \<open>A patch leaves what it does not name, and a field it does not count as changed keeps its value.\<close>

lemma patch_keeps:
  assumes "env_ok env" "js_wf obj" "safeParse env base = Some base"
    "safeParse env (fold (\<lambda>(k, v). js_set k v) obj base) = Some spec" "k \<in> set SPEC_KEYS" "k \<notin> set (changed_fields obj base spec)"
  shows "sameValue (js_get base k) (js_get spec k)"
proof (cases "js_get obj k")
  case None
  have "ce_field env k (js_get base k) = Some (js_get spec k)"
    using safeParse_get [OF assms(4,5)] merged_get [OF assms(2), of base k] None by simp
  then show ?thesis using safeParse_get [OF assms(3,5)] by simp
next
  case (Some v)
  then show ?thesis using assms(5,6) by (auto simp: changed_fields_def js_has_get)
qed

lemma parsed_modelId:
  assumes "env_ok env" "safeParse env obj = Some spec" "js_get obj ''modelId'' = Some (JStr i)"
  shows "modelId_of spec = i"
proof -
  have "ce_field env ''modelId'' (Some (JStr i)) = Some (js_get spec ''modelId'')"
    using safeParse_get [OF assms(2) modelId_key] assms(3) by simp
  then have "js_get spec ''modelId'' = Some (JStr i)" using assms(1) unfolding env_ok_def by blast
  then show ?thesis by (simp add: modelId_of_def)
qed

section \<open>The invariant of the composition\<close>

definition built_in_models :: "json_object list \<Rightarrow> (string, json_object) js_map" where
  "built_in_models builtIn = js_map_of (map (\<lambda>m. (modelId_of m, m)) builtIn)"

definition same_launch :: "json_object \<Rightarrow> json_object \<Rightarrow> bool" where
  "same_launch a b \<longleftrightarrow> (\<forall>k \<in> set LAUNCH_SHAPED_FIELDS. sameValue (js_get a k) (js_get b k))"

definition entry_ok :: "catalog_env \<Rightarrow> json_object list \<Rightarrow> string \<Rightarrow> json_object \<Rightarrow> catalog_provenance \<Rightarrow> bool" where
  "entry_ok env builtIn i m p \<longleftrightarrow> modelId_of m = i \<and> safeParse env m = Some m \<and>
     (pv_trust p = TrustQualified \<longrightarrow> (\<exists>b. js_get (built_in_models builtIn) i = Some b \<and> same_launch b m))"

definition catalog_inv :: "catalog_env \<Rightarrow> json_object list \<Rightarrow> catalog_state \<Rightarrow> bool" where
  "catalog_inv env builtIn st \<longleftrightarrow> js_wf (ct_models st) \<and>
     (\<forall>i. case (js_get (ct_models st) i, js_get (ct_provenance st) i) of
        (Some m, Some p) \<Rightarrow> entry_ok env builtIn i m p
      | (None, None) \<Rightarrow> js_get (built_in_models builtIn) i = None
      | _ \<Rightarrow> False)"

lemma catalog_inv_report [simp]: "catalog_inv env builtIn (report_issue tier path msg i st) = catalog_inv env builtIn st"
  by (simp add: catalog_inv_def report_issue_def)

lemma catalog_inv_put:
  assumes "catalog_inv env builtIn st" "entry_ok env builtIn i m p"
  shows "catalog_inv env builtIn (st\<lparr>ct_models := js_set i m (ct_models st), ct_provenance := js_set i p (ct_provenance st)\<rparr>)"
  using assms by (simp add: catalog_inv_def)

lemma patched_entry_ok:
  assumes env: "env_ok env" and inv: "catalog_inv env builtIn st" and wf: "js_wf obj" and i: "js_get obj ''modelId'' = Some (JStr i)"
    and base: "js_get (ct_models st) i = Some base" and spec: "safeParse env (fold (\<lambda>(k, v). js_set k v) obj base) = Some spec"
  shows "entry_ok env builtIn i spec
     (patched_provenance tier path (changed_fields obj base spec) (catalogProvenance st i))"
proof -
  obtain p where p: "js_get (ct_provenance st) i = Some p" and ok: "entry_ok env builtIn i base p"
    using inv base unfolding catalog_inv_def by (elim conjE allE [of _ i]) (auto split: option.splits)
  have id: "modelId_of spec = i"
    using parsed_modelId [OF env spec] merged_get [OF wf, of base "''modelId''"] i by simp
  have "\<exists>b. js_get (built_in_models builtIn) i = Some b \<and> same_launch b spec"
    if q: "pv_trust (patched_provenance tier path (changed_fields obj base spec) p) = TrustQualified"
  proof -
    have pq: "pv_trust p = TrustQualified" and unchanged: "\<forall>k \<in> set LAUNCH_SHAPED_FIELDS. k \<notin> set (changed_fields obj base spec)"
      using q by (auto simp: patched_provenance_def list_ex_iff split: if_splits)
    obtain b where b: "js_get (built_in_models builtIn) i = Some b" "same_launch b base" using ok pq by (auto simp: entry_ok_def)
    have "safeParse env base = Some base" using ok by (simp add: entry_ok_def)
    then have "sameValue (js_get base k) (js_get spec k)" if "k \<in> set LAUNCH_SHAPED_FIELDS" for k
      using patch_keeps [OF env wf _ spec] launch_shaped_keys unchanged that by blast
    then show ?thesis using b sameValue_trans by (fastforce simp: same_launch_def)
  qed
  then show ?thesis using id safeParse_idem [OF env spec] p by (simp add: entry_ok_def catalogProvenance_def)
qed

lemma new_entry_ok:
  assumes "env_ok env" "js_get obj ''modelId'' = Some (JStr i)" "safeParse env obj = Some spec" "pv_trust p \<noteq> TrustQualified"
  shows "entry_ok env builtIn i spec p"
  using assms parsed_modelId safeParse_idem by (auto simp: entry_ok_def)

lemma apply_entry_inv:
  assumes "env_ok env" "catalog_inv env builtIn (fst ss)" "\<And>obj. le_data e = JObj obj \<Longrightarrow> js_wf obj"
  shows "catalog_inv env builtIn (fst (apply_entry env tier e ss))"
proof -
  obtain st seen where ss: "ss = (st, seen)" by (cases ss)
  have inv: "catalog_inv env builtIn st" using assms(2) ss by simp
  note put = catalog_inv_put [OF inv]
  show ?thesis
    unfolding apply_entry_def ss
    using inv assms(3) put [OF patched_entry_ok [OF assms(1) inv]] put [OF new_entry_ok [OF assms(1)]]
    by (auto simp: Let_def split: json.split option.split if_splits)
qed

lemma apply_layer_inv:
  assumes "env_ok env" "layer_ok l" "catalog_inv env builtIn st"
  shows "catalog_inv env builtIn (apply_layer env l st)"
proof -
  have "catalog_inv env builtIn (fst (fold (apply_entry env (cl_tier l)) es ss))"
    if "catalog_inv env builtIn (fst ss)" "set es \<subseteq> set (cl_entries l)" for es ss
    using that
  proof (induction es arbitrary: ss)
    case (Cons e es)
    have "catalog_inv env builtIn (fst (apply_entry env (cl_tier l) e ss))"
      using Cons.prems assms(2) by (intro apply_entry_inv assms(1)) (auto simp: layer_ok_def)
    then show ?case using Cons by simp
  qed simp
  moreover have "catalog_inv env builtIn (st\<lparr>ct_diagnostics := ct_diagnostics st @ cl_diagnostics l\<rparr>)"
    using assms(3) by (simp add: catalog_inv_def)
  ultimately show ?thesis by (simp add: apply_layer_def)
qed

lemma get_by_id:
  "js_get (js_map_of (map (\<lambda>m. (modelId_of m, g m)) models)) i = map_option g (find (\<lambda>m. modelId_of m = i) (rev models))"
proof -
  have "map_of (map (\<lambda>m. (modelId_of m, g m)) xs) i = map_option g (find (\<lambda>m. modelId_of m = i) xs)" for xs
    by (induction xs) auto
  then show ?thesis by (simp add: js_get_map_of rev_map)
qed

lemma built_in_inv:
  assumes "\<forall>b \<in> set builtIn. safeParse env b = Some b"
  shows "catalog_inv env builtIn (built_in_state builtIn)"
proof -
  note get = get_by_id
  have "entry_ok env builtIn i m BUILT_IN_PROVENANCE" if "find (\<lambda>m. modelId_of m = i) (rev builtIn) = Some m" for i m
  proof -
    have "m \<in> set builtIn" "modelId_of m = i" using that by (auto simp: find_Some_iff) (metis nth_mem set_rev length_rev)
    then show ?thesis
      using assms that by (auto simp: entry_ok_def built_in_models_def get [where g = "\<lambda>m. m"] same_launch_def)
  qed
  then show ?thesis
    unfolding catalog_inv_def built_in_state_def built_in_models_def by (auto simp: get js_wf_map_of split: option.split)
qed

lemma compose_inv:
  assumes "env_ok env" "\<forall>b \<in> set builtIn. safeParse env b = Some b" "\<forall>l \<in> set layers. layer_ok l"
  shows "catalog_inv env builtIn (composeCatalog env builtIn layers)"
proof -
  have "catalog_inv env builtIn (fold (apply_layer env) ls st)" if "catalog_inv env builtIn st" "\<forall>l \<in> set ls. layer_ok l" for ls st
    using that by (induction ls arbitrary: st) (auto intro: apply_layer_inv [OF assms(1)])
  then show ?thesis
    using built_in_inv [OF assms(2)] assms(3) by (simp add: composeCatalog_def rankedTiers_def)
qed

section \<open>Properties\<close>

text \<open>
  whatever the remote feed and the user's files hold, the effective catalog is valid.  Every entry
  has passed the field schemas and the cross-field rules of a built-in entry, no two entries share an
  id, and no built-in id is lost: a bad file is skipped.
\<close>

theorem composed_catalog_valid:
  assumes "env_ok env" "\<forall>b \<in> set builtIn. safeParse env b = Some b" "\<forall>l \<in> set layers. layer_ok l"
  shows "(\<forall>m \<in> set (map snd (ct_models (composeCatalog env builtIn layers))).
        safeParse env m = Some m \<and> refineModelSpec (ce_hostname env) (ce_decode env m) = []) \<and>
    distinct (map modelId_of (map snd (ct_models (composeCatalog env builtIn layers)))) \<and>
    (\<forall>b \<in> set builtIn. modelId_of b \<in> set (map modelId_of (map snd (ct_models (composeCatalog env builtIn layers)))))"
proof -
  define st where "st = composeCatalog env builtIn layers"
  have inv: "catalog_inv env builtIn st" using compose_inv [OF assms] by (simp add: st_def)
  have wf: "js_wf (ct_models st)" using inv by (simp add: catalog_inv_def)
  have entry: "modelId_of m = i \<and> safeParse env m = Some m" if "(i, m) \<in> set (ct_models st)" for i m
  proof -
    have "js_get (ct_models st) i = Some m" using that js_get_mem [OF wf] by simp
    then show ?thesis using inv unfolding catalog_inv_def by (elim conjE allE [of _ i]) (auto simp: entry_ok_def split: option.splits)
  qed
  have ids: "map modelId_of (map snd (ct_models st)) = map fst (ct_models st)"
    using entry by (auto simp: comp_def)
  have "refineModelSpec (ce_hostname env) (ce_decode env m) = []" if "safeParse env m = Some m" for m
    using that by (auto simp: safeParse_def split: if_splits)
  moreover have "modelId_of b \<in> set (map fst (ct_models st))" if "b \<in> set builtIn" for b
  proof -
    have "js_get (built_in_models builtIn) (modelId_of b) \<noteq> None"
      using that by (auto simp: built_in_models_def get_by_id find_None_iff)
    then have "js_get (ct_models st) (modelId_of b) \<noteq> None"
      using inv unfolding catalog_inv_def by (elim conjE allE [of _ "modelId_of b"]) (auto split: option.splits)
    then show ?thesis using js_has_get [of "ct_models st"] by (simp add: js_has_def)
  qed
  ultimately show ?thesis
    using entry wf unfolding st_def [symmetric] ids by (auto simp: js_wf_def)
qed

text \<open>
  C36: the reference measurements are used only for what they measured.  An entry of the effective
  catalog that takes them launches what a release shipped under its id: every launch-shaped field has
  the value of the built-in entry, or of the entry an earlier release shipped.  A remote or user file
  that changes one of these fields, however many layers later, loses them.
\<close>

theorem reference_measurements_only_for_shipped_launches:
  assumes "env_ok env" "\<forall>b \<in> set builtIn. safeParse env b = Some b" "\<forall>l \<in> set layers. layer_ok l"
    and "m \<in> set (map snd (ct_models (composeCatalog env builtIn layers)))"
    and "usesReferenceMeasurements former (composeCatalog env builtIn layers) m"
  shows "\<exists>shipped. (js_get (built_in_models builtIn) (modelId_of m) = Some shipped \<or> js_get former (modelId_of m) = Some shipped) \<and>
    same_launch shipped m"
proof -
  define st where "st = composeCatalog env builtIn layers"
  have inv: "catalog_inv env builtIn st" using compose_inv [OF assms(1-3)] by (simp add: st_def)
  have wf: "js_wf (ct_models st)" using inv by (simp add: catalog_inv_def)
  have known: "\<exists>p. js_get (ct_provenance st) i = Some p \<and> entry_ok env builtIn i x p" if "(i, x) \<in> set (ct_models st)" for i x
  proof -
    have "js_get (ct_models st) i = Some x" using that js_get_mem [OF wf] by simp
    then show ?thesis using inv unfolding catalog_inv_def by (elim conjE allE [of _ i]) (auto split: option.splits)
  qed
  obtain i where i: "(i, m) \<in> set (ct_models st)" using assms(4) by (auto simp: st_def)
  obtain p where p: "js_get (ct_provenance st) i = Some p" "entry_ok env builtIn i m p" using known [OF i] by blast
  have id: "modelId_of m = i" using p(2) by (simp add: entry_ok_def)
  show ?thesis
  proof (cases "pv_trust p = TrustQualified")
    case True
    then show ?thesis using p(2) id by (auto simp: entry_ok_def)
  next
    case False
    then have "matchesFormerEntry former st m"
      using assms(5) p(1) id by (simp add: usesReferenceMeasurements_def catalogProvenance_def flip: st_def)
    moreover have "find (\<lambda>x. modelId_of x = modelId_of m) (map snd (ct_models st)) = Some m"
    proof (rule find_by_name)
      show "distinct (map modelId_of (map snd (ct_models st)))"
      proof -
        have "map modelId_of (map snd (ct_models st)) = map fst (ct_models st)"
          using known by (fastforce simp: entry_ok_def)
        then show ?thesis using wf by (simp only: js_wf_def)
      qed
      show "m \<in> set (map snd (ct_models st))" using i by force
    qed
    ultimately show ?thesis
      by (auto simp: matchesFormerEntry_def same_launch_def list_all_iff Let_def split: option.splits)
  qed
qed

definition demo_env :: catalog_env where
  "demo_env = \<lparr>ce_field = (\<lambda>k x. Some x), ce_decode = (\<lambda>obj. demo_tts), ce_hostname = demo_host\<rparr>"

definition demo_built_in :: json_object where
  "demo_built_in = [(''modelId'', JStr ''qwen3-tts''), (''kind'', JStr ''tts''), (''contextWindowTokens'', JNum 2048), (''notes'', JStr ''built in'')]"

definition demo_user_layer :: catalog_layer where
  "demo_user_layer = \<lparr>cl_tier = UserTier, cl_entries =
     [\<lparr>le_path = ''a.json'', le_data = JObj [(''modelId'', JStr ''qwen3-tts''), (''notes'', JStr ''mine'')]\<rparr>,
      \<lparr>le_path = ''b.json'', le_data = JObj [(''modelId'', JStr ''other''), (''kind'', JStr ''tts'')]\<rparr>,
      \<lparr>le_path = ''c.json'', le_data = JObj [(''modelId'', JStr ''other''), (''unknown'', JNull)]\<rparr>], cl_diagnostics = []\<rparr>"

definition demo_patched :: json_object where
  "demo_patched = [(''modelId'', JStr ''qwen3-tts''), (''kind'', JStr ''tts''), (''contextWindowTokens'', JNum 2048), (''notes'', JStr ''mine'')]"

lemma demo_composition:
  "env_ok demo_env" "\<forall>b \<in> set [demo_built_in]. safeParse demo_env b = Some b" "\<forall>l \<in> set [demo_user_layer]. layer_ok l"
  "map fst (ct_models (composeCatalog demo_env [demo_built_in] [demo_user_layer])) = [''qwen3-tts'', ''other'']"
  "demo_patched \<in> set (map snd (ct_models (composeCatalog demo_env [demo_built_in] [demo_user_layer])))"
  "usesReferenceMeasurements [] (composeCatalog demo_env [demo_built_in] [demo_user_layer]) demo_patched"
proof -
  show "env_ok demo_env" by (simp add: env_ok_def demo_env_def)
  show "\<forall>l \<in> set [demo_user_layer]. layer_ok l" by (auto simp: layer_ok_def demo_user_layer_def js_wf_def)
qed (code_simp+)

theorem composed_catalog_valid_witness:
  "distinct (map modelId_of (map snd (ct_models (composeCatalog demo_env [demo_built_in] [demo_user_layer]))))"
  using composed_catalog_valid [OF demo_composition(1-3)] by blast

theorem reference_measurements_only_for_shipped_launches_witness:
  "\<exists>shipped. js_get (built_in_models [demo_built_in]) (modelId_of demo_patched) = Some shipped \<and> same_launch shipped demo_patched"
  using reference_measurements_only_for_shipped_launches [OF demo_composition(1-3,5,6)] by simp

end
