(* ===== verification/Gguf_Reader.thy ===== *)
theory Gguf_Reader
  imports Js_Number "HOL-Library.Word"
begin

text \<open>
  The reader of GGUF headers, the class \<open>GgufReader\<close> and \<open>readKeyValues\<close> of
  \<^verbatim>\<open>src/src/domains/runtime/gguf-metadata.ts\<close>.  A file is its list of bytes; \<open>Bun.file\<close>
  and the decoding of a path to its first shard are outside.  The UTF-8 decoding of \<open>TextDecoder\<close>
  is the parameter \<open>dec\<close>.  Lengths and positions are integers, so that the comparisons with the
  limits stay exact; the buffered reading of the code is modelled as it is, chunk by chunk.
\<close>

section \<open>The reader's state and its result\<close>

type_synonym byte = "8 word"

datatype gguf_error =
    ParseBudget | UnexpectedEnd | LengthOutOfRange | UnsupportedScalar int | UnsupportedArray | ArrayTooLarge
  | NotGguf | UnsupportedVersion int | ImplausibleKeyCount

record gguf_reader =
  gr_buffer :: "byte list"
  gr_bufferStart :: int
  gr_position :: int
  gr_work :: int

definition new_reader :: gguf_reader where
  "new_reader = \<lparr>gr_buffer = [], gr_bufferStart = 0, gr_position = 0, gr_work = 0\<rparr>"

type_synonym 'a read_op = "gguf_reader \<Rightarrow> gguf_error + 'a \<times> gguf_reader"

definition fail_read :: "gguf_error \<Rightarrow> 'a read_op" where
  "fail_read e r = Inl e"

definition return_read :: "'a \<Rightarrow> 'a read_op" where
  "return_read x r = Inr (x, r)"

definition bind_read :: "'a read_op \<Rightarrow> ('a \<Rightarrow> 'b read_op) \<Rightarrow> 'b read_op" where
  "bind_read m f r = (case m r of Inl e \<Rightarrow> Inl e | Inr (x, r') \<Rightarrow> f x r')"

section \<open>Constants\<close>

definition GGUF_MAGIC :: int where "GGUF_MAGIC = 0x46554747"
definition READ_CHUNK_BYTES :: int where "READ_CHUNK_BYTES = 1024 * 1024"
definition MAX_KEPT_ARRAY_ELEMENTS :: int where "MAX_KEPT_ARRAY_ELEMENTS = 4096"
definition MAX_KEPT_STRING_BYTES :: int where "MAX_KEPT_STRING_BYTES = 256"
definition MAX_KV_COUNT :: int where "MAX_KV_COUNT = 1000000"
definition MAX_PARSE_WORK :: int where "MAX_PARSE_WORK = 8000000"

text \<open>The byte size of a scalar type; \<open>None\<close> is a type without one.\<close>

definition FIXED_SIZES :: "int \<Rightarrow> int option" where
  "FIXED_SIZES = map_of [(0, 1), (1, 1), (2, 2), (3, 2), (4, 4), (5, 4), (6, 4), (7, 1), (10, 8), (11, 8), (12, 8)]"

section \<open>Bytes\<close>

text \<open>\<open>slice\<close> with integer bounds.\<close>

fun take_int :: "int \<Rightarrow> 'a list \<Rightarrow> 'a list" where
  "take_int n [] = []"
| "take_int n (x # xs) = (if n \<le> 0 then [] else x # take_int (n - 1) xs)"

fun drop_int :: "int \<Rightarrow> 'a list \<Rightarrow> 'a list" where
  "drop_int n [] = []"
| "drop_int n (x # xs) = (if n \<le> 0 then x # xs else drop_int (n - 1) xs)"

definition le_value :: "byte list \<Rightarrow> int" where
  "le_value bs = foldr (\<lambda>b acc. uint b + 256 * acc) bs 0"

text \<open>Two's complement and IEEE 754 readings of an unsigned value.\<close>

definition signed_value :: "nat \<Rightarrow> int \<Rightarrow> int" where
  "signed_value bits n = (if n \<ge> 2 ^ (bits - 1) then n - 2 ^ bits else n)"

definition ieee_value :: "nat \<Rightarrow> nat \<Rightarrow> int \<Rightarrow> js_num" where
  "ieee_value ebits mbits n =
     (let mant = n mod 2 ^ mbits;
          expo = (n div 2 ^ mbits) mod 2 ^ ebits;
          neg = (n div 2 ^ (mbits + ebits) = 1);
          bias = 2 ^ (ebits - 1) - 1;
          scale = (\<lambda>e :: int. if e \<ge> 0 then (2 :: rat) ^ nat e else 1 / 2 ^ nat (- e));
          signed = (\<lambda>q. if neg then - q else q)
      in if expo = 2 ^ ebits - 1 then (if mant = 0 then Infinite neg else NaN)
         else if expo = 0 then Finite (signed (of_int mant * scale (1 - bias - int mbits)))
         else Finite (signed (of_int (mant + 2 ^ mbits) * scale (expo - bias - int mbits))))"

section \<open>Operations\<close>

definition file_size :: "byte list \<Rightarrow> int" where
  "file_size file = int (length file)"

definition spend :: "int \<Rightarrow> int \<Rightarrow> unit read_op" where
  "spend maxWork units r =
     (let w = gr_work r + units in if w > maxWork then Inl ParseBudget else Inr ((), r\<lparr>gr_work := w\<rparr>))"

definition remaining :: "byte list \<Rightarrow> gguf_reader \<Rightarrow> int" where
  "remaining file r = file_size file - gr_position r"

definition refill :: "byte list \<Rightarrow> int \<Rightarrow> gguf_reader \<Rightarrow> gguf_error + gguf_reader" where
  "refill file len r =
     (if gr_position r < gr_bufferStart r \<or> gr_position r + len > gr_bufferStart r + int (length (gr_buffer r))
      then let chunk = take_int (max len READ_CHUNK_BYTES) (drop_int (gr_position r) file)
           in if int (length chunk) < len then Inl UnexpectedEnd
              else Inr (r\<lparr>gr_buffer := chunk, gr_bufferStart := gr_position r\<rparr>)
      else Inr r)"

definition take_bytes :: "byte list \<Rightarrow> int \<Rightarrow> byte list read_op" where
  "take_bytes file len r =
     (case refill file len r of
        Inl e \<Rightarrow> Inl e
      | Inr r' \<Rightarrow> Inr (take_int len (drop_int (gr_position r' - gr_bufferStart r') (gr_buffer r')),
          r'\<lparr>gr_position := gr_position r' + len\<rparr>))"

definition skip_bytes :: "byte list \<Rightarrow> int \<Rightarrow> unit read_op" where
  "skip_bytes file len r =
     (if len < 0 \<or> len > MAX_SAFE_INTEGER then Inl LengthOutOfRange
      else if gr_position r + len > MAX_SAFE_INTEGER \<or> gr_position r + len > file_size file then Inl UnexpectedEnd
      else Inr ((), r\<lparr>gr_position := gr_position r + len\<rparr>))"

definition u32 :: "byte list \<Rightarrow> int read_op" where
  "u32 file = bind_read (take_bytes file 4) (\<lambda>bs. return_read (le_value bs))"

definition u64 :: "byte list \<Rightarrow> int read_op" where
  "u64 file = bind_read (take_bytes file 8)
     (\<lambda>bs. if le_value bs > MAX_SAFE_INTEGER then fail_read LengthOutOfRange else return_read (le_value bs))"

definition read_string :: "(byte list \<Rightarrow> string) \<Rightarrow> byte list \<Rightarrow> bool \<Rightarrow> int \<Rightarrow> string option read_op" where
  "read_string dec file keep maxBytes =
     bind_read (u64 file) (\<lambda>len.
       if \<not> keep \<or> len > maxBytes then bind_read (skip_bytes file len) (\<lambda>_. return_read None)
       else bind_read (take_bytes file len) (\<lambda>bs. return_read (Some (dec bs))))"

datatype raw_scalar = RawNumber js_num | RawBigint int | RawBool bool

definition scalar_value :: "int \<Rightarrow> byte list \<Rightarrow> gguf_error + raw_scalar" where
  "scalar_value ty bs =
     (let n = le_value bs; number = (\<lambda>i :: int. Inr (RawNumber (Finite (of_int i)))) in
      if ty = 0 then number n
      else if ty = 1 then number (signed_value 8 n)
      else if ty = 2 then number n
      else if ty = 3 then number (signed_value 16 n)
      else if ty = 4 then number n
      else if ty = 5 then number (signed_value 32 n)
      else if ty = 6 then Inr (RawNumber (ieee_value 8 23 n))
      else if ty = 7 then Inr (RawBool (n \<noteq> 0))
      else if ty = 10 then Inr (RawBigint n)
      else if ty = 11 then Inr (RawBigint (signed_value 64 n))
      else if ty = 12 then Inr (RawNumber (ieee_value 11 52 n))
      else Inl (UnsupportedScalar ty))"

definition scalar :: "byte list \<Rightarrow> int \<Rightarrow> raw_scalar read_op" where
  "scalar file ty =
     bind_read (take_bytes file (case FIXED_SIZES ty of Some n \<Rightarrow> n | None \<Rightarrow> 0))
       (\<lambda>bs. case scalar_value ty bs of Inl e \<Rightarrow> fail_read e | Inr v \<Rightarrow> return_read v)"

datatype gguf_value = GNumber js_num | GBool bool | GString string | GArray "js_num list"

definition safe_bigint :: "int \<Rightarrow> js_num" where
  "safe_bigint n = (if - MAX_SAFE_INTEGER \<le> n \<and> n \<le> MAX_SAFE_INTEGER then Finite (of_int n) else NaN)"

definition safeNumber :: "raw_scalar \<Rightarrow> gguf_value" where
  "safeNumber v = (case v of RawNumber x \<Rightarrow> GNumber x | RawBool b \<Rightarrow> GBool b | RawBigint n \<Rightarrow> GNumber (safe_bigint n))"

text \<open>\<open>Number(safeNumber(v))\<close>.\<close>

definition scalar_number :: "raw_scalar \<Rightarrow> js_num" where
  "scalar_number v = (case v of RawNumber x \<Rightarrow> x | RawBool b \<Rightarrow> Finite (if b then 1 else 0) | RawBigint n \<Rightarrow> safe_bigint n)"

fun skip_strings :: "byte list \<Rightarrow> nat \<Rightarrow> unit read_op" where
  "skip_strings file 0 = return_read ()"
| "skip_strings file (Suc n) = bind_read (u64 file) (\<lambda>len. bind_read (skip_bytes file len) (\<lambda>_. skip_strings file n))"

fun scalars :: "byte list \<Rightarrow> int \<Rightarrow> nat \<Rightarrow> js_num list read_op" where
  "scalars file ty 0 = return_read []"
| "scalars file ty (Suc n) =
     bind_read (scalar file ty) (\<lambda>v. bind_read (scalars file ty n) (\<lambda>vs. return_read (scalar_number v # vs)))"

text \<open>An array; \<open>None\<close> is \<open>null\<close>, a value that is not kept.\<close>

definition array_elements :: "byte list \<Rightarrow> int \<Rightarrow> bool \<Rightarrow> int \<Rightarrow> int \<Rightarrow> gguf_value option read_op" where
  "array_elements file maxWork keep elementType count r =
     (case (if elementType = 8 then Some 8 else FIXED_SIZES elementType) of
        None \<Rightarrow> Inl UnsupportedArray
      | Some width \<Rightarrow>
          if count * width > remaining file r then Inl ArrayTooLarge
          else if elementType = 8
            then bind_read (spend maxWork count) (\<lambda>_. bind_read (skip_strings file (nat count)) (\<lambda>_. return_read None)) r
          else if \<not> keep \<or> count > MAX_KEPT_ARRAY_ELEMENTS
            then bind_read (skip_bytes file (width * count)) (\<lambda>_. return_read None) r
          else bind_read (spend maxWork count)
                 (\<lambda>_. bind_read (scalars file elementType (nat count)) (\<lambda>vs. return_read (Some (GArray vs)))) r)"

definition array_value :: "byte list \<Rightarrow> int \<Rightarrow> bool \<Rightarrow> gguf_value option read_op" where
  "array_value file maxWork keep =
     bind_read (u32 file) (\<lambda>elementType. bind_read (u64 file) (array_elements file maxWork keep elementType))"

definition read_value :: "(byte list \<Rightarrow> string) \<Rightarrow> byte list \<Rightarrow> int \<Rightarrow> int \<Rightarrow> bool \<Rightarrow> int \<Rightarrow> gguf_value option read_op" where
  "read_value dec file maxWork ty keep maxStringBytes =
     (if ty = 8 then bind_read (read_string dec file keep maxStringBytes) (\<lambda>s. return_read (map_option GString s))
      else if ty \<noteq> 9 then bind_read (scalar file ty) (\<lambda>v. return_read (Some (safeNumber v)))
      else array_value file maxWork keep)"

record key_selection =
  ks_keep :: "string \<Rightarrow> bool"
  ks_maxStringBytes :: "string \<Rightarrow> int"

text \<open>One round of the loop of \<open>readKeyValues\<close>.\<close>

definition read_entry :: "(byte list \<Rightarrow> string) \<Rightarrow> byte list \<Rightarrow> int \<Rightarrow> key_selection \<Rightarrow> (string, gguf_value) js_map \<Rightarrow>
    (string, gguf_value) js_map read_op" where
  "read_entry dec file maxWork sel values =
     bind_read (spend maxWork 1) (\<lambda>_.
     bind_read (read_string dec file True MAX_KEPT_STRING_BYTES) (\<lambda>k.
     bind_read (u32 file) (\<lambda>ty.
       let key = (case k of Some s \<Rightarrow> s | None \<Rightarrow> []); keep = ks_keep sel key in
       bind_read (read_value dec file maxWork ty keep (ks_maxStringBytes sel key)) (\<lambda>v.
         return_read (case v of Some x \<Rightarrow> if keep then js_set key x values else values | None \<Rightarrow> values)))))"

fun read_entries :: "(byte list \<Rightarrow> string) \<Rightarrow> byte list \<Rightarrow> int \<Rightarrow> key_selection \<Rightarrow> nat \<Rightarrow> (string, gguf_value) js_map \<Rightarrow>
    (string, gguf_value) js_map read_op" where
  "read_entries dec file maxWork sel 0 values = return_read values"
| "read_entries dec file maxWork sel (Suc n) values =
     bind_read (read_entry dec file maxWork sel values) (read_entries dec file maxWork sel n)"

definition read_header :: "(byte list \<Rightarrow> string) \<Rightarrow> byte list \<Rightarrow> int \<Rightarrow> key_selection \<Rightarrow> (string, gguf_value) js_map read_op" where
  "read_header dec file maxWork sel =
     bind_read (u32 file) (\<lambda>magic. if magic \<noteq> GGUF_MAGIC then fail_read NotGguf else
     bind_read (u32 file) (\<lambda>version. if version \<noteq> 2 \<and> version \<noteq> 3 then fail_read (UnsupportedVersion version) else
     bind_read (u64 file) (\<lambda>_.
     bind_read (u64 file) (\<lambda>count. if count > MAX_KV_COUNT then fail_read ImplausibleKeyCount else
       read_entries dec file maxWork sel (nat count) []))))"

definition readKeyValues :: "(byte list \<Rightarrow> string) \<Rightarrow> byte list \<Rightarrow> int option \<Rightarrow> key_selection \<Rightarrow> gguf_error + (string, gguf_value) js_map" where
  "readKeyValues dec file maxWork sel =
     (case read_header dec file (case maxWork of Some w \<Rightarrow> w | None \<Rightarrow> MAX_PARSE_WORK) sel new_reader of
        Inl e \<Rightarrow> Inl e
      | Inr (values, r) \<Rightarrow> Inr values)"

section \<open>Buffered reading is direct reading\<close>

lemma take_int_take: "take_int n xs = take (nat n) xs"
proof (induction n xs rule: take_int.induct)
  case (2 n x xs)
  show ?case
  proof (cases "n \<le> 0")
    case False
    then have "nat n = Suc (nat (n - 1))" by simp
    then show ?thesis using 2 False by simp
  qed simp
qed simp

lemma drop_int_drop: "drop_int n xs = drop (nat n) xs"
proof (induction n xs rule: drop_int.induct)
  case (2 n x xs)
  show ?case
  proof (cases "n \<le> 0")
    case False
    then have "nat n = Suc (nat (n - 1))" by simp
    then show ?thesis using 2 False by simp
  qed simp
qed simp

definition reader_ok :: "byte list \<Rightarrow> gguf_reader \<Rightarrow> bool" where
  "reader_ok file r \<longleftrightarrow> 0 \<le> gr_bufferStart r \<and> gr_bufferStart r \<le> gr_position r \<and> gr_position r \<le> file_size file \<and>
     gr_bufferStart r + int (length (gr_buffer r)) \<le> file_size file \<and>
     gr_buffer r = take (length (gr_buffer r)) (drop (nat (gr_bufferStart r)) file)"

lemma reader_ok_new: "reader_ok file new_reader"
  by (simp add: reader_ok_def new_reader_def file_size_def)

lemma take_length_self: "take n xs = take (length (take n xs)) xs"
  by (cases "n \<le> length xs") simp_all

lemma take_drop_slice:
  assumes "b = take (length b) (drop s xs)" "s \<le> p" "p + n \<le> s + length b"
  shows "take n (drop (p - s) b) = take n (drop p xs)"
proof -
  have "take n (drop (p - s) b) = take n (drop (p - s) (take (length b) (drop s xs)))" using assms(1) by simp
  also have "\<dots> = take n (take (length b - (p - s)) (drop p xs))" using assms(2) by (simp add: drop_take)
  also have "\<dots> = take n (drop p xs)" using assms(2,3) by (simp add: min_def)
  finally show ?thesis .
qed

text \<open>Reading what is there returns it, keeps the work done, and moves the position.\<close>

lemma take_bytes_ok:
  assumes ok: "reader_ok file r" and len: "0 \<le> len"
  shows "case take_bytes file len r of
      Inl e \<Rightarrow> e = UnexpectedEnd \<and> gr_position r + len > file_size file
    | Inr (bs, r') \<Rightarrow> gr_position r + len \<le> file_size file \<and> bs = take (nat len) (drop (nat (gr_position r)) file) \<and>
        reader_ok file r' \<and> gr_position r' = gr_position r + len \<and> gr_work r' = gr_work r"
proof (cases "gr_position r < gr_bufferStart r \<or> gr_position r + len > gr_bufferStart r + int (length (gr_buffer r))")
  case True
  define chunk where "chunk = take_int (max len READ_CHUNK_BYTES) (drop_int (gr_position r) file)"
  have c: "chunk = take (nat (max len READ_CHUNK_BYTES)) (drop (nat (gr_position r)) file)"
    by (simp add: chunk_def take_int_take drop_int_drop)
  have p: "0 \<le> gr_position r" "gr_position r \<le> file_size file" using ok by (simp_all add: reader_ok_def)
  have lc: "int (length chunk) = min (max len READ_CHUNK_BYTES) (file_size file - gr_position r)"
    using p len by (auto simp: c file_size_def READ_CHUNK_BYTES_def)
  show ?thesis
  proof (cases "int (length chunk) < len")
    case short: True
    have "gr_position r + len > file_size file" using short lc by linarith
    then show ?thesis using True short by (simp add: take_bytes_def refill_def Let_def flip: chunk_def)
  next
    case False
    let ?r = "r\<lparr>gr_buffer := chunk, gr_bufferStart := gr_position r\<rparr>"
    have "refill file len r = Inr ?r" using True False by (simp add: refill_def Let_def flip: chunk_def)
    moreover have "take_int len (drop_int 0 chunk) = take (nat len) (drop (nat (gr_position r)) file)"
      using len by (simp add: take_int_take drop_int_drop c min_def)
    moreover have "chunk = take (length chunk) (drop (nat (gr_position r)) file)"
      unfolding c by (rule take_length_self)
    moreover have "gr_position r + len \<le> file_size file" using False lc by linarith
    ultimately show ?thesis using p lc len by (simp add: take_bytes_def reader_ok_def)
  qed
next
  case False
  then have "refill file len r = Inr r" by (auto simp: refill_def)
  moreover have "take_int len (drop_int (gr_position r - gr_bufferStart r) (gr_buffer r)) = take (nat len) (drop (nat (gr_position r)) file)"
  proof -
    have "take (nat len) (drop (nat (gr_position r) - nat (gr_bufferStart r)) (gr_buffer r)) = take (nat len) (drop (nat (gr_position r)) file)"
      using ok False len by (intro take_drop_slice) (auto simp: reader_ok_def)
    moreover have "nat (gr_position r - gr_bufferStart r) = nat (gr_position r) - nat (gr_bufferStart r)"
      using ok by (simp add: reader_ok_def nat_diff_distrib)
    ultimately show ?thesis by (simp add: take_int_take drop_int_drop)
  qed
  ultimately show ?thesis using ok False len by (auto simp: take_bytes_def reader_ok_def)
qed

text \<open>The reader stands before the bytes \<open>rest\<close> having done work \<open>w\<close>.\<close>

definition stands :: "byte list \<Rightarrow> byte list \<Rightarrow> int \<Rightarrow> gguf_reader \<Rightarrow> bool" where
  "stands file rest w r \<longleftrightarrow> reader_ok file r \<and> drop (nat (gr_position r)) file = rest \<and> gr_work r = w"

lemma stands_new: "stands file file 0 new_reader"
  by (simp add: stands_def reader_ok_new) (simp add: new_reader_def)

lemma stands_remaining: "stands file rest w r \<Longrightarrow> remaining file r = int (length rest) \<and> gr_position r + int (length rest) = file_size file"
  by (auto simp: stands_def remaining_def reader_ok_def file_size_def)

lemma take_bytes_stands:
  assumes "stands file (bs @ rest) w r"
  shows "\<exists>r'. take_bytes file (int (length bs)) r = Inr (bs, r') \<and> stands file rest w r'"
proof -
  note s = stands_remaining [OF assms] and k = take_bytes_ok [of "file" "r" "int (length bs)"]
  have d: "drop (nat (gr_position r)) file = bs @ rest" "reader_ok file r" "0 \<le> gr_position r"
    using assms by (simp_all add: stands_def reader_ok_def)
  obtain x r' where t: "take_bytes file (int (length bs)) r = Inr (x, r')"
    using k d(2) s by (cases "take_bytes file (int (length bs)) r") auto
  then have "x = bs" "reader_ok file r'" "gr_position r' = gr_position r + int (length bs)" "gr_work r' = gr_work r"
    using k d by simp_all
  moreover have "drop (nat (gr_position r + int (length bs))) file = rest"
  proof -
    have "nat (gr_position r + int (length bs)) = length bs + nat (gr_position r)" using d(3) by (simp add: nat_add_distrib)
    then show ?thesis using d(1) by (metis append_eq_conv_conj drop_drop)
  qed
  ultimately show ?thesis using t assms by (auto simp: stands_def)
qed

lemma skip_bytes_stands:
  assumes "stands file (bs @ rest) w r" "file_size file \<le> MAX_SAFE_INTEGER"
  shows "\<exists>r'. skip_bytes file (int (length bs)) r = Inr ((), r') \<and> stands file rest w r'"
proof -
  note s = stands_remaining [OF assms(1)]
  let ?r = "r\<lparr>gr_position := gr_position r + int (length bs)\<rparr>"
  have d: "drop (nat (gr_position r)) file = bs @ rest" "reader_ok file r" "0 \<le> gr_position r"
    using assms by (simp_all add: stands_def reader_ok_def)
  have "drop (nat (gr_position r + int (length bs))) file = rest"
  proof -
    have "nat (gr_position r + int (length bs)) = length bs + nat (gr_position r)" using d(3) by (simp add: nat_add_distrib)
    then show ?thesis using d(1) by (metis append_eq_conv_conj drop_drop)
  qed
  moreover have "reader_ok file ?r" using d(2) s by (simp add: reader_ok_def)
  moreover have "skip_bytes file (int (length bs)) r = Inr ((), ?r)" using s d(3) assms(2) by (simp add: skip_bytes_def)
  ultimately show ?thesis using assms(1) by (auto simp: stands_def)
qed

section \<open>What an operation reads\<close>

text \<open>
  Before the bytes \<open>rest\<close>, with work \<open>w\<close> done, \<open>m\<close> returns \<open>x\<close> and leaves the bytes \<open>rest'\<close>
  and the work \<open>w'\<close>.
\<close>

definition reads :: "byte list \<Rightarrow> 'a read_op \<Rightarrow> byte list \<Rightarrow> int \<Rightarrow> 'a \<Rightarrow> byte list \<Rightarrow> int \<Rightarrow> bool" where
  "reads file m rest w x rest' w' \<longleftrightarrow> (\<forall>r. stands file rest w r \<longrightarrow> (\<exists>r'. m r = Inr (x, r') \<and> stands file rest' w' r'))"

named_theorems reading \<open>what the operations of the reader read\<close>

lemma reads_return [reading]: "reads file (return_read x) rest w x rest w"
  by (simp add: reads_def return_read_def)

lemma reads_bind:
  "reads file m rest w x rest1 w1 \<Longrightarrow> reads file (f x) rest1 w1 y rest2 w2 \<Longrightarrow> reads file (bind_read m f) rest w y rest2 w2"
  unfolding reads_def bind_read_def by fastforce

lemma reads_state: "(\<And>r. stands file rest w r \<Longrightarrow> m r = m' r) \<Longrightarrow> reads file m' rest w x rest1 w1 \<Longrightarrow> reads file m rest w x rest1 w1"
  by (simp add: reads_def)

lemma reads_take [reading]: "n = int (length bs) \<Longrightarrow> reads file (take_bytes file n) (bs @ rest) w bs rest w"
  unfolding reads_def using take_bytes_stands by blast

lemma reads_skip [reading]:
  "n = int (length bs) \<Longrightarrow> file_size file \<le> MAX_SAFE_INTEGER \<Longrightarrow> reads file (skip_bytes file n) (bs @ rest) w () rest w"
  unfolding reads_def using skip_bytes_stands by blast

lemma reads_spend [reading]: "w + n \<le> maxWork \<Longrightarrow> reads file (spend maxWork n) rest w () rest (w + n)"
  by (auto simp: reads_def spend_def stands_def reader_ok_def Let_def)

section \<open>A writer\<close>

text \<open>
  Headers as the format lays them out: little-endian integers, length-prefixed strings, and for
  every key its type code and value.
\<close>

primrec le_bytes :: "nat \<Rightarrow> int \<Rightarrow> byte list" where
  "le_bytes 0 n = []"
| "le_bytes (Suc k) n = word_of_int n # le_bytes k (n div 256)"

lemma length_le_bytes [simp]: "length (le_bytes k n) = k"
  by (induction k arbitrary: n) simp_all

lemma le_value_le_bytes: "le_value (le_bytes k n) = n mod 256 ^ k"
proof (induction k arbitrary: n)
  case (Suc k)
  have "uint (word_of_int n :: byte) = n mod 256" by (simp add: uint_word_of_int)
  then have "le_value (le_bytes (Suc k) n) = n mod 256 + 256 * ((n div 256) mod 256 ^ k)"
    using Suc by (simp add: le_value_def)
  also have "\<dots> = n mod (256 * 256 ^ k)" by (simp add: zmod_zmult2_eq)
  finally show ?case by simp
qed (simp add: le_value_def)

lemma le_value_small: "0 \<le> n \<Longrightarrow> n < 256 ^ k \<Longrightarrow> le_value (le_bytes k n) = n"
  by (simp add: le_value_le_bytes)

lemma reads_u32 [reading]: "0 \<le> n \<Longrightarrow> n < 2 ^ 32 \<Longrightarrow> reads file (u32 file) (le_bytes 4 n @ rest) w n rest w"
  unfolding u32_def by (rule reads_bind [OF reads_take]) (simp_all add: le_value_small reads_return)

lemma reads_u64 [reading]:
  "0 \<le> n \<Longrightarrow> n \<le> MAX_SAFE_INTEGER \<Longrightarrow> reads file (u64 file) (le_bytes 8 n @ rest) w n rest w"
  unfolding u64_def by (rule reads_bind [OF reads_take]) (simp_all add: le_value_small reads_return MAX_SAFE_INTEGER_def)

text \<open>
  The types of fixed width, with the width in bytes and whether the type is signed: the integers, the
  booleans (7), and the floats of single (6) and double (12) precision, which are written as bit patterns.
\<close>

definition fixed_type :: "int \<Rightarrow> (nat \<times> bool) option" where
  "fixed_type = map_of [(0, (1, False)), (1, (1, True)), (2, (2, False)), (3, (2, True)), (4, (4, False)), (5, (4, True)),
     (6, (4, False)), (7, (1, False)), (10, (8, False)), (11, (8, True)), (12, (8, False))]"

definition fits_type :: "int \<Rightarrow> int \<Rightarrow> bool" where
  "fits_type ty n \<longleftrightarrow>
     (case fixed_type ty of
        None \<Rightarrow> False
      | Some (k, neg) \<Rightarrow>
          if neg then - (2 ^ (8 * k - 1)) \<le> n \<and> n < 2 ^ (8 * k - 1) else 0 \<le> n \<and> n < 2 ^ (8 * k))"

definition scalar_bytes :: "int \<Rightarrow> int \<Rightarrow> byte list" where
  "scalar_bytes ty n = (case fixed_type ty of None \<Rightarrow> [] | Some (k, neg) \<Rightarrow> le_bytes k n)"

text \<open>
  The value of an IEEE 754 bit pattern of sign, exponent and mantissa, and of the two formats.  A written
  scalar reads as a boolean or as its value; 64-bit integers beyond the safe range become NaN.
\<close>

definition float_value :: "nat \<Rightarrow> nat \<Rightarrow> nat \<Rightarrow> int \<Rightarrow> js_num" where
  "float_value ebits mbits bias n =
     (let m = n mod 2 ^ mbits; e = n div 2 ^ mbits mod 2 ^ ebits; neg = n div 2 ^ (mbits + ebits) = 1;
          sign = (if neg then - 1 else 1 :: rat)
      in if e = 2 ^ ebits - 1 then (if m = 0 then Infinite neg else NaN)
         else if e = 0 then Finite (sign * (of_int m / 2 ^ (bias - 1 + mbits)))
         else Finite (sign * ((1 + of_int m / 2 ^ mbits) * (2 ^ nat e / 2 ^ bias))))"

definition single_value :: "int \<Rightarrow> js_num" where
  "single_value = float_value 8 23 127"

definition double_value :: "int \<Rightarrow> js_num" where
  "double_value = float_value 11 52 1023"

definition written_number :: "int \<Rightarrow> int \<Rightarrow> js_num" where
  "written_number ty n =
     (if ty = 6 then single_value n
      else if ty = 12 then double_value n
      else if ty = 7 then Finite (if n = 0 then 0 else 1)
      else if (ty = 10 \<or> ty = 11) \<and> \<bar>n\<bar> \<ge> 2 ^ 53 then NaN
      else Finite (of_int n))"

definition written_scalar :: "int \<Rightarrow> int \<Rightarrow> gguf_value" where
  "written_scalar ty n = (if ty = 7 then GBool (n \<noteq> 0) else GNumber (written_number ty n))"

lemma scale_powers:
  "(let k = int a - int b - int c in if k \<ge> 0 then (2 :: rat) ^ nat k else 1 / 2 ^ nat (- k)) = 2 ^ a / 2 ^ b / 2 ^ c"
proof (cases "b + c \<le> a")
  case True
  then have "nat (int a - int b - int c) = a - (b + c)" "int a - int b - int c \<ge> 0" by linarith+
  then show ?thesis using True by (simp add: power_diff power_add Let_def)
next
  case False
  then have k: "nat (- (int a - int b - int c)) = b + c - a" "\<not> int a - int b - int c \<ge> 0" by linarith+
  have "(2 :: rat) ^ (b + c - a) = 2 ^ (b + c) / 2 ^ a" using False by (simp add: power_diff)
  then show ?thesis using k by (simp add: Let_def power_add)
qed

lemma ieee_float_value:
  assumes "0 < ebits" and "int bias = 2 ^ (ebits - 1) - 1" and "0 < bias"
  shows "ieee_value ebits mbits n = float_value ebits mbits bias n"
proof -
  define m where "m = n mod 2 ^ mbits"
  define e where "e = n div 2 ^ mbits mod 2 ^ ebits"
  define neg where "neg = (n div 2 ^ (mbits + ebits) = 1)"
  have e0: "0 \<le> e" by (simp add: e_def)
  have k0: "\<not> 1 - int bias - int mbits \<ge> 0 \<or> bias = 1 \<and> mbits = 0" using assms(3) by linarith
  have sub: "(if 1 - int bias - int mbits \<ge> 0 then (2 :: rat) ^ nat (1 - int bias - int mbits) else 1 / 2 ^ nat (- (1 - int bias - int mbits))) =
      1 / 2 ^ (bias - 1 + mbits)"
  proof -
    have "nat (- (1 - int bias - int mbits)) = bias - 1 + mbits" using assms(3) by linarith
    then show ?thesis using k0 by auto
  qed
  have norm: "(if e - int bias - int mbits \<ge> 0 then (2 :: rat) ^ nat (e - int bias - int mbits) else 1 / 2 ^ nat (- (e - int bias - int mbits))) =
      2 ^ nat e / 2 ^ bias / 2 ^ mbits"
    using scale_powers [of "nat e" bias mbits] e0 by (simp add: Let_def)
  have sig: "of_int (m + 2 ^ mbits) * (2 ^ nat e / 2 ^ bias / 2 ^ mbits) = (1 + of_int m / 2 ^ mbits) * (2 ^ nat e / 2 ^ bias :: rat)"
    by (simp add: field_simps)
  show ?thesis
    unfolding ieee_value_def float_value_def Let_def m_def [symmetric] e_def [symmetric] neg_def [symmetric]
      assms(2) [symmetric] sub norm sig
    by simp
qed

lemma ieee_values: "ieee_value 8 23 n = single_value n" "ieee_value 11 52 n = double_value n"
  unfolding single_value_def double_value_def by (rule ieee_float_value; simp)+

lemma safe_bigint_written: "safe_bigint n = (if \<bar>n\<bar> \<ge> 2 ^ 53 then NaN else Finite (of_int n))"
  by (auto simp: safe_bigint_def MAX_SAFE_INTEGER_def)

lemma le_value_byte: "le_value [word_of_int n] = n mod 256" "le_value [0] = 0"
  using le_value_le_bytes [of 1 n] by (simp_all add: le_value_def)

lemma signed_mod:
  assumes "- (2 ^ (b - 1)) \<le> n" "n < 2 ^ (b - 1)" "0 < b"
  shows "signed_value b (n mod 2 ^ b) = n"
proof -
  have p: "(2 :: int) ^ b = 2 * 2 ^ (b - 1)" using assms(3) by (cases b) simp_all
  show ?thesis
  proof (cases "0 \<le> n")
    case True
    then have "n mod 2 ^ b = n" using assms(2) p by (intro mod_pos_pos_trivial) simp_all
    then show ?thesis using assms(2) by (simp add: signed_value_def)
  next
    case False
    have "n mod 2 ^ b = (n + 2 ^ b) mod 2 ^ b" by simp
    also have "\<dots> = n + 2 ^ b" using False assms(1) p by (intro mod_pos_pos_trivial) simp_all
    finally show ?thesis using False assms(1) p by (simp add: signed_value_def)
  qed
qed

lemma fits_type_cases:
  assumes "fits_type ty n"
  obtains "ty = 0" "0 \<le> n" "n < 2 ^ 8" | "ty = 1" "- (2 ^ 7) \<le> n" "n < 2 ^ 7" | "ty = 2" "0 \<le> n" "n < 2 ^ 16"
    | "ty = 3" "- (2 ^ 15) \<le> n" "n < 2 ^ 15" | "ty = 4" "0 \<le> n" "n < 2 ^ 32" | "ty = 5" "- (2 ^ 31) \<le> n" "n < 2 ^ 31"
    | "ty = 10" "0 \<le> n" "n < 2 ^ 64" | "ty = 11" "- (2 ^ 63) \<le> n" "n < 2 ^ 63"
    | "ty = 6" "0 \<le> n" "n < 2 ^ 32" | "ty = 7" "0 \<le> n" "n < 2 ^ 8" | "ty = 12" "0 \<le> n" "n < 2 ^ 64"
  using assms by (auto simp: fits_type_def fixed_type_def split: if_splits)

lemmas scalar_defs = le_value_byte scalar_value_def scalar_bytes_def fixed_type_def FIXED_SIZES_def le_value_le_bytes le_value_small safeNumber_def
  scalar_number_def written_number_def written_scalar_def ieee_values safe_bigint_written

lemma scalar_written:
  assumes "fits_type ty n"
  shows "\<exists>v. scalar_value ty (scalar_bytes ty n) = Inr v \<and> safeNumber v = written_scalar ty n \<and>
    scalar_number v = written_number ty n \<and> FIXED_SIZES ty = Some (int (length (scalar_bytes ty n)))"
  using assms
  by (cases rule: fits_type_cases)
    (use signed_mod [of 8 n] signed_mod [of 16 n] signed_mod [of 32 n] signed_mod [of 64 n] in \<open>simp_all add: scalar_defs\<close>)

datatype written =
    WScalar int int | WString "byte list" | WArray int "int list" | WStrings "byte list list"

definition string_bytes :: "byte list \<Rightarrow> byte list" where
  "string_bytes s = le_bytes 8 (int (length s)) @ s"

fun type_code :: "written \<Rightarrow> int" where
  "type_code (WScalar ty n) = ty"
| "type_code (WString s) = 8"
| "type_code (WArray ty ns) = 9"
| "type_code (WStrings ss) = 9"

fun value_bytes :: "written \<Rightarrow> byte list" where
  "value_bytes (WScalar ty n) = scalar_bytes ty n"
| "value_bytes (WString s) = string_bytes s"
| "value_bytes (WArray ty ns) = le_bytes 4 ty @ le_bytes 8 (int (length ns)) @ concat (map (scalar_bytes ty) ns)"
| "value_bytes (WStrings ss) = le_bytes 4 8 @ le_bytes 8 (int (length ss)) @ concat (map string_bytes ss)"

fun writable :: "written \<Rightarrow> bool" where
  "writable (WScalar ty n) = fits_type ty n"
| "writable (WArray ty ns) = (fits_type ty 0 \<and> list_all (fits_type ty) ns)"
| "writable v = True"

text \<open>What a written value reads as, and the work its elements cost.\<close>

fun read_as :: "(byte list \<Rightarrow> string) \<Rightarrow> bool \<Rightarrow> int \<Rightarrow> written \<Rightarrow> gguf_value option" where
  "read_as dec keep limit (WScalar ty n) = Some (written_scalar ty n)"
| "read_as dec keep limit (WString s) = (if keep \<and> int (length s) \<le> limit then Some (GString (dec s)) else None)"
| "read_as dec keep limit (WArray ty ns) =
     (if keep \<and> int (length ns) \<le> MAX_KEPT_ARRAY_ELEMENTS then Some (GArray (map (written_number ty) ns)) else None)"
| "read_as dec keep limit (WStrings ss) = None"

fun value_work :: "bool \<Rightarrow> written \<Rightarrow> int" where
  "value_work keep (WArray ty ns) = (if keep \<and> int (length ns) \<le> MAX_KEPT_ARRAY_ELEMENTS then int (length ns) else 0)"
| "value_work keep (WStrings ss) = int (length ss)"
| "value_work keep v = 0"

lemma value_work_nonneg: "0 \<le> value_work keep v"
  by (cases "(keep, v)" rule: value_work.cases) auto

text \<open>The bytes ahead never exceed the file.\<close>

lemma reads_within:
  "(int (length rest) \<le> file_size file \<Longrightarrow> reads file m rest w x rest1 w1) \<Longrightarrow> reads file m rest w x rest1 w1"
  unfolding reads_def using stands_remaining by (smt (verit) reader_ok_def stands_def)

lemma reads_skip_strings:
  assumes "file_size file \<le> MAX_SAFE_INTEGER"
  shows "reads file (skip_strings file (length ss)) (concat (map string_bytes ss) @ rest) w () rest w"
proof (induction ss)
  case (Cons s ss)
  show ?case
  proof (rule reads_within)
    assume "int (length (concat (map string_bytes (s # ss)) @ rest)) \<le> file_size file"
    then have s: "int (length s) \<le> MAX_SAFE_INTEGER" using assms by (simp add: string_bytes_def)
    have len: "reads file (u64 file) (le_bytes 8 (int (length s)) @ s @ concat (map string_bytes ss) @ rest) w (int (length s))
        (s @ concat (map string_bytes ss) @ rest) w" using s by (intro reads_u64) simp_all
    have skip: "reads file (skip_bytes file (int (length s))) (s @ concat (map string_bytes ss) @ rest) w ()
        (concat (map string_bytes ss) @ rest) w" using assms by (intro reads_skip) simp_all
    show "reads file (skip_strings file (length (s # ss))) (concat (map string_bytes (s # ss)) @ rest) w () rest w"
      using reads_bind [OF len, of "\<lambda>n. bind_read (skip_bytes file n) (\<lambda>_. skip_strings file (length ss))",
          OF reads_bind [OF skip Cons.IH]] by (simp add: string_bytes_def)
  qed
qed (simp add: reads_return)

lemma reads_scalar:
  assumes "fits_type ty n"
  shows "\<exists>v. reads file (scalar file ty) (scalar_bytes ty n @ rest) w v rest w \<and>
    safeNumber v = written_scalar ty n \<and> scalar_number v = written_number ty n"
proof -
  obtain v where v: "scalar_value ty (scalar_bytes ty n) = Inr v" "safeNumber v = written_scalar ty n"
    "scalar_number v = written_number ty n" "FIXED_SIZES ty = Some (int (length (scalar_bytes ty n)))"
    using scalar_written [OF assms] by blast
  have "reads file (scalar file ty) (scalar_bytes ty n @ rest) w v rest w"
    unfolding scalar_def by (rule reads_bind [OF reads_take]) (simp_all add: v reads_return)
  then show ?thesis using v by blast
qed

lemma reads_scalars:
  "list_all (fits_type ty) ns \<Longrightarrow>
   reads file (scalars file ty (length ns)) (concat (map (scalar_bytes ty) ns) @ rest) w (map (written_number ty) ns) rest w"
proof (induction ns)
  case (Cons n ns)
  obtain v where v: "reads file (scalar file ty) (scalar_bytes ty n @ concat (map (scalar_bytes ty) ns) @ rest) w v
      (concat (map (scalar_bytes ty) ns) @ rest) w" "scalar_number v = written_number ty n"
    using reads_scalar [of ty n "file" "concat (map (scalar_bytes ty) ns) @ rest" w] Cons.prems by auto
  have "reads file (scalars file ty (length ns)) (concat (map (scalar_bytes ty) ns) @ rest) w (map (written_number ty) ns) rest w"
    using Cons by simp
  then have "reads file (scalars file ty (Suc (length ns))) (scalar_bytes ty n @ concat (map (scalar_bytes ty) ns) @ rest) w
      (scalar_number v # map (written_number ty) ns) rest w"
    unfolding scalars.simps by (rule reads_bind [OF v(1) reads_bind [OF _ reads_return]])
  then show ?case by (simp add: v(2))
qed (simp add: reads_return)

lemma scalar_bytes_length: "fits_type ty n \<Longrightarrow> FIXED_SIZES ty = Some (int (length (scalar_bytes ty n)))"
  using scalar_written by blast

lemma scalar_bytes_width: "length (scalar_bytes ty n) = (case fixed_type ty of None \<Rightarrow> 0 | Some (k, neg) \<Rightarrow> k)"
  by (simp add: scalar_bytes_def split: option.split)

lemma length_scalars: "length (concat (map (scalar_bytes ty) ns)) = length ns * length (scalar_bytes ty 0)"
  by (induction ns) (simp_all add: scalar_bytes_width)

lemma length_strings: "8 * length ss \<le> length (concat (map string_bytes ss))"
  by (induction ss) (simp_all add: string_bytes_def)

lemma fits_type_code: "fits_type ty n \<Longrightarrow> 0 \<le> ty \<and> ty < 2 ^ 32 \<and> ty \<noteq> 8 \<and> ty \<noteq> 9"
  by (elim fits_type_cases) simp_all

lemma reads_array_scalars:
  assumes small: "file_size file \<le> MAX_SAFE_INTEGER" and ok: "writable (WArray ty ns)"
    and w: "w + value_work keep (WArray ty ns) \<le> maxWork"
  shows "reads file (array_value file maxWork keep) (value_bytes (WArray ty ns) @ rest) w
    (read_as dec keep limit (WArray ty ns)) rest (w + value_work keep (WArray ty ns))"
proof (rule reads_within)
  define bs where "bs = concat (map (scalar_bytes ty) ns)"
  define width where "width = int (length (scalar_bytes ty 0))"
  assume within: "int (length (value_bytes (WArray ty ns) @ rest)) \<le> file_size file"
  have ty: "fits_type ty 0" "0 \<le> ty" "ty < 2 ^ 32" "ty \<noteq> 8" using ok fits_type_code by auto
  have size: "FIXED_SIZES ty = Some width" using scalar_bytes_length [OF ty(1)] by (simp add: width_def)
  have pos: "0 < width" using ty(1) by (cases rule: fits_type_cases) (simp_all add: width_def scalar_bytes_def fixed_type_def)
  have len: "int (length ns) * width = int (length bs)" by (simp add: bs_def length_scalars width_def)
  have n: "int (length ns) \<le> MAX_SAFE_INTEGER"
  proof -
    have "int (length ns) \<le> int (length ns) * width" using pos by (simp add: mult_le_cancel_left1)
    also have "\<dots> \<le> file_size file"
      using within by (simp add: len bs_def)
    finally show ?thesis using small by simp
  qed
  have elems: "reads file (array_elements file maxWork keep ty (int (length ns))) (bs @ rest) w (read_as dec keep limit (WArray ty ns)) rest (w + value_work keep (WArray ty ns))"
  proof (cases "keep \<and> int (length ns) \<le> MAX_KEPT_ARRAY_ELEMENTS")
    case True
    have kept: "reads file (bind_read (spend maxWork (int (length ns)))
        (\<lambda>_. bind_read (scalars file ty (nat (int (length ns)))) (\<lambda>vs. return_read (Some (GArray vs)))))
        (bs @ rest) w (Some (GArray (map (written_number ty) ns))) rest (w + int (length ns))"
      unfolding nat_int bs_def using w True ok
      by (intro reads_bind [OF reads_spend] reads_bind [OF reads_scalars] reads_return) simp_all
    show ?thesis
      by (rule reads_state [where m' = "bind_read (spend maxWork (int (length ns)))
          (\<lambda>_. bind_read (scalars file ty (nat (int (length ns)))) (\<lambda>vs. return_read (Some (GArray vs))))"])
        (use True ty(4) kept in \<open>auto simp: array_elements_def size len dest: stands_remaining\<close>)
  next
    case False
    have skipped: "reads file (bind_read (skip_bytes file (int (length bs))) (\<lambda>_. return_read None)) (bs @ rest) w None rest w"
      by (intro reads_bind [OF reads_skip] reads_return small refl)
    show ?thesis
      by (rule reads_state [where m' = "bind_read (skip_bytes file (int (length bs))) (\<lambda>_. return_read None)"])
        (use False ty(4) len skipped in \<open>auto simp: array_elements_def size mult.commute dest: stands_remaining\<close>)
  qed
  show "reads file (array_value file maxWork keep) (value_bytes (WArray ty ns) @ rest) w
      (read_as dec keep limit (WArray ty ns)) rest (w + value_work keep (WArray ty ns))"
    unfolding array_value_def value_bytes.simps append_assoc
  proof (rule reads_bind)
    show "reads file (u32 file) (le_bytes 4 ty @ le_bytes 8 (int (length ns)) @ concat (map (scalar_bytes ty) ns) @ rest) w ty
        (le_bytes 8 (int (length ns)) @ concat (map (scalar_bytes ty) ns) @ rest) w" using ty by (intro reads_u32) simp_all
    show "reads file (bind_read (u64 file) (array_elements file maxWork keep ty))
        (le_bytes 8 (int (length ns)) @ concat (map (scalar_bytes ty) ns) @ rest) w
        (read_as dec keep limit (WArray ty ns)) rest (w + value_work keep (WArray ty ns))"
      by (rule reads_bind [OF reads_u64]) (use n elems in \<open>simp_all add: bs_def\<close>)
  qed
qed

lemma reads_array_strings:
  assumes small: "file_size file \<le> MAX_SAFE_INTEGER" and w: "w + int (length ss) \<le> maxWork"
  shows "reads file (array_value file maxWork keep) (value_bytes (WStrings ss) @ rest) w None rest (w + int (length ss))"
proof (rule reads_within)
  let ?bs = "concat (map string_bytes ss)"
  assume within: "int (length (value_bytes (WStrings ss) @ rest)) \<le> file_size file"
  have n: "int (length ss) \<le> MAX_SAFE_INTEGER" using within small length_strings [of ss] by simp
  have read: "reads file (bind_read (spend maxWork (int (length ss)))
      (\<lambda>_. bind_read (skip_strings file (nat (int (length ss)))) (\<lambda>_. return_read (None :: gguf_value option))))
      (?bs @ rest) w None rest (w + int (length ss))"
    unfolding nat_int using w by (intro reads_bind [OF reads_spend] reads_bind [OF reads_skip_strings] reads_return small) simp
  have elems: "reads file (array_elements file maxWork keep 8 (int (length ss))) (?bs @ rest) w None rest (w + int (length ss))"
    by (rule reads_state [where m' = "bind_read (spend maxWork (int (length ss)))
        (\<lambda>_. bind_read (skip_strings file (nat (int (length ss)))) (\<lambda>_. return_read None))"])
      (use read length_strings [of ss] in \<open>auto simp: array_elements_def dest!: stands_remaining\<close>)
  show "reads file (array_value file maxWork keep) (value_bytes (WStrings ss) @ rest) w None rest (w + int (length ss))"
    unfolding array_value_def value_bytes.simps append_assoc
  proof (rule reads_bind)
    show "reads file (u32 file) (le_bytes 4 8 @ le_bytes 8 (int (length ss)) @ ?bs @ rest) w 8
        (le_bytes 8 (int (length ss)) @ ?bs @ rest) w" by (intro reads_u32) simp_all
    show "reads file (bind_read (u64 file) (array_elements file maxWork keep 8)) (le_bytes 8 (int (length ss)) @ ?bs @ rest) w
        None rest (w + int (length ss))"
      by (rule reads_bind [OF reads_u64]) (use n elems in simp_all)
  qed
qed

lemma reads_string:
  assumes small: "file_size file \<le> MAX_SAFE_INTEGER"
  shows "reads file (read_string dec file keep limit) (string_bytes s @ rest) w
    (if keep \<and> int (length s) \<le> limit then Some (dec s) else None) rest w"
proof (rule reads_within)
  assume "int (length (string_bytes s @ rest)) \<le> file_size file"
  then have n: "int (length s) \<le> MAX_SAFE_INTEGER" using small by (simp add: string_bytes_def)
  have "reads file (if \<not> keep \<or> int (length s) > limit then bind_read (skip_bytes file (int (length s))) (\<lambda>_. return_read None)
      else bind_read (take_bytes file (int (length s))) (\<lambda>bs. return_read (Some (dec bs))))
    (s @ rest) w (if keep \<and> int (length s) \<le> limit then Some (dec s) else None) rest w"
    by (auto simp: not_le small intro!: reads_bind [OF reads_take] reads_bind [OF reads_skip] reads_return)
  then show "reads file (read_string dec file keep limit) (string_bytes s @ rest) w
      (if keep \<and> int (length s) \<le> limit then Some (dec s) else None) rest w"
    unfolding read_string_def string_bytes_def append_assoc
    by (rule reads_bind [OF reads_u64, rotated 2]) (use n in simp_all)
qed

lemma reads_value:
  assumes small: "file_size file \<le> MAX_SAFE_INTEGER" and ok: "writable v" and w: "w + value_work keep v \<le> maxWork"
  shows "reads file (read_value dec file maxWork (type_code v) keep limit) (value_bytes v @ rest) w
    (read_as dec keep limit v) rest (w + value_work keep v)"
proof (cases v)
  case (WScalar ty n)
  then have ty: "fits_type ty n" using ok by simp
  obtain x where x: "reads file (scalar file ty) (scalar_bytes ty n @ rest) w x rest w" "safeNumber x = written_scalar ty n"
    using reads_scalar [OF ty] by blast
  have "reads file (bind_read (scalar file ty) (\<lambda>v. return_read (Some (safeNumber v)))) (scalar_bytes ty n @ rest) w
      (Some (safeNumber x)) rest w"
    by (rule reads_bind [OF x(1) reads_return])
  then show ?thesis using fits_type_code [OF ty] WScalar x(2) by (simp add: read_value_def)
next
  case (WString s)
  have "reads file (bind_read (read_string dec file keep limit) (\<lambda>s. return_read (map_option GString s))) (string_bytes s @ rest) w
      (map_option GString (if keep \<and> int (length s) \<le> limit then Some (dec s) else None)) rest w"
    by (rule reads_bind [OF reads_string [OF small] reads_return])
  then show ?thesis using WString by (cases "keep \<and> int (length s) \<le> limit") (auto simp: read_value_def)
next
  case (WArray ty ns)
  then show ?thesis using reads_array_scalars [OF small] ok w by (simp add: read_value_def del: value_bytes.simps writable.simps)
next
  case (WStrings ss)
  then show ?thesis using reads_array_strings [OF small] w by (simp add: read_value_def del: value_bytes.simps)
qed

type_synonym written_entry = "byte list \<times> written"

definition entry_bytes :: "written_entry \<Rightarrow> byte list" where
  "entry_bytes e = string_bytes (fst e) @ le_bytes 4 (type_code (snd e)) @ value_bytes (snd e)"

definition header_bytes :: "int \<Rightarrow> int \<Rightarrow> written_entry list \<Rightarrow> byte list" where
  "header_bytes version tensors es =
     le_bytes 4 GGUF_MAGIC @ le_bytes 4 version @ le_bytes 8 tensors @ le_bytes 8 (int (length es)) @ concat (map entry_bytes es)"

text \<open>The key an entry reads as: a name over the limit reads as the empty string.\<close>

definition entry_key :: "(byte list \<Rightarrow> string) \<Rightarrow> written_entry \<Rightarrow> string" where
  "entry_key dec e = (if int (length (fst e)) \<le> MAX_KEPT_STRING_BYTES then dec (fst e) else [])"

definition entry_work :: "(byte list \<Rightarrow> string) \<Rightarrow> key_selection \<Rightarrow> written_entry \<Rightarrow> int" where
  "entry_work dec sel e = 1 + value_work (ks_keep sel (entry_key dec e)) (snd e)"

definition keep_entry :: "(byte list \<Rightarrow> string) \<Rightarrow> key_selection \<Rightarrow> written_entry \<Rightarrow> (string, gguf_value) js_map \<Rightarrow> (string, gguf_value) js_map" where
  "keep_entry dec sel e values =
     (let key = entry_key dec e; keep = ks_keep sel key in
      case read_as dec keep (ks_maxStringBytes sel key) (snd e) of
        Some x \<Rightarrow> if keep then js_set key x values else values
      | None \<Rightarrow> values)"

definition kept_entries :: "(byte list \<Rightarrow> string) \<Rightarrow> key_selection \<Rightarrow> written_entry list \<Rightarrow> (string, gguf_value) js_map" where
  "kept_entries dec sel es = fold (keep_entry dec sel) es []"

lemma writable_code: "writable v \<Longrightarrow> 0 \<le> type_code v \<and> type_code v < 2 ^ 32"
  using fits_type_code by (cases v) auto

lemma reads_entry:
  assumes small: "file_size file \<le> MAX_SAFE_INTEGER" and ok: "writable (snd e)" and w: "w + entry_work dec sel e \<le> maxWork"
  shows "reads file (read_entry dec file maxWork sel values) (entry_bytes e @ rest) w (keep_entry dec sel e values) rest
    (w + entry_work dec sel e)"
proof -
  let ?k = "entry_key dec e" and ?v = "snd e"
  let ?keep = "ks_keep sel ?k"
  have w1: "w + 1 \<le> maxWork" using w value_work_nonneg [of ?keep ?v] by (simp add: entry_work_def)
  have w2: "(w + 1) + value_work ?keep ?v \<le> maxWork" using w by (simp add: entry_work_def)
  have k: "(case (if True \<and> int (length (fst e)) \<le> MAX_KEPT_STRING_BYTES then Some (dec (fst e)) else None) of
      Some s \<Rightarrow> s | None \<Rightarrow> []) = ?k" by (simp add: entry_key_def)
  have "reads file (read_entry dec file maxWork sel values) (entry_bytes e @ rest) w (keep_entry dec sel e values) rest
      ((w + 1) + value_work ?keep ?v)"
    unfolding read_entry_def entry_bytes_def append_assoc
  proof (rule reads_bind [OF reads_spend [OF w1]], rule reads_bind [OF reads_string [OF small]], rule reads_bind)
    show "reads file (u32 file) (le_bytes 4 (type_code ?v) @ value_bytes ?v @ rest) (w + 1) (type_code ?v) (value_bytes ?v @ rest) (w + 1)"
      using writable_code [OF ok] by (intro reads_u32) simp_all
    show "reads file (let key = case (if True \<and> int (length (fst e)) \<le> MAX_KEPT_STRING_BYTES then Some (dec (fst e)) else None) of
          Some s \<Rightarrow> s | None \<Rightarrow> []; keep = ks_keep sel key in
        bind_read (read_value dec file maxWork (type_code ?v) keep (ks_maxStringBytes sel key))
          (\<lambda>v. return_read (case v of Some x \<Rightarrow> if keep then js_set key x values else values | None \<Rightarrow> values)))
      (value_bytes ?v @ rest) (w + 1) (keep_entry dec sel e values) rest ((w + 1) + value_work ?keep ?v)"
      unfolding k Let_def keep_entry_def by (rule reads_bind [OF reads_value [OF small ok w2] reads_return])
  qed
  then show ?thesis by (simp add: entry_work_def add.assoc)
qed

lemma entry_work_nonneg: "0 \<le> entry_work dec sel e"
  using value_work_nonneg by (simp add: entry_work_def add_nonneg_nonneg)

lemma reads_entries:
  assumes small: "file_size file \<le> MAX_SAFE_INTEGER"
  shows "list_all (\<lambda>e. writable (snd e)) es \<Longrightarrow> w + sum_list (map (entry_work dec sel) es) \<le> maxWork \<Longrightarrow>
    reads file (read_entries dec file maxWork sel (length es) values) (concat (map entry_bytes es) @ rest) w
      (fold (keep_entry dec sel) es values) rest (w + sum_list (map (entry_work dec sel) es))"
proof (induction es arbitrary: w "values")
  case (Cons e es)
  have nn: "0 \<le> sum_list (map (entry_work dec sel) es)" by (rule sum_list_nonneg_int) (simp add: entry_work_nonneg)
  have "reads file (read_entry dec file maxWork sel values) (entry_bytes e @ concat (map entry_bytes es) @ rest) w
      (keep_entry dec sel e values) (concat (map entry_bytes es) @ rest) (w + entry_work dec sel e)"
    using Cons.prems nn by (intro reads_entry small) simp_all
  moreover have "reads file (read_entries dec file maxWork sel (length es) (keep_entry dec sel e values))
      (concat (map entry_bytes es) @ rest) (w + entry_work dec sel e) (fold (keep_entry dec sel) es (keep_entry dec sel e values)) rest
      (w + entry_work dec sel e + sum_list (map (entry_work dec sel) es))"
    using Cons.prems by (intro Cons.IH) simp_all
  ultimately show ?case by (simp add: reads_bind add.assoc)
qed (simp add: reads_return)

text \<open>A written header reads back, whatever follows it.\<close>

lemma reads_header:
  assumes small: "file_size file \<le> MAX_SAFE_INTEGER"
    and version: "version = 2 \<or> version = 3" and tensors: "0 \<le> tensors" "tensors \<le> MAX_SAFE_INTEGER"
    and count: "int (length es) \<le> MAX_KV_COUNT" and ok: "list_all (\<lambda>e. writable (snd e)) es"
    and work: "sum_list (map (entry_work dec sel) es) \<le> maxWork"
  shows "\<exists>w. reads file (read_header dec file maxWork sel) (header_bytes version tensors es @ rest) 0 (kept_entries dec sel es) rest w"
proof -
  have m: "0 \<le> GGUF_MAGIC" "GGUF_MAGIC < 2 ^ 32" by (simp_all add: GGUF_MAGIC_def)
  have v: "0 \<le> version" "version < 2 ^ 32" "\<not> (version \<noteq> 2 \<and> version \<noteq> 3)" using version by auto
  have c: "int (length es) \<le> MAX_SAFE_INTEGER" "\<not> int (length es) > MAX_KV_COUNT"
    using count by (simp_all add: MAX_KV_COUNT_def MAX_SAFE_INTEGER_def)
  have "reads file (read_entries dec file maxWork sel (nat (int (length es))) []) (concat (map entry_bytes es) @ rest) 0
      (kept_entries dec sel es) rest (0 + sum_list (map (entry_work dec sel) es))"
    unfolding nat_int kept_entries_def using work by (intro reads_entries [OF small ok]) simp
  then have entries: "reads file (if int (length es) > MAX_KV_COUNT then fail_read ImplausibleKeyCount else
        read_entries dec file maxWork sel (nat (int (length es))) []) (concat (map entry_bytes es) @ rest) 0
      (kept_entries dec sel es) rest (0 + sum_list (map (entry_work dec sel) es))" using c(2) by simp
  let ?counted = "\<lambda>_. bind_read (u64 file) (\<lambda>count. if count > MAX_KV_COUNT then fail_read ImplausibleKeyCount else
       read_entries dec file maxWork sel (nat count) [])"
  have counted: "reads file (?counted tensors) (le_bytes 8 (int (length es)) @ concat (map entry_bytes es) @ rest) 0
      (kept_entries dec sel es) rest (0 + sum_list (map (entry_work dec sel) es))"
    by (rule reads_bind [OF reads_u64]) (use c entries in simp_all)
  let ?versioned = "\<lambda>version. if version \<noteq> 2 \<and> version \<noteq> 3 then fail_read (UnsupportedVersion version) else bind_read (u64 file) ?counted"
  have versioned: "reads file (if version \<noteq> 2 \<and> version \<noteq> 3 then fail_read (UnsupportedVersion version) else bind_read (u64 file) ?counted)
      (le_bytes 8 tensors @ le_bytes 8 (int (length es)) @ concat (map entry_bytes es) @ rest) 0
      (kept_entries dec sel es) rest (0 + sum_list (map (entry_work dec sel) es))"
    using v(3) reads_bind [where f = ?counted, OF reads_u64 [OF tensors] counted] by auto
  have magical: "reads file (if GGUF_MAGIC \<noteq> GGUF_MAGIC then fail_read NotGguf else bind_read (u32 file) (\<lambda>version.
        if version \<noteq> 2 \<and> version \<noteq> 3 then fail_read (UnsupportedVersion version) else bind_read (u64 file) ?counted))
      (le_bytes 4 version @ le_bytes 8 tensors @ le_bytes 8 (int (length es)) @ concat (map entry_bytes es) @ rest) 0
      (kept_entries dec sel es) rest (0 + sum_list (map (entry_work dec sel) es))"
    using reads_bind [where f = ?versioned, OF reads_u32 [OF v(1,2)] versioned] by simp
  have "reads file (read_header dec file maxWork sel) (header_bytes version tensors es @ rest) 0 (kept_entries dec sel es) rest
      (0 + sum_list (map (entry_work dec sel) es))"
    unfolding read_header_def header_bytes_def append_assoc by (rule reads_bind [OF reads_u32 [OF m]]) (rule magical)
  then show ?thesis by blast
qed

lemma readKeyValues_header:
  assumes "file_size (header_bytes version tensors es @ rest) \<le> MAX_SAFE_INTEGER"
    "version = 2 \<or> version = 3" "0 \<le> tensors" "tensors \<le> MAX_SAFE_INTEGER" "int (length es) \<le> MAX_KV_COUNT"
    "list_all (\<lambda>e. writable (snd e)) es" "sum_list (map (entry_work dec sel) es) \<le> (case maxWork of Some w \<Rightarrow> w | None \<Rightarrow> MAX_PARSE_WORK)"
  shows "readKeyValues dec (header_bytes version tensors es @ rest) maxWork sel = Inr (kept_entries dec sel es)"
proof -
  obtain w r where "read_header dec (header_bytes version tensors es @ rest) (case maxWork of Some w \<Rightarrow> w | None \<Rightarrow> MAX_PARSE_WORK) sel new_reader =
      Inr (kept_entries dec sel es, r)"
    using reads_header [OF assms] stands_new [of "header_bytes version tensors es @ rest"] unfolding reads_def by blast
  then show ?thesis by (simp add: readKeyValues_def)
qed

text \<open>
  An array of arrays, or of any type the format does not define, is refused, wherever its entry stands.
\<close>

definition fails :: "byte list \<Rightarrow> 'a read_op \<Rightarrow> byte list \<Rightarrow> int \<Rightarrow> gguf_error \<Rightarrow> bool" where
  "fails file m rest w e \<longleftrightarrow> (\<forall>r. stands file rest w r \<longrightarrow> m r = Inl e)"

lemma fails_bind: "fails file m rest w e \<Longrightarrow> fails file (bind_read m f) rest w e"
  by (simp add: fails_def bind_read_def)

lemma reads_fails:
  "reads file m rest w x rest1 w1 \<Longrightarrow> fails file (f x) rest1 w1 e \<Longrightarrow> fails file (bind_read m f) rest w e"
  unfolding reads_def fails_def bind_read_def by fastforce

definition odd_array_bytes :: "byte list \<Rightarrow> int \<Rightarrow> int \<Rightarrow> byte list" where
  "odd_array_bytes key ty n = string_bytes key @ le_bytes 4 9 @ le_bytes 4 ty @ le_bytes 8 n"

lemma fails_odd_array:
  assumes small: "file_size file \<le> MAX_SAFE_INTEGER" and w: "w + 1 \<le> maxWork"
    and ty: "fixed_type ty = None" "ty \<noteq> 8" "0 \<le> ty" "ty < 2 ^ 32" and n: "0 \<le> n" "n \<le> MAX_SAFE_INTEGER"
  shows "fails file (read_entry dec file maxWork sel values) (odd_array_bytes key ty n @ rest) w UnsupportedArray"
proof -
  have "FIXED_SIZES ty = None" using ty(1) by (simp add: fixed_type_def FIXED_SIZES_def split: if_splits)
  then have "fails file (array_elements file maxWork keep ty n) rest u UnsupportedArray" for keep u
    using ty(2) by (simp add: fails_def array_elements_def)
  then have "fails file (array_value file maxWork keep) (le_bytes 4 ty @ le_bytes 8 n @ rest) u UnsupportedArray" for keep u
    unfolding array_value_def by (rule reads_fails [OF reads_u32 [OF ty(3,4)] reads_fails [OF reads_u64 [OF n]]])
  then have v: "fails file (read_value dec file maxWork 9 keep limit) (le_bytes 4 ty @ le_bytes 8 n @ rest) u UnsupportedArray" for keep limit u
    by (simp add: read_value_def)
  have nine: "reads file (u32 file) (le_bytes 4 9 @ r) u 9 r u" for r u by (rule reads_u32) simp_all
  show ?thesis
    unfolding read_entry_def odd_array_bytes_def append_assoc
    by (rule reads_fails [OF reads_spend [OF w] reads_fails [OF reads_string [OF small] reads_fails [OF nine]]])
      (simp only: Let_def fails_bind [OF v])
qed

lemma fails_entries:
  assumes small: "file_size file \<le> MAX_SAFE_INTEGER"
    and bad: "\<And>u vs. u + 1 \<le> maxWork \<Longrightarrow> fails file (read_entry dec file maxWork sel vs) rest u e"
  shows "list_all (\<lambda>e. writable (snd e)) es \<Longrightarrow> w + sum_list (map (entry_work dec sel) es) + 1 \<le> maxWork \<Longrightarrow>
    fails file (read_entries dec file maxWork sel (length es + Suc k) values) (concat (map entry_bytes es) @ rest) w e"
proof (induction es arbitrary: w "values")
  case Nil
  then show ?case using bad by (simp add: fails_bind)
next
  case (Cons x es)
  have nn: "0 \<le> sum_list (map (entry_work dec sel) es)" by (rule sum_list_nonneg_int) (simp add: entry_work_nonneg)
  have "reads file (read_entry dec file maxWork sel values) (entry_bytes x @ concat (map entry_bytes es) @ rest) w
      (keep_entry dec sel x values) (concat (map entry_bytes es) @ rest) (w + entry_work dec sel x)"
    using Cons.prems nn by (intro reads_entry small) simp_all
  moreover have "fails file (read_entries dec file maxWork sel (length es + Suc k) (keep_entry dec sel x values))
      (concat (map entry_bytes es) @ rest) (w + entry_work dec sel x) e"
    using Cons.prems by (intro Cons.IH) simp_all
  ultimately show ?case by (simp add: reads_fails)
qed

lemma nested_array_refused:
  assumes layout: "file = le_bytes 4 GGUF_MAGIC @ le_bytes 4 version @ le_bytes 8 tensors @ le_bytes 8 (int (length es + Suc k)) @
     concat (map entry_bytes es) @ odd_array_bytes key ty n @ rest"
    and small: "file_size file \<le> MAX_SAFE_INTEGER"
    and version: "version = 2 \<or> version = 3" and tensors: "0 \<le> tensors" "tensors \<le> MAX_SAFE_INTEGER"
    and count: "int (length es + Suc k) \<le> MAX_KV_COUNT" and ok: "list_all (\<lambda>e. writable (snd e)) es"
    and work: "sum_list (map (entry_work dec sel) es) + 1 \<le> (case maxWork of Some w \<Rightarrow> w | None \<Rightarrow> MAX_PARSE_WORK)"
    and ty: "fixed_type ty = None" "ty \<noteq> 8" "0 \<le> ty" "ty < 2 ^ 32" and n: "0 \<le> n" "n \<le> MAX_SAFE_INTEGER"
  shows "readKeyValues dec file maxWork sel = Inl UnsupportedArray"
proof -
  let ?w = "case maxWork of Some w \<Rightarrow> w | None \<Rightarrow> MAX_PARSE_WORK"
  let ?c = "int (length es + Suc k)" and ?es = "concat (map entry_bytes es) @ odd_array_bytes key ty n @ rest"
  have m: "reads file (u32 file) (le_bytes 4 GGUF_MAGIC @ r) 0 GGUF_MAGIC r 0" for r by (rule reads_u32) (simp_all add: GGUF_MAGIC_def)
  have v: "reads file (u32 file) (le_bytes 4 version @ r) 0 version r 0" for r using version by (intro reads_u32) auto
  have t: "reads file (u64 file) (le_bytes 8 tensors @ r) 0 tensors r 0" for r using tensors by (rule reads_u64)
  have c: "reads file (u64 file) (le_bytes 8 ?c @ r) 0 ?c r 0" for r
    using count by (intro reads_u64) (simp_all add: MAX_KV_COUNT_def MAX_SAFE_INTEGER_def)
  have "fails file (read_entries dec file ?w sel (length es + Suc k) []) ?es 0 UnsupportedArray"
    using work by (intro fails_entries [OF small _ ok] fails_odd_array [OF small _ ty n]) simp_all
  then have entries: "fails file (if ?c > MAX_KV_COUNT then fail_read ImplausibleKeyCount else read_entries dec file ?w sel (nat ?c) []) ?es 0
      UnsupportedArray" using count by (simp only: nat_int not_less [symmetric] if_False)
  have counted: "fails file (bind_read (u64 file) (\<lambda>_. bind_read (u64 file) (\<lambda>count. if count > MAX_KV_COUNT then fail_read ImplausibleKeyCount
      else read_entries dec file ?w sel (nat count) []))) (le_bytes 8 tensors @ le_bytes 8 ?c @ ?es) 0 UnsupportedArray"
    by (rule reads_fails [OF t], rule reads_fails [OF c], rule entries)
  let ?versioned = "\<lambda>version. if version \<noteq> 2 \<and> version \<noteq> 3 then fail_read (UnsupportedVersion version) else
      bind_read (u64 file) (\<lambda>_. bind_read (u64 file) (\<lambda>count. if count > MAX_KV_COUNT then fail_read ImplausibleKeyCount
      else read_entries dec file ?w sel (nat count) []))"
  have "fails file (?versioned version) (le_bytes 8 tensors @ le_bytes 8 ?c @ ?es) 0 UnsupportedArray"
    using version counted by auto
  then have "fails file (if GGUF_MAGIC \<noteq> GGUF_MAGIC then fail_read NotGguf else bind_read (u32 file) ?versioned)
      (le_bytes 4 version @ le_bytes 8 tensors @ le_bytes 8 ?c @ ?es) 0 UnsupportedArray"
    using reads_fails [OF v, of ?versioned] by simp
  then have "fails file (read_header dec file ?w sel) (le_bytes 4 GGUF_MAGIC @ le_bytes 4 version @ le_bytes 8 tensors @ le_bytes 8 ?c @ ?es) 0
      UnsupportedArray"
    unfolding read_header_def by (rule reads_fails [OF m])
  then have "fails file (read_header dec file ?w sel) file 0 UnsupportedArray" by (simp only: layout [symmetric])
  then show ?thesis using stands_new [of "file"] by (simp add: fails_def readKeyValues_def)
qed

section \<open>Properties\<close>

text \<open>
  C32: a written header reads back.  The header of a GGUF file, laid out as the format says with any
  keys, scalars of every type (integers, booleans, floats), strings, and arrays of scalars or strings,
  and followed by any bytes, reads as exactly the kept entries, as long as the work stays within the
  budget, the key count within its limit and the file within the safe integers.  Arrays of arrays are
  outside: the reader refuses them (\<open>nested_array_refused\<close>).
\<close>

theorem gguf_header_round_trip:
  assumes "file_size (header_bytes version tensors es @ rest) \<le> MAX_SAFE_INTEGER"
    "version = 2 \<or> version = 3" "0 \<le> tensors" "tensors \<le> MAX_SAFE_INTEGER" "int (length es) \<le> MAX_KV_COUNT"
    "list_all (\<lambda>e. writable (snd e)) es" "sum_list (map (entry_work dec sel) es) \<le> (case maxWork of Some w \<Rightarrow> w | None \<Rightarrow> MAX_PARSE_WORK)"
  shows "readKeyValues dec (header_bytes version tensors es @ rest) maxWork sel = Inr (kept_entries dec sel es)"
  using assms by (rule readKeyValues_header)

definition ascii_bytes :: "string \<Rightarrow> byte list" where
  "ascii_bytes s = map (\<lambda>c. word_of_nat (of_char c)) s"

definition ascii_text :: "byte list \<Rightarrow> string" where
  "ascii_text bs = map (\<lambda>b. char_of (unat b)) bs"

lemma ascii_text_bytes [simp]: "ascii_text (ascii_bytes s) = s"
proof -
  have "char_of (unat (word_of_nat (of_char c) :: byte)) = c" for c by (simp add: unat_of_nat)
  then show ?thesis by (simp add: ascii_text_def ascii_bytes_def comp_def)
qed

lemma length_ascii_bytes [simp]: "length (ascii_bytes s) = length s"
  by (simp add: ascii_bytes_def)

definition demo_entries :: "written_entry list" where
  "demo_entries = [(ascii_bytes ''a.n'', WScalar 4 7), (ascii_bytes ''b'', WStrings [ascii_bytes ''x'', []]),
     (ascii_bytes ''a.m'', WArray 5 [-1, 2]), (ascii_bytes ''a.f'', WScalar 6 0xBFC00000),
     (ascii_bytes ''a.b'', WArray 7 [0, 1])]"

definition demo_selection :: key_selection where
  "demo_selection = \<lparr>ks_keep = (\<lambda>key. hd key = CHR ''a''), ks_maxStringBytes = (\<lambda>key. 256)\<rparr>"

theorem gguf_header_round_trip_witness:
  "readKeyValues ascii_text (header_bytes 3 0 demo_entries @ [1, 2, 3]) (Some 11) demo_selection =
     Inr [(''a.n'', GNumber (Finite 7)), (''a.m'', GArray [Finite (-1), Finite 2]),
       (''a.f'', GNumber (Finite (- 3 / 2))), (''a.b'', GArray [Finite 0, Finite 1])]"
proof -
  have kept: "kept_entries ascii_text demo_selection demo_entries = [(''a.n'', GNumber (Finite 7)), (''a.m'', GArray [Finite (-1), Finite 2]),
       (''a.f'', GNumber (Finite (- 3 / 2))), (''a.b'', GArray [Finite 0, Finite 1])]"
    "sum_list (map (entry_work ascii_text demo_selection) demo_entries) \<le> 11"
    by (simp_all add: kept_entries_def keep_entry_def entry_key_def entry_work_def demo_entries_def demo_selection_def Let_def
        written_scalar_def written_number_def single_value_def float_value_def MAX_KEPT_STRING_BYTES_def MAX_KEPT_ARRAY_ELEMENTS_def)
  have "readKeyValues ascii_text (header_bytes 3 0 demo_entries @ [1, 2, 3]) (Some 11) demo_selection =
      Inr (kept_entries ascii_text demo_selection demo_entries)"
    by (rule gguf_header_round_trip)
      (use kept(2) in \<open>simp_all add: header_bytes_def entry_bytes_def string_bytes_def demo_entries_def file_size_def
        scalar_bytes_def fixed_type_def fits_type_def MAX_SAFE_INTEGER_def MAX_KV_COUNT_def\<close>)
  then show ?thesis by (simp add: kept(1))
qed

end
