(* ===== verification/Parallel_Slots.thy ===== *)
theory Parallel_Slots
  imports Js_Number
begin

text \<open>
  Parallel request slots of llama.cpp, \<^verbatim>\<open>src/src/domains/config/parallel.ts\<close>: the parsing of
  a configured slot count, the context llama.cpp gives each sequence, and the choice of a slot
  count from the context and the memory.  Memory sizes are exact rationals, and may be NaN or
  infinite where the code tests for that; strings are 8-bit characters.
\<close>

section \<open>Constants\<close>

definition MAX_PARALLEL_SLOTS :: int where "MAX_PARALLEL_SLOTS = 4"
definition MIN_CONTEXT_PER_PARALLEL_SLOT :: int where "MIN_CONTEXT_PER_PARALLEL_SLOT = 2048"
definition RESERVED_RUNTIME_MEMORY_GB :: rat where "RESERVED_RUNTIME_MEMORY_GB = 2"
definition CONTEXT_MEMORY_GB_PER_8K_TOKENS :: rat where "CONTEXT_MEMORY_GB_PER_8K_TOKENS = 1 / 2"
definition PARALLEL_SLOT_OVERHEAD_GB :: rat where "PARALLEL_SLOT_OVERHEAD_GB = 1 / 2"

lemmas slot_constants = MAX_PARALLEL_SLOTS_def MIN_CONTEXT_PER_PARALLEL_SLOT_def RESERVED_RUNTIME_MEMORY_GB_def
  CONTEXT_MEMORY_GB_PER_8K_TOKENS_def PARALLEL_SLOT_OVERHEAD_GB_def

section \<open>Parsing\<close>

datatype config_value = NumberValue js_num | StringValue string | OtherValue

datatype parallel_slots = AutoSlots | FixedSlots int

datatype slots_error = InvalidParallelSlots config_value | ContextTooSmall | TooManySlots int

definition parallelSlotsSchema :: "config_value \<Rightarrow> parallel_slots option" where
  "parallelSlotsSchema v =
     (if v = StringValue ''auto'' then Some AutoSlots
      else if v = NumberValue (Finite 1) then Some (FixedSlots 1)
      else if v = NumberValue (Finite 2) then Some (FixedSlots 2)
      else if v = NumberValue (Finite 3) then Some (FixedSlots 3)
      else if v = NumberValue (Finite 4) then Some (FixedSlots 4)
      else None)"

text \<open>A digit from 1 to 4, as the regular expression reads it, and its number.\<close>

definition slot_digit :: "string \<Rightarrow> int option" where
  "slot_digit s = map_of [(''1'', 1), (''2'', 2), (''3'', 3), (''4'', 4)] s"

definition normalized :: "config_value \<Rightarrow> config_value" where
  "normalized v =
     (case v of
        StringValue s \<Rightarrow>
          let trimmed = js_trim s in
          if to_lower trimmed = ''auto'' then StringValue ''auto''
          else (case slot_digit trimmed of Some n \<Rightarrow> NumberValue (Finite (of_int n)) | None \<Rightarrow> v)
      | _ \<Rightarrow> v)"

definition parseParallelSlots :: "config_value \<Rightarrow> slots_error + parallel_slots" where
  "parseParallelSlots v =
     (case parallelSlotsSchema (normalized v) of Some s \<Rightarrow> Inr s | None \<Rightarrow> Inl (InvalidParallelSlots v))"

definition parseOptionalParallelSlots :: "config_value option \<Rightarrow> slots_error + parallel_slots option" where
  "parseOptionalParallelSlots v =
     (case v of
        None \<Rightarrow> Inr None
      | Some v \<Rightarrow> (case parseParallelSlots v of Inl e \<Rightarrow> Inl e | Inr s \<Rightarrow> Inr (Some s)))"

text \<open>A slot setting that has been parsed, as a value to parse again.\<close>

definition slots_value :: "parallel_slots \<Rightarrow> config_value" where
  "slots_value s = (case s of AutoSlots \<Rightarrow> StringValue ''auto'' | FixedSlots n \<Rightarrow> NumberValue (Finite (of_int n)))"

section \<open>Context per sequence\<close>

definition pad256 :: "int \<Rightarrow> int" where
  "pad256 n = ((n + 255) div 256) * 256"

definition llamaContextPerSequence :: "int \<Rightarrow> int \<Rightarrow> bool \<Rightarrow> int" where
  "llamaContextPerSequence ctxSize slots kvUnified =
     (let paddedContext = pad256 ctxSize in
      if kvUnified then paddedContext else pad256 (paddedContext div slots))"

section \<open>Allocation\<close>

record allocation_input =
  ai_parallel :: config_value
  ai_memoryGb :: js_num
  ai_modelRequirementGb :: "js_num option"
  ai_ctxSize :: js_num
  ai_kvCacheGb :: "(int \<Rightarrow> js_num) option"

record slot_allocation =
  al_slots :: int
  al_isAuto :: bool
  al_contextPerSlot :: rat

definition contextLimitedSlots :: "rat \<Rightarrow> int" where
  "contextLimitedSlots ctx = max 1 (min MAX_PARALLEL_SLOTS (floor (ctx / of_int MIN_CONTEXT_PER_PARALLEL_SLOT)))"

definition contextMemoryGb :: "allocation_input \<Rightarrow> rat \<Rightarrow> int \<Rightarrow> js_num" where
  "contextMemoryGb input ctx slots =
     (case ai_kvCacheGb input of
        Some kv \<Rightarrow> kv slots
      | None \<Rightarrow> Finite (max 0 ctx / 8192 * CONTEXT_MEMORY_GB_PER_8K_TOKENS))"

definition slots_fit :: "allocation_input \<Rightarrow> rat \<Rightarrow> rat \<Rightarrow> int \<Rightarrow> bool" where
  "slots_fit input ctx availableGb slots \<longleftrightarrow>
     js_ge (js_minus (Finite availableGb) (contextMemoryGb input ctx slots)) (Finite (of_int slots * PARALLEL_SLOT_OVERHEAD_GB))"

function memory_loop :: "(int \<Rightarrow> bool) \<Rightarrow> int \<Rightarrow> int" where
  "memory_loop fits slots = (if slots > 1 then if fits slots then slots else memory_loop fits (slots - 1) else 1)"
  by pat_completeness auto
termination memory_loop
  by (relation "measure (\<lambda>(fits, slots). nat slots)") auto

definition allocateAuto :: "allocation_input \<Rightarrow> rat \<Rightarrow> slot_allocation" where
  "allocateAuto input ctx =
     (case (ai_memoryGb input, ai_modelRequirementGb input) of
        (Finite memory, Some (Finite model)) \<Rightarrow>
          if memory > 0 \<and> model \<ge> 0
          then
            let availableGb = memory - model - RESERVED_RUNTIME_MEMORY_GB;
                slots = min (contextLimitedSlots ctx) (memory_loop (slots_fit input ctx availableGb) MAX_PARALLEL_SLOTS)
            in \<lparr>al_slots = slots, al_isAuto = True, al_contextPerSlot = of_int (floor (ctx / of_int slots))\<rparr>
          else \<lparr>al_slots = 1, al_isAuto = True, al_contextPerSlot = ctx\<rparr>
      | _ \<Rightarrow> \<lparr>al_slots = 1, al_isAuto = True, al_contextPerSlot = ctx\<rparr>)"

definition allocateParallelSlots :: "allocation_input \<Rightarrow> slots_error + slot_allocation" where
  "allocateParallelSlots input =
     (case parseParallelSlots (ai_parallel input) of
        Inl e \<Rightarrow> Inl e
      | Inr parallel \<Rightarrow>
          (case ai_ctxSize input of
             Finite ctx \<Rightarrow>
               if ctx < of_int MIN_CONTEXT_PER_PARALLEL_SLOT then Inl ContextTooSmall
               else (case parallel of
                   AutoSlots \<Rightarrow> Inr (allocateAuto input ctx)
                 | FixedSlots n \<Rightarrow>
                     if ctx < of_int (n * MIN_CONTEXT_PER_PARALLEL_SLOT) then Inl (TooManySlots n)
                     else Inr \<lparr>al_slots = n, al_isAuto = False, al_contextPerSlot = of_int (floor (ctx / of_int n))\<rparr>)
           | _ \<Rightarrow> Inl ContextTooSmall))"

section \<open>Lemmas\<close>

lemma parsed_slots: "parseParallelSlots v = Inr s \<Longrightarrow> s = AutoSlots \<or> (\<exists>n. s = FixedSlots n \<and> 1 \<le> n \<and> n \<le> MAX_PARALLEL_SLOTS)"
  by (auto simp: parseParallelSlots_def parallelSlotsSchema_def slot_constants split: option.splits if_splits)

lemma reparse_slots: "parseParallelSlots v = Inr s \<Longrightarrow> parseParallelSlots (slots_value s) = Inr s"
  by (auto simp: parseParallelSlots_def parallelSlotsSchema_def normalized_def slots_value_def to_lower_def lower_char_def
      js_trim_def js_space_def split: option.splits if_splits)

declare memory_loop.simps [simp del]

text \<open>The loop finds the greatest count that fits.\<close>

lemma memory_loop_range: "1 \<le> n \<Longrightarrow> 1 \<le> memory_loop fits n \<and> memory_loop fits n \<le> n"
proof (induction fits n rule: memory_loop.induct)
  case (1 fits n)
  show ?case
  proof (cases "n > 1 \<and> \<not> fits n")
    case True
    then have "1 \<le> memory_loop fits (n - 1) \<and> memory_loop fits (n - 1) \<le> n - 1" using 1 by simp
    then show ?thesis using True by (simp add: memory_loop.simps [of fits n])
  next
    case False
    then show ?thesis using 1 by (auto simp: memory_loop.simps [of fits n])
  qed
qed

lemma memory_loop_fits: "memory_loop fits n > 1 \<Longrightarrow> fits (memory_loop fits n)"
proof (induction fits n rule: memory_loop.induct)
  case (1 fits n)
  then show ?case by (cases "n > 1"; cases "fits n") (simp_all add: memory_loop.simps [of fits n])
qed

lemma memory_loop_greatest: "1 < k \<Longrightarrow> k \<le> n \<Longrightarrow> fits k \<Longrightarrow> k \<le> memory_loop fits n"
proof (induction fits n rule: memory_loop.induct)
  case (1 fits n)
  show ?case
  proof (cases "fits n")
    case True
    then show ?thesis using 1 by (simp add: memory_loop.simps [of fits n])
  next
    case False
    then have "k \<le> n - 1" using 1 by (cases "k = n") auto
    then show ?thesis using 1 False by (simp add: memory_loop.simps [of fits n])
  qed
qed

lemma contextLimited_range: "1 \<le> contextLimitedSlots ctx" "contextLimitedSlots ctx \<le> 4"
  by (simp_all add: contextLimitedSlots_def slot_constants)

lemma contextLimited_iff: "1 \<le> s \<Longrightarrow> s \<le> 4 \<Longrightarrow> 2048 \<le> ctx \<Longrightarrow> s \<le> contextLimitedSlots ctx \<longleftrightarrow> of_int (s * 2048) \<le> ctx"
  by (auto simp: contextLimitedSlots_def slot_constants le_floor_iff pos_le_divide_eq)

text \<open>A slot count within the context limit leaves every slot its minimum.\<close>

lemma slot_share:
  fixes ctx :: rat
  assumes "1 \<le> s" "of_int (s * 2048) \<le> ctx"
  shows "2048 \<le> (of_int (floor (ctx / of_int s)) :: rat)" "of_int s * of_int (floor (ctx / of_int s)) \<le> ctx"
proof -
  have s: "0 < (of_int s :: rat)" using assms(1) by simp
  have "2048 \<le> ctx / of_int s" using assms s by (simp add: pos_le_divide_eq mult.commute)
  then have "2048 \<le> floor (ctx / of_int s)" by (simp add: le_floor_iff)
  then show "2048 \<le> (of_int (floor (ctx / of_int s)) :: rat)" using of_int_le_iff [where 'a = rat, of 2048] by simp
  have "of_int s * of_int (floor (ctx / of_int s)) \<le> of_int s * (ctx / of_int s)"
    using s by (intro mult_left_mono) simp_all
  then show "of_int s * of_int (floor (ctx / of_int s)) \<le> ctx" using s by simp
qed

text \<open>What every allocation grants.\<close>

definition shares_context :: "rat \<Rightarrow> slot_allocation \<Rightarrow> bool" where
  "shares_context ctx al \<longleftrightarrow> 1 \<le> al_slots al \<and> al_slots al \<le> MAX_PARALLEL_SLOTS \<and>
     of_int MIN_CONTEXT_PER_PARALLEL_SLOT \<le> al_contextPerSlot al \<and> of_int (al_slots al) * al_contextPerSlot al \<le> ctx"

lemma shares_one: "2048 \<le> ctx \<Longrightarrow> shares_context ctx \<lparr>al_slots = 1, al_isAuto = b, al_contextPerSlot = ctx\<rparr>"
  by (simp add: shares_context_def slot_constants)

lemma shares_floor:
  "1 \<le> s \<Longrightarrow> s \<le> 4 \<Longrightarrow> of_int (s * 2048) \<le> ctx \<Longrightarrow>
   shares_context ctx \<lparr>al_slots = s, al_isAuto = b, al_contextPerSlot = of_int (floor (ctx / of_int s))\<rparr>"
  using slot_share [of s ctx] by (simp add: shares_context_def slot_constants)

lemma min_slots:
  fixes fits :: "int \<Rightarrow> bool" and ctx :: rat
  assumes "2048 \<le> ctx"
  defines "s \<equiv> min (contextLimitedSlots ctx) (memory_loop fits MAX_PARALLEL_SLOTS)"
  shows "1 \<le> s" "s \<le> 4" "of_int (s * 2048) \<le> ctx"
proof -
  have m: "1 \<le> memory_loop fits MAX_PARALLEL_SLOTS" "memory_loop fits MAX_PARALLEL_SLOTS \<le> 4"
    using memory_loop_range [of MAX_PARALLEL_SLOTS fits] by (simp_all add: slot_constants)
  then show s: "1 \<le> s" "s \<le> 4" using contextLimited_range [of ctx] by (simp_all add: s_def)
  show "of_int (s * 2048) \<le> ctx" using contextLimited_iff [OF s assms(1)] by (simp add: s_def)
qed

lemma shares_auto: "2048 \<le> ctx \<Longrightarrow> shares_context ctx (allocateAuto input ctx)"
  using min_slots [of ctx] by (auto simp: allocateAuto_def Let_def shares_one split: js_num.split option.split intro!: shares_floor)

lemma allocated_shares:
  assumes "allocateParallelSlots input = Inr al"
  shows "\<exists>ctx. ai_ctxSize input = Finite ctx \<and> shares_context ctx al"
  using assms parsed_slots [of "ai_parallel input"]
  by (auto simp: allocateParallelSlots_def slot_constants shares_auto not_less
      split: sum.splits js_num.splits if_splits parallel_slots.splits intro!: shares_floor)

text \<open>The automatic count is the greatest one that the context and the memory allow.\<close>

definition auto_candidates :: "allocation_input \<Rightarrow> rat \<Rightarrow> rat \<Rightarrow> int list" where
  "auto_candidates input ctx availableGb =
     filter (\<lambda>s. s = 1 \<or> of_int (s * MIN_CONTEXT_PER_PARALLEL_SLOT) \<le> ctx \<and> slots_fit input ctx availableGb s)
       (upto 1 MAX_PARALLEL_SLOTS)"

lemma greatest_slots:
  fixes input :: allocation_input and ctx a :: rat
  assumes ctx: "2048 \<le> ctx" and down: "\<And>s t. 1 < s \<Longrightarrow> s \<le> t \<Longrightarrow> t \<le> 4 \<Longrightarrow> slots_fit input ctx a t \<Longrightarrow> slots_fit input ctx a s"
  defines "s \<equiv> min (contextLimitedSlots ctx) (memory_loop (slots_fit input ctx a) MAX_PARALLEL_SLOTS)"
  shows "s = Max (set (auto_candidates input ctx a))"
proof (rule Max_eqI [symmetric])
  let ?m = "memory_loop (slots_fit input ctx a) MAX_PARALLEL_SLOTS"
  note r = min_slots [OF ctx, of "slots_fit input ctx a", folded s_def]
  show "finite (set (auto_candidates input ctx a))" by simp
  have "slots_fit input ctx a s" if "s \<noteq> 1"
  proof -
    have "1 < s" using r(1) that by linarith
    moreover have "s \<le> ?m" by (simp add: s_def)
    ultimately have "1 < s" "s \<le> ?m" by this+
    then have "1 < ?m" by linarith
    then have "slots_fit input ctx a ?m" by (rule memory_loop_fits [of "slots_fit input ctx a"])
    moreover have "?m \<le> 4" using memory_loop_range [of MAX_PARALLEL_SLOTS] by (simp add: slot_constants)
    ultimately show ?thesis using down \<open>1 < s\<close> \<open>s \<le> ?m\<close> by blast
  qed
  then show "s \<in> set (auto_candidates input ctx a)" using r by (auto simp: auto_candidates_def slot_constants)
  fix y assume "y \<in> set (auto_candidates input ctx a)"
  then have y: "1 \<le> y" "y \<le> 4" "y = 1 \<or> of_int (y * 2048) \<le> ctx \<and> slots_fit input ctx a y"
    by (auto simp: auto_candidates_def slot_constants)
  show "y \<le> s"
  proof (cases "y = 1")
    case False
    then have "y \<le> contextLimitedSlots ctx" using y contextLimited_iff [OF y(1,2) ctx] by simp
    moreover have "y \<le> ?m" using y False by (intro memory_loop_greatest) (simp_all add: slot_constants)
    ultimately show ?thesis by (simp add: s_def)
  qed (use r in simp)
qed

lemma allocate_auto_greatest:
  assumes "parseParallelSlots (ai_parallel input) = Inr AutoSlots" "ai_ctxSize input = Finite ctx" "2048 \<le> ctx"
    "ai_memoryGb input = Finite memory" "0 < memory" "ai_modelRequirementGb input = Some (Finite model)" "0 \<le> model"
    "\<And>s t. 1 < s \<Longrightarrow> s \<le> t \<Longrightarrow> t \<le> 4 \<Longrightarrow> slots_fit input ctx (memory - model - 2) t \<Longrightarrow> slots_fit input ctx (memory - model - 2) s"
  shows "\<exists>al. allocateParallelSlots input = Inr al \<and> al_slots al = Max (set (auto_candidates input ctx (memory - model - 2)))"
proof -
  have "RESERVED_RUNTIME_MEMORY_GB = 2" by (simp add: slot_constants)
  moreover have "min (contextLimitedSlots ctx) (memory_loop (slots_fit input ctx (memory - model - 2)) MAX_PARALLEL_SLOTS) =
      Max (set (auto_candidates input ctx (memory - model - 2)))"
    by (rule greatest_slots [OF assms(3)]) (rule assms(8))
  ultimately show ?thesis
    using assms(1-7) by (simp add: allocateParallelSlots_def allocateAuto_def Let_def slot_constants)
qed

section \<open>Properties\<close>

text \<open>
  C31: slot allocation.  Every allocation grants one to four slots of at least 2048 tokens each, that
  together stay within the context; and with usable memory sizes, the automatic choice is the
  greatest count whose share of the context is at least 2048 tokens and whose memory fits, if a
  count fits whenever a larger one does.
\<close>

theorem slot_allocation:
  assumes "allocateParallelSlots input = Inr al"
  shows "\<exists>ctx. ai_ctxSize input = Finite ctx \<and> shares_context ctx al \<and>
    (\<forall>memory model. parseParallelSlots (ai_parallel input) = Inr AutoSlots \<and> ai_memoryGb input = Finite memory \<and> 0 < memory \<and>
       ai_modelRequirementGb input = Some (Finite model) \<and> 0 \<le> model \<and>
       (\<forall>s t. 1 < s \<and> s \<le> t \<and> t \<le> 4 \<and> slots_fit input ctx (memory - model - 2) t \<longrightarrow> slots_fit input ctx (memory - model - 2) s) \<longrightarrow>
       al_slots al = Max (set (auto_candidates input ctx (memory - model - 2))))"
proof -
  obtain ctx where ctx: "ai_ctxSize input = Finite ctx" "shares_context ctx al" using allocated_shares [OF assms] by blast
  have big: "2048 \<le> ctx" using assms ctx(1) by (auto simp: allocateParallelSlots_def slot_constants split: sum.splits if_splits)
  show ?thesis
  proof (intro exI conjI allI impI)
    fix memory model
    assume h: "parseParallelSlots (ai_parallel input) = Inr AutoSlots \<and> ai_memoryGb input = Finite memory \<and> 0 < memory \<and>
       ai_modelRequirementGb input = Some (Finite model) \<and> 0 \<le> model \<and>
       (\<forall>s t. 1 < s \<and> s \<le> t \<and> t \<le> 4 \<and> slots_fit input ctx (memory - model - 2) t \<longrightarrow> slots_fit input ctx (memory - model - 2) s)"
    then have "\<exists>al. allocateParallelSlots input = Inr al \<and> al_slots al = Max (set (auto_candidates input ctx (memory - model - 2)))"
      using ctx(1) big by (intro allocate_auto_greatest) blast+
    then show "al_slots al = Max (set (auto_candidates input ctx (memory - model - 2)))" using assms by auto
  qed (use ctx in simp_all)
qed

definition demo_input :: allocation_input where
  "demo_input = \<lparr>ai_parallel = StringValue '' AUTO '', ai_memoryGb = Finite 16, ai_modelRequirementGb = Some (Finite 10),
     ai_ctxSize = Finite 16384, ai_kvCacheGb = None\<rparr>"

definition demo_allocation :: slot_allocation where
  "demo_allocation = \<lparr>al_slots = 4, al_isAuto = True, al_contextPerSlot = 4096\<rparr>"

lemma demo_allocates: "allocateParallelSlots demo_input = Inr demo_allocation" "parseParallelSlots (ai_parallel demo_input) = Inr AutoSlots"
  by code_simp+

theorem slot_allocation_witness:
  "shares_context 16384 demo_allocation \<and> al_slots demo_allocation = Max (set (auto_candidates demo_input 16384 4))"
  using slot_allocation [OF demo_allocates(1)] demo_allocates(2)
  by (auto simp: demo_input_def slots_fit_def contextMemoryGb_def slot_constants)

end
