(* ===== verification/Gguf_Geometry.thy ===== *)
theory Gguf_Geometry
  imports Gguf_Reader Parallel_Slots
begin

text \<open>
  What the metadata of a GGUF header says about a model: the key/value cache geometry, the decision
  type, the training context, the capability header, and the cache size of a launch, from
  \<^verbatim>\<open>src/src/domains/runtime/gguf-metadata.ts\<close>.
\<close>

section \<open>Constants\<close>

definition SWA_UBATCH_TOKENS :: int where "SWA_UBATCH_TOKENS = 512"
definition HYBRID_QWEN_FULL_ATTENTION_INTERVAL :: int where "HYBRID_QWEN_FULL_ATTENTION_INTERVAL = 4"
definition HYBRID_QWEN_ARCHITECTURES :: "string list" where
  "HYBRID_QWEN_ARCHITECTURES = [''qwen3next'', ''qwen35'', ''qwen35moe'']"
definition UNMODELLED_RECURRENT_ARCHITECTURES :: "string list" where
  "UNMODELLED_RECURRENT_ARCHITECTURES =
     [''mamba'', ''mamba2'', ''rwkv6'', ''rwkv6qwen2'', ''rwkv7'', ''arwkv7'', ''jamba'', ''falcon-h1'', ''plamo2'',
      ''granitehybrid'', ''lfm2'', ''lfm2moe'', ''nemotron_h'', ''nemotron_h_moe'', ''kimi-linear'', ''deepseek4'',
      ''bailingmoe3'', ''kimi-k3'', ''glm5-next'', ''qwen4exp'', ''minimax-01'']"
definition RECURRENT_STATE_BYTES :: int where "RECURRENT_STATE_BYTES = 4"
definition MAX_SSM_KERNEL :: int where "MAX_SSM_KERNEL = 64"
definition MAX_SSM_SIZE :: int where "MAX_SSM_SIZE = 65536"
definition Q8_0_BLOCK_SIZE :: int where "Q8_0_BLOCK_SIZE = 32"
definition MAX_BLOCK_COUNT :: int where "MAX_BLOCK_COUNT = 4096"
definition MAX_HEAD_COUNT :: int where "MAX_HEAD_COUNT = 4096"
definition MAX_HEAD_LENGTH :: int where "MAX_HEAD_LENGTH = 65536"
definition MAX_TOKENS :: int where "MAX_TOKENS = 2 ^ 31"

lemmas gguf_limits = MAX_SSM_KERNEL_def MAX_SSM_SIZE_def MAX_BLOCK_COUNT_def MAX_HEAD_COUNT_def MAX_HEAD_LENGTH_def
  MAX_TOKENS_def RECURRENT_STATE_BYTES_def

text \<open>
  The sliding-window architectures.  The table is an object literal, so a lookup of an inherited
  property name, which a header may declare as its architecture, yields an object without the fields.
\<close>

record swa_spec =
  sw_period :: "int option"
  sw_defaultWindow :: "int option"
  sw_kvLayers :: "int option"

definition object_prototype_keys :: "string list" where
  "object_prototype_keys =
     [''constructor'', ''__defineGetter__'', ''__defineSetter__'', ''hasOwnProperty'', ''__lookupGetter__'',
      ''__lookupSetter__'', ''isPrototypeOf'', ''propertyIsEnumerable'', ''toString'', ''valueOf'', ''__proto__'',
      ''toLocaleString'']"

definition SWA_ARCHITECTURES :: "string \<Rightarrow> swa_spec option" where
  "SWA_ARCHITECTURES architecture =
     (case map_of
        [(''gpt-oss'', \<lparr>sw_period = Some 2, sw_defaultWindow = None, sw_kvLayers = None\<rparr>),
         (''gemma2'', \<lparr>sw_period = Some 2, sw_defaultWindow = Some 4096, sw_kvLayers = None\<rparr>),
         (''gemma3'', \<lparr>sw_period = Some 6, sw_defaultWindow = None, sw_kvLayers = None\<rparr>),
         (''gemma3n'', \<lparr>sw_period = Some 5, sw_defaultWindow = None, sw_kvLayers = Some 20\<rparr>),
         (''cohere2'', \<lparr>sw_period = Some 4, sw_defaultWindow = None, sw_kvLayers = None\<rparr>)] architecture of
        Some spec \<Rightarrow> Some spec
      | None \<Rightarrow>
          if architecture \<in> set object_prototype_keys
          then Some \<lparr>sw_period = None, sw_defaultWindow = None, sw_kvLayers = None\<rparr> else None)"

datatype kv_cache_type = F32 | F16 | BF16 | Q8_0 | Q4_0 | Q4_1 | Q5_0 | Q5_1 | IQ4_NL

fun BYTES_PER_ELEMENT :: "kv_cache_type \<Rightarrow> rat" where
  "BYTES_PER_ELEMENT F32 = 4"
| "BYTES_PER_ELEMENT F16 = 2"
| "BYTES_PER_ELEMENT BF16 = 2"
| "BYTES_PER_ELEMENT Q8_0 = 34 / 32"
| "BYTES_PER_ELEMENT Q4_0 = 18 / 32"
| "BYTES_PER_ELEMENT Q4_1 = 20 / 32"
| "BYTES_PER_ELEMENT Q5_0 = 22 / 32"
| "BYTES_PER_ELEMENT Q5_1 = 24 / 32"
| "BYTES_PER_ELEMENT IQ4_NL = 18 / 32"

record kv_geometry =
  kg_architecture :: string
  kg_blockCount :: int
  kg_fullKvHeads :: int
  kg_swaKvHeads :: int
  kg_slidingWindow :: "int option"
  kg_keyLength :: int
  kg_valueLength :: int
  kg_swaKeyLength :: int
  kg_swaValueLength :: int
  kg_q8Compatible :: bool
  kg_recurrentBytesPerSlot :: int
  kg_contextLength :: "int option"
  kg_decisionType :: "string option"

section \<open>Values of the header\<close>

type_synonym gguf_values = "(string, gguf_value) js_map"

text \<open>A value that may be absent (\<open>undefined\<close>) or invalid (\<open>null\<close>).\<close>

datatype 'a checked = Absent | Invalid | Valid 'a

definition number_value :: "gguf_value option \<Rightarrow> int option" where
  "number_value v = (case v of Some (GNumber x) \<Rightarrow> safe_integer x | _ \<Rightarrow> None)"

definition bounded :: "gguf_value option \<Rightarrow> int \<Rightarrow> int option" where
  "bounded v limit = (case number_value v of Some n \<Rightarrow> if n > 0 \<and> n \<le> limit then Some n else None | None \<Rightarrow> None)"

definition head_count :: "js_num \<Rightarrow> int option" where
  "head_count x = (case safe_integer x of Some n \<Rightarrow> if n \<ge> 0 \<and> n \<le> MAX_HEAD_COUNT then Some n else None | None \<Rightarrow> None)"

definition layerValues :: "gguf_value option \<Rightarrow> int \<Rightarrow> int list checked" where
  "layerValues v blockCount =
     (case v of
        None \<Rightarrow> Absent
      | Some (GArray xs) \<Rightarrow>
          if int (length xs) = blockCount \<and> list_all (\<lambda>x. head_count x \<noteq> None) xs then Valid (List.map_filter head_count xs) else Invalid
      | Some (GNumber x) \<Rightarrow> (case head_count x of Some n \<Rightarrow> Valid (replicate (nat blockCount) n) | None \<Rightarrow> Invalid)
      | Some _ \<Rightarrow> Invalid)"

definition optionalInt :: "gguf_value option \<Rightarrow> int \<Rightarrow> int \<Rightarrow> int checked" where
  "optionalInt v low high =
     (case v of
        None \<Rightarrow> Absent
      | Some _ \<Rightarrow> (case number_value v of Some n \<Rightarrow> if n \<ge> low \<and> n \<le> high then Valid n else Invalid | None \<Rightarrow> Invalid))"

definition nth_int :: "'a list \<Rightarrow> int \<Rightarrow> 'a option" where
  "nth_int xs i = (if 0 \<le> i \<and> i < int (length xs) then Some (xs ! nat i) else None)"

text \<open>A mask entry that is not zero; NaN is not.\<close>

definition mask_set :: "js_num list \<Rightarrow> int \<Rightarrow> bool" where
  "mask_set xs layer = (case nth_int xs layer of Some x \<Rightarrow> x \<noteq> Finite 0 | None \<Rightarrow> True)"

definition swaLayerPredicate :: "gguf_value option \<Rightarrow> int \<Rightarrow> bool \<Rightarrow> int option \<Rightarrow> (int \<Rightarrow> bool) option" where
  "swaLayerPredicate pattern blockCount perLayer defaultPeriod =
     (if perLayer
      then (case pattern of
          Some (GArray xs) \<Rightarrow> if int (length xs) = blockCount then Some (mask_set xs) else None
        | _ \<Rightarrow> Some (\<lambda>layer. False))
      else (case defaultPeriod of
          None \<Rightarrow> Some (\<lambda>layer. False)
        | Some dflt \<Rightarrow>
            let period = (case number_value pattern of Some n \<Rightarrow> if n \<ge> 0 \<and> n \<le> MAX_BLOCK_COUNT then n else dflt | None \<Rightarrow> dflt)
            in Some (\<lambda>layer. period = 0 \<or> (layer + 1) mod period \<noteq> 0)))"

definition get_key :: "gguf_values \<Rightarrow> string \<Rightarrow> string \<Rightarrow> gguf_value option" where
  "get_key values architecture suffix = js_get values (architecture @ ''.'' @ suffix)"

definition hybridQwenRecurrence :: "gguf_values \<Rightarrow> string \<Rightarrow> int \<Rightarrow> int \<Rightarrow> ((int \<Rightarrow> bool) \<times> int) option" where
  "hybridQwenRecurrence values architecture blockCount attentionLayers =
     (let get = get_key values architecture;
          recurrent =
            (case get ''attention.recurrent_layers'' of
               Some (GArray xs) \<Rightarrow> if int (length xs) \<noteq> blockCount then None else Some (mask_set xs)
             | Some _ \<Rightarrow> None
             | None \<Rightarrow>
                 (case optionalInt (get ''full_attention_interval'') 1 MAX_BLOCK_COUNT of
                    Invalid \<Rightarrow> None
                  | Absent \<Rightarrow> Some (\<lambda>layer. (layer + 1) mod HYBRID_QWEN_FULL_ATTENTION_INTERVAL \<noteq> 0)
                  | Valid period \<Rightarrow> Some (\<lambda>layer. (layer + 1) mod period \<noteq> 0)))
      in case recurrent of
           None \<Rightarrow> None
         | Some isRecurrent \<Rightarrow>
             (case (bounded (get ''ssm.conv_kernel'') MAX_SSM_KERNEL, bounded (get ''ssm.inner_size'') MAX_SSM_SIZE,
                    bounded (get ''ssm.state_size'') MAX_SSM_SIZE, optionalInt (get ''ssm.group_count'') 0 MAX_SSM_SIZE) of
                (Some kern, Some inner, Some state, Valid groups) \<Rightarrow>
                  let recurrentOnly = (\<lambda>layer. layer < attentionLayers \<and> isRecurrent layer);
                      recurrentLayers = int (length (filter recurrentOnly (upto 0 (attentionLayers - 1))));
                      convElements = (kern - 1) * (inner + 2 * groups * state);
                      stateElements = state * inner
                  in Some (recurrentOnly, recurrentLayers * (convElements + stateElements) * RECURRENT_STATE_BYTES)
              | _ \<Rightarrow> None))"

section \<open>The decision type and the architecture\<close>

definition architecture_of :: "gguf_values \<Rightarrow> string option" where
  "architecture_of values =
     (case js_get values ''general.architecture'' of Some (GString a) \<Rightarrow> if a = [] then None else Some a | _ \<Rightarrow> None)"

definition decision_char :: "char \<Rightarrow> bool" where
  "decision_char c \<longleftrightarrow> (let n = (of_char c :: nat) in 97 \<le> n \<and> n \<le> 122 \<or> 48 \<le> n \<and> n \<le> 57 \<or> c = CHR ''_'' \<or> c = CHR ''-'')"

definition decisionTypeFromMetadata :: "gguf_values \<Rightarrow> string option" where
  "decisionTypeFromMetadata values =
     (case architecture_of values of
        None \<Rightarrow> None
      | Some architecture \<Rightarrow>
          (case get_key values architecture ''decision.type'' of
             Some (GString s) \<Rightarrow> if 1 \<le> length s \<and> length s \<le> 32 \<and> list_all decision_char s then Some s else None
           | _ \<Rightarrow> None))"

definition trainingContextLengthFromMetadata :: "gguf_values \<Rightarrow> int option" where
  "trainingContextLengthFromMetadata values =
     (case architecture_of values of
        None \<Rightarrow> None
      | Some architecture \<Rightarrow> bounded (get_key values architecture ''context_length'') MAX_TOKENS)"

section \<open>The geometry\<close>

text \<open>The head dimensions: the cache lengths and whether the model is MLA with its two lengths.\<close>

record head_lengths =
  hl_key :: int
  hl_value :: int
  hl_mla :: "(int \<times> int) option"

definition or_else :: "'a option \<Rightarrow> 'a option \<Rightarrow> 'a option" where
  "or_else a b = (case a of Some x \<Rightarrow> Some x | None \<Rightarrow> b)"

definition head_lengths_of :: "(string \<Rightarrow> gguf_value option) \<Rightarrow> int list \<Rightarrow> head_lengths option" where
  "head_lengths_of get headCounts =
     (let embeddingLength = bounded (get ''embedding_length'') MAX_TOKENS;
          firstHeadCount = (case headCounts of [] \<Rightarrow> 0 | h # hs \<Rightarrow> h);
          fallbackLength = (case embeddingLength of Some e \<Rightarrow> if firstHeadCount > 0 then Some (e div firstHeadCount) else None | None \<Rightarrow> None);
          keyLength = or_else (bounded (get ''attention.key_length'') MAX_HEAD_LENGTH) fallbackLength;
          declaredValueLength = or_else (bounded (get ''attention.value_length'') MAX_HEAD_LENGTH) (or_else fallbackLength keyLength)
      in case (keyLength, declaredValueLength) of
           (Some k, Some v) \<Rightarrow>
             if k = 0 \<or> v = 0 \<or> k > MAX_HEAD_LENGTH then None
             else Some \<lparr>hl_key = k, hl_value = v, hl_mla =
               (case (bounded (get ''attention.key_length_mla'') MAX_HEAD_LENGTH, bounded (get ''attention.value_length_mla'') MAX_HEAD_LENGTH) of
                  (Some km, Some vm) \<Rightarrow> Some (km, vm) | _ \<Rightarrow> None)\<rparr>
         | _ \<Rightarrow> None)"

definition sliding_window_of :: "(string \<Rightarrow> gguf_value option) \<Rightarrow> string \<Rightarrow> int option" where
  "sliding_window_of get architecture =
     (let spec = SWA_ARCHITECTURES architecture in
      if spec \<noteq> None \<or> architecture = ''gemma4''
      then or_else (bounded (get ''attention.sliding_window'') MAX_TOKENS) (Option.bind spec sw_defaultWindow)
      else None)"

text \<open>Key and value lengths of the sliding-window layers; \<open>None\<close> when Gemma 4 lacks them.\<close>

definition swa_lengths_of :: "(string \<Rightarrow> gguf_value option) \<Rightarrow> string \<Rightarrow> int option \<Rightarrow> head_lengths \<Rightarrow> (int \<times> int) option" where
  "swa_lengths_of get architecture slidingWindow lengths =
     (if architecture = ''gemma4''
      then (case (slidingWindow, bounded (get ''attention.key_length_swa'') MAX_HEAD_LENGTH, bounded (get ''attention.value_length_swa'') MAX_HEAD_LENGTH) of
          (Some w, Some k, Some v) \<Rightarrow> Some (k, v) | _ \<Rightarrow> None)
      else Some (hl_key lengths, hl_value lengths))"

definition is_hybrid :: "string \<Rightarrow> bool" where
  "is_hybrid architecture \<longleftrightarrow> architecture \<in> set HYBRID_QWEN_ARCHITECTURES"

definition attention_layers_of :: "(string \<Rightarrow> gguf_value option) \<Rightarrow> string \<Rightarrow> int \<Rightarrow> int option" where
  "attention_layers_of get architecture blockCount =
     (if is_hybrid architecture
      then (case optionalInt (get ''nextn_predict_layers'') 0 (blockCount - 1) of
          Invalid \<Rightarrow> None | Absent \<Rightarrow> Some blockCount | Valid n \<Rightarrow> Some (blockCount - n))
      else Some blockCount)"

definition kv_layers_of :: "(string \<Rightarrow> gguf_value option) \<Rightarrow> string \<Rightarrow> int \<Rightarrow> int \<Rightarrow> int option" where
  "kv_layers_of get architecture blockCount attentionLayers =
     (if architecture = ''gemma4''
      then (case optionalInt (get ''attention.shared_kv_layers'') 0 blockCount of
          Invalid \<Rightarrow> None
        | Absent \<Rightarrow> if blockCount < 1 then None else Some blockCount
        | Valid shared \<Rightarrow> if blockCount - shared < 1 then None else Some (blockCount - shared))
      else Some (min attentionLayers
             (case Option.bind (SWA_ARCHITECTURES architecture) sw_kvLayers of Some n \<Rightarrow> n | None \<Rightarrow> attentionLayers)))"

definition recurrence_of :: "gguf_values \<Rightarrow> string \<Rightarrow> int \<Rightarrow> int \<Rightarrow> ((int \<Rightarrow> bool) \<times> int) option" where
  "recurrence_of values architecture blockCount attentionLayers =
     (if is_hybrid architecture then hybridQwenRecurrence values architecture blockCount attentionLayers
      else Some (\<lambda>layer. False, 0))"

text \<open>The heads of the layers that hold a cache, of the wanted kind.\<close>

definition sum_heads :: "(int \<Rightarrow> int) \<Rightarrow> (int \<Rightarrow> bool) \<Rightarrow> int \<Rightarrow> int" where
  "sum_heads heads wanted kvLayers =
     sum_list (map heads (filter (\<lambda>layer. heads layer > 0 \<and> wanted layer) (upto 0 (kvLayers - 1))))"

definition kvGeometryFromMetadata :: "gguf_values \<Rightarrow> kv_geometry option" where
  "kvGeometryFromMetadata values =
     (case architecture_of values of None \<Rightarrow> None | Some architecture \<Rightarrow>
      if architecture \<in> set UNMODELLED_RECURRENT_ARCHITECTURES then None else
      let get = get_key values architecture in
      case bounded (get ''block_count'') MAX_BLOCK_COUNT of None \<Rightarrow> None | Some blockCount \<Rightarrow>
      case (layerValues (get ''attention.head_count'') blockCount, layerValues (get ''attention.head_count_kv'') blockCount) of
        (Valid headCounts, kvHeadCounts) \<Rightarrow>
          if kvHeadCounts = Invalid then None else
          let headsForLayer = (\<lambda>layer. case nth_int (case kvHeadCounts of Valid ks \<Rightarrow> ks | _ \<Rightarrow> headCounts) layer of Some h \<Rightarrow> h | None \<Rightarrow> 0) in
          (case head_lengths_of get headCounts of None \<Rightarrow> None | Some lengths \<Rightarrow>
           let slidingWindow = sliding_window_of get architecture in
           case swa_lengths_of get architecture slidingWindow lengths of None \<Rightarrow> None | Some (swaKeyLength, swaValueLength) \<Rightarrow>
           case attention_layers_of get architecture blockCount of None \<Rightarrow> None | Some attentionLayers \<Rightarrow>
           case swaLayerPredicate (get ''attention.sliding_window_pattern'') blockCount (architecture = ''gemma4'')
                  (case slidingWindow of None \<Rightarrow> None
                   | Some w \<Rightarrow> Some (case Option.bind (SWA_ARCHITECTURES architecture) sw_period of Some p \<Rightarrow> p | None \<Rightarrow> 0)) of
             None \<Rightarrow> None
           | Some isSwa \<Rightarrow>
           case kv_layers_of get architecture blockCount attentionLayers of None \<Rightarrow> None | Some kvLayers \<Rightarrow>
           case recurrence_of values architecture blockCount attentionLayers of None \<Rightarrow> None | Some (isRecurrent, recurrentBytes) \<Rightarrow>
           let anySwa = list_ex isSwa (upto 0 (blockCount - 1));
               dims = [hl_key lengths, hl_value lengths] @ (if anySwa then [swaKeyLength, swaValueLength] else []) @
                 (case hl_mla lengths of Some (k, v) \<Rightarrow> [k, v] | None \<Rightarrow> []);
               decision = decisionTypeFromMetadata values;
               zero_if = (\<lambda>n. if decision \<noteq> None then 0 else n)
           in Some \<lparr>kg_architecture = architecture, kg_blockCount = blockCount,
                kg_fullKvHeads = zero_if (sum_heads headsForLayer (\<lambda>layer. \<not> isRecurrent layer \<and> \<not> isSwa layer) kvLayers),
                kg_swaKvHeads = zero_if (sum_heads headsForLayer (\<lambda>layer. \<not> isRecurrent layer \<and> isSwa layer) kvLayers),
                kg_slidingWindow = slidingWindow, kg_keyLength = hl_key lengths,
                kg_valueLength = (if hl_mla lengths \<noteq> None then 0 else hl_value lengths),
                kg_swaKeyLength = swaKeyLength, kg_swaValueLength = (if hl_mla lengths \<noteq> None then 0 else swaValueLength),
                kg_q8Compatible = list_all (\<lambda>d. d mod Q8_0_BLOCK_SIZE = 0) dims,
                kg_recurrentBytesPerSlot = zero_if recurrentBytes,
                kg_contextLength = bounded (get ''context_length'') MAX_TOKENS, kg_decisionType = decision\<rparr>)
      | _ \<Rightarrow> None)"

section \<open>The cache size\<close>

record cache_input =
  ci_ctxTokens :: int
  ci_slots :: int
  ci_cacheTypeK :: kv_cache_type
  ci_cacheTypeV :: kv_cache_type

definition cells_per_stream :: "cache_input \<Rightarrow> int" where
  "cells_per_stream input = pad256 (pad256 (ci_ctxTokens input) div max 1 (ci_slots input))"

definition swa_cells_per_stream :: "kv_geometry \<Rightarrow> cache_input \<Rightarrow> int" where
  "swa_cells_per_stream g input =
     (case kg_slidingWindow g of None \<Rightarrow> 0 | Some w \<Rightarrow> pad256 (min (cells_per_stream input) (w + SWA_UBATCH_TOKENS)))"

definition kvCacheBytes :: "kv_geometry \<Rightarrow> cache_input \<Rightarrow> int" where
  "kvCacheBytes g input =
     (let bytesK = BYTES_PER_ELEMENT (ci_cacheTypeK input);
          bytesV = BYTES_PER_ELEMENT (ci_cacheTypeV input);
          slots = max 1 (ci_slots input);
          full = of_int (slots * cells_per_stream input * kg_fullKvHeads g) *
                 (of_int (kg_keyLength g) * bytesK + of_int (kg_valueLength g) * bytesV);
          swa = of_int (slots * swa_cells_per_stream g input * kg_swaKvHeads g) *
                (of_int (kg_swaKeyLength g) * bytesK + of_int (kg_swaValueLength g) * bytesV)
      in ceiling (full + swa + of_int (slots * kg_recurrentBytesPerSlot g)))"

section \<open>The capability header\<close>

record capability_header =
  ch_architecture :: "string option"
  ch_contextLength :: "int option"
  ch_poolingType :: "int option"
  ch_expertCount :: "int option"
  ch_chatTemplate :: "string option"
  ch_decisionType :: "string option"
  ch_hasVisionEncoder :: bool
  ch_hasAudioEncoder :: bool

definition MAX_CHAT_TEMPLATE_BYTES :: int where "MAX_CHAT_TEMPLATE_BYTES = 256 * 1024"
definition CHAT_TEMPLATE_KEY :: string where "CHAT_TEMPLATE_KEY = ''tokenizer.chat_template''"

definition starts_with :: "string \<Rightarrow> string \<Rightarrow> bool" where
  "starts_with s p \<longleftrightarrow> take (length p) s = p"

definition ends_with :: "string \<Rightarrow> string \<Rightarrow> bool" where
  "ends_with s p \<longleftrightarrow> take (length p) (rev s) = rev p"

definition KEPT_SUFFIXES :: "string list" where
  "KEPT_SUFFIXES =
     [''.block_count'', ''.context_length'', ''.embedding_length'', ''.attention.head_count'', ''.attention.head_count_kv'',
      ''.attention.key_length'', ''.attention.value_length'', ''.attention.sliding_window'', ''.attention.sliding_window_pattern'',
      ''.attention.key_length_mla'', ''.attention.value_length_mla'', ''.attention.key_length_swa'', ''.attention.value_length_swa'',
      ''.attention.shared_kv_layers'', ''.attention.recurrent_layers'', ''.full_attention_interval'', ''.nextn_predict_layers'',
      ''.ssm.conv_kernel'', ''.ssm.inner_size'', ''.ssm.state_size'', ''.ssm.group_count'', ''.decision.type'']"

definition keepKey :: "string \<Rightarrow> bool" where
  "keepKey key \<longleftrightarrow> key = ''general.architecture'' \<or> list_ex (ends_with key) KEPT_SUFFIXES"

definition GEOMETRY_KEYS :: key_selection where
  "GEOMETRY_KEYS = \<lparr>ks_keep = keepKey, ks_maxStringBytes = (\<lambda>key. MAX_KEPT_STRING_BYTES)\<rparr>"

definition capabilityKey :: "string \<Rightarrow> bool" where
  "capabilityKey key \<longleftrightarrow> key = ''general.architecture'' \<or> key = CHAT_TEMPLATE_KEY \<or> starts_with key (CHAT_TEMPLATE_KEY @ ''.'') \<or>
     ends_with key ''.context_length'' \<or> ends_with key ''.pooling_type'' \<or> ends_with key ''.expert_count'' \<or>
     ends_with key ''.decision.type'' \<or> key = ''clip.has_vision_encoder'' \<or> key = ''clip.has_audio_encoder''"

definition CAPABILITY_KEYS :: key_selection where
  "CAPABILITY_KEYS = \<lparr>ks_keep = capabilityKey,
     ks_maxStringBytes = (\<lambda>key. if starts_with key CHAT_TEMPLATE_KEY then MAX_CHAT_TEMPLATE_BYTES else MAX_KEPT_STRING_BYTES)\<rparr>"

definition template_of :: "string \<times> gguf_value \<Rightarrow> string option" where
  "template_of kv =
     (case snd kv of
        GString s \<Rightarrow> if (fst kv = CHAT_TEMPLATE_KEY \<or> starts_with (fst kv) (CHAT_TEMPLATE_KEY @ ''.'')) \<and> s \<noteq> [] then Some s else None
      | _ \<Rightarrow> None)"

fun join_lines :: "string list \<Rightarrow> string" where
  "join_lines [] = []"
| "join_lines [s] = s"
| "join_lines (s # ss) = s @ [CHR 0x0A] @ join_lines ss"

definition capabilityHeaderFromMetadata :: "gguf_values \<Rightarrow> capability_header" where
  "capabilityHeaderFromMetadata values =
     (let arch = architecture_of values;
          value_of = (\<lambda>suffix. Option.bind arch (\<lambda>a. get_key values a suffix));
          templates = List.map_filter template_of values
      in \<lparr>ch_architecture = arch,
          ch_contextLength = Option.bind arch (\<lambda>a. bounded (get_key values a ''context_length'') MAX_TOKENS),
          ch_poolingType = number_value (value_of ''pooling_type''),
          ch_expertCount = (case number_value (value_of ''expert_count'') of Some n \<Rightarrow> if n > 0 then Some n else None | None \<Rightarrow> None),
          ch_chatTemplate = (if templates = [] then None else Some (join_lines templates)),
          ch_decisionType = decisionTypeFromMetadata values,
          ch_hasVisionEncoder = (js_get values ''clip.has_vision_encoder'' = Some (GBool True)),
          ch_hasAudioEncoder = (js_get values ''clip.has_audio_encoder'' = Some (GBool True))\<rparr>)"

section \<open>Reading a file\<close>

text \<open>A failure of the reader is \<open>None\<close>.\<close>

definition readLlmTrainingContextLength :: "(byte list \<Rightarrow> string) \<Rightarrow> byte list \<Rightarrow> int option \<Rightarrow> int option" where
  "readLlmTrainingContextLength dec file maxParseWork =
     (case readKeyValues dec file maxParseWork GEOMETRY_KEYS of
        Inl e \<Rightarrow> None | Inr values \<Rightarrow> trainingContextLengthFromMetadata values)"

definition readLlmKvGeometry :: "(byte list \<Rightarrow> string) \<Rightarrow> byte list \<Rightarrow> int option \<Rightarrow> kv_geometry option" where
  "readLlmKvGeometry dec file maxParseWork =
     (case readKeyValues dec file maxParseWork GEOMETRY_KEYS of Inl e \<Rightarrow> None | Inr values \<Rightarrow> kvGeometryFromMetadata values)"

definition readGgufCapabilityHeader :: "(byte list \<Rightarrow> string) \<Rightarrow> byte list \<Rightarrow> int option \<Rightarrow> capability_header option" where
  "readGgufCapabilityHeader dec file maxParseWork =
     (case readKeyValues dec file maxParseWork CAPABILITY_KEYS of
        Inl e \<Rightarrow> None | Inr values \<Rightarrow> Some (capabilityHeaderFromMetadata values))"

section \<open>What a geometry promises\<close>

definition geometry_ok :: "kv_geometry \<Rightarrow> bool" where
  "geometry_ok g \<longleftrightarrow>
     1 \<le> kg_blockCount g \<and> kg_blockCount g \<le> MAX_BLOCK_COUNT \<and>
     0 \<le> kg_fullKvHeads g \<and> 0 \<le> kg_swaKvHeads g \<and> kg_fullKvHeads g + kg_swaKvHeads g \<le> kg_blockCount g * MAX_HEAD_COUNT \<and>
     (kg_swaKvHeads g > 0 \<longrightarrow> kg_slidingWindow g \<noteq> None) \<and>
     (\<forall>w. kg_slidingWindow g = Some w \<longrightarrow> 1 \<le> w \<and> w \<le> MAX_TOKENS) \<and>
     1 \<le> kg_keyLength g \<and> kg_keyLength g \<le> MAX_HEAD_LENGTH \<and> 0 \<le> kg_valueLength g \<and> kg_valueLength g \<le> MAX_TOKENS \<and>
     1 \<le> kg_swaKeyLength g \<and> kg_swaKeyLength g \<le> MAX_HEAD_LENGTH \<and> 0 \<le> kg_swaValueLength g \<and> kg_swaValueLength g \<le> MAX_TOKENS \<and>
     (kg_q8Compatible g \<longrightarrow> kg_keyLength g mod 32 = 0 \<and> kg_valueLength g mod 32 = 0) \<and>
     (kg_q8Compatible g \<and> kg_swaKvHeads g > 0 \<longrightarrow> kg_swaKeyLength g mod 32 = 0 \<and> kg_swaValueLength g mod 32 = 0) \<and>
     0 \<le> kg_recurrentBytesPerSlot g \<and>
     (\<forall>n. kg_contextLength g = Some n \<longrightarrow> 1 \<le> n \<and> n \<le> MAX_TOKENS) \<and>
     (kg_decisionType g \<noteq> None \<longrightarrow> kg_fullKvHeads g = 0 \<and> kg_swaKvHeads g = 0 \<and> kg_recurrentBytesPerSlot g = 0)"

text \<open>A model whose header has both MLA lengths caches keys only, and its MLA lengths count for quantized caches.\<close>

definition mla_ok :: "gguf_values \<Rightarrow> kv_geometry \<Rightarrow> bool" where
  "mla_ok values g \<longleftrightarrow>
     (\<forall>km vm. js_get values (kg_architecture g @ ''.attention.key_length_mla'') = Some (GNumber (Finite (of_int km))) \<and>
        js_get values (kg_architecture g @ ''.attention.value_length_mla'') = Some (GNumber (Finite (of_int vm))) \<and>
        1 \<le> km \<and> km \<le> MAX_HEAD_LENGTH \<and> 1 \<le> vm \<and> vm \<le> MAX_HEAD_LENGTH \<longrightarrow>
        kg_valueLength g = 0 \<and> kg_swaValueLength g = 0 \<and> (kg_q8Compatible g \<longrightarrow> km mod 32 = 0 \<and> vm mod 32 = 0))"

lemma bounded_int: "1 \<le> n \<Longrightarrow> n \<le> limit \<Longrightarrow> limit \<le> MAX_SAFE_INTEGER \<Longrightarrow> bounded (Some (GNumber (Finite (of_int n)))) limit = Some n"
  by (simp add: bounded_def number_value_def safe_integer_def)

lemma bounded_range: "bounded v limit = Some n \<Longrightarrow> 1 \<le> n \<and> n \<le> limit"
  by (auto simp: bounded_def split: option.splits if_splits)

lemma head_count_range: "head_count x = Some n \<Longrightarrow> 0 \<le> n \<and> n \<le> MAX_HEAD_COUNT"
  by (auto simp: head_count_def split: option.splits if_splits)

lemma set_map_filter: "set (List.map_filter f xs) = {y. \<exists>x \<in> set xs. f x = Some y}"
  by (induction xs) (auto simp: List.map_filter_simps split: option.splits)

lemma layerValues_range: "layerValues v b = Valid xs \<Longrightarrow> \<forall>x \<in> set xs. 0 \<le> x \<and> x \<le> MAX_HEAD_COUNT"
  by (auto simp: layerValues_def set_map_filter split: option.splits gguf_value.splits if_splits dest!: head_count_range)

lemma optionalInt_range: "optionalInt v low high = Valid n \<Longrightarrow> low \<le> n \<and> n \<le> high"
  by (auto simp: optionalInt_def split: option.splits if_splits)

lemma nth_int_in: "nth_int xs i = Some x \<Longrightarrow> x \<in> set xs"
  by (auto simp: nth_int_def split: if_splits)

lemma sum_heads_nonneg: "0 \<le> sum_heads heads P n"
  unfolding sum_heads_def by (rule sum_list_nonneg_int) simp

lemma sum_two_filters:
  fixes heads :: "'a \<Rightarrow> int"
  assumes "\<And>x. 0 \<le> heads x \<and> heads x \<le> limit" "\<And>x. \<not> (P x \<and> Q x)"
  shows "sum_list (map heads (filter P xs)) + sum_list (map heads (filter Q xs)) \<le> int (length xs) * limit"
proof (induction xs)
  case (Cons x xs)
  have "0 \<le> limit" using assms(1) [of x] by linarith
  then show ?case using Cons assms(1) [of x] assms(2) [of x] by (auto simp: algebra_simps)
qed simp

lemma sum_heads_bound:
  assumes "\<And>layer. 0 \<le> heads layer \<and> heads layer \<le> limit" "kvLayers \<le> b" "0 \<le> b" "0 \<le> limit"
  shows "sum_heads heads (\<lambda>l. \<not> r l \<and> \<not> s l) kvLayers + sum_heads heads (\<lambda>l. \<not> r l \<and> s l) kvLayers \<le> b * limit"
proof -
  have "sum_heads heads (\<lambda>l. \<not> r l \<and> \<not> s l) kvLayers + sum_heads heads (\<lambda>l. \<not> r l \<and> s l) kvLayers
      \<le> int (length (upto 0 (kvLayers - 1))) * limit"
    unfolding sum_heads_def by (rule sum_two_filters [OF assms(1)]) blast
  also have "\<dots> \<le> b * limit" using assms(2-4) by (intro mult_right_mono) simp_all
  finally show ?thesis .
qed

lemma head_lengths_range:
  assumes "head_lengths_of get hs = Some l" "\<forall>h \<in> set hs. 0 \<le> h"
  shows "1 \<le> hl_key l \<and> hl_key l \<le> MAX_HEAD_LENGTH \<and> 1 \<le> hl_value l \<and> hl_value l \<le> MAX_TOKENS"
proof -
  let ?e = "bounded (get ''embedding_length'') MAX_TOKENS"
  let ?h = "case hs of [] \<Rightarrow> 0 | h # hs \<Rightarrow> h"
  let ?f = "case ?e of Some e \<Rightarrow> if ?h > 0 then Some (e div ?h) else None | None \<Rightarrow> None"
  have f: "0 \<le> n \<and> n \<le> MAX_TOKENS" if f0: "?f = Some n" for n
  proof -
    obtain e where e: "?e = Some e" "0 < ?h" "n = e div ?h" using f0 by (cases ?e) (auto split: if_splits)
    then have "0 \<le> e" "e \<le> MAX_TOKENS" using bounded_range by fastforce+
    moreover have "e div ?h \<le> e" using e(2) \<open>0 \<le> e\<close> zdiv_mono2 [of e 1 ?h] by simp
    ultimately show ?thesis using e by (simp add: pos_imp_zdiv_nonneg_iff)
  qed
  have small: "MAX_HEAD_LENGTH \<le> MAX_TOKENS" by (simp add: gguf_limits)
  obtain k v where kv: "or_else (bounded (get ''attention.key_length'') MAX_HEAD_LENGTH) ?f = Some k"
      "or_else (bounded (get ''attention.value_length'') MAX_HEAD_LENGTH) (or_else ?f (Some k)) = Some v"
      "k \<noteq> 0" "v \<noteq> 0" "k \<le> MAX_HEAD_LENGTH" "hl_key l = k" "hl_value l = v"
    using assms(1) by (auto simp: head_lengths_of_def Let_def split: option.splits if_splits)
  have k: "0 \<le> k" using kv(1) f bounded_range by (fastforce simp: or_else_def split: option.splits)
  have "0 \<le> v \<and> v \<le> MAX_TOKENS"
    using kv(2) f bounded_range [of "get ''attention.value_length''" MAX_HEAD_LENGTH] k kv(5) small
    by (cases "bounded (get ''attention.value_length'') MAX_HEAD_LENGTH"; cases ?f) (fastforce simp: or_else_def)+
  then show ?thesis using kv k by simp
qed

lemma sliding_window_range: "sliding_window_of get a = Some w \<Longrightarrow> 1 \<le> w \<and> w \<le> MAX_TOKENS"
  by (auto simp: sliding_window_of_def SWA_ARCHITECTURES_def or_else_def gguf_limits
      split: option.splits if_splits dest!: bounded_range)

lemma swa_lengths_range:
  assumes "swa_lengths_of get a w l = Some (k, v)"
    "1 \<le> hl_key l \<and> hl_key l \<le> MAX_HEAD_LENGTH \<and> 1 \<le> hl_value l \<and> hl_value l \<le> MAX_TOKENS"
  shows "1 \<le> k \<and> k \<le> MAX_HEAD_LENGTH \<and> 1 \<le> v \<and> v \<le> MAX_TOKENS"
proof -
  have "MAX_HEAD_LENGTH \<le> MAX_TOKENS" by (simp add: gguf_limits)
  then show ?thesis using assms
    by (auto simp: swa_lengths_of_def split: option.splits if_splits dest!: bounded_range)
qed

lemma attention_layers_range: "attention_layers_of get a b = Some n \<Longrightarrow> n \<le> b"
  by (auto simp: attention_layers_of_def split: if_splits checked.splits dest: optionalInt_range)

lemma kv_layers_range: "kv_layers_of get a b n = Some k \<Longrightarrow> n \<le> b \<Longrightarrow> k \<le> b"
  by (auto simp: kv_layers_of_def split: if_splits checked.splits dest: optionalInt_range)

lemma recurrence_range:
  assumes "recurrence_of values a b n = Some (r, bytes)"
  shows "0 \<le> bytes"
proof (cases "is_hybrid a")
  case True
  have prod: "0 \<le> int k * ((kern - 1) * (inner + 2 * groups * state) + state * inner) * 4"
    if "1 \<le> kern" "1 \<le> inner" "1 \<le> state" "0 \<le> groups" for k :: nat and kern inner state groups :: int
    using that by (intro mult_nonneg_nonneg add_nonneg_nonneg) simp_all
  show ?thesis
    using assms True
    by (auto simp: recurrence_of_def hybridQwenRecurrence_def Let_def RECURRENT_STATE_BYTES_def
        split: option.splits checked.splits dest!: bounded_range optionalInt_range intro!: prod)
next
  case False
  then show ?thesis using assms by (simp add: recurrence_of_def)
qed

lemma no_window_no_swa:
  "swaLayerPredicate p b False None = Some s \<Longrightarrow> \<not> s layer"
  by (auto simp: swaLayerPredicate_def)

lemma kv_geometry_ok:
  assumes "kvGeometryFromMetadata values = Some g"
  shows "geometry_ok g \<and> mla_ok values g"
proof -
  obtain architecture where arch: "architecture_of values = Some architecture"
    using assms by (auto simp: kvGeometryFromMetadata_def split: option.splits)
  define get where "get = get_key values architecture"
  obtain b where b: "bounded (get ''block_count'') MAX_BLOCK_COUNT = Some b"
    using assms arch by (auto simp: kvGeometryFromMetadata_def get_def Let_def split: option.splits if_splits)
  obtain hs where hs: "layerValues (get ''attention.head_count'') b = Valid hs"
    using assms arch b by (auto simp: kvGeometryFromMetadata_def get_def Let_def split: option.splits if_splits checked.splits)
  define kvh where "kvh = layerValues (get ''attention.head_count_kv'') b"
  define heads where "heads = (\<lambda>layer. case nth_int (case kvh of Valid ks \<Rightarrow> ks | _ \<Rightarrow> hs) layer of Some h \<Rightarrow> h | None \<Rightarrow> 0)"
  define window where "window = sliding_window_of get architecture"
  define dflt where "dflt = (case window of None \<Rightarrow> None
      | Some w \<Rightarrow> Some (case Option.bind (SWA_ARCHITECTURES architecture) sw_period of Some p \<Rightarrow> p | None \<Rightarrow> 0))"
  obtain l ks vs n s k r bytes where parts: "kvh \<noteq> Invalid" "head_lengths_of get hs = Some l"
      "swa_lengths_of get architecture window l = Some (ks, vs)" "attention_layers_of get architecture b = Some n"
      "swaLayerPredicate (get ''attention.sliding_window_pattern'') b (architecture = ''gemma4'') dflt = Some s"
      "kv_layers_of get architecture b n = Some k" "recurrence_of values architecture b n = Some (r, bytes)"
    using assms arch b hs
    by (auto simp: kvGeometryFromMetadata_def Let_def dflt_def kvh_def window_def simp flip: get_def split: option.splits if_splits)
  define decision where "decision = decisionTypeFromMetadata values"
  define zero_if where "zero_if = (\<lambda>n :: int. if decision \<noteq> None then 0 else n)"
  let ?full = "sum_heads heads (\<lambda>layer. \<not> r layer \<and> \<not> s layer) k" and ?swa = "sum_heads heads (\<lambda>layer. \<not> r layer \<and> s layer) k"
  have g: "kg_blockCount g = b" "kg_fullKvHeads g = zero_if ?full" "kg_swaKvHeads g = zero_if ?swa" "kg_slidingWindow g = window"
      "kg_keyLength g = hl_key l" "kg_valueLength g = (if hl_mla l \<noteq> None then 0 else hl_value l)" "kg_swaKeyLength g = ks"
      "kg_swaValueLength g = (if hl_mla l \<noteq> None then 0 else vs)" "kg_recurrentBytesPerSlot g = zero_if bytes"
      "kg_contextLength g = bounded (get ''context_length'') MAX_TOKENS" "kg_decisionType g = decision"
      "kg_q8Compatible g \<longrightarrow> hl_key l mod Q8_0_BLOCK_SIZE = 0 \<and> hl_value l mod Q8_0_BLOCK_SIZE = 0 \<and>
         (list_ex s (upto 0 (b - 1)) \<longrightarrow> ks mod Q8_0_BLOCK_SIZE = 0 \<and> vs mod Q8_0_BLOCK_SIZE = 0) \<and>
         (\<forall>km vm. hl_mla l = Some (km, vm) \<longrightarrow> km mod Q8_0_BLOCK_SIZE = 0 \<and> vm mod Q8_0_BLOCK_SIZE = 0)"
      "kg_architecture g = architecture"
    using assms arch b hs parts
    by (auto simp: kvGeometryFromMetadata_def Let_def decision_def zero_if_def heads_def simp flip: get_def kvh_def window_def dflt_def
        split: if_splits)
  have hr: "0 \<le> heads layer \<and> heads layer \<le> MAX_HEAD_COUNT" for layer
    using layerValues_range [OF hs] layerValues_range [of "get ''attention.head_count_kv''" b]
    by (auto simp: heads_def kvh_def gguf_limits split: option.split checked.split dest!: nth_int_in)
  have br: "1 \<le> b" "b \<le> MAX_BLOCK_COUNT" using bounded_range [OF b] by simp_all
  have kb: "k \<le> b" using kv_layers_range [OF parts(6)] attention_layers_range [OF parts(4)] by blast
  have sums: "?full + ?swa \<le> b * MAX_HEAD_COUNT"
    using br by (intro sum_heads_bound hr kb) (simp_all add: gguf_limits)
  have lr: "1 \<le> hl_key l \<and> hl_key l \<le> MAX_HEAD_LENGTH \<and> 1 \<le> hl_value l \<and> hl_value l \<le> MAX_TOKENS"
    using layerValues_range [OF hs] by (intro head_lengths_range [OF parts(2)]) blast
  note sr = swa_lengths_range [OF parts(3) lr]
  have win: "window \<noteq> None" if "?swa > 0"
  proof (cases "architecture = ''gemma4''")
    case True
    then show ?thesis using parts(3) by (auto simp: swa_lengths_of_def split: option.splits)
  next
    case False
    show ?thesis
    proof
      assume "window = None"
      then have "\<not> s layer" for layer using parts(5) False no_window_no_swa by (simp add: dflt_def)
      then have "?swa = 0" by (simp add: sum_heads_def)
      then show False using that by simp
    qed
  qed
  have any: "list_ex s (upto 0 (b - 1))" if "?swa > 0"
  proof (rule ccontr)
    assume "\<not> ?thesis"
    then have "filter (\<lambda>layer. heads layer > 0 \<and> \<not> r layer \<and> s layer) (upto 0 (k - 1)) = []"
      using kb by (auto simp: filter_empty_conv list_ex_iff)
    then show False using that by (simp add: sum_heads_def)
  qed
  note rec = recurrence_range [OF parts(7)]
  have nn: "0 \<le> ?full" "0 \<le> ?swa" by (rule sum_heads_nonneg)+
  have wr: "\<forall>w. window = Some w \<longrightarrow> 1 \<le> w \<and> w \<le> MAX_TOKENS" using sliding_window_range by (simp add: window_def)
  have cr: "\<forall>n. bounded (get ''context_length'') MAX_TOKENS = Some n \<longrightarrow> 1 \<le> n \<and> n \<le> MAX_TOKENS" using bounded_range by blast
  have blocks: "0 \<le> b * MAX_HEAD_COUNT" using br by (simp add: gguf_limits)
  have tokens: "0 \<le> MAX_TOKENS" by (simp add: gguf_limits)
  have mla: "hl_mla l = Some (km, vm)"
    if "js_get values (architecture @ ''.attention.key_length_mla'') = Some (GNumber (Finite (of_int km)))" "1 \<le> km" "km \<le> MAX_HEAD_LENGTH"
      "js_get values (architecture @ ''.attention.value_length_mla'') = Some (GNumber (Finite (of_int vm)))" "1 \<le> vm" "vm \<le> MAX_HEAD_LENGTH"
    for km vm
  proof -
    have small: "MAX_HEAD_LENGTH \<le> MAX_SAFE_INTEGER" by (simp add: gguf_limits MAX_SAFE_INTEGER_def)
    have "bounded (get ''attention.key_length_mla'') MAX_HEAD_LENGTH = Some km"
      "bounded (get ''attention.value_length_mla'') MAX_HEAD_LENGTH = Some vm"
      using bounded_int [OF that(2,3) small] bounded_int [OF that(5,6) small] that(1,4) by (simp_all add: get_def get_key_def)
    then show ?thesis using parts(2) by (auto simp: head_lengths_of_def Let_def split: option.splits if_splits)
  qed
  have "mla_ok values g"
    unfolding mla_ok_def g(13) using mla g(6,8) g(12) [unfolded Q8_0_BLOCK_SIZE_def] by auto
  moreover have "geometry_ok g"
    unfolding geometry_ok_def g(1-11)
    using br lr sr win rec nn wr cr sums blocks tokens any g(12) [unfolded Q8_0_BLOCK_SIZE_def] by (auto simp: zero_if_def)
  ultimately show ?thesis by blast
qed

text \<open>The cache of a well-formed geometry grows with the context.\<close>

lemma pad256_mono: "a \<le> b \<Longrightarrow> pad256 a \<le> pad256 b"
  unfolding pad256_def by (intro mult_right_mono zdiv_mono1) simp_all

lemma pad256_ge: "a \<le> pad256 a"
proof -
  have "a + 255 = (a + 255) div 256 * 256 + (a + 255) mod 256" by simp
  moreover have "(a + 255) mod 256 \<le> 255" by (simp add: pos_mod_bound)
  ultimately show ?thesis unfolding pad256_def by linarith
qed

lemma bytes_per_element_pos: "0 < BYTES_PER_ELEMENT t"
  by (cases t) simp_all

lemma cells_mono: "ci_ctxTokens i \<le> c \<Longrightarrow> cells_per_stream i \<le> cells_per_stream (i\<lparr>ci_ctxTokens := c\<rparr>)"
  by (simp add: cells_per_stream_def pad256_mono zdiv_mono1)

lemma swa_cells_mono: "ci_ctxTokens i \<le> c \<Longrightarrow> swa_cells_per_stream g i \<le> swa_cells_per_stream g (i\<lparr>ci_ctxTokens := c\<rparr>)"
  using cells_mono [of i c] by (auto simp: swa_cells_per_stream_def min.coboundedI1 split: option.split intro!: pad256_mono)

text \<open>Only the signs of the sizes matter for it.\<close>

definition geometry_nonneg :: "kv_geometry \<Rightarrow> bool" where
  "geometry_nonneg g \<longleftrightarrow> 0 \<le> kg_fullKvHeads g \<and> 0 \<le> kg_swaKvHeads g \<and> 0 \<le> kg_keyLength g \<and> 0 \<le> kg_valueLength g \<and>
     0 \<le> kg_swaKeyLength g \<and> 0 \<le> kg_swaValueLength g \<and> 0 \<le> kg_recurrentBytesPerSlot g \<and>
     (\<forall>w. kg_slidingWindow g = Some w \<longrightarrow> 0 \<le> w)"

lemma geometry_ok_nonneg: "geometry_ok g \<Longrightarrow> geometry_nonneg g"
  by (auto simp: geometry_ok_def geometry_nonneg_def)

lemma lengths_nonneg:
  assumes "geometry_nonneg g"
  shows "0 \<le> of_int (kg_keyLength g) * BYTES_PER_ELEMENT k + of_int (kg_valueLength g) * BYTES_PER_ELEMENT v"
    "0 \<le> of_int (kg_swaKeyLength g) * BYTES_PER_ELEMENT k + of_int (kg_swaValueLength g) * BYTES_PER_ELEMENT v"
  using assms bytes_per_element_pos [of k] bytes_per_element_pos [of v]
  by (auto simp: geometry_nonneg_def intro!: add_nonneg_nonneg mult_nonneg_nonneg)

lemma kvCacheBytes_nonneg:
  assumes g: "geometry_nonneg g" and ctx: "0 \<le> ci_ctxTokens i"
  shows "0 \<le> kvCacheBytes g i"
proof -
  have cells: "0 \<le> cells_per_stream i"
    using ctx by (simp add: cells_per_stream_def pad256_def pos_imp_zdiv_nonneg_iff)
  then have "0 \<le> swa_cells_per_stream g i"
    using g by (auto simp: swa_cells_per_stream_def pad256_def geometry_nonneg_def SWA_UBATCH_TOKENS_def pos_imp_zdiv_nonneg_iff split: option.split)
  then have "0 \<le> max 1 (ci_slots i) * cells_per_stream i * kg_fullKvHeads g" "0 \<le> max 1 (ci_slots i) * swa_cells_per_stream g i * kg_swaKvHeads g"
    "0 \<le> max 1 (ci_slots i) * kg_recurrentBytesPerSlot g"
    using g cells by (auto simp: geometry_nonneg_def intro!: mult_nonneg_nonneg)
  then have "0 \<le> (of_int (max 1 (ci_slots i) * cells_per_stream i * kg_fullKvHeads g) :: rat)"
      "0 \<le> (of_int (max 1 (ci_slots i) * swa_cells_per_stream g i * kg_swaKvHeads g) :: rat)"
      "0 \<le> (of_int (max 1 (ci_slots i) * kg_recurrentBytesPerSlot g) :: rat)"
    by (simp_all only: of_int_0_le_iff)
  note parts = mult_nonneg_nonneg [OF this(1) lengths_nonneg(1) [OF g]] mult_nonneg_nonneg [OF this(2) lengths_nonneg(2) [OF g]] this(3)
  have up: "0 \<le> ceiling (a + b + c :: rat)" if "0 \<le> a" "0 \<le> b" "0 \<le> c" for a b c
    using that by (simp add: le_ceiling_iff)
  show ?thesis unfolding kvCacheBytes_def Let_def by (rule up [OF parts])
qed

lemma kvCacheBytes_mono:
  assumes g: "geometry_nonneg g" and le: "ci_ctxTokens i \<le> c"
  shows "kvCacheBytes g i \<le> kvCacheBytes g (i\<lparr>ci_ctxTokens := c\<rparr>)"
proof -
  let ?K = "BYTES_PER_ELEMENT (ci_cacheTypeK i)" and ?V = "BYTES_PER_ELEMENT (ci_cacheTypeV i)"
  note pos = lengths_nonneg [OF g, of "ci_cacheTypeK i" "ci_cacheTypeV i"]
  have full: "max 1 (ci_slots i) * cells_per_stream i * kg_fullKvHeads g \<le> max 1 (ci_slots i) * cells_per_stream (i\<lparr>ci_ctxTokens := c\<rparr>) * kg_fullKvHeads g"
    using g cells_mono [OF le] by (intro mult_right_mono mult_left_mono) (auto simp: geometry_nonneg_def)
  have swa: "max 1 (ci_slots i) * swa_cells_per_stream g i * kg_swaKvHeads g \<le>
      max 1 (ci_slots i) * swa_cells_per_stream g (i\<lparr>ci_ctxTokens := c\<rparr>) * kg_swaKvHeads g"
    using g swa_cells_mono [OF le] by (intro mult_right_mono mult_left_mono) (auto simp: geometry_nonneg_def)
  note le = mult_right_mono [OF of_int_le_iff [THEN iffD2, OF full] pos(1)] mult_right_mono [OF of_int_le_iff [THEN iffD2, OF swa] pos(2)]
  show ?thesis unfolding kvCacheBytes_def Let_def using le by (intro ceiling_mono add_mono) simp_all
qed

section \<open>Properties\<close>

text \<open>
  C33: a geometry read from a file is well formed, whatever the file.  Its layer count, head counts, key
  lengths, window and context lie within their limits, and its value lengths within the token limit (not
  the limit of head lengths, see \<open>value_length_beyond_limit\<close>); sliding-window heads come with a window; a
  decision model has no cache.  Quantized caches are only offered when the head lengths are multiples of the
  block of 32, those of the sliding-window layers, when these hold heads, and both MLA lengths included; and
  a model with MLA lengths caches no values.  The cache never shrinks when the context grows.
\<close>

theorem gguf_geometry_well_formed:
  assumes "readLlmKvGeometry dec bytes maxParseWork = Some g"
  shows "geometry_ok g \<and> (\<exists>values. readKeyValues dec bytes maxParseWork GEOMETRY_KEYS = Inr values \<and> mla_ok values g) \<and>
    (\<forall>i c. ci_ctxTokens i \<le> c \<longrightarrow> kvCacheBytes g i \<le> kvCacheBytes g (i\<lparr>ci_ctxTokens := c\<rparr>))"
  using assms kv_geometry_ok kvCacheBytes_mono geometry_ok_nonneg by (auto simp: readLlmKvGeometry_def split: sum.splits)

definition demo_header :: "written_entry list" where
  "demo_header =
     [(ascii_bytes ''general.architecture'', WString (ascii_bytes ''gemma2'')), (ascii_bytes ''tokenizer.ggml.tokens'', WStrings [[], []]),
      (ascii_bytes ''gemma2.block_count'', WScalar 4 4), (ascii_bytes ''gemma2.attention.head_count'', WScalar 4 8),
      (ascii_bytes ''gemma2.attention.head_count_kv'', WArray 4 [4, 4, 2, 2]),
      (ascii_bytes ''gemma2.attention.key_length'', WScalar 4 128), (ascii_bytes ''gemma2.attention.value_length'', WScalar 4 64)]"

definition demo_values :: gguf_values where
  "demo_values =
     [(''general.architecture'', GString ''gemma2''), (''gemma2.block_count'', GNumber (Finite 4)),
      (''gemma2.attention.head_count'', GNumber (Finite 8)),
      (''gemma2.attention.head_count_kv'', GArray [Finite 4, Finite 4, Finite 2, Finite 2]),
      (''gemma2.attention.key_length'', GNumber (Finite 128)), (''gemma2.attention.value_length'', GNumber (Finite 64))]"

definition demo_geometry :: kv_geometry where
  "demo_geometry = \<lparr>kg_architecture = ''gemma2'', kg_blockCount = 4, kg_fullKvHeads = 6, kg_swaKvHeads = 6, kg_slidingWindow = Some 4096,
     kg_keyLength = 128, kg_valueLength = 64, kg_swaKeyLength = 128, kg_swaValueLength = 64, kg_q8Compatible = True,
     kg_recurrentBytesPerSlot = 0, kg_contextLength = None, kg_decisionType = None\<rparr>"

lemma demo_values_geometry: "kvGeometryFromMetadata demo_values = Some demo_geometry"
  by code_simp

lemma keep_demo: "keepKey ''general.architecture''" "keepKey ''gemma2.block_count''" "keepKey ''gemma2.attention.head_count''"
  "keepKey ''gemma2.attention.head_count_kv''" "keepKey ''gemma2.attention.key_length''" "keepKey ''gemma2.attention.value_length''"
  "\<not> keepKey ''tokenizer.ggml.tokens''"
  by code_simp+

lemma demo_header_reads: "readLlmKvGeometry ascii_text (header_bytes 3 2 demo_header) None = Some demo_geometry"
proof -
  have kept: "kept_entries ascii_text GEOMETRY_KEYS demo_header = demo_values"
    "sum_list (map (entry_work ascii_text GEOMETRY_KEYS) demo_header) \<le> MAX_PARSE_WORK"
    by (simp_all add: kept_entries_def keep_entry_def entry_key_def entry_work_def demo_header_def demo_values_def GEOMETRY_KEYS_def
        keep_demo written_scalar_def written_number_def MAX_KEPT_STRING_BYTES_def MAX_KEPT_ARRAY_ELEMENTS_def MAX_PARSE_WORK_def Let_def)
  have "readKeyValues ascii_text (header_bytes 3 2 demo_header @ []) None GEOMETRY_KEYS = Inr (kept_entries ascii_text GEOMETRY_KEYS demo_header)"
    by (rule readKeyValues_header)
      (use kept(2) in \<open>simp_all add: header_bytes_def entry_bytes_def string_bytes_def demo_header_def file_size_def
        scalar_bytes_def fixed_type_def fits_type_def MAX_SAFE_INTEGER_def MAX_KV_COUNT_def\<close>)
  then show ?thesis by (simp add: readLlmKvGeometry_def kept(1) demo_values_geometry)
qed

theorem gguf_geometry_well_formed_witness: "geometry_ok demo_geometry"
  using gguf_geometry_well_formed [OF demo_header_reads] by blast

text \<open>
  The value length is not checked against the limit on head lengths when it comes from the embedding
  length: a header can declare one far beyond it.
\<close>

lemma value_length_beyond_limit:
  "case kvGeometryFromMetadata
     [(''general.architecture'', GString ''llama''), (''llama.block_count'', GNumber (Finite 1)),
      (''llama.attention.head_count'', GNumber (Finite 1)), (''llama.embedding_length'', GNumber (Finite 2147483648)),
      (''llama.attention.key_length'', GNumber (Finite 128))] of
     None \<Rightarrow> False
   | Some g \<Rightarrow> kg_valueLength g = 2147483648 \<and> kg_valueLength g > MAX_HEAD_LENGTH"
  by code_simp

text \<open>
  An architecture named like an inherited property counts as a sliding-window architecture of
  period 0: every layer of such a model is taken for a sliding-window layer.
\<close>

lemma inherited_architecture_slides:
  "case kvGeometryFromMetadata
     [(''general.architecture'', GString ''constructor''), (''constructor.block_count'', GNumber (Finite 2)),
      (''constructor.attention.head_count'', GNumber (Finite 8)), (''constructor.attention.key_length'', GNumber (Finite 128)),
      (''constructor.attention.sliding_window'', GNumber (Finite 512))] of
     None \<Rightarrow> False
   | Some g \<Rightarrow> kg_fullKvHeads g = 0 \<and> kg_swaKvHeads g = 16"
  by code_simp

end
