(* ===== verification/Memory_Measurements.thy ===== *)
theory Memory_Measurements
  imports Model_Catalog Gguf_Geometry
begin

text \<open>
  The memory measured on reference hardware and its lookups,
  \<^verbatim>\<open>src/src/domains/runtime/memory-measurements.ts\<close>.  The date, hardware and method of a
  record, which no code reads, are left out; cache types are those of the launcher.
\<close>

datatype measurement_shape =
    LlmMeasured int int kv_cache_type kv_cache_type
  | SttMeasured
  | TtsMeasured int
  | ImageMeasured int int int bool
  | VideoMeasured int int int bool bool

record memory_measurement =
  mm_modelId :: string
  mm_variant :: string
  mm_shape :: measurement_shape
  mm_backendAcceleratorBytes :: bytes
  mm_hostBufferBytes :: bytes
  mm_peakRssBytes :: bytes
  mm_systemDeltaBytes :: "bytes option"

fun shape_kind :: "measurement_shape \<Rightarrow> model_kind" where
  "shape_kind (LlmMeasured c s k v) = LlmModel"
| "shape_kind SttMeasured = SttModel"
| "shape_kind (TtsMeasured c) = TtsModel"
| "shape_kind (ImageMeasured w h s f) = ImageModel"
| "shape_kind (VideoMeasured w h n o' f) = VideoModel"

definition mebibyte :: int where "mebibyte = 1024 * 1024"

definition math_round :: "rat \<Rightarrow> int" where
  "math_round x = floor (x + 1 / 2)"

definition mib :: "rat \<Rightarrow> bytes" where "mib v = math_round (v * of_int mebibyte)"
definition mb :: "rat \<Rightarrow> bytes" where "mb v = math_round (v * 1000000)"

definition llm_measurement :: "string \<Rightarrow> string \<Rightarrow> rat \<Rightarrow> rat \<Rightarrow> bytes \<Rightarrow> memory_measurement" where
  "llm_measurement modelId variant metalMib hostMib peakRssBytes =
     \<lparr>mm_modelId = modelId, mm_variant = variant, mm_shape = LlmMeasured 8192 1 Q8_0 Q8_0, mm_backendAcceleratorBytes = mib metalMib,
      mm_hostBufferBytes = mib hostMib, mm_peakRssBytes = peakRssBytes, mm_systemDeltaBytes = None\<rparr>"

definition MEMORY_MEASUREMENTS :: "memory_measurement list" where
  "MEMORY_MEASUREMENTS =
     [llm_measurement ''qwen3.5-0.8b-q4_k_m'' ''Q4_K_M'' (521 + 70 + 497) 211 827424768,
      llm_measurement ''qwen3.5-2b-q4_k_m'' ''Q4_K_M'' (1259 + 70 + 493) 414 1593032704,
      llm_measurement ''qwen3.5-4b-q4_k_m'' ''Q4_K_M'' (2740 + 186 + 495) 515 3320250368,
      llm_measurement ''qwen3.5-9b-q4_k_m'' ''Q4_K_M'' (5626 + 186 + 501) 569 6390480896,
      llm_measurement ''clef-flash-q4_k_m'' ''Q4_K_M'' (5630 + 1843 + 595 + 248) 1212 8551874560,
      llm_measurement ''qwen3.5-27b-q4_k_m'' ''Q4_K_M'' (16710 + 421 + 513) 710 19027968000,
      llm_measurement ''ministral-3-14b-instruct-q4_k_m'' ''Q4_K_M'' (7849 + 680 + 266) 388 7823081472,
      llm_measurement ''mistral-nemo-12b-instruct-q4_k_m'' ''Q4_K_M'' 8107 388 8069824512,
      llm_measurement ''gpt-oss-20b-q4_k_m'' ''Q4_K_M'' (11120 + 111 + 404) 399 10298408960,
      \<lparr>mm_modelId = ''whisper-tiny-en-q8_0'', mm_variant = ''Q8_0'', mm_shape = SttMeasured, mm_backendAcceleratorBytes = mb (2089 / 10),
       mm_hostBufferBytes = 0, mm_peakRssBytes = 169902080, mm_systemDeltaBytes = None\<rparr>,
      \<lparr>mm_modelId = ''whisper-large-v3-turbo'', mm_variant = ''F16'', mm_shape = SttMeasured, mm_backendAcceleratorBytes = mb (19418 / 10),
       mm_hostBufferBytes = 0, mm_peakRssBytes = 1900625920, mm_systemDeltaBytes = None\<rparr>,
      \<lparr>mm_modelId = ''qwen3-tts-1.7b-base-q4_k_m'', mm_variant = ''Q4_K_M'', mm_shape = TtsMeasured 2048,
       mm_backendAcceleratorBytes = mb (982 + 224 + 632 + 2 * 426 + 141 + 868),
       mm_hostBufferBytes = 0, mm_peakRssBytes = 4160536576, mm_systemDeltaBytes = None\<rparr>,
      \<lparr>mm_modelId = ''kokoro-82m-v1.0-q8'', mm_variant = ''model_quantized (q8)'', mm_shape = TtsMeasured 512, mm_backendAcceleratorBytes = 0,
       mm_hostBufferBytes = 0, mm_peakRssBytes = 1027719168, mm_systemDeltaBytes = None\<rparr>,
      \<lparr>mm_modelId = ''dreamshaper-v8'', mm_variant = ''safetensors F16'', mm_shape = ImageMeasured 512 512 20 True,
       mm_backendAcceleratorBytes = mib (2035 + 166406 / 100),
       mm_hostBufferBytes = 0, mm_peakRssBytes = 2988212224, mm_systemDeltaBytes = None\<rparr>,
      \<lparr>mm_modelId = ''flux2-klein-4b-q4_0'', mm_variant = ''Q4_0'', mm_shape = ImageMeasured 1024 1024 4 True,
       mm_backendAcceleratorBytes = mib (488275 / 100 + 6658),
       mm_hostBufferBytes = 0, mm_peakRssBytes = 5983240192, mm_systemDeltaBytes = None\<rparr>,
      \<lparr>mm_modelId = ''dreamshaper-8-lcm'', mm_variant = ''safetensors F16 (LCM)'', mm_shape = ImageMeasured 512 512 4 True,
       mm_backendAcceleratorBytes = mib (2035 + 166406 / 100),
       mm_hostBufferBytes = 0, mm_peakRssBytes = 3006021632, mm_systemDeltaBytes = None\<rparr>,
      \<lparr>mm_modelId = ''stable-diffusion-v1-5'', mm_variant = ''safetensors F16'', mm_shape = ImageMeasured 512 512 20 True,
       mm_backendAcceleratorBytes = mib (278445 / 100 + 166406 / 100),
       mm_hostBufferBytes = 0, mm_peakRssBytes = 4996431872, mm_systemDeltaBytes = None\<rparr>,
      \<lparr>mm_modelId = ''z-image-turbo-q4_0'', mm_variant = ''Q4_0 + Qwen3-4B-Instruct Q4_K_M'', mm_shape = ImageMeasured 1024 1024 8 True,
       mm_backendAcceleratorBytes = mib (604862 / 100 + 6657),
       mm_hostBufferBytes = 0, mm_peakRssBytes = 7087439872, mm_systemDeltaBytes = None\<rparr>,
      \<lparr>mm_modelId = ''flux1-schnell-q4_0'', mm_variant = ''Q4_0 + CLIP-L + T5-XXL F16'', mm_shape = ImageMeasured 1024 1024 4 True,
       mm_backendAcceleratorBytes = mib (672562 / 100 + 6657),
       mm_hostBufferBytes = mib (931883 / 100 + 6825 / 100 + 142 / 100), mm_peakRssBytes = 18007343104, mm_systemDeltaBytes = Some 25991561216\<rparr>,
      \<lparr>mm_modelId = ''flux2-klein-4b-q8_0'', mm_variant = ''Q8_0 + Qwen3-4B Q4_K_M'', mm_shape = ImageMeasured 1024 1024 4 True,
       mm_backendAcceleratorBytes = mib (663775 / 100 + 6658),
       mm_hostBufferBytes = 0, mm_peakRssBytes = 8412053504, mm_systemDeltaBytes = None\<rparr>,
      \<lparr>mm_modelId = ''realvis-xl-v5.0'', mm_variant = ''safetensors F16'', mm_shape = ImageMeasured 1024 1024 20 True,
       mm_backendAcceleratorBytes = mib (662411 / 100 + 768025 / 100),
       mm_hostBufferBytes = 0, mm_peakRssBytes = 7805108224, mm_systemDeltaBytes = None\<rparr>,
      \<lparr>mm_modelId = ''sdxl-turbo'', mm_variant = ''safetensors F16'', mm_shape = ImageMeasured 1024 1024 20 True,
       mm_backendAcceleratorBytes = mib (662411 / 100 + 768025 / 100),
       mm_hostBufferBytes = 0, mm_peakRssBytes = 8064352256, mm_systemDeltaBytes = None\<rparr>,
      \<lparr>mm_modelId = ''juggernaut-xl-v9'', mm_variant = ''safetensors F16'', mm_shape = ImageMeasured 1024 1024 20 True,
       mm_backendAcceleratorBytes = mib (662411 / 100 + 768025 / 100),
       mm_hostBufferBytes = 0, mm_peakRssBytes = 7788806144, mm_systemDeltaBytes = None\<rparr>,
      \<lparr>mm_modelId = ''fastwan2.2-ti2v-5b-q6_k'', mm_variant = ''Q6_K + umt5-xxl Q8_0 + TAEHV'', mm_shape = VideoMeasured 480 832 81 True True,
       mm_backendAcceleratorBytes = mib (575705 / 100 + 297),
       mm_hostBufferBytes = mib (979596 / 100), mm_peakRssBytes = 13746454528, mm_systemDeltaBytes = Some 15058550784\<rparr>,
      \<lparr>mm_modelId = ''wan2.1-t2v-1.3b-q8_0'', mm_variant = ''Q8_0 + umt5-xxl Q8_0 + Wan2.1 VAE'', mm_shape = VideoMeasured 320 320 33 True True,
       mm_backendAcceleratorBytes = mib (575705 / 100 + 297),
       mm_hostBufferBytes = mib (746353 / 100), mm_peakRssBytes = 12147949568, mm_systemDeltaBytes = Some 8220786688\<rparr>]"

section \<open>Lookups\<close>

definition byModel :: "model_kind \<Rightarrow> string \<Rightarrow> memory_measurement option" where
  "byModel kind modelId = find (\<lambda>r. shape_kind (mm_shape r) = kind \<and> mm_modelId r = modelId) MEMORY_MEASUREMENTS"

text \<open>The record of a model when it was measured in a wanted shape; an empty id is no model.\<close>

definition in_shape :: "(measurement_shape \<Rightarrow> bool) \<Rightarrow> memory_measurement option \<Rightarrow> memory_measurement option" where
  "in_shape ok record = (case record of Some r \<Rightarrow> if ok (mm_shape r) then Some r else None | None \<Rightarrow> None)"

definition findLlmMeasurement :: "string option \<Rightarrow> int \<Rightarrow> int \<Rightarrow> kv_cache_type \<Rightarrow> kv_cache_type \<Rightarrow> memory_measurement option" where
  "findLlmMeasurement modelId ctxTokens slots cacheTypeK cacheTypeV =
     (case modelId of
        None \<Rightarrow> None
      | Some i \<Rightarrow> if i = [] then None
          else in_shape (\<lambda>s. s = LlmMeasured ctxTokens slots cacheTypeK cacheTypeV) (byModel LlmModel i))"

definition findModelMeasurement :: "model_kind \<Rightarrow> string \<Rightarrow> memory_measurement option" where
  "findModelMeasurement kind modelId = (if modelId = [] then None else byModel kind modelId)"

definition findImageMeasurement :: "string \<Rightarrow> bool \<Rightarrow> memory_measurement option" where
  "findImageMeasurement modelId diffusionFlashAttention =
     (if modelId = [] then None
      else in_shape (\<lambda>s. case s of ImageMeasured w h n flash \<Rightarrow> flash = diffusionFlashAttention | _ \<Rightarrow> False) (byModel ImageModel modelId))"

definition findVideoMeasurement :: "string \<Rightarrow> int \<Rightarrow> int \<Rightarrow> int \<Rightarrow> bool \<Rightarrow> bool \<Rightarrow> memory_measurement option" where
  "findVideoMeasurement modelId width height frames cpuOffload diffusionFlashAttention =
     (if modelId = [] then None
      else in_shape (\<lambda>s. s = VideoMeasured width height frames cpuOffload diffusionFlashAttention) (byModel VideoModel modelId))"

section \<open>The records\<close>

definition measurement_ok :: "memory_measurement \<Rightarrow> bool" where
  "measurement_ok r \<longleftrightarrow> 0 \<le> mm_backendAcceleratorBytes r \<and> 0 \<le> mm_hostBufferBytes r \<and> 0 < mm_peakRssBytes r \<and>
     0 \<le> (case mm_systemDeltaBytes r of Some d \<Rightarrow> d | None \<Rightarrow> 0) \<and> mm_modelId r \<noteq> []"

lemma measurements_ok: "list_all measurement_ok MEMORY_MEASUREMENTS"
  by code_simp

text \<open>No two records have the same kind and model, so the first one found is the only one.\<close>

lemma measurements_distinct: "distinct (map (\<lambda>r. (shape_kind (mm_shape r), mm_modelId r)) MEMORY_MEASUREMENTS)"
  by code_simp

lemma byModel_mem: "byModel k i = Some r \<longleftrightarrow> r \<in> set MEMORY_MEASUREMENTS \<and> shape_kind (mm_shape r) = k \<and> mm_modelId r = i"
proof -
  have "find (\<lambda>r. f r = y) xs = Some r \<longleftrightarrow> r \<in> set xs \<and> f r = y" if "distinct (map f xs)"
    for f :: "memory_measurement \<Rightarrow> model_kind \<times> string" and y xs
    using that by (induction xs) (auto simp: image_iff)
  from this [OF measurements_distinct, of "(k, i)"] show ?thesis by (simp add: byModel_def)
qed

lemma byModel_ok: "byModel k i = Some r \<Longrightarrow> measurement_ok r"
  using measurements_ok by (auto simp: byModel_mem list_all_iff)

end
