(* ===== verification/Memory_Safety.thy ===== *)
theory Memory_Safety
  imports Prelude "HOL-Library.Sublist"
begin

text \<open>
  The host-memory policy, \<^verbatim>\<open>src/src/domains/runtime/memory-safety.ts\<close>: reserves, pressure,
  the admission decision and the pressure hysteresis.  Byte counts are exact integers and the
  configured percentages and gibibytes exact rationals; the rounding of IEEE doubles above
  \<open>2^53\<close> is not modelled.  A \<open>throw\<close> is the left injection of a sum.
\<close>

section \<open>Configuration, topology and samples\<close>

definition gibibyte :: int where
  "gibibyte = 1024 ^ 3"

record memory_reserve =
  percent :: rat
  minimumGb :: rat

record memory_config =
  systemReserve :: memory_reserve
  acceleratorReserve :: memory_reserve

definition reserve_valid :: "memory_reserve \<Rightarrow> bool" where
  "reserve_valid r \<longleftrightarrow> 0 \<le> percent r \<and> percent r \<le> 100 \<and> 0 \<le> minimumGb r"

definition config_valid :: "memory_config \<Rightarrow> bool" where
  "config_valid c \<longleftrightarrow> reserve_valid (systemReserve c) \<and> reserve_valid (acceleratorReserve c)"

record memory_pool =
  pool_id :: string
  capacityBytes :: bytes

datatype memory_topology =
    Unified (topo_system: memory_pool) "bytes option"
  | Discrete (topo_system: memory_pool) "memory_pool list"

definition GPU_WORKING_SET_POOL_ID :: string where
  "GPU_WORKING_SET_POOL_ID = ''gpu-working-set''"

datatype demand_confidence = Authoritative | Derived | Estimated | Measured | Feed | Observed

record memory_demand =
  unifiedBytes :: bytes
  hostBytes :: bytes
  acceleratorBytes :: bytes
  demand_confidence :: demand_confidence

definition exceedsGpuWorkingSet :: "memory_topology \<Rightarrow> memory_demand \<Rightarrow> bool" where
  "exceedsGpuWorkingSet t d =
     (case t of Unified _ (Some cap) \<Rightarrow> cap > 0 \<and> acceleratorBytes d > cap | _ \<Rightarrow> False)"

datatype memory_pressure = Normal | Constrained | Critical | Unknown

datatype pool_snapshot =
    Available (snap_id: string) bytes memory_pressure
  | Unavailable (snap_id: string)

record memory_snapshot =
  capturedAtMs :: ms
  snap_pools :: "pool_snapshot list"

record projected_demand =
  pd_poolId :: string
  pd_bytes :: bytes

datatype rejection_reason =
  SystemMemory | AcceleratorMemory | MemoryPressureReason | MeasurementUnavailable

datatype admission_decision =
    Admitted "projected_demand list" "projected_demand list"
  | RejectedAdmission rejection_reason string

datatype safety_state = Healthy | ConstrainedState | CriticalState

record hysteresis =
  hy_state :: safety_state
  hy_normal :: nat

datatype safety_action = Allow | Constrain | EmergencyStop

record safety_transition =
  tr_previous :: hysteresis
  tr_current :: hysteresis
  tr_action :: safety_action

datatype memory_fault = AcceleratorPoolRequired | UnknownPool string

definition memorySafetyRecoverySamples :: nat where
  "memorySafetyRecoverySamples = 3"

definition memorySafetyWarningReserveMultiplier :: rat where
  "memorySafetyWarningReserveMultiplier = 5 / 4"

definition defaultMemorySafetyConfig :: memory_config where
  "defaultMemorySafetyConfig =
     \<lparr>systemReserve = \<lparr>percent = 15, minimumGb = 8\<rparr>,
      acceleratorReserve = \<lparr>percent = 10, minimumGb = 2\<rparr>\<rparr>"

section \<open>Reserves and projected demand\<close>

definition effectiveMemoryReserveBytes :: "memory_reserve \<Rightarrow> bytes \<Rightarrow> bytes" where
  "effectiveMemoryReserveBytes r capacity =
     max \<lceil>minimumGb r * of_int gibibyte\<rceil> \<lfloor>of_int capacity * percent r / 100\<rfloor>"

definition find_pool :: "string \<Rightarrow> memory_pool list \<Rightarrow> memory_pool option" where
  "find_pool i ps = find (\<lambda>p. pool_id p = i) ps"

definition acceleratorPool :: "memory_pool list \<Rightarrow> string option \<Rightarrow> memory_fault + memory_pool" where
  "acceleratorPool accelerators poolId =
     (case (case poolId of None \<Rightarrow> None | Some i \<Rightarrow> find_pool i accelerators) of
        None \<Rightarrow> Inl AcceleratorPoolRequired | Some p \<Rightarrow> Inr p)"

definition projectRuntimeMemoryDemand ::
  "memory_topology \<Rightarrow> memory_demand \<Rightarrow> string option \<Rightarrow> memory_fault + projected_demand list" where
  "projectRuntimeMemoryDemand t d acceleratorPoolId =
     (case t of
        Unified sys _ \<Rightarrow> Inr [\<lparr>pd_poolId = pool_id sys, pd_bytes = unifiedBytes d\<rparr>]
      | Discrete sys accelerators \<Rightarrow>
          (let projected = [\<lparr>pd_poolId = pool_id sys, pd_bytes = hostBytes d\<rparr>]
           in if acceleratorBytes d > 0
              then (case acceleratorPool accelerators acceleratorPoolId of
                      Inl e \<Rightarrow> Inl e
                    | Inr pool \<Rightarrow>
                        Inr (projected @ [\<lparr>pd_poolId = pool_id pool, pd_bytes = acceleratorBytes d\<rparr>]))
              else Inr projected))"

definition poolForId :: "memory_topology \<Rightarrow> string \<Rightarrow> memory_fault + memory_pool" where
  "poolForId t poolId =
     (if pool_id (topo_system t) = poolId then Inr (topo_system t)
      else case t of
          Unified _ _ \<Rightarrow> Inl (UnknownPool poolId)
        | Discrete _ accelerators \<Rightarrow>
            (case find_pool poolId accelerators of
               None \<Rightarrow> Inl (UnknownPool poolId) | Some p \<Rightarrow> Inr p))"

definition reserveForPool :: "memory_topology \<Rightarrow> memory_config \<Rightarrow> memory_pool \<Rightarrow> bytes" where
  "reserveForPool t c pool =
     effectiveMemoryReserveBytes
       (if pool_id pool = pool_id (topo_system t) then systemReserve c else acceleratorReserve c)
       (capacityBytes pool)"

section \<open>Pressure\<close>

fun pressureRank :: "memory_pressure \<Rightarrow> int" where
  "pressureRank Critical = 2"
| "pressureRank Constrained = 1"
| "pressureRank Normal = 0"
| "pressureRank Unknown = - 1"

text \<open>Pressures are compared by rank.\<close>

instantiation memory_pressure :: linorder
begin

definition less_eq_memory_pressure :: "memory_pressure \<Rightarrow> memory_pressure \<Rightarrow> bool" where
  "less_eq_memory_pressure p q \<longleftrightarrow> pressureRank p \<le> pressureRank q"

definition less_memory_pressure :: "memory_pressure \<Rightarrow> memory_pressure \<Rightarrow> bool" where
  "less_memory_pressure p q \<longleftrightarrow> pressureRank p < pressureRank q"

instance
proof
  fix p q :: memory_pressure
  show "p \<le> q \<Longrightarrow> q \<le> p \<Longrightarrow> p = q"
    by (cases p; cases q) (simp_all add: less_eq_memory_pressure_def)
qed (auto simp: less_eq_memory_pressure_def less_memory_pressure_def)

end

definition pressureForPool ::
  "memory_topology \<Rightarrow> memory_config \<Rightarrow> memory_pool \<Rightarrow> bytes \<Rightarrow> memory_pressure \<Rightarrow> memory_pressure" where
  "pressureForPool t c pool availableBytes pressure =
     (if pressure = Critical \<or> pressure = Constrained then pressure
      else
        let reserve = reserveForPool t c pool
        in if availableBytes < reserve then Critical
           else if of_int availableBytes < of_int reserve * memorySafetyWarningReserveMultiplier
             then Constrained
           else Normal)"

definition snapshot_map :: "memory_snapshot \<Rightarrow> (string, pool_snapshot) js_map" where
  "snapshot_map s = js_map_of (map (\<lambda>p. (snap_id p, p)) (snap_pools s))"

text \<open>A usable sample: present, available and of known pressure.\<close>

definition usable_sample :: "memory_snapshot \<Rightarrow> string \<Rightarrow> (bytes \<times> memory_pressure) option" where
  "usable_sample s poolId =
     (case js_get (snapshot_map s) poolId of
        Some (Available _ b p) \<Rightarrow> if p = Unknown then None else Some (b, p)
      | _ \<Rightarrow> None)"

fun worst_accelerator ::
  "memory_topology \<Rightarrow> memory_snapshot \<Rightarrow> memory_config \<Rightarrow> memory_pool list \<Rightarrow>
   string \<times> memory_pressure \<Rightarrow> string \<times> memory_pressure" where
  "worst_accelerator t s c [] result = result"
| "worst_accelerator t s c (pool # pools) result =
     (case usable_sample s (pool_id pool) of
        None \<Rightarrow> worst_accelerator t s c pools result
      | Some (b, p) \<Rightarrow>
          (let pressure = pressureForPool t c pool b p
           in worst_accelerator t s c pools
                (if pressureRank pressure > pressureRank (snd result)
                 then (pool_id pool, pressure) else result)))"

definition observeMemoryPressure ::
  "memory_topology \<Rightarrow> memory_snapshot \<Rightarrow> memory_config \<Rightarrow> string \<times> memory_pressure" where
  "observeMemoryPressure t s c =
     (let sys = topo_system t
      in case usable_sample s (pool_id sys) of
           None \<Rightarrow> (pool_id sys, Unknown)
         | Some (b, p) \<Rightarrow>
             (let result = (pool_id sys, pressureForPool t c sys b p)
              in case t of
                   Unified _ _ \<Rightarrow> result
                 | Discrete _ accelerators \<Rightarrow> worst_accelerator t s c accelerators result))"

section \<open>The admission decision\<close>

fun reject_demand ::
  "memory_topology \<Rightarrow> memory_snapshot \<Rightarrow> memory_config \<Rightarrow> projected_demand list \<Rightarrow>
   memory_fault + admission_decision option" where
  "reject_demand t s c [] = Inr None"
| "reject_demand t s c (d # ds) =
     (case poolForId t (pd_poolId d) of
        Inl e \<Rightarrow> Inl e
      | Inr pool \<Rightarrow>
          (case usable_sample s (pool_id pool) of
             None \<Rightarrow> Inr (Some (RejectedAdmission MeasurementUnavailable (pool_id pool)))
           | Some (b, p) \<Rightarrow>
               if p \<noteq> Normal
                 then Inr (Some (RejectedAdmission MemoryPressureReason (pool_id pool)))
               else if b - pd_bytes d < reserveForPool t c pool
                 then Inr (Some (RejectedAdmission
                        (if pool_id pool = pool_id (topo_system t) then SystemMemory else AcceleratorMemory)
                        (pool_id pool)))
               else reject_demand t s c ds))"

text \<open>The headroom of a demand; the loop above has found its pool and sample.\<close>

definition headroom :: "memory_topology \<Rightarrow> memory_snapshot \<Rightarrow> memory_config \<Rightarrow> projected_demand \<Rightarrow> projected_demand" where
  "headroom t s c d =
     (case poolForId t (pd_poolId d) of
        Inl _ \<Rightarrow> d
      | Inr pool \<Rightarrow>
          (case usable_sample s (pool_id pool) of
             None \<Rightarrow> d
           | Some (b, p) \<Rightarrow>
               \<lparr>pd_poolId = pool_id pool, pd_bytes = b - pd_bytes d - reserveForPool t c pool\<rparr>))"

definition evaluateMemoryAdmission ::
  "memory_topology \<Rightarrow> memory_snapshot \<Rightarrow> memory_config \<Rightarrow> memory_demand \<Rightarrow> string option \<Rightarrow>
   memory_fault + admission_decision" where
  "evaluateMemoryAdmission t s c d acceleratorPoolId =
     (if exceedsGpuWorkingSet t d
      then Inr (RejectedAdmission AcceleratorMemory GPU_WORKING_SET_POOL_ID)
      else case projectRuntimeMemoryDemand t d acceleratorPoolId of
        Inl e \<Rightarrow> Inl e
      | Inr projected \<Rightarrow>
          (case reject_demand t s c projected of
             Inl e \<Rightarrow> Inl e
           | Inr (Some r) \<Rightarrow> Inr r
           | Inr None \<Rightarrow> Inr (Admitted projected (map (headroom t s c) projected))))"

section \<open>Hysteresis\<close>

fun actionForState :: "safety_state \<Rightarrow> safety_action" where
  "actionForState Healthy = Allow"
| "actionForState ConstrainedState = Constrain"
| "actionForState CriticalState = EmergencyStop"

definition transitionMemorySafetyState :: "hysteresis \<Rightarrow> memory_pressure \<Rightarrow> safety_transition" where
  "transitionMemorySafetyState previous observed =
     (case observed of
        Unknown \<Rightarrow>
          \<lparr>tr_previous = previous,
           tr_current = \<lparr>hy_state = hy_state previous, hy_normal = 0\<rparr>,
           tr_action = actionForState (hy_state previous)\<rparr>
      | Critical \<Rightarrow>
          \<lparr>tr_previous = previous,
           tr_current = \<lparr>hy_state = CriticalState, hy_normal = 0\<rparr>,
           tr_action = EmergencyStop\<rparr>
      | Constrained \<Rightarrow>
          (let state = (if hy_state previous = CriticalState then CriticalState else ConstrainedState)
           in \<lparr>tr_previous = previous,
               tr_current = \<lparr>hy_state = state, hy_normal = 0\<rparr>,
               tr_action = actionForState state\<rparr>)
      | Normal \<Rightarrow>
          if hy_state previous = Healthy
          then \<lparr>tr_previous = previous,
                tr_current = \<lparr>hy_state = Healthy, hy_normal = 0\<rparr>,
                tr_action = Allow\<rparr>
          else
            let normalSnapshots = hy_normal previous + 1
            in if normalSnapshots < memorySafetyRecoverySamples
               then \<lparr>tr_previous = previous,
                     tr_current = \<lparr>hy_state = hy_state previous, hy_normal = normalSnapshots\<rparr>,
                     tr_action = actionForState (hy_state previous)\<rparr>
               else \<lparr>tr_previous = previous,
                     tr_current = \<lparr>hy_state = Healthy, hy_normal = 0\<rparr>,
                     tr_action = Allow\<rparr>)"

definition healthy :: hysteresis where
  "healthy = \<lparr>hy_state = Healthy, hy_normal = 0\<rparr>"

definition observe_all :: "memory_pressure list \<Rightarrow> hysteresis \<Rightarrow> hysteresis" where
  "observe_all ps h = fold (\<lambda>p h. tr_current (transitionMemorySafetyState h p)) ps h"

section \<open>What an admission guarantees\<close>

text \<open>The reference: a demand fits its pool when a normal sample keeps the reserve free.\<close>

definition fits :: "memory_topology \<Rightarrow> memory_snapshot \<Rightarrow> memory_config \<Rightarrow> projected_demand \<Rightarrow> bool" where
  "fits t s c d \<longleftrightarrow> (\<exists>pool b. poolForId t (pd_poolId d) = Inr pool \<and>
     usable_sample s (pool_id pool) = Some (b, Normal) \<and> reserveForPool t c pool \<le> b - pd_bytes d)"

lemma reject_demand_None: "reject_demand t s c ds = Inr None \<longleftrightarrow> (\<forall>d \<in> set ds. fits t s c d)"
  by (induction ds) (auto simp: fits_def split: sum.splits option.splits)

lemma usable_not_Unknown: "usable_sample s i = Some (b, p) \<Longrightarrow> p \<noteq> Unknown"
  by (auto simp: usable_sample_def split: option.splits pool_snapshot.splits if_splits)

lemma headroom_nonneg: "fits t s c d \<Longrightarrow> 0 \<le> pd_bytes (headroom t s c d)"
  by (auto simp: fits_def headroom_def)

lemma reject_demand_rejected:
  "reject_demand t s c ds = Inr (Some r) \<Longrightarrow> \<exists>reason poolId. r = RejectedAdmission reason poolId"
  by (induction ds) (auto split: sum.splits option.splits if_splits)

lemma evaluate_admitted:
  "evaluateMemoryAdmission t s c d acc = Inr (Admitted ds hs) \<longleftrightarrow>
     \<not> exceedsGpuWorkingSet t d \<and> projectRuntimeMemoryDemand t d acc = Inr ds \<and>
     (\<forall>d \<in> set ds. fits t s c d) \<and> hs = map (headroom t s c) ds"
proof -
  have "reject_demand t s c ds \<noteq> Inr (Some (Admitted ds' hs'))" for ds ds' hs'
    using reject_demand_rejected by fastforce
  then show ?thesis
    by (auto simp: evaluateMemoryAdmission_def reject_demand_None [symmetric] split: sum.splits option.splits)
qed

text \<open>A demand that is smaller in every count is admitted where the larger one is.\<close>

definition demand_le :: "memory_demand \<Rightarrow> memory_demand \<Rightarrow> bool" where
  "demand_le d d' \<longleftrightarrow> unifiedBytes d \<le> unifiedBytes d' \<and> hostBytes d \<le> hostBytes d' \<and> acceleratorBytes d \<le> acceleratorBytes d'"

lemma fits_antimono: "fits t s c d \<Longrightarrow> pd_poolId d' = pd_poolId d \<Longrightarrow> pd_bytes d' \<le> pd_bytes d \<Longrightarrow> fits t s c d'"
  by (fastforce simp: fits_def)

lemma admitted_antimono:
  assumes "evaluateMemoryAdmission t s c d' acc = Inr (Admitted ds' hs')" "demand_le d d'"
  shows "\<exists>ds hs. evaluateMemoryAdmission t s c d acc = Inr (Admitted ds hs)"
proof -
  from assms(1) have big: "\<not> exceedsGpuWorkingSet t d'" "projectRuntimeMemoryDemand t d' acc = Inr ds'" "\<forall>x \<in> set ds'. fits t s c x"
    by (simp_all add: evaluate_admitted)
  have cap: "\<not> exceedsGpuWorkingSet t d"
    using big(1) assms(2) by (auto simp: exceedsGpuWorkingSet_def demand_le_def split: memory_topology.splits option.splits)
  have "\<exists>ds. projectRuntimeMemoryDemand t d acc = Inr ds \<and> (\<forall>x \<in> set ds. fits t s c x)"
  proof (cases t)
    case (Unified sys cap)
    then show ?thesis
      using big(2,3) assms(2) fits_antimono by (fastforce simp: projectRuntimeMemoryDemand_def demand_le_def)
  next
    case (Discrete sys accelerators)
    then show ?thesis
      using big(2,3) assms(2) fits_antimono
      by (fastforce simp: projectRuntimeMemoryDemand_def demand_le_def Let_def split: if_splits sum.splits)
  qed
  then show ?thesis using cap by (auto simp: evaluate_admitted)
qed

section \<open>Pressure lemmas\<close>

lemma pressureForPool_known [simp]: "p \<noteq> Unknown \<Longrightarrow> pressureForPool t c pool b p \<noteq> Unknown"
  by (auto simp: pressureForPool_def Let_def)

lemma pressureForPool_antimono:
  assumes "b \<le> b'"
  shows "pressureForPool t c pool b' p \<le> pressureForPool t c pool b p"
  using assms
  by (cases p) (auto simp: pressureForPool_def Let_def less_eq_memory_pressure_def
      dest: less_le_trans [of "of_int _ :: rat"])

definition usable_pressure ::
  "memory_topology \<Rightarrow> memory_snapshot \<Rightarrow> memory_config \<Rightarrow> memory_pool \<Rightarrow> memory_pressure option" where
  "usable_pressure t s c pool =
     map_option (\<lambda>(b, p). pressureForPool t c pool b p) (usable_sample s (pool_id pool))"

lemma worst_accelerator_max:
  "snd (worst_accelerator t s c pools r) =
     fold max (List.map_filter (usable_pressure t s c) pools) (snd r)"
proof (induction pools arbitrary: r)
  case (Cons pool pools)
  have less: "p < q \<longleftrightarrow> pressureRank p < pressureRank q" for p q
    by (simp add: less_memory_pressure_def)
  show ?case
    by (auto simp: Cons.IH usable_pressure_def List.map_filter_def max_def Let_def less [symmetric]
        split: option.split)
qed (simp add: List.map_filter_def)

fun accelerator_pools :: "memory_topology \<Rightarrow> memory_pool list" where
  "accelerator_pools (Unified sys cap) = []"
| "accelerator_pools (Discrete sys accelerators) = accelerators"

lemma fold_max_Max: "fold max xs (x :: 'a :: linorder) = Max (insert x (set xs))"
proof (induction xs arbitrary: x)
  case (Cons y xs)
  then show ?case by (cases "xs = []") (simp_all add: ac_simps max.commute)
qed simp

lemma observe_worst:
  "snd (observeMemoryPressure t s c) =
     (case usable_pressure t s c (topo_system t) of
        None \<Rightarrow> Unknown
      | Some p \<Rightarrow> Max (insert p (set (List.map_filter (usable_pressure t s c) (accelerator_pools t)))))"
  by (cases t) (auto simp: observeMemoryPressure_def usable_pressure_def Let_def worst_accelerator_max
      fold_max_Max List.map_filter_simps split: option.split)

section \<open>Hysteresis lemmas\<close>

lemma observe_all_Cons [simp]:
  "observe_all [] h = h"
  "observe_all (p # ps) h = observe_all ps (tr_current (transitionMemorySafetyState h p))"
  by (simp_all add: observe_all_def)

lemma observe_all_append [simp]: "observe_all (ps @ qs) h = observe_all qs (observe_all ps h)"
  by (simp add: observe_all_def)

lemma transition_cases [simp]:
  "tr_current (transitionMemorySafetyState h Unknown) = \<lparr>hy_state = hy_state h, hy_normal = 0\<rparr>"
  "tr_current (transitionMemorySafetyState h Critical) = \<lparr>hy_state = CriticalState, hy_normal = 0\<rparr>"
  "tr_current (transitionMemorySafetyState h Constrained) =
     \<lparr>hy_state = (if hy_state h = CriticalState then CriticalState else ConstrainedState), hy_normal = 0\<rparr>"
  "tr_current (transitionMemorySafetyState h Normal) =
     (if hy_state h = Healthy \<or> 2 \<le> hy_normal h then \<lparr>hy_state = Healthy, hy_normal = 0\<rparr>
      else \<lparr>hy_state = hy_state h, hy_normal = Suc (hy_normal h)\<rparr>)"
  by (auto simp: transitionMemorySafetyState_def Let_def memorySafetyRecoverySamples_def)

lemma not_critical_stays:
  "Critical \<notin> set ps \<Longrightarrow> hy_state h \<noteq> CriticalState \<Longrightarrow> hy_state (observe_all ps h) \<noteq> CriticalState"
proof (induction ps arbitrary: h)
  case (Cons p ps)
  then show ?case by (cases p) auto
qed simp

abbreviation three_normals :: "memory_pressure list" where
  "three_normals \<equiv> [Normal, Normal, Normal]"

lemma critical_latch:
  "Critical \<notin> set ps \<Longrightarrow> n < 3 \<Longrightarrow>
     hy_state (observe_all ps \<lparr>hy_state = CriticalState, hy_normal = n\<rparr>) = CriticalState \<longleftrightarrow>
     \<not> sublist three_normals (replicate n Normal @ ps)"
proof (induction ps arbitrary: n)
  case Nil
  then show ?case by (auto simp: numeral_3_eq_3 less_Suc_eq sublist_Cons_right)
next
  case (Cons p ps)
  have n: "n = 0 \<or> n = 1 \<or> n = 2" using Cons.prems(2) by auto
  have cr: "Critical \<notin> set ps" using Cons.prems(1) by simp
  show ?case
  proof (cases "p = Normal")
    case True
    show ?thesis
    proof (cases "n = 2")
      case True
      with \<open>p = Normal\<close> show ?thesis
        using not_critical_stays [OF cr] by (simp add: numeral_2_eq_2 sublist_Cons_right)
    next
      case False
      then have "Suc n < 3" using n by auto
      from Cons.IH [OF cr this] \<open>p = Normal\<close> False n show ?thesis
        by (auto simp: replicate_append_same [symmetric])
    qed
  next
    case False
    have "sublist three_normals (replicate n Normal @ p # ps) \<longleftrightarrow> sublist three_normals ps"
      using n False by (auto simp: numeral_2_eq_2 sublist_Cons_right)
    moreover have "tr_current (transitionMemorySafetyState \<lparr>hy_state = CriticalState, hy_normal = n\<rparr> p) =
        \<lparr>hy_state = CriticalState, hy_normal = 0\<rparr>"
      using False Cons.prems by (cases p) auto
    ultimately show ?thesis using Cons.IH [OF cr, of 0] by simp
  qed
qed

section \<open>Properties\<close>

text \<open>
  C28: admission is exactly "fits with the reserve".  A demand is admitted if and only if it
  respects the GPU working-set cap, projects onto pools, and every projected pool has a usable,
  normal sample whose bytes less the demand cover the reserve; every reported headroom is then
  non-negative.
\<close>

theorem admission_keeps_reserve:
  "((\<exists>hs. evaluateMemoryAdmission t s c d acc = Inr (Admitted ds hs)) \<longleftrightarrow>
      \<not> exceedsGpuWorkingSet t d \<and> projectRuntimeMemoryDemand t d acc = Inr ds \<and>
      list_all (fits t s c) ds) \<and>
   (\<forall>hs. evaluateMemoryAdmission t s c d acc = Inr (Admitted ds hs) \<longrightarrow> list_all (\<lambda>h. 0 \<le> pd_bytes h) hs)"
  by (auto simp: evaluate_admitted list_all_iff headroom_nonneg)

text \<open>A 32 GiB unified host with 20 GiB available.\<close>

definition demo_topology :: memory_topology where
  "demo_topology = Unified \<lparr>pool_id = ''system'', capacityBytes = 32 * gibibyte\<rparr> (Some (24 * gibibyte))"

definition demo_snapshot :: "bytes \<Rightarrow> memory_snapshot" where
  "demo_snapshot b = \<lparr>capturedAtMs = 0, snap_pools = [Available ''system'' b Normal]\<rparr>"

definition demo_demand :: "bytes \<Rightarrow> memory_demand" where
  "demo_demand b = \<lparr>unifiedBytes = b, hostBytes = 0, acceleratorBytes = b, demand_confidence = Derived\<rparr>"

lemmas memory_eval =
  demo_topology_def demo_snapshot_def demo_demand_def defaultMemorySafetyConfig_def gibibyte_def
  exceedsGpuWorkingSet_def projectRuntimeMemoryDemand_def usable_sample_def snapshot_map_def js_map_of_def
  js_get_def poolForId_def reserveForPool_def effectiveMemoryReserveBytes_def pressureForPool_def
  memorySafetyWarningReserveMultiplier_def Let_def

theorem admission_keeps_reserve_witness:
  "\<exists>hs. evaluateMemoryAdmission demo_topology (demo_snapshot (20 * gibibyte)) defaultMemorySafetyConfig
       (demo_demand (8 * gibibyte)) None = Inr (Admitted [\<lparr>pd_poolId = ''system'', pd_bytes = 8 * gibibyte\<rparr>] hs) \<and>
     list_all (\<lambda>h. 0 \<le> pd_bytes h) hs"
  using admission_keeps_reserve [of demo_topology "demo_snapshot (20 * gibibyte)" defaultMemorySafetyConfig
      "demo_demand (8 * gibibyte)" None "[\<lparr>pd_poolId = ''system'', pd_bytes = 8 * gibibyte\<rparr>]"]
  by (auto simp: fits_def memory_eval)

text \<open>
  more free memory never looks worse.  The pressure read from a pool is antitone in the
  available bytes.
\<close>

theorem pressure_antitone:
  assumes "b \<le> b'"
  shows "pressureForPool t c pool b' p \<le> pressureForPool t c pool b p"
  using assms by (rule pressureForPool_antimono)

theorem pressure_antitone_witness:
  "pressureForPool demo_topology defaultMemorySafetyConfig (topo_system demo_topology) (20 * gibibyte) Normal
   \<le> pressureForPool demo_topology defaultMemorySafetyConfig (topo_system demo_topology) (9 * gibibyte) Normal \<and>
   pressureForPool demo_topology defaultMemorySafetyConfig (topo_system demo_topology) (9 * gibibyte) Normal = Constrained"
proof
  show "pressureForPool demo_topology defaultMemorySafetyConfig (topo_system demo_topology) (20 * gibibyte) Normal
      \<le> pressureForPool demo_topology defaultMemorySafetyConfig (topo_system demo_topology) (9 * gibibyte) Normal"
    by (rule pressure_antitone) (simp add: gibibyte_def)
qed (simp add: memory_eval)

text \<open>
  the observation is the worst pool.  With a usable system sample the observed pressure is
  the maximum over the system pool and every accelerator with a usable sample; without one it is
  unknown.
\<close>

theorem observation_is_worst_pool:
  "snd (observeMemoryPressure t s c) =
     (case usable_pressure t s c (topo_system t) of
        None \<Rightarrow> Unknown
      | Some p \<Rightarrow> Max (insert p (set (List.map_filter (usable_pressure t s c) (accelerator_pools t)))))"
  by (rule observe_worst)

text \<open>
  an emergency latches.  After a critical observation, and with no further one, the state
  stays critical until three normal observations come in a row, and leaves it as soon as they do.
\<close>

theorem critical_latches_until_three_normals:
  assumes "Critical \<notin> set qs"
  shows "hy_state (observe_all (ps @ Critical # qs) h) = CriticalState \<longleftrightarrow> \<not> sublist three_normals qs"
  using critical_latch [OF assms, of 0] by simp

theorem critical_latches_until_three_normals_witness:
  "hy_state (observe_all [Critical, Normal, Normal, Constrained, Normal] healthy) = CriticalState \<and>
   hy_state (observe_all [Critical, Unknown, Normal, Normal, Normal, Constrained] healthy) \<noteq> CriticalState"
  using critical_latches_until_three_normals [of "[Normal, Normal, Constrained, Normal]" "[]" healthy]
    critical_latches_until_three_normals [of "[Unknown, Normal, Normal, Normal, Constrained]" "[]" healthy]
  by (simp add: sublist_Cons_right)

end
