(* ===== verification/Memory_Estimate.thy ===== *)
theory Memory_Estimate
  imports Memory_Measurements Memory_Safety
begin

text \<open>
  The memory a launch is estimated to need, \<^verbatim>\<open>src/src/domains/runtime/memory-estimate.ts\<close>:
  one estimate per kind of model, the demand of a measurement that replaces it, and the demand of a
  catalog entry.  Sizes are exact integers, and rationals where the code divides.  The two roots of
  the size-based model shape are computed on integers, and shown to be the roots the code takes.
\<close>

section \<open>Roots\<close>

fun isqrt :: "nat \<Rightarrow> nat" where
  "isqrt n = (if n = 0 then 0 else let r = 2 * isqrt (n div 4) in if (r + 1)\<^sup>2 \<le> n then r + 1 else r)"

declare isqrt.simps [simp del]

lemma isqrt_bounds: "(isqrt n)\<^sup>2 \<le> n \<and> n < (isqrt n + 1)\<^sup>2"
proof (induction n rule: isqrt.induct)
  case (1 n)
  show ?case
  proof (cases "n = 0")
    case True
    then show ?thesis by (simp add: isqrt.simps)
  next
    case False
    define r where "r = isqrt (n div 4)"
    have IH: "r\<^sup>2 \<le> n div 4" "n div 4 < (r + 1)\<^sup>2" using 1 [OF False] by (auto simp: r_def)
    have "4 * r\<^sup>2 \<le> n" using IH(1) by presburger
    moreover have "n < 4 * (r + 1)\<^sup>2" using IH(2) by presburger
    ultimately have "(2 * r)\<^sup>2 \<le> n" "n < (2 * r + 2)\<^sup>2" by (simp_all add: power2_eq_square algebra_simps)
    then show ?thesis using False by (subst (1 2) isqrt.simps) (simp add: Let_def flip: r_def)
  qed
qed

lemma isqrt_floor: "isqrt n = nat \<lfloor>sqrt (real n)\<rfloor>"
proof -
  have b: "real ((isqrt n)\<^sup>2) \<le> real n" "real n < real ((isqrt n + 1)\<^sup>2)"
    using isqrt_bounds [of n] by (simp_all only: of_nat_le_iff of_nat_less_iff)
  have "real (isqrt n) \<le> sqrt (real n)" using b(1) by (intro real_le_rsqrt) simp
  moreover have "sqrt (real n) < real (isqrt n + 1)" using b(2) by (intro real_less_lsqrt) simp_all
  ultimately have "\<lfloor>sqrt (real n)\<rfloor> = int (isqrt n)" by linarith
  then show ?thesis by simp
qed

text \<open>The least \<open>k\<close>, from \<open>n\<close> on, whose fifth power reaches \<open>q\<close>.\<close>

function root5_from :: "nat \<Rightarrow> nat \<Rightarrow> nat" where
  "root5_from q n = (if q \<le> n ^ 5 then n else root5_from q (Suc n))"
  by pat_completeness auto
termination
proof (relation "measure (\<lambda>(q, n). q - n)")
  fix q n :: nat
  assume "\<not> q \<le> n ^ 5"
  moreover have "n \<le> n ^ 5" by (cases "n = 0") (simp_all add: self_le_power)
  ultimately show "((q, Suc n), (q, n)) \<in> measure (\<lambda>(q, n). q - n)" by simp
qed simp

declare root5_from.simps [simp del]

definition root5 :: "nat \<Rightarrow> nat" where
  "root5 q = root5_from q 0"

lemma root5_from_least: "q \<le> (root5_from q n) ^ 5 \<and> (\<forall>m. n \<le> m \<longrightarrow> q \<le> m ^ 5 \<longrightarrow> root5_from q n \<le> m)"
proof (induction q n rule: root5_from.induct)
  case (1 q n)
  show ?case
  proof (cases "q \<le> n ^ 5")
    case True
    then show ?thesis by (simp add: root5_from.simps)
  next
    case False
    then have eq: "root5_from q n = root5_from q (Suc n)" by (simp add: root5_from.simps [of q n])
    have "root5_from q n \<le> m" if "n \<le> m" "q \<le> m ^ 5" for m
    proof -
      have "Suc n \<le> m" using that False by (cases "n = m") auto
      then show ?thesis using 1 [OF False] that(2) eq by simp
    qed
    then show ?thesis using 1 [OF False] eq by simp
  qed
qed

lemma root5_least: "q \<le> root5 q ^ 5" "q \<le> m ^ 5 \<Longrightarrow> root5 q \<le> m"
  using root5_from_least [of q 0] by (auto simp: root5_def)

section \<open>Estimates\<close>

record memory_estimate =
  me_demand :: memory_demand
  me_terms :: "(string \<times> bytes) list"

record measured_demand =
  md_unifiedBytes :: bytes
  md_hostBytes :: bytes
  md_acceleratorBytes :: bytes

definition preferMeasured :: "memory_estimate \<Rightarrow> measured_demand option \<Rightarrow> memory_demand" where
  "preferMeasured estimate measured =
     (case measured of
        None \<Rightarrow> me_demand estimate
      | Some m \<Rightarrow> \<lparr>unifiedBytes = md_unifiedBytes m, hostBytes = md_hostBytes m, acceleratorBytes = md_acceleratorBytes m,
          demand_confidence = Measured\<rparr>)"

definition RUNTIME_HOST_OVERHEAD_BYTES :: bytes where "RUNTIME_HOST_OVERHEAD_BYTES = 512 * mebibyte"
definition ACCELERATOR_OVERHEAD_BYTES :: bytes where "ACCELERATOR_OVERHEAD_BYTES = 512 * mebibyte"
definition MINIMUM_MEMORY_MARGIN_BYTES :: bytes where "MINIMUM_MEMORY_MARGIN_BYTES = 512 * mebibyte"
definition MINIMUM_MEMORY_MARGIN_RATIO :: rat where "MINIMUM_MEMORY_MARGIN_RATIO = 1 / 10"

definition ceil_div :: "int \<Rightarrow> int \<Rightarrow> int" where
  "ceil_div a b = - ((- a) div b)"

definition roundUp :: "bytes \<Rightarrow> bytes \<Rightarrow> bytes" where
  "roundUp n granularity = ceil_div n granularity * granularity"

text \<open>The byte counts of a measured record, and how they become a demand.\<close>

record measured_peak =
  pk_backendAcceleratorBytes :: bytes
  pk_hostBufferBytes :: bytes
  pk_peakRssBytes :: bytes
  pk_systemDeltaBytes :: "bytes option"

definition peak_of :: "memory_measurement \<Rightarrow> measured_peak" where
  "peak_of r = \<lparr>pk_backendAcceleratorBytes = mm_backendAcceleratorBytes r, pk_hostBufferBytes = mm_hostBufferBytes r,
     pk_peakRssBytes = mm_peakRssBytes r, pk_systemDeltaBytes = mm_systemDeltaBytes r\<rparr>"

record measured_options =
  mo_artifactBytes :: bytes
  mo_acceleratorOverheadBytes :: "bytes option"
  mo_acceleratorRoundingBytes :: "bytes option"
  mo_promptCacheBytes :: "bytes option"

definition or_zero :: "bytes option \<Rightarrow> bytes" where
  "or_zero x = (case x of Some n \<Rightarrow> n | None \<Rightarrow> 0)"

definition measuredDemand :: "measured_peak \<Rightarrow> measured_options \<Rightarrow> measured_demand" where
  "measuredDemand record options =
     (let overhead = (case mo_acceleratorOverheadBytes options of Some n \<Rightarrow> n | None \<Rightarrow> ACCELERATOR_OVERHEAD_BYTES);
          promptCache = or_zero (mo_promptCacheBytes options);
          accelerator = pk_backendAcceleratorBytes record + overhead;
          host = max (max (pk_peakRssBytes record) (pk_hostBufferBytes record)) (mo_artifactBytes options)
      in \<lparr>md_unifiedBytes = max (max (accelerator + pk_hostBufferBytes record) host) (or_zero (pk_systemDeltaBytes record)) + promptCache,
          md_hostBytes = host + promptCache,
          md_acceleratorBytes =
            (case mo_acceleratorRoundingBytes options of
               Some g \<Rightarrow> if g = 0 then accelerator else roundUp accelerator g
             | None \<Rightarrow> accelerator)\<rparr>)"

definition minimumMemoryGb :: "bytes \<Rightarrow> int" where
  "minimumMemoryGb n =
     (let required = of_int n + max (of_int MINIMUM_MEMORY_MARGIN_BYTES) (of_int n * MINIMUM_MEMORY_MARGIN_RATIO)
      in max 1 (ceiling (required / of_int gibibyte)))"

text \<open>\<open>Math.ceil\<close> of the integers the estimates sum is the identity.\<close>

definition freezeEstimate :: "bytes \<Rightarrow> bytes \<Rightarrow> bytes \<Rightarrow> demand_confidence \<Rightarrow> (string \<times> bytes) list \<Rightarrow> memory_estimate" where
  "freezeEstimate unified host accelerator confidence terms =
     \<lparr>me_demand = \<lparr>unifiedBytes = unified, hostBytes = host, acceleratorBytes = accelerator, demand_confidence = confidence\<rparr>,
      me_terms = terms\<rparr>"

definition artifactBytesByName :: "model_spec \<Rightarrow> (string, bytes) js_map" where
  "artifactBytesByName m = js_map_of (map (\<lambda>a. (ar_filename a, or_zero (ar_expectedSizeBytes a))) (sp_artifacts m))"

definition bytes_of :: "model_spec \<Rightarrow> string \<Rightarrow> bytes" where
  "bytes_of m file_name = or_zero (js_get (artifactBytesByName m) file_name)"

definition totalArtifactBytes :: "model_spec \<Rightarrow> bytes" where
  "totalArtifactBytes m = foldl (\<lambda>sum a. sum + or_zero (ar_expectedSizeBytes a)) 0 (sp_artifacts m)"

definition genericArtifactDemand :: "bytes \<Rightarrow> memory_estimate" where
  "genericArtifactDemand artifactBytes =
     freezeEstimate (artifactBytes + RUNTIME_HOST_OVERHEAD_BYTES) (artifactBytes + RUNTIME_HOST_OVERHEAD_BYTES) artifactBytes Estimated
       [(''weights'', artifactBytes), (''hostOverhead'', RUNTIME_HOST_OVERHEAD_BYTES)]"

section \<open>Language models\<close>

definition LLAMA_UBATCH_TOKENS :: int where "LLAMA_UBATCH_TOKENS = 512"
definition LLAMA_LIVE_EMBD_ACTIVATIONS :: int where "LLAMA_LIVE_EMBD_ACTIVATIONS = 4"
definition DECISION_LIVE_EMBD_ACTIVATIONS :: int where "DECISION_LIVE_EMBD_ACTIVATIONS = 16"
definition LLAMA_SLOT_BYTES_PER_VOCAB :: int where "LLAMA_SLOT_BYTES_PER_VOCAB = 16"
definition LLAMA_SLOT_FIXED_BYTES :: int where "LLAMA_SLOT_FIXED_BYTES = 16 * mebibyte"
definition LLM_REFERENCE_CONTEXT_TOKENS :: int where "LLM_REFERENCE_CONTEXT_TOKENS = 8192"

record llm_shape =
  ls_geometry :: kv_geometry
  ls_queryHeads :: int
  ls_embeddingLength :: int
  ls_vocabSize :: int

record dense_shape =
  ds_layers :: int
  ds_queryHeads :: int
  ds_kvHeads :: int
  ds_headDim :: int
  ds_embd :: int
  ds_vocab :: int
  ds_architecture :: "string option"
  ds_swa :: "(int \<times> int) option"

definition denseGeometry :: "dense_shape \<Rightarrow> kv_geometry" where
  "denseGeometry shape =
     (let swaLayers = (case ds_swa shape of Some (layers, window) \<Rightarrow> layers | None \<Rightarrow> 0);
          fullLayers = ds_layers shape - swaLayers
      in \<lparr>kg_architecture = (case ds_architecture shape of Some a \<Rightarrow> a | None \<Rightarrow> ''llama''), kg_blockCount = ds_layers shape,
          kg_fullKvHeads = fullLayers * ds_kvHeads shape, kg_swaKvHeads = swaLayers * ds_kvHeads shape,
          kg_slidingWindow = (case ds_swa shape of Some (layers, window) \<Rightarrow> Some window | None \<Rightarrow> None),
          kg_keyLength = ds_headDim shape, kg_valueLength = ds_headDim shape,
          kg_swaKeyLength = (if ds_swa shape \<noteq> None then ds_headDim shape else 0),
          kg_swaValueLength = (if ds_swa shape \<noteq> None then ds_headDim shape else 0),
          kg_q8Compatible = (ds_headDim shape mod 32 = 0), kg_recurrentBytesPerSlot = 0, kg_contextLength = None, kg_decisionType = None\<rparr>)"

definition dense :: "dense_shape \<Rightarrow> llm_shape" where
  "dense shape = \<lparr>ls_geometry = denseGeometry shape, ls_queryHeads = ds_queryHeads shape, ls_embeddingLength = ds_embd shape,
     ls_vocabSize = ds_vocab shape\<rparr>"

definition QUANT_BITS_PER_WEIGHT :: "string \<Rightarrow> rat option" where
  "QUANT_BITS_PER_WEIGHT quant = map_of
     [(''Q4_0'', 455 / 100), (''Q4_K_M'', 489 / 100), (''Q5_0'', 554 / 100), (''Q5_K_M'', 569 / 100), (''Q6_K'', 656 / 100),
      (''Q8_0'', 85 / 10), (''F16'', 16), (''BF16'', 16)] quant"

definition upper_char :: "char \<Rightarrow> char" where
  "upper_char c = (let n = (of_char c :: nat) in if 97 \<le> n \<and> n \<le> 122 then char_of (n - 32) else c)"

definition to_upper :: "string \<Rightarrow> string" where
  "to_upper s = map upper_char s"

text \<open>
  The match of \<open>/(\d+(?:\.\d+)?)\s*B/i\<close> at the head of a string.  What follows the digits decides,
  so the match never needs to give back a character it took.
\<close>

definition billions_at :: "string \<Rightarrow> rat option" where
  "billions_at s =
     (let whole = takeWhile is_digit s; rest = dropWhile is_digit s;
          fraction = (case rest of c # cs \<Rightarrow> if c = CHR ''.'' then takeWhile is_digit cs else [] | [] \<Rightarrow> []);
          after = (if fraction = [] then rest else dropWhile is_digit (tl rest))
      in if whole = [] then None
         else (case dropWhile js_space after of
             c # cs \<Rightarrow> if c = CHR ''B'' \<or> c = CHR ''b''
               then Some (of_nat (digits_value (whole @ fraction)) * power10 (- int (length fraction))) else None
           | [] \<Rightarrow> None))"

fun billions_in :: "string \<Rightarrow> rat option" where
  "billions_in [] = None"
| "billions_in (c # cs) = (case billions_at (c # cs) of Some x \<Rightarrow> Some x | None \<Rightarrow> billions_in cs)"

definition parameterBillions :: "string option \<Rightarrow> bytes \<Rightarrow> string option \<Rightarrow> rat" where
  "parameterBillions sz weightsBytes quant =
     (case billions_in (case sz of Some s \<Rightarrow> s | None \<Rightarrow> []) of
        Some x \<Rightarrow> x
      | None \<Rightarrow>
          let bpw = (case QUANT_BITS_PER_WEIGHT (to_upper (case quant of Some q \<Rightarrow> q | None \<Rightarrow> [])) of Some b \<Rightarrow> b | None \<Rightarrow> 489 / 100)
          in of_int weightsBytes * 8 / bpw / 1000000000)"

text \<open>\<open>Math.ceil(16 * p ** 0.4)\<close> and \<open>Math.round(Math.sqrt(x))\<close>.\<close>

definition fallback_layers :: "rat \<Rightarrow> int" where
  "fallback_layers p = int (root5 (nat (ceiling (16 ^ 5 * p\<^sup>2))))"

definition rounded_sqrt :: "rat \<Rightarrow> int" where
  "rounded_sqrt x = (int (isqrt (nat (floor (4 * x)))) + 1) div 2"

definition fallbackLlmShape :: "rat \<Rightarrow> llm_shape" where
  "fallbackLlmShape parametersB =
     (let p = max (1 / 10) parametersB;
          parameters = p * 1000000000;
          layers = fallback_layers p;
          embd = rounded_sqrt (parameters / of_int (12 * layers))
      in dense \<lparr>ds_layers = layers, ds_queryHeads = max 1 (math_round (of_int embd / 128)), ds_kvHeads = 8, ds_headDim = 128,
           ds_embd = embd, ds_vocab = 152064, ds_architecture = None, ds_swa = None\<rparr>)"

datatype shape_source = FromGguf | FromFallback

record resolved_shape =
  rs_shape :: llm_shape
  rs_source :: shape_source

definition resolveLlmShape :: "string option \<Rightarrow> string option \<Rightarrow> bytes \<Rightarrow> kv_geometry option \<Rightarrow> resolved_shape" where
  "resolveLlmShape sz quant weightsBytes geometry =
     (let base = fallbackLlmShape (parameterBillions sz weightsBytes quant) in
      case geometry of
        Some g \<Rightarrow> \<lparr>rs_shape = base\<lparr>ls_geometry := g\<rparr>, rs_source = FromGguf\<rparr>
      | None \<Rightarrow> \<lparr>rs_shape = base, rs_source = FromFallback\<rparr>)"

record llm_launch =
  ll_weightsBytes :: bytes
  ll_shape :: resolved_shape
  ll_ctxTokens :: int
  ll_slots :: int
  ll_cacheTypeK :: kv_cache_type
  ll_cacheTypeV :: kv_cache_type
  ll_promptCacheBytes :: bytes
  ll_flashAttention :: "bool option"
  ll_decision :: bool

definition estimateLlmMemory :: "llm_launch \<Rightarrow> memory_estimate" where
  "estimateLlmMemory input =
     (let shape = rs_shape (ll_shape input);
          slots = max 1 (ll_slots input);
          kv = (if ll_decision input then 0
                else kvCacheBytes (ls_geometry shape)
                  \<lparr>ci_ctxTokens = ll_ctxTokens input, ci_slots = slots, ci_cacheTypeK = ll_cacheTypeK input, ci_cacheTypeV = ll_cacheTypeV input\<rparr>);
          ubatchTokens = (if ll_decision input then llamaContextPerSequence (ll_ctxTokens input) slots False else LLAMA_UBATCH_TOKENS);
          attentionScores = (if ll_flashAttention input = Some False
                             then ubatchTokens * ll_ctxTokens input * ls_queryHeads shape * 4 else 0);
          compute = (if ll_decision input then ubatchTokens * 4 * DECISION_LIVE_EMBD_ACTIVATIONS * ls_embeddingLength shape
                     else LLAMA_UBATCH_TOKENS * 4 * (ls_vocabSize shape + LLAMA_LIVE_EMBD_ACTIVATIONS * ls_embeddingLength shape)) + attentionScores;
          slotState = slots * (ls_vocabSize shape * LLAMA_SLOT_BYTES_PER_VOCAB + LLAMA_SLOT_FIXED_BYTES);
          w = ll_weightsBytes input
      in freezeEstimate
           (w + kv + compute + slotState + ll_promptCacheBytes input + RUNTIME_HOST_OVERHEAD_BYTES)
           (w + RUNTIME_HOST_OVERHEAD_BYTES + kv + ll_promptCacheBytes input + slotState)
           (w + kv + compute + ACCELERATOR_OVERHEAD_BYTES)
           (if rs_source (ll_shape input) = FromFallback then Estimated else Derived)
           [(''weights'', w), (''kvCache'', kv), (''compute'', compute), (''slotState'', slotState),
            (''promptCache'', ll_promptCacheBytes input), (''acceleratorOverhead'', ACCELERATOR_OVERHEAD_BYTES),
            (''hostOverhead'', RUNTIME_HOST_OVERHEAD_BYTES)])"

definition llmKvCacheType :: "bool \<Rightarrow> kv_geometry option \<Rightarrow> kv_cache_type" where
  "llmKvCacheType embedding geometry =
     (if embedding \<or> \<not> (case geometry of Some g \<Rightarrow> kg_q8Compatible g | None \<Rightarrow> False) then F16 else Q8_0)"

section \<open>Transcription\<close>

definition WHISPER_TEXT_CTX :: int where "WHISPER_TEXT_CTX = 448"
definition WHISPER_AUDIO_CTX :: int where "WHISPER_AUDIO_CTX = 1500"
definition WHISPER_DECODERS :: int where "WHISPER_DECODERS = 5"
definition WHISPER_LIVE_ENCODER_ACTIVATIONS :: int where "WHISPER_LIVE_ENCODER_ACTIVATIONS = 10"
definition WHISPER_ACCELERATOR_OVERHEAD_BYTES :: bytes where "WHISPER_ACCELERATOR_OVERHEAD_BYTES = 128 * mebibyte"

record whisper_shape =
  ws_decoderLayers :: int
  ws_heads :: int
  ws_state :: int

definition whisperShape :: "string \<Rightarrow> string list \<Rightarrow> whisper_shape" where
  "whisperShape sz file_names =
     (let lowered = to_lower sz;
          name = (if ends_with lowered ''.en'' then take (length lowered - 3) lowered else lowered)
      in if name = ''tiny'' then \<lparr>ws_decoderLayers = 4, ws_heads = 6, ws_state = 384\<rparr>
         else if name = ''base'' then \<lparr>ws_decoderLayers = 6, ws_heads = 8, ws_state = 512\<rparr>
         else if name = ''small'' then \<lparr>ws_decoderLayers = 12, ws_heads = 12, ws_state = 768\<rparr>
         else if name = ''medium'' then \<lparr>ws_decoderLayers = 24, ws_heads = 16, ws_state = 1024\<rparr>
         else \<lparr>ws_decoderLayers = (if list_ex (\<lambda>f. js_includes (to_lower f) ''turbo'') file_names then 4 else 32),
                ws_heads = 20, ws_state = 1280\<rparr>)"

definition estimateSttMemory :: "model_spec \<Rightarrow> memory_estimate" where
  "estimateSttMemory m =
     (let weights = totalArtifactBytes m;
          shape = whisperShape (sp_size m) (map ar_filename (sp_artifacts m));
          selfKv = WHISPER_DECODERS * ws_decoderLayers shape * WHISPER_TEXT_CTX * ws_state shape * 2 * 2;
          crossKv = ws_decoderLayers shape * WHISPER_AUDIO_CTX * ws_state shape * 2 * 2;
          compute = WHISPER_AUDIO_CTX\<^sup>2 * ws_heads shape * 4 + WHISPER_AUDIO_CTX * ws_state shape * 4 * WHISPER_LIVE_ENCODER_ACTIVATIONS;
          kv = selfKv + crossKv
      in freezeEstimate (weights + kv + compute + RUNTIME_HOST_OVERHEAD_BYTES) (weights + RUNTIME_HOST_OVERHEAD_BYTES)
           (weights + kv + compute + WHISPER_ACCELERATOR_OVERHEAD_BYTES) Derived
           [(''weights'', weights), (''selfKv'', selfKv), (''crossKv'', crossKv), (''compute'', compute),
            (''acceleratorOverhead'', WHISPER_ACCELERATOR_OVERHEAD_BYTES), (''hostOverhead'', RUNTIME_HOST_OVERHEAD_BYTES)])"

section \<open>Speech\<close>

definition TTS_CONTEXT_TOKENS :: int where "TTS_CONTEXT_TOKENS = 2048"
definition TTS_CODEC_BYTES :: bytes where "TTS_CODEC_BYTES = gibibyte"
definition TTS_PROJECTOR_COPIES :: int where "TTS_PROJECTOR_COPIES = 2"
definition KOKORO_SESSION_BYTES :: bytes where "KOKORO_SESSION_BYTES = 512 * mebibyte"

definition sum_terms :: "(string \<times> bytes) list \<Rightarrow> bytes" where
  "sum_terms terms = foldl (\<lambda>sum (k, v). sum + v) 0 terms"

definition estimateKokoroMemory :: "model_spec \<Rightarrow> memory_estimate" where
  "estimateKokoroMemory m =
     (let terms = [(''weights'', totalArtifactBytes m), (''session'', KOKORO_SESSION_BYTES), (''overhead'', RUNTIME_HOST_OVERHEAD_BYTES)];
          total = sum_terms terms
      in freezeEstimate total total 0 Estimated terms)"

definition estimateTtsMemory :: "model_spec \<Rightarrow> kv_geometry option \<Rightarrow> memory_estimate" where
  "estimateTtsMemory m talkerGeometry =
     (case sp_ttsRuntime m of
        Some (KokoroOnnx artifacts voices dflt) \<Rightarrow> estimateKokoroMemory m
      | runtime \<Rightarrow>
          let projector = (case runtime of Some (LlamaTtsRuntime p voices) \<Rightarrow> bytes_of m p | _ \<Rightarrow> 0);
              weights = totalArtifactBytes m - projector;
              talker = estimateLlmMemory
                \<lparr>ll_weightsBytes = weights, ll_shape = resolveLlmShape (Some (sp_size m)) (Some (sp_quant m)) weights talkerGeometry,
                 ll_ctxTokens = TTS_CONTEXT_TOKENS, ll_slots = 1, ll_cacheTypeK = F16, ll_cacheTypeV = F16, ll_promptCacheBytes = 0,
                 ll_flashAttention = None, ll_decision = False\<rparr>;
              terms = [(''weights'', weights), (''projector'', projector * TTS_PROJECTOR_COPIES),
                (''kvCache'', or_zero (js_get (me_terms talker) ''kvCache'')), (''compute'', or_zero (js_get (me_terms talker) ''compute'')),
                (''codec'', TTS_CODEC_BYTES), (''overhead'', RUNTIME_HOST_OVERHEAD_BYTES)];
              total = sum_terms terms
          in freezeEstimate total total total Estimated terms)"

section \<open>Images\<close>

definition DIFFUSION_ACTIVATION_BYTES_PER_TOKEN_DIM :: int where "DIFFUSION_ACTIVATION_BYTES_PER_TOKEN_DIM = 48"
definition VAE_LIVE_FEATURE_MAPS :: int where "VAE_LIVE_FEATURE_MAPS = 13"
definition SDXL_VAE_LIVE_FEATURE_MAPS :: int where "SDXL_VAE_LIVE_FEATURE_MAPS = 15"
definition IMAGE_VAE_CHANNELS :: int where "IMAGE_VAE_CHANNELS = 128"
definition TEXT_ENCODER_COMPUTE_BYTES :: bytes where "TEXT_ENCODER_COMPUTE_BYTES = 256 * mebibyte"

definition attentionActivationBytes :: "int \<Rightarrow> int \<Rightarrow> int \<Rightarrow> bool \<Rightarrow> bytes" where
  "attentionActivationBytes tokens heads width flashAttention =
     (let scores = (if flashAttention then 0 else tokens\<^sup>2 * heads * 4)
      in scores + tokens * width * DIFFUSION_ACTIVATION_BYTES_PER_TOKEN_DIM)"

record image_family =
  if_pixels :: int
  if_tokens :: int
  if_heads :: int
  if_width :: int
  if_vaeMaps :: "int option"

datatype image_family_name = Sd15 | Sdxl | Flux1 | Klein4b | Klein9b | ZImage

fun IMAGE_FAMILIES :: "image_family_name \<Rightarrow> image_family" where
  "IMAGE_FAMILIES Sd15 = \<lparr>if_pixels = 512 * 512, if_tokens = 4096, if_heads = 8, if_width = 320, if_vaeMaps = None\<rparr>"
| "IMAGE_FAMILIES Sdxl = \<lparr>if_pixels = 1024 * 1024, if_tokens = 4096, if_heads = 10, if_width = 640, if_vaeMaps = Some SDXL_VAE_LIVE_FEATURE_MAPS\<rparr>"
| "IMAGE_FAMILIES Flux1 = \<lparr>if_pixels = 1024 * 1024, if_tokens = 4096 + 256, if_heads = 24, if_width = 3072, if_vaeMaps = None\<rparr>"
| "IMAGE_FAMILIES Klein4b = \<lparr>if_pixels = 1024 * 1024, if_tokens = 4096 + 512, if_heads = 24, if_width = 3072, if_vaeMaps = None\<rparr>"
| "IMAGE_FAMILIES Klein9b = \<lparr>if_pixels = 1024 * 1024, if_tokens = 4096 + 512, if_heads = 32, if_width = 4096, if_vaeMaps = None\<rparr>"
| "IMAGE_FAMILIES ZImage = \<lparr>if_pixels = 1024 * 1024, if_tokens = 4096 + 512, if_heads = 30, if_width = 3840, if_vaeMaps = None\<rparr>"

text \<open>\<open>/z.?image/i\<close>; the dot matches any character but a line terminator.\<close>

definition z_image_at :: "string \<Rightarrow> bool" where
  "z_image_at s \<longleftrightarrow> prefix ''zimage'' s \<or> (prefix ''z'' s \<and> prefix ''image'' (drop 2 s) \<and> s ! 1 \<noteq> CHR 0x0A \<and> s ! 1 \<noteq> CHR 0x0D)"

definition z_image :: "string \<Rightarrow> bool" where
  "z_image s \<longleftrightarrow> list_ex (\<lambda>k. z_image_at (drop k (to_lower s))) [0..<length s]"

definition imageFamily :: "model_spec \<Rightarrow> image_family" where
  "imageFamily m = IMAGE_FAMILIES
     (case sp_imageRuntime m of
        Some (DiffusionFlux1 d v c t) \<Rightarrow> Flux1
      | Some (DiffusionQwen3 d v e) \<Rightarrow>
          if z_image (sp_family m) then ZImage else if js_includes (to_lower (sp_size m)) ''9b'' then Klein9b else Klein4b
      | _ \<Rightarrow> if js_includes (to_lower (sp_family m)) ''xl'' then Sdxl else Sd15)"

definition imageHostOnlyArtifacts :: "image_runtime option \<Rightarrow> string list" where
  "imageHostOnlyArtifacts runtime = (case runtime of Some (DiffusionFlux1 d v clipL t5xxl) \<Rightarrow> [clipL, t5xxl] | _ \<Rightarrow> [])"

definition image_flash :: "model_spec \<Rightarrow> bool" where
  "image_flash m = (case sp_imageLaunchOptions m of Some o' \<Rightarrow> io_diffusionFlashAttention o' | None \<Rightarrow> False)"

definition estimateImageMemory :: "model_spec \<Rightarrow> memory_estimate" where
  "estimateImageMemory m =
     (let family = imageFamily m;
          weights = totalArtifactBytes m;
          hostOnly = foldl (\<lambda>sum f. sum + bytes_of m f) 0 (imageHostOnlyArtifacts (sp_imageRuntime m));
          activation = attentionActivationBytes (if_tokens family) (if_heads family) (if_width family) (image_flash m);
          vaeDecode = if_pixels family * IMAGE_VAE_CHANNELS * 4 * (case if_vaeMaps family of Some n \<Rightarrow> n | None \<Rightarrow> VAE_LIVE_FEATURE_MAPS);
          compute = max (max activation vaeDecode) TEXT_ENCODER_COMPUTE_BYTES
      in freezeEstimate (weights + compute + RUNTIME_HOST_OVERHEAD_BYTES) (weights + RUNTIME_HOST_OVERHEAD_BYTES)
           (weights - hostOnly + compute + ACCELERATOR_OVERHEAD_BYTES) Derived
           [(''weights'', weights), (''hostOnlyWeights'', hostOnly), (''activation'', activation), (''vaeDecode'', vaeDecode),
            (''textEncoderCompute'', TEXT_ENCODER_COMPUTE_BYTES), (''acceleratorOverhead'', ACCELERATOR_OVERHEAD_BYTES),
            (''hostOverhead'', RUNTIME_HOST_OVERHEAD_BYTES)])"

section \<open>Videos\<close>

definition VIDEO_VAE_CHUNK_FRAMES :: int where "VIDEO_VAE_CHUNK_FRAMES = 4"
definition WAN_VAE_CHANNELS :: int where "WAN_VAE_CHANNELS = 96"
definition TAE_CHANNELS :: int where "TAE_CHANNELS = 64"
definition TAE_LIVE_FEATURE_MAPS :: int where "TAE_LIVE_FEATURE_MAPS = 15"
definition WAN_VAE_LIVE_FEATURE_MAPS :: int where "WAN_VAE_LIVE_FEATURE_MAPS = 23"
definition VIDEO_ACCELERATOR_ROUNDING_BYTES :: bytes where "VIDEO_ACCELERATOR_ROUNDING_BYTES = 256 * mebibyte"

record video_bounds =
  vb_width :: int
  vb_height :: int
  vb_frames :: int

definition CATALOG_ONLY_VIDEO :: video_bounds where
  "CATALOG_ONLY_VIDEO = \<lparr>vb_width = 832, vb_height = 480, vb_frames = 81\<rparr>"

record video_family =
  vf_spatial :: int
  vf_temporal :: int
  vf_heads :: int
  vf_width :: int

datatype video_family_name = Wan13b | Wan14b | Wan5b | Ltx | Hunyuan

fun VIDEO_FAMILIES :: "video_family_name \<Rightarrow> video_family" where
  "VIDEO_FAMILIES Wan13b = \<lparr>vf_spatial = 16, vf_temporal = 4, vf_heads = 12, vf_width = 1536\<rparr>"
| "VIDEO_FAMILIES Wan14b = \<lparr>vf_spatial = 16, vf_temporal = 4, vf_heads = 40, vf_width = 5120\<rparr>"
| "VIDEO_FAMILIES Wan5b = \<lparr>vf_spatial = 32, vf_temporal = 4, vf_heads = 24, vf_width = 3072\<rparr>"
| "VIDEO_FAMILIES Ltx = \<lparr>vf_spatial = 32, vf_temporal = 8, vf_heads = 32, vf_width = 4096\<rparr>"
| "VIDEO_FAMILIES Hunyuan = \<lparr>vf_spatial = 16, vf_temporal = 4, vf_heads = 16, vf_width = 2048\<rparr>"

definition catalog_only_text_encoder :: "string \<Rightarrow> bytes" where
  "catalog_only_text_encoder lowered =
     (if prefix ''ltx'' lowered then math_round (68 / 10 * of_int gibibyte)
      else if prefix ''hunyuan'' lowered then math_round (44 / 10 * of_int gibibyte)
      else 6044158944)"

definition videoFamily :: "model_spec \<Rightarrow> video_family" where
  "videoFamily m = VIDEO_FAMILIES
     (let lowered = to_lower (sp_modelId m) in
      if prefix ''ltx'' lowered then Ltx
      else if prefix ''hunyuan'' lowered then Hunyuan
      else if js_includes lowered ''5b'' then Wan5b
      else if js_includes lowered ''14b'' then Wan14b
      else Wan13b)"

definition videoLatentTokens :: "video_family \<Rightarrow> video_bounds \<Rightarrow> int" where
  "videoLatentTokens family shape =
     ceil_div (vb_width shape) (vf_spatial family) * ceil_div (vb_height shape) (vf_spatial family) *
     (1 + ceil_div (vb_frames shape - 1) (vf_temporal family))"

record video_weights =
  vw_diffusion :: bytes
  vw_textEncoder :: bytes
  vw_decoder :: bytes
  vw_audioEncoder :: bytes

definition video_weights_of :: "model_spec \<Rightarrow> video_weights" where
  "video_weights_of m =
     (case sp_videoRuntime m of
        Some v \<Rightarrow>
          \<lparr>vw_diffusion = bytes_of m (vr_diffusionModel v), vw_textEncoder = bytes_of m (vr_textEncoder v),
           vw_decoder = bytes_of m (decoder_file (vr_decoder v)),
           vw_audioEncoder = (case vr_mode v of S2V audio \<Rightarrow> bytes_of m audio | _ \<Rightarrow> 0)\<rparr>
      | None \<Rightarrow>
          \<lparr>vw_diffusion = totalArtifactBytes m, vw_textEncoder = catalog_only_text_encoder (to_lower (sp_modelId m)),
           vw_decoder = 0, vw_audioEncoder = 0\<rparr>)"

definition video_bounds_of :: "model_spec \<Rightarrow> video_bounds" where
  "video_bounds_of m =
     (case sp_videoRuntime m of
        Some v \<Rightarrow> \<lparr>vb_width = vq_maxWidth (vr_qualification v), vb_height = vq_maxHeight (vr_qualification v),
          vb_frames = vq_maxFrames (vr_qualification v)\<rparr>
      | None \<Rightarrow> CATALOG_ONLY_VIDEO)"

definition is_tae :: "model_spec \<Rightarrow> bool" where
  "is_tae m \<longleftrightarrow> (case sp_videoRuntime m of Some v \<Rightarrow> (case vr_decoder v of TaeDecoder f \<Rightarrow> True | VaeDecoder f \<Rightarrow> False) | None \<Rightarrow> False)"

definition video_vae_decode :: "model_spec \<Rightarrow> bytes" where
  "video_vae_decode m =
     (let bounds = video_bounds_of m; decoderChannels = (if is_tae m then TAE_CHANNELS else WAN_VAE_CHANNELS)
      in vb_width bounds * vb_height bounds * VIDEO_VAE_CHUNK_FRAMES * decoderChannels * 4 *
           (if is_tae m then TAE_LIVE_FEATURE_MAPS else WAN_VAE_LIVE_FEATURE_MAPS))"

definition estimateVideoMemory :: "model_spec \<Rightarrow> memory_estimate" where
  "estimateVideoMemory m =
     (let family = videoFamily m;
          bounds = video_bounds_of m;
          options = map_option (\<lambda>v. vq_launchOptions (vr_qualification v)) (sp_videoRuntime m);
          flashAttention = (case options of Some o' \<Rightarrow> vo_diffusionFlashAttention o' | None \<Rightarrow> True);
          cpuOffload = (case options of Some o' \<Rightarrow> vo_cpuOffload o' | None \<Rightarrow> False);
          tokens = videoLatentTokens family bounds;
          activation = attentionActivationBytes tokens (vf_heads family) (vf_width family) flashAttention;
          vaeDecode = video_vae_decode m;
          vw = video_weights_of m;
          weights = vw_diffusion vw + vw_textEncoder vw + vw_decoder vw + vw_audioEncoder vw;
          stages = [vw_textEncoder vw + TEXT_ENCODER_COMPUTE_BYTES, vw_diffusion vw + activation, vw_decoder vw + vaeDecode, vw_audioEncoder vw];
          compute = max (max activation vaeDecode) TEXT_ENCODER_COMPUTE_BYTES;
          resident = (if cpuOffload then fold max (tl stages) (hd stages) else weights + compute)
      in freezeEstimate (weights + compute + RUNTIME_HOST_OVERHEAD_BYTES) (weights + RUNTIME_HOST_OVERHEAD_BYTES)
           (roundUp (resident + ACCELERATOR_OVERHEAD_BYTES) VIDEO_ACCELERATOR_ROUNDING_BYTES)
           (if sp_videoRuntime m \<noteq> None then Derived else Estimated)
           [(''diffusionWeights'', vw_diffusion vw), (''textEncoderWeights'', vw_textEncoder vw), (''decoderWeights'', vw_decoder vw),
            (''audioEncoderWeights'', vw_audioEncoder vw), (''activation'', activation), (''vaeDecode'', vaeDecode),
            (''textEncoderCompute'', TEXT_ENCODER_COMPUTE_BYTES), (''acceleratorOverhead'', ACCELERATOR_OVERHEAD_BYTES),
            (''hostOverhead'', RUNTIME_HOST_OVERHEAD_BYTES)])"

section \<open>Measured demands\<close>

definition measuredLlmDemand ::
  "string option \<Rightarrow> bytes \<Rightarrow> int \<Rightarrow> int \<Rightarrow> kv_cache_type \<Rightarrow> kv_cache_type \<Rightarrow> bytes \<Rightarrow> measured_demand option" where
  "measuredLlmDemand modelId artifactBytes ctxTokens slots cacheTypeK cacheTypeV promptCacheBytes =
     map_option (\<lambda>record. measuredDemand (peak_of record)
         \<lparr>mo_artifactBytes = artifactBytes, mo_acceleratorOverheadBytes = None, mo_acceleratorRoundingBytes = None,
          mo_promptCacheBytes = Some promptCacheBytes\<rparr>)
       (findLlmMeasurement modelId ctxTokens slots cacheTypeK cacheTypeV)"

definition measurementDemandOptions :: "model_spec \<Rightarrow> bytes \<Rightarrow> measured_options" where
  "measurementDemandOptions m artifactBytes =
     (let plain = \<lparr>mo_artifactBytes = artifactBytes, mo_acceleratorOverheadBytes = None, mo_acceleratorRoundingBytes = None,
            mo_promptCacheBytes = None\<rparr>
      in case sp_kind m of
           SttModel \<Rightarrow> plain\<lparr>mo_acceleratorOverheadBytes := Some WHISPER_ACCELERATOR_OVERHEAD_BYTES\<rparr>
         | TtsModel \<Rightarrow> (case sp_ttsRuntime m of Some (KokoroOnnx a v d) \<Rightarrow> plain\<lparr>mo_acceleratorOverheadBytes := Some 0\<rparr> | _ \<Rightarrow> plain)
         | VideoModel \<Rightarrow> plain\<lparr>mo_acceleratorRoundingBytes := Some VIDEO_ACCELERATOR_ROUNDING_BYTES\<rparr>
         | LlmModel \<Rightarrow> plain
         | ImageModel \<Rightarrow> plain)"

definition referenceMeasurementFor :: "model_spec \<Rightarrow> memory_measurement option" where
  "referenceMeasurementFor m =
     (case sp_kind m of
        SttModel \<Rightarrow> findModelMeasurement SttModel (sp_modelId m)
      | TtsModel \<Rightarrow> findModelMeasurement TtsModel (sp_modelId m)
      | ImageModel \<Rightarrow> findImageMeasurement (sp_modelId m) (image_flash m)
      | VideoModel \<Rightarrow>
          (case sp_videoRuntime m of
             None \<Rightarrow> None
           | Some v \<Rightarrow> let q = vr_qualification v in
               findVideoMeasurement (sp_modelId m) (vq_maxWidth q) (vq_maxHeight q) (vq_maxFrames q)
                 (vo_cpuOffload (vq_launchOptions q)) (vo_diffusionFlashAttention (vq_launchOptions q)))
      | LlmModel \<Rightarrow> None)"

text \<open>\<open>trusted\<close> is \<open>usesReferenceMeasurements\<close> of \<^verbatim>\<open>catalog/sources.ts\<close>, which reads the loaded catalog.\<close>

definition measuredModelDemand :: "(string \<Rightarrow> bool) \<Rightarrow> model_spec \<Rightarrow> bytes \<Rightarrow> measured_demand option" where
  "measuredModelDemand trusted m artifactBytes =
     (if \<not> trusted (sp_modelId m) then None
      else map_option (\<lambda>record. measuredDemand (peak_of record) (measurementDemandOptions m artifactBytes)) (referenceMeasurementFor m))"

section \<open>The demand of a catalog entry\<close>

definition catalogLlmReference :: "model_spec \<Rightarrow> kv_geometry option \<Rightarrow> llm_launch" where
  "catalogLlmReference m geometry =
     (let weightsBytes = totalArtifactBytes m;
          shape = resolveLlmShape (Some (sp_size m)) (Some (sp_quant m)) weightsBytes geometry;
          kvType = llmKvCacheType (embeddingRuntimeProfile (Some m) \<noteq> None) (Some (ls_geometry (rs_shape shape)))
      in \<lparr>ll_weightsBytes = weightsBytes, ll_shape = shape,
          ll_ctxTokens = min LLM_REFERENCE_CONTEXT_TOKENS
            (case sp_contextWindowTokens m of Some n \<Rightarrow> n | None \<Rightarrow> LLM_REFERENCE_CONTEXT_TOKENS),
          ll_slots = 1, ll_cacheTypeK = kvType, ll_cacheTypeV = kvType, ll_promptCacheBytes = 0, ll_flashAttention = None,
          ll_decision = isDecisionModel (Some m)\<rparr>)"

definition estimateCatalogModelMemory :: "model_spec \<Rightarrow> kv_geometry option \<Rightarrow> memory_estimate" where
  "estimateCatalogModelMemory m geometry =
     (case sp_kind m of
        LlmModel \<Rightarrow> estimateLlmMemory (catalogLlmReference m geometry)
      | SttModel \<Rightarrow> estimateSttMemory m
      | TtsModel \<Rightarrow> estimateTtsMemory m geometry
      | ImageModel \<Rightarrow> estimateImageMemory m
      | VideoModel \<Rightarrow> estimateVideoMemory m)"

definition measuredCatalogModelMemory :: "(string \<Rightarrow> bool) \<Rightarrow> model_spec \<Rightarrow> kv_geometry option \<Rightarrow> measured_demand option" where
  "measuredCatalogModelMemory trusted m geometry =
     (if \<not> trusted (sp_modelId m) then None
      else if sp_kind m \<noteq> LlmModel then measuredModelDemand trusted m (totalArtifactBytes m)
      else let reference = catalogLlmReference m geometry in
        measuredLlmDemand (Some (sp_modelId m)) (ll_weightsBytes reference) (ll_ctxTokens reference) (ll_slots reference)
          (ll_cacheTypeK reference) (ll_cacheTypeV reference) (ll_promptCacheBytes reference))"

definition catalogModelDemand :: "(string \<Rightarrow> bool) \<Rightarrow> model_spec \<Rightarrow> kv_geometry option \<Rightarrow> memory_demand" where
  "catalogModelDemand trusted m geometry =
     preferMeasured (estimateCatalogModelMemory m geometry) (measuredCatalogModelMemory trusted m geometry)"

section \<open>The size-based shape takes the roots the code takes\<close>

lemma fallback_layers_powr:
  assumes "0 < p"
  shows "fallback_layers p = \<lceil>16 * real_of_rat p powr (2 / 5)\<rceil>"
proof -
  define x where "x = real_of_rat p"
  define y where "y = 16 * x powr (2 / 5)"
  define q where "q = nat (ceiling (16 ^ 5 * p\<^sup>2))"
  have x: "0 < x" using assms by (simp add: x_def)
  have y: "0 < y" using x by (simp add: y_def)
  have "0 < x powr (2 / 5)" using x by simp
  then have "(x powr (2 / 5)) ^ 5 = (x powr (2 / 5)) powr 5" by (simp add: powr_numeral)
  also have "\<dots> = x powr 2" by (simp add: powr_powr)
  also have "\<dots> = x\<^sup>2" using x by simp
  finally have y5: "y ^ 5 = 16 ^ 5 * x\<^sup>2" by (simp only: y_def power_mult_distrib)
  have reach: "q \<le> n ^ 5 \<longleftrightarrow> y \<le> real n" for n
  proof -
    have "q \<le> n ^ 5 \<longleftrightarrow> 16 ^ 5 * p\<^sup>2 \<le> of_nat (n ^ 5)"
      by (simp add: q_def nat_le_iff ceiling_le_iff)
    also have "\<dots> \<longleftrightarrow> real_of_rat (16 ^ 5 * p\<^sup>2) \<le> real_of_rat (of_nat (n ^ 5))"
      by (simp only: of_rat_less_eq)
    also have "\<dots> \<longleftrightarrow> y ^ 5 \<le> real n ^ 5" unfolding y5 x_def by (simp add: of_rat_mult of_rat_power)
    also have "\<dots> \<longleftrightarrow> y \<le> real n" using y by (simp add: power_mono_iff)
    finally show ?thesis .
  qed
  have "y \<le> real (root5 q)" using root5_least(1) [of q] reach by simp
  moreover have "root5 q \<le> m" if "y \<le> real m" for m using root5_least(2) reach that by simp
  ultimately have "int (root5 q) = \<lceil>y\<rceil>"
  proof -
    assume a: "y \<le> real (root5 q)" and b: "\<And>m. y \<le> real m \<Longrightarrow> root5 q \<le> m"
    have "y \<le> real (nat \<lceil>y\<rceil>)" using y by linarith
    then have "root5 q \<le> nat \<lceil>y\<rceil>" by (rule b)
    then show ?thesis using a y by linarith
  qed
  then show ?thesis by (simp add: fallback_layers_def q_def y_def x_def)
qed

lemma rounded_sqrt_round:
  assumes "0 \<le> x"
  shows "rounded_sqrt x = \<lfloor>sqrt (real_of_rat x) + 1 / 2\<rfloor>"
proof -
  define k where "k = nat \<lfloor>4 * x\<rfloor>"
  define s where "s = sqrt (real_of_rat x)"
  have fl: "\<lfloor>4 * x\<rfloor> = \<lfloor>4 * real_of_rat x\<rfloor>"
    using of_rat_floor [of "4 * x", where 'a = real] by (simp add: of_rat_mult)
  have k: "real k \<le> 4 * real_of_rat x" "4 * real_of_rat x < real k + 1"
    using assms fl by (simp_all add: k_def)
  have s: "0 \<le> s" "s\<^sup>2 = real_of_rat x" using assms by (simp_all add: s_def)
  define r where "r = isqrt k"
  have r: "r\<^sup>2 \<le> k" "k + 1 \<le> (r + 1)\<^sup>2" using isqrt_bounds [of k] by (simp_all add: r_def)
  have "(real r)\<^sup>2 \<le> real k" using r(1) by (metis of_nat_le_iff of_nat_power)
  moreover have "real k + 1 \<le> (real r + 1)\<^sup>2" using r(2) by (metis of_nat_le_iff of_nat_power of_nat_Suc Suc_eq_plus1 add.commute)
  moreover have "(2 * s)\<^sup>2 = 4 * real_of_rat x" by (simp add: power_mult_distrib s(2))
  ultimately have sq: "(real r)\<^sup>2 \<le> (2 * s)\<^sup>2" "(2 * s)\<^sup>2 < (real r + 1)\<^sup>2" using k by linarith+
  have "real r \<le> 2 * s" using power2_le_imp_le [OF sq(1)] s(1) by simp
  moreover have "2 * s < real r + 1" using power2_less_imp_less [OF sq(2)] by simp
  ultimately have "\<lfloor>s + 1 / 2\<rfloor> = (int r + 1) div 2" by linarith
  then show ?thesis by (simp add: rounded_sqrt_def r_def k_def s_def)
qed

lemma rounded_sqrt_nonneg: "0 \<le> rounded_sqrt x"
  by (simp add: rounded_sqrt_def)

section \<open>Bounds of the terms\<close>

lemmas mib_constants = mebibyte_def RUNTIME_HOST_OVERHEAD_BYTES_def ACCELERATOR_OVERHEAD_BYTES_def WHISPER_ACCELERATOR_OVERHEAD_BYTES_def
  TEXT_ENCODER_COMPUTE_BYTES_def VIDEO_ACCELERATOR_ROUNDING_BYTES_def KOKORO_SESSION_BYTES_def TTS_CODEC_BYTES_def LLAMA_SLOT_FIXED_BYTES_def
  gibibyte_def MINIMUM_MEMORY_MARGIN_BYTES_def

lemmas llm_constants = LLAMA_UBATCH_TOKENS_def LLAMA_LIVE_EMBD_ACTIVATIONS_def DECISION_LIVE_EMBD_ACTIVATIONS_def LLAMA_SLOT_BYTES_PER_VOCAB_def
  LLM_REFERENCE_CONTEXT_TOKENS_def TTS_CONTEXT_TOKENS_def TTS_PROJECTOR_COPIES_def

lemma roundUp_bounds:
  assumes "0 < g"
  shows "n \<le> roundUp n g" "roundUp n g < n + g"
proof -
  define q r where "q = (- n) div g" and "r = (- n) mod g"
  have "q * g + r = - n" by (simp add: q_def r_def)
  then have "roundUp n g = n + r" by (simp add: roundUp_def ceil_div_def flip: q_def)
  moreover have "0 \<le> r" "r < g" using assms by (simp_all add: r_def)
  ultimately show "n \<le> roundUp n g" "roundUp n g < n + g" by simp_all
qed

lemma ceil_div_nonneg: "0 \<le> a \<Longrightarrow> 0 < b \<Longrightarrow> 0 \<le> ceil_div a b"
  by (simp add: ceil_div_def div_nonpos_pos_le0)

definition sizes_nonneg :: "model_spec \<Rightarrow> bool" where
  "sizes_nonneg m \<longleftrightarrow> (\<forall>a \<in> set (sp_artifacts m). \<forall>n. ar_expectedSizeBytes a = Some n \<longrightarrow> 0 \<le> n)"

lemma or_zero_nonneg: "sizes_nonneg m \<Longrightarrow> a \<in> set (sp_artifacts m) \<Longrightarrow> 0 \<le> or_zero (ar_expectedSizeBytes a)"
  by (auto simp: sizes_nonneg_def or_zero_def split: option.split)

lemma total_sum: "totalArtifactBytes m = sum_list (map (\<lambda>a. or_zero (ar_expectedSizeBytes a)) (sp_artifacts m))"
proof -
  have "foldl (\<lambda>sum a. sum + f a) s xs = s + sum_list (map f xs)" for f :: "model_artifact \<Rightarrow> int" and s xs
    by (induction xs arbitrary: s) simp_all
  then show ?thesis by (simp add: totalArtifactBytes_def)
qed

lemma total_nonneg: "sizes_nonneg m \<Longrightarrow> 0 \<le> totalArtifactBytes m"
  unfolding total_sum by (rule sum_list_nonneg) (auto simp: or_zero_nonneg)

text \<open>With distinct file names, the sizes of distinct names add up to at most the total.\<close>

lemma bytes_of_find:
  assumes "distinct (map ar_filename (sp_artifacts m))"
  shows "bytes_of m f = (case find_artifact m f of Some a \<Rightarrow> or_zero (ar_expectedSizeBytes a) | None \<Rightarrow> 0)"
  using artifact_map_find [OF assms, of "\<lambda>a. or_zero (ar_expectedSizeBytes a)" f]
  by (simp add: bytes_of_def artifactBytesByName_def or_zero_def split: option.split)

lemma bytes_of_sum_le:
  assumes d: "distinct (map ar_filename (sp_artifacts m))" and n: "sizes_nonneg m" and fs: "distinct fs"
  shows "sum_list (map (bytes_of m) fs) \<le> totalArtifactBytes m"
proof -
  let ?size = "\<lambda>a. or_zero (ar_expectedSizeBytes a)" and ?as = "sp_artifacts m"
  have names: "sum_list (map ?size ?as) = (\<Sum>f \<in> ar_filename ` set ?as. bytes_of m f)"
  proof -
    have "bytes_of m (ar_filename a) = ?size a" if "a \<in> set ?as" for a
      using find_by_name [OF d that] by (simp add: bytes_of_find [OF d] find_artifact_def)
    then have "map ?size ?as = map (bytes_of m) (map ar_filename ?as)" by simp
    then show ?thesis by (simp only: sum_list_distinct_conv_sum_set [OF d] set_map)
  qed
  have pos: "0 \<le> bytes_of m f" for f
    using n by (auto simp: bytes_of_find [OF d] dest!: find_artifact_Some intro: or_zero_nonneg split: option.split)
  have zero: "bytes_of m f = 0" if "f \<notin> ar_filename ` set ?as" for f
    using that by (auto simp: bytes_of_find [OF d] dest!: find_artifact_Some split: option.split)
  have "sum_list (map (bytes_of m) fs) = (\<Sum>f \<in> set fs. bytes_of m f)"
    by (rule sum_list_distinct_conv_sum_set [OF fs])
  also have "\<dots> = (\<Sum>f \<in> set fs \<inter> ar_filename ` set ?as. bytes_of m f)"
    by (rule sum.mono_neutral_right) (auto simp: zero)
  also have "\<dots> \<le> (\<Sum>f \<in> ar_filename ` set ?as. bytes_of m f)"
    by (rule sum_mono2) (auto simp: pos)
  finally show ?thesis by (simp add: total_sum names)
qed

lemma bytes_of_nonneg: "distinct (map ar_filename (sp_artifacts m)) \<Longrightarrow> sizes_nonneg m \<Longrightarrow> 0 \<le> bytes_of m f"
  by (auto simp: bytes_of_find dest!: find_artifact_Some intro: or_zero_nonneg split: option.split)

section \<open>Estimates of language models\<close>

definition shape_nonneg :: "llm_shape \<Rightarrow> bool" where
  "shape_nonneg s \<longleftrightarrow> geometry_nonneg (ls_geometry s) \<and> 0 \<le> ls_queryHeads s \<and> 0 \<le> ls_embeddingLength s \<and> 0 \<le> ls_vocabSize s"

lemma fallback_nonneg: "shape_nonneg (fallbackLlmShape p)"
  by (auto simp: shape_nonneg_def fallbackLlmShape_def dense_def denseGeometry_def geometry_nonneg_def fallback_layers_def rounded_sqrt_nonneg Let_def)

lemma resolve_nonneg: "(\<And>g. geometry = Some g \<Longrightarrow> geometry_nonneg g) \<Longrightarrow> shape_nonneg (rs_shape (resolveLlmShape sz quant w geometry))"
  using fallback_nonneg [of "parameterBillions sz w quant"]
  by (auto simp: resolveLlmShape_def shape_nonneg_def Let_def split: option.split)

text \<open>The three terms that depend on the launch.\<close>

definition llm_kv :: "llm_launch \<Rightarrow> bytes" where
  "llm_kv input = (if ll_decision input then 0
     else kvCacheBytes (ls_geometry (rs_shape (ll_shape input)))
       \<lparr>ci_ctxTokens = ll_ctxTokens input, ci_slots = max 1 (ll_slots input), ci_cacheTypeK = ll_cacheTypeK input, ci_cacheTypeV = ll_cacheTypeV input\<rparr>)"

definition llm_ubatch :: "llm_launch \<Rightarrow> int" where
  "llm_ubatch input = (if ll_decision input then llamaContextPerSequence (ll_ctxTokens input) (max 1 (ll_slots input)) False else LLAMA_UBATCH_TOKENS)"

definition llm_compute :: "llm_launch \<Rightarrow> bytes" where
  "llm_compute input =
     (let shape = rs_shape (ll_shape input) in
      (if ll_decision input then llm_ubatch input * 4 * DECISION_LIVE_EMBD_ACTIVATIONS * ls_embeddingLength shape
       else LLAMA_UBATCH_TOKENS * 4 * (ls_vocabSize shape + LLAMA_LIVE_EMBD_ACTIVATIONS * ls_embeddingLength shape)) +
      (if ll_flashAttention input = Some False then llm_ubatch input * ll_ctxTokens input * ls_queryHeads shape * 4 else 0))"

definition llm_slot_state :: "llm_launch \<Rightarrow> bytes" where
  "llm_slot_state input =
     max 1 (ll_slots input) * (ls_vocabSize (rs_shape (ll_shape input)) * LLAMA_SLOT_BYTES_PER_VOCAB + LLAMA_SLOT_FIXED_BYTES)"

lemma estimateLlm_demand:
  "me_demand (estimateLlmMemory i) =
     \<lparr>unifiedBytes = ll_weightsBytes i + llm_kv i + llm_compute i + llm_slot_state i + ll_promptCacheBytes i + RUNTIME_HOST_OVERHEAD_BYTES,
      hostBytes = ll_weightsBytes i + RUNTIME_HOST_OVERHEAD_BYTES + llm_kv i + ll_promptCacheBytes i + llm_slot_state i,
      acceleratorBytes = ll_weightsBytes i + llm_kv i + llm_compute i + ACCELERATOR_OVERHEAD_BYTES,
      demand_confidence = (if rs_source (ll_shape i) = FromFallback then Estimated else Derived)\<rparr>"
  "js_get (me_terms (estimateLlmMemory i)) ''kvCache'' = Some (llm_kv i)"
  "js_get (me_terms (estimateLlmMemory i)) ''compute'' = Some (llm_compute i)"
  by (simp_all add: estimateLlmMemory_def freezeEstimate_def llm_kv_def llm_ubatch_def llm_compute_def llm_slot_state_def js_get_def Let_def)

definition launch_ok :: "llm_launch \<Rightarrow> bool" where
  "launch_ok i \<longleftrightarrow> 0 \<le> ll_weightsBytes i \<and> 0 \<le> ll_promptCacheBytes i \<and> 0 \<le> ll_ctxTokens i \<and> shape_nonneg (rs_shape (ll_shape i))"

lemma context_per_sequence_mono: "c \<le> c' \<Longrightarrow> 0 < s \<Longrightarrow> llamaContextPerSequence c s False \<le> llamaContextPerSequence c' s False"
  by (simp add: llamaContextPerSequence_def Let_def pad256_mono zdiv_mono1)

lemma context_per_sequence_nonneg: "0 \<le> c \<Longrightarrow> 0 < s \<Longrightarrow> 0 \<le> llamaContextPerSequence c s False"
  using context_per_sequence_mono [of 0 c s] by (simp add: llamaContextPerSequence_def pad256_def Let_def)

lemma llm_ubatch_nonneg: "launch_ok i \<Longrightarrow> 0 \<le> llm_ubatch i"
  using context_per_sequence_nonneg [of "ll_ctxTokens i" "max 1 (ll_slots i)"]
  by (simp add: llm_ubatch_def launch_ok_def llm_constants)

lemma llm_terms_nonneg:
  assumes "launch_ok i"
  shows "0 \<le> llm_kv i" "0 \<le> llm_compute i" "0 \<le> llm_slot_state i"
  using assms kvCacheBytes_nonneg llm_ubatch_nonneg [OF assms]
  by (auto simp: llm_kv_def llm_compute_def llm_slot_state_def launch_ok_def shape_nonneg_def llm_constants mib_constants Let_def
      intro!: mult_nonneg_nonneg add_nonneg_nonneg)

lemma llm_terms_mono:
  assumes i: "launch_ok i" and le: "ll_ctxTokens i \<le> c"
  shows "llm_kv i \<le> llm_kv (i\<lparr>ll_ctxTokens := c\<rparr>)" "llm_compute i \<le> llm_compute (i\<lparr>ll_ctxTokens := c\<rparr>)"
    "llm_slot_state (i\<lparr>ll_ctxTokens := c\<rparr>) = llm_slot_state i"
proof -
  let ?j = "i\<lparr>ll_ctxTokens := c\<rparr>" and ?s = "rs_shape (ll_shape i)"
  have g: "geometry_nonneg (ls_geometry ?s)" using i by (simp add: launch_ok_def shape_nonneg_def)
  show "llm_kv i \<le> llm_kv ?j"
    using kvCacheBytes_mono [OF g, of "\<lparr>ci_ctxTokens = ll_ctxTokens i, ci_slots = max 1 (ll_slots i), ci_cacheTypeK = ll_cacheTypeK i,
        ci_cacheTypeV = ll_cacheTypeV i\<rparr>" c] le by (simp add: llm_kv_def)
  have u: "llm_ubatch i \<le> llm_ubatch ?j" using le by (simp add: llm_ubatch_def context_per_sequence_mono)
  have nn: "0 \<le> llm_ubatch i" "0 \<le> ls_queryHeads ?s" "0 \<le> ls_embeddingLength ?s" "0 \<le> ll_ctxTokens i"
    using llm_ubatch_nonneg [OF i] i by (simp_all add: launch_ok_def shape_nonneg_def)
  have scores: "llm_ubatch i * ll_ctxTokens i * ls_queryHeads ?s * 4 \<le> llm_ubatch ?j * c * ls_queryHeads ?s * 4"
    using u le nn by (intro mult_right_mono mult_mono) simp_all
  have acts: "llm_ubatch i * 4 * DECISION_LIVE_EMBD_ACTIVATIONS * ls_embeddingLength ?s \<le> llm_ubatch ?j * 4 * DECISION_LIVE_EMBD_ACTIVATIONS * ls_embeddingLength ?s"
    using u nn by (intro mult_right_mono) (simp_all add: llm_constants)
  show "llm_compute i \<le> llm_compute ?j"
    using scores acts by (auto simp: llm_compute_def Let_def)
  show "llm_slot_state ?j = llm_slot_state i" by (simp add: llm_slot_state_def)
qed

lemma llm_demand_mono:
  assumes "launch_ok i" "ll_ctxTokens i \<le> c"
  shows "demand_le (me_demand (estimateLlmMemory i)) (me_demand (estimateLlmMemory (i\<lparr>ll_ctxTokens := c\<rparr>)))"
  using llm_terms_mono [OF assms] by (simp add: demand_le_def estimateLlm_demand)

section \<open>Estimates of every kind of model\<close>

text \<open>
  What an estimate promises: no negative count, the host overhead, and that one copy of everything,
  the unified figure, covers the host's and the accelerator's share; \<open>slack\<close> is the rounding.
\<close>

definition estimate_ok :: "bytes \<Rightarrow> bytes \<Rightarrow> memory_estimate \<Rightarrow> bool" where
  "estimate_ok weights slack e \<longleftrightarrow>
     0 \<le> acceleratorBytes (me_demand e) \<and> weights + RUNTIME_HOST_OVERHEAD_BYTES \<le> hostBytes (me_demand e) \<and>
     hostBytes (me_demand e) \<le> unifiedBytes (me_demand e) \<and> acceleratorBytes (me_demand e) \<le> unifiedBytes (me_demand e) + slack"

lemma llm_estimate_ok: "launch_ok i \<Longrightarrow> estimate_ok (ll_weightsBytes i) 0 (estimateLlmMemory i)"
  using llm_terms_nonneg [of i] by (simp add: estimate_ok_def estimateLlm_demand launch_ok_def mib_constants)

lemma stt_estimate_ok:
  assumes "0 \<le> totalArtifactBytes m"
  shows "estimate_ok (totalArtifactBytes m) 0 (estimateSttMemory m)"
proof -
  have "0 \<le> ws_decoderLayers s \<and> 0 \<le> ws_heads s \<and> 0 \<le> ws_state s" if "s = whisperShape sz fs" for s sz fs
    using that by (auto simp: whisperShape_def Let_def)
  then have pos: "0 \<le> ws_decoderLayers (whisperShape sz fs)" "0 \<le> ws_heads (whisperShape sz fs)" "0 \<le> ws_state (whisperShape sz fs)" for sz fs
    by blast+
  have "0 \<le> ws_decoderLayers (whisperShape sz fs) * ws_state (whisperShape sz fs)" for sz fs
    using pos by (intro mult_nonneg_nonneg)
  then show ?thesis
    using assms pos
    by (simp add: estimateSttMemory_def estimate_ok_def freezeEstimate_def Let_def mib_constants WHISPER_DECODERS_def WHISPER_TEXT_CTX_def
        WHISPER_AUDIO_CTX_def WHISPER_LIVE_ENCODER_ACTIVATIONS_def mult.assoc mult.commute mult.left_commute)
qed

lemma kokoro_estimate_ok: "0 \<le> totalArtifactBytes m \<Longrightarrow> estimate_ok (totalArtifactBytes m) 0 (estimateKokoroMemory m)"
  by (simp add: estimateKokoroMemory_def estimate_ok_def freezeEstimate_def sum_terms_def Let_def mib_constants)

lemma tts_estimate_ok:
  assumes d: "distinct (map ar_filename (sp_artifacts m))" and n: "sizes_nonneg m" and g: "\<And>g. geometry = Some g \<Longrightarrow> geometry_nonneg g"
  shows "estimate_ok (totalArtifactBytes m) 0 (estimateTtsMemory m geometry)"
proof (cases "\<exists>a v dv. sp_ttsRuntime m = Some (KokoroOnnx a v dv)")
  case True
  then show ?thesis using kokoro_estimate_ok [OF total_nonneg [OF n]] by (auto simp: estimateTtsMemory_def)
next
  case False
  define p where "p = (case sp_ttsRuntime m of Some (LlamaTtsRuntime p voices) \<Rightarrow> bytes_of m p | _ \<Rightarrow> 0)"
  have p: "0 \<le> p" "p \<le> totalArtifactBytes m"
    using bytes_of_nonneg [OF d n] bytes_of_sum_le [OF d n, of "[f]" for f] total_nonneg [OF n]
    by (auto simp: p_def split: option.split tts_runtime.split)
  define i where "i = \<lparr>ll_weightsBytes = totalArtifactBytes m - p,
      ll_shape = resolveLlmShape (Some (sp_size m)) (Some (sp_quant m)) (totalArtifactBytes m - p) geometry,
      ll_ctxTokens = TTS_CONTEXT_TOKENS, ll_slots = 1, ll_cacheTypeK = F16, ll_cacheTypeV = F16, ll_promptCacheBytes = 0,
      ll_flashAttention = None, ll_decision = False\<rparr>"
  have "launch_ok i" using p resolve_nonneg [OF g] by (simp add: launch_ok_def i_def llm_constants)
  note terms = llm_terms_nonneg [OF this]
  define total where "total = totalArtifactBytes m - p + p * TTS_PROJECTOR_COPIES + llm_kv i + llm_compute i + TTS_CODEC_BYTES + RUNTIME_HOST_OVERHEAD_BYTES"
  have "me_demand (estimateTtsMemory m geometry) = \<lparr>unifiedBytes = total, hostBytes = total, acceleratorBytes = total, demand_confidence = Estimated\<rparr>"
    using False
    by (auto simp: estimateTtsMemory_def freezeEstimate_def sum_terms_def Let_def total_def estimateLlm_demand or_zero_def p_def
        i_def split: option.splits tts_runtime.splits)
  then show ?thesis using p terms total_nonneg [OF n] by (simp add: estimate_ok_def total_def llm_constants mib_constants)
qed

lemma activation_nonneg: "0 \<le> t \<Longrightarrow> 0 \<le> h \<Longrightarrow> 0 \<le> w \<Longrightarrow> 0 \<le> attentionActivationBytes t h w flash"
  by (simp add: attentionActivationBytes_def DIFFUSION_ACTIVATION_BYTES_PER_TOKEN_DIM_def Let_def)

lemma image_estimate_ok:
  assumes "accepted hostname m" and n: "sizes_nonneg m"
  shows "estimate_ok (totalArtifactBytes m) 0 (estimateImageMemory m)"
proof -
  note d = accepted_parts(1) [OF assms(1)]
  define fs where "fs = imageHostOnlyArtifacts (sp_imageRuntime m)"
  define hostOnly where "hostOnly = foldl (\<lambda>sum f. sum + bytes_of m f) 0 fs"
  have "distinct fs"
    using image_mapped(2) [OF accepted_parts(4) [OF assms(1)]]
    by (fastforce simp: fs_def imageHostOnlyArtifacts_def split: option.splits image_runtime.splits)
  moreover have "hostOnly = sum_list (map (bytes_of m) fs)"
    by (auto simp: hostOnly_def fs_def imageHostOnlyArtifacts_def split: option.split image_runtime.split)
  moreover have "0 \<le> sum_list (map (bytes_of m) fs)"
    by (rule sum_list_nonneg) (auto simp: bytes_of_nonneg [OF d n])
  ultimately have host: "0 \<le> hostOnly" "hostOnly \<le> totalArtifactBytes m" using bytes_of_sum_le [OF d n] by simp_all
  show ?thesis
    using host total_nonneg [OF n]
    by (simp add: estimateImageMemory_def estimate_ok_def freezeEstimate_def Let_def mib_constants flip: fs_def hostOnly_def)
qed

text \<open>The numbers of a specification that zod has checked to be positive, where the estimates use them.\<close>

definition bounds_nonneg :: "video_bounds \<Rightarrow> bool" where
  "bounds_nonneg b \<longleftrightarrow> 0 < vb_width b \<and> 0 < vb_height b \<and> 0 < vb_frames b"

definition fields_ok :: "model_spec \<Rightarrow> bool" where
  "fields_ok m \<longleftrightarrow> sizes_nonneg m \<and> (\<forall>n. sp_contextWindowTokens m = Some n \<longrightarrow> 0 < n) \<and> bounds_nonneg (video_bounds_of m)"

text \<open>
  The declared sizes of what a model loads: of the files its video runtime names for the stages, once for
  each stage, or of all its artifacts when it has no video runtime.
\<close>

definition declared_size :: "model_artifact \<Rightarrow> bytes" where
  "declared_size a = (case ar_expectedSizeBytes a of Some n \<Rightarrow> n | None \<Rightarrow> 0)"

definition loaded_weights :: "model_spec \<Rightarrow> bytes" where
  "loaded_weights m =
     (case sp_videoRuntime m of
        Some v \<Rightarrow> (\<Sum>(stage, name) \<leftarrow> video_artifacts v. case find_artifact m name of Some a \<Rightarrow> declared_size a | None \<Rightarrow> 0)
      | None \<Rightarrow> (\<Sum>a \<leftarrow> sp_artifacts m. declared_size a))"

lemma declared_or_zero: "declared_size = (\<lambda>a. or_zero (ar_expectedSizeBytes a))"
  by (rule ext) (simp add: declared_size_def or_zero_def split: option.split)

lemma loaded_without_video: "sp_videoRuntime m = None \<Longrightarrow> loaded_weights m = totalArtifactBytes m"
  by (simp add: loaded_weights_def total_sum declared_or_zero)

lemma loaded_with_video:
  assumes "distinct (map ar_filename (sp_artifacts m))" and "sp_videoRuntime m = Some v"
  shows "loaded_weights m = vw_diffusion (video_weights_of m) + vw_textEncoder (video_weights_of m) +
    vw_decoder (video_weights_of m) + vw_audioEncoder (video_weights_of m)"
proof -
  have "(case find_artifact m f of Some a \<Rightarrow> declared_size a | None \<Rightarrow> 0) = bytes_of m f" for f
    by (simp add: bytes_of_find [OF assms(1)] declared_or_zero split: option.split)
  then show ?thesis
    by (simp add: loaded_weights_def video_weights_of_def video_artifacts_def assms(2) split: video_mode.split)
qed

lemma video_family_pos: "0 < vf_spatial (videoFamily m) \<and> 0 < vf_temporal (videoFamily m) \<and> 0 < vf_heads (videoFamily m) \<and> 0 < vf_width (videoFamily m)"
  by (simp add: videoFamily_def Let_def)

lemma video_estimate_ok:
  assumes d: "distinct (map ar_filename (sp_artifacts m))" and ok: "fields_ok m"
  shows "estimate_ok (loaded_weights m) VIDEO_ACCELERATOR_ROUNDING_BYTES (estimateVideoMemory m)"
proof -
  have n: "sizes_nonneg m" and b: "bounds_nonneg (video_bounds_of m)" using ok by (simp_all add: fields_ok_def)
  define options where "options = map_option (\<lambda>v. vq_launchOptions (vr_qualification v)) (sp_videoRuntime m)"
  define flash where "flash = (case options of Some o' \<Rightarrow> vo_diffusionFlashAttention o' | None \<Rightarrow> True)"
  define offload where "offload = (case options of Some o' \<Rightarrow> vo_cpuOffload o' | None \<Rightarrow> False)"
  define act where "act = attentionActivationBytes (videoLatentTokens (videoFamily m) (video_bounds_of m)) (vf_heads (videoFamily m)) (vf_width (videoFamily m)) flash"
  define vae where "vae = video_vae_decode m"
  define vw where "vw = video_weights_of m"
  define weights where "weights = vw_diffusion vw + vw_textEncoder vw + vw_decoder vw + vw_audioEncoder vw"
  define compute where "compute = max (max act vae) TEXT_ENCODER_COMPUTE_BYTES"
  define resident where "resident = (if offload
    then fold max [vw_diffusion vw + act, vw_decoder vw + vae, vw_audioEncoder vw] (vw_textEncoder vw + TEXT_ENCODER_COMPUTE_BYTES)
    else weights + compute)"
  define rounded where "rounded = roundUp (resident + ACCELERATOR_OVERHEAD_BYTES) VIDEO_ACCELERATOR_ROUNDING_BYTES"
  have "0 \<le> videoLatentTokens (videoFamily m) (video_bounds_of m)"
    using b video_family_pos [of m]
    by (auto simp: videoLatentTokens_def bounds_nonneg_def ceil_div_nonneg intro!: mult_nonneg_nonneg add_nonneg_nonneg)
  then have act: "0 \<le> act" using video_family_pos [of m] by (simp add: act_def activation_nonneg)
  have vae: "0 \<le> vae"
    using b by (auto simp: vae_def video_vae_decode_def bounds_nonneg_def Let_def VIDEO_VAE_CHUNK_FRAMES_def TAE_CHANNELS_def WAN_VAE_CHANNELS_def
        TAE_LIVE_FEATURE_MAPS_def WAN_VAE_LIVE_FEATURE_MAPS_def intro!: mult_nonneg_nonneg)
  have enc: "0 \<le> catalog_only_text_encoder s" for s
    by (auto simp: catalog_only_text_encoder_def math_round_def gibibyte_def)
  have vw: "0 \<le> vw_diffusion vw" "0 \<le> vw_textEncoder vw" "0 \<le> vw_decoder vw" "0 \<le> vw_audioEncoder vw"
    using bytes_of_nonneg [OF d n] total_nonneg [OF n] enc by (auto simp: vw_def video_weights_of_def split: option.split video_mode.split)
  have loaded: "loaded_weights m \<le> weights"
  proof (cases "sp_videoRuntime m")
    case None
    then show ?thesis using vw enc by (simp add: loaded_without_video weights_def vw_def video_weights_of_def)
  next
    case (Some v)
    then show ?thesis using loaded_with_video [OF d] by (simp add: weights_def vw_def)
  qed
  have res: "0 \<le> resident" "resident \<le> weights + compute"
    using act vae vw by (auto simp: resident_def weights_def compute_def)
  have "0 < VIDEO_ACCELERATOR_ROUNDING_BYTES" by (simp add: mib_constants)
  note round = roundUp_bounds [OF this, of "resident + ACCELERATOR_OVERHEAD_BYTES", folded rounded_def]
  have demand: "me_demand (estimateVideoMemory m) = \<lparr>unifiedBytes = weights + compute + RUNTIME_HOST_OVERHEAD_BYTES,
      hostBytes = weights + RUNTIME_HOST_OVERHEAD_BYTES, acceleratorBytes = rounded,
      demand_confidence = (if sp_videoRuntime m \<noteq> None then Derived else Estimated)\<rparr>"
    unfolding estimateVideoMemory_def freezeEstimate_def Let_def
    by (simp only: memory_estimate.simps list.sel options_def [symmetric] flash_def [symmetric] offload_def [symmetric] act_def [symmetric]
        vae_def [symmetric] vw_def [symmetric] weights_def [symmetric] compute_def [symmetric] resident_def [symmetric] rounded_def [symmetric])
  have "0 \<le> weights" "0 \<le> compute" using vw by (simp_all add: weights_def compute_def mib_constants)
  then show ?thesis
    using round res loaded unfolding estimate_ok_def demand by (simp add: ACCELERATOR_OVERHEAD_BYTES_def RUNTIME_HOST_OVERHEAD_BYTES_def mebibyte_def)
qed

lemma catalog_reference_ok:
  assumes "fields_ok m" "\<And>g. geometry = Some g \<Longrightarrow> geometry_nonneg g"
  shows "launch_ok (catalogLlmReference m geometry)"
  using assms total_nonneg resolve_nonneg [OF assms(2)]
  by (auto simp: launch_ok_def catalogLlmReference_def fields_ok_def llm_constants Let_def split: option.split)

section \<open>Minimum memory\<close>

text \<open>The minimum is the least whole number of gibibytes, at least one, that holds the bytes and the margin.\<close>

lemma minimumMemoryGb_least:
  "1 \<le> minimumMemoryGb n \<and> 10 * n + max (10 * MINIMUM_MEMORY_MARGIN_BYTES) n \<le> 10 * minimumMemoryGb n * gibibyte \<and>
   (\<forall>k. 1 \<le> k \<and> 10 * n + max (10 * MINIMUM_MEMORY_MARGIN_BYTES) n \<le> 10 * k * gibibyte \<longrightarrow> minimumMemoryGb n \<le> k)"
proof -
  define required :: rat where "required = of_int n + max (of_int MINIMUM_MEMORY_MARGIN_BYTES) (of_int n * MINIMUM_MEMORY_MARGIN_RATIO)"
  have g: "(0::rat) < of_int gibibyte" by (simp add: gibibyte_def)
  have scaled: "10 * required = of_int (10 * n + max (10 * MINIMUM_MEMORY_MARGIN_BYTES) n)"
    by (simp add: required_def MINIMUM_MEMORY_MARGIN_RATIO_def max_def algebra_simps)
  have holds: "ceiling (required / of_int gibibyte) \<le> k \<longleftrightarrow> 10 * n + max (10 * MINIMUM_MEMORY_MARGIN_BYTES) n \<le> 10 * k * gibibyte" for k
  proof -
    have "ceiling (required / of_int gibibyte) \<le> k \<longleftrightarrow> 10 * required \<le> of_int (10 * k * gibibyte)"
      using g by (simp add: ceiling_le_iff pos_divide_le_eq)
    then show ?thesis unfolding scaled of_int_le_iff .
  qed
  have "minimumMemoryGb n = max 1 (ceiling (required / of_int gibibyte))" by (simp add: minimumMemoryGb_def required_def Let_def)
  moreover have "10 * k * gibibyte \<le> 10 * max 1 k * gibibyte" for k by (simp add: gibibyte_def)
  ultimately show ?thesis using holds order_trans by (simp add: max.bounded_iff) (smt (verit) holds)
qed

section \<open>Properties\<close>

text \<open>
  C37: the estimate of every catalog model that passed validation is coherent.  No count is negative;
  the host's share holds the declared sizes of everything the model loads (all its artifacts, or for a
  video runtime the files of its stages, each stage once) and the runtime's overhead; and the unified figure,
  one copy of everything, covers the host's share, and the
  accelerator's up to the 256 MiB that only a video's demand is rounded to.
\<close>

theorem catalog_estimate_coherent:
  assumes "refineModelSpec hostname m = []" "fields_ok m" "\<forall>g. geometry = Some g \<longrightarrow> geometry_nonneg g"
  shows "estimate_ok (loaded_weights m)
     (if sp_kind m = VideoModel then VIDEO_ACCELERATOR_ROUNDING_BYTES else 0) (estimateCatalogModelMemory m geometry)"
proof -
  have acc: "accepted hostname m" using assms(1) by (simp add: accepted_def)
  note d = accepted_parts(1) [OF acc]
  have n: "sizes_nonneg m" using assms(2) by (simp add: fields_ok_def)
  have "ll_weightsBytes (catalogLlmReference m geometry) = totalArtifactBytes m"
    by (simp add: catalogLlmReference_def Let_def)
  moreover have "loaded_weights m = totalArtifactBytes m" if "sp_kind m \<noteq> VideoModel"
    using accepted_parts(5) [OF acc] that by (auto simp: video_issues_def split: if_splits intro!: loaded_without_video)
  ultimately show ?thesis
    using llm_estimate_ok [OF catalog_reference_ok, of m geometry] stt_estimate_ok [OF total_nonneg [OF n]]
      tts_estimate_ok [OF d n, of geometry] image_estimate_ok [OF acc n] video_estimate_ok [OF d assms(2)] assms(2,3)
    by (auto simp: estimateCatalogModelMemory_def split: model_kind.split)
qed

theorem catalog_estimate_coherent_witness:
  "estimate_ok (loaded_weights demo_tts) 0 (estimateCatalogModelMemory demo_tts (Some demo_geometry))"
  using catalog_estimate_coherent [OF demo_tts_accepted, of "Some demo_geometry"]
  by (simp add: fields_ok_def sizes_nonneg_def demo_tts_def demo_artifact_def video_bounds_of_def bounds_nonneg_def CATALOG_ONLY_VIDEO_def
      geometry_nonneg_def demo_geometry_def)

text \<open>
  a smaller context never turns an admitted launch away.  When the memory policy admits the
  estimated demand of a language model launch with some context, it admits that of the same launch with
  any smaller one, on the same sample and pools: cache, micro-batch and attention terms grow with the
  context, and the policy is antitone in the demand.
\<close>

theorem smaller_context_stays_admitted:
  assumes "launch_ok i" "ll_ctxTokens i \<le> c"
    and "evaluateMemoryAdmission t s config (me_demand (estimateLlmMemory (i\<lparr>ll_ctxTokens := c\<rparr>))) pool = Inr (Admitted ps hs)"
  shows "\<exists>ps' hs'. evaluateMemoryAdmission t s config (me_demand (estimateLlmMemory i)) pool = Inr (Admitted ps' hs')"
  using admitted_antimono [OF assms(3) llm_demand_mono [OF assms(1,2)]] .

definition demo_launch :: llm_launch where
  "demo_launch = \<lparr>ll_weightsBytes = 5000000000, ll_shape = \<lparr>rs_shape = \<lparr>ls_geometry = demo_geometry, ls_queryHeads = 8, ls_embeddingLength = 1024,
      ls_vocabSize = 152064\<rparr>, rs_source = FromGguf\<rparr>, ll_ctxTokens = 4096, ll_slots = 1, ll_cacheTypeK = Q8_0, ll_cacheTypeV = Q8_0,
     ll_promptCacheBytes = 0, ll_flashAttention = None, ll_decision = False\<rparr>"

lemma demo_launch_admitted:
  "case evaluateMemoryAdmission demo_topology (demo_snapshot (20 * gibibyte)) defaultMemorySafetyConfig
     (me_demand (estimateLlmMemory (demo_launch\<lparr>ll_ctxTokens := 16384\<rparr>))) None of Inr (Admitted ps hs) \<Rightarrow> True | _ \<Rightarrow> False"
  by code_simp

theorem smaller_context_stays_admitted_witness:
  "\<exists>ps hs. evaluateMemoryAdmission demo_topology (demo_snapshot (20 * gibibyte)) defaultMemorySafetyConfig
     (me_demand (estimateLlmMemory demo_launch)) None = Inr (Admitted ps hs)"
proof -
  obtain ps hs where "evaluateMemoryAdmission demo_topology (demo_snapshot (20 * gibibyte)) defaultMemorySafetyConfig
      (me_demand (estimateLlmMemory (demo_launch\<lparr>ll_ctxTokens := 16384\<rparr>))) None = Inr (Admitted ps hs)"
    using demo_launch_admitted by (auto split: sum.splits admission_decision.splits)
  from smaller_context_stays_admitted [OF _ _ this] show ?thesis
    by (simp add: demo_launch_def launch_ok_def shape_nonneg_def geometry_nonneg_def demo_geometry_def)
qed

text \<open>
  without a GGUF header the shape is the one the scaling formulas give: \<open>16 p^0.4\<close> layers rounded
  up and the rounded square root of the parameters over twelve times the layers, over the reals, of at
  least a tenth of a billion parameters.
\<close>

theorem fallback_shape_formula:
  "let p = max (1 / 10) parametersB; layers = \<lceil>16 * real_of_rat p powr (2 / 5)\<rceil> in
    kg_blockCount (ls_geometry (fallbackLlmShape parametersB)) = layers \<and>
    ls_embeddingLength (fallbackLlmShape parametersB) = \<lfloor>sqrt (real_of_rat (p * 1000000000) / (12 * real_of_int layers)) + 1 / 2\<rfloor>"
proof -
  define p where "p = max (1 / 10) parametersB"
  have p: "0 < p" by (simp add: p_def)
  define layers where "layers = fallback_layers p"
  have l: "layers = \<lceil>16 * real_of_rat p powr (2 / 5)\<rceil>" by (simp add: layers_def fallback_layers_powr [OF p])
  have "0 \<le> layers" by (simp add: layers_def fallback_layers_def)
  then have "0 \<le> p * 1000000000 / of_int (12 * layers)" using p by (intro divide_nonneg_nonneg) simp_all
  from rounded_sqrt_round [OF this] show ?thesis
    unfolding Let_def p_def [symmetric] l [symmetric]
    by (simp add: fallbackLlmShape_def dense_def denseGeometry_def Let_def of_rat_divide of_rat_mult flip: p_def layers_def)
qed

end
