(* ===== verification/Modality.thy ===== *)
theory Modality
  imports Prelude
begin

text \<open>
  The modality vocabulary every runtime component shares:
  \<^verbatim>\<open>src/src/domains/runtime/modality.ts\<close> and the lifecycle states of
  \<^verbatim>\<open>src/src/domains/runtime/health.ts\<close>.
\<close>

datatype runtime_modality = LLM | STT | TTS | Image | Video

definition runtimeModalities :: "runtime_modality list" where
  "runtimeModalities = [LLM, STT, TTS, Image, Video]"

datatype runtime_component = LlamaServer | WhisperServer | LlamaTts | TtsServer | SdServer

fun modalityComponents :: "runtime_modality \<Rightarrow> runtime_component" where
  "modalityComponents LLM = LlamaServer"
| "modalityComponents STT = WhisperServer"
| "modalityComponents TTS = LlamaTts"
| "modalityComponents Image = SdServer"
| "modalityComponents Video = SdServer"

datatype lifecycle_state =
  Disabled | Idle | Starting | Running | Draining | Stopping | Failed

lemma set_runtimeModalities [simp]: "set runtimeModalities = UNIV"
proof -
  have "m \<in> set runtimeModalities" for m
    by (cases m) (simp_all add: runtimeModalities_def)
  then show ?thesis by auto
qed

lemma distinct_runtimeModalities [simp]: "distinct runtimeModalities"
  by (simp add: runtimeModalities_def)

end
