(* ===== verification/Inference_Queue.thy ===== *)
theory Inference_Queue
  imports Modality
begin

text \<open>
  The bounded FIFO of inference permits, \<^verbatim>\<open>src/src/domains/runtime/inference-queue.ts\<close>.

  The class is asynchronous, but between two \<open>await\<close>s its code runs alone.  The model has
  one event per entry point: the public methods, the lease callbacks (\<open>start\<close>,
  \<open>release\<close>), the timer and abort listeners, and the two ways the awaited
  \<open>item.dispatch(...)\<close> can settle.  \<open>pump\<close> is cut at its single \<open>await\<close>: the loop
  before it is \<open>pump_loop\<close>, the code after it is \<open>dispatch_resolved\<close> and
  \<open>dispatch_rejected\<close>.  A \<open>Pending\<close> object is a record in a store indexed by its
  address; its promise is the \<open>settlement\<close> field, which only the first settling call
  changes.
\<close>

section \<open>State\<close>

datatype queue_error =
    CapacityError
  | TimeoutError ms
  | UnavailableError string
  | AbortedError
  | DispatchError string

record permit_snapshot =
  ps_active :: int
  ps_slots :: int
  ps_waiting :: nat

text \<open>A lease is \<open>Unpermitted\<close> when the value was not admitted: its \<open>release\<close> does nothing.\<close>

datatype lease_state = NoLease | Unpermitted | Held | Released

datatype 'v settlement =
    Unsettled
  | Resolved 'v ms permit_snapshot
  | Rejected queue_error

record 'v pending_item =
  item_modelId :: string
  item_signal :: "nat option"
  item_enqueuedAt :: ms
  item_timer :: bool
  item_abortListener :: bool
  item_queueWaitMs :: "ms option"
  item_cancellationError :: "queue_error option"
  item_settlement :: "'v settlement"
  item_lease :: lease_state

record 'v inference_queue =
  q_modality :: runtime_modality
  q_maxWaiting :: "nat option"
  q_waitMs :: "ms option"
  q_item :: "nat \<Rightarrow> 'v pending_item"
  q_next :: nat
  q_pending :: "nat list"
  q_inFlight :: "nat list"
  q_active :: int
  q_activeModel :: "string option"
  q_slots :: int
  q_dispatching :: bool
  q_awaiting :: "nat option"
  q_closedError :: "queue_error option"
  q_aborted :: "nat list"

definition DEFAULT_MAX_WAITING_INFERENCES :: nat where
  "DEFAULT_MAX_WAITING_INFERENCES = 16"

definition DEFAULT_INFERENCE_QUEUE_WAIT_MS :: ms where
  "DEFAULT_INFERENCE_QUEUE_WAIT_MS = 60000"

definition blank_item :: "'v pending_item" where
  "blank_item = \<lparr>item_modelId = [], item_signal = None, item_enqueuedAt = 0,
     item_timer = False, item_abortListener = False, item_queueWaitMs = None,
     item_cancellationError = None, item_settlement = Unsettled, item_lease = NoLease\<rparr>"

definition new_queue :: "runtime_modality \<Rightarrow> nat option \<Rightarrow> ms option \<Rightarrow> 'v inference_queue" where
  "new_queue modality maxWaiting waitMs =
     \<lparr>q_modality = modality, q_maxWaiting = maxWaiting, q_waitMs = waitMs,
      q_item = (\<lambda>_. blank_item), q_next = 0, q_pending = [], q_inFlight = [],
      q_active = 0, q_activeModel = None, q_slots = 1, q_dispatching = False,
      q_awaiting = None, q_closedError = None, q_aborted = []\<rparr>"

definition queue_capacity :: "'v inference_queue \<Rightarrow> nat" where
  "queue_capacity q = (case q_maxWaiting q of None \<Rightarrow> DEFAULT_MAX_WAITING_INFERENCES | Some n \<Rightarrow> n)"

record inference_queue_snapshot =
  qs_waiting :: nat
  qs_active :: int
  qs_immediateDispatchAvailable :: "bool option"
  qs_capacity :: nat
  qs_maxWaitMs :: ms
  qs_accepting :: bool

definition queue_snapshot :: "string option \<Rightarrow> 'v inference_queue \<Rightarrow> inference_queue_snapshot" where
  "queue_snapshot modelId q =
     \<lparr>qs_waiting = length (q_pending q),
      qs_active = q_active q,
      qs_immediateDispatchAvailable =
        (case modelId of None \<Rightarrow> None
         | Some m \<Rightarrow> Some (q_closedError q = None \<and> \<not> q_dispatching q \<and> q_pending q = [] \<and>
             q_active q < q_slots q \<and>
             (q_activeModel q = None \<or> q_activeModel q = Some m))),
      qs_capacity = queue_capacity q,
      qs_maxWaitMs =
        (case q_waitMs q of None \<Rightarrow> DEFAULT_INFERENCE_QUEUE_WAIT_MS | Some w \<Rightarrow> w),
      qs_accepting = (q_closedError q = None)\<rparr>"

section \<open>Item updates\<close>

definition upd_item ::
  "nat \<Rightarrow> ('v pending_item \<Rightarrow> 'v pending_item) \<Rightarrow> 'v inference_queue \<Rightarrow> 'v inference_queue" where
  "upd_item i f q = q\<lparr>q_item := (q_item q)(i := f (q_item q i))\<rparr>"

text \<open>\<open>resolve\<close> and \<open>reject\<close> of the item's promise: the first call wins.\<close>

definition settle :: "'v settlement \<Rightarrow> 'v pending_item \<Rightarrow> 'v pending_item" where
  "settle r it = (case item_settlement it of Unsettled \<Rightarrow> it\<lparr>item_settlement := r\<rparr> | _ \<Rightarrow> it)"

text \<open>The five lines \<open>rejectPending\<close> and \<open>remove\<close> run on each item they take out.\<close>

definition cancel_item :: "queue_error \<Rightarrow> 'v pending_item \<Rightarrow> 'v pending_item" where
  "cancel_item e it =
     settle (Rejected e)
       (it\<lparr>item_timer := False, item_abortListener := False, item_cancellationError := Some e\<rparr>)"

section \<open>Dispatching\<close>

definition canDispatchHead :: "'v inference_queue \<Rightarrow> bool" where
  "canDispatchHead q =
     (if q_closedError q \<noteq> None then False
      else (case q_pending q of [] \<Rightarrow> False
        | head # _ \<Rightarrow>
            if q_active q \<ge> q_slots q then False
            else q_activeModel q = None \<or> q_activeModel q = Some (item_modelId (q_item q head))))"

definition signal_aborted :: "'v inference_queue \<Rightarrow> nat option \<Rightarrow> bool" where
  "signal_aborted q s = (case s of None \<Rightarrow> False | Some n \<Rightarrow> n \<in> set (q_aborted q))"

text \<open>
  The loop of \<open>pump\<close> up to the \<open>await\<close>.  Returning leaves through \<open>finally\<close>, whose
  re-check of \<open>canDispatchHead\<close> sees the state the loop just refused.  An aborted head is
  rejected but stays the head, so the loop can spin: then there is no result.
\<close>

partial_function (option) pump_loop :: "'v inference_queue \<Rightarrow> 'v inference_queue option" where
  "pump_loop q =
     (if \<not> canDispatchHead q then Some (q\<lparr>q_dispatching := False, q_awaiting := None\<rparr>)
      else if signal_aborted q (item_signal (q_item q (hd (q_pending q))))
        then pump_loop (upd_item (hd (q_pending q)) (settle (Rejected AbortedError)) q)
      else Some (q\<lparr>q_awaiting := Some (hd (q_pending q))\<rparr>))"

definition pump :: "'v inference_queue \<Rightarrow> 'v inference_queue option" where
  "pump q = (if q_dispatching q then Some q else pump_loop (q\<lparr>q_dispatching := True\<rparr>))"

definition pump_if_dispatchable :: "'v inference_queue \<Rightarrow> 'v inference_queue option" where
  "pump_if_dispatchable q = (if canDispatchHead q then pump q else Some q)"

definition remove_item :: "queue_error \<Rightarrow> nat \<Rightarrow> 'v inference_queue \<Rightarrow> 'v inference_queue option" where
  "remove_item e i q =
     (if i \<in> set (q_pending q) then
        pump_if_dispatchable (upd_item i (cancel_item e) (q\<lparr>q_pending := remove1 i (q_pending q)\<rparr>))
      else if i \<in> set (q_inFlight q) then
        pump_if_dispatchable (upd_item i (cancel_item e) (q\<lparr>q_inFlight := remove1 i (q_inFlight q)\<rparr>))
      else Some q)"

section \<open>Public operations\<close>

definition acquire ::
  "string \<Rightarrow> nat option \<Rightarrow> ms \<Rightarrow> 'v inference_queue \<Rightarrow> ((queue_error + nat) \<times> 'v inference_queue) option"
where
  "acquire modelId signal now q =
     (if signal_aborted q signal then Some (Inl AbortedError, q)
      else case q_closedError q of Some e \<Rightarrow> Some (Inl e, q)
      | None \<Rightarrow>
        if queue_capacity q \<le> length (q_pending q) then Some (Inl CapacityError, q)
        else
          let i = q_next q;
              it = \<lparr>item_modelId = modelId, item_signal = signal, item_enqueuedAt = now,
                    item_timer = True, item_abortListener = (signal \<noteq> None),
                    item_queueWaitMs = None, item_cancellationError = None,
                    item_settlement = Unsettled, item_lease = NoLease\<rparr>
          in map_option (Pair (Inr i))
               (pump (q\<lparr>q_item := (q_item q)(i := it), q_next := Suc i,
                        q_pending := q_pending q @ [i]\<rparr>)))"

definition rejectPending :: "queue_error \<Rightarrow> 'v inference_queue \<Rightarrow> 'v inference_queue" where
  "rejectPending e q =
     (let rejected = q_pending q @ q_inFlight q
      in q\<lparr>q_pending := [], q_inFlight := [],
           q_item := (\<lambda>i. if i \<in> set rejected then cancel_item e (q_item q i) else q_item q i)\<rparr>)"

definition close :: "queue_error \<Rightarrow> 'v inference_queue \<Rightarrow> 'v inference_queue" where
  "close e q = rejectPending e (q\<lparr>q_closedError := Some e\<rparr>)"

section \<open>The dispatch lease\<close>

text \<open>\<open>lease.start()\<close> of item \<open>i\<close>; a thrown error is \<open>Inl\<close>.\<close>

definition start :: "nat \<Rightarrow> ms \<Rightarrow> 'v inference_queue \<Rightarrow> queue_error + 'v inference_queue" where
  "start i now q =
     (case item_cancellationError (q_item q i) of Some e \<Rightarrow> Inl e
      | None \<Rightarrow>
        if q_pending q = [] \<or> hd (q_pending q) \<noteq> i \<or> q_closedError q \<noteq> None
        then Inl (UnavailableError ''Inference admission is no longer owned by the queue.'')
        else if item_queueWaitMs (q_item q i) \<noteq> None then Inr q
        else Inr (upd_item i
               (\<lambda>it. it\<lparr>item_queueWaitMs := Some (max 0 (now - item_enqueuedAt it)),
                       item_timer := False\<rparr>)
               (q\<lparr>q_pending := tl (q_pending q),
                  q_inFlight := q_inFlight q @ [i]\<rparr>)))"

text \<open>
  The code after the \<open>await\<close>.  \<open>admitted\<close> and \<open>resolvedSlots\<close> are what the callbacks
  \<open>isAdmitted(value)\<close> and \<open>resolvedSlots(value)\<close> answer at this moment.
\<close>

definition dispatch_rejected ::
  "queue_error \<Rightarrow> nat \<Rightarrow> 'v inference_queue \<Rightarrow> 'v inference_queue option" where
  "dispatch_rejected e i q =
     (let reject = (\<lambda>q. upd_item i
            (\<lambda>it. settle (Rejected e) (it\<lparr>item_timer := False, item_abortListener := False\<rparr>))
            (q\<lparr>q_activeModel := (if q_active q = 0 then None else q_activeModel q)\<rparr>))
      in if i \<in> set (q_pending q)
           then pump_loop (reject (q\<lparr>q_pending := remove1 i (q_pending q)\<rparr>))
         else if i \<in> set (q_inFlight q)
           then pump_loop (reject (q\<lparr>q_inFlight := remove1 i (q_inFlight q)\<rparr>))
         else pump_loop q)"

definition dispatch_resolved ::
  "'v \<Rightarrow> bool \<Rightarrow> int \<Rightarrow> nat \<Rightarrow> 'v inference_queue \<Rightarrow> 'v inference_queue option" where
  "dispatch_resolved v admitted resolvedSlots i q =
     (if i \<notin> set (q_inFlight q) then pump_loop q
      else
        let q1 = upd_item i (\<lambda>it. it\<lparr>item_abortListener := False\<rparr>)
                   (q\<lparr>q_inFlight := remove1 i (q_inFlight q)\<rparr>)
        in case item_queueWaitMs (q_item q i) of
             None \<Rightarrow> dispatch_rejected (DispatchError ''Inference dispatch completed before start.'') i q1
           | Some wait \<Rightarrow>
               if \<not> admitted then
                 pump_loop (upd_item i
                   (\<lambda>it. settle (Resolved v wait
                      \<lparr>ps_active = q_active q1, ps_slots = q_slots q1, ps_waiting = length (q_pending q1)\<rparr>)
                      (it\<lparr>item_lease := Unpermitted\<rparr>)) q1)
               else
                 let q2 = q1\<lparr>q_activeModel := Some (item_modelId (q_item q i)),
                             q_active := q_active q1 + 1,
                             q_slots := max 1 (if q_modality q = LLM then resolvedSlots else 1)\<rparr>
                 in pump_loop (upd_item i
                   (\<lambda>it. settle (Resolved v wait
                      \<lparr>ps_active = q_active q2, ps_slots = q_slots q2, ps_waiting = length (q_pending q2)\<rparr>)
                      (it\<lparr>item_lease := Held\<rparr>)) q2))"

definition release :: "nat \<Rightarrow> 'v inference_queue \<Rightarrow> 'v inference_queue option" where
  "release i q =
     (if item_lease (q_item q i) \<noteq> Held then Some q
      else
        let q1 = upd_item i (\<lambda>it. it\<lparr>item_lease := Released\<rparr>) (q\<lparr>q_active := q_active q - 1\<rparr>)
        in pump (if q_active q1 = 0 then q1\<lparr>q_activeModel := None, q_slots := 1\<rparr> else q1))"

text \<open>The continuation of \<open>whenSlotsResolved(value)\<close> for the admitted item \<open>i\<close>.\<close>

definition slots_resolved :: "nat \<Rightarrow> int \<Rightarrow> 'v inference_queue \<Rightarrow> 'v inference_queue option" where
  "slots_resolved i resolvedSlots q =
     (if q_activeModel q \<noteq> Some (item_modelId (q_item q i)) then Some q
      else pump (q\<lparr>q_slots := max 1 resolvedSlots\<rparr>))"

section \<open>Timers and abort signals\<close>

definition timer_fires :: "nat \<Rightarrow> ms \<Rightarrow> 'v inference_queue \<Rightarrow> 'v inference_queue option" where
  "timer_fires i now q =
     (if \<not> item_timer (q_item q i) then Some q
      else remove_item (TimeoutError (max 0 (now - item_enqueuedAt (q_item q i)))) i
             (upd_item i (\<lambda>it. it\<lparr>item_timer := False\<rparr>) q))"

text \<open>
  Aborting a signal sets its flag and then runs the registered listeners in order; a
  listener is registered once and removes itself when it fires.
\<close>

fun run_listeners :: "nat list \<Rightarrow> nat \<Rightarrow> 'v inference_queue \<Rightarrow> 'v inference_queue option" where
  "run_listeners [] s q = Some q"
| "run_listeners (i # is) s q =
     (if item_abortListener (q_item q i) \<and> item_signal (q_item q i) = Some s
      then (case remove_item AbortedError i
                  (upd_item i (\<lambda>it. it\<lparr>item_abortListener := False\<rparr>) q) of
              None \<Rightarrow> None | Some q' \<Rightarrow> run_listeners is s q')
      else run_listeners is s q)"

definition abort_signal :: "nat \<Rightarrow> 'v inference_queue \<Rightarrow> 'v inference_queue option" where
  "abort_signal s q =
     (if s \<in> set (q_aborted q) then Some q
      else run_listeners [0..<q_next q] s (q\<lparr>q_aborted := s # q_aborted q\<rparr>))"

section \<open>Events\<close>

datatype 'v queue_event =
    EvAcquire string "nat option" ms
  | EvStart ms
  | EvResolve 'v bool int
  | EvReject queue_error
  | EvRelease nat
  | EvSlots nat int
  | EvTimer nat ms
  | EvAbort nat
  | EvRejectPending queue_error
  | EvClose queue_error

fun queue_step :: "'v queue_event \<Rightarrow> 'v inference_queue \<Rightarrow> 'v inference_queue option" where
  "queue_step (EvAcquire m s now) q = map_option snd (acquire m s now q)"
| "queue_step (EvStart now) q =
     (case q_awaiting q of None \<Rightarrow> Some q
      | Some i \<Rightarrow> (case start i now q of Inl _ \<Rightarrow> Some q | Inr q' \<Rightarrow> Some q'))"
| "queue_step (EvResolve v adm n) q =
     (case q_awaiting q of None \<Rightarrow> Some q | Some i \<Rightarrow> dispatch_resolved v adm n i q)"
| "queue_step (EvReject e) q =
     (case q_awaiting q of None \<Rightarrow> Some q | Some i \<Rightarrow> dispatch_rejected e i q)"
| "queue_step (EvRelease i) q = (if i < q_next q then release i q else Some q)"
| "queue_step (EvSlots i n) q =
     (if i < q_next q \<and> item_lease (q_item q i) \<in> {Held, Released} then slots_resolved i n q else Some q)"
| "queue_step (EvTimer i now) q = (if i < q_next q then timer_fires i now q else Some q)"
| "queue_step (EvAbort s) q = abort_signal s q"
| "queue_step (EvRejectPending e) q = Some (rejectPending e q)"
| "queue_step (EvClose e) q = Some (close e q)"

abbreviation queue_run :: "'v queue_event list \<Rightarrow> 'v inference_queue \<Rightarrow> 'v inference_queue option" where
  "queue_run \<equiv> run_events queue_step"

section \<open>The pump loop\<close>

lemma q_item_upd_item [simp]: "q_item (upd_item i f q) j = (if j = i then f (q_item q i) else q_item q j)"
  by (simp add: upd_item_def)

lemma upd_item_frame [simp]:
  "q_modality (upd_item i f q) = q_modality q"
  "q_maxWaiting (upd_item i f q) = q_maxWaiting q"
  "q_next (upd_item i f q) = q_next q"
  "q_pending (upd_item i f q) = q_pending q"
  "q_inFlight (upd_item i f q) = q_inFlight q"
  "q_active (upd_item i f q) = q_active q"
  "q_activeModel (upd_item i f q) = q_activeModel q"
  "q_slots (upd_item i f q) = q_slots q"
  "q_dispatching (upd_item i f q) = q_dispatching q"
  "q_awaiting (upd_item i f q) = q_awaiting q"
  "q_closedError (upd_item i f q) = q_closedError q"
  "q_aborted (upd_item i f q) = q_aborted q"
  "queue_capacity (upd_item i f q) = queue_capacity q"
  "signal_aborted (upd_item i f q) s = signal_aborted q s"
  by (simp_all add: upd_item_def queue_capacity_def signal_aborted_def split: option.splits)

lemma settle_frame [simp]:
  "item_modelId (settle r it) = item_modelId it"
  "item_signal (settle r it) = item_signal it"
  "item_enqueuedAt (settle r it) = item_enqueuedAt it"
  "item_timer (settle r it) = item_timer it"
  "item_abortListener (settle r it) = item_abortListener it"
  "item_queueWaitMs (settle r it) = item_queueWaitMs it"
  "item_cancellationError (settle r it) = item_cancellationError it"
  "item_lease (settle r it) = item_lease it"
  "item_settlement (settle r it) =
     (if item_settlement it = Unsettled then r else item_settlement it)"
  by (auto simp: settle_def split: settlement.splits)

lemma cancel_item_simps [simp]:
  "item_modelId (cancel_item e it) = item_modelId it"
  "item_signal (cancel_item e it) = item_signal it"
  "item_queueWaitMs (cancel_item e it) = item_queueWaitMs it"
  "item_cancellationError (cancel_item e it) = Some e"
  "item_lease (cancel_item e it) = item_lease it"
  "item_timer (cancel_item e it) = False"
  "item_abortListener (cancel_item e it) = False"
  "item_settlement (cancel_item e it) =
     (if item_settlement it = Unsettled then Rejected e else item_settlement it)"
  by (simp_all add: cancel_item_def)

lemma canDispatchHead_upd_item [simp]:
  "(\<And>it. item_modelId (f it) = item_modelId it) \<Longrightarrow> canDispatchHead (upd_item i f q) = canDispatchHead q"
  by (auto simp: canDispatchHead_def split: list.splits)

definition spins :: "'v inference_queue \<Rightarrow> bool" where
  "spins q \<longleftrightarrow> canDispatchHead q \<and> signal_aborted q (item_signal (q_item q (hd (q_pending q))))"

lemma spins_again: "spins q \<Longrightarrow> spins (upd_item i (settle r) q)"
  by (auto simp: spins_def)

lemma pump_loop_not_spins: "pump_loop q = Some q' \<Longrightarrow> \<not> spins q"
proof (rule pump_loop.raw_induct [where P = "\<lambda>q q'. \<not> spins q"])
  fix f :: "'v inference_queue \<Rightarrow> 'v inference_queue option" and q q'
  assume IH: "\<And>q q'. f q = Some q' \<Longrightarrow> \<not> spins q"
    and eq: "(if \<not> canDispatchHead q then Some (q\<lparr>q_dispatching := False, q_awaiting := None\<rparr>)
      else if signal_aborted q (item_signal (q_item q (hd (q_pending q))))
        then f (upd_item (hd (q_pending q)) (settle (Rejected AbortedError)) q)
      else Some (q\<lparr>q_awaiting := Some (hd (q_pending q))\<rparr>)) = Some q'"
  show "\<not> spins q"
  proof
    assume sp: "spins q"
    with eq have "f (upd_item (hd (q_pending q)) (settle (Rejected AbortedError)) q) = Some q'"
      by (simp add: spins_def)
    with IH sp show False using spins_again by blast
  qed
qed

text \<open>The loop either spins for ever or settles in one of two ways.\<close>

lemma pump_loop_eq:
  "pump_loop q =
     (if spins q then None
      else if canDispatchHead q then Some (q\<lparr>q_awaiting := Some (hd (q_pending q))\<rparr>)
      else Some (q\<lparr>q_dispatching := False, q_awaiting := None\<rparr>))"
proof (cases "spins q")
  case True
  then show ?thesis using pump_loop_not_spins [of q] by (cases "pump_loop q") auto
next
  case False
  then show ?thesis by (subst pump_loop.simps) (auto simp: spins_def)
qed


section \<open>The queue invariant\<close>

definition owned :: "'v inference_queue \<Rightarrow> nat \<Rightarrow> bool" where
  "owned q i \<longleftrightarrow> i \<in> set (q_pending q) \<or> i \<in> set (q_inFlight q)"

definition held :: "'v inference_queue \<Rightarrow> nat set" where
  "held q = {i. i < q_next q \<and> item_lease (q_item q i) = Held}"

definition lists_ok :: "'v inference_queue \<Rightarrow> bool" where
  "lists_ok q \<longleftrightarrow> distinct (q_pending q @ q_inFlight q) \<and> sorted (q_pending q) \<and>
     (\<forall>i. owned q i \<longrightarrow> i < q_next q) \<and> length (q_pending q) \<le> queue_capacity q \<and>
     (q_closedError q \<noteq> None \<longrightarrow> q_pending q = [] \<and> q_inFlight q = [])"

definition items_ok :: "nat set \<Rightarrow> 'v inference_queue \<Rightarrow> bool" where
  "items_ok L q \<longleftrightarrow> (\<forall>i < q_next q.
     (item_settlement (q_item q i) = Unsettled \<longleftrightarrow> owned q i) \<and>
     (item_abortListener (q_item q i) \<longleftrightarrow> owned q i \<and> item_signal (q_item q i) \<noteq> None) \<and>
     (i \<in> set (q_pending q) \<longrightarrow> item_queueWaitMs (q_item q i) = None) \<and>
     (i \<in> set (q_inFlight q) \<longrightarrow> item_queueWaitMs (q_item q i) \<noteq> None) \<and>
     (owned q i \<longrightarrow> item_cancellationError (q_item q i) = None \<and> item_lease (q_item q i) = NoLease) \<and>
     (owned q i \<and> signal_aborted q (item_signal (q_item q i)) \<longrightarrow> i \<in> L))"

definition permits_ok :: "'v inference_queue \<Rightarrow> bool" where
  "permits_ok q \<longleftrightarrow> q_active q = int (card (held q)) \<and>
     (q_active q = 0 \<longleftrightarrow> q_activeModel q = None) \<and>
     (\<forall>i \<in> held q. q_activeModel q = Some (item_modelId (q_item q i))) \<and> 1 \<le> q_slots q"

definition queue_body :: "nat set \<Rightarrow> 'v inference_queue \<Rightarrow> bool" where
  "queue_body L q \<longleftrightarrow> lists_ok q \<and> items_ok L q \<and> permits_ok q"

definition awaits_ok :: "'v inference_queue \<Rightarrow> bool" where
  "awaits_ok q \<longleftrightarrow> (q_dispatching q \<longleftrightarrow> q_awaiting q \<noteq> None) \<and>
     (case q_awaiting q of None \<Rightarrow> q_inFlight q = []
      | Some i \<Rightarrow> i < q_next q \<and> set (q_inFlight q) \<subseteq> {i} \<and>
          (i \<in> set (q_pending q) \<longrightarrow> hd (q_pending q) = i) \<and>
          (owned q i \<longrightarrow> q_activeModel q = None \<or> q_activeModel q = Some (item_modelId (q_item q i))))"

definition wakeful :: "'v inference_queue \<Rightarrow> bool" where
  "wakeful q \<longleftrightarrow> (\<not> q_dispatching q \<longrightarrow> \<not> canDispatchHead q)"

definition queue_ok :: "nat set \<Rightarrow> 'v inference_queue \<Rightarrow> bool" where
  "queue_ok L q \<longleftrightarrow> queue_body L q \<and> awaits_ok q \<and> wakeful q"

abbreviation queue_inv :: "'v inference_queue \<Rightarrow> bool" where
  "queue_inv \<equiv> queue_ok {}"

lemmas queue_body_defs = queue_body_def lists_ok_def items_ok_def permits_ok_def

lemma owned_upd [simp]: "owned (upd_item i f q) = owned q"
  by (simp add: owned_def fun_eq_iff)

lemma finite_held [simp, intro]: "finite (held q)"
  by (simp add: held_def)

lemma control_frame [simp]:
  "owned (q\<lparr>q_dispatching := d\<rparr>) = owned q"
  "owned (q\<lparr>q_awaiting := a\<rparr>) = owned q"
  "held (q\<lparr>q_dispatching := d\<rparr>) = held q"
  "held (q\<lparr>q_awaiting := a\<rparr>) = held q"
  "queue_capacity (q\<lparr>q_dispatching := d\<rparr>) = queue_capacity q"
  "queue_capacity (q\<lparr>q_awaiting := a\<rparr>) = queue_capacity q"
  "signal_aborted (q\<lparr>q_dispatching := d\<rparr>) = signal_aborted q"
  "signal_aborted (q\<lparr>q_awaiting := a\<rparr>) = signal_aborted q"
  "canDispatchHead (q\<lparr>q_dispatching := d\<rparr>) = canDispatchHead q"
  "canDispatchHead (q\<lparr>q_awaiting := a\<rparr>) = canDispatchHead q"
  by (simp_all add: owned_def held_def queue_capacity_def signal_aborted_def canDispatchHead_def
      fun_eq_iff split: list.split option.split)

lemma queue_body_control [simp]:
  "queue_body L (q\<lparr>q_dispatching := d\<rparr>) = queue_body L q"
  "queue_body L (q\<lparr>q_awaiting := a\<rparr>) = queue_body L q"
  by (simp_all add: queue_body_defs)

lemma spins_dispatching [simp]: "spins (q\<lparr>q_dispatching := d\<rparr>) = spins q"
  by (simp add: spins_def)

lemma canDispatchHeadD:
  "canDispatchHead q \<Longrightarrow> \<exists>i is. q_pending q = i # is \<and> q_closedError q = None \<and>
     q_active q < q_slots q \<and> (q_activeModel q = None \<or> q_activeModel q = Some (item_modelId (q_item q i)))"
  by (auto simp: canDispatchHead_def split: if_splits list.splits)

text \<open>The loop resumed after a settled dispatch, and the guarded call from the other operations.\<close>

lemma pump_loop_ok:
  assumes "queue_body L q" "q_inFlight q = []" "q_dispatching q" "pump_loop q = Some q'"
  shows "queue_ok L q'"
proof (cases "canDispatchHead q")
  case True
  then obtain i "is" where i: "q_pending q = i # is"
      "q_activeModel q = None \<or> q_activeModel q = Some (item_modelId (q_item q i))"
    using canDispatchHeadD by blast
  have "q' = q\<lparr>q_awaiting := Some i\<rparr>"
    using assms(4) True i by (auto simp: pump_loop_eq split: if_splits)
  moreover have "i < q_next q" using assms(1) i by (auto simp: queue_body_defs owned_def)
  ultimately show ?thesis
    using assms i by (simp add: queue_ok_def awaits_ok_def wakeful_def)
next
  case False
  then have "q' = q\<lparr>q_dispatching := False, q_awaiting := None\<rparr>"
    using assms(4) by (auto simp: pump_loop_eq split: if_splits)
  then show ?thesis
    using assms False by (simp add: queue_ok_def awaits_ok_def wakeful_def)
qed

lemma pump_ok:
  assumes "queue_body L q" "awaits_ok q" "pump q = Some q'"
  shows "queue_ok L q'"
proof (cases "q_dispatching q")
  case True
  with assms show ?thesis by (simp add: pump_def queue_ok_def wakeful_def)
next
  case False
  then have "q_inFlight q = []" using assms(2) by (auto simp: awaits_ok_def)
  moreover have "pump_loop (q\<lparr>q_dispatching := True\<rparr>) = Some q'"
    using assms(3) False by (simp add: pump_def)
  ultimately show ?thesis
    using assms(1) by (intro pump_loop_ok [of L "q\<lparr>q_dispatching := True\<rparr>"]) simp_all
qed

lemma pump_if_dispatchable_ok:
  assumes "queue_body L q" "awaits_ok q" "pump_if_dispatchable q = Some q'"
  shows "queue_ok L q'"
proof (cases "canDispatchHead q")
  case True
  then show ?thesis using assms pump_ok by (simp add: pump_if_dispatchable_def)
next
  case False
  then show ?thesis using assms by (simp add: pump_if_dispatchable_def queue_ok_def wakeful_def)
qed

section \<open>Items leaving the queue\<close>

definition unlist :: "nat \<Rightarrow> 'v inference_queue \<Rightarrow> 'v inference_queue" where
  "unlist i q = q\<lparr>q_pending := remove1 i (q_pending q), q_inFlight := remove1 i (q_inFlight q)\<rparr>"

lemma unlist_frame [simp]:
  "q_item (unlist i q) = q_item q" "q_next (unlist i q) = q_next q"
  "q_active (unlist i q) = q_active q" "q_activeModel (unlist i q) = q_activeModel q"
  "q_slots (unlist i q) = q_slots q" "q_dispatching (unlist i q) = q_dispatching q"
  "q_awaiting (unlist i q) = q_awaiting q" "q_closedError (unlist i q) = q_closedError q"
  "q_modality (unlist i q) = q_modality q"
  "queue_capacity (unlist i q) = queue_capacity q"
  "signal_aborted (unlist i q) = signal_aborted q"
  "held (unlist i q) = held q"
  "q_pending (unlist i q) = remove1 i (q_pending q)"
  "q_inFlight (unlist i q) = remove1 i (q_inFlight q)"
  by (simp_all add: unlist_def queue_capacity_def signal_aborted_def held_def fun_eq_iff split: option.split)

lemma unlist_pending:
  assumes "lists_ok q" "i \<in> set (q_pending q)"
  shows "q\<lparr>q_pending := remove1 i (q_pending q)\<rparr> = unlist i q"
proof -
  have "i \<notin> set (q_inFlight q)" using assms by (auto simp: lists_ok_def)
  then show ?thesis by (simp add: unlist_def remove1_idem)
qed

lemma unlist_inFlight:
  assumes "lists_ok q" "i \<in> set (q_inFlight q)"
  shows "q\<lparr>q_inFlight := remove1 i (q_inFlight q)\<rparr> = unlist i q"
proof -
  have "i \<notin> set (q_pending q)" using assms by (auto simp: lists_ok_def)
  then show ?thesis by (simp add: unlist_def remove1_idem)
qed

lemma unlist_sets:
  assumes "lists_ok q"
  shows "set (remove1 i (q_pending q)) = set (q_pending q) - {i}"
    and "set (remove1 i (q_inFlight q)) = set (q_inFlight q) - {i}"
  using assms by (simp_all add: lists_ok_def)

lemma owned_unlist:
  assumes "lists_ok q"
  shows "owned (unlist i q) j \<longleftrightarrow> j \<noteq> i \<and> owned q j"
proof -
  have "distinct (q_pending q)" "distinct (q_inFlight q)" using assms by (auto simp: lists_ok_def)
  then show ?thesis by (auto simp: owned_def)
qed

lemma lists_ok_unlist: "lists_ok q \<Longrightarrow> lists_ok (unlist i q)"
  using set_remove1_subset [of i "q_pending q"] set_remove1_subset [of i "q_inFlight q"]
  by (auto simp: lists_ok_def owned_def distinct_remove1 sorted_remove1 length_remove1
      dest: notin_set_remove1)

lemma lists_ok_upd [simp]: "lists_ok (upd_item i f q) = lists_ok q"
  by (simp add: lists_ok_def)

lemma held_upd: "held (upd_item i f q) =
   (if i < q_next q \<and> item_lease (f (q_item q i)) = Held then insert i (held q) else held q - {i})"
  by (auto simp: held_def)

lemma drop_body:
  assumes q: "queue_body L q" and i: "owned q i"
    and settled: "item_settlement (f (q_item q i)) \<noteq> Unsettled"
    and lst: "\<not> item_abortListener (f (q_item q i))"
    and lease: "item_lease (f (q_item q i)) \<noteq> Held"
  shows "queue_body (L - {i}) (upd_item i f (unlist i q))"
proof -
  have l: "lists_ok q" using q by (simp add: queue_body_def)
  have h: "i \<notin> held q" using q i by (auto simp: queue_body_defs held_def)
  have "items_ok (L - {i}) (upd_item i f (unlist i q))"
    using q l settled lst by (auto simp: queue_body_def items_ok_def owned_unlist unlist_sets)
  moreover have "permits_ok (upd_item i f (unlist i q))"
    using q lease h by (auto simp: queue_body_def permits_ok_def held_upd)
  ultimately show ?thesis using l by (simp add: queue_body_def lists_ok_unlist)
qed

lemma drop_awaits:
  assumes "queue_body L q" "awaits_ok q"
  shows "awaits_ok (upd_item i f (unlist i q))"
proof -
  have l: "lists_ok q" using assms by (simp add: queue_body_def)
  then have d: "distinct (q_pending q)" by (simp add: lists_ok_def)
  show ?thesis
  proof (cases "q_awaiting q")
    case None
    then show ?thesis using assms by (simp add: awaits_ok_def)
  next
    case (Some j)
    have "hd (remove1 i (q_pending q)) = j" if "j \<in> set (remove1 i (q_pending q))"
      using that assms Some d
      by (cases "q_pending q") (auto simp: awaits_ok_def dest: notin_set_remove1 split: if_splits)
    then show ?thesis
      using assms Some l set_remove1_subset [of i "q_inFlight q"]
      by (auto simp: awaits_ok_def owned_unlist)
  qed
qed

lemma upd_item_upd_item: "upd_item i g (upd_item i f q) = upd_item i (\<lambda>it. g (f it)) q"
  by (simp add: upd_item_def)

lemma upd_item_lists:
  "upd_item i f (q\<lparr>q_pending := p\<rparr>) = (upd_item i f q)\<lparr>q_pending := p\<rparr>"
  "upd_item i f (q\<lparr>q_inFlight := p\<rparr>) = (upd_item i f q)\<lparr>q_inFlight := p\<rparr>"
  by (simp_all add: upd_item_def)

lemma upd_item_unlist: "unlist i (upd_item j f q) = upd_item j f (unlist i q)"
  by (simp add: upd_item_def unlist_def)

lemma remove_item_unlist:
  "lists_ok q \<Longrightarrow> remove_item e i q =
     (if owned q i then pump_if_dispatchable (upd_item i (cancel_item e) (unlist i q)) else Some q)"
  by (auto simp: remove_item_def owned_def unlist_pending unlist_inFlight)

lemma remove_item_ok:
  assumes q: "queue_body L q" "awaits_ok q" and i: "owned q i"
    and f: "\<And>it. cancel_item e (f it) = cancel_item e it"
    and r: "remove_item e i (upd_item i f q) = Some q'"
  shows "queue_ok (L - {i}) q'"
proof -
  have l: "lists_ok q" using q by (simp add: queue_body_def)
  have "pump_if_dispatchable (upd_item i (cancel_item e) (unlist i q)) = Some q'"
    using r l i by (simp add: remove_item_unlist upd_item_unlist upd_item_upd_item f)
  moreover have "queue_body (L - {i}) (upd_item i (cancel_item e) (unlist i q))"
    using q i by (intro drop_body) (auto simp: queue_body_defs)
  ultimately show ?thesis
    using q drop_awaits pump_if_dispatchable_ok by blast
qed

section \<open>Every event preserves the invariant\<close>

lemma acquire_ok:
  assumes q: "queue_ok L q" and r: "acquire m s now q = Some (res, q')"
  shows "queue_ok L q'"
proof (cases "q' = q")
  case False
  let ?i = "q_next q"
  define it :: "'a pending_item" where "it = \<lparr>item_modelId = m, item_signal = s, item_enqueuedAt = now,
    item_timer = True, item_abortListener = (s \<noteq> None), item_queueWaitMs = None,
    item_cancellationError = None, item_settlement = Unsettled, item_lease = NoLease\<rparr>"
  define q1 where "q1 = q\<lparr>q_item := (q_item q)(?i := it), q_next := Suc ?i,
    q_pending := q_pending q @ [?i]\<rparr>"
  have g: "\<not> signal_aborted q s" "q_closedError q = None" "length (q_pending q) < queue_capacity q"
    and p: "pump q1 = Some q'"
    using r False by (auto simp: acquire_def Let_def q1_def it_def split: if_splits option.splits)
  have sa: "signal_aborted q1 = signal_aborted q" and cap: "queue_capacity q1 = queue_capacity q"
    by (simp_all add: q1_def signal_aborted_def queue_capacity_def fun_eq_iff split: option.split)
  have ow: "owned q1 j \<longleftrightarrow> owned q j \<or> j = ?i" for j
    by (auto simp: q1_def owned_def)
  have fresh: "\<not> owned q ?i" and sorted: "sorted (q_pending q @ [?i])" and l: "lists_ok q"
    using q by (auto simp: queue_ok_def queue_body_defs owned_def sorted_append less_imp_le)
  have hd: "held q1 = held q"
    by (auto simp: held_def q1_def it_def less_Suc_eq)
  have "lists_ok q1"
    using l g fresh sorted cap by (auto simp: lists_ok_def ow less_Suc_eq) (auto simp: q1_def owned_def)
  moreover have "items_ok L q1"
    using q g fresh unfolding queue_ok_def queue_body_def items_ok_def ow sa
    by (auto simp: q1_def it_def less_Suc_eq owned_def)
  moreover have "permits_ok q1"
    using q fresh hd unfolding queue_ok_def queue_body_def permits_ok_def hd
    by (auto simp: q1_def held_def)
  moreover have "awaits_ok q1"
    using q fresh unfolding queue_ok_def awaits_ok_def ow
    by (auto simp: q1_def owned_def hd_append split: option.splits)
  ultimately show ?thesis using p by (intro pump_ok [of L q1]) (simp_all add: queue_body_def)
qed (use q in simp)

lemma start_ok:
  assumes q: "queue_ok L q" and a: "q_awaiting q = Some i" and r: "start i now q = Inr q'"
  shows "queue_ok L q'"
proof -
  obtain p where p: "q_pending q = i # p" and c: "q_closedError q = None"
    using r by (cases "q_pending q") (auto simp: start_def split: option.splits if_splits)
  have b: "queue_body L q" and l: "lists_ok q" and aw: "awaits_ok q"
    using q by (auto simp: queue_ok_def queue_body_def)
  have "i \<notin> set (q_inFlight q)" "set (q_inFlight q) \<subseteq> {i}"
    using l aw a p by (auto simp: lists_ok_def awaits_ok_def)
  then have fl: "q_inFlight q = []" by (cases "q_inFlight q") auto
  have i: "i < q_next q" "item_queueWaitMs (q_item q i) = None"
    using b p by (auto simp: queue_body_defs owned_def)
  define f :: "'a pending_item \<Rightarrow> 'a pending_item" where
    "f = (\<lambda>it. it\<lparr>item_queueWaitMs := Some (max 0 (now - item_enqueuedAt it)), item_timer := False\<rparr>)"
  have q': "q' = upd_item i f (q\<lparr>q_pending := p, q_inFlight := [i]\<rparr>)"
    using r p c i fl by (auto simp: start_def f_def split: option.splits)
  have ow: "owned q' = owned q" and hd: "held q' = held q" and sa: "signal_aborted q' = signal_aborted q"
    and cap: "queue_capacity q' = queue_capacity q"
    by (auto simp: q' owned_def p fl held_def f_def fun_eq_iff queue_capacity_def signal_aborted_def
        split: option.split)
  have "lists_ok q'"
    using l p cap c unfolding lists_ok_def ow by (auto simp: q')
  moreover have "items_ok L q'"
    using b p fl l unfolding queue_body_def items_ok_def ow sa
    by (auto simp: q' f_def lists_ok_def)
  moreover have "permits_ok q'"
    using b unfolding queue_body_def permits_ok_def hd by (auto simp: q' f_def)
  moreover have "awaits_ok q' \<and> wakeful q'"
    using aw a p l unfolding awaits_ok_def wakeful_def ow by (auto simp: q' f_def lists_ok_def)
  ultimately show ?thesis by (simp add: queue_ok_def queue_body_def)
qed

lemma awaiting_inFlight:
  "awaits_ok q \<Longrightarrow> q_awaiting q = Some i \<Longrightarrow> remove1 i (q_inFlight q) = [] \<or> \<not> distinct (q_inFlight q)"
  by (cases "q_inFlight q"; cases "tl (q_inFlight q)") (auto simp: awaits_ok_def)

lemma resume_dropped:
  assumes q: "queue_ok L q" and a: "q_awaiting q = Some i" and i: "owned q i"
    and f: "item_settlement (f (q_item q i)) \<noteq> Unsettled" "\<not> item_abortListener (f (q_item q i))"
      "item_lease (f (q_item q i)) \<noteq> Held"
    and r: "pump_loop (upd_item i f (unlist i q)) = Some q'"
  shows "queue_ok (L - {i}) q'"
proof (rule pump_loop_ok [OF _ _ _ r])
  show "queue_body (L - {i}) (upd_item i f (unlist i q))"
    using q i f by (intro drop_body) (auto simp: queue_ok_def)
  show "q_inFlight (upd_item i f (unlist i q)) = []"
    using q a awaiting_inFlight [of q i] by (auto simp: queue_ok_def queue_body_defs)
  show "q_dispatching (upd_item i f (unlist i q))"
    using q a by (simp add: queue_ok_def awaits_ok_def)
qed

lemma resume_unowned:
  assumes q: "queue_ok L q" and a: "q_awaiting q = Some i" and i: "i \<notin> set (q_inFlight q)"
    and r: "pump_loop q = Some q'"
  shows "queue_ok L q'"
proof (rule pump_loop_ok [OF _ _ _ r])
  show "q_inFlight q = []" using q a i by (cases "q_inFlight q") (auto simp: queue_ok_def awaits_ok_def)
qed (use q a in \<open>auto simp: queue_ok_def awaits_ok_def\<close>)

lemma queue_ok_unaborted:
  assumes "queue_ok (L - {i}) q"
  shows "queue_ok L q"
  using assms by (auto simp: queue_ok_def queue_body_def items_ok_def)

lemma activeModel_normal: "permits_ok q \<Longrightarrow>
  q\<lparr>q_activeModel := (if q_active q = 0 then None else q_activeModel q)\<rparr> = q"
  by (cases q) (auto simp: permits_ok_def)

lemma dispatch_rejected_ok:
  assumes q: "queue_ok L q" and a: "q_awaiting q = Some i"
    and r: "dispatch_rejected e i q = Some q'"
  shows "queue_ok L q'"
proof -
  let ?f = "\<lambda>it. settle (Rejected e) (it\<lparr>item_timer := False, item_abortListener := False\<rparr>)"
  have l: "lists_ok q" and p: "permits_ok (unlist i q)" and pq: "permits_ok q" and b: "queue_body L q"
    using q by (auto simp: queue_ok_def queue_body_def permits_ok_def)
  have *: "dispatch_rejected e i q =
      (if owned q i then pump_loop (upd_item i ?f (unlist i q)) else pump_loop q)"
    using l activeModel_normal [OF p]
    by (auto simp: dispatch_rejected_def Let_def owned_def unlist_pending unlist_inFlight
        simp del: unlist_frame)
  show ?thesis
  proof (cases "owned q i")
    case True
    then have "item_lease (?f (q_item q i)) \<noteq> Held"
      using b by (auto simp: queue_body_defs)
    then have "queue_ok (L - {i}) q'"
      using * True r q a by (intro resume_dropped [of L q i ?f]) auto
    then show ?thesis by (rule queue_ok_unaborted)
  next
    case False
    then have "i \<notin> set (q_inFlight q)" "pump_loop q = Some q'" using * r by (auto simp: owned_def)
    then show ?thesis by (rule resume_unowned [OF q a])
  qed
qed

lemma admit_body:
  assumes q: "queue_body L q" and i: "i \<in> set (q_inFlight q)"
    and m: "q_activeModel q = None \<or> q_activeModel q = Some (item_modelId (q_item q i))"
    and f: "item_settlement (f (q_item q i)) \<noteq> Unsettled" "\<not> item_abortListener (f (q_item q i))"
      "item_lease (f (q_item q i)) = Held" "item_modelId (f (q_item q i)) = item_modelId (q_item q i)"
    and n: "1 \<le> n"
  shows "queue_body (L - {i}) (upd_item i f ((unlist i q)\<lparr>q_activeModel := Some (item_modelId (q_item q i)),
           q_active := q_active q + 1, q_slots := n\<rparr>))" (is "queue_body _ ?q")
proof -
  have l: "lists_ok q" using q by (simp add: queue_body_def)
  have i': "owned q i" "i < q_next q" using i l by (auto simp: lists_ok_def owned_def)
  then have h: "i \<notin> held q" using q by (auto simp: queue_body_defs held_def)
  have hd: "held ?q = insert i (held q)"
    using i' f by (auto simp: held_def upd_item_def)
  have ow: "owned ?q j \<longleftrightarrow> j \<noteq> i \<and> owned q j" for j
    using l by (auto simp: owned_def unlist_sets)
  have sa: "signal_aborted ?q = signal_aborted q" and cap: "queue_capacity ?q = queue_capacity q"
    by (auto simp: fun_eq_iff signal_aborted_def queue_capacity_def unlist_def upd_item_def split: option.split)
  have "lists_ok ?q"
    using lists_ok_unlist [OF l, of i] unfolding lists_ok_def cap ow
    by (auto simp: owned_unlist [OF l])
  moreover have "items_ok (L - {i}) ?q"
    using q f l unfolding queue_body_def items_ok_def ow sa
    by (auto simp: unlist_sets)
  moreover have "permits_ok ?q"
    using q f h m n unfolding queue_body_def permits_ok_def hd by auto
  ultimately show ?thesis by (simp add: queue_body_def)
qed

lemma dispatch_resolved_ok:
  assumes q: "queue_ok L q" and a: "q_awaiting q = Some i"
    and r: "dispatch_resolved v adm n i q = Some q'"
  shows "queue_ok L q'"
proof (cases "i \<in> set (q_inFlight q)")
  case False
  then show ?thesis using r resume_unowned [OF q a] by (simp add: dispatch_resolved_def)
next
  case True
  have b: "queue_body L q" and l: "lists_ok q" and aw: "awaits_ok q"
    using q by (auto simp: queue_ok_def queue_body_def)
  have ow: "owned q i" using True by (simp add: owned_def)
  then obtain w where w: "item_queueWaitMs (q_item q i) = Some w"
    using b True by (auto simp: queue_body_defs)
  have uf: "q\<lparr>q_inFlight := remove1 i (q_inFlight q)\<rparr> = unlist i q"
    using l True by (rule unlist_inFlight)
  show ?thesis
  proof (cases adm)
    case False
    moreover have "item_settlement (q_item q i) = Unsettled"
      using b ow by (auto simp: queue_body_defs)
    ultimately show ?thesis
      using r True w uf
      by (auto simp: dispatch_resolved_def Let_def upd_item_upd_item
          intro!: queue_ok_unaborted [OF resume_dropped [OF q a ow]])
  next
    case adm: True
    define sn where "sn = max 1 (if q_modality q = LLM then n else 1)"
    define f :: "'a pending_item \<Rightarrow> 'a pending_item" where
      "f = (\<lambda>it. settle (Resolved v w \<lparr>ps_active = q_active q + 1, ps_slots = sn,
              ps_waiting = length (remove1 i (q_pending q))\<rparr>)
              (it\<lparr>item_abortListener := False, item_lease := Held\<rparr>))"
    have "queue_body (L - {i}) (upd_item i f ((unlist i q)\<lparr>
        q_activeModel := Some (item_modelId (q_item q i)), q_active := q_active q + 1, q_slots := sn\<rparr>))"
      (is "queue_body _ ?q")
      using b True aw a ow by (intro admit_body) (auto simp: f_def sn_def awaits_ok_def)
    moreover have "pump_loop ?q = Some q'"
    proof -
      have "?q = upd_item i (\<lambda>it. settle (Resolved v w \<lparr>ps_active = q_active q + 1, ps_slots = sn,
              ps_waiting = length (remove1 i (q_pending q))\<rparr>) (it\<lparr>item_lease := Held\<rparr>))
         ((upd_item i (\<lambda>it. it\<lparr>item_abortListener := False\<rparr>) (unlist i q))\<lparr>
          q_activeModel := Some (item_modelId (q_item q i)), q_active := q_active q + 1, q_slots := sn\<rparr>)"
        by (auto simp: upd_item_def f_def fun_eq_iff intro!: inference_queue.equality)
      then show ?thesis
        using r True w adm by (simp add: dispatch_resolved_def Let_def uf sn_def)
    qed
    moreover have "q_inFlight ?q = []" "q_dispatching ?q"
      using b aw a awaiting_inFlight [OF aw a] by (auto simp: queue_body_defs awaits_ok_def)
    ultimately have "queue_ok (L - {i}) q'" by (intro pump_loop_ok [of _ ?q])
    then show ?thesis by (rule queue_ok_unaborted)
  qed
qed

lemma awaits_ok_irrelevant:
  assumes "awaits_ok q" "q_activeModel q' = q_activeModel q \<or> q_activeModel q' = None"
    "q_pending q' = q_pending q" "q_inFlight q' = q_inFlight q" "q_next q' = q_next q"
    "q_dispatching q' = q_dispatching q" "q_awaiting q' = q_awaiting q"
    "\<And>i. item_modelId (q_item q' i) = item_modelId (q_item q i)"
  shows "awaits_ok q'"
  using assms by (auto simp: awaits_ok_def owned_def split: option.splits)

lemma permits_ok_irrelevant:
  assumes "permits_ok q" "held q' = held q" "q_active q' = q_active q" "q_activeModel q' = q_activeModel q"
    "\<And>i. item_modelId (q_item q' i) = item_modelId (q_item q i)"
    "1 \<le> q_slots q \<Longrightarrow> 1 \<le> q_slots q'"
  shows "permits_ok q'"
  using assms(1,6) unfolding permits_ok_def assms(2-5) by blast

lemma release_ok:
  assumes q: "queue_ok L q" and i: "i < q_next q" and r: "release i q = Some q'"
  shows "queue_ok L q'"
proof (cases "item_lease (q_item q i) = Held")
  case False
  then show ?thesis using r q by (simp add: release_def)
next
  case True
  then have h: "i \<in> held q" using i by (simp add: held_def)
  define q1 where "q1 = upd_item i (\<lambda>it. it\<lparr>item_lease := Released\<rparr>) (q\<lparr>q_active := q_active q - 1\<rparr>)"
  define q2 where "q2 = (if q_active q1 = 0 then q1\<lparr>q_activeModel := None, q_slots := 1\<rparr> else q1)"
  have p: "pump q2 = Some q'" using r True unfolding release_def Let_def q1_def [symmetric] q2_def [symmetric] by simp
  have b: "queue_body L q" and aw: "awaits_ok q" using q by (auto simp: queue_ok_def)
  have act: "q_active q = int (card (held q))" using b by (simp add: queue_body_defs)
  have "card (held q) > 0" using h by (auto simp: card_gt_0_iff)
  then have act2: "q_active q2 = int (card (held q - {i}))"
    using h act by (auto simp: q2_def q1_def)
  have hd: "held q2 = held q - {i}" by (auto simp: q2_def q1_def held_def upd_item_def)
  have am: "q_activeModel q2 = (if q_active q2 = 0 then None else q_activeModel q)"
    and sl: "q_slots q2 = 1 \<or> q_slots q2 = q_slots q"
    by (auto simp: q2_def q1_def)
  have mdl: "\<forall>j \<in> held q. q_activeModel q = Some (item_modelId (q_item q j))" and "1 \<le> q_slots q"
    using b by (auto simp: queue_body_defs)
  have ow: "owned q2 = owned q" by (auto simp: q2_def q1_def owned_def upd_item_def)
  have sa: "signal_aborted q2 = signal_aborted q" and cap: "queue_capacity q2 = queue_capacity q"
    by (auto simp: q2_def q1_def fun_eq_iff signal_aborted_def queue_capacity_def upd_item_def
        split: option.split)
  have fr: "q_pending q2 = q_pending q" "q_inFlight q2 = q_inFlight q" "q_next q2 = q_next q"
    "q_closedError q2 = q_closedError q" "q_dispatching q2 = q_dispatching q"
    "q_awaiting q2 = q_awaiting q" and it: "q_item q2 = (q_item q)(i := (q_item q i)\<lparr>item_lease := Released\<rparr>)"
    by (auto simp: q2_def q1_def upd_item_def)
  have noti: "\<not> owned q i" using b i True by (auto simp: queue_body_defs)
  have "lists_ok q2" using b unfolding queue_body_def lists_ok_def ow cap fr by simp
  moreover have "items_ok L q2"
    using b noti unfolding queue_body_def items_ok_def ow sa fr it by (auto simp: owned_def)
  moreover have "permits_ok q2"
  proof -
    have "q_active q2 \<noteq> 0 \<Longrightarrow> q_activeModel q2 \<noteq> None" using mdl h am by auto
    moreover have "q_active q2 = 0 \<longleftrightarrow> held q - {i} = {}" using act2 by simp
    ultimately show ?thesis
      using mdl \<open>1 \<le> q_slots q\<close> act2 am sl unfolding permits_ok_def hd it by auto
  qed
  moreover have "awaits_ok q2"
    using aw by (rule awaits_ok_irrelevant) (simp_all add: fr it am)
  ultimately show ?thesis using p by (intro pump_ok [of L q2]) (simp_all add: queue_body_def)
qed

lemma slots_resolved_ok:
  assumes q: "queue_ok L q" and r: "slots_resolved i n q = Some q'"
  shows "queue_ok L q'"
proof (cases "q_activeModel q = Some (item_modelId (q_item q i))")
  case False
  then show ?thesis using r q by (simp add: slots_resolved_def)
next
  case True
  let ?q = "q\<lparr>q_slots := max 1 n\<rparr>"
  have "signal_aborted ?q = signal_aborted q" "queue_capacity ?q = queue_capacity q"
    "owned ?q = owned q" and h: "held ?q = held q"
    by (auto simp: fun_eq_iff signal_aborted_def queue_capacity_def owned_def held_def split: option.split)
  moreover have "queue_body L q" using q by (simp add: queue_ok_def)
  moreover have "permits_ok q \<Longrightarrow> permits_ok ?q" by (rule permits_ok_irrelevant [of q]) (simp_all add: h)
  ultimately have "queue_body L ?q"
    by (simp add: queue_body_def lists_ok_def items_ok_def)
  moreover have "awaits_ok ?q"
    using q by (intro awaits_ok_irrelevant [of q ?q]) (auto simp: queue_ok_def)
  moreover have "pump ?q = Some q'" using r True by (simp add: slots_resolved_def)
  ultimately show ?thesis by (rule pump_ok)
qed

lemma timer_fires_ok:
  assumes q: "queue_ok L q" and i: "i < q_next q" and r: "timer_fires i now q = Some q'"
  shows "queue_ok L q'"
proof (cases "item_timer (q_item q i) \<and> owned q i")
  case True
  let ?f = "\<lambda>it. it\<lparr>item_timer := False\<rparr>" and ?e = "TimeoutError (max 0 (now - item_enqueuedAt (q_item q i)))"
  have "remove_item ?e i (upd_item i ?f q) = Some q'"
    using True r by (simp add: timer_fires_def)
  then have "queue_ok (L - {i}) q'"
    using q True by (intro remove_item_ok [of L q i ?e ?f q']) (auto simp: queue_ok_def cancel_item_def)
  then show ?thesis by (rule queue_ok_unaborted)
next
  case False
  let ?q = "upd_item i (\<lambda>it. it\<lparr>item_timer := False\<rparr>) q"
  have "q' = q \<or> q' = ?q" using r False
    by (auto simp: timer_fires_def remove_item_def owned_def split: if_splits)
  moreover have "queue_ok L ?q"
  proof -
    have "held ?q = held q" by (auto simp: held_def)
    then have "permits_ok ?q" if "permits_ok q"
      using that permits_ok_irrelevant [of q ?q] by simp
    moreover have "items_ok L q \<Longrightarrow> items_ok L ?q" by (simp add: items_ok_def)
    moreover have "awaits_ok q \<Longrightarrow> awaits_ok ?q" by (rule awaits_ok_irrelevant [of q]) simp_all
    ultimately show ?thesis using q by (simp add: queue_ok_def queue_body_def wakeful_def)
  qed
  ultimately show ?thesis using q by auto
qed

lemma run_listeners_ok:
  "queue_ok L q \<Longrightarrow> set is \<subseteq> {..<q_next q} \<Longrightarrow> run_listeners is s q = Some q' \<Longrightarrow>
    queue_ok (L - {i \<in> set is. item_signal (q_item q i) = Some s}) q'"
proof (induction "is" arbitrary: q L)
  case Nil
  then show ?case by simp
next
  case (Cons i "is")
  show ?case
  proof (cases "item_abortListener (q_item q i) \<and> item_signal (q_item q i) = Some s")
    case True
    let ?f = "\<lambda>it. it\<lparr>item_abortListener := False\<rparr>"
    from Cons.prems True obtain q1 where q1: "remove_item AbortedError i (upd_item i ?f q) = Some q1"
        "run_listeners is s q1 = Some q'"
      by (auto split: option.splits)
    have ow: "owned q i" and l: "lists_ok q"
      using Cons.prems True by (auto simp: queue_ok_def queue_body_defs)
    have ok: "queue_ok (L - {i}) q1"
      using Cons.prems ow q1(1) by (intro remove_item_ok [of L q i AbortedError ?f q1])
        (auto simp: queue_ok_def cancel_item_def)
    have same: "q_next q1 = q_next q" "item_signal (q_item q1 j) = item_signal (q_item q j)" for j
      using q1(1) l ow
      by (auto simp: remove_item_unlist upd_item_unlist pump_if_dispatchable_def pump_def pump_loop_eq
          split: if_splits)
    have "queue_ok ((L - {i}) - {j \<in> set is. item_signal (q_item q1 j) = Some s}) q'"
      using Cons.prems(2) ok q1(2) same(1) by (intro Cons.IH) auto
    moreover have "(L - {i}) - {j \<in> set is. item_signal (q_item q1 j) = Some s} =
        L - {j \<in> set (i # is). item_signal (q_item q j) = Some s}"
      using True by (auto simp: same)
    ultimately show ?thesis by simp
  next
    case False
    show ?thesis
    proof (cases "item_signal (q_item q i) = Some s")
      case s: True
      then have "\<not> owned q i" using Cons.prems(1,2) False by (auto simp: queue_ok_def queue_body_defs)
      then have "queue_ok (L - {i}) q"
        using Cons.prems(1) by (auto simp: queue_ok_def queue_body_def items_ok_def)
      then have "queue_ok ((L - {i}) - {j \<in> set is. item_signal (q_item q j) = Some s}) q'"
        using Cons.prems False by (intro Cons.IH) (auto split: if_splits)
      moreover have "(L - {i}) - {j \<in> set is. item_signal (q_item q j) = Some s} =
          L - {j \<in> set (i # is). item_signal (q_item q j) = Some s}"
        using s by auto
      ultimately show ?thesis by simp
    next
      case s: False
      then have "queue_ok (L - {j \<in> set is. item_signal (q_item q j) = Some s}) q'"
        using Cons.prems False by (intro Cons.IH) (auto split: if_splits)
      moreover have "{j \<in> set is. item_signal (q_item q j) = Some s} =
          {j \<in> set (i # is). item_signal (q_item q j) = Some s}"
        using s by auto
      ultimately show ?thesis by simp
    qed
  qed
qed

lemma abort_signal_ok:
  assumes q: "queue_inv q" and r: "abort_signal s q = Some q'"
  shows "queue_inv q'"
proof (cases "s \<in> set (q_aborted q)")
  case True
  then show ?thesis using q r by (simp add: abort_signal_def)
next
  case False
  let ?q = "q\<lparr>q_aborted := s # q_aborted q\<rparr>"
  let ?L = "{i. i < q_next q \<and> item_signal (q_item q i) = Some s}"
  have fr: "owned ?q = owned q" "held ?q = held q" "queue_capacity ?q = queue_capacity q"
    "canDispatchHead ?q = canDispatchHead q"
    by (auto simp: fun_eq_iff owned_def held_def queue_capacity_def canDispatchHead_def split: list.split)
  have sa: "signal_aborted ?q x \<longleftrightarrow> signal_aborted q x \<or> x = Some s" for x
    by (auto simp: signal_aborted_def split: option.split)
  have "permits_ok q \<Longrightarrow> permits_ok ?q" by (auto simp: permits_ok_def fr)
  moreover have "awaits_ok q \<Longrightarrow> awaits_ok ?q" by (rule awaits_ok_irrelevant) auto
  moreover have "items_ok {} q \<Longrightarrow> items_ok ?L ?q" by (auto simp: items_ok_def fr sa)
  ultimately have "queue_ok ?L ?q"
    using q by (simp add: queue_ok_def queue_body_def lists_ok_def wakeful_def fr)
  moreover have "run_listeners [0..<q_next q] s ?q = Some q'"
    using r False by (simp add: abort_signal_def)
  ultimately have "queue_ok (?L - {i \<in> set [0..<q_next q]. item_signal (q_item ?q i) = Some s}) q'"
    by (intro run_listeners_ok) auto
  moreover have "?L - {i \<in> set [0..<q_next q]. item_signal (q_item ?q i) = Some s} = {}" by auto
  ultimately show ?thesis by simp
qed

lemma rejectPending_ok:
  assumes q: "queue_ok L q"
  shows "queue_ok L (rejectPending e q)" "queue_ok L (close e q)"
proof -
  have *: "queue_ok L (rejectPending e q0)"
    if b: "items_ok L q" "permits_ok q" and
      "q_item q0 = q_item q" "q_next q0 = q_next q" "q_pending q0 = q_pending q" "q_inFlight q0 = q_inFlight q"
      "q_active q0 = q_active q" "q_activeModel q0 = q_activeModel q" "q_slots q0 = q_slots q"
      "q_dispatching q0 = q_dispatching q" "q_awaiting q0 = q_awaiting q"
      "q_dispatching q \<longleftrightarrow> q_awaiting q \<noteq> None" "\<forall>i. q_awaiting q = Some i \<longrightarrow> i < q_next q" for q0
  proof -
    let ?r = "rejectPending e q0"
    have fr: "\<not> owned ?r i" "q_pending ?r = []" "q_inFlight ?r = []" "\<not> canDispatchHead ?r" for i
      by (simp_all add: rejectPending_def Let_def owned_def canDispatchHead_def)
    have it: "q_item ?r i = (if owned q i then cancel_item e (q_item q i) else q_item q i)" for i
      using that by (simp add: rejectPending_def Let_def owned_def)
    have cf: "q_next ?r = q_next q" "q_active ?r = q_active q" "q_activeModel ?r = q_activeModel q"
      "q_slots ?r = q_slots q" "q_dispatching ?r = q_dispatching q" "q_awaiting ?r = q_awaiting q"
      using that by (simp_all add: rejectPending_def Let_def)
    have hd: "held ?r = held q" by (auto simp: held_def it cf)
    have "lists_ok ?r" by (simp add: lists_ok_def fr)
    moreover have "items_ok L ?r" using b(1) by (auto simp: items_ok_def fr it cf)
    moreover have "permits_ok ?r" using b(2) by (auto simp: permits_ok_def hd it cf)
    moreover have "awaits_ok ?r" "wakeful ?r"
      using that by (auto simp: awaits_ok_def wakeful_def fr cf split: option.split)
    ultimately show ?thesis by (simp add: queue_ok_def queue_body_def)
  qed
  have b: "items_ok L q" "permits_ok q" and a: "q_dispatching q \<longleftrightarrow> q_awaiting q \<noteq> None"
      "\<forall>i. q_awaiting q = Some i \<longrightarrow> i < q_next q"
    using q by (auto simp: queue_ok_def queue_body_def awaits_ok_def)
  show "queue_ok L (rejectPending e q)" by (rule *) (simp_all add: b a)
  show "queue_ok L (close e q)" unfolding close_def by (rule *) (simp_all add: b a)
qed

theorem queue_step_inv: "queue_inv q \<Longrightarrow> queue_step ev q = Some q' \<Longrightarrow> queue_inv q'"
  by (cases ev)
    (auto split: option.splits sum.splits if_splits
      intro: acquire_ok start_ok dispatch_resolved_ok dispatch_rejected_ok release_ok slots_resolved_ok
        timer_fires_ok abort_signal_ok rejectPending_ok)

lemma new_queue_inv: "queue_inv (new_queue m cap w)"
  by (simp add: new_queue_def queue_ok_def queue_body_defs owned_def held_def awaits_ok_def wakeful_def
      canDispatchHead_def)

interpretation iq: invariant_system queue_step queue_inv "\<lambda>_ _. True"
  by unfold_locales (rule queue_step_inv)

lemma queue_reachable_inv:
  "queue_run es (new_queue m cap w) = Some q \<Longrightarrow> queue_inv q"
  using iq.run_inv_free new_queue_inv by blast

section \<open>When the pump cannot spin\<close>

text \<open>Every operation only shrinks what is owned, except the entry an accepted acquire adds.\<close>

definition shrinks :: "'v inference_queue \<Rightarrow> 'v inference_queue \<Rightarrow> bool" where
  "shrinks q q' \<longleftrightarrow> (\<forall>i. owned q' i \<longrightarrow> owned q i) \<and> q_aborted q' = q_aborted q \<and>
     (\<forall>i. item_signal (q_item q' i) = item_signal (q_item q i))"

definition unaborted :: "'v inference_queue \<Rightarrow> bool" where
  "unaborted q \<longleftrightarrow> (\<forall>i. owned q i \<longrightarrow> \<not> signal_aborted q (item_signal (q_item q i)))"

definition single_use :: "'v inference_queue \<Rightarrow> bool" where
  "single_use q \<longleftrightarrow> (\<forall>i j s. owned q i \<and> owned q j \<and> item_signal (q_item q i) = Some s \<and>
     item_signal (q_item q j) = Some s \<longrightarrow> i = j)"

fun fresh_signal :: "'v queue_event \<Rightarrow> 'v inference_queue \<Rightarrow> bool" where
  "fresh_signal (EvAcquire m (Some s) now) q =
     (\<forall>i \<in> set (q_pending q @ q_inFlight q). item_signal (q_item q i) \<noteq> Some s)"
| "fresh_signal _ q = True"

lemma shrinks_refl [simp, intro]: "shrinks q q"
  by (simp add: shrinks_def)

lemma shrinks_trans: "shrinks q q1 \<Longrightarrow> shrinks q1 q2 \<Longrightarrow> shrinks q q2"
  by (simp add: shrinks_def)

lemma shrinks_unaborted: "shrinks q q' \<Longrightarrow> unaborted q \<Longrightarrow> unaborted q'"
  by (auto simp: shrinks_def unaborted_def signal_aborted_def split: option.splits)

lemma shrinks_single_use: "shrinks q q' \<Longrightarrow> single_use q \<Longrightarrow> single_use q'"
  by (auto simp: shrinks_def single_use_def)

lemma not_spins: "unaborted q \<Longrightarrow> \<not> spins q"
  by (auto simp: spins_def unaborted_def owned_def dest!: canDispatchHeadD)

lemma pump_loop_shrinks: "pump_loop q = Some q' \<Longrightarrow> shrinks q q'"
  by (auto simp: pump_loop_eq shrinks_def split: if_splits)

lemma pump_shrinks: "pump q = Some q' \<Longrightarrow> shrinks q q'"
  using pump_loop_shrinks [of "q\<lparr>q_dispatching := True\<rparr>" q']
  by (auto simp: pump_def shrinks_def split: if_splits)

text \<open>A pump after a shrinking update: it returns and shrinks.\<close>

lemma pumps_total:
  assumes "unaborted q"
  shows "\<exists>q'. pump_loop q = Some q' \<and> shrinks q q'" "\<exists>q'. pump q = Some q' \<and> shrinks q q'"
    "\<exists>q'. pump_if_dispatchable q = Some q' \<and> shrinks q q'"
proof -
  have *: "\<exists>q'. pump_loop q = Some q'" if "unaborted q" for q :: "'a inference_queue"
    using not_spins [OF that] by (auto simp: pump_loop_eq)
  then show 1: "\<exists>q'. pump_loop q = Some q' \<and> shrinks q q'"
    using assms pump_loop_shrinks by blast
  have "unaborted (q\<lparr>q_dispatching := True\<rparr>)" using assms by (simp add: unaborted_def)
  then have "\<exists>q'. pump q = Some q'" using * by (auto simp: pump_def)
  then show 2: "\<exists>q'. pump q = Some q' \<and> shrinks q q'" using pump_shrinks by blast
  show "\<exists>q'. pump_if_dispatchable q = Some q' \<and> shrinks q q'"
    using 2 by (simp add: pump_if_dispatchable_def)
qed

lemma pumps_after:
  assumes "unaborted q" "shrinks q q1"
  shows "\<exists>q'. pump_loop q1 = Some q' \<and> shrinks q q'" "\<exists>q'. pump q1 = Some q' \<and> shrinks q q'"
    "\<exists>q'. pump_if_dispatchable q1 = Some q' \<and> shrinks q q'"
  using pumps_total [OF shrinks_unaborted [OF assms(2,1)]] shrinks_trans [OF assms(2)] by blast+

lemma shrinks_upd [simp]:
  "(\<And>it. item_signal (f it) = item_signal it) \<Longrightarrow> shrinks q (upd_item i f q1) = shrinks q q1"
  by (auto simp: shrinks_def)

lemma shrinks_lists [simp]:
  "shrinks q (q\<lparr>q_pending := remove1 i (q_pending q)\<rparr>)"
  "shrinks q (q\<lparr>q_inFlight := remove1 i (q_inFlight q)\<rparr>)"
  "shrinks q (unlist i q)"
  by (auto simp: shrinks_def owned_def unlist_def dest: in_remove1)

lemma shrinks_other [simp]:
  "shrinks q (q1\<lparr>q_active := a\<rparr>) = shrinks q q1" "shrinks q (q1\<lparr>q_activeModel := m\<rparr>) = shrinks q q1"
  "shrinks q (q1\<lparr>q_slots := n\<rparr>) = shrinks q q1"
  by (auto simp: shrinks_def owned_def)

lemma remove_item_total:
  assumes "unaborted q" "shrinks q q1"
  shows "\<exists>q'. remove_item e i q1 = Some q' \<and> shrinks q q'"
proof -
  have "shrinks q (upd_item i (cancel_item e) (q1\<lparr>q_pending := remove1 i (q_pending q1)\<rparr>))"
    "shrinks q (upd_item i (cancel_item e) (q1\<lparr>q_inFlight := remove1 i (q_inFlight q1)\<rparr>))"
    using assms shrinks_trans by fastforce+
  then show ?thesis using assms by (auto simp: remove_item_def intro!: pumps_after(3))
qed

lemma dispatch_rejected_total:
  assumes "unaborted q" "shrinks q q1"
  shows "\<exists>q'. dispatch_rejected e i q1 = Some q' \<and> shrinks q q'"
proof -
  have "shrinks q (q1\<lparr>q_pending := remove1 i (q_pending q1)\<rparr>)"
    "shrinks q (q1\<lparr>q_inFlight := remove1 i (q_inFlight q1)\<rparr>)"
    using assms shrinks_trans by fastforce+
  then show ?thesis
    using assms by (auto simp: dispatch_rejected_def Let_def intro!: pumps_after(1))
qed

lemma dispatch_resolved_total:
  assumes "unaborted q"
  shows "\<exists>q'. dispatch_resolved v adm n i q = Some q' \<and> shrinks q q'"
  using assms
  by (auto simp: dispatch_resolved_def Let_def
      intro!: pumps_after(1) dispatch_rejected_total split: option.split)

lemma release_total: "unaborted q \<Longrightarrow> \<exists>q'. release i q = Some q' \<and> shrinks q q'"
  by (auto simp: release_def Let_def intro!: pumps_after(2))

lemma slots_resolved_total: "unaborted q \<Longrightarrow> \<exists>q'. slots_resolved i n q = Some q' \<and> shrinks q q'"
  by (auto simp: slots_resolved_def intro!: pumps_after(2))

lemma timer_fires_total: "unaborted q \<Longrightarrow> \<exists>q'. timer_fires i now q = Some q' \<and> shrinks q q'"
  by (auto simp: timer_fires_def intro!: remove_item_total)

lemma run_listeners_none:
  "(\<And>j. j \<in> set is \<Longrightarrow> \<not> (item_abortListener (q_item q j) \<and> item_signal (q_item q j) = Some s)) \<Longrightarrow>
    run_listeners is s q = Some q"
  by (induction "is") (auto split: if_splits)

lemma run_listeners_total:
  assumes one: "\<And>j. j \<in> set is \<Longrightarrow> item_abortListener (q_item q j) \<Longrightarrow> item_signal (q_item q j) = Some s \<Longrightarrow>
      j = k"
    and others: "\<And>j. owned q j \<Longrightarrow> j \<noteq> k \<Longrightarrow> \<not> signal_aborted q (item_signal (q_item q j))"
    and k: "owned q k" and l: "lists_ok q" and d: "distinct is"
  shows "\<exists>q'. run_listeners is s q = Some q' \<and> shrinks q q'"
  using one d
proof (induction "is")
  case Nil
  then show ?case by auto
next
  case (Cons i "is")
  show ?case
  proof (cases "item_abortListener (q_item q i) \<and> item_signal (q_item q i) = Some s")
    case False
    then show ?thesis using Cons.IH Cons.prems by auto
  next
    case True
    then have ik: "i = k" using Cons.prems by auto
    let ?q = "upd_item k (cancel_item AbortedError) (unlist k (upd_item k (\<lambda>it. it\<lparr>item_abortListener := False\<rparr>) q))"
    have "unaborted ?q"
      using others l by (auto simp: unaborted_def owned_unlist upd_item_unlist)
    then obtain q1 where q1: "pump_if_dispatchable ?q = Some q1" "shrinks ?q q1"
      using pumps_total(3) by blast
    have items: "q_item q1 = q_item ?q"
      using q1(1) by (auto simp: pump_if_dispatchable_def pump_def pump_loop_eq split: if_splits)
    have "run_listeners is s q1 = Some q1"
      using Cons.prems ik by (intro run_listeners_none) (auto simp: items)
    moreover have "shrinks q q1"
      using shrinks_trans [OF _ q1(2)] by (simp add: upd_item_unlist)
    ultimately show ?thesis
      using True ik k l q1(1) by (simp add: remove_item_unlist)
  qed
qed

lemma unaborted_inv: "queue_inv q \<Longrightarrow> unaborted q"
  by (auto simp: queue_ok_def queue_body_defs unaborted_def)

lemma abort_signal_total:
  assumes q: "queue_inv q" and su: "single_use q"
  shows "\<exists>q'. abort_signal s q = Some q' \<and> single_use q'"
proof (cases "s \<in> set (q_aborted q)")
  case True
  then show ?thesis using su by (simp add: abort_signal_def)
next
  case False
  let ?q = "q\<lparr>q_aborted := s # q_aborted q\<rparr>"
  have lis: "item_abortListener (q_item q j) \<longleftrightarrow> owned q j \<and> item_signal (q_item q j) \<noteq> None" if "j < q_next q" for j
    using q that by (auto simp: queue_ok_def queue_body_defs)
  have l: "lists_ok ?q" using q by (auto simp: queue_ok_def queue_body_defs owned_def queue_capacity_def)
  have ua: "owned q j \<Longrightarrow> signal_aborted ?q (item_signal (q_item q j)) \<Longrightarrow> item_signal (q_item q j) = Some s" for j
    using unaborted_inv [OF q] by (auto simp: unaborted_def signal_aborted_def split: option.splits)
  have ow: "owned ?q = owned q" by (auto simp: owned_def)
  have "\<exists>q'. run_listeners [0..<q_next q] s ?q = Some q' \<and> single_use q'"
  proof (cases "\<exists>k. owned q k \<and> item_signal (q_item q k) = Some s")
    case True
    then obtain k where k: "owned q k" "item_signal (q_item q k) = Some s" by blast
    have "\<exists>q'. run_listeners [0..<q_next q] s ?q = Some q' \<and> shrinks ?q q'"
    proof (rule run_listeners_total [of _ _ _ k])
      fix j assume "j \<in> set [0..<q_next q]" "item_abortListener (q_item ?q j)" "item_signal (q_item ?q j) = Some s"
      then show "j = k" using su k lis by (auto simp: single_use_def)
    next
      fix j assume "owned ?q j" "j \<noteq> k"
      then have oj: "owned q j" and "item_signal (q_item q j) \<noteq> Some s"
        using k su by (auto simp: single_use_def ow)
      then show "\<not> signal_aborted ?q (item_signal (q_item ?q j))" using ua [OF oj] by auto
    qed (use k l in \<open>simp_all add: ow\<close>)
    moreover have "single_use ?q" using su by (simp add: single_use_def ow)
    ultimately show ?thesis using shrinks_single_use by blast
  next
    case False
    have "run_listeners [0..<q_next q] s ?q = Some ?q"
      using False lis by (intro run_listeners_none) auto
    then show ?thesis using su by (simp add: single_use_def ow)
  qed
  then show ?thesis using False by (simp add: abort_signal_def)
qed

lemma acquire_total:
  assumes q: "queue_inv q" and su: "single_use q" and f: "fresh_signal (EvAcquire m s now) q"
  shows "\<exists>r q'. acquire m s now q = Some (r, q') \<and> single_use q'"
proof -
  let ?i = "q_next q"
  define it :: "'a pending_item" where "it = \<lparr>item_modelId = m, item_signal = s, item_enqueuedAt = now,
    item_timer = True, item_abortListener = (s \<noteq> None), item_queueWaitMs = None,
    item_cancellationError = None, item_settlement = Unsettled, item_lease = NoLease\<rparr>"
  define q1 where "q1 = q\<lparr>q_item := (q_item q)(?i := it), q_next := Suc ?i, q_pending := q_pending q @ [?i]\<rparr>"
  show ?thesis
  proof (cases "signal_aborted q s \<or> q_closedError q \<noteq> None \<or> queue_capacity q \<le> length (q_pending q)")
    case True
    then show ?thesis using su by (auto simp: acquire_def split: option.split)
  next
    case False
    have new: "\<not> owned q ?i" using q by (auto simp: queue_ok_def queue_body_defs)
    have ow: "owned q1 j \<longleftrightarrow> owned q j \<or> j = ?i" for j by (auto simp: q1_def owned_def)
    have ua: "unaborted q1"
      using unaborted_inv [OF q] new False
      by (auto simp: unaborted_def ow) (auto simp: q1_def it_def signal_aborted_def split: option.splits if_splits)
    have "single_use q1"
      using su new f by (cases s) (auto simp: single_use_def ow q1_def it_def owned_def)
    then obtain q' where "pump q1 = Some q'" "single_use q'"
      using pumps_total(2) [OF ua] shrinks_single_use by blast
    moreover have "acquire m s now q = map_option (Pair (Inr ?i)) (pump q1)"
      using False by (auto simp: acquire_def Let_def q1_def it_def split: option.split)
    ultimately show ?thesis by simp
  qed
qed

lemma start_shrinks: "start i now q = Inr q' \<Longrightarrow> shrinks q q'"
  by (cases "q_pending q") (auto simp: start_def shrinks_def owned_def split: option.splits if_splits)

lemma rejectPending_shrinks [simp]: "shrinks q (rejectPending e q)" "shrinks q (close e q)"
  by (auto simp: close_def rejectPending_def Let_def shrinks_def owned_def)

lemma queue_step_total:
  assumes q: "queue_inv q" and su: "single_use q" and f: "fresh_signal ev q"
  shows "\<exists>q'. queue_step ev q = Some q' \<and> single_use q'"
proof -
  have ua: "unaborted q" using q by (rule unaborted_inv)
  have sh: "\<exists>q'. r = Some q' \<and> shrinks q q' \<Longrightarrow> \<exists>q'. r = Some q' \<and> single_use q'" for r
    using shrinks_single_use su by blast
  have rp: "single_use (rejectPending e q)" "single_use (close e q)" for e
    using shrinks_single_use su rejectPending_shrinks by blast+
  show ?thesis
  proof (cases ev)
    case (EvAcquire m s now)
    then show ?thesis using acquire_total [OF q su] f by fastforce
  next
    case (EvAbort s)
    then show ?thesis using abort_signal_total [OF q su] by simp
  next
    case (EvStart now)
    then show ?thesis
      using su start_shrinks shrinks_single_use by (fastforce split: option.split sum.split)
  qed (auto simp: su rp intro!: sh dispatch_resolved_total [OF ua] dispatch_rejected_total [OF ua] release_total [OF ua]
      slots_resolved_total [OF ua] timer_fires_total [OF ua] split: option.split)
qed

interpretation live_queue: total_system queue_step "\<lambda>q. queue_inv q \<and> single_use q" fresh_signal
proof
  fix q :: "'a inference_queue" and ev q'
  assume q: "queue_inv q \<and> single_use q" and f: "fresh_signal ev q"
  then show "\<exists>q'. queue_step ev q = Some q'" using queue_step_total by blast
  show "queue_step ev q = Some q' \<Longrightarrow> queue_inv q' \<and> single_use q'"
    using q f queue_step_total [of q ev] queue_step_inv [of q ev q'] by auto
qed

section \<open>Bounded slots and closing\<close>

text \<open>With every slots reading at most \<open>N\<close>, permits stay within \<open>max 1 N\<close>.\<close>

definition within_slots :: "int \<Rightarrow> 'v inference_queue \<Rightarrow> bool" where
  "within_slots M q \<longleftrightarrow> q_slots q \<le> M \<and> q_active q \<le> M \<and>
     (\<forall>i. q_awaiting q = Some i \<and> owned q i \<longrightarrow> q_active q < M)"

fun readings_within :: "int \<Rightarrow> 'v queue_event \<Rightarrow> bool" where
  "readings_within N (EvResolve v adm n) = (n \<le> N)"
| "readings_within N (EvSlots i n) = (n \<le> N)"
| "readings_within N _ = True"

lemma within_pump_loop:
  "q_slots q \<le> M \<Longrightarrow> q_active q \<le> M \<Longrightarrow> pump_loop q = Some q' \<Longrightarrow> within_slots M q'"
  by (auto simp: pump_loop_eq within_slots_def split: if_splits dest!: canDispatchHeadD)

lemma within_pump: "within_slots M q \<Longrightarrow> pump q = Some q' \<Longrightarrow> within_slots M q'"
  using within_pump_loop [of "q\<lparr>q_dispatching := True\<rparr>" M q']
  by (auto simp: pump_def within_slots_def split: if_splits)

lemma within_pump_if: "within_slots M q \<Longrightarrow> pump_if_dispatchable q = Some q' \<Longrightarrow> within_slots M q'"
  using within_pump by (auto simp: pump_if_dispatchable_def split: if_splits)

lemma within_shrink:
  "within_slots M q \<Longrightarrow> shrinks q q' \<Longrightarrow> q_slots q' \<le> M \<Longrightarrow> q_active q' \<le> q_active q \<Longrightarrow>
     q_awaiting q' = q_awaiting q \<Longrightarrow> within_slots M q'"
  by (force simp: within_slots_def shrinks_def)

lemma within_remove:
  assumes "within_slots M q" "remove_item e i q = Some q'"
  shows "within_slots M q'"
proof -
  have "within_slots M (upd_item i (cancel_item e) (q\<lparr>q_pending := remove1 i (q_pending q)\<rparr>))"
    "within_slots M (upd_item i (cancel_item e) (q\<lparr>q_inFlight := remove1 i (q_inFlight q)\<rparr>))"
    using assms(1) by (auto simp: within_slots_def owned_def dest: in_remove1)
  then show ?thesis
    using assms within_pump_if by (auto simp: remove_item_def split: if_splits)
qed

lemma within_listeners: "within_slots M q \<Longrightarrow> run_listeners is s q = Some q' \<Longrightarrow> within_slots M q'"
proof (induction "is" arbitrary: q)
  case Nil
  then show ?case by simp
next
  case (Cons i "is")
  have "within_slots M (upd_item i (\<lambda>it. it\<lparr>item_abortListener := False\<rparr>) q)"
    using Cons.prems(1) by (simp add: within_slots_def)
  then have "within_slots M q1" if "remove_item AbortedError i
      (upd_item i (\<lambda>it. it\<lparr>item_abortListener := False\<rparr>) q) = Some q1" for q1
    using that by (rule within_remove)
  then show ?case using Cons.IH Cons.prems by (auto split: if_splits option.splits)
qed

lemma within_rejected:
  assumes "q_slots q \<le> M" "q_active q \<le> M" "dispatch_rejected e i q = Some q'"
  shows "within_slots M q'"
  using assms by (auto simp: dispatch_rejected_def Let_def split: if_splits
      intro: within_pump_loop [rotated 2])

lemma within_resolved:
  assumes "within_slots M q" "1 \<le> M" "n \<le> M" "q_awaiting q = Some i" "dispatch_resolved v adm n i q = Some q'"
  shows "within_slots M q'"
proof -
  have "q_slots q \<le> M" "q_active q \<le> M" and a: "i \<in> set (q_inFlight q) \<Longrightarrow> q_active q < M"
    using assms by (auto simp: within_slots_def owned_def)
  then show ?thesis
    using assms(2,3,5) by (auto simp: dispatch_resolved_def Let_def split: if_splits option.splits
        intro: within_pump_loop [rotated 2] within_rejected [rotated 2])
qed

lemma within_acquire:
  assumes q: "queue_inv q" and w: "within_slots M q" and r: "acquire m sg now q = Some (res, q')"
  shows "within_slots M q'"
proof (cases "q' = q")
  case False
  have "i \<noteq> q_next q" if "q_awaiting q = Some i" for i
    using q that by (auto simp: queue_ok_def awaits_ok_def)
  then have "within_slots M (q\<lparr>q_item := it, q_next := Suc (q_next q), q_pending := q_pending q @ [q_next q]\<rparr>)" for it
    using w by (auto simp: within_slots_def owned_def)
  then show ?thesis using r False within_pump by (auto simp: acquire_def Let_def split: if_splits option.splits)
qed (use w in simp)

lemma within_release:
  assumes w: "within_slots M q" and M: "1 \<le> M" and r: "release i q = Some q'"
  shows "within_slots M q'"
proof (cases "item_lease (q_item q i) = Held")
  case True
  define q1 where "q1 = upd_item i (\<lambda>it. it\<lparr>item_lease := Released\<rparr>) (q\<lparr>q_active := q_active q - 1\<rparr>)"
  define q2 where "q2 = (if q_active q1 = 0 then q1\<lparr>q_activeModel := None, q_slots := 1\<rparr> else q1)"
  have "pump q2 = Some q'"
    using r True unfolding release_def Let_def q1_def [symmetric] q2_def [symmetric] by simp
  moreover have "within_slots M q2"
    using w by (rule within_shrink) (use w M in \<open>auto simp: q2_def q1_def within_slots_def\<close>)
  ultimately show ?thesis by (rule within_pump [rotated])
qed (use w r in \<open>simp add: release_def\<close>)

lemma within_step:
  assumes q: "queue_inv q" and w: "within_slots M q" and M: "1 \<le> M" and r: "readings_within M ev"
    and s: "queue_step ev q = Some q'"
  shows "within_slots M q'"
proof (cases ev)
  case (EvAcquire m sg now)
  then show ?thesis using s within_acquire [OF q w] by auto
next
  case (EvStart now)
  then show ?thesis
    using s w by (auto simp: start_def within_slots_def owned_def split: option.splits sum.splits if_splits
        dest: list.set_sel(2))
next
  case (EvResolve v adm n)
  then show ?thesis using s w r within_resolved [OF w M] by (auto split: option.splits)
next
  case (EvReject e)
  moreover have "q_slots q \<le> M" "q_active q \<le> M" using w by (simp_all add: within_slots_def)
  ultimately show ?thesis using s w within_rejected by (auto split: option.splits)
next
  case (EvRelease i)
  then show ?thesis using s w within_release [OF w M] by (auto split: if_splits)
next
  case (EvSlots i n)
  have "within_slots M (q\<lparr>q_slots := max 1 n\<rparr>)" if "n \<le> M"
    using w M that by (auto simp: within_slots_def owned_def)
  then show ?thesis using EvSlots s w r within_pump by (auto simp: slots_resolved_def split: if_splits)
next
  case (EvTimer i now)
  have "within_slots M (upd_item i (\<lambda>it. it\<lparr>item_timer := False\<rparr>) q)"
    using w by (simp add: within_slots_def)
  then show ?thesis using EvTimer s w within_remove by (auto simp: timer_fires_def split: if_splits)
next
  case (EvAbort sg)
  have "within_slots M (q\<lparr>q_aborted := sg # q_aborted q\<rparr>)"
    using w by (simp add: within_slots_def owned_def)
  then show ?thesis using EvAbort s w within_listeners by (auto simp: abort_signal_def split: if_splits)
next
  case (EvRejectPending e)
  have "within_slots M (rejectPending e q)"
    using w by (simp add: within_slots_def rejectPending_def Let_def owned_def)
  then show ?thesis using s EvRejectPending by simp
next
  case (EvClose e)
  have "within_slots M (close e q)"
    using w by (simp add: within_slots_def close_def rejectPending_def Let_def owned_def)
  then show ?thesis using s EvClose by simp
qed

interpretation slot_queue: invariant_system queue_step
    "\<lambda>q. queue_inv q \<and> within_slots (max 1 N) q" "\<lambda>ev _. readings_within N ev" for N
proof
  fix q :: "'a inference_queue" and ev q'
  assume q: "queue_inv q \<and> within_slots (max 1 N) q" and r: "readings_within N ev" and s: "queue_step ev q = Some q'"
  have "readings_within (max 1 N) ev" using r by (cases "(N, ev)" rule: readings_within.cases) auto
  then show "queue_inv q' \<and> within_slots (max 1 N) q'"
    using q s within_step [of q "max 1 N" ev q'] queue_step_inv by auto
qed

text \<open>A closed queue owns nothing, so every event leaves it closed and accepts no item.\<close>

lemma pump_frame:
  "pump_loop q = Some q' \<Longrightarrow> q_closedError q' = q_closedError q \<and> q_next q' = q_next q"
  "pump q = Some q' \<Longrightarrow> q_closedError q' = q_closedError q \<and> q_next q' = q_next q"
  by (auto simp: pump_def pump_loop_eq split: if_splits)

lemma closed_remove: "\<not> owned q i \<Longrightarrow> remove_item e i q = Some q' \<Longrightarrow> q' = q"
  by (auto simp: remove_item_def owned_def)

lemma closed_listeners:
  "(\<And>j. \<not> owned q j) \<Longrightarrow> run_listeners is s q = Some q' \<Longrightarrow>
     q_closedError q' = q_closedError q \<and> q_next q' = q_next q"
proof (induction "is" arbitrary: q)
  case (Cons i "is")
  let ?q = "upd_item i (\<lambda>it. it\<lparr>item_abortListener := False\<rparr>) q"
  have "remove_item AbortedError i ?q = Some ?q"
    using Cons.prems(1) [of i] by (simp add: remove_item_def owned_def)
  then show ?case
    using Cons.IH [of q] Cons.IH [of ?q] Cons.prems by (auto split: if_splits)
qed simp

lemma closed_step:
  assumes q: "queue_inv q" and c: "q_closedError q \<noteq> None" and s: "queue_step ev q = Some q'"
  shows "q_closedError q' \<noteq> None \<and> q_next q' = q_next q"
proof -
  have e: "q_pending q = []" "q_inFlight q = []" and no: "\<not> owned q j" for j
    using q c by (auto simp: queue_ok_def queue_body_defs owned_def)
  show ?thesis
  proof (cases ev)
    case (EvAbort sg)
    have "\<not> owned (q\<lparr>q_aborted := sg # q_aborted q\<rparr>) j" for j using e by (simp add: owned_def)
    then show ?thesis using EvAbort s c closed_listeners by (fastforce simp: abort_signal_def split: if_splits)
  next
    case (EvRelease i)
    then show ?thesis using s c by (auto simp: release_def Let_def dest!: pump_frame split: if_splits)
  next
    case (EvSlots i n)
    then show ?thesis using s c by (auto simp: slots_resolved_def dest!: pump_frame split: if_splits)
  qed (use s c e in \<open>auto simp: acquire_def start_def dispatch_resolved_def dispatch_rejected_def
        timer_fires_def remove_item_def close_def rejectPending_def Let_def
        dest!: pump_frame split: if_splits option.splits sum.splits\<close>)
qed

interpretation closed_queue: invariant_system queue_step
    "\<lambda>q. queue_inv q \<and> q_closedError q \<noteq> None \<and> q_next q = n" "\<lambda>_ _. True" for n
  using queue_step_inv closed_step by unfold_locales blast

text \<open>Unfolding a concrete run.\<close>

lemmas queue_eval =
  new_queue_def acquire_def start_def dispatch_resolved_def release_def abort_signal_def remove_item_def
  pump_def pump_loop_eq pump_if_dispatchable_def spins_def canDispatchHead_def signal_aborted_def
  queue_capacity_def DEFAULT_MAX_WAITING_INFERENCES_def upd_item_def settle_def cancel_item_def Let_def
  upt_rec

text \<open>A short session: one permit granted with two slots, a second request dispatched.\<close>

definition demo_events :: "nat queue_event list" where
  "demo_events = [EvAcquire ''a'' None 0, EvStart 3, EvResolve 7 True 2,
     EvAcquire ''a'' (Some 0) 5, EvAcquire ''b'' (Some 1) 6]"

lemma demo_run:
  "\<exists>q. queue_run demo_events (new_queue LLM None None) = Some q \<and> q_awaiting q = Some 1 \<and>
     q_active q = 1 \<and> (\<exists>q'. start 1 9 q = Inr q')"
  by (simp add: demo_events_def queue_eval)

section \<open>Properties\<close>

text \<open>
  C1: no lost wakeup.  In every reachable state of the queue an admissible head (not closed,
  a free slot, the active model compatible) is waiting only while a dispatch is being awaited,
  and the \<open>dispatching\<close> flag is exactly that.
\<close>

theorem queue_no_lost_wakeup:
  assumes "queue_run es (new_queue m cap w) = Some q"
  shows "(canDispatchHead q \<longrightarrow> q_dispatching q) \<and> (q_dispatching q \<longleftrightarrow> q_awaiting q \<noteq> None)"
  using queue_reachable_inv [OF assms] by (auto simp: queue_ok_def wakeful_def awaits_ok_def)

theorem queue_no_lost_wakeup_witness:
  "\<exists>q. queue_run demo_events (new_queue LLM None None) = Some q \<and>
     (canDispatchHead q \<longrightarrow> q_dispatching q) \<and> (q_dispatching q \<longleftrightarrow> q_awaiting q \<noteq> None)"
  using demo_run queue_no_lost_wakeup by blast

text \<open>
  C2: every acquire is accounted for.  The promise of an accepted acquire is unsettled exactly
  while the item waits or is in flight, the waiting list never exceeds its capacity and keeps
  arrival order, and at most the one awaited item is in flight.
\<close>

theorem queue_accounts_for_every_acquire:
  assumes "queue_run es (new_queue m cap w) = Some q"
  shows "(\<forall>i < q_next q. item_settlement (q_item q i) = Unsettled \<longleftrightarrow>
            i \<in> set (q_pending q) \<or> i \<in> set (q_inFlight q)) \<and>
     length (q_pending q) \<le> queue_capacity q \<and> sorted (q_pending q) \<and>
     distinct (q_pending q @ q_inFlight q) \<and> set (q_inFlight q) \<subseteq> set_option (q_awaiting q)"
  using queue_reachable_inv [OF assms]
  by (auto simp: queue_ok_def queue_body_defs awaits_ok_def owned_def split: option.splits)

theorem queue_accounts_for_every_acquire_witness:
  "\<exists>q. queue_run demo_events (new_queue LLM None None) = Some q \<and>
     length (q_pending q) \<le> queue_capacity q \<and> set (q_inFlight q) \<subseteq> set_option (q_awaiting q)"
  using demo_run queue_accounts_for_every_acquire by blast

text \<open>
  C3: permits are held leases.  The active count is the number of leases granted and not yet
  released, all of them of the active model, and there is an active model exactly when the
  count is positive.
\<close>

theorem queue_permits_are_held_leases:
  assumes "queue_run es (new_queue m cap w) = Some q"
  shows "q_active q = int (card {i. i < q_next q \<and> item_lease (q_item q i) = Held}) \<and>
     (q_active q > 0 \<longleftrightarrow> q_activeModel q \<noteq> None) \<and>
     (\<forall>i < q_next q. item_lease (q_item q i) = Held \<longrightarrow>
        q_activeModel q = Some (item_modelId (q_item q i)))"
proof -
  have p: "permits_ok q" using queue_reachable_inv [OF assms] by (simp add: queue_ok_def queue_body_def)
  then have "q_active q > 0 \<longleftrightarrow> q_active q \<noteq> 0" by (auto simp: permits_ok_def)
  then show ?thesis using p by (auto simp: permits_ok_def held_def)
qed

theorem queue_permits_are_held_leases_witness:
  "\<exists>q. queue_run demo_events (new_queue LLM None None) = Some q \<and> q_active q = 1 \<and>
     q_activeModel q \<noteq> None"
proof -
  obtain q where q: "queue_run demo_events (new_queue LLM None None) = Some q" "q_active q = 1"
    using demo_run by blast
  then show ?thesis using queue_permits_are_held_leases [OF q(1)] by auto
qed

text \<open>
  C4: liveness of the synchronous code.  When no two waiting acquires share an abort signal,
  every sequence of events runs to completion: \<open>pump\<close> never spins.
\<close>

theorem queue_never_spins:
  assumes "run_allows fresh_signal queue_step es (new_queue m cap w)"
  shows "\<exists>q. queue_run es (new_queue m cap w) = Some q"
proof -
  have "single_use (new_queue m cap w)" by (simp add: new_queue_def single_use_def owned_def)
  then show ?thesis using live_queue.run_total [OF _ assms] new_queue_inv by blast
qed

theorem queue_never_spins_witness:
  "\<exists>q. queue_run demo_events (new_queue LLM None None) = Some q"
  by (rule queue_never_spins) (simp add: demo_events_def queue_eval)

text \<open>
  first in, first out.  Only the oldest waiting item can start, and it becomes the one
  item in flight; everything still waiting arrived later.
\<close>

theorem queue_starts_in_arrival_order:
  assumes "queue_run es (new_queue m cap w) = Some q" and "q_awaiting q = Some i"
    and "start i now q = Inr q'"
  shows "q_inFlight q' = [i] \<and> q_pending q = i # q_pending q' \<and> (\<forall>j \<in> set (q_pending q'). i < j)"
proof -
  have inv: "queue_inv q" using assms(1) by (rule queue_reachable_inv)
  obtain p where p: "q_pending q = i # p"
    using assms(3) by (cases "q_pending q") (auto simp: start_def split: option.splits if_splits)
  have "i \<notin> set (q_inFlight q)" "set (q_inFlight q) \<subseteq> {i}" and w: "item_queueWaitMs (q_item q i) = None"
    and s: "sorted (i # p)" "distinct (i # p)"
    using inv p assms(2) by (auto simp: queue_ok_def queue_body_defs awaits_ok_def owned_def)
  then have "q_inFlight q = []" by (cases "q_inFlight q") auto
  then show ?thesis
    using assms(3) p w s by (auto simp: start_def le_less split: option.splits if_splits)
qed

theorem queue_starts_in_arrival_order_witness:
  "\<exists>q q'. queue_run demo_events (new_queue LLM None None) = Some q \<and> start 1 9 q = Inr q' \<and>
     q_inFlight q' = [1]"
proof -
  obtain q q' where "queue_run demo_events (new_queue LLM None None) = Some q" "q_awaiting q = Some 1"
      "start 1 9 q = Inr q'"
    using demo_run by blast
  then show ?thesis using queue_starts_in_arrival_order [of demo_events LLM None None q 1 9 q'] by blast
qed

text \<open>
  concurrency bound.  When every slots reading the queue takes is at most \<open>N\<close>, at most
  \<open>max 1 N\<close> permits are ever held at once.
\<close>

theorem queue_active_bounded:
  assumes "queue_run es (new_queue m cap w) = Some q" and "\<forall>ev \<in> set es. readings_within N ev"
  shows "q_active q \<le> max 1 N"
proof -
  have "run_allows (\<lambda>ev _. readings_within N ev) queue_step es (new_queue m cap w)"
    using assms(2) by (intro run_allowsI) simp
  moreover have "within_slots (max 1 N) (new_queue m cap w)"
    by (simp add: within_slots_def new_queue_def)
  ultimately show ?thesis
    using slot_queue.run_inv [OF _ _ assms(1)] new_queue_inv by (auto simp: within_slots_def)
qed

theorem queue_active_bounded_witness:
  "\<exists>q. queue_run demo_events (new_queue LLM None None) = Some q \<and> q_active q \<le> 2"
proof -
  obtain q where q: "queue_run demo_events (new_queue LLM None None) = Some q" using demo_run by blast
  have "\<forall>ev \<in> set demo_events. readings_within 2 ev" by (simp add: demo_events_def)
  then show ?thesis using queue_active_bounded [OF q, of 2] q by simp
qed

text \<open>
  closing is final.  After \<open>close\<close>, whatever happens, nothing waits or is in flight, no
  new item is accepted and every promise handed out is settled.
\<close>

theorem queue_closed_is_final:
  assumes "queue_run es (new_queue m cap w) = Some q0"
    and "queue_run fs (close e q0) = Some q"
  shows "q_pending q = [] \<and> q_inFlight q = [] \<and> q_next q = q_next q0 \<and> q_closedError q \<noteq> None \<and>
     (\<forall>i < q_next q. item_settlement (q_item q i) \<noteq> Unsettled)"
proof -
  have "queue_inv (close e q0)" using queue_reachable_inv [OF assms(1)] by (rule rejectPending_ok)
  moreover have "q_closedError (close e q0) \<noteq> None \<and> q_next (close e q0) = q_next q0"
    by (simp add: close_def rejectPending_def Let_def)
  ultimately have "queue_inv q \<and> q_closedError q \<noteq> None \<and> q_next q = q_next q0"
    using closed_queue.run_inv_free [OF _ _ assms(2)] by blast
  then show ?thesis by (auto simp: queue_ok_def queue_body_defs owned_def)
qed

theorem queue_closed_is_final_witness:
  "\<exists>q0 q. queue_run demo_events (new_queue LLM None None) = Some q0 \<and>
     queue_run [EvRelease 0] (close AbortedError q0) = Some q \<and> q_pending q = []"
proof -
  have "\<exists>q0 q. queue_run demo_events (new_queue LLM None None) = Some q0 \<and>
      queue_run [EvRelease 0] (close AbortedError q0) = Some q"
    by (simp add: demo_events_def queue_eval close_def rejectPending_def)
  then show ?thesis using queue_closed_is_final by blast
qed

text \<open>
  the hypothesis of C4 is needed.  Two acquires for different models that share one
  abort signal, the second at the head while the first is in use: aborting the signal leaves
  an aborted head that \<open>pump\<close> rejects again and again without removing it.
\<close>

theorem queue_shared_signal_spins:
  "queue_run [EvAcquire ''a'' None 0, EvStart 0, EvResolve 7 True 2,
     EvAcquire ''b'' (Some 0) 1, EvAcquire ''a'' (Some 0) 2, EvAbort 0]
     (new_queue LLM None None :: nat inference_queue) = None"
  by (simp add: queue_eval)

end
