(* ===== verification/Modality_Admission.thy ===== *)
theory Modality_Admission
  imports Modality
begin

text \<open>
  The admission barrier of one replaceable backend,
  \<^verbatim>\<open>src/src/domains/runtime/modality-admission.ts\<close>.

  A lease is a record in a store indexed by its acquisition number; promises are numbered and
  the resolved ones are listed.  A callback is its identity (two registrations of one function
  are one element of the JavaScript \<open>Set\<close>); calling it is recorded in \<open>b_invoked\<close>.  The
  callbacks the repository registers (\<open>prepare\<close> in \<^verbatim>\<open>runtime-reconciler.ts\<close>) only start
  asynchronous work, so they do not re-enter the barrier while it runs.
\<close>

section \<open>State and operations\<close>

record admission_lease =
  l_released :: bool
  l_responseStarted :: bool
  l_onPendingDetach :: "nat option"
  l_onIdleCancellation :: "nat option"

record barrier =
  b_modality :: runtime_modality
  b_accepting :: bool
  b_active :: int
  b_idle :: nat
  b_resolveIdle :: "nat option"
  b_resolved :: "nat list"
  b_nextPromise :: nat
  b_cancellationRequested :: bool
  b_pendingDetachCallbackInvoked :: bool
  b_idleCancellationCallbacks :: "nat list"
  b_pendingDetachCallbacks :: "nat list"
  b_lease :: "nat \<Rightarrow> admission_lease"
  b_next :: nat
  b_invoked :: "nat list"

record admission_snapshot =
  as_accepting :: bool
  as_activeCount :: int

definition new_lease :: admission_lease where
  "new_lease = \<lparr>l_released = False, l_responseStarted = False, l_onPendingDetach = None,
     l_onIdleCancellation = None\<rparr>"

definition new_barrier :: "runtime_modality \<Rightarrow> bool \<Rightarrow> barrier" where
  "new_barrier modality configured =
     \<lparr>b_modality = modality, b_accepting = configured, b_active = 0, b_idle = 0,
      b_resolveIdle = None, b_resolved = [0], b_nextPromise = 1, b_cancellationRequested = False,
      b_pendingDetachCallbackInvoked = False, b_idleCancellationCallbacks = [],
      b_pendingDetachCallbacks = [], b_lease = (\<lambda>_. new_lease), b_next = 0, b_invoked = []\<rparr>"

definition set_add :: "nat \<Rightarrow> nat list \<Rightarrow> nat list" where
  "set_add c cs = (if c \<in> set cs then cs else cs @ [c])"

definition attach :: "barrier \<Rightarrow> barrier" where
  "attach b = b\<lparr>b_accepting := True\<rparr>"

definition detach :: "barrier \<Rightarrow> barrier" where
  "detach b = b\<lparr>b_accepting := False\<rparr>"

definition detachIfIdle :: "barrier \<Rightarrow> bool \<times> barrier" where
  "detachIfIdle b =
     (if \<not> b_accepting b \<or> b_active b \<noteq> 0 then (False, b)
      else (True, b\<lparr>b_accepting := False\<rparr>))"

definition admission_snapshot :: "barrier \<Rightarrow> admission_snapshot" where
  "admission_snapshot b = \<lparr>as_accepting = b_accepting b, as_activeCount = b_active b\<rparr>"

definition acquire_lease :: "barrier \<Rightarrow> nat option \<times> barrier" where
  "acquire_lease b =
     (if \<not> b_accepting b then (None, b)
      else
        let b1 = (if b_active b = 0
                  then b\<lparr>b_idle := b_nextPromise b, b_resolveIdle := Some (b_nextPromise b),
                         b_nextPromise := Suc (b_nextPromise b)\<rparr>
                  else b)
        in (Some (b_next b),
            b1\<lparr>b_active := b_active b + 1, b_lease := (b_lease b)(b_next b := new_lease),
               b_next := Suc (b_next b)\<rparr>))"

definition upd_lease :: "nat \<Rightarrow> (admission_lease \<Rightarrow> admission_lease) \<Rightarrow> barrier \<Rightarrow> barrier" where
  "upd_lease i f b = b\<lparr>b_lease := (b_lease b)(i := f (b_lease b i))\<rparr>"

definition on_pending_detach :: "nat \<Rightarrow> nat \<Rightarrow> barrier \<Rightarrow> barrier" where
  "on_pending_detach i c b =
     (let l = b_lease b i
      in if l_released l \<or> l_responseStarted l \<or> l_onPendingDetach l \<noteq> None then b
         else upd_lease i (\<lambda>l. l\<lparr>l_onPendingDetach := Some c\<rparr>)
                (b\<lparr>b_pendingDetachCallbacks := set_add c (b_pendingDetachCallbacks b)\<rparr>))"

definition on_idle_cancellation :: "nat \<Rightarrow> nat \<Rightarrow> barrier \<Rightarrow> barrier" where
  "on_idle_cancellation i c b =
     (let l = b_lease b i
      in if l_released l \<or> l_onIdleCancellation l \<noteq> None then b
         else upd_lease i (\<lambda>l. l\<lparr>l_onIdleCancellation := Some c\<rparr>)
                (b\<lparr>b_idleCancellationCallbacks := set_add c (b_idleCancellationCallbacks b)\<rparr>))"

definition mark_response_started :: "nat \<Rightarrow> barrier \<Rightarrow> barrier" where
  "mark_response_started i b =
     (let l = b_lease b i
      in if l_responseStarted l then b
         else
           let b1 = upd_lease i (\<lambda>l. l\<lparr>l_responseStarted := True\<rparr>) b
           in case l_onPendingDetach l of None \<Rightarrow> b1
              | Some c \<Rightarrow> b1\<lparr>b_pendingDetachCallbacks := remove1 c (b_pendingDetachCallbacks b1)\<rparr>)"

text \<open>The private \<open>release(callback)\<close>.\<close>

definition first_callback :: "nat list \<Rightarrow> nat option" where
  "first_callback cs = (case cs of [] \<Rightarrow> None | c # _ \<Rightarrow> Some c)"

definition release_active :: "nat option \<Rightarrow> barrier \<Rightarrow> barrier" where
  "release_active callback b =
     (let b1 = (case callback of None \<Rightarrow> b
                | Some c \<Rightarrow> b\<lparr>b_pendingDetachCallbacks := remove1 c (b_pendingDetachCallbacks b)\<rparr>);
          b2 = b1\<lparr>b_active := b_active b1 - 1\<rparr>
      in if b_active b2 \<noteq> 0 then b2
         else
           let cancellation = (if b_cancellationRequested b2
                               then first_callback (b_idleCancellationCallbacks b2) else None);
               b3 = (if cancellation \<noteq> None then detach b2 else b2);
               b4 = b3\<lparr>b_cancellationRequested := False, b_idleCancellationCallbacks := [],
                       b_pendingDetachCallbacks := [],
                       b_resolved := (case b_resolveIdle b3 of None \<Rightarrow> b_resolved b3
                                      | Some p \<Rightarrow> p # b_resolved b3),
                       b_resolveIdle := None\<rparr>;
               b5 = (case cancellation of None \<Rightarrow> b4 | Some c \<Rightarrow> b4\<lparr>b_invoked := b_invoked b4 @ [c]\<rparr>)
           in b5\<lparr>b_pendingDetachCallbackInvoked := False\<rparr>)"

definition cancel_lease :: "nat \<Rightarrow> barrier \<Rightarrow> barrier" where
  "cancel_lease i b =
     (if l_released (b_lease b i) then b
      else release_active (l_onPendingDetach (b_lease b i))
             (upd_lease i (\<lambda>l. l\<lparr>l_released := True\<rparr>) (b\<lparr>b_cancellationRequested := True\<rparr>)))"

definition release_lease :: "nat \<Rightarrow> barrier \<Rightarrow> barrier" where
  "release_lease i b =
     (if l_released (b_lease b i) then b
      else release_active (l_onPendingDetach (b_lease b i))
             (upd_lease i (\<lambda>l. l\<lparr>l_released := True\<rparr>) b))"

definition detachPending :: "barrier \<Rightarrow> barrier" where
  "detachPending b =
     (if b_pendingDetachCallbackInvoked b then b
      else case first_callback (b_pendingDetachCallbacks b) of None \<Rightarrow> b
        | Some c \<Rightarrow> b\<lparr>b_pendingDetachCallbackInvoked := True, b_invoked := b_invoked b @ [c]\<rparr>)"

text \<open>The drains return the promise they hand out.\<close>

definition drainLeases :: "bool \<Rightarrow> barrier \<Rightarrow> nat \<times> barrier" where
  "drainLeases detach_pending b =
     (let b1 = detach b; b2 = (if detach_pending then detachPending b1 else b1) in (b_idle b2, b2))"

definition drain :: "barrier \<Rightarrow> nat \<times> barrier" where
  "drain b = drainLeases True b"

definition drainWithoutCancellation :: "barrier \<Rightarrow> nat \<times> barrier" where
  "drainWithoutCancellation b = drainLeases False b"

section \<open>Runs\<close>

datatype barrier_event =
    BAttach | BDetach | BDetachIfIdle | BAcquire
  | BOnPendingDetach nat nat
  | BOnIdleCancellation nat nat
  | BMarkResponseStarted nat
  | BCancel nat
  | BRelease nat
  | BDrain bool

fun barrier_apply :: "barrier_event \<Rightarrow> barrier \<Rightarrow> barrier" where
  "barrier_apply BAttach b = attach b"
| "barrier_apply BDetach b = detach b"
| "barrier_apply BDetachIfIdle b = snd (detachIfIdle b)"
| "barrier_apply BAcquire b = snd (acquire_lease b)"
| "barrier_apply (BOnPendingDetach i c) b = (if i < b_next b then on_pending_detach i c b else b)"
| "barrier_apply (BOnIdleCancellation i c) b = (if i < b_next b then on_idle_cancellation i c b else b)"
| "barrier_apply (BMarkResponseStarted i) b = (if i < b_next b then mark_response_started i b else b)"
| "barrier_apply (BCancel i) b = (if i < b_next b then cancel_lease i b else b)"
| "barrier_apply (BRelease i) b = (if i < b_next b then release_lease i b else b)"
| "barrier_apply (BDrain d) b = snd (drainLeases d b)"

definition barrier_step :: "barrier_event \<Rightarrow> barrier \<Rightarrow> barrier option" where
  "barrier_step ev b = Some (barrier_apply ev b)"

abbreviation barrier_run :: "barrier_event list \<Rightarrow> barrier \<Rightarrow> barrier option" where
  "barrier_run \<equiv> run_events barrier_step"

section \<open>The barrier invariant\<close>

definition open_leases :: "barrier \<Rightarrow> nat set" where
  "open_leases b = {i. i < b_next b \<and> \<not> l_released (b_lease b i)}"

text \<open>A pending detach callback belongs to a lease that still waits for its response.\<close>

definition waiting :: "nat \<Rightarrow> admission_lease \<Rightarrow> bool" where
  "waiting c l \<longleftrightarrow> \<not> l_released l \<and> \<not> l_responseStarted l \<and> l_onPendingDetach l = Some c"

definition waits_for_detach :: "barrier \<Rightarrow> nat \<Rightarrow> bool" where
  "waits_for_detach b c \<longleftrightarrow> (\<exists>i < b_next b. waiting c (b_lease b i))"

lemma waits_transfer:
  assumes "waits_for_detach b c" "b_next b \<le> b_next b'"
    "\<And>i. i < b_next b \<Longrightarrow> waiting c (b_lease b i) \<Longrightarrow> waiting c (b_lease b' i)"
  shows "waits_for_detach b' c"
  using assms order.strict_trans2 unfolding waits_for_detach_def by blast

definition barrier_inv :: "barrier \<Rightarrow> bool" where
  "barrier_inv b \<longleftrightarrow>
     b_active b = int (card (open_leases b)) \<and>
     b_idle b < b_nextPromise b \<and> (\<forall>p \<in> set (b_resolved b). p < b_nextPromise b) \<and>
     (if open_leases b = {} then b_resolveIdle b = None \<and> b_idle b \<in> set (b_resolved b) \<and>
        b_pendingDetachCallbacks b = [] \<and> b_idleCancellationCallbacks b = [] \<and>
        \<not> b_cancellationRequested b \<and> \<not> b_pendingDetachCallbackInvoked b
      else b_resolveIdle b = Some (b_idle b) \<and> b_idle b \<notin> set (b_resolved b)) \<and>
     distinct (b_pendingDetachCallbacks b) \<and>
     (\<forall>c \<in> set (b_pendingDetachCallbacks b). waits_for_detach b c)"

lemma finite_open [simp, intro]: "finite (open_leases b)"
  by (simp add: open_leases_def)

lemma new_barrier_inv: "barrier_inv (new_barrier m c)"
  by (simp add: barrier_inv_def new_barrier_def open_leases_def)

lemma barrier_active_zero: "barrier_inv b \<Longrightarrow> b_active b = 0 \<longleftrightarrow> open_leases b = {}"
  by (simp add: barrier_inv_def)

lemma acquire_inv:
  assumes "barrier_inv b"
  shows "barrier_inv (snd (acquire_lease b))"
proof (cases "b_accepting b")
  case True
  let ?b = "snd (acquire_lease b)"
  have op: "open_leases ?b = insert (b_next b) (open_leases b)"
    using True by (auto simp: acquire_lease_def Let_def open_leases_def new_lease_def less_Suc_eq)
  have fresh: "b_next b \<notin> open_leases b" by (simp add: open_leases_def)
  have "waits_for_detach ?b c" if "waits_for_detach b c" for c
    using that by (rule waits_transfer) (use True in \<open>auto simp: acquire_lease_def Let_def waiting_def\<close>)
  then show ?thesis
    using assms True fresh unfolding barrier_inv_def op
    by (auto simp: acquire_lease_def Let_def split: if_splits)
qed (use assms in \<open>simp add: acquire_lease_def\<close>)

lemma set_add_simps [simp]: "set (set_add c cs) = insert c (set cs)" "distinct (set_add c cs) = distinct cs"
  by (auto simp: set_add_def)

lemma registration_inv:
  assumes "barrier_inv b" "i < b_next b"
  shows "barrier_inv (on_pending_detach i c b)" "barrier_inv (on_idle_cancellation i c b)"
    "barrier_inv (mark_response_started i b)"
proof -
  show "barrier_inv (on_pending_detach i c b)"
  proof (cases "on_pending_detach i c b = b")
    case False
    let ?b = "on_pending_detach i c b"
    have l: "\<not> l_released (b_lease b i)" "\<not> l_responseStarted (b_lease b i)" "l_onPendingDetach (b_lease b i) = None"
      using False by (auto simp: on_pending_detach_def Let_def split: if_splits)
    have op: "open_leases ?b = open_leases b"
      using l by (auto simp: open_leases_def on_pending_detach_def Let_def upd_lease_def)
    have "waits_for_detach ?b d" if "waits_for_detach b d" for d
      using that by (rule waits_transfer)
        (use l in \<open>auto simp: on_pending_detach_def Let_def upd_lease_def waiting_def\<close>)
    moreover have "waits_for_detach ?b c"
      using l assms(2) unfolding waits_for_detach_def
      by (intro exI [of _ i]) (simp add: on_pending_detach_def Let_def upd_lease_def waiting_def)
    moreover have "open_leases b \<noteq> {}" using l assms(2) by (auto simp: open_leases_def)
    ultimately show ?thesis
      using assms(1) l unfolding barrier_inv_def op by (auto simp: on_pending_detach_def Let_def upd_lease_def)
  qed (use assms in simp)
  show "barrier_inv (on_idle_cancellation i c b)"
  proof (cases "on_idle_cancellation i c b = b")
    case False
    let ?b = "on_idle_cancellation i c b"
    have l: "\<not> l_released (b_lease b i)" "l_onIdleCancellation (b_lease b i) = None"
      using False by (auto simp: on_idle_cancellation_def Let_def split: if_splits)
    have op: "open_leases ?b = open_leases b"
      using l by (auto simp: open_leases_def on_idle_cancellation_def Let_def upd_lease_def)
    have "waits_for_detach ?b d" if "waits_for_detach b d" for d
      using that by (rule waits_transfer)
        (auto simp: on_idle_cancellation_def Let_def upd_lease_def waiting_def)
    moreover have "open_leases b \<noteq> {}" using l assms(2) by (auto simp: open_leases_def)
    ultimately show ?thesis
      using assms(1) l unfolding barrier_inv_def op by (auto simp: on_idle_cancellation_def Let_def upd_lease_def)
  qed (use assms in simp)
  show "barrier_inv (mark_response_started i b)"
  proof (cases "l_responseStarted (b_lease b i)")
    case True
    then show ?thesis using assms by (simp add: mark_response_started_def)
  next
    case False
    let ?b = "mark_response_started i b"
    have op: "open_leases ?b = open_leases b"
      using False by (auto simp: open_leases_def mark_response_started_def Let_def upd_lease_def split: option.split)
    have cbs: "b_pendingDetachCallbacks ?b =
        (case l_onPendingDetach (b_lease b i) of None \<Rightarrow> b_pendingDetachCallbacks b
         | Some c \<Rightarrow> remove1 c (b_pendingDetachCallbacks b))"
      using False by (auto simp: mark_response_started_def Let_def upd_lease_def split: option.split)
    have "waits_for_detach ?b d" if "waits_for_detach b d" "l_onPendingDetach (b_lease b i) \<noteq> Some d" for d
      using that(1) by (rule waits_transfer) (use that(2) False in
        \<open>auto simp: mark_response_started_def Let_def upd_lease_def waiting_def split: option.splits\<close>)
    then have "\<forall>d \<in> set (b_pendingDetachCallbacks ?b). waits_for_detach ?b d"
      using assms(1) unfolding cbs barrier_inv_def by (auto split: option.splits)
    moreover have "distinct (b_pendingDetachCallbacks ?b)"
      using assms(1) unfolding cbs barrier_inv_def by (auto split: option.splits simp: distinct_remove1)
    moreover have "open_leases b = {} \<Longrightarrow> b_pendingDetachCallbacks ?b = []"
      using assms(1) unfolding cbs barrier_inv_def by (auto split: option.splits)
    ultimately show ?thesis
      using assms(1) False unfolding barrier_inv_def op
      by (auto simp: mark_response_started_def Let_def upd_lease_def split: option.splits)
  qed
qed

text \<open>A lease that closes: \<open>cancel\<close> and \<open>release\<close> differ in one flag.\<close>

definition close_lease :: "bool \<Rightarrow> nat \<Rightarrow> barrier \<Rightarrow> barrier" where
  "close_lease cancelled i b =
     (if l_released (b_lease b i) then b
      else release_active (l_onPendingDetach (b_lease b i))
             (upd_lease i (\<lambda>l. l\<lparr>l_released := True\<rparr>)
               (b\<lparr>b_cancellationRequested := cancelled \<or> b_cancellationRequested b\<rparr>)))"

lemma close_lease_eqs: "cancel_lease = close_lease True" "release_lease = close_lease False"
  by (simp_all add: fun_eq_iff cancel_lease_def release_lease_def close_lease_def)

lemma release_active_frame:
  "b_lease (release_active c b) = b_lease b" "b_next (release_active c b) = b_next b"
  "b_active (release_active c b) = b_active b - 1" "b_idle (release_active c b) = b_idle b"
  "b_nextPromise (release_active c b) = b_nextPromise b"
  by (auto simp: release_active_def Let_def detach_def split: option.split)

lemma close_lease_inv:
  assumes b: "barrier_inv b" and i: "i < b_next b"
  shows "barrier_inv (close_lease cn i b)"
proof (cases "l_released (b_lease b i)")
  case True
  then show ?thesis using b by (simp add: close_lease_def)
next
  case False
  let ?c = "l_onPendingDetach (b_lease b i)"
  define b0 where "b0 = upd_lease i (\<lambda>l. l\<lparr>l_released := True\<rparr>)
      (b\<lparr>b_cancellationRequested := cn \<or> b_cancellationRequested b\<rparr>)"
  have eq: "close_lease cn i b = release_active ?c b0" using False by (simp add: close_lease_def b0_def)
  have iop: "i \<in> open_leases b" using False i by (simp add: open_leases_def)
  have op: "open_leases (release_active ?c b0) = open_leases b - {i}"
    by (auto simp: open_leases_def release_active_frame b0_def upd_lease_def)
  have "card (open_leases b) > 0" using iop by (auto simp: card_gt_0_iff)
  then have act: "b_active (release_active ?c b0) = int (card (open_leases b - {i}))"
    using b iop by (simp add: release_active_frame b0_def upd_lease_def barrier_inv_def)
  have f: "b_idle b0 = b_idle b" "b_resolveIdle b0 = Some (b_idle b)" "b_resolved b0 = b_resolved b"
    "b_nextPromise b0 = b_nextPromise b" "b_active b0 = b_active b"
    "b_pendingDetachCallbacks b0 = b_pendingDetachCallbacks b"
    using b iop by (auto simp: b0_def upd_lease_def barrier_inv_def split: if_splits)
  show ?thesis
  proof (cases "b_active b = 1")
    case True
    then have none: "open_leases b - {i} = {}"
      using act by (simp add: release_active_frame f)
    have r: "b_resolveIdle (release_active ?c b0) = None"
      "b_resolved (release_active ?c b0) = b_idle b # b_resolved b"
      "b_pendingDetachCallbacks (release_active ?c b0) = []"
      "b_idleCancellationCallbacks (release_active ?c b0) = []"
      "\<not> b_cancellationRequested (release_active ?c b0)"
      "\<not> b_pendingDetachCallbackInvoked (release_active ?c b0)"
      using True f by (auto simp: release_active_def Let_def detach_def split: option.split)
    show ?thesis
      using b act unfolding eq barrier_inv_def op none by (auto simp: r release_active_frame f)
  next
    case False
    then have r: "b_resolveIdle (release_active ?c b0) = Some (b_idle b)"
      "b_resolved (release_active ?c b0) = b_resolved b"
      "b_pendingDetachCallbacks (release_active ?c b0) =
         (case ?c of None \<Rightarrow> b_pendingDetachCallbacks b | Some c \<Rightarrow> remove1 c (b_pendingDetachCallbacks b))"
      using f by (auto simp: release_active_def Let_def detach_def split: option.split)
    have some: "open_leases b - {i} \<noteq> {}"
    proof
      assume "open_leases b - {i} = {}"
      then have "b_active b - 1 = 0" using act by (simp only: release_active_frame f card.empty of_nat_0)
      then show False using False by simp
    qed
    have "waits_for_detach (release_active ?c b0) d" if "waits_for_detach b d" "?c \<noteq> Some d" for d
      using that(1) by (rule waits_transfer)
        (use that(2) in \<open>auto simp: release_active_frame b0_def upd_lease_def waiting_def\<close>)
    then have "\<forall>d. waits_for_detach b d \<longrightarrow> ?c \<noteq> Some d \<longrightarrow> waits_for_detach (release_active ?c b0) d"
      by blast
    then have "\<forall>d \<in> set (b_pendingDetachCallbacks (release_active ?c b0)). waits_for_detach (release_active ?c b0) d"
      "distinct (b_pendingDetachCallbacks (release_active ?c b0))"
      using b unfolding r barrier_inv_def by (auto split: option.splits simp: distinct_remove1)
    moreover have "b_idle b < b_nextPromise b" "b_idle b \<notin> set (b_resolved b)"
        "\<forall>p \<in> set (b_resolved b). p < b_nextPromise b"
      using b iop by (auto simp: barrier_inv_def split: if_splits)
    ultimately show ?thesis
      using some act unfolding eq barrier_inv_def op r(1,2) release_active_frame(4,5) f(1,4) by auto
  qed
qed

lemma flags_inv:
  assumes "barrier_inv b"
  shows "barrier_inv (attach b)" "barrier_inv (detach b)" "barrier_inv (snd (detachIfIdle b))"
    "barrier_inv (snd (drainLeases d b))"
proof -
  have op: "open_leases (b\<lparr>b_accepting := a\<rparr>) = open_leases b"
    and wt: "waits_for_detach (b\<lparr>b_accepting := a\<rparr>) = waits_for_detach b" for a
    by (auto simp: open_leases_def waits_for_detach_def fun_eq_iff)
  have acc: "barrier_inv (b\<lparr>b_accepting := a\<rparr>)" for a
    using assms by (simp add: barrier_inv_def op wt)
  then show "barrier_inv (attach b)" "barrier_inv (detach b)" "barrier_inv (snd (detachIfIdle b))"
    using assms by (auto simp: attach_def detach_def detachIfIdle_def)
  have "barrier_inv (detachPending b')" if b': "barrier_inv b'" for b'
  proof (cases "detachPending b' = b'")
    case False
    then obtain c cs where c: "b_pendingDetachCallbacks b' = c # cs" "\<not> b_pendingDetachCallbackInvoked b'"
      by (auto simp: detachPending_def first_callback_def split: if_splits option.splits list.splits)
    have "open_leases (detachPending b') = open_leases b'" "waits_for_detach (detachPending b') = waits_for_detach b'"
      using c by (auto simp: detachPending_def first_callback_def open_leases_def waits_for_detach_def fun_eq_iff)
    then show ?thesis
      using b' c by (auto simp: barrier_inv_def detachPending_def first_callback_def split: if_splits)
  qed (use b' in simp)
  then show "barrier_inv (snd (drainLeases d b))"
    using acc [of False] by (simp add: drainLeases_def Let_def detach_def)
qed

lemma barrier_apply_inv: "barrier_inv b \<Longrightarrow> barrier_inv (barrier_apply ev b)"
  by (cases ev) (simp_all add: flags_inv acquire_inv registration_inv close_lease_eqs close_lease_inv)

interpretation mab: invariant_system barrier_step barrier_inv "\<lambda>_ _. True"
  by unfold_locales (auto simp: barrier_step_def intro: barrier_apply_inv)

lemma barrier_reachable_inv: "barrier_run es (new_barrier m c) = Some b \<Longrightarrow> barrier_inv b"
  using mab.run_inv_free new_barrier_inv by blast

section \<open>Draining\<close>

text \<open>Until it is attached again, a detached barrier admits nothing and keeps its promise.\<close>

lemma detached_step:
  assumes "\<not> b_accepting b" "ev \<noteq> BAttach"
  shows "\<not> b_accepting (barrier_apply ev b) \<and> b_next (barrier_apply ev b) = b_next b \<and>
    b_idle (barrier_apply ev b) = b_idle b"
  using assms
  by (cases ev) (auto simp: detach_def detachIfIdle_def acquire_lease_def on_pending_detach_def
      on_idle_cancellation_def mark_response_started_def close_lease_eqs close_lease_def release_active_def
      upd_lease_def drainLeases_def detachPending_def Let_def split: option.split)

interpretation detached: invariant_system barrier_step
    "\<lambda>b. barrier_inv b \<and> \<not> b_accepting b \<and> b_next b = n \<and> b_idle b = p" "\<lambda>ev _. ev \<noteq> BAttach" for n p
  by unfold_locales (auto simp: barrier_step_def barrier_apply_inv detached_step)

lemma idle_resolved_iff:
  "barrier_inv b \<Longrightarrow> b_idle b \<in> set (b_resolved b) \<longleftrightarrow> (\<forall>i < b_next b. l_released (b_lease b i))"
  by (auto simp: barrier_inv_def open_leases_def split: if_splits)

lemma drainLeases_parts:
  "fst (drainLeases d b) = b_idle b" "b_next (snd (drainLeases d b)) = b_next b"
  "b_idle (snd (drainLeases d b)) = b_idle b" "\<not> b_accepting (snd (drainLeases d b))"
  by (auto simp: drainLeases_def Let_def detachPending_def detach_def split: option.split)

section \<open>Properties\<close>

text \<open>
  C24: a drain waits for exactly the requests admitted before it.  Whatever happens until the
  barrier is attached again, no request is admitted, and the promise \<open>drain\<close> returned is
  resolved if and only if every lease admitted so far has been released or cancelled.
\<close>

theorem drain_waits_for_admitted_leases:
  assumes "barrier_run es (new_barrier m c) = Some b" and "drainLeases d b = (p, b1)"
    and "BAttach \<notin> set fs" and "barrier_run fs b1 = Some b2"
  shows "\<not> b_accepting b2 \<and> b_next b2 = b_next b \<and>
    (p \<in> set (b_resolved b2) \<longleftrightarrow> (\<forall>i < b_next b. l_released (b_lease b2 i)))"
proof -
  have b1: "b1 = snd (drainLeases d b)" "p = b_idle b"
    using assms(2) drainLeases_parts(1) [of d b] by auto
  have "barrier_inv b1 \<and> \<not> b_accepting b1 \<and> b_next b1 = b_next b \<and> b_idle b1 = p"
    using barrier_reachable_inv [OF assms(1)] by (simp add: b1 drainLeases_parts flags_inv)
  moreover have "run_allows (\<lambda>ev _. ev \<noteq> BAttach) barrier_step fs b1"
    using assms(3) by (intro run_allowsI) auto
  ultimately have "barrier_inv b2 \<and> \<not> b_accepting b2 \<and> b_next b2 = b_next b \<and> b_idle b2 = p"
    using detached.run_inv assms(4) by blast
  then show ?thesis using idle_resolved_iff by auto
qed

theorem drain_waits_for_admitted_leases_witness:
  "\<exists>b p b1 b2. barrier_run [BAcquire, BAcquire] (new_barrier LLM True) = Some b \<and>
     drainLeases True b = (p, b1) \<and> barrier_run [BRelease 0, BCancel 1] b1 = Some b2 \<and>
     p \<in> set (b_resolved b2)"
proof -
  obtain b p b1 b2 where r: "barrier_run [BAcquire, BAcquire] (new_barrier LLM True) = Some b"
      "drainLeases True b = (p, b1)" "barrier_run [BRelease 0, BCancel 1] b1 = Some b2"
    by (metis (no_types) barrier_step_def run_events.simps option.simps(5) surj_pair)
  have "l_released (b_lease b2 0) \<and> l_released (b_lease b2 1) \<and> b_next b = 2"
    using r by (auto simp: barrier_step_def acquire_lease_def new_barrier_def drainLeases_def detach_def
        detachPending_def first_callback_def close_lease_eqs close_lease_def release_active_frame upd_lease_def
        Let_def)
  then show ?thesis
    using r drain_waits_for_admitted_leases [OF r(1,2) _ r(3)] by (auto simp: less_2_cases_iff)
qed

text \<open>
  cancelling the last request stops the backend before it is reused.  When the last open
  lease is cancelled and an idle-cancellation callback is registered, the barrier is detached,
  its drain promise is resolved and the first registered callback is called, in that one step.
\<close>

theorem last_cancellation_detaches:
  assumes "barrier_run es (new_barrier m c) = Some b" and "open_leases b = {i}"
    and "b_idleCancellationCallbacks b = cb # cbs"
  shows "\<not> b_accepting (cancel_lease i b) \<and> b_active (cancel_lease i b) = 0 \<and>
    b_idle b \<in> set (b_resolved (cancel_lease i b)) \<and> b_invoked (cancel_lease i b) = b_invoked b @ [cb] \<and>
    b_idleCancellationCallbacks (cancel_lease i b) = []"
proof -
  have inv: "barrier_inv b" using assms(1) by (rule barrier_reachable_inv)
  have "b_active b = 1" "b_resolveIdle b = Some (b_idle b)"
    using inv assms(2) by (auto simp: barrier_inv_def)
  moreover have "\<not> l_released (b_lease b i)" using assms(2) by (auto simp: open_leases_def)
  ultimately show ?thesis
    using assms(3)
    by (auto simp: cancel_lease_def release_active_def upd_lease_def first_callback_def detach_def Let_def
        split: option.split)
qed

theorem last_cancellation_detaches_witness:
  "\<exists>b. barrier_run [BAcquire, BOnIdleCancellation 0 7] (new_barrier TTS True) = Some b \<and>
     \<not> b_accepting (cancel_lease 0 b) \<and> b_invoked (cancel_lease 0 b) = [7]"
proof -
  let ?b = "barrier_apply (BOnIdleCancellation 0 7) (barrier_apply BAcquire (new_barrier TTS True))"
  have r: "barrier_run [BAcquire, BOnIdleCancellation 0 7] (new_barrier TTS True) = Some ?b"
    by (simp add: barrier_step_def)
  have f: "open_leases ?b = {0}" "b_idleCancellationCallbacks ?b = [7]" "b_invoked ?b = []"
    by (auto simp: open_leases_def acquire_lease_def new_barrier_def on_idle_cancellation_def new_lease_def
        upd_lease_def set_add_def Let_def)
  show ?thesis using last_cancellation_detaches [OF r f(1,2)] r f(3) by auto
qed

text \<open>
  a drain interrupts only a request that still waits for its response.  \<open>drain\<close> calls
  at most one callback, that of an unreleased lease whose response has not started, and a
  second drain calls none before the barrier has been idle.
\<close>

theorem drain_interrupts_only_waiting_requests:
  assumes "barrier_run es (new_barrier m c) = Some b" and "drain b = (p, b1)"
  shows "(b_invoked b1 = b_invoked b \<or>
      (\<exists>cb i. b_invoked b1 = b_invoked b @ [cb] \<and> i < b_next b \<and> \<not> l_released (b_lease b i) \<and>
         \<not> l_responseStarted (b_lease b i) \<and> l_onPendingDetach (b_lease b i) = Some cb)) \<and>
    (b_invoked b1 \<noteq> b_invoked b \<longrightarrow> b_invoked (snd (drain b1)) = b_invoked b1)"
proof -
  have inv: "barrier_inv b" using assms(1) by (rule barrier_reachable_inv)
  have b1: "b1 = detachPending (detach b)" using assms(2) by (simp add: drain_def drainLeases_def Let_def)
  show ?thesis
  proof (cases "b_pendingDetachCallbackInvoked b \<or> b_pendingDetachCallbacks b = []")
    case True
    then have "b_invoked b1 = b_invoked b"
      by (auto simp: b1 detachPending_def detach_def first_callback_def split: option.split list.split)
    then show ?thesis by simp
  next
    case False
    then obtain cb cbs where cb: "b_pendingDetachCallbacks b = cb # cbs" by (cases "b_pendingDetachCallbacks b") auto
    then have "waits_for_detach b cb" using inv by (simp add: barrier_inv_def)
    moreover have "b_invoked b1 = b_invoked b @ [cb]" "b_pendingDetachCallbackInvoked b1"
      using False cb by (simp_all add: b1 detachPending_def detach_def first_callback_def)
    ultimately show ?thesis
      unfolding waits_for_detach_def waiting_def
      by (auto simp: drain_def drainLeases_def Let_def detachPending_def detach_def)
  qed
qed

theorem drain_interrupts_only_waiting_requests_witness:
  "\<exists>b p b1. barrier_run [BAcquire, BOnPendingDetach 0 9] (new_barrier STT True) = Some b \<and>
     drain b = (p, b1) \<and> b_invoked b1 = [9] \<and> b_invoked (snd (drain b1)) = [9]"
proof -
  let ?b = "barrier_apply (BOnPendingDetach 0 9) (barrier_apply BAcquire (new_barrier STT True))"
  have r: "barrier_run [BAcquire, BOnPendingDetach 0 9] (new_barrier STT True) = Some ?b"
    by (simp add: barrier_step_def)
  obtain p b1 where d: "drain ?b = (p, b1)" by (cases "drain ?b")
  have f: "b_invoked b1 = [9]" "b_invoked ?b = []"
    using d by (auto simp: acquire_lease_def new_barrier_def on_pending_detach_def new_lease_def upd_lease_def
        set_add_def drain_def drainLeases_def detach_def detachPending_def first_callback_def Let_def)
  show ?thesis using drain_interrupts_only_waiting_requests [OF r d] r d f by auto
qed

end
