(* ===== verification/Memory_Controller.thy ===== *)
theory Memory_Controller
  imports Memory_Safety
begin

text \<open>
  Reservations of managed backend processes,
  \<^verbatim>\<open>src/src/domains/runtime/memory-controller.ts\<close>.

  \<open>exclusive\<close> runs one operation at a time, so \<open>reserve\<close> is modelled by the two pieces of
  code around its one \<open>await\<close> (\<open>reserve_begin\<close>, \<open>reserve_commit\<close>); the field
  \<open>mc_reserving\<close> is the holder of the lock.  \<open>materialize\<close> and \<open>release\<close> do not take the lock
  and may run in between.  A token (a fresh \<open>Symbol\<close>) is a number never handed out before.  The
  provider's samples, the clock and the footprint sampler are arguments.
\<close>

section \<open>State\<close>

datatype reservation_state = Pending | Resident

record reservation =
  rs_token :: nat
  rs_projected :: "projected_demand list"
  rs_accelerator :: bytes
  rs_state :: reservation_state
  rs_pid :: "int option"

record reservation_request =
  rq_runtimeId :: string
  rq_demand :: memory_demand

record capacity_shortfall =
  cs_poolId :: string
  cs_required :: bytes
  cs_usable :: bytes
  cs_capacity :: bytes

record gpu_oversubscription =
  go_required :: bytes
  go_resident :: bytes
  go_cap :: bytes

text \<open>\<open>None\<close> is the string \<open>"unavailable"\<close>.\<close>

record admission_diagnostics =
  measured_available_bytes :: "bytes option"
  reserve_bytes :: "bytes option"
  pending_bytes :: "bytes option"
  requested_bytes :: "bytes option"
  effective_available_bytes :: "bytes option"
  sample_captured_at_ms :: ms
  sample_age_ms :: ms
  measured_pressure :: memory_pressure
  diag_safety_state :: safety_state
  recovery_samples :: nat
  diag_confidence :: demand_confidence

datatype memory_error =
    MemoryFault memory_fault
  | AlreadyReserved string
  | SnapshotFailed
  | AdmissionError rejection_reason string admission_diagnostics
      "capacity_shortfall option" "gpu_oversubscription option"

record memory_controller =
  mc_topology :: memory_topology
  mc_config :: memory_config
  mc_bypass :: bool
  mc_reservations :: "(string, reservation) js_map"
  mc_nextToken :: nat
  mc_reserving :: "reservation_request option"
  mc_hysteresis :: hysteresis
  mc_pressurePoolId :: string

definition new_controller :: "memory_topology \<Rightarrow> memory_config \<Rightarrow> bool \<Rightarrow> memory_controller" where
  "new_controller t config bypass =
     \<lparr>mc_topology = t, mc_config = config, mc_bypass = bypass, mc_reservations = [],
      mc_nextToken = 0, mc_reserving = None, mc_hysteresis = healthy,
      mc_pressurePoolId = pool_id (topo_system t)\<rparr>"

section \<open>Accounting\<close>

definition get_or :: "int \<Rightarrow> (string, int) js_map \<Rightarrow> string \<Rightarrow> int" where
  "get_or z m k = (case js_get m k of None \<Rightarrow> z | Some v \<Rightarrow> v)"

definition add_demand :: "projected_demand \<Rightarrow> (string, int) js_map \<Rightarrow> (string, int) js_map" where
  "add_demand d m = js_set (pd_poolId d) (get_or 0 m (pd_poolId d) + pd_bytes d) m"

definition pendingDemandByPool :: "reservation list \<Rightarrow> (string, int) js_map" where
  "pendingDemandByPool rs =
     fold (\<lambda>r m. if rs_state r \<noteq> Pending then m else fold add_demand (rs_projected r) m) rs []"

definition map_available :: "(string \<Rightarrow> bytes \<Rightarrow> bytes) \<Rightarrow> memory_snapshot \<Rightarrow> memory_snapshot" where
  "map_available f s = s\<lparr>snap_pools := map (\<lambda>p. case p of
       Unavailable i \<Rightarrow> p | Available i b pr \<Rightarrow> Available i (f i b) pr) (snap_pools s)\<rparr>"

definition subtractReservations :: "memory_snapshot \<Rightarrow> (string, int) js_map \<Rightarrow> memory_snapshot" where
  "subtractReservations s reserved = map_available (\<lambda>i b. max 0 (b - get_or 0 reserved i)) s"

definition isReleasing :: "string \<Rightarrow> string list \<Rightarrow> bool" where
  "isReleasing reservationId releasing \<longleftrightarrow>
     reservationId \<in> set releasing \<or>
     list_ex (\<lambda>runtimeId. prefix (runtimeId @ '':'') reservationId) releasing"

definition addReleasedMemory ::
  "memory_controller \<Rightarrow> memory_snapshot \<Rightarrow> string list \<Rightarrow> (string, bytes) js_map \<Rightarrow> memory_snapshot" where
  "addReleasedMemory c s releasing measured =
     (if releasing = [] then s
      else
        let freed = fold (\<lambda>(i, e) freed.
              if \<not> isReleasing i releasing \<or> rs_state e \<noteq> Resident then freed
              else fold (\<lambda>d. add_demand (d\<lparr>pd_bytes :=
                     (case js_get measured i of None \<Rightarrow> pd_bytes d
                      | Some footprint \<Rightarrow> min (pd_bytes d) footprint)\<rparr>))
                   (rs_projected e) freed)
              (mc_reservations c) []
        in map_available (\<lambda>i b. b + get_or 0 freed i) s)"

definition gpuWorkingSetOversubscription ::
  "memory_controller \<Rightarrow> reservation_request \<Rightarrow> reservation list \<Rightarrow> gpu_oversubscription option" where
  "gpuWorkingSetOversubscription c r others =
     (case mc_topology c of
        Unified _ (Some cap) \<Rightarrow>
          (let acc = acceleratorBytes (rq_demand r);
               residentBytes = sum_list (map rs_accelerator others)
           in if cap \<le> 0 \<or> acc \<le> 0 then None
              else if residentBytes + acc \<le> cap then None
              else Some \<lparr>go_required = acc, go_resident = residentBytes, go_cap = cap\<rparr>)
      | _ \<Rightarrow> None)"

definition requiresAccelerator :: "memory_topology \<Rightarrow> memory_demand \<Rightarrow> bool" where
  "requiresAccelerator t d =
     (case t of Unified _ _ \<Rightarrow> False | Discrete _ _ \<Rightarrow> acceleratorBytes d > 0)"

fun first_shortfall ::
  "memory_controller \<Rightarrow> projected_demand list \<Rightarrow> capacity_shortfall option" where
  "first_shortfall c [] = None"
| "first_shortfall c (d # ds) =
     (let t = mc_topology c;
          isSystem = (pd_poolId d = pool_id (topo_system t));
          pool = (if isSystem then Some (topo_system t)
                  else case t of Discrete _ accelerators \<Rightarrow> find_pool (pd_poolId d) accelerators
                       | Unified _ _ \<Rightarrow> None)
      in case pool of
           None \<Rightarrow> first_shortfall c ds
         | Some p \<Rightarrow>
             if capacityBytes p \<le> 0 then first_shortfall c ds
             else
               let usableBytes = max 0 (capacityBytes p - effectiveMemoryReserveBytes
                     (if isSystem then systemReserve (mc_config c) else acceleratorReserve (mc_config c))
                     (capacityBytes p))
               in if pd_bytes d > usableBytes
                  then Some \<lparr>cs_poolId = pool_id p, cs_required = pd_bytes d,
                             cs_usable = usableBytes, cs_capacity = capacityBytes p\<rparr>
                  else first_shortfall c ds)"

definition capacityShortfall ::
  "memory_controller \<Rightarrow> reservation_request \<Rightarrow> memory_fault + capacity_shortfall option" where
  "capacityShortfall c r =
     (let t = mc_topology c; d = rq_demand r
      in case t of
           Unified _ cap \<Rightarrow>
             if exceedsGpuWorkingSet t d
             then Inr (Some \<lparr>cs_poolId = GPU_WORKING_SET_POOL_ID, cs_required = acceleratorBytes d,
                             cs_usable = (case cap of Some b \<Rightarrow> b | None \<Rightarrow> 0),
                             cs_capacity = (case cap of Some b \<Rightarrow> b | None \<Rightarrow> 0)\<rparr>)
             else map_sum id (first_shortfall c) (projectRuntimeMemoryDemand t d None)
         | Discrete _ accelerators \<Rightarrow>
             if requiresAccelerator t d \<and> length accelerators \<noteq> 1 then Inr None
             else map_sum id (first_shortfall c) (projectRuntimeMemoryDemand t d
                    (if requiresAccelerator t d then Some (pool_id (hd accelerators)) else None)))"

section \<open>Evaluation\<close>

definition diagnostics ::
  "memory_controller \<Rightarrow> reservation_request \<Rightarrow> memory_snapshot \<Rightarrow> (string, int) js_map \<Rightarrow> ms \<Rightarrow>
   string \<Rightarrow> admission_diagnostics" where
  "diagnostics c r s pend now poolId =
     (let t = mc_topology c;
          d = rq_demand r;
          isSystem = (poolId = pool_id (topo_system t));
          pool = (if isSystem then Some (topo_system t)
                  else case t of Discrete _ accelerators \<Rightarrow> find_pool poolId accelerators
                       | Unified _ _ \<Rightarrow> None);
          observed = find (\<lambda>p. snap_id p = poolId) (snap_pools s);
          pendingBytes = map_option (\<lambda>p. get_or 0 pend (pool_id p)) pool;
          measuredBytes = (case observed of Some (Available _ b _) \<Rightarrow> Some b | _ \<Rightarrow> None)
      in \<lparr>measured_available_bytes = measuredBytes,
          reserve_bytes = map_option (\<lambda>p. effectiveMemoryReserveBytes
             (if isSystem then systemReserve (mc_config c) else acceleratorReserve (mc_config c))
             (capacityBytes p)) pool,
          pending_bytes = pendingBytes,
          requested_bytes =
            (if poolId = GPU_WORKING_SET_POOL_ID then Some (acceleratorBytes d)
             else case t of
                 Unified _ _ \<Rightarrow> Some (unifiedBytes d)
               | Discrete _ accelerators \<Rightarrow>
                   if isSystem then Some (hostBytes d)
                   else if acceleratorBytes d = 0 \<or> length accelerators = 1
                   then Some (acceleratorBytes d) else None),
          effective_available_bytes =
            (case (measuredBytes, pendingBytes) of
               (Some m, Some p) \<Rightarrow> Some (max 0 (m - p)) | _ \<Rightarrow> None),
          sample_captured_at_ms = capturedAtMs s,
          sample_age_ms = max 0 (now - capturedAtMs s),
          measured_pressure =
            (case observed of Some (Available _ _ p) \<Rightarrow> p | _ \<Rightarrow> Unknown),
          diag_safety_state = hy_state (mc_hysteresis c),
          recovery_samples = hy_normal (mc_hysteresis c),
          diag_confidence = demand_confidence d\<rparr>)"

definition ambiguous_accelerator :: "memory_topology \<Rightarrow> memory_demand \<Rightarrow> bool" where
  "ambiguous_accelerator t d =
     (case t of Unified _ _ \<Rightarrow> False
      | Discrete _ accelerators \<Rightarrow> requiresAccelerator t d \<and> length accelerators \<noteq> 1)"

text \<open>An empty pool id is falsy, so it is not passed on.\<close>

definition chosen_accelerator :: "memory_topology \<Rightarrow> memory_demand \<Rightarrow> string option" where
  "chosen_accelerator t d =
     (case t of
        Discrete _ accelerators \<Rightarrow>
          if requiresAccelerator t d \<and> pool_id (hd accelerators) \<noteq> []
          then Some (pool_id (hd accelerators)) else None
      | Unified _ _ \<Rightarrow> None)"

definition evaluate ::
  "memory_controller \<Rightarrow> reservation_request \<Rightarrow> memory_snapshot \<Rightarrow> string list \<Rightarrow>
   (string, bytes) js_map \<Rightarrow> ms \<Rightarrow> memory_error + projected_demand list" where
  "evaluate c r rawSnapshot releasing measured now =
     (let t = mc_topology c;
          remaining = map snd (filter (\<lambda>(i, e). \<not> isReleasing i releasing) (mc_reservations c));
          pend = pendingDemandByPool remaining;
          s = addReleasedMemory c rawSnapshot releasing measured;
          reject = (\<lambda>reason poolId capacity gpu.
            Inl (AdmissionError reason poolId (diagnostics c r s pend now poolId) capacity gpu))
      in case capacityShortfall c r of
           Inl e \<Rightarrow> Inl (MemoryFault e)
         | Inr (Some capacity) \<Rightarrow>
             reject (if cs_poolId capacity = pool_id (topo_system t) then SystemMemory else AcceleratorMemory)
               (cs_poolId capacity) (Some capacity) None
         | Inr None \<Rightarrow>
         (case gpuWorkingSetOversubscription c r remaining of
           Some over \<Rightarrow> reject AcceleratorMemory GPU_WORKING_SET_POOL_ID None (Some over)
         | None \<Rightarrow>
           if hy_state (mc_hysteresis c) \<noteq> Healthy
           then reject MemoryPressureReason (mc_pressurePoolId c) None None
           else
             let observation = observeMemoryPressure t s (mc_config c)
             in if snd observation = Constrained \<or> snd observation = Critical
                then reject MemoryPressureReason (fst observation) None None
                else if ambiguous_accelerator t (rq_demand r)
                then reject MeasurementUnavailable ''accelerator'' None None
                else
                  case evaluateMemoryAdmission t (subtractReservations s pend) (mc_config c)
                         (rq_demand r) (chosen_accelerator t (rq_demand r)) of
                    Inl e \<Rightarrow> Inl (MemoryFault e)
                  | Inr (RejectedAdmission reason poolId) \<Rightarrow> reject reason poolId None None
                  | Inr (Admitted projected _) \<Rightarrow> Inr projected))"

section \<open>Operations\<close>

definition insert_reservation ::
  "reservation_request \<Rightarrow> projected_demand list \<Rightarrow> memory_controller \<Rightarrow> nat \<times> memory_controller" where
  "insert_reservation r projected c =
     (mc_nextToken c,
      c\<lparr>mc_reservations := js_set (rq_runtimeId r)
           \<lparr>rs_token = mc_nextToken c, rs_projected = projected,
            rs_accelerator = acceleratorBytes (rq_demand r), rs_state = Pending, rs_pid = None\<rparr>
           (mc_reservations c),
        mc_nextToken := Suc (mc_nextToken c)\<rparr>)"

text \<open>Up to the sample: \<open>Inr (Some token)\<close> is a bypassed reservation, \<open>Inr None\<close> waits.\<close>

definition reserve_begin ::
  "reservation_request \<Rightarrow> memory_controller \<Rightarrow> (memory_error + nat option) \<times> memory_controller" where
  "reserve_begin r c =
     (if js_has (mc_reservations c) (rq_runtimeId r) then (Inl (AlreadyReserved (rq_runtimeId r)), c)
      else if mc_bypass c
      then (case insert_reservation r [] c of (token, c') \<Rightarrow> (Inr (Some token), c'))
      else (Inr None, c\<lparr>mc_reserving := Some r\<rparr>))"

definition reserve_commit ::
  "reservation_request \<Rightarrow> memory_snapshot option \<Rightarrow> ms \<Rightarrow> memory_controller \<Rightarrow>
   (memory_error + nat) \<times> memory_controller" where
  "reserve_commit r snapshot now c =
     (let c = c\<lparr>mc_reserving := None\<rparr>
      in case snapshot of
           None \<Rightarrow> (Inl SnapshotFailed, c)
         | Some s \<Rightarrow>
             (case evaluate c r s [] [] now of
                Inl e \<Rightarrow> (Inl e, c)
              | Inr projected \<Rightarrow>
                  (case insert_reservation r projected c of (token, c') \<Rightarrow> (Inr token, c'))))"

definition materialize :: "string \<Rightarrow> nat \<Rightarrow> int option \<Rightarrow> memory_controller \<Rightarrow> memory_controller" where
  "materialize runtimeId token pid c =
     (case js_get (mc_reservations c) runtimeId of
        None \<Rightarrow> c
      | Some e \<Rightarrow>
          if rs_token e \<noteq> token then c
          else c\<lparr>mc_reservations := js_set runtimeId
                 (e\<lparr>rs_state := Resident, rs_pid := (case pid of None \<Rightarrow> rs_pid e | Some p \<Rightarrow> Some p)\<rparr>)
                 (mc_reservations c)\<rparr>)"

definition release_reservation :: "string \<Rightarrow> nat \<Rightarrow> memory_controller \<Rightarrow> memory_controller" where
  "release_reservation runtimeId token c =
     (case js_get (mc_reservations c) runtimeId of
        None \<Rightarrow> c
      | Some e \<Rightarrow>
          if rs_token e = token
          then c\<lparr>mc_reservations := js_delete runtimeId (mc_reservations c)\<rparr> else c)"

definition observe :: "memory_snapshot \<Rightarrow> memory_controller \<Rightarrow> safety_transition \<times> memory_controller" where
  "observe s c =
     (let observation = observeMemoryPressure (mc_topology c) s (mc_config c);
          transition = transitionMemorySafetyState (mc_hysteresis c) (snd observation)
      in (transition,
          c\<lparr>mc_hysteresis := tr_current transition,
            mc_pressurePoolId := (if snd observation \<noteq> Normal then fst observation
                                  else mc_pressurePoolId c)\<rparr>))"

definition poll :: "memory_snapshot \<Rightarrow> memory_controller \<Rightarrow> safety_transition \<times> memory_controller" where
  "poll s c =
     (if mc_bypass c
      then (\<lparr>tr_previous = mc_hysteresis c, tr_current = mc_hysteresis c, tr_action = Allow\<rparr>, c)
      else observe s c)"

definition measureReleasing ::
  "(int \<Rightarrow> bytes option) option \<Rightarrow> string list \<Rightarrow> memory_controller \<Rightarrow> (string, bytes) js_map" where
  "measureReleasing sampler releasing c =
     (case (sampler, mc_topology c) of
        (Some sample, Unified _ _) \<Rightarrow>
          if releasing = [] then []
          else fold (\<lambda>(i, e) m.
                 if isReleasing i releasing \<and> rs_state e = Resident
                 then (case rs_pid e of None \<Rightarrow> m
                   | Some pid \<Rightarrow> (case sample pid of None \<Rightarrow> m | Some b \<Rightarrow> js_set i b m))
                 else m) (mc_reservations c) []
      | _ \<Rightarrow> [])"

text \<open>
  The probe, given the footprints sampled before it took the lock.  An admission error is
  returned by the code, any other error is thrown again; both are \<open>Some\<close> here.
\<close>

definition checkAdmission ::
  "memory_demand \<Rightarrow> string option \<Rightarrow> string list \<Rightarrow> (string, bytes) js_map \<Rightarrow> memory_snapshot \<Rightarrow> ms \<Rightarrow>
   memory_controller \<Rightarrow> memory_error option" where
  "checkAdmission d runtimeId releasing measured s now c =
     (if mc_bypass c then None
      else case evaluate c
             \<lparr>rq_runtimeId = (case runtimeId of None \<Rightarrow> ''admission-check'' | Some i \<Rightarrow> i), rq_demand = d\<rparr>
             s releasing measured now of
           Inl e \<Rightarrow> Some e | Inr _ \<Rightarrow> None)"

section \<open>Events\<close>

datatype memory_event =
    MPoll memory_snapshot
  | MReserveBegin reservation_request
  | MReserveCommit "memory_snapshot option" ms
  | MMaterialize string nat "int option"
  | MRelease string nat

text \<open>An operation that needs the lock waits (here: does nothing) while another holds it.\<close>

fun memory_apply :: "memory_event \<Rightarrow> memory_controller \<Rightarrow> memory_controller" where
  "memory_apply (MPoll s) c = (if mc_reserving c = None then snd (poll s c) else c)"
| "memory_apply (MReserveBegin r) c = (if mc_reserving c = None then snd (reserve_begin r c) else c)"
| "memory_apply (MReserveCommit s now) c =
     (case mc_reserving c of None \<Rightarrow> c | Some r \<Rightarrow> snd (reserve_commit r s now c))"
| "memory_apply (MMaterialize i k pid) c = materialize i k pid c"
| "memory_apply (MRelease i k) c = release_reservation i k c"

definition memory_step :: "memory_event \<Rightarrow> memory_controller \<Rightarrow> memory_controller option" where
  "memory_step ev c = Some (memory_apply ev c)"

abbreviation memory_run :: "memory_event list \<Rightarrow> memory_controller \<Rightarrow> memory_controller option" where
  "memory_run \<equiv> run_events memory_step"

section \<open>Accounting lemmas\<close>

definition demand_on :: "string \<Rightarrow> projected_demand list \<Rightarrow> bytes" where
  "demand_on k ds = sum_list (map (\<lambda>d. if pd_poolId d = k then pd_bytes d else 0) ds)"

definition pending_on :: "string \<Rightarrow> reservation list \<Rightarrow> bytes" where
  "pending_on k rs = sum_list (map (\<lambda>r. if rs_state r = Pending then demand_on k (rs_projected r) else 0) rs)"

definition reservations :: "memory_controller \<Rightarrow> reservation list" where
  "reservations c = map snd (mc_reservations c)"

lemma get_or_add_demands:
  "get_or 0 (fold add_demand ds m) k = get_or 0 m k + demand_on k ds"
proof (induction ds arbitrary: m)
  case (Cons d ds)
  have "get_or 0 (add_demand d m) k = get_or 0 m k + (if pd_poolId d = k then pd_bytes d else 0)"
    by (simp add: add_demand_def get_or_def)
  then show ?case using Cons.IH by (simp add: demand_on_def)
qed (simp add: demand_on_def)

lemma get_or_pendingDemandByPool: "get_or 0 (pendingDemandByPool rs) k = pending_on k rs"
proof -
  have "get_or 0 (fold (\<lambda>r m. if rs_state r \<noteq> Pending then m else fold add_demand (rs_projected r) m) rs m) k =
      get_or 0 m k + pending_on k rs" for m
    by (induction rs arbitrary: m) (auto simp: pending_on_def get_or_add_demands)
  then show ?thesis by (simp add: pendingDemandByPool_def get_or_def)
qed

lemma pending_on_append [simp]: "pending_on k (rs @ ss) = pending_on k rs + pending_on k ss"
  by (simp add: pending_on_def)

definition map_pool :: "(string \<Rightarrow> bytes \<Rightarrow> bytes) \<Rightarrow> pool_snapshot \<Rightarrow> pool_snapshot" where
  "map_pool f p = (case p of Unavailable i \<Rightarrow> p | Available i b pr \<Rightarrow> Available i (f i b) pr)"

lemma snap_id_map_pool [simp]: "snap_id (map_pool f p) = snap_id p"
  by (simp add: map_pool_def split: pool_snapshot.split)

lemma map_of_self: "map_of (map (\<lambda>p. (f p, p)) xs) k = find (\<lambda>p. f p = k) xs"
  by (induction xs) auto

lemma find_map_pool:
  "find (\<lambda>p. snap_id p = k) (map (map_pool f) xs) = map_option (map_pool f) (find (\<lambda>p. snap_id p = k) xs)"
  by (induction xs) auto

lemma snapshot_map_find: "js_get (snapshot_map s) k = find (\<lambda>p. snap_id p = k) (rev (snap_pools s))"
  by (simp add: snapshot_map_def js_get_map_of rev_map map_of_self)

lemma usable_map_available:
  "usable_sample (map_available f s) k = map_option (\<lambda>(b, p). (f k b, p)) (usable_sample s k)"
proof -
  have *: "map_available f s = s\<lparr>snap_pools := map (map_pool f) (snap_pools s)\<rparr>"
    by (simp add: map_available_def map_pool_def)
  have id: "find (\<lambda>p. snap_id p = k) ps = Some p \<Longrightarrow> snap_id p = k" for ps and p :: pool_snapshot
    using find_Some_in by fastforce
  show ?thesis
    by (auto simp: usable_sample_def snapshot_map_find * rev_map find_map_pool map_pool_def
        split: option.splits pool_snapshot.splits dest!: id)
qed

lemma usable_subtract:
  "usable_sample (subtractReservations s reserved) k =
     map_option (\<lambda>(b, p). (max 0 (b - get_or 0 reserved k), p)) (usable_sample s k)"
  by (simp add: subtractReservations_def usable_map_available)

lemma reserve_nonneg: "config_valid c \<Longrightarrow> 0 \<le> reserveForPool t c pool"
proof -
  assume "config_valid c"
  then have "0 \<le> minimumGb (systemReserve c)" "0 \<le> minimumGb (acceleratorReserve c)"
    by (auto simp: config_valid_def reserve_valid_def)
  then show ?thesis
    by (auto simp: reserveForPool_def effectiveMemoryReserveBytes_def gibibyte_def le_max_iff_disj
        intro: order_trans [of 0 "0 :: int"])
qed

lemma isReleasing_Nil [simp]: "\<not> isReleasing i []"
  by (simp add: isReleasing_def)

lemma addReleasedMemory_Nil [simp]: "addReleasedMemory c s [] m = s"
  by (simp add: addReleasedMemory_def)

text \<open>What a successful evaluation establishes, and requires.\<close>

definition remaining_after :: "string list \<Rightarrow> memory_controller \<Rightarrow> reservation list" where
  "remaining_after rel c = map snd (filter (\<lambda>(i, e). \<not> isReleasing i rel) (mc_reservations c))"

definition calm :: "string \<times> memory_pressure \<Rightarrow> bool" where
  "calm observation \<longleftrightarrow> snd observation \<noteq> Constrained \<and> snd observation \<noteq> Critical"

definition sub_sample :: "string list \<Rightarrow> memory_controller \<Rightarrow> memory_snapshot \<Rightarrow> memory_snapshot" where
  "sub_sample rel c s = subtractReservations s (pendingDemandByPool (remaining_after rel c))"

lemma evaluate_Inr_iff:
  "evaluate c r raw rel measured now = Inr ds \<longleftrightarrow>
     capacityShortfall c r = Inr None \<and>
     gpuWorkingSetOversubscription c r (remaining_after rel c) = None \<and>
     hy_state (mc_hysteresis c) = Healthy \<and>
     calm (observeMemoryPressure (mc_topology c) (addReleasedMemory c raw rel measured) (mc_config c)) \<and>
     \<not> ambiguous_accelerator (mc_topology c) (rq_demand r) \<and>
     (\<exists>hs. evaluateMemoryAdmission (mc_topology c) (sub_sample rel c (addReleasedMemory c raw rel measured))
        (mc_config c) (rq_demand r) (chosen_accelerator (mc_topology c) (rq_demand r)) = Inr (Admitted ds hs))"
  unfolding evaluate_def Let_def remaining_after_def [symmetric] sub_sample_def [symmetric] calm_def
  by (auto split: sum.splits option.splits if_splits admission_decision.splits)

lemma remaining_Nil [simp]: "remaining_after [] c = reservations c"
  by (simp add: remaining_after_def reservations_def case_prod_beta)

lemma distinct_projected:
  assumes "projectRuntimeMemoryDemand t d acc = Inr ds" "pool_id (topo_system t) \<notin> pool_id ` set (accelerator_pools t)"
  shows "distinct (map pd_poolId ds)"
  using assms
  by (auto simp: projectRuntimeMemoryDemand_def acceleratorPool_def find_pool_def Let_def
      split: memory_topology.splits sum.splits option.splits if_splits dest!: find_Some_in)

lemma demand_on_distinct: "distinct (map pd_poolId ds) \<Longrightarrow> d \<in> set ds \<Longrightarrow> demand_on (pd_poolId d) ds = pd_bytes d"
proof (induction ds)
  case (Cons e ds)
  have zero: "k \<notin> pd_poolId ` set ds \<Longrightarrow> demand_on k ds = 0" for k
    by (induction ds) (auto simp: demand_on_def)
  have step: "demand_on k (e # ds) = (if pd_poolId e = k then pd_bytes e else 0) + demand_on k ds" for k
    by (simp add: demand_on_def)
  show ?case
  proof (cases "d = e")
    case True
    then show ?thesis using Cons.prems zero [of "pd_poolId e"] step by simp
  next
    case False
    then have "d \<in> set ds" using Cons.prems by simp
    moreover from this have "pd_poolId e \<noteq> pd_poolId d" using Cons.prems(1) by auto
    ultimately show ?thesis using Cons step by simp
  qed
qed simp

lemma poolForId_id: "poolForId t i = Inr pool \<Longrightarrow> pool_id pool = i"
  by (auto simp: poolForId_def find_pool_def split: if_splits memory_topology.splits option.splits dest!: find_Some_in)

section \<open>The controller invariant\<close>

definition controller_inv :: "memory_topology \<Rightarrow> memory_config \<Rightarrow> bool \<Rightarrow> memory_controller \<Rightarrow> bool" where
  "controller_inv t cfg byp c \<longleftrightarrow>
     mc_topology c = t \<and> mc_config c = cfg \<and> mc_bypass c = byp \<and> js_wf (mc_reservations c) \<and>
     (\<forall>(i, e) \<in> set (mc_reservations c). rs_token e < mc_nextToken c) \<and>
     distinct (map rs_token (reservations c)) \<and>
     (\<forall>r. mc_reserving c = Some r \<longrightarrow> \<not> byp \<and> js_get (mc_reservations c) (rq_runtimeId r) = None)"

lemma new_controller_inv: "controller_inv t cfg byp (new_controller t cfg byp)"
  by (simp add: controller_inv_def new_controller_def reservations_def)

lemma js_set_mem: "x \<in> set (js_set k v m) \<Longrightarrow> x = (k, v) \<or> x \<in> set m"
  by (induction k v m rule: js_set.induct) (auto split: if_splits)

lemma js_delete_subset: "set (js_delete k m) \<subseteq> set m"
  by (auto simp: js_delete_def)

lemma reservations_insert:
  "js_get (mc_reservations c) (rq_runtimeId r) = None \<Longrightarrow>
   reservations (snd (insert_reservation r ds c)) =
     reservations c @ [\<lparr>rs_token = mc_nextToken c, rs_projected = ds,
        rs_accelerator = acceleratorBytes (rq_demand r), rs_state = Pending, rs_pid = None\<rparr>]"
  by (simp add: reservations_def insert_reservation_def js_set_fresh)

lemma insert_reservation_inv:
  assumes "controller_inv t cfg byp c" "mc_reserving c = None"
    and fresh: "js_get (mc_reservations c) (rq_runtimeId r) = None"
  shows "controller_inv t cfg byp (snd (insert_reservation r ds c))"
proof -
  have "\<forall>e \<in> set (reservations c). rs_token e < mc_nextToken c"
    using assms(1) by (auto simp: controller_inv_def reservations_def)
  then have "distinct (map rs_token (reservations (snd (insert_reservation r ds c))))"
    using assms(1) by (auto simp: reservations_insert [OF fresh] controller_inv_def)
  then show ?thesis
    using assms by (auto simp: controller_inv_def insert_reservation_def less_Suc_eq dest!: js_set_mem)
qed

lemma reservations_reserving [simp]: "reservations (c\<lparr>mc_reserving := x\<rparr>) = reservations c"
  by (simp add: reservations_def)

lemma update_tokens:
  "js_get m k = Some e \<Longrightarrow> rs_token e' = rs_token e \<Longrightarrow>
     map rs_token (map snd (js_set k e' m)) = map rs_token (map snd m)"
  by (induction k e' m rule: js_set.induct) (auto simp: js_get_def split: if_splits)

lemma delete_tokens: "distinct (map rs_token (map snd m)) \<Longrightarrow> distinct (map rs_token (map snd (js_delete k m)))"
  by (auto simp: js_delete_def distinct_map_filter)

lemma reserve_commit_state:
  "snd (reserve_commit r s now c) = c\<lparr>mc_reserving := None\<rparr> \<or>
   (\<exists>raw ds. s = Some raw \<and> evaluate (c\<lparr>mc_reserving := None\<rparr>) r raw [] [] now = Inr ds \<and>
      snd (reserve_commit r s now c) = snd (insert_reservation r ds (c\<lparr>mc_reserving := None\<rparr>)))"
  by (auto simp: reserve_commit_def Let_def insert_reservation_def split: option.splits sum.splits)

lemma controller_step_inv:
  assumes c: "controller_inv t cfg byp c"
  shows "controller_inv t cfg byp (memory_apply ev c)"
proof (cases ev)
  case (MPoll s)
  then show ?thesis using c by (auto simp: controller_inv_def poll_def observe_def Let_def reservations_def)
next
  case (MReserveBegin r)
  then show ?thesis
    using c insert_reservation_inv [OF c, of r "[]"]
    by (auto simp: reserve_begin_def js_has_get insert_reservation_def) (simp_all add: controller_inv_def)
next
  case (MReserveCommit s now)
  have c0: "controller_inv t cfg byp (c\<lparr>mc_reserving := None\<rparr>)" using c by (simp add: controller_inv_def)
  have "controller_inv t cfg byp (snd (reserve_commit r s now c))" if "mc_reserving c = Some r" for r
  proof -
    have "js_get (mc_reservations (c\<lparr>mc_reserving := None\<rparr>)) (rq_runtimeId r) = None"
      using c that by (simp add: controller_inv_def)
    then have "controller_inv t cfg byp (snd (insert_reservation r ds (c\<lparr>mc_reserving := None\<rparr>)))" for ds
      using insert_reservation_inv [OF c0] by simp
    then show ?thesis using reserve_commit_state [of r s now c] c0 by auto
  qed
  then show ?thesis using MReserveCommit c by (simp split: option.split)
next
  case (MMaterialize i k pid)
  have "rs_token e < mc_nextToken c" if "js_get (mc_reservations c) i = Some e" for e
    using c js_get_in_set [OF that] by (auto simp: controller_inv_def)
  moreover have "map rs_token (reservations (materialize i k pid c)) = map rs_token (reservations c)"
    by (auto simp: materialize_def reservations_def intro!: update_tokens split: option.split simp del: map_map)
  ultimately show ?thesis
    using c MMaterialize unfolding controller_inv_def
    by (auto simp: materialize_def dest!: js_set_mem split: option.splits)
next
  case (MRelease i k)
  have "distinct (map rs_token (reservations (release_reservation i k c)))"
    using c delete_tokens by (auto simp: release_reservation_def reservations_def controller_inv_def split: option.splits)
  then show ?thesis
    using c MRelease js_delete_subset [of i "mc_reservations c"] unfolding controller_inv_def
    by (auto simp: release_reservation_def split: option.splits if_splits)
qed

interpretation memory_controllers: invariant_system memory_step "controller_inv t cfg byp" "\<lambda>_ _. True" for t cfg byp
  by unfold_locales (auto simp: memory_step_def intro: controller_step_inv)

lemma controller_reachable:
  "memory_run es (new_controller t cfg byp) = Some c \<Longrightarrow> controller_inv t cfg byp c"
  using memory_controllers.run_inv_free new_controller_inv by blast

section \<open>The GPU working set\<close>

definition gpu_total :: "memory_controller \<Rightarrow> bytes" where
  "gpu_total c = sum_list (map rs_accelerator (reservations c))"

definition gpu_inv :: "bytes \<Rightarrow> memory_controller \<Rightarrow> bool" where
  "gpu_inv cap c \<longleftrightarrow> gpu_total c \<le> cap \<and> (\<forall>e \<in> set (reservations c). 0 \<le> rs_accelerator e) \<and>
     (\<forall>r. mc_reserving c = Some r \<longrightarrow> 0 \<le> acceleratorBytes (rq_demand r))"

fun nonneg_requests :: "memory_event \<Rightarrow> bool" where
  "nonneg_requests (MReserveBegin r) \<longleftrightarrow> 0 \<le> acceleratorBytes (rq_demand r)"
| "nonneg_requests _ \<longleftrightarrow> True"

lemma reservations_update:
  "js_get m k = Some e \<Longrightarrow> rs_accelerator e' = rs_accelerator e \<Longrightarrow>
     map rs_accelerator (map snd (js_set k e' m)) = map rs_accelerator (map snd m)"
  by (induction k e' m rule: js_set.induct) (auto simp: js_get_def split: if_splits)

lemma gpu_total_delete:
  assumes "\<forall>e \<in> set (map snd m). 0 \<le> rs_accelerator e"
  shows "sum_list (map rs_accelerator (map snd (js_delete k m))) \<le> sum_list (map rs_accelerator (map snd m))"
  using assms
proof (induction m)
  case (Cons kv m)
  then show ?case by (cases kv) (auto simp: js_delete_def)
qed (simp add: js_delete_def)

lemma nonneg_set: "(\<forall>e \<in> set (reservations c). 0 \<le> rs_accelerator e) \<longleftrightarrow> (\<forall>x \<in> set (map rs_accelerator (reservations c)). 0 \<le> x)"
  by simp

lemma gpu_step:
  assumes c: "controller_inv (Unified sys (Some cap)) cfg False c" and g: "gpu_inv cap c" and cap: "0 < cap"
    and n: "nonneg_requests ev"
  shows "gpu_inv cap (memory_apply ev c)"
proof (cases ev)
  case (MPoll s)
  then show ?thesis using g by (auto simp: gpu_inv_def gpu_total_def reservations_def poll_def observe_def Let_def)
next
  case (MReserveBegin r)
  then show ?thesis using g c n
    by (auto simp: gpu_inv_def gpu_total_def reservations_def reserve_begin_def controller_inv_def)
next
  case (MReserveCommit s now)
  show ?thesis
  proof (cases "mc_reserving c")
    case (Some r)
    let ?c = "c\<lparr>mc_reserving := None\<rparr>"
    have r: "js_get (mc_reservations ?c) (rq_runtimeId r) = None" "0 \<le> acceleratorBytes (rq_demand r)"
      using c g Some by (auto simp: controller_inv_def gpu_inv_def)
    have g0: "gpu_inv cap ?c" using g by (simp add: gpu_inv_def gpu_total_def reservations_def)
    have "gpu_inv cap (snd (insert_reservation r ds ?c))" if "evaluate ?c r raw [] [] now = Inr ds" for raw ds
    proof -
      have "gpuWorkingSetOversubscription ?c r (reservations ?c) = None"
        using that by (simp add: evaluate_Inr_iff)
      then have "gpu_total ?c + acceleratorBytes (rq_demand r) \<le> cap"
        using c cap g0 r(2)
        by (auto simp: gpuWorkingSetOversubscription_def controller_inv_def Let_def gpu_inv_def gpu_total_def
            split: if_splits)
      then show ?thesis
        using g0 r unfolding gpu_inv_def gpu_total_def reservations_insert [OF r(1)]
        by (auto simp: insert_reservation_def)
    qed
    then show ?thesis
      using MReserveCommit Some reserve_commit_state [of r s now c] g0 by auto
  qed (use MReserveCommit g in simp)
next
  case (MMaterialize i k pid)
  have "map rs_accelerator (reservations (materialize i k pid c)) = map rs_accelerator (reservations c)"
    by (auto simp: materialize_def reservations_def intro!: reservations_update
        split: option.split simp del: map_map)
  moreover have "mc_reserving (materialize i k pid c) = mc_reserving c"
    by (simp add: materialize_def split: option.split)
  ultimately show ?thesis using MMaterialize g unfolding gpu_inv_def gpu_total_def nonneg_set by simp
next
  case (MRelease i k)
  have "gpu_total (release_reservation i k c) \<le> gpu_total c"
    using g gpu_total_delete [of "mc_reservations c"]
    by (auto simp: release_reservation_def gpu_total_def reservations_def gpu_inv_def split: option.split)
  moreover have "set (reservations (release_reservation i k c)) \<subseteq> set (reservations c)"
    using js_delete_subset [of i "mc_reservations c"]
    by (auto simp: release_reservation_def reservations_def split: option.split)
  moreover have "mc_reserving (release_reservation i k c) = mc_reserving c"
    by (simp add: release_reservation_def split: option.split)
  ultimately show ?thesis using MRelease g by (auto simp: gpu_inv_def)
qed

interpretation gpu: invariant_system memory_step
    "\<lambda>c. controller_inv (Unified sys (Some cap)) cfg False c \<and> 0 < cap \<and> gpu_inv cap c"
    "\<lambda>ev _. nonneg_requests ev" for sys cap cfg
  by unfold_locales (auto simp: memory_step_def intro: controller_step_inv gpu_step)

section \<open>Released handles\<close>

text \<open>A token no reservation carries and that is never handed out again.\<close>

definition token_dead :: "nat \<Rightarrow> memory_controller \<Rightarrow> bool" where
  "token_dead k c \<longleftrightarrow> k < mc_nextToken c \<and> (\<forall>(i, e) \<in> set (mc_reservations c). rs_token e \<noteq> k)"

lemma token_dead_noop:
  assumes "token_dead k c"
  shows "release_reservation i k c = c" "materialize i k pid c = c"
  using assms
  by (auto simp: release_reservation_def materialize_def token_dead_def split: option.split dest: js_get_in_set)

lemma token_dead_insert: "token_dead k c \<Longrightarrow> token_dead k (snd (insert_reservation r ds c))"
  by (auto simp: token_dead_def insert_reservation_def dest!: js_set_mem)

lemma token_dead_step:
  assumes "token_dead k c"
  shows "token_dead k (memory_apply ev c)"
proof (cases ev)
  case (MPoll s)
  then show ?thesis using assms by (auto simp: token_dead_def poll_def observe_def Let_def)
next
  case (MReserveBegin r)
  then show ?thesis
    using assms token_dead_insert [OF assms, of r "[]"]
    by (auto simp: reserve_begin_def token_dead_def split: prod.splits)
next
  case (MReserveCommit s now)
  have c0: "token_dead k (c\<lparr>mc_reserving := None\<rparr>)" using assms by (simp add: token_dead_def)
  have "token_dead k (snd (reserve_commit r s now c))" for r
    using reserve_commit_state [of r s now c] c0 token_dead_insert [OF c0] by auto
  then show ?thesis using MReserveCommit assms by (simp split: option.split)
next
  case (MMaterialize i k' pid)
  have "rs_token e \<noteq> k" if "js_get (mc_reservations c) i = Some e" for e
    using assms js_get_in_set [OF that] by (auto simp: token_dead_def)
  then show ?thesis
    using MMaterialize assms by (auto simp: materialize_def token_dead_def dest!: js_set_mem split: option.splits)
next
  case (MRelease i k')
  then show ?thesis
    using assms js_delete_subset by (fastforce simp: release_reservation_def token_dead_def split: option.splits)
qed

interpretation dead: invariant_system memory_step "token_dead k" "\<lambda>_ _. True" for k
  by unfold_locales (auto simp: memory_step_def intro: token_dead_step)

section \<open>A preflight carries over to the start\<close>

text \<open>A later sample with the same pools and pressures and at least as many bytes.\<close>

definition sample_geq :: "memory_snapshot \<Rightarrow> memory_snapshot \<Rightarrow> bool" where
  "sample_geq s' s \<longleftrightarrow> (\<forall>i. (usable_sample s i = None \<longrightarrow> usable_sample s' i = None) \<and>
     (\<forall>b p. usable_sample s i = Some (b, p) \<longrightarrow> (\<exists>b'. usable_sample s' i = Some (b', p) \<and> b \<le> b')))"

lemma sample_geq_Some: "sample_geq s' s \<Longrightarrow> usable_sample s i = Some (b, p) \<Longrightarrow>
    \<exists>b'. usable_sample s' i = Some (b', p) \<and> b \<le> b'"
  unfolding sample_geq_def by blast

lemma sample_geq_None: "sample_geq s' s \<Longrightarrow> usable_sample s i = None \<Longrightarrow> usable_sample s' i = None"
  unfolding sample_geq_def by blast

lemma sample_geq_subtract:
  assumes g: "sample_geq s' s"
  shows "sample_geq (subtractReservations s' m) (subtractReservations s m)"
  unfolding sample_geq_def usable_subtract
proof (intro allI conjI impI)
  fix i b p
  assume "map_option (\<lambda>(b, p). (max 0 (b - get_or 0 m i), p)) (usable_sample s i) = Some (b, p)"
  then obtain b0 where b0: "usable_sample s i = Some (b0, p)" "b = max 0 (b0 - get_or 0 m i)" by auto
  then obtain b' where "usable_sample s' i = Some (b', p)" "b0 \<le> b'" using sample_geq_Some [OF g] by blast
  then show "\<exists>b'. map_option (\<lambda>(b, p). (max 0 (b - get_or 0 m i), p)) (usable_sample s' i) = Some (b', p) \<and> b \<le> b'"
    using b0 by auto
qed (simp add: sample_geq_None [OF g])

lemma fits_geq: "sample_geq s' s \<Longrightarrow> fits t s c d \<Longrightarrow> fits t s' c d"
  by (fastforce simp: fits_def dest: sample_geq_Some)

lemma usable_pressure_geq:
  assumes "sample_geq s' s"
  shows "case usable_pressure t s c pool of None \<Rightarrow> usable_pressure t s' c pool = None
    | Some p \<Rightarrow> \<exists>p'. usable_pressure t s' c pool = Some p' \<and> p' \<le> p"
proof (cases "usable_sample s (pool_id pool)")
  case None
  then have "usable_sample s' (pool_id pool) = None" by (rule sample_geq_None [OF assms])
  then show ?thesis using None by (simp add: usable_pressure_def)
next
  case (Some bp)
  obtain b p where bp: "bp = (b, p)" by (cases bp)
  with Some obtain b' where "usable_sample s' (pool_id pool) = Some (b', p)" "b \<le> b'"
    using sample_geq_Some [OF assms] by blast
  then show ?thesis using Some bp by (simp add: usable_pressure_def pressureForPool_antimono)
qed

lemma calm_geq:
  assumes g: "sample_geq s' s"
    and c: "calm (observeMemoryPressure t s c)"
  shows "calm (observeMemoryPressure t s' c)"
proof (cases "usable_pressure t s c (topo_system t)")
  case None
  then show ?thesis
    using usable_pressure_geq [OF g, of t c "topo_system t"] by (simp add: observe_worst calm_def)
next
  case (Some p)
  let ?ps = "insert p (set (List.map_filter (usable_pressure t s c) (accelerator_pools t)))"
  obtain p' where p': "usable_pressure t s' c (topo_system t) = Some p'" "p' \<le> p"
    using usable_pressure_geq [OF g, of t c "topo_system t"] Some by auto
  let ?qs = "insert p' (set (List.map_filter (usable_pressure t s' c) (accelerator_pools t)))"
  have low: "x \<le> Normal \<longleftrightarrow> x \<noteq> Constrained \<and> x \<noteq> Critical" for x
    by (cases x) (simp_all add: less_eq_memory_pressure_def)
  have "Max ?ps \<le> Normal" using c Some by (simp add: observe_worst low calm_def)
  then have all: "\<forall>x \<in> ?ps. x \<le> Normal" by simp
  have "x \<le> Normal" if x: "x \<in> ?qs" for x
  proof (cases "x = p'")
    case True
    then show ?thesis using p' all by auto
  next
    case False
    then obtain pool where pool: "pool \<in> set (accelerator_pools t)" "usable_pressure t s' c pool = Some x"
      using x by (auto simp: List.map_filter_def split: if_splits option.splits)
    then obtain y where y: "usable_pressure t s c pool = Some y" "x \<le> y"
      using usable_pressure_geq [OF g, of t c pool] by (auto split: option.splits)
    then have "y \<in> ?ps" using pool by (force simp: List.map_filter_def)
    then show ?thesis using all y by auto
  qed
  then have "Max ?qs \<le> Normal" by simp
  then show ?thesis using p' by (simp add: observe_worst low calm_def)
qed

text \<open>Stopping the releasing runtimes drops exactly their reservations.\<close>

definition after_release :: "string list \<Rightarrow> memory_controller \<Rightarrow> memory_controller" where
  "after_release rel c = c\<lparr>mc_reservations := filter (\<lambda>(i, e). \<not> isReleasing i rel) (mc_reservations c)\<rparr>"

lemma first_shortfall_cong:
  assumes "mc_topology c' = mc_topology c" "mc_config c' = mc_config c"
  shows "first_shortfall c' ds = first_shortfall c ds"
proof (induction ds)
  case (Cons d ds)
  then show ?case by (simp only: first_shortfall.simps assms)
qed simp

lemma after_release_same [simp]:
  "mc_topology (after_release rel c) = mc_topology c" "mc_config (after_release rel c) = mc_config c"
  "mc_hysteresis (after_release rel c) = mc_hysteresis c"
  "reservations (after_release rel c) = remaining_after rel c"
  by (simp_all add: after_release_def reservations_def remaining_after_def)

lemma capacity_after_release [simp]: "capacityShortfall (after_release rel c) r = capacityShortfall c r"
proof -
  have "first_shortfall (after_release rel c) = first_shortfall c"
    by (intro ext first_shortfall_cong) simp_all
  then show ?thesis by (simp only: capacityShortfall_def after_release_same)
qed

lemma gpu_after_release [simp]:
  "gpuWorkingSetOversubscription (after_release rel c) r rs = gpuWorkingSetOversubscription c r rs"
  by (simp add: gpuWorkingSetOversubscription_def)

lemma evaluate_reserving:
  "evaluate (c\<lparr>mc_reserving := x\<rparr>) r s [] m now = Inr ds \<longleftrightarrow> evaluate c r s [] m now = Inr ds"
proof -
  have "first_shortfall (c\<lparr>mc_reserving := x\<rparr>) = first_shortfall c"
    by (intro ext first_shortfall_cong) simp_all
  moreover have "mc_topology (c\<lparr>mc_reserving := x\<rparr>) = mc_topology c" by simp
  ultimately have "capacityShortfall (c\<lparr>mc_reserving := x\<rparr>) r = capacityShortfall c r"
    by (simp only: capacityShortfall_def)
  then show ?thesis
    by (simp add: evaluate_Inr_iff gpuWorkingSetOversubscription_def sub_sample_def)
qed

lemma evaluate_geq:
  assumes e: "evaluate c r raw rel measured now = Inr ds"
    and g: "sample_geq s' (addReleasedMemory c raw rel measured)"
  shows "evaluate (after_release rel c) r s' [] m now' = Inr ds"
proof -
  have "sample_geq (sub_sample [] (after_release rel c) s') (sub_sample rel c (addReleasedMemory c raw rel measured))"
    using sample_geq_subtract [OF g] by (simp add: sub_sample_def)
  then show ?thesis
    using e calm_geq [OF g] fits_geq
    by (auto simp: evaluate_Inr_iff evaluate_admitted)
qed

text \<open>
  What stopping runtimes means, in terms of the reservations they hold: a runtime \<open>i\<close> holds the
  reservations \<open>i\<close> and \<open>i:...\<close>; it releases them through their handles; and it frees the demand of those
  whose process is resident, of each at most its measured footprint.
\<close>

definition holds_reservation :: "string \<Rightarrow> string \<Rightarrow> bool" where
  "holds_reservation i j \<longleftrightarrow> j = i \<or> (\<exists>x. j = i @ '':'' @ x)"

definition held_by :: "string list \<Rightarrow> memory_controller \<Rightarrow> (string \<times> reservation) list" where
  "held_by rel c = filter (\<lambda>(j, e). \<exists>i \<in> set rel. holds_reservation i j) (mc_reservations c)"

definition stop_events :: "string list \<Rightarrow> memory_controller \<Rightarrow> memory_event list" where
  "stop_events rel c = map (\<lambda>(j, e). MRelease j (rs_token e)) (held_by rel c)"

definition freed_demand :: "(string, bytes) js_map \<Rightarrow> string \<times> reservation \<Rightarrow> string \<Rightarrow> bytes" where
  "freed_demand measured x k =
     (\<Sum>d \<leftarrow> rs_projected (snd x). if pd_poolId d = k
        then (case js_get measured (fst x) of None \<Rightarrow> pd_bytes d | Some footprint \<Rightarrow> min (pd_bytes d) footprint) else 0)"

definition freed_bytes :: "string list \<Rightarrow> (string, bytes) js_map \<Rightarrow> memory_controller \<Rightarrow> string \<Rightarrow> bytes" where
  "freed_bytes rel measured c k =
     (\<Sum>x \<leftarrow> filter (\<lambda>x. rs_state (snd x) = Resident) (held_by rel c). freed_demand measured x k)"

text \<open>The later sample shows the freed bytes on top of the earlier one, and the same pressures.\<close>

definition shows_freed :: "string list \<Rightarrow> (string, bytes) js_map \<Rightarrow> memory_controller \<Rightarrow> memory_snapshot \<Rightarrow> memory_snapshot \<Rightarrow> bool" where
  "shows_freed rel measured c s s' \<longleftrightarrow>
     (\<forall>k. case usable_sample s k of
            None \<Rightarrow> usable_sample s' k = None
          | Some (b, p) \<Rightarrow> (\<exists>b'. usable_sample s' k = Some (b', p) \<and> b + freed_bytes rel measured c k \<le> b'))"

lemma isReleasing_holds: "isReleasing j rel \<longleftrightarrow> (\<exists>i \<in> set rel. holds_reservation i j)"
  by (auto simp: isReleasing_def holds_reservation_def list_ex_iff prefix_def)

lemma held_by_Cons: "(i, e) \<in> set (held_by rel c) \<longleftrightarrow> (i, e) \<in> set (mc_reservations c) \<and> isReleasing i rel"
  by (auto simp: held_by_def isReleasing_holds)

lemma get_or_freed:
  "get_or 0 (fold (\<lambda>d. add_demand (d\<lparr>pd_bytes := f d\<rparr>)) ds m) k = get_or 0 m k + (\<Sum>d \<leftarrow> ds. if pd_poolId d = k then f d else 0)"
proof (induction ds arbitrary: m)
  case (Cons d ds)
  have "get_or 0 (add_demand (d\<lparr>pd_bytes := f d\<rparr>) m) k = get_or 0 m k + (if pd_poolId d = k then f d else 0)"
    by (simp add: add_demand_def get_or_def)
  then show ?case using Cons.IH by simp
qed simp

lemma usable_addReleased:
  "usable_sample (addReleasedMemory c s rel measured) k =
     map_option (\<lambda>(b, p). (b + freed_bytes rel measured c k, p)) (usable_sample s k)"
proof (cases "rel = []")
  case True
  then have "freed_bytes rel measured c k = 0" by (simp add: freed_bytes_def held_by_def case_prod_beta)
  then show ?thesis using True by (cases "usable_sample s k") auto
next
  case False
  let ?f = "\<lambda>i d. case js_get measured i of None \<Rightarrow> pd_bytes d | Some footprint \<Rightarrow> min (pd_bytes d) footprint"
  define step where "step = (\<lambda>(i, e :: reservation) freed. if \<not> isReleasing i rel \<or> rs_state e \<noteq> Resident then freed
      else fold (\<lambda>d. add_demand (d\<lparr>pd_bytes := ?f i d\<rparr>)) (rs_projected e) freed)"
  have step: "step (i, e) m = (if isReleasing i rel \<and> rs_state e = Resident
      then fold (\<lambda>d. add_demand (d\<lparr>pd_bytes := ?f i d\<rparr>)) (rs_projected e) m else m)" for i e m
    by (simp add: step_def)
  have demand: "freed_demand measured (i, e) k = (\<Sum>d \<leftarrow> rs_projected e. if pd_poolId d = k then ?f i d else 0)" for i and e :: reservation
    by (simp only: freed_demand_def fst_conv snd_conv)
  have freed: "get_or 0 (fold step xs m) k = get_or 0 m k +
      (\<Sum>x \<leftarrow> filter (\<lambda>x. rs_state (snd x) = Resident) (filter (\<lambda>(j, e). isReleasing j rel) xs). freed_demand measured x k)"
    for xs m
  proof (induction xs arbitrary: m)
    case (Cons x xs)
    obtain i e where x: "x = (i, e)" by (cases x)
    show ?case
      by (simp add: x step Cons.IH get_or_freed demand del: filter_filter)
  qed simp
  have "addReleasedMemory c s rel measured = map_available (\<lambda>i b. b + get_or 0 (fold step (mc_reservations c) []) i) s"
    using False by (simp only: addReleasedMemory_def step_def Let_def if_False)
  then show ?thesis
    by (simp add: usable_map_available freed freed_bytes_def held_by_def isReleasing_holds get_or_def [of 0 "[]"])
qed

lemma shows_freed_geq: "shows_freed rel measured c s s' \<Longrightarrow> sample_geq s' (addReleasedMemory c s rel measured)"
  unfolding shows_freed_def sample_geq_def usable_addReleased by (fastforce split: option.splits)

lemma run_releases:
  assumes "js_wf (mc_reservations c)" and "set xs \<subseteq> set (mc_reservations c)" and "distinct (map fst xs)"
  shows "memory_run (map (\<lambda>(j, e). MRelease j (rs_token e)) xs) c =
    Some (c\<lparr>mc_reservations := filter (\<lambda>(j, e). j \<notin> fst ` set xs) (mc_reservations c)\<rparr>)"
  using assms
proof (induction xs arbitrary: c)
  case Nil
  then show ?case by (simp add: case_prod_beta)
next
  case (Cons x xs)
  obtain j e where x: "x = (j, e)" by (cases x)
  have get: "js_get (mc_reservations c) j = Some e"
    using js_get_mem [OF Cons.prems(1)] Cons.prems(2) x by auto
  let ?c = "c\<lparr>mc_reservations := js_delete j (mc_reservations c)\<rparr>"
  have "set xs \<subseteq> set (mc_reservations ?c)"
    using Cons.prems(2,3) x by (force simp: js_delete_def)
  moreover have "js_wf (mc_reservations ?c)" using Cons.prems(1) by simp
  ultimately have "memory_run (map (\<lambda>(j, e). MRelease j (rs_token e)) xs) ?c =
      Some (?c\<lparr>mc_reservations := filter (\<lambda>(j, e). j \<notin> fst ` set xs) (mc_reservations ?c)\<rparr>)"
    using Cons.IH Cons.prems(3) by simp
  moreover have "filter (\<lambda>(k, e). k \<notin> fst ` set xs) (js_delete j (mc_reservations c)) =
      filter (\<lambda>(k, e). k \<notin> fst ` set (x # xs)) (mc_reservations c)"
    by (auto simp: js_delete_def x intro!: filter_cong)
  moreover have "memory_step (MRelease j (rs_token e)) c = Some ?c"
    by (simp add: memory_step_def release_reservation_def get)
  ultimately show ?case by (simp add: x)
qed

lemma stopped_run:
  assumes "js_wf (mc_reservations c)"
  shows "memory_run (stop_events rel c) c = Some (after_release rel c)"
proof -
  have "memory_run (stop_events rel c) c =
      Some (c\<lparr>mc_reservations := filter (\<lambda>(j, e). j \<notin> fst ` set (held_by rel c)) (mc_reservations c)\<rparr>)"
    unfolding stop_events_def
    using assms by (intro run_releases) (auto simp: held_by_def js_wf_def distinct_map_filter case_prod_beta)
  moreover have "j \<notin> fst ` set (held_by rel c) \<longleftrightarrow> \<not> isReleasing j rel" if "(j, e) \<in> set (mc_reservations c)" for j e
    using that by (auto simp: held_by_def isReleasing_holds image_iff)
  then have "filter (\<lambda>(j, e). j \<notin> fst ` set (held_by rel c)) (mc_reservations c) =
      filter (\<lambda>(j, e). \<not> isReleasing j rel) (mc_reservations c)" by (intro filter_cong) auto
  ultimately show ?thesis by (simp add: after_release_def)
qed

section \<open>Properties\<close>

text \<open>
  C30: a reservation never oversubscribes the sample it was admitted against.  In any reachable
  state that runs a \<open>reserve\<close>, if it succeeds on a sample, then for every pool it demands bytes of
  the measured bytes cover all pending demands (its own included) and the configured reserve.
\<close>

theorem reserve_never_oversubscribes:
  assumes "memory_run es (new_controller t cfg False) = Some c" and "mc_reserving c = Some r"
    and "config_valid cfg" and "pool_id (topo_system t) \<notin> pool_id ` set (accelerator_pools t)"
    and "reserve_commit r (Some s) now c = (Inr token, c')"
    and "js_get (mc_reservations c') (rq_runtimeId r) = Some e" and "d \<in> set (rs_projected e)"
    and "0 < pd_bytes d"
  shows "\<exists>pool b. poolForId t (pd_poolId d) = Inr pool \<and>
     usable_sample s (pd_poolId d) = Some (b, Normal) \<and>
     pending_on (pd_poolId d) (map snd (mc_reservations c')) + reserveForPool t cfg pool \<le> b"
proof -
  let ?c = "c\<lparr>mc_reserving := None\<rparr>" and ?k = "pd_poolId d"
  have inv: "controller_inv t cfg False c" using assms(1) by (rule controller_reachable)
  have fresh: "js_get (mc_reservations ?c) (rq_runtimeId r) = None"
    and tc: "mc_topology ?c = t" "mc_config ?c = cfg"
    using inv assms(2) by (auto simp: controller_inv_def)
  obtain ds where ds: "evaluate ?c r s [] [] now = Inr ds" and c': "c' = snd (insert_reservation r ds ?c)"
    using assms(5) by (auto simp: reserve_commit_def Let_def insert_reservation_def split: sum.splits)
  have e: "rs_projected e = ds" using assms(6) by (auto simp: c' insert_reservation_def)
  obtain acc hs where adm: "evaluateMemoryAdmission t (subtractReservations s (pendingDemandByPool (reservations ?c)))
      cfg (rq_demand r) acc = Inr (Admitted ds hs)"
    using ds tc by (auto simp: evaluate_Inr_iff sub_sample_def)
  then have "fits t (subtractReservations s (pendingDemandByPool (reservations ?c))) cfg d"
    and dist: "distinct (map pd_poolId ds)"
    using assms(7) e distinct_projected [OF _ assms(4)] by (auto simp: evaluate_admitted)
  then obtain pool b where pool: "poolForId t ?k = Inr pool" "usable_sample s ?k = Some (b, Normal)"
      "reserveForPool t cfg pool \<le> max 0 (b - pending_on ?k (reservations ?c)) - pd_bytes d"
    using poolForId_id by (fastforce simp: fits_def usable_subtract get_or_pendingDemandByPool)
  have "pending_on ?k (map snd (mc_reservations c')) = pending_on ?k (reservations ?c) + pd_bytes d"
    using reservations_insert [OF fresh, of ds] demand_on_distinct [OF dist, of d] assms(7) e
    by (simp add: c' reservations_def pending_on_def)
  then show ?thesis
    using pool assms(8) reserve_nonneg [OF assms(3), of t pool] by (auto simp: max_def split: if_splits)
qed

definition demo_request :: "string \<Rightarrow> bytes \<Rightarrow> reservation_request" where
  "demo_request i b = \<lparr>rq_runtimeId = i, rq_demand = demo_demand b\<rparr>"

lemmas controller_eval =
  memory_eval memory_step_def new_controller_def reserve_begin_def reserve_commit_def insert_reservation_def
  materialize_def release_reservation_def js_has_def js_delete_def evaluate_def isReleasing_def
  addReleasedMemory_def capacityShortfall_def gpuWorkingSetOversubscription_def pendingDemandByPool_def
  observeMemoryPressure_def subtractReservations_def map_available_def get_or_def add_demand_def
  ambiguous_accelerator_def requiresAccelerator_def chosen_accelerator_def evaluateMemoryAdmission_def
  demo_request_def healthy_def

theorem reserve_never_oversubscribes_witness:
  "\<exists>c c' token b. memory_run [MReserveBegin (demo_request ''a'' (4 * gibibyte)),
        MReserveCommit (Some (demo_snapshot (20 * gibibyte))) 0, MReserveBegin (demo_request ''b'' gibibyte)]
       (new_controller demo_topology defaultMemorySafetyConfig False) = Some c \<and>
     reserve_commit (demo_request ''b'' gibibyte) (Some (demo_snapshot (20 * gibibyte))) 0 c = (Inr token, c') \<and>
     usable_sample (demo_snapshot (20 * gibibyte)) ''system'' = Some (b, Normal) \<and>
     pending_on ''system'' (map snd (mc_reservations c')) \<le> b"
proof -
  have "\<exists>c c' token e d. memory_run [MReserveBegin (demo_request ''a'' (4 * gibibyte)),
        MReserveCommit (Some (demo_snapshot (20 * gibibyte))) 0, MReserveBegin (demo_request ''b'' gibibyte)]
       (new_controller demo_topology defaultMemorySafetyConfig False) = Some c \<and>
     mc_reserving c = Some (demo_request ''b'' gibibyte) \<and>
     reserve_commit (demo_request ''b'' gibibyte) (Some (demo_snapshot (20 * gibibyte))) 0 c = (Inr token, c') \<and>
     js_get (mc_reservations c') (rq_runtimeId (demo_request ''b'' gibibyte)) = Some e \<and>
     d \<in> set (rs_projected e) \<and> 0 < pd_bytes d \<and> pd_poolId d = ''system''"
    by (simp add: controller_eval)
  then obtain c c' token e d where *: "memory_run [MReserveBegin (demo_request ''a'' (4 * gibibyte)),
        MReserveCommit (Some (demo_snapshot (20 * gibibyte))) 0, MReserveBegin (demo_request ''b'' gibibyte)]
       (new_controller demo_topology defaultMemorySafetyConfig False) = Some c"
     "mc_reserving c = Some (demo_request ''b'' gibibyte)"
     "reserve_commit (demo_request ''b'' gibibyte) (Some (demo_snapshot (20 * gibibyte))) 0 c = (Inr token, c')"
     "js_get (mc_reservations c') (rq_runtimeId (demo_request ''b'' gibibyte)) = Some e"
     "d \<in> set (rs_projected e)" "0 < pd_bytes d" "pd_poolId d = ''system''" by blast
  have v: "config_valid defaultMemorySafetyConfig"
    by (simp add: config_valid_def reserve_valid_def defaultMemorySafetyConfig_def)
  have "pool_id (topo_system demo_topology) \<notin> pool_id ` set (accelerator_pools demo_topology)"
    by (simp add: demo_topology_def)
  from reserve_never_oversubscribes [OF *(1,2) v this *(3-6)] *(1,3,7) reserve_nonneg [OF v]
  show ?thesis by (smt (verit, ccfv_SIG))
qed

text \<open>
  the GPU working set is never oversubscribed.  With a positive cap, whatever runtimes are
  reserved, materialized and released, and whatever samples are read, the accelerator demands of
  all reservations together stay within the cap.
\<close>

theorem gpu_working_set_respected:
  assumes "memory_run es (new_controller (Unified sys (Some cap)) cfg False) = Some c" and "0 < cap"
    and "\<forall>ev \<in> set es. nonneg_requests ev"
  shows "sum_list (map rs_accelerator (map snd (mc_reservations c))) \<le> cap"
proof -
  have "gpu_inv cap (new_controller (Unified sys (Some cap)) cfg False)"
    using assms(2) by (simp add: gpu_inv_def gpu_total_def reservations_def new_controller_def)
  moreover have "run_allows (\<lambda>ev _. nonneg_requests ev) memory_step es (new_controller (Unified sys (Some cap)) cfg False)"
    using assms(3) by (intro run_allowsI) simp
  ultimately have "gpu_inv cap c"
    using gpu.run_inv [OF _ _ assms(1)] new_controller_inv assms(2) by blast
  then show ?thesis by (simp add: gpu_inv_def gpu_total_def reservations_def)
qed

theorem gpu_working_set_respected_witness:
  "\<exists>c. memory_run [MReserveBegin (demo_request ''a'' (4 * gibibyte)),
        MReserveCommit (Some (demo_snapshot (30 * gibibyte))) 0]
       (new_controller (Unified \<lparr>pool_id = ''system'', capacityBytes = 32 * gibibyte\<rparr> (Some (24 * gibibyte)))
          defaultMemorySafetyConfig False) = Some c \<and>
     sum_list (map rs_accelerator (map snd (mc_reservations c))) \<le> 24 * gibibyte"
proof -
  obtain c where c: "memory_run [MReserveBegin (demo_request ''a'' (4 * gibibyte)),
        MReserveCommit (Some (demo_snapshot (30 * gibibyte))) 0]
       (new_controller (Unified \<lparr>pool_id = ''system'', capacityBytes = 32 * gibibyte\<rparr> (Some (24 * gibibyte)))
          defaultMemorySafetyConfig False) = Some c"
    by (simp add: memory_step_def)
  show ?thesis
    using gpu_working_set_respected [OF c] c by (simp add: gibibyte_def demo_request_def demo_demand_def)
qed

text \<open>
  a released handle is dead.  After a reservation is released, its handle never touches a
  later reservation of the same runtime: releasing or materializing through it again changes
  nothing in any later state.
\<close>

theorem released_handle_is_dead:
  assumes "memory_run es (new_controller t cfg byp) = Some c"
    and "js_get (mc_reservations c) i = Some e"
    and "memory_run fs (release_reservation i (rs_token e) c) = Some c'"
  shows "release_reservation i (rs_token e) c' = c' \<and> materialize i (rs_token e) pid c' = c'"
proof -
  have "rs_token e < mc_nextToken c"
    using controller_reachable [OF assms(1)] js_get_in_set [OF assms(2)] by (auto simp: controller_inv_def)
  moreover have "rs_token e' \<noteq> rs_token e" if "(j, e') \<in> set (mc_reservations c)" "j \<noteq> i" for j e'
  proof -
    have d: "distinct (map (rs_token \<circ> snd) (mc_reservations c))"
      using controller_reachable [OF assms(1)] by (simp add: controller_inv_def reservations_def)
    show ?thesis using inj_onD [OF d [unfolded distinct_map, THEN conjunct2], of "(j, e')" "(i, e)"]
        that js_get_in_set [OF assms(2)] by auto
  qed
  ultimately have "token_dead (rs_token e) (release_reservation i (rs_token e) c)"
    using assms(2) by (auto simp: token_dead_def release_reservation_def js_delete_def)
  then show ?thesis
    using dead.run_inv_free [OF _ _ assms(3)] token_dead_noop by blast
qed

theorem released_handle_is_dead_witness:
  "\<exists>c c'. memory_run [MReserveBegin (demo_request ''a'' 1)] (new_controller demo_topology defaultMemorySafetyConfig True) = Some c \<and>
     memory_run [MReserveBegin (demo_request ''a'' 2)] (release_reservation ''a'' 0 c) = Some c' \<and>
     js_has (mc_reservations c') ''a'' \<and> release_reservation ''a'' 0 c' = c'"
proof -
  have "\<exists>c c' e. memory_run [MReserveBegin (demo_request ''a'' 1)] (new_controller demo_topology defaultMemorySafetyConfig True) = Some c \<and>
     js_get (mc_reservations c) ''a'' = Some e \<and> rs_token e = 0 \<and>
     memory_run [MReserveBegin (demo_request ''a'' 2)] (release_reservation ''a'' (rs_token e) c) = Some c' \<and>
     js_has (mc_reservations c') ''a''"
    by (simp add: controller_eval)
  then obtain c c' e where *: "memory_run [MReserveBegin (demo_request ''a'' 1)]
        (new_controller demo_topology defaultMemorySafetyConfig True) = Some c"
      "js_get (mc_reservations c) ''a'' = Some e" "rs_token e = 0"
      "memory_run [MReserveBegin (demo_request ''a'' 2)] (release_reservation ''a'' (rs_token e) c) = Some c'"
      "js_has (mc_reservations c') ''a''" by blast
  show ?thesis using released_handle_is_dead [OF *(1,2,4)] * by auto
qed

text \<open>
  C35: a passed switch preflight carries over.  If in a reachable state the probe admits a start of a
  runtime as if some others were already stopped, and the runtime holds no reservation but those of the
  stopped ones, then once these have released the reservations they hold, \<open>reserve\<close> finds no reservation of
  the runtime and is admitted, on any sample that shows, with unchanged pressures, what their resident
  processes free: of every reservation its demand, but at most its measured footprint.
\<close>

theorem preflight_carries_over:
  assumes "memory_run es (new_controller t cfg False) = Some c"
    and "checkAdmission d (Some i) rel measured s now c = None"
    and "js_get (mc_reservations c) i = None \<or> (\<exists>j \<in> set rel. holds_reservation j i)"
    and "shows_freed rel measured c s s'"
  shows "\<exists>c1 c2 c3 token. memory_run (stop_events rel c) c = Some c1 \<and>
    reserve_begin \<lparr>rq_runtimeId = i, rq_demand = d\<rparr> c1 = (Inr None, c2) \<and>
    reserve_commit \<lparr>rq_runtimeId = i, rq_demand = d\<rparr> (Some s') now' c2 = (Inr token, c3)"
proof -
  let ?r = "\<lparr>rq_runtimeId = i, rq_demand = d\<rparr>" and ?c = "after_release rel c"
  have inv: "controller_inv t cfg False c" by (rule controller_reachable [OF assms(1)])
  then have wf: "js_wf (mc_reservations c)" "\<not> mc_bypass ?c" by (simp_all add: controller_inv_def after_release_def)
  obtain ds where "evaluate c ?r s rel measured now = Inr ds"
    using assms(2) wf(2) by (auto simp: checkAdmission_def after_release_def split: sum.splits)
  then have "evaluate ?c ?r s' [] [] now' = Inr ds" using shows_freed_geq [OF assms(4)] by (rule evaluate_geq)
  then have ev: "evaluate (?c\<lparr>mc_reserving := x\<rparr>) ?r s' [] [] now' = Inr ds" for x
    by (simp add: evaluate_reserving)
  have "\<not> js_has (mc_reservations ?c) i"
    using assms(3) by (auto simp: js_has_get js_get_def after_release_def isReleasing_holds map_of_eq_None_iff image_iff split: option.splits)
  then have "reserve_begin ?r ?c = (Inr None, ?c\<lparr>mc_reserving := Some ?r\<rparr>)" using wf(2) by (simp add: reserve_begin_def)
  moreover have "\<exists>token c3. reserve_commit ?r (Some s') now' (?c\<lparr>mc_reserving := Some ?r\<rparr>) = (Inr token, c3)"
    using ev by (simp add: reserve_commit_def insert_reservation_def)
  ultimately show ?thesis using stopped_run [OF wf(1), of rel] by blast
qed

text \<open>A backend of 12 GiB measured at 10 GiB is stopped for another of 12 GiB.\<close>

definition demo_occupied :: memory_controller where
  "demo_occupied = the (memory_run [MReserveBegin (demo_request ''a'' (12 * gibibyte)),
      MReserveCommit (Some (demo_snapshot (20 * gibibyte))) 0, MMaterialize ''a'' 0 (Some 7)]
     (new_controller demo_topology defaultMemorySafetyConfig False))"

theorem preflight_carries_over_witness:
  "\<exists>c1 c2 c3 token. memory_run (stop_events [''a''] demo_occupied) demo_occupied = Some c1 \<and>
    reserve_begin (demo_request ''b'' (12 * gibibyte)) c1 = (Inr None, c2) \<and>
    reserve_commit (demo_request ''b'' (12 * gibibyte)) (Some (demo_snapshot (20 * gibibyte))) 5 c2 = (Inr token, c3)"
proof -
  have c: "memory_run [MReserveBegin (demo_request ''a'' (12 * gibibyte)),
      MReserveCommit (Some (demo_snapshot (20 * gibibyte))) 0, MMaterialize ''a'' 0 (Some 7)]
     (new_controller demo_topology defaultMemorySafetyConfig False) = Some demo_occupied"
    by (simp add: demo_occupied_def memory_step_def)
  have res: "mc_reservations demo_occupied = [(''a'', \<lparr>rs_token = 0, rs_projected = [\<lparr>pd_poolId = ''system'', pd_bytes = 12 * gibibyte\<rparr>],
            rs_accelerator = 12 * gibibyte, rs_state = Resident, rs_pid = Some 7\<rparr>)]"
    by (simp add: demo_occupied_def controller_eval)
  have p: "checkAdmission (demo_demand (12 * gibibyte)) (Some ''b'') [''a''] [(''a'', 10 * gibibyte)]
      (demo_snapshot (10 * gibibyte)) 0 demo_occupied = None"
    by (simp add: checkAdmission_def demo_occupied_def controller_eval)
  have none: "js_get (mc_reservations demo_occupied) ''b'' = None" by (simp add: res js_get_def)
  have "freed_bytes [''a''] [(''a'', 10 * gibibyte)] demo_occupied k = (if k = ''system'' then 10 * gibibyte else 0)" for k
    by (simp add: freed_bytes_def held_by_def freed_demand_def holds_reservation_def res gibibyte_def js_get_def)
  moreover have "usable_sample (demo_snapshot b) k = (if k = ''system'' then Some (b, Normal) else None)" for b k
    by (simp add: usable_sample_def snapshot_map_find demo_snapshot_def)
  ultimately have "shows_freed [''a''] [(''a'', 10 * gibibyte)] demo_occupied (demo_snapshot (10 * gibibyte)) (demo_snapshot (20 * gibibyte))"
    by (simp add: shows_freed_def)
  from preflight_carries_over [OF c p disjI1 [OF none] this] show ?thesis by (simp add: demo_request_def)
qed

end
