(* ===== verification/Reconciliation_Plan.thy ===== *)
theory Reconciliation_Plan
  imports Modality Js_Number "HOL-Library.Sublist"
begin

text \<open>
  The plan that turns a configuration change into restarts, drains and hot updates,
  \<^verbatim>\<open>src/src/domains/runtime/reconciliation-plan.ts\<close>, with the bind-host
  normalisation of \<^verbatim>\<open>launch-plan.ts\<close> and the revision rule of \<^verbatim>\<open>config-snapshot.ts\<close>.

  A configuration is a function from its fields to JSON values.  \<open>localeCompare\<close> (the host's
  collation) and \<open>modelDirectories\<close> (path functions of the host) are parameters; strings are
  lists of 8-bit characters.
\<close>

section \<open>JSON values\<close>

text \<open>\<open>Object.entries\<close>: an array's keys are its indices in decimal.\<close>

fun digit_string :: "nat \<Rightarrow> string" where
  "digit_string n =
     (if n < 10 then [char_of (48 + n)] else digit_string (n div 10) @ [char_of (48 + n mod 10)])"

fun entries :: "json \<Rightarrow> (string \<times> json) list" where
  "entries (JArr xs) = map (\<lambda>(i, x). (digit_string i, x)) (zip [0..<length xs] xs)"
| "entries (JObj kvs) = kvs"
| "entries _ = []"

fun is_object :: "json \<Rightarrow> bool" where
  "is_object (JArr _) = True"
| "is_object (JObj _) = True"
| "is_object _ = False"

definition sorted_entries :: "(string \<Rightarrow> string \<Rightarrow> int) \<Rightarrow> (string \<times> json) list \<Rightarrow> (string \<times> json) list" where
  "sorted_entries lc kvs = sort_by (\<lambda>a b. lc (fst a) (fst b) \<le> 0) kvs"

lemma set_sorted_entries [simp]: "set (sorted_entries lc kvs) = set kvs" "length (sorted_entries lc kvs) = length kvs"
  by (simp_all add: sorted_entries_def)

lemma entries_smaller: "(k, x) \<in> set (entries v) \<Longrightarrow> size x < size v"
proof (cases v)
  case (JArr xs)
  then show "(k, x) \<in> set (entries v) \<Longrightarrow> size x < size v"
    by (auto dest!: set_zip_rightD simp: less_Suc_eq_le size_list_estimation')
next
  case (JObj kvs)
  have "(k, x) \<in> set kvs \<Longrightarrow> size x \<le> size_list (size_prod (\<lambda>x. 0) size) kvs"
    by (rule size_list_estimation' [of "(k, x)"]) simp_all
  then show "(k, x) \<in> set (entries v) \<Longrightarrow> size x < size v" using JObj by simp
qed simp_all

function valuesEqual :: "(string \<Rightarrow> string \<Rightarrow> int) \<Rightarrow> json \<Rightarrow> json \<Rightarrow> bool" where
  "valuesEqual lc left right =
     (case (left, right) of
        (JArr xs, JArr ys) \<Rightarrow>
          length xs = length ys \<and> (\<forall>(x, y) \<in> set (zip xs ys). valuesEqual lc x y)
      | _ \<Rightarrow>
          if is_object left \<and> is_object right then
            (let les = sorted_entries lc (entries left); res = sorted_entries lc (entries right)
             in length les = length res \<and>
                (\<forall>((k, x), (k', y)) \<in> set (zip les res). k = k' \<and> valuesEqual lc x y))
          else left = right)"
  by pat_completeness auto
termination
proof (relation "measure (\<lambda>(lc, v, w). size v)")
qed (auto dest!: set_zip_leftD intro: entries_smaller simp: less_Suc_eq_le size_list_estimation')

declare valuesEqual.simps [simp del]

text \<open>\<open>normalizedValue\<close> of \<^verbatim>\<open>config-snapshot.ts\<close>, whose JSON text is the fingerprint.\<close>

fun normalizedValue :: "(string \<Rightarrow> string \<Rightarrow> int) \<Rightarrow> json \<Rightarrow> json" where
  "normalizedValue lc (JArr xs) = JArr (map (normalizedValue lc) xs)"
| "normalizedValue lc (JObj kvs) =
     JObj (sorted_entries lc (map (\<lambda>(k, v). (k, normalizedValue lc v)) kvs))"
| "normalizedValue lc v = v"

section \<open>Configuration fields\<close>

datatype config_field =
  F_root | F_gatewayHost | F_gatewayPort | F_llmModelsDir | F_sttModelsDir | F_ttsModelsDir |
  F_imageModelsDir | F_videoModelsDir | F_host | F_port | F_ctxSize | F_ctxMode | F_sttHost |
  F_sttPort | F_selectedLlmModels | F_selectedSttModels | F_selectedTtsModels |
  F_selectedImageModels | F_selectedVideoModels | F_allowExperimental | F_activeLlmModel |
  F_activeSttModel | F_activeTtsModel | F_activeImageModel | F_activeVideoModel | F_hfToken |
  F_installMissingModels | F_parallel | F_otelEndpoint | F_otelHeaders | F_otelSampleRatio |
  F_memory

type_synonym config = "config_field \<Rightarrow> json"

record config_snapshot =
  cfg_revision :: nat
  cfg_config :: config

datatype field_ownership =
  RestartRequired | LlmLaunch | SttLaunch | TtsLaunch | ImageLaunch | VideoLaunch |
  RequestScoped | ObservabilityField

fun configFieldOwnership :: "config_field \<Rightarrow> field_ownership" where
  "configFieldOwnership F_root = RestartRequired"
| "configFieldOwnership F_gatewayHost = RestartRequired"
| "configFieldOwnership F_gatewayPort = RestartRequired"
| "configFieldOwnership F_llmModelsDir = RestartRequired"
| "configFieldOwnership F_sttModelsDir = RestartRequired"
| "configFieldOwnership F_ttsModelsDir = RestartRequired"
| "configFieldOwnership F_imageModelsDir = RestartRequired"
| "configFieldOwnership F_videoModelsDir = RestartRequired"
| "configFieldOwnership F_host = LlmLaunch"
| "configFieldOwnership F_port = LlmLaunch"
| "configFieldOwnership F_ctxSize = LlmLaunch"
| "configFieldOwnership F_ctxMode = LlmLaunch"
| "configFieldOwnership F_sttHost = SttLaunch"
| "configFieldOwnership F_sttPort = SttLaunch"
| "configFieldOwnership F_selectedLlmModels = RequestScoped"
| "configFieldOwnership F_selectedSttModels = RequestScoped"
| "configFieldOwnership F_selectedTtsModels = RequestScoped"
| "configFieldOwnership F_selectedImageModels = RequestScoped"
| "configFieldOwnership F_selectedVideoModels = RequestScoped"
| "configFieldOwnership F_allowExperimental = RequestScoped"
| "configFieldOwnership F_activeLlmModel = LlmLaunch"
| "configFieldOwnership F_activeSttModel = SttLaunch"
| "configFieldOwnership F_activeTtsModel = TtsLaunch"
| "configFieldOwnership F_activeImageModel = ImageLaunch"
| "configFieldOwnership F_activeVideoModel = VideoLaunch"
| "configFieldOwnership F_hfToken = RequestScoped"
| "configFieldOwnership F_installMissingModels = RestartRequired"
| "configFieldOwnership F_parallel = LlmLaunch"
| "configFieldOwnership F_otelEndpoint = ObservabilityField"
| "configFieldOwnership F_otelHeaders = ObservabilityField"
| "configFieldOwnership F_otelSampleRatio = ObservabilityField"
| "configFieldOwnership F_memory = RestartRequired"

definition all_fields :: "config_field list" where
  "all_fields =
    [F_root, F_gatewayHost, F_gatewayPort, F_llmModelsDir, F_sttModelsDir, F_ttsModelsDir,
     F_imageModelsDir, F_videoModelsDir, F_host, F_port, F_ctxSize, F_ctxMode, F_sttHost,
     F_sttPort, F_selectedLlmModels, F_selectedSttModels, F_selectedTtsModels,
     F_selectedImageModels, F_selectedVideoModels, F_allowExperimental, F_activeLlmModel,
     F_activeSttModel, F_activeTtsModel, F_activeImageModel, F_activeVideoModel, F_hfToken,
     F_installMissingModels, F_parallel, F_otelEndpoint, F_otelHeaders, F_otelSampleRatio,
     F_memory]"

definition restartRequiredFields :: "config_field list" where
  "restartRequiredFields = [F_root, F_gatewayHost, F_gatewayPort, F_llmModelsDir, F_sttModelsDir,
     F_ttsModelsDir, F_imageModelsDir, F_videoModelsDir, F_memory]"

definition rootDerivedDirectoryFields :: "config_field list" where
  "rootDerivedDirectoryFields =
     [F_llmModelsDir, F_sttModelsDir, F_ttsModelsDir, F_imageModelsDir, F_videoModelsDir]"

fun modalityLaunchFields :: "runtime_modality \<Rightarrow> config_field list" where
  "modalityLaunchFields LLM = [F_host, F_port, F_ctxSize, F_ctxMode, F_activeLlmModel, F_parallel]"
| "modalityLaunchFields STT = [F_sttHost, F_sttPort, F_activeSttModel]"
| "modalityLaunchFields TTS = [F_activeTtsModel]"
| "modalityLaunchFields Image = [F_activeImageModel]"
| "modalityLaunchFields Video = [F_activeVideoModel]"

definition requestScopeFields :: "config_field list" where
  "requestScopeFields = [F_selectedLlmModels, F_selectedSttModels, F_selectedTtsModels,
     F_selectedImageModels, F_selectedVideoModels, F_hfToken]"

definition observabilityFields :: "config_field list" where
  "observabilityFields = [F_otelEndpoint, F_otelHeaders, F_otelSampleRatio]"

section \<open>Backend bind hosts\<close>

definition LOOPBACK_HOST :: string where
  "LOOPBACK_HOST = ''127.0.0.1''"

text \<open>\<open>isIP(s) === 4\<close>: four decimal octets without leading zeros.\<close>

definition is_octet :: "string \<Rightarrow> bool" where
  "is_octet s \<longleftrightarrow> s \<noteq> [] \<and> list_all is_digit s \<and> length s \<le> 3 \<and> digits_value s \<le> 255 \<and>
     (length s > 1 \<longrightarrow> hd s \<noteq> CHR ''0'')"

definition is_ipv4 :: "string \<Rightarrow> bool" where
  "is_ipv4 s \<longleftrightarrow> length (split_on (CHR ''.'') s) = 4 \<and> list_all is_octet (split_on (CHR ''.'') s)"

definition backendBindHost :: "string \<Rightarrow> string" where
  "backendBindHost host =
     (let trimmed = js_trim host
      in if to_lower trimmed = ''localhost'' \<or> to_lower trimmed = ''localhost.'' then trimmed
         else
           let address = (if prefix ''['' trimmed \<and> suffix '']'' trimmed
                          then butlast (tl trimmed) else trimmed);
               unscoped = takeWhile (\<lambda>c. c \<noteq> CHR ''%'') address
           in if to_lower unscoped = ''::1'' then ''::1''
              else if is_ipv4 unscoped \<and> prefix ''127.'' unscoped then unscoped
              else LOOPBACK_HOST)"

section \<open>The plan\<close>

record override_ownership =
  ov_configFields :: "config_field list"
  ov_configured :: "runtime_modality \<Rightarrow> bool option"

datatype restart_action = RestartUnchanged | RestartNeeded

datatype modality_action = Unchanged | Add | DrainAndReplace | DrainAndRemove

record modality_plan =
  mp_modality :: runtime_modality
  mp_action :: modality_action
  mp_sourceConfigured :: bool
  mp_targetConfigured :: bool
  mp_changedLaunchFields :: "config_field list"

record reconciliation_plan =
  rp_sourceRevision :: nat
  rp_targetRevision :: nat
  rp_restartAction :: restart_action
  rp_restartFields :: "config_field list"
  rp_modalities :: "(runtime_modality \<times> modality_plan) list"
  rp_requestFields :: "config_field list"
  rp_observabilityReplace :: bool
  rp_observabilityFields :: "config_field list"

datatype plan_error = NotRootDerived config_field | NotOverridable config_field

definition backendHostFields :: "config_field list" where
  "backendHostFields = [F_host, F_sttHost]"

definition effectiveValue :: "config_snapshot \<Rightarrow> config_field \<Rightarrow> json" where
  "effectiveValue s field =
     (case cfg_config s field of
        JStr v \<Rightarrow> if field \<in> set backendHostFields then JStr (backendBindHost v) else JStr v
      | v \<Rightarrow> v)"

definition changedFields ::
  "(string \<Rightarrow> string \<Rightarrow> int) \<Rightarrow> config_snapshot \<Rightarrow> config_snapshot \<Rightarrow> config_field list \<Rightarrow>
   config_field list \<Rightarrow> config_field list" where
  "changedFields lc source target candidates overrides =
     filter (\<lambda>f. f \<notin> set overrides \<and> \<not> valuesEqual lc (effectiveValue source f) (effectiveValue target f))
       candidates"

fun assertRootDerivedDirectories ::
  "(json \<Rightarrow> config_field \<Rightarrow> json) \<Rightarrow> config_snapshot \<Rightarrow> config_field list \<Rightarrow> plan_error option" where
  "assertRootDerivedDirectories dirs s [] = None"
| "assertRootDerivedDirectories dirs s (f # fs) =
     (if cfg_config s f \<noteq> dirs (cfg_config s F_root) f then Some (NotRootDerived f)
      else assertRootDerivedDirectories dirs s fs)"

definition ownedFields :: "override_ownership \<Rightarrow> plan_error + config_field list" where
  "ownedFields ownership =
     (case find (\<lambda>f. f \<in> set (ov_configFields ownership)) restartRequiredFields of
        Some f \<Rightarrow> Inl (NotOverridable f)
      | None \<Rightarrow> Inr (ov_configFields ownership))"

definition nonempty_array :: "json \<Rightarrow> bool" where
  "nonempty_array v = (case v of JArr xs \<Rightarrow> xs \<noteq> [] | _ \<Rightarrow> False)"

definition configuredRuntimeModality ::
  "runtime_modality \<Rightarrow> config \<Rightarrow> override_ownership \<Rightarrow> bool" where
  "configuredRuntimeModality modality config overrides =
     (case ov_configured overrides modality of
        Some b \<Rightarrow> b
      | None \<Rightarrow>
          (case modality of
             LLM \<Rightarrow> True
           | STT \<Rightarrow> nonempty_array (config F_selectedSttModels)
           | TTS \<Rightarrow> nonempty_array (config F_selectedTtsModels)
           | Image \<Rightarrow> nonempty_array (config F_selectedImageModels)
           | Video \<Rightarrow> nonempty_array (config F_selectedVideoModels)))"

definition modalityPlan ::
  "(string \<Rightarrow> string \<Rightarrow> int) \<Rightarrow> runtime_modality \<Rightarrow> config_snapshot \<Rightarrow> config_snapshot \<Rightarrow>
   override_ownership \<Rightarrow> config_field list \<Rightarrow> modality_plan" where
  "modalityPlan lc modality source target ownership overrides =
     (let sourceConfigured = configuredRuntimeModality modality (cfg_config source) ownership;
          targetConfigured = configuredRuntimeModality modality (cfg_config target) ownership;
          changed = changedFields lc source target (modalityLaunchFields modality) overrides
      in \<lparr>mp_modality = modality,
          mp_action = (if \<not> sourceConfigured then if targetConfigured then Add else Unchanged
                       else if \<not> targetConfigured then DrainAndRemove
                       else if changed \<noteq> [] then DrainAndReplace else Unchanged),
          mp_sourceConfigured = sourceConfigured,
          mp_targetConfigured = targetConfigured,
          mp_changedLaunchFields = changed\<rparr>)"

definition createRuntimeReconciliationPlan ::
  "(string \<Rightarrow> string \<Rightarrow> int) \<Rightarrow> (json \<Rightarrow> config_field \<Rightarrow> json) \<Rightarrow> config_snapshot \<Rightarrow> config_snapshot \<Rightarrow>
   override_ownership \<Rightarrow> plan_error + reconciliation_plan" where
  "createRuntimeReconciliationPlan lc dirs source target ownership =
     (case assertRootDerivedDirectories dirs source rootDerivedDirectoryFields of
        Some e \<Rightarrow> Inl e
      | None \<Rightarrow>
     (case assertRootDerivedDirectories dirs target rootDerivedDirectoryFields of
        Some e \<Rightarrow> Inl e
      | None \<Rightarrow>
     (case ownedFields ownership of
        Inl e \<Rightarrow> Inl e
      | Inr overrides \<Rightarrow>
          (let restart = changedFields lc source target restartRequiredFields overrides;
               request = changedFields lc source target requestScopeFields overrides;
               observability = changedFields lc source target observabilityFields overrides
           in Inr \<lparr>rp_sourceRevision = cfg_revision source,
                   rp_targetRevision = cfg_revision target,
                   rp_restartAction = (if restart = [] then RestartUnchanged else RestartNeeded),
                   rp_restartFields = restart,
                   rp_modalities = map (\<lambda>m. (m, modalityPlan lc m source target ownership overrides))
                     runtimeModalities,
                   rp_requestFields = request,
                   rp_observabilityReplace = (observability \<noteq> []),
                   rp_observabilityFields = observability\<rparr>))))"

section \<open>The configuration revision\<close>

text \<open>
  \<open>replace\<close> of \<^verbatim>\<open>config-snapshot.ts\<close>.  The fingerprint is the JSON text of the
  normalized configuration; \<open>stringify\<close> (the library's \<open>JSON.stringify\<close>) and
  \<open>canonical\<close> (\<open>canonicalLocalBaseRoot\<close>) are parameters.
\<close>

fun field_name :: "config_field \<Rightarrow> string" where
  "field_name F_root = ''root''"
| "field_name F_gatewayHost = ''gatewayHost''"
| "field_name F_gatewayPort = ''gatewayPort''"
| "field_name F_llmModelsDir = ''llmModelsDir''"
| "field_name F_sttModelsDir = ''sttModelsDir''"
| "field_name F_ttsModelsDir = ''ttsModelsDir''"
| "field_name F_imageModelsDir = ''imageModelsDir''"
| "field_name F_videoModelsDir = ''videoModelsDir''"
| "field_name F_host = ''host''"
| "field_name F_port = ''port''"
| "field_name F_ctxSize = ''ctxSize''"
| "field_name F_ctxMode = ''ctxMode''"
| "field_name F_sttHost = ''sttHost''"
| "field_name F_sttPort = ''sttPort''"
| "field_name F_selectedLlmModels = ''selectedLlmModels''"
| "field_name F_selectedSttModels = ''selectedSttModels''"
| "field_name F_selectedTtsModels = ''selectedTtsModels''"
| "field_name F_selectedImageModels = ''selectedImageModels''"
| "field_name F_selectedVideoModels = ''selectedVideoModels''"
| "field_name F_allowExperimental = ''allowExperimental''"
| "field_name F_activeLlmModel = ''activeLlmModel''"
| "field_name F_activeSttModel = ''activeSttModel''"
| "field_name F_activeTtsModel = ''activeTtsModel''"
| "field_name F_activeImageModel = ''activeImageModel''"
| "field_name F_activeVideoModel = ''activeVideoModel''"
| "field_name F_hfToken = ''hfToken''"
| "field_name F_installMissingModels = ''installMissingModels''"
| "field_name F_parallel = ''parallel''"
| "field_name F_otelEndpoint = ''otelEndpoint''"
| "field_name F_otelHeaders = ''otelHeaders''"
| "field_name F_otelSampleRatio = ''otelSampleRatio''"
| "field_name F_memory = ''memory''"

definition configFingerprint :: "(json \<Rightarrow> string) \<Rightarrow> (string \<Rightarrow> string \<Rightarrow> int) \<Rightarrow> config \<Rightarrow> string" where
  "configFingerprint stringify lc config =
     stringify (normalizedValue lc (JObj (map (\<lambda>f. (field_name f, config f)) all_fields)))"

definition replace_config ::
  "(json \<Rightarrow> string) \<Rightarrow> (string \<Rightarrow> string \<Rightarrow> int) \<Rightarrow> (json \<Rightarrow> json) \<Rightarrow> json \<Rightarrow> config \<Rightarrow>
   config_snapshot \<Rightarrow> config_snapshot option" where
  "replace_config stringify lc canonical processRoot config s =
     (if canonical (config F_root) \<noteq> processRoot then None
      else if configFingerprint stringify lc (cfg_config s) = configFingerprint stringify lc config then Some s
      else Some \<lparr>cfg_revision = cfg_revision s + 1, cfg_config = config\<rparr>)"

section \<open>Fingerprints and equality agree\<close>

lemma insort_by_map:
  "(\<And>x y. le' (f x) (f y) = le x y) \<Longrightarrow> insort_by le' (f x) (map f xs) = map f (insort_by le x xs)"
  by (induction xs) auto

lemma sort_by_map: "(\<And>x y. le' (f x) (f y) = le x y) \<Longrightarrow> sort_by le' (map f xs) = map f (sort_by le xs)"
  unfolding sort_by_def by (induction xs) (simp_all add: insort_by_map)

lemma sorted_entries_map:
  "sorted_entries lc (map (\<lambda>(k, v). (k, g v)) kvs) = map (\<lambda>(k, v). (k, g v)) (sorted_entries lc kvs)"
  unfolding sorted_entries_def by (rule sort_by_map) (simp add: case_prod_beta)

lemma map_eq_zip:
  "map f xs = map g ys \<Longrightarrow> length xs = length ys \<and> (\<forall>(x, y) \<in> set (zip xs ys). f x = g y)"
proof (induction xs arbitrary: ys)
  case (Cons x xs)
  then show ?case by (cases ys) auto
qed simp

lemma normalized_object: "is_object (normalizedValue lc v) = is_object v"
  by (cases v) simp_all

lemma normalized_valuesEqual: "normalizedValue lc v = normalizedValue lc w \<Longrightarrow> valuesEqual lc v w"
proof (induction v arbitrary: w rule: measure_induct_rule [where f = size])
  case (less left right)
  show ?case
  proof (cases "is_object left")
    case False
    then have "\<not> is_object right" using less.prems normalized_object by metis
    with False have "left = right" using less.prems by (cases left; cases right) simp_all
    then show ?thesis using False by (subst valuesEqual.simps) (cases right; simp)
  next
    case True
    then consider (arr) xs ys where "left = JArr xs" "right = JArr ys"
      | (obj) kvs kws where "left = JObj kvs" "right = JObj kws"
      using less.prems by (cases left; cases right) auto
    then show ?thesis
    proof cases
      case arr
      have "map (normalizedValue lc) xs = map (normalizedValue lc) ys" using less.prems arr by simp
      from map_eq_zip [OF this] have len: "length xs = length ys"
        and eq: "\<And>x y. (x, y) \<in> set (zip xs ys) \<Longrightarrow> normalizedValue lc x = normalizedValue lc y" by auto
      have "valuesEqual lc x y" if "(x, y) \<in> set (zip xs ys)" for x y
        using that arr eq by (intro less.IH) (auto dest!: set_zip_leftD simp: less_Suc_eq_le size_list_estimation')
      then show ?thesis using arr len by (subst valuesEqual.simps) auto
    next
      case obj
      let ?n = "\<lambda>(k, v). (k, normalizedValue lc v)"
      let ?l = "sorted_entries lc kvs" and ?r = "sorted_entries lc kws"
      have "map ?n ?l = map ?n ?r" using less.prems obj by (simp add: sorted_entries_map)
      from map_eq_zip [OF this] have len: "length ?l = length ?r"
        and eq: "\<And>k x k' y. ((k, x), (k', y)) \<in> set (zip ?l ?r) \<Longrightarrow> k = k' \<and> normalizedValue lc x = normalizedValue lc y"
        by auto
      have "k = k' \<and> valuesEqual lc x y" if "((k, x), (k', y)) \<in> set (zip ?l ?r)" for k x k' y
      proof -
        have "(k, x) \<in> set (entries left)" using set_zip_leftD [OF that] obj by simp
        then have "size x < size left" by (rule entries_smaller)
        then show ?thesis using eq [OF that] less.IH by blast
      qed
      then show ?thesis using obj len by (subst valuesEqual.simps) auto
    qed
  qed
qed

lemma all_fields_complete [simp]: "set all_fields = UNIV"
proof -
  have "f \<in> set all_fields" for f by (cases f) (simp_all add: all_fields_def)
  then show ?thesis by auto
qed

lemma field_name_distinct: "distinct (map field_name all_fields)"
  by (simp add: all_fields_def)

lemma sorted_entries_fields:
  assumes "normalizedValue lc (JObj (map (\<lambda>f. (field_name f, c f)) all_fields)) =
      normalizedValue lc (JObj (map (\<lambda>f. (field_name f, c' f)) all_fields))"
  shows "normalizedValue lc (c f) = normalizedValue lc (c' f)"
proof -
  let ?e = "\<lambda>c. map (\<lambda>f. (field_name f, normalizedValue lc (c f))) all_fields"
  have "sorted_entries lc (?e c) = sorted_entries lc (?e c')"
    using assms by (simp add: comp_def case_prod_beta)
  then have "set (?e c) = set (?e c')" by (metis set_sorted_entries(1))
  then have "(field_name f, normalizedValue lc (c f)) \<in> set (?e c')"
    by (metis (mono_tags, lifting) UNIV_I all_fields_complete image_eqI list.set_map)
  then obtain g where "field_name f = field_name g" "normalizedValue lc (c f) = normalizedValue lc (c' g)"
    by auto
  moreover have "inj field_name"
    using field_name_distinct unfolding distinct_map by simp
  ultimately show ?thesis by (auto dest: injD)
qed

lemma same_fingerprint_effective:
  assumes "normalizedValue lc (cfg_config s f) = normalizedValue lc (cfg_config t f)"
  shows "valuesEqual lc (effectiveValue s f) (effectiveValue t f)"
proof -
  have "normalizedValue lc (effectiveValue s f) = normalizedValue lc (effectiveValue t f)"
    using assms unfolding effectiveValue_def by (cases "cfg_config s f"; cases "cfg_config t f") auto
  then show ?thesis by (rule normalized_valuesEqual)
qed

section \<open>Bind hosts\<close>

definition loopback :: "string \<Rightarrow> bool" where
  "loopback h \<longleftrightarrow> to_lower h = ''localhost'' \<or> to_lower h = ''localhost.'' \<or> h = ''::1'' \<or>
     (is_ipv4 h \<and> prefix ''127.'' h)"

lemma trim_none:
  assumes "s = [] \<or> \<not> js_space (hd s) \<and> \<not> js_space (last s)"
  shows "js_trim s = s"
proof (cases s)
  case (Cons c cs)
  then have "dropWhile js_space s = s" using assms by simp
  moreover have "dropWhile js_space (rev s) = rev s"
    using assms Cons by (cases "rev s") (auto simp: hd_rev [symmetric] simp del: hd_rev)
  ultimately show ?thesis by (simp add: js_trim_def)
qed (simp add: js_trim_def)

lemma hd_dropWhile_js: "dropWhile P s \<noteq> [] \<Longrightarrow> \<not> P (hd (dropWhile P s))"
  by (rule hd_dropWhile)

lemma trim_trim [simp]: "js_trim (js_trim s) = js_trim s"
proof (rule trim_none)
  let ?d = "dropWhile js_space s"
  show "js_trim s = [] \<or> \<not> js_space (hd (js_trim s)) \<and> \<not> js_space (last (js_trim s))"
  proof (cases "js_trim s = []")
    case False
    let ?e = "dropWhile js_space (rev ?d)"
    have e: "?e \<noteq> []" "js_trim s = rev ?e" using False by (simp_all add: js_trim_def)
    then have "\<not> js_space (last (js_trim s))" using hd_dropWhile [of js_space "rev ?d"] by (simp add: last_rev)
    moreover have "?d \<noteq> []" using e(1) by (metis dropWhile.simps(1) rev.simps(1))
    moreover have "hd (js_trim s) = hd ?d"
    proof -
      obtain p where "rev ?d = p @ ?e" by (metis takeWhile_dropWhile_id)
      then have "?d = rev ?e @ rev p" by (metis rev_append rev_rev_ident)
      then show ?thesis using e by (metis hd_append2 rev_is_Nil_conv)
    qed
    ultimately show ?thesis using hd_dropWhile [of js_space s] by metis
  qed simp
qed

lemma split_on_join: "concat (map (\<lambda>w. c # w) (split_on c s)) = c # s"
proof (induction s)
  case (Cons x xs)
  then show ?case by (cases "split_on c xs") auto
qed simp

lemma ipv4_chars:
  assumes "is_ipv4 s" "c \<in> set s"
  shows "is_digit c \<or> c = CHR ''.''"
proof -
  have "set (concat (map (\<lambda>w. CHR ''.'' # w) (split_on (CHR ''.'') s))) = insert (CHR ''.'') (set s)"
    by (simp only: split_on_join list.set)
  then have "c \<in> set (concat (map (\<lambda>w. CHR ''.'' # w) (split_on (CHR ''.'') s)))"
    using assms(2) by blast
  then have "c = CHR ''.'' \<or> (\<exists>w \<in> set (split_on (CHR ''.'') s). c \<in> set w)"
    by (auto split: if_splits)
  then show ?thesis using assms(1) by (auto simp: is_ipv4_def is_octet_def list_all_iff)
qed

lemma ipv4_plain:
  assumes "is_ipv4 s"
  shows "CHR ''%'' \<notin> set s" "\<not> prefix ''['' s" "js_trim s = s" "to_lower s \<noteq> ''localhost''" "to_lower s \<noteq> ''localhost.''"
    "to_lower s \<noteq> ''::1''"
proof -
  have d: "c \<in> set s \<Longrightarrow> is_digit c \<or> c = CHR ''.''" for c using ipv4_chars [OF assms] .
  have no: "CHR ''%'' \<notin> set s" "CHR ''['' \<notin> set s" "CHR ''l'' \<notin> set s" "CHR '':'' \<notin> set s"
    using d [of "CHR ''%''"] d [of "CHR ''[''"] d [of "CHR ''l''"] d [of "CHR '':''"] by (auto simp: is_digit_def)
  show "CHR ''%'' \<notin> set s" by (rule no)
  show "\<not> prefix ''['' s" using no(2) by (cases s) auto
  have "\<not> js_space c" if "c \<in> set s" for c using d [OF that] by (auto simp: js_space_def is_digit_def)
  then show "js_trim s = s" by (intro trim_none) (metis hd_in_set last_in_set)
  have low: "lower_char c = c" if "c \<in> set s" for c
    using d [OF that] by (auto simp: lower_char_def is_digit_def Let_def)
  then have ls: "to_lower s = s" unfolding to_lower_def by (simp add: map_idI)
  show "to_lower s \<noteq> ''localhost''" "to_lower s \<noteq> ''localhost.''" "to_lower s \<noteq> ''::1''"
    unfolding ls using no(3,4) by auto
qed

lemma backendBindHost_loopback: "loopback (backendBindHost h)"
  by (auto simp: backendBindHost_def loopback_def Let_def LOOPBACK_HOST_def is_ipv4_def is_octet_def is_digit_def
      digits_value_def)

lemma backendBindHost_id: "loopback h \<Longrightarrow> h = js_trim h \<Longrightarrow> backendBindHost h = h"
proof -
  assume "loopback h" and t: "h = js_trim h"
  then consider "to_lower h = ''localhost'' \<or> to_lower h = ''localhost.''" | "h = ''::1''" | "is_ipv4 h" "prefix ''127.'' h"
    unfolding loopback_def by blast
  then show ?thesis
  proof cases
    case 1
    then show ?thesis using t by (simp add: backendBindHost_def Let_def)
  next
    case 2
    have "js_trim ''::1'' = ''::1''" by (simp add: js_trim_def js_space_def)
    then show ?thesis using 2 by (simp add: backendBindHost_def Let_def to_lower_def lower_char_def)
  next
    case 3
    have tw: "takeWhile (\<lambda>c. c \<noteq> CHR ''%'') h = h"
      using ipv4_plain(1) [OF 3(1)] by (auto simp: takeWhile_eq_all_conv)
    show ?thesis using 3 ipv4_plain [OF 3(1)] by (simp add: backendBindHost_def Let_def tw)
  qed
qed

lemma backendBindHost_trimmed: "js_trim (backendBindHost h) = backendBindHost h"
proof -
  have c: "js_trim ''::1'' = ''::1''" "js_trim LOOPBACK_HOST = LOOPBACK_HOST"
    by (simp_all add: js_trim_def js_space_def LOOPBACK_HOST_def)
  show ?thesis using ipv4_plain(3) by (auto simp: backendBindHost_def Let_def c)
qed

section \<open>Properties\<close>

text \<open>
  an unchanged fingerprint changes nothing.  When two configurations have the same
  normalized form, so that no new revision is made, every list of changed fields of the plan is
  empty, nothing restarts or is replaced, and every modality configured in both is left alone.
\<close>

theorem same_fingerprint_empty_plan:
  assumes "createRuntimeReconciliationPlan lc dirs s t ov = Inr p"
    and "normalizedValue lc (JObj (map (\<lambda>f. (field_name f, cfg_config s f)) all_fields)) =
         normalizedValue lc (JObj (map (\<lambda>f. (field_name f, cfg_config t f)) all_fields))"
  shows "rp_restartAction p = RestartUnchanged \<and> rp_restartFields p = [] \<and> rp_requestFields p = [] \<and>
    \<not> rp_observabilityReplace p \<and>
    (\<forall>(m, mp) \<in> set (rp_modalities p). mp_changedLaunchFields mp = [] \<and> mp_action mp = Unchanged)"
proof -
  have n: "normalizedValue lc (cfg_config s f) = normalizedValue lc (cfg_config t f)" for f
    using sorted_entries_fields [OF assms(2)] .
  then have none: "changedFields lc s t fs o' = []" for fs o'
    by (auto simp: changedFields_def filter_empty_conv intro: same_fingerprint_effective)
  have "nonempty_array (cfg_config s f) = nonempty_array (cfg_config t f)" for f
    using n [of f] by (cases "cfg_config s f"; cases "cfg_config t f") (auto simp: nonempty_array_def)
  then have same: "configuredRuntimeModality m (cfg_config s) ov = configuredRuntimeModality m (cfg_config t) ov" for m
    by (simp add: configuredRuntimeModality_def split: option.split runtime_modality.split)
  show ?thesis
    using assms(1) by (auto simp: createRuntimeReconciliationPlan_def Let_def none modalityPlan_def same
        split: option.splits sum.splits)
qed

definition demo_config :: "string \<Rightarrow> config" where
  "demo_config h = (\<lambda>f. if f = F_host then JStr h else if f = F_memory then JObj [(''b'', JNum 1), (''a'', JNum 2)]
     else JArr [])"

definition no_overrides :: override_ownership where
  "no_overrides = \<lparr>ov_configFields = [], ov_configured = (\<lambda>_. None)\<rparr>"

lemmas plan_eval = createRuntimeReconciliationPlan_def rootDerivedDirectoryFields_def ownedFields_def
  no_overrides_def restartRequiredFields_def demo_config_def

theorem same_fingerprint_empty_plan_witness:
  "\<exists>p. createRuntimeReconciliationPlan (\<lambda>a b. 0) (\<lambda>r f. JArr []) \<lparr>cfg_revision = 1, cfg_config = demo_config ''x''\<rparr>
      \<lparr>cfg_revision = 1, cfg_config = demo_config ''x''\<rparr> no_overrides = Inr p \<and> rp_restartFields p = []"
proof -
  obtain p where p: "createRuntimeReconciliationPlan (\<lambda>a b. 0) (\<lambda>r f. JArr [])
      \<lparr>cfg_revision = 1, cfg_config = demo_config ''x''\<rparr> \<lparr>cfg_revision = 1, cfg_config = demo_config ''x''\<rparr>
      no_overrides = Inr p"
    by (simp add: plan_eval Let_def)
  show ?thesis using same_fingerprint_empty_plan [OF p refl] p by blast
qed

text \<open>
  what a plan does to a modality.  A configured backend is drained exactly when it is no
  longer configured or one of its launch fields changed and no override owns it; no launch field
  of another modality, and no other field, can disturb it.
\<close>

theorem modality_drained_iff:
  assumes "createRuntimeReconciliationPlan lc dirs s t ov = Inr p" and "(m, mp) \<in> set (rp_modalities p)"
  shows "(mp_action mp = DrainAndRemove \<longleftrightarrow>
      configuredRuntimeModality m (cfg_config s) ov \<and> \<not> configuredRuntimeModality m (cfg_config t) ov) \<and>
    (mp_action mp = DrainAndReplace \<longleftrightarrow>
      configuredRuntimeModality m (cfg_config s) ov \<and> configuredRuntimeModality m (cfg_config t) ov \<and>
      (\<exists>f \<in> set (modalityLaunchFields m). f \<notin> set (ov_configFields ov) \<and>
         \<not> valuesEqual lc (effectiveValue s f) (effectiveValue t f))) \<and>
    (mp_action mp = Add \<longleftrightarrow>
      \<not> configuredRuntimeModality m (cfg_config s) ov \<and> configuredRuntimeModality m (cfg_config t) ov)"
proof -
  have o': "ownedFields ov = Inr os \<Longrightarrow> os = ov_configFields ov" for os
    by (simp add: ownedFields_def split: option.splits)
  have mp: "mp = modalityPlan lc m s t ov (ov_configFields ov)"
    using assms by (auto simp: createRuntimeReconciliationPlan_def Let_def split: option.splits sum.splits dest!: o')
  show ?thesis by (auto simp: mp modalityPlan_def Let_def changedFields_def filter_empty_conv)
qed

theorem modality_drained_iff_witness:
  "\<exists>p mp. createRuntimeReconciliationPlan (\<lambda>a b. 0) (\<lambda>r f. JArr []) \<lparr>cfg_revision = 1, cfg_config = demo_config ''127.0.0.2''\<rparr>
      \<lparr>cfg_revision = 2, cfg_config = demo_config ''10.0.0.1''\<rparr> no_overrides = Inr p \<and>
    (LLM, mp) \<in> set (rp_modalities p) \<and> mp_action mp = DrainAndReplace"
proof -
  let ?s = "\<lparr>cfg_revision = 1, cfg_config = demo_config ''127.0.0.2''\<rparr>"
    and ?t = "\<lparr>cfg_revision = 2, cfg_config = demo_config ''10.0.0.1''\<rparr>"
  obtain p mp where p: "createRuntimeReconciliationPlan (\<lambda>a b. 0) (\<lambda>r f. JArr []) ?s ?t no_overrides = Inr p"
      "(LLM, mp) \<in> set (rp_modalities p)"
    by (simp add: plan_eval Let_def runtimeModalities_def)
  have "effectiveValue ?s F_host = JStr ''127.0.0.2''" "effectiveValue ?t F_host = JStr ''127.0.0.1''"
    by (simp_all add: effectiveValue_def demo_config_def backendHostFields_def backendBindHost_def js_trim_def
        js_space_def to_lower_def lower_char_def is_ipv4_def is_octet_def is_digit_def digits_value_def
        LOOPBACK_HOST_def Let_def)
  then have "\<not> valuesEqual (\<lambda>a b. 0) (effectiveValue ?s F_host) (effectiveValue ?t F_host)"
    by (subst valuesEqual.simps) simp
  then have "\<exists>f \<in> set (modalityLaunchFields LLM). f \<notin> set (ov_configFields no_overrides) \<and>
      \<not> valuesEqual (\<lambda>a b. 0) (effectiveValue ?s f) (effectiveValue ?t f)"
    by (simp add: no_overrides_def)
  moreover have "configuredRuntimeModality LLM c no_overrides" for c
    by (simp add: configuredRuntimeModality_def no_overrides_def)
  ultimately have "mp_action mp = DrainAndReplace"
    using modality_drained_iff [OF p] by blast
  then show ?thesis using p by blast
qed

text \<open>
  the ownership table and the lists the plan compares.  They agree except for two fields:
  the table calls \<open>installMissingModels\<close> restart-required and \<open>allowExperimental\<close>
  request-scoped, but the plan compares neither, so a change of only these yields an empty plan.
\<close>

theorem ownership_table_coverage:
  "{f. configFieldOwnership f = RestartRequired} = set restartRequiredFields \<union> {F_installMissingModels} \<and>
   {f. configFieldOwnership f = RequestScoped} = set requestScopeFields \<union> {F_allowExperimental} \<and>
   {f. configFieldOwnership f = ObservabilityField} = set observabilityFields \<and>
   {f. configFieldOwnership f = LlmLaunch} = set (modalityLaunchFields LLM) \<and>
   {f. configFieldOwnership f = SttLaunch} = set (modalityLaunchFields STT) \<and>
   F_installMissingModels \<notin> set restartRequiredFields \<and> F_allowExperimental \<notin> set requestScopeFields"
proof -
  have sub: "{f. configFieldOwnership f = x} = set (filter (\<lambda>f. configFieldOwnership f = x) all_fields)" for x
    by simp
  show ?thesis unfolding sub
    by (auto simp: all_fields_def restartRequiredFields_def requestScopeFields_def observabilityFields_def)
qed

text \<open>
  a supervised backend is only ever bound to a loopback address, whatever host is
  configured, and normalising a bind host twice changes nothing.
\<close>

theorem bind_host_is_loopback:
  "loopback (backendBindHost h) \<and> backendBindHost (backendBindHost h) = backendBindHost h"
  using backendBindHost_loopback [of h] backendBindHost_id [of "backendBindHost h"]
  by (simp add: backendBindHost_trimmed)

end
