(* ===== verification/Auth_Database.thy ===== *)
theory Auth_Database
  imports Authorization Js_Number "HOL-Library.Char_ord" "HOL-Library.List_Lexorder"
begin

text \<open>
  The authorization tables of \<^verbatim>\<open>src/src/db/schema.ts\<close> (roles, role permissions, managed
  users and their emails, identities, role assignments, role bindings, the policy settings and
  the magic-link tokens) and the statements the authorization code runs on them.

  A table is the list of its rows in insertion order.  Primary keys, unique indexes and foreign
  keys are enforced on insertion; deleting a role cascades as the schema says.  A statement that
  violates a constraint throws; a transaction whose body throws leaves the database unchanged, so
  an operation returns either an error or its result with the new database.  Times are the
  milliseconds of the ISO strings the code stores.
\<close>

section \<open>Errors\<close>

datatype access_code =
    PolicyNotConfigured | ManagedUserNotFound | ManagedUserExists | RoleNotFound |
    PolicyConflict | PolicyRevisionConflict

datatype access_error = BrowserAccessError access_code | ConstraintViolation | SchemaError | InternalError

definition bindE :: "'e + 'a \<Rightarrow> ('a \<Rightarrow> 'e + 'b) \<Rightarrow> 'e + 'b" where
  "bindE m f = (case m of Inl e \<Rightarrow> Inl e | Inr x \<Rightarrow> f x)"

definition require :: "bool \<Rightarrow> 'e \<Rightarrow> 'e + unit" where
  "require b e = (if b then Inr () else Inl e)"

lemma bindE_simps [simp]: "bindE (Inl e) f = Inl e" "bindE (Inr x) f = f x"
  by (simp_all add: bindE_def)

lemma bindE_Inr: "bindE m f = Inr y \<longleftrightarrow> (\<exists>x. m = Inr x \<and> f x = Inr y)"
  by (cases m) simp_all

lemma require_Inr [simp]: "require b e = Inr x \<longleftrightarrow> b"
  by (simp add: require_def)

lemma require_simps [simp]: "require True e = Inr ()" "require False e = Inl e"
  by (simp_all add: require_def)

section \<open>Tables\<close>

datatype user_status = Pending | Active | Disabled | Removed

record role_row =
  role_id :: string
  role_name :: string
  role_description :: string
  role_created :: int
  role_updated :: int

record user_row =
  user_id :: string
  user_status :: user_status
  user_created :: int
  user_updated :: int

record user_email_row =
  email_user :: string
  email_address :: string

record identity_row =
  identity_id :: string
  identity_user :: string
  identity_issuer :: string
  identity_subject :: string
  identity_email :: "string option"
  identity_created :: int
  identity_seen :: int

record token_row =
  token_user :: string
  token_digest :: string
  token_expires :: int
  token_created :: int

record subject_binding_row =
  sb_id :: string
  sb_role :: string
  sb_issuer :: string
  sb_subject :: string

record email_binding_row =
  eb_id :: string
  eb_role :: string
  eb_email :: string

record domain_binding_row =
  dm_id :: string
  dm_role :: string
  dm_domain :: string

record settings_row =
  default_role_id :: "string option"
  settings_updated :: int

text \<open>
  Role permissions and role assignments are pairs (role, permission) and (user, role).  Only the
  row \<open>default\<close> is ever written to the settings table.
\<close>

record auth_db =
  roles_table :: "role_row list"
  role_permissions :: "(string \<times> permission) list"
  users_table :: "user_row list"
  user_emails :: "user_email_row list"
  identities :: "identity_row list"
  user_roles :: "(string \<times> string) list"
  magic_tokens :: "token_row list"
  subject_bindings :: "subject_binding_row list"
  email_bindings :: "email_binding_row list"
  domain_bindings :: "domain_binding_row list"
  settings :: "settings_row option"

definition empty_auth_db :: auth_db where
  "empty_auth_db =
     \<lparr>roles_table = [], role_permissions = [], users_table = [], user_emails = [], identities = [],
      user_roles = [], magic_tokens = [], subject_bindings = [], email_bindings = [],
      domain_bindings = [], settings = None\<rparr>"

section \<open>Statements\<close>

text \<open>
  Insertion of one row and of several rows; \<open>clash\<close> is the table's uniqueness constraints and
  \<open>refs\<close> its foreign keys.
\<close>

definition insert_row :: "('r \<Rightarrow> 'r \<Rightarrow> bool) \<Rightarrow> ('r \<Rightarrow> bool) \<Rightarrow> 'r \<Rightarrow> 'r list \<Rightarrow> access_error + 'r list" where
  "insert_row clash refs r t =
     (if refs r \<and> \<not> list_ex (clash r) t then Inr (t @ [r]) else Inl ConstraintViolation)"

fun insert_rows :: "('r \<Rightarrow> 'r \<Rightarrow> bool) \<Rightarrow> ('r \<Rightarrow> bool) \<Rightarrow> 'r list \<Rightarrow> 'r list \<Rightarrow> access_error + 'r list" where
  "insert_rows clash refs [] t = Inr t"
| "insert_rows clash refs (r # rs) t = bindE (insert_row clash refs r t) (insert_rows clash refs rs)"

definition role_exists :: "auth_db \<Rightarrow> string \<Rightarrow> bool" where
  "role_exists d rid = list_ex (\<lambda>r. role_id r = rid) (roles_table d)"

definition user_exists :: "auth_db \<Rightarrow> string \<Rightarrow> bool" where
  "user_exists d uid = list_ex (\<lambda>u. user_id u = uid) (users_table d)"

definition find_user :: "auth_db \<Rightarrow> string \<Rightarrow> user_row option" where
  "find_user d uid = find (\<lambda>u. user_id u = uid) (users_table d)"

definition set_status :: "string \<Rightarrow> user_status \<Rightarrow> int \<Rightarrow> auth_db \<Rightarrow> auth_db" where
  "set_status uid st now d = d\<lparr>users_table :=
     map (\<lambda>u. if user_id u = uid then u\<lparr>user_status := st, user_updated := now\<rparr> else u) (users_table d)\<rparr>"

text \<open>Deleting roles: role permissions, assignments and bindings go with them and the default is cleared.\<close>

definition delete_roles :: "(string \<Rightarrow> bool) \<Rightarrow> auth_db \<Rightarrow> auth_db" where
  "delete_roles P d = d\<lparr>
     roles_table := filter (\<lambda>r. \<not> P (role_id r)) (roles_table d),
     role_permissions := filter (\<lambda>p. \<not> P (fst p)) (role_permissions d),
     user_roles := filter (\<lambda>p. \<not> P (snd p)) (user_roles d),
     subject_bindings := filter (\<lambda>b. \<not> P (sb_role b)) (subject_bindings d),
     email_bindings := filter (\<lambda>b. \<not> P (eb_role b)) (email_bindings d),
     domain_bindings := filter (\<lambda>b. \<not> P (dm_role b)) (domain_bindings d),
     settings := map_option (\<lambda>s. case default_role_id s of
         None \<Rightarrow> s
       | Some rid \<Rightarrow> if P rid then s\<lparr>default_role_id := None\<rparr> else s) (settings d)\<rparr>"

section \<open>Lemmas\<close>

lemma insert_row_Inr: "insert_row clash refs r t = Inr t' \<longleftrightarrow> refs r \<and> (\<forall>x \<in> set t. \<not> clash r x) \<and> t' = t @ [r]"
  by (auto simp: insert_row_def list_ex_iff)

lemma insert_rows_append: "insert_rows clash refs rs t = Inr t' \<Longrightarrow> t' = t @ rs \<and> (\<forall>r \<in> set rs. refs r)"
  by (induction rs arbitrary: t) (fastforce simp: bindE_Inr insert_row_Inr)+

lemma insert_rows_keys:
  "insert_rows clash refs rs t = Inr t' \<Longrightarrow> (\<And>x y. key x = key y \<Longrightarrow> clash x y) \<Longrightarrow>
    distinct (map key t) \<Longrightarrow> distinct (map key t')"
proof (induction rs arbitrary: t)
  case (Cons r rs)
  from Cons.prems(1) have "insert_rows clash refs rs (t @ [r]) = Inr t'" and "\<forall>x \<in> set t. \<not> clash r x"
    by (auto simp: bindE_Inr insert_row_Inr)
  moreover have "key r \<notin> key ` set t" using calculation(2) Cons.prems(2) by auto
  ultimately show ?case using Cons.IH [of "t @ [r]"] Cons.prems(2,3) by auto
qed simp

lemma insert_rows_succeeds:
  assumes "distinct (map key (t @ rs))" "\<And>r. r \<in> set rs \<Longrightarrow> refs r" "\<And>x y. clash x y \<Longrightarrow> key x = key y"
  shows "insert_rows clash refs rs t = Inr (t @ rs)"
  using assms
proof (induction rs arbitrary: t)
  case (Cons r rs)
  have "\<forall>x \<in> set t. \<not> clash r x" using Cons.prems(1,3) by (force simp: image_iff)
  then have "insert_row clash refs r t = Inr (t @ [r])" using Cons.prems(2) by (simp add: insert_row_Inr)
  then show ?case using Cons.IH [of "t @ [r]"] Cons.prems by simp
qed simp

lemma find_user_set_status:
  "find_user (set_status uid st now d) u =
    (if u = uid then map_option (\<lambda>r. r\<lparr>user_status := st, user_updated := now\<rparr>) (find_user d uid) else find_user d u)"
proof -
  have "find (\<lambda>r. user_id r = u) (map (\<lambda>u. if user_id u = uid then u\<lparr>user_status := st, user_updated := now\<rparr> else u) us) =
    (if u = uid then map_option (\<lambda>r. r\<lparr>user_status := st, user_updated := now\<rparr>) (find (\<lambda>r. user_id r = uid) us)
     else find (\<lambda>r. user_id r = u) us)" for us
    by (induction us) auto
  from this [of "users_table d"] show ?thesis by (simp add: find_user_def set_status_def)
qed

lemma set_status_other [simp]:
  "roles_table (set_status uid st now d) = roles_table d"
  "role_permissions (set_status uid st now d) = role_permissions d"
  "user_emails (set_status uid st now d) = user_emails d"
  "identities (set_status uid st now d) = identities d"
  "user_roles (set_status uid st now d) = user_roles d"
  "magic_tokens (set_status uid st now d) = magic_tokens d"
  "subject_bindings (set_status uid st now d) = subject_bindings d"
  "email_bindings (set_status uid st now d) = email_bindings d"
  "domain_bindings (set_status uid st now d) = domain_bindings d"
  "settings (set_status uid st now d) = settings d"
  by (simp_all add: set_status_def)

lemma set_status_ids [simp]: "map user_id (users_table (set_status uid st now d)) = map user_id (users_table d)"
  by (simp add: set_status_def)

lemma set_status_id_set [simp]: "user_id ` set (users_table (set_status uid st now d)) = user_id ` set (users_table d)"
  using set_status_ids [of uid st now d] by (metis list.set_map)

lemma user_exists_iff: "user_exists d uid \<longleftrightarrow> uid \<in> user_id ` set (users_table d)"
  by (auto simp: user_exists_def list_ex_iff)

lemma role_exists_iff: "role_exists d rid \<longleftrightarrow> rid \<in> role_id ` set (roles_table d)"
  by (auto simp: role_exists_def list_ex_iff)

lemma find_user_None: "find_user d uid = None \<longleftrightarrow> \<not> user_exists d uid"
  by (auto simp: find_user_def user_exists_def find_None_iff list_ex_iff)

lemma find_user_Some: "find_user d uid = Some u \<Longrightarrow> u \<in> set (users_table d) \<and> user_id u = uid"
  unfolding find_user_def by (drule find_Some_in) auto

lemma find_user_unique:
  "distinct (map user_id (users_table d)) \<Longrightarrow> u \<in> set (users_table d) \<Longrightarrow> find_user d (user_id u) = Some u"
proof -
  assume dist: "distinct (map user_id (users_table d))" and u: "u \<in> set (users_table d)"
  then obtain v where v: "find_user d (user_id u) = Some v"
    using find_user_None [of d "user_id u"] by (cases "find_user d (user_id u)") (auto simp: user_exists_iff)
  moreover have "v = u" using find_user_Some [OF v] u dist by (auto simp: distinct_map inj_on_def)
  ultimately show ?thesis by simp
qed

lemma to_lower_idem [simp]: "to_lower (to_lower s) = to_lower s"
proof -
  have "lower_char (lower_char c) = lower_char c" for c by (auto simp: lower_char_def Let_def)
  then show ?thesis by (simp add: to_lower_def)
qed

lemma length_to_lower [simp]: "length (to_lower s) = length s"
  by (simp add: to_lower_def)

text \<open>What the lookups do not depend on.\<close>

lemma user_exists_update [simp]:
  "user_exists (d\<lparr>roles_table := x0\<rparr>) = user_exists d"
  "user_exists (d\<lparr>role_permissions := x1\<rparr>) = user_exists d"
  "user_exists (d\<lparr>user_emails := x3\<rparr>) = user_exists d"
  "user_exists (d\<lparr>identities := x4\<rparr>) = user_exists d"
  "user_exists (d\<lparr>user_roles := x5\<rparr>) = user_exists d"
  "user_exists (d\<lparr>magic_tokens := x6\<rparr>) = user_exists d"
  "user_exists (d\<lparr>subject_bindings := x7\<rparr>) = user_exists d"
  "user_exists (d\<lparr>email_bindings := x8\<rparr>) = user_exists d"
  "user_exists (d\<lparr>domain_bindings := x9\<rparr>) = user_exists d"
  "user_exists (d\<lparr>settings := x10\<rparr>) = user_exists d"
  by (simp_all add: user_exists_def fun_eq_iff)

lemma find_user_update [simp]:
  "find_user (d\<lparr>roles_table := x0\<rparr>) = find_user d"
  "find_user (d\<lparr>role_permissions := x1\<rparr>) = find_user d"
  "find_user (d\<lparr>user_emails := x3\<rparr>) = find_user d"
  "find_user (d\<lparr>identities := x4\<rparr>) = find_user d"
  "find_user (d\<lparr>user_roles := x5\<rparr>) = find_user d"
  "find_user (d\<lparr>magic_tokens := x6\<rparr>) = find_user d"
  "find_user (d\<lparr>subject_bindings := x7\<rparr>) = find_user d"
  "find_user (d\<lparr>email_bindings := x8\<rparr>) = find_user d"
  "find_user (d\<lparr>domain_bindings := x9\<rparr>) = find_user d"
  "find_user (d\<lparr>settings := x10\<rparr>) = find_user d"
  by (simp_all add: find_user_def fun_eq_iff)

lemma role_exists_update [simp]:
  "role_exists (d\<lparr>role_permissions := x1\<rparr>) = role_exists d"
  "role_exists (d\<lparr>users_table := x2\<rparr>) = role_exists d"
  "role_exists (d\<lparr>user_emails := x3\<rparr>) = role_exists d"
  "role_exists (d\<lparr>identities := x4\<rparr>) = role_exists d"
  "role_exists (d\<lparr>user_roles := x5\<rparr>) = role_exists d"
  "role_exists (d\<lparr>magic_tokens := x6\<rparr>) = role_exists d"
  "role_exists (d\<lparr>subject_bindings := x7\<rparr>) = role_exists d"
  "role_exists (d\<lparr>email_bindings := x8\<rparr>) = role_exists d"
  "role_exists (d\<lparr>domain_bindings := x9\<rparr>) = role_exists d"
  "role_exists (d\<lparr>settings := x10\<rparr>) = role_exists d"
  by (simp_all add: role_exists_def fun_eq_iff)

lemma exists_set_status [simp]:
  "user_exists (set_status uid st now d) = user_exists d" "role_exists (set_status uid st now d) = role_exists d"
  by (simp_all add: user_exists_iff role_exists_iff fun_eq_iff)

end
