(* ===== verification/Access_Control.thy ===== *)
theory Access_Control
  imports Auth_Database "HOL-Library.Multiset"
begin

text \<open>
  The browser access policy: its contract
  (\<^verbatim>\<open>src/src/domains/auth/access-control-contract.ts\<close>) and the operations that apply,
  load, fingerprint, clear and resolve it (\<^verbatim>\<open>access-control.ts\<close>).

  The record \<open>access_env\<close> holds what the code takes from its libraries: zod's email and URL
  checks, SHA-256 and the host's \<open>localeCompare\<close>.  Random ids are an argument: \<open>uuid i\<close> is what
  \<open>crypto.randomUUID\<close> returns for the role at index \<open>i\<close>.
\<close>

record access_env =
  email_valid :: "string \<Rightarrow> bool"
  url_valid :: "string \<Rightarrow> bool"
  sha256 :: "string \<Rightarrow> string"
  locale_compare :: "string \<Rightarrow> string \<Rightarrow> int"

section \<open>The contract\<close>

record access_role =
  ar_name :: string
  ar_description :: string
  ar_permissions :: "permission list"

datatype access_binding =
    SubjectBinding string string string
  | EmailBinding string string
  | DomainBinding string string

record access_config =
  ac_roles :: "access_role list"
  ac_bindings :: "access_binding list"
  ac_defaultRole :: "string option"

definition char_between :: "nat \<Rightarrow> nat \<Rightarrow> char \<Rightarrow> bool" where
  "char_between a b c = (let n = of_char c in a \<le> n \<and> n \<le> b)"

definition lower_letter :: "char \<Rightarrow> bool" where "lower_letter c = char_between 97 122 c"
definition digit :: "char \<Rightarrow> bool" where "digit c = char_between 48 57 c"

definition role_name_ok :: "string \<Rightarrow> bool" where
  "role_name_ok s \<longleftrightarrow> 1 \<le> length s \<and> length s \<le> 64 \<and> lower_letter (hd s) \<and>
     list_all (\<lambda>c. lower_letter c \<or> digit c \<or> c = CHR ''-'') (tl s)"

definition domain_pattern :: "string \<Rightarrow> bool" where
  "domain_pattern s \<longleftrightarrow> s \<noteq> [] \<and> (lower_letter (hd s) \<or> digit (hd s)) \<and> (lower_letter (last s) \<or> digit (last s)) \<and>
     list_all (\<lambda>c. lower_letter c \<or> digit c \<or> c = CHR ''.'' \<or> c = CHR ''-'') s"

definition role_ok :: "access_role \<Rightarrow> bool" where
  "role_ok r \<longleftrightarrow> role_name_ok (ar_name r) \<and> length (ar_description r) \<le> 256"

definition normal_role :: "access_role \<Rightarrow> access_role" where
  "normal_role r = r\<lparr>ar_permissions := parse_permissions (ar_permissions r)\<rparr>"

fun binding_role :: "access_binding \<Rightarrow> string" where
  "binding_role (SubjectBinding r i s) = r"
| "binding_role (EmailBinding r e) = r"
| "binding_role (DomainBinding r d) = r"

fun binding_ok :: "access_env \<Rightarrow> access_binding \<Rightarrow> bool" where
  "binding_ok env (SubjectBinding r i s) \<longleftrightarrow>
     role_name_ok r \<and> url_valid env i \<and> length i \<le> 2048 \<and> 1 \<le> length s \<and> length s \<le> 512"
| "binding_ok env (EmailBinding r e) \<longleftrightarrow> role_name_ok r \<and> email_valid env e \<and> length e \<le> 320"
| "binding_ok env (DomainBinding r d) \<longleftrightarrow>
     role_name_ok r \<and> 1 \<le> length d \<and> length d \<le> 253 \<and> domain_pattern (to_lower d)"

fun normal_binding :: "access_binding \<Rightarrow> access_binding" where
  "normal_binding (SubjectBinding r i s) = SubjectBinding r i s"
| "normal_binding (EmailBinding r e) = EmailBinding r (to_lower e)"
| "normal_binding (DomainBinding r d) = DomainBinding r (to_lower d)"

definition normal_config :: "access_config \<Rightarrow> access_config" where
  "normal_config c = c\<lparr>ac_roles := map normal_role (ac_roles c), ac_bindings := map normal_binding (ac_bindings c)\<rparr>"

definition role_permissions_of :: "access_config \<Rightarrow> string \<Rightarrow> permission list" where
  "role_permissions_of c n = (case find (\<lambda>r. ar_name r = n) (ac_roles c) of None \<Rightarrow> [] | Some r \<Rightarrow> ar_permissions r)"

definition reachable_roles :: "access_config \<Rightarrow> string list" where
  "reachable_roles c =
     (case ac_defaultRole c of None \<Rightarrow> [] | Some n \<Rightarrow> [n]) @ map binding_role (ac_bindings c)"

text \<open>The checks of \<open>superRefine\<close>.\<close>

definition config_consistent :: "access_config \<Rightarrow> bool" where
  "config_consistent c \<longleftrightarrow>
     distinct (map ar_name (ac_roles c)) \<and>
     (case ac_defaultRole c of None \<Rightarrow> True | Some n \<Rightarrow> n \<in> set (map ar_name (ac_roles c))) \<and>
     list_all (\<lambda>b. binding_role b \<in> set (map ar_name (ac_roles c))) (ac_bindings c) \<and>
     distinct (ac_bindings c) \<and>
     list_ex (\<lambda>n. AccessManage \<in> set (role_permissions_of c n)) (reachable_roles c)"

definition accessControlConfigSchema :: "access_env \<Rightarrow> access_config \<Rightarrow> access_config option" where
  "accessControlConfigSchema env c =
     (if 1 \<le> length (ac_roles c) \<and> length (ac_roles c) \<le> 64 \<and> length (ac_bindings c) \<le> 256 \<and>
         (case ac_defaultRole c of None \<Rightarrow> True | Some n \<Rightarrow> role_name_ok n) \<and>
         list_all role_ok (ac_roles c) \<and> list_all (binding_ok env) (ac_bindings c) \<and>
         config_consistent (normal_config c)
      then Some (normal_config c) else None)"

section \<open>JSON text\<close>

definition hex_digit :: "nat \<Rightarrow> char" where
  "hex_digit n = (if n < 10 then char_of (48 + n) else char_of (87 + n))"

definition json_escape :: "char \<Rightarrow> string" where
  "json_escape c =
     (let n = of_char c; esc = (\<lambda>x. [CHR 0x5C, x]) in
      if n = 34 then esc (CHR 0x22) else if n = 92 then esc (CHR 0x5C)
      else if n = 8 then esc (CHR ''b'') else if n = 12 then esc (CHR ''f'')
      else if n = 10 then esc (CHR ''n'') else if n = 13 then esc (CHR ''r'')
      else if n = 9 then esc (CHR ''t'')
      else if n < 32 then esc (CHR ''u'') @ ''00'' @ [hex_digit (n div 16), hex_digit (n mod 16)]
      else [c])"

definition json_text :: "string \<Rightarrow> string" where
  "json_text s = CHR 0x22 # concat (map json_escape s) @ [CHR 0x22]"

fun with_commas :: "string list \<Rightarrow> string" where
  "with_commas [] = []"
| "with_commas [x] = x"
| "with_commas (x # y # ys) = x @ '','' @ with_commas (y # ys)"

definition json_list :: "string list \<Rightarrow> string" where
  "json_list xs = ''['' @ with_commas xs @ '']''"

definition json_object :: "(string \<times> string) list \<Rightarrow> string" where
  "json_object kvs = ''{'' @ with_commas (map (\<lambda>(k, v). json_text k @ '':'' @ v) kvs) @ ''}''"

fun binding_json :: "access_binding \<Rightarrow> string" where
  "binding_json (SubjectBinding r i s) = json_object
     [(''kind'', json_text ''subject''), (''role'', json_text r), (''issuer'', json_text i), (''subject'', json_text s)]"
| "binding_json (EmailBinding r e) = json_object
     [(''kind'', json_text ''email''), (''role'', json_text r), (''email'', json_text e)]"
| "binding_json (DomainBinding r d) = json_object
     [(''kind'', json_text ''email-domain''), (''role'', json_text r), (''domain'', json_text d)]"

fun permission_name :: "permission \<Rightarrow> string" where
  "permission_name InferenceChat = ''inference:chat''"
| "permission_name InferenceEmbeddings = ''inference:embeddings''"
| "permission_name InferenceDecision = ''inference:decision''"
| "permission_name InferenceImage = ''inference:image''"
| "permission_name InferenceVideo = ''inference:video''"
| "permission_name InferenceSpeech = ''inference:speech''"
| "permission_name InferenceTranscription = ''inference:transcription''"
| "permission_name ModelsRead = ''models:read''"
| "permission_name ModelsManage = ''models:manage''"
| "permission_name ConfigurationRead = ''configuration:read''"
| "permission_name ConfigurationManage = ''configuration:manage''"
| "permission_name KeysRead = ''keys:read''"
| "permission_name KeysManage = ''keys:manage''"
| "permission_name AccessRead = ''access:read''"
| "permission_name AccessManage = ''access:manage''"
| "permission_name SessionsRead = ''sessions:read''"
| "permission_name SessionsRevoke = ''sessions:revoke''"
| "permission_name SystemRead = ''system:read''"
| "permission_name SystemManage = ''system:manage''"

section \<open>Applying a policy\<close>

definition bindingId :: "access_env \<Rightarrow> string list \<Rightarrow> string" where
  "bindingId env parts = sha256 env (json_list (map json_text parts))"

definition role_id_of_name :: "role_row list \<Rightarrow> string \<Rightarrow> string option" where
  "role_id_of_name rows n = map_option role_id (find (\<lambda>r. role_name r = n) rows)"

text \<open>The ids of the policy's roles: the stored id of a role of that name, else a new one.\<close>

definition policy_role_ids :: "(nat \<Rightarrow> string) \<Rightarrow> role_row list \<Rightarrow> access_role list \<Rightarrow> (access_role \<times> string) list" where
  "policy_role_ids uuid rows rs =
     map (\<lambda>(i, r). (r, case role_id_of_name rows (ar_name r) of Some x \<Rightarrow> x | None \<Rightarrow> uuid i))
       (zip [0..<length rs] rs)"

text \<open>Insertion of a role, updating the description of a role of the same name.\<close>

definition upsert_role :: "int \<Rightarrow> access_role \<times> string \<Rightarrow> role_row list \<Rightarrow> access_error + role_row list" where
  "upsert_role now ri rows =
     (case ri of (r, rid) \<Rightarrow>
        if list_ex (\<lambda>x. role_name x = ar_name r) rows
        then Inr (map (\<lambda>x. if role_name x = ar_name r
                        then x\<lparr>role_description := ar_description r, role_updated := now\<rparr> else x) rows)
        else insert_row (\<lambda>x y. role_id x = role_id y) (\<lambda>x. True)
               \<lparr>role_id = rid, role_name = ar_name r, role_description = ar_description r,
                role_created = now, role_updated = now\<rparr> rows)"

fun upsert_roles :: "int \<Rightarrow> (access_role \<times> string) list \<Rightarrow> role_row list \<Rightarrow> access_error + role_row list" where
  "upsert_roles now [] rows = Inr rows"
| "upsert_roles now (ri # ris) rows = bindE (upsert_role now ri rows) (upsert_roles now ris)"

definition insert_permissions :: "(access_role \<times> string) list \<Rightarrow> auth_db \<Rightarrow> access_error + auth_db" where
  "insert_permissions ris d =
     bindE (insert_rows (=) (\<lambda>p. role_exists d (fst p))
              (concat (map (\<lambda>(r, rid). map (Pair rid) (ar_permissions r)) ris)) (role_permissions d))
       (\<lambda>ps. Inr (d\<lparr>role_permissions := ps\<rparr>))"

definition insert_binding :: "access_env \<Rightarrow> (access_role \<times> string) list \<Rightarrow> access_binding \<Rightarrow> auth_db \<Rightarrow> access_error + auth_db" where
  "insert_binding env ris b d =
     (case find (\<lambda>ri. ar_name (fst ri) = binding_role b) ris of
        None \<Rightarrow> Inl InternalError
      | Some (r, rid) \<Rightarrow>
          (case b of
             SubjectBinding n i s \<Rightarrow>
               bindE (insert_row (\<lambda>x y. sb_id x = sb_id y \<or> sb_role x = sb_role y \<and> sb_issuer x = sb_issuer y \<and> sb_subject x = sb_subject y)
                        (\<lambda>x. role_exists d (sb_role x))
                        \<lparr>sb_id = bindingId env [''subject'', rid, i, s], sb_role = rid, sb_issuer = i, sb_subject = s\<rparr>
                        (subject_bindings d))
                 (\<lambda>t. Inr (d\<lparr>subject_bindings := t\<rparr>))
           | EmailBinding n e \<Rightarrow>
               bindE (insert_row (\<lambda>x y. eb_id x = eb_id y \<or> eb_role x = eb_role y \<and> eb_email x = eb_email y)
                        (\<lambda>x. role_exists d (eb_role x))
                        \<lparr>eb_id = bindingId env [''email'', rid, e], eb_role = rid, eb_email = e\<rparr> (email_bindings d))
                 (\<lambda>t. Inr (d\<lparr>email_bindings := t\<rparr>))
           | DomainBinding n m \<Rightarrow>
               bindE (insert_row (\<lambda>x y. dm_id x = dm_id y \<or> dm_role x = dm_role y \<and> dm_domain x = dm_domain y)
                        (\<lambda>x. role_exists d (dm_role x))
                        \<lparr>dm_id = bindingId env [''email-domain'', rid, m], dm_role = rid, dm_domain = m\<rparr> (domain_bindings d))
                 (\<lambda>t. Inr (d\<lparr>domain_bindings := t\<rparr>))))"

fun insert_bindings :: "access_env \<Rightarrow> (access_role \<times> string) list \<Rightarrow> access_binding list \<Rightarrow> auth_db \<Rightarrow> access_error + auth_db" where
  "insert_bindings env ris [] d = Inr d"
| "insert_bindings env ris (b # bs) d = bindE (insert_binding env ris b d) (insert_bindings env ris bs)"

definition assigned_roles :: "auth_db \<Rightarrow> string list \<Rightarrow> role_row list" where
  "assigned_roles d rids = [r. (u, rid) \<leftarrow> user_roles d, rid \<in> set rids, r \<leftarrow> roles_table d, role_id r = rid]"

definition apply_transaction :: "access_env \<Rightarrow> (nat \<Rightarrow> string) \<Rightarrow> int \<Rightarrow> access_config \<Rightarrow> auth_db \<Rightarrow> access_error + auth_db" where
  "apply_transaction env uuid now config d =
     (let ris = policy_role_ids uuid (roles_table d) (ac_roles config);
          removed = map role_id (filter (\<lambda>r. role_name r \<notin> set (map ar_name (ac_roles config))) (roles_table d))
      in bindE (upsert_roles now ris (roles_table d)) (\<lambda>rows.
         let d1 = d\<lparr>roles_table := rows\<rparr> in
         bindE (require (assigned_roles d1 removed = []) (BrowserAccessError PolicyConflict)) (\<lambda>_.
         let d2 = d1\<lparr>subject_bindings := [], email_bindings := [], domain_bindings := [], role_permissions := []\<rparr>;
             d3 = (if ris = [] then d2 else delete_roles (\<lambda>rid. rid \<notin> set (map snd ris)) d2)
         in bindE (insert_permissions ris d3) (\<lambda>d4.
            bindE (insert_bindings env ris (ac_bindings config) d4) (\<lambda>d5.
            Inr (d5\<lparr>settings := Some \<lparr>
              default_role_id = (case ac_defaultRole config of
                  None \<Rightarrow> None
                | Some n \<Rightarrow> map_option snd (find (\<lambda>ri. ar_name (fst ri) = n) ris)),
              settings_updated = now\<rparr>\<rparr>))))))"

definition applyAccessControl ::
  "access_env \<Rightarrow> (nat \<Rightarrow> string) \<Rightarrow> int \<Rightarrow> access_config \<Rightarrow> auth_db \<Rightarrow> access_error + (access_config \<times> auth_db)" where
  "applyAccessControl env uuid now input d =
     (case accessControlConfigSchema env input of
        None \<Rightarrow> Inl SchemaError
      | Some config \<Rightarrow> bindE (apply_transaction env uuid now config d) (\<lambda>d'. Inr (config, d')))"

section \<open>Loading and fingerprinting a policy\<close>

definition name_of_role_id :: "role_row list \<Rightarrow> string \<Rightarrow> string option" where
  "name_of_role_id rows rid = map_option role_name (find (\<lambda>r. role_id r = rid) rows)"

definition stored_bindings :: "auth_db \<Rightarrow> access_binding list" where
  "stored_bindings d =
     (let role = (\<lambda>rid. case name_of_role_id (roles_table d) rid of None \<Rightarrow> [] | Some n \<Rightarrow> n) in
      map (\<lambda>b. SubjectBinding (role (sb_role b)) (sb_issuer b) (sb_subject b)) (subject_bindings d) @
      map (\<lambda>b. EmailBinding (role (eb_role b)) (eb_email b)) (email_bindings d) @
      map (\<lambda>b. DomainBinding (role (dm_role b)) (dm_domain b)) (domain_bindings d))"

definition stored_role :: "auth_db \<Rightarrow> role_row \<Rightarrow> access_role" where
  "stored_role d r =
     \<lparr>ar_name = role_name r, ar_description = role_description r,
      ar_permissions = map snd (filter (\<lambda>p. fst p = role_id r) (role_permissions d))\<rparr>"

definition loadAccessControl :: "access_env \<Rightarrow> auth_db \<Rightarrow> access_error + access_config option" where
  "loadAccessControl env d =
     (case settings d of
        None \<Rightarrow> Inr None
      | Some s \<Rightarrow>
          let roles = sort_by (\<lambda>a b. locale_compare env (role_name a) (role_name b) \<le> 0) (roles_table d);
              bindings = sort_by (\<lambda>a b. locale_compare env (binding_json a) (binding_json b) \<le> 0) (stored_bindings d)
          in (case accessControlConfigSchema env
                \<lparr>ac_roles = map (stored_role d) roles, ac_bindings = bindings,
                 ac_defaultRole = Option.bind (default_role_id s) (name_of_role_id (roles_table d))\<rparr> of
                None \<Rightarrow> Inl SchemaError
              | Some c \<Rightarrow> Inr (Some c)))"

definition role_json :: "access_role \<Rightarrow> string" where
  "role_json r = json_object
     [(''name'', json_text (ar_name r)), (''description'', json_text (ar_description r)),
      (''permissions'', json_list (map json_text (sort (map permission_name (ar_permissions r)))))]"

definition canonical_json :: "access_config \<Rightarrow> string" where
  "canonical_json c = json_object
     [(''roles'', json_list (map role_json (sort_key ar_name (ac_roles c)))),
      (''bindings'', json_list (map binding_json (sort_key binding_json (ac_bindings c)))),
      (''defaultRole'', case ac_defaultRole c of None \<Rightarrow> ''null'' | Some n \<Rightarrow> json_text n)]"

definition accessControlRevision :: "access_env \<Rightarrow> access_config option \<Rightarrow> access_error + string option" where
  "accessControlRevision env policy =
     (case policy of
        None \<Rightarrow> Inr None
      | Some p \<Rightarrow> (case accessControlConfigSchema env p of
            None \<Rightarrow> Inl SchemaError
          | Some parsed \<Rightarrow> Inr (Some (sha256 env (canonical_json parsed)))))"

definition clearAccessControl :: "auth_db \<Rightarrow> access_error + (bool \<times> auth_db)" where
  "clearAccessControl d =
     (if settings d = None then Inr (False, d)
      else bindE (require (\<not> list_ex (\<lambda>u. user_status u \<noteq> Removed) (users_table d)) (BrowserAccessError PolicyConflict))
        (\<lambda>_. Inr (True, delete_roles (\<lambda>rid. True)
            (d\<lparr>subject_bindings := [], email_bindings := [], domain_bindings := [], settings := None\<rparr>))))"

section \<open>Resolving an identity\<close>

record browser_identity =
  bi_issuer :: string
  bi_subject :: string
  bi_email :: "string option"

record access_grant =
  matchedRoles :: "string list"
  grant_permissions :: "permission list"

record stored_identity =
  si_user :: string
  si_status :: user_status
  si_email :: "string option"

definition no_access :: access_grant where
  "no_access = \<lparr>matchedRoles = [], grant_permissions = []\<rparr>"

definition user_email :: "auth_db \<Rightarrow> string \<Rightarrow> string option" where
  "user_email d uid = map_option email_address (find (\<lambda>e. email_user e = uid) (user_emails d))"

text \<open>
  The identity row of an issuer and subject, joined with its user and, when it has one, the
  user's email; the unique index on issuer and subject leaves at most one row.
\<close>

definition select_identity :: "auth_db \<Rightarrow> browser_identity \<Rightarrow> stored_identity option" where
  "select_identity d who =
     Option.bind (find (\<lambda>i. identity_issuer i = bi_issuer who \<and> identity_subject i = bi_subject who) (identities d))
       (\<lambda>i. map_option (\<lambda>u. \<lparr>si_user = user_id u, si_status = user_status u, si_email = user_email d (user_id u)\<rparr>)
              (find_user d (identity_user i)))"

definition truthy_email :: "string option \<Rightarrow> string option" where
  "truthy_email e = (case e of Some (c # cs) \<Rightarrow> Some (c # cs) | _ \<Rightarrow> None)"

text \<open>
  The first login of an invited user: the identity is linked to the user with its verified
  email.  The boolean says that the call returned early without access.
\<close>

definition claim_invitation ::
  "int \<Rightarrow> string \<Rightarrow> browser_identity \<Rightarrow> bool \<Rightarrow> stored_identity option \<Rightarrow> auth_db \<Rightarrow>
     access_error + (bool \<times> stored_identity option \<times> auth_db)" where
  "claim_invitation now uuid who claimManagedUser stored d =
     (case (stored, truthy_email (map_option to_lower (bi_email who))) of
        (None, Some email) \<Rightarrow>
          if \<not> claimManagedUser then Inr (False, stored, d)
          else (case find (\<lambda>e. email_address e = email) (user_emails d) of
              None \<Rightarrow> Inr (False, stored, d)
            | Some invited \<Rightarrow>
                let row = \<lparr>identity_id = uuid, identity_user = email_user invited, identity_issuer = bi_issuer who,
                           identity_subject = bi_subject who, identity_email = Some email,
                           identity_created = now, identity_seen = now\<rparr>;
                    clash = (\<lambda>x y. identity_id x = identity_id y \<or>
                               identity_issuer x = identity_issuer y \<and> identity_subject x = identity_subject y)
                in bindE (if list_ex (clash row) (identities d) then Inr (identities d)
                          else insert_row clash (\<lambda>x. user_exists d (identity_user x)) row (identities d))
                     (\<lambda>is. let d1 = d\<lparr>identities := is\<rparr> in
                        case select_identity d1 who of
                          None \<Rightarrow> Inr (True, None, d1)
                        | Some si \<Rightarrow>
                            if si_user si \<noteq> email_user invited then Inr (True, Some si, d1)
                            else if si_status si = Pending
                            then Inr (False, Some (si\<lparr>si_status := Active\<rparr>), set_status (email_user invited) Active now d1)
                            else Inr (False, Some si, d1)))
      | _ \<Rightarrow> Inr (False, stored, d))"

text \<open>A pending user whose linked identity logs in with the invited email becomes active.\<close>

definition activate_pending ::
  "int \<Rightarrow> browser_identity \<Rightarrow> bool \<Rightarrow> stored_identity option \<Rightarrow> auth_db \<Rightarrow> stored_identity option \<times> auth_db" where
  "activate_pending now who claimManagedUser stored d =
     (case stored of
        None \<Rightarrow> (None, d)
      | Some si \<Rightarrow>
          if si_status si = Pending \<and> claimManagedUser \<and> si_email si \<noteq> None \<and>
             map_option to_lower (bi_email who) = si_email si
          then (Some (si\<lparr>si_status := Active\<rparr>), set_status (si_user si) Active now d)
          else (Some si, d))"

definition email_domain :: "string \<Rightarrow> string" where
  "email_domain e = rev (takeWhile (\<lambda>c. c \<noteq> CHR ''@'') (rev e))"

definition granted_role_ids :: "auth_db \<Rightarrow> settings_row \<Rightarrow> browser_identity \<Rightarrow> stored_identity option \<Rightarrow> string list" where
  "granted_role_ids d s who stored =
     (case default_role_id s of None \<Rightarrow> [] | Some rid \<Rightarrow> [rid]) @
     map sb_role (filter (\<lambda>b. sb_issuer b = bi_issuer who \<and> sb_subject b = bi_subject who) (subject_bindings d)) @
     (case truthy_email (map_option to_lower (bi_email who)) of
        None \<Rightarrow> []
      | Some email \<Rightarrow>
          map eb_role (filter (\<lambda>b. eb_email b = email) (email_bindings d)) @
          (if email_domain email = [] then []
           else map dm_role (filter (\<lambda>b. dm_domain b = email_domain email) (domain_bindings d)))) @
     (case stored of
        None \<Rightarrow> []
      | Some si \<Rightarrow> map snd (filter (\<lambda>p. fst p = si_user si) (user_roles d)))"

definition grant_of_roles :: "auth_db \<Rightarrow> string list \<Rightarrow> access_grant" where
  "grant_of_roles d rids =
     (if rids = [] then no_access
      else \<lparr>matchedRoles = sort (map role_name (filter (\<lambda>r. role_id r \<in> set rids) (roles_table d))),
            grant_permissions = parse_permissions (map snd (filter (\<lambda>p. fst p \<in> set rids) (role_permissions d)))\<rparr>)"

definition resolveAccessControl ::
  "int \<Rightarrow> string \<Rightarrow> browser_identity \<Rightarrow> bool \<Rightarrow> auth_db \<Rightarrow> access_error + (access_grant option \<times> auth_db)" where
  "resolveAccessControl now uuid who claimManagedUser d =
     (case settings d of
        None \<Rightarrow> Inr (None, d)
      | Some s \<Rightarrow>
          bindE (claim_invitation now uuid who claimManagedUser (select_identity d who) d)
            (\<lambda>(refused, stored1, d1).
               if refused then Inr (Some no_access, d1)
               else (case activate_pending now who claimManagedUser stored1 d1 of
                   (stored2, d2) \<Rightarrow>
                     if (case stored2 of None \<Rightarrow> False | Some si \<Rightarrow> si_status si \<noteq> Active)
                     then Inr (Some no_access, d2)
                     else Inr (Some (grant_of_roles d2 (granted_role_ids d2 s who stored2)), d2))))"

section \<open>Lemmas\<close>

subsection \<open>The contract\<close>

lemma parse_permissions_idem [simp]: "parse_permissions (parse_permissions ps) = parse_permissions ps"
  by (rule parse_permissions_set) simp

lemma normal_role_simps [simp]:
  "ar_name (normal_role r) = ar_name r" "ar_description (normal_role r) = ar_description r"
  "ar_permissions (normal_role r) = parse_permissions (ar_permissions r)"
  "normal_role (normal_role r) = normal_role r" "role_ok (normal_role r) = role_ok r"
  by (simp_all add: normal_role_def role_ok_def)

lemma normal_binding_simps [simp]:
  "binding_role (normal_binding b) = binding_role b" "normal_binding (normal_binding b) = normal_binding b"
  by (cases b; simp)+

lemma normal_config_simps [simp]:
  "ac_roles (normal_config c) = map normal_role (ac_roles c)"
  "ac_bindings (normal_config c) = map normal_binding (ac_bindings c)"
  "ac_defaultRole (normal_config c) = ac_defaultRole c"
  by (simp_all add: normal_config_def)

lemma schema_Some:
  "accessControlConfigSchema env c = Some c' \<Longrightarrow>
     c' = normal_config c \<and> config_consistent c' \<and> ac_roles c' \<noteq> [] \<and> list_all role_ok (ac_roles c')"
  by (auto simp: accessControlConfigSchema_def list_all_iff split: if_splits)

subsection \<open>Role rows\<close>

text \<open>A policy role agrees with a row when the row of its name has its id.\<close>

definition ids_agree :: "(access_role \<times> string) list \<Rightarrow> role_row list \<Rightarrow> bool" where
  "ids_agree ris rows \<longleftrightarrow> (\<forall>ri \<in> set ris. \<forall>x \<in> set rows. role_name x = ar_name (fst ri) \<longrightarrow> role_id x = snd ri)"

definition role_stored :: "access_role \<times> string \<Rightarrow> role_row list \<Rightarrow> bool" where
  "role_stored ri rows \<longleftrightarrow>
     (\<exists>x \<in> set rows. role_name x = ar_name (fst ri) \<and> role_description x = ar_description (fst ri) \<and> role_id x = snd ri)"

lemma find_unique:
  assumes "x \<in> set xs" "P x" "\<And>y. y \<in> set xs \<Longrightarrow> P y \<Longrightarrow> y = x"
  shows "find P xs = Some x"
proof (cases "find P xs")
  case None
  then show ?thesis using assms(1,2) by (auto simp: find_None_iff)
next
  case (Some y)
  then show ?thesis using assms(3) find_Some_in [OF Some] by simp
qed

lemma policy_role_ids_fst [simp]: "map fst (policy_role_ids uuid rows rs) = rs"
  by (simp add: policy_role_ids_def case_prod_unfold comp_def)

lemma policy_role_ids_agree:
  assumes "distinct (map role_name rows)"
  shows "ids_agree (policy_role_ids uuid rows rs) rows"
proof -
  have "role_id_of_name rows (role_name x) = Some (role_id x)" if "x \<in> set rows" for x
    unfolding role_id_of_name_def
    using find_unique [of x rows "\<lambda>r. role_name r = role_name x"] assms that
    by (auto simp: distinct_map inj_on_def)
  then have stored: "role_id_of_name rows n = Some (role_id x)" if "x \<in> set rows" "role_name x = n" for x n
    using that by blast
  show ?thesis unfolding ids_agree_def
  proof (intro ballI impI)
    fix ri x assume ri: "ri \<in> set (policy_role_ids uuid rows rs)" and x: "x \<in> set rows" "role_name x = ar_name (fst ri)"
    from ri obtain i r where "ri = (r, case role_id_of_name rows (ar_name r) of Some x \<Rightarrow> x | None \<Rightarrow> uuid i)"
      by (auto simp: policy_role_ids_def)
    with stored [OF x] show "role_id x = snd ri" by simp
  qed
qed

lemma upsert_role_effect:
  assumes u: "upsert_role now (r, rid) rows = Inr rows'" and agree: "ids_agree ((r, rid) # ris) rows"
    and names: "distinct (map role_name rows)" and ids: "distinct (map role_id rows)"
    and new: "ar_name r \<notin> (ar_name \<circ> fst) ` set ris"
  shows "distinct (map role_name rows')" "distinct (map role_id rows')" "ids_agree ris rows'"
    "role_stored (r, rid) rows'" "\<And>x. role_name x \<noteq> ar_name r \<Longrightarrow> x \<in> set rows' \<longleftrightarrow> x \<in> set rows"
proof -
  let ?upd = "\<lambda>x. if role_name x = ar_name r then x\<lparr>role_description := ar_description r, role_updated := now\<rparr> else x"
  have "distinct (map role_name rows') \<and> distinct (map role_id rows') \<and> ids_agree ris rows' \<and>
    role_stored (r, rid) rows' \<and> (\<forall>x. role_name x \<noteq> ar_name r \<longrightarrow> (x \<in> set rows' \<longleftrightarrow> x \<in> set rows))"
  proof (cases "\<exists>x \<in> set rows. role_name x = ar_name r")
    case True
    then have rows': "rows' = map ?upd rows" using u by (auto simp: upsert_role_def list_ex_iff)
    have keep: "map role_name rows' = map role_name rows" "map role_id rows' = map role_id rows"
      by (auto simp: rows' intro: list.map_cong)
    from True obtain x where x: "x \<in> set rows" "role_name x = ar_name r" by blast
    then have "?upd x \<in> set rows'" "role_id x = rid" using agree by (auto simp: rows' ids_agree_def)
    then have st: "role_stored (r, rid) rows'" using x unfolding role_stored_def by (intro bexI [of _ "?upd x"]) simp_all
    have ag: "ids_agree ris rows'" using agree by (auto simp: ids_agree_def rows')
    have "x \<in> set rows' \<longleftrightarrow> x \<in> set rows" if "role_name x \<noteq> ar_name r" for x
    proof
      assume "x \<in> set rows'"
      then obtain y where "y \<in> set rows" "x = ?upd y" by (auto simp: rows')
      then show "x \<in> set rows" using that by (cases "role_name y = ar_name r") simp_all
    next
      assume "x \<in> set rows"
      then have "?upd x \<in> set rows'" unfolding rows' set_map by (rule imageI)
      then show "x \<in> set rows'" using that by simp
    qed
    with st ag names ids show ?thesis by (simp add: keep)
  next
    case False
    then have "rows' = rows @ [\<lparr>role_id = rid, role_name = ar_name r, role_description = ar_description r,
        role_created = now, role_updated = now\<rparr>]" and "\<forall>x \<in> set rows. rid \<noteq> role_id x"
      using u by (auto simp: upsert_role_def list_ex_iff insert_row_Inr)
    then show ?thesis using False names ids agree new by (auto simp: role_stored_def ids_agree_def image_iff)
  qed
  then show "distinct (map role_name rows')" "distinct (map role_id rows')" "ids_agree ris rows'"
    "role_stored (r, rid) rows'" "\<And>x. role_name x \<noteq> ar_name r \<Longrightarrow> x \<in> set rows' \<longleftrightarrow> x \<in> set rows" by blast+
qed

lemma upsert_roles_effect:
  assumes "upsert_roles now ris rows = Inr rows'" "ids_agree ris rows"
    "distinct (map role_name rows)" "distinct (map role_id rows)" "distinct (map (ar_name \<circ> fst) ris)"
  shows "distinct (map role_name rows') \<and> distinct (map role_id rows') \<and> (\<forall>ri \<in> set ris. role_stored ri rows') \<and>
    (\<forall>x. role_name x \<notin> (ar_name \<circ> fst) ` set ris \<longrightarrow> (x \<in> set rows' \<longleftrightarrow> x \<in> set rows))"
  using assms
proof (induction ris arbitrary: rows)
  case (Cons ri ris)
  obtain r rid where ri: "ri = (r, rid)" by (cases ri)
  from Cons.prems(1) obtain rows1 where u: "upsert_role now (r, rid) rows = Inr rows1"
      and us: "upsert_roles now ris rows1 = Inr rows'" by (auto simp: bindE_Inr ri)
  have new: "ar_name r \<notin> (ar_name \<circ> fst) ` set ris" and dist: "distinct (map (ar_name \<circ> fst) ris)"
    using Cons.prems(5) by (simp_all add: ri comp_def)
  note e = upsert_role_effect [OF u Cons.prems(2) [unfolded ri] Cons.prems(3,4) new]
  note ih = Cons.IH [OF us e(3) e(1) e(2) dist]
  from e(4) ih new have "role_stored (r, rid) rows'" by (auto simp: role_stored_def)
  with ih e(5) show ?case by (auto simp: ri)
qed simp

subsection \<open>What a policy writes\<close>

definition rid_of :: "(access_role \<times> string) list \<Rightarrow> string \<Rightarrow> string" where
  "rid_of ris n = the (map_option snd (find (\<lambda>ri. ar_name (fst ri) = n) ris))"

definition subject_rows :: "access_env \<Rightarrow> (access_role \<times> string) list \<Rightarrow> access_binding list \<Rightarrow> subject_binding_row list" where
  "subject_rows env ris bs = concat (map (\<lambda>b. case b of
      SubjectBinding n i s \<Rightarrow> [\<lparr>sb_id = bindingId env [''subject'', rid_of ris n, i, s], sb_role = rid_of ris n, sb_issuer = i, sb_subject = s\<rparr>]
    | _ \<Rightarrow> []) bs)"

definition email_rows :: "access_env \<Rightarrow> (access_role \<times> string) list \<Rightarrow> access_binding list \<Rightarrow> email_binding_row list" where
  "email_rows env ris bs = concat (map (\<lambda>b. case b of
      EmailBinding n e \<Rightarrow> [\<lparr>eb_id = bindingId env [''email'', rid_of ris n, e], eb_role = rid_of ris n, eb_email = e\<rparr>]
    | _ \<Rightarrow> []) bs)"

definition domain_rows :: "access_env \<Rightarrow> (access_role \<times> string) list \<Rightarrow> access_binding list \<Rightarrow> domain_binding_row list" where
  "domain_rows env ris bs = concat (map (\<lambda>b. case b of
      DomainBinding n m \<Rightarrow> [\<lparr>dm_id = bindingId env [''email-domain'', rid_of ris n, m], dm_role = rid_of ris n, dm_domain = m\<rparr>]
    | _ \<Rightarrow> []) bs)"

lemma insert_binding_effect:
  "insert_binding env ris b d = Inr d' \<Longrightarrow>
     d' = d\<lparr>subject_bindings := subject_bindings d @ subject_rows env ris [b],
            email_bindings := email_bindings d @ email_rows env ris [b],
            domain_bindings := domain_bindings d @ domain_rows env ris [b]\<rparr>"
  by (cases b)
    (auto simp: insert_binding_def bindE_Inr insert_row_Inr rid_of_def subject_rows_def email_rows_def domain_rows_def
      split: option.splits)

lemma insert_bindings_effect:
  "insert_bindings env ris bs d = Inr d' \<Longrightarrow>
     d' = d\<lparr>subject_bindings := subject_bindings d @ subject_rows env ris bs,
            email_bindings := email_bindings d @ email_rows env ris bs,
            domain_bindings := domain_bindings d @ domain_rows env ris bs\<rparr>"
proof (induction bs arbitrary: d)
  case Nil
  then show ?case by (simp add: subject_rows_def email_rows_def domain_rows_def)
next
  case (Cons b bs)
  then obtain d1 where "insert_binding env ris b d = Inr d1" "insert_bindings env ris bs d1 = Inr d'"
    by (auto simp: bindE_Inr)
  with Cons.IH insert_binding_effect show ?case
    by (fastforce simp: subject_rows_def email_rows_def domain_rows_def)
qed

definition permission_rows :: "(access_role \<times> string) list \<Rightarrow> (string \<times> permission) list" where
  "permission_rows ris = concat (map (\<lambda>(r, rid). map (Pair rid) (ar_permissions r)) ris)"

text \<open>The database a successful application leaves.\<close>

lemma apply_transaction_effect:
  assumes "apply_transaction env uuid now c d = Inr d'" "ac_roles c \<noteq> []"
  defines "ris \<equiv> policy_role_ids uuid (roles_table d) (ac_roles c)"
  obtains rows where
    "upsert_roles now ris (roles_table d) = Inr rows"
    "\<And>p r. p \<in> set (user_roles d) \<Longrightarrow> r \<in> set rows \<Longrightarrow> role_id r = snd p \<Longrightarrow>
        snd p \<notin> role_id ` {x \<in> set (roles_table d). role_name x \<notin> ar_name ` set (ac_roles c)}"
    "\<And>p. p \<in> set (permission_rows ris) \<Longrightarrow> fst p \<in> role_id ` {r \<in> set rows. role_id r \<in> snd ` set ris}"
    "d' = d\<lparr>roles_table := filter (\<lambda>r. role_id r \<in> snd ` set ris) rows,
            role_permissions := permission_rows ris,
            user_roles := filter (\<lambda>p. snd p \<in> snd ` set ris) (user_roles d),
            subject_bindings := subject_rows env ris (ac_bindings c),
            email_bindings := email_rows env ris (ac_bindings c),
            domain_bindings := domain_rows env ris (ac_bindings c),
            settings := Some \<lparr>default_role_id = (case ac_defaultRole c of
                  None \<Rightarrow> None | Some n \<Rightarrow> map_option snd (find (\<lambda>ri. ar_name (fst ri) = n) ris)),
                settings_updated = now\<rparr>\<rparr>"
proof -
  have ne: "ris \<noteq> []" using assms(2) policy_role_ids_fst [of uuid "roles_table d" "ac_roles c"]
    unfolding ris_def by (metis list.simps(8))
  let ?removed = "map role_id (filter (\<lambda>r. role_name r \<notin> set (map ar_name (ac_roles c))) (roles_table d))"
  from assms(1) obtain rows d4 d5 where rows: "upsert_roles now ris (roles_table d) = Inr rows"
      and unassigned: "assigned_roles (d\<lparr>roles_table := rows\<rparr>) ?removed = []"
      and d4: "insert_permissions ris (delete_roles (\<lambda>rid. rid \<notin> set (map snd ris))
           (d\<lparr>roles_table := rows, subject_bindings := [], email_bindings := [], domain_bindings := [], role_permissions := []\<rparr>)) = Inr d4"
      and d5: "insert_bindings env ris (ac_bindings c) d4 = Inr d5"
      and d': "d' = d5\<lparr>settings := Some \<lparr>default_role_id = (case ac_defaultRole c of
                  None \<Rightarrow> None | Some n \<Rightarrow> map_option snd (find (\<lambda>ri. ar_name (fst ri) = n) ris)), settings_updated = now\<rparr>\<rparr>"
    unfolding apply_transaction_def by (auto simp: bindE_Inr Let_def ne ris_def [symmetric])
  have p: "snd p \<notin> role_id ` {x \<in> set (roles_table d). role_name x \<notin> ar_name ` set (ac_roles c)}"
    if "p \<in> set (user_roles d)" "r \<in> set rows" "role_id r = snd p" for p r
  proof
    assume "snd p \<in> role_id ` {x \<in> set (roles_table d). role_name x \<notin> ar_name ` set (ac_roles c)}"
    then have "snd p \<in> set ?removed" by auto
    with that have "r \<in> set (assigned_roles (d\<lparr>roles_table := rows\<rparr>) ?removed)"
      unfolding assigned_roles_def by (force simp: case_prod_unfold)
    with unassigned show False by simp
  qed
  let ?d3 = "delete_roles (\<lambda>rid. rid \<notin> set (map snd ris))
           (d\<lparr>roles_table := rows, subject_bindings := [], email_bindings := [], domain_bindings := [], role_permissions := []\<rparr>)"
  have roles3: "roles_table ?d3 = filter (\<lambda>r. role_id r \<in> snd ` set ris) rows" by (simp add: delete_roles_def)
  from d4 obtain ps where ps: "insert_rows (=) (\<lambda>p. role_exists ?d3 (fst p)) (permission_rows ris) [] = Inr ps"
      and d4_eq: "d4 = ?d3\<lparr>role_permissions := ps\<rparr>"
    by (auto simp: insert_permissions_def bindE_Inr permission_rows_def delete_roles_def)
  from insert_rows_append [OF ps] have ps_eq: "ps = permission_rows ris"
    and refs: "\<And>p. p \<in> set (permission_rows ris) \<Longrightarrow> role_exists ?d3 (fst p)" by simp_all
  have perms: "fst p \<in> role_id ` {r \<in> set rows. role_id r \<in> snd ` set ris}" if "p \<in> set (permission_rows ris)" for p
    using refs [OF that] unfolding role_exists_iff roles3 by auto
  obtain st where d4': "d4 = d\<lparr>roles_table := filter (\<lambda>r. role_id r \<in> snd ` set ris) rows, role_permissions := permission_rows ris,
            user_roles := filter (\<lambda>p. snd p \<in> snd ` set ris) (user_roles d),
            subject_bindings := [], email_bindings := [], domain_bindings := [], settings := st\<rparr>"
    by (rule that [of "settings ?d3"]) (simp add: d4_eq ps_eq delete_roles_def)
  from insert_bindings_effect [OF d5]
  have "d' = d4\<lparr>subject_bindings := subject_bindings d4 @ subject_rows env ris (ac_bindings c),
            email_bindings := email_bindings d4 @ email_rows env ris (ac_bindings c),
            domain_bindings := domain_bindings d4 @ domain_rows env ris (ac_bindings c),
            settings := Some \<lparr>default_role_id = (case ac_defaultRole c of
                  None \<Rightarrow> None | Some n \<Rightarrow> map_option snd (find (\<lambda>ri. ar_name (fst ri) = n) ris)), settings_updated = now\<rparr>\<rparr>"
    by (simp add: d')
  then have "d' = d\<lparr>roles_table := filter (\<lambda>r. role_id r \<in> snd ` set ris) rows,
            role_permissions := permission_rows ris,
            user_roles := filter (\<lambda>p. snd p \<in> snd ` set ris) (user_roles d),
            subject_bindings := subject_rows env ris (ac_bindings c),
            email_bindings := email_rows env ris (ac_bindings c),
            domain_bindings := domain_rows env ris (ac_bindings c),
            settings := Some \<lparr>default_role_id = (case ac_defaultRole c of
                  None \<Rightarrow> None | Some n \<Rightarrow> map_option snd (find (\<lambda>ri. ar_name (fst ri) = n) ris)),
                settings_updated = now\<rparr>\<rparr>"
    by (simp add: d4')
  with that rows p perms show ?thesis by blast
qed

subsection \<open>Reading an applied policy back\<close>

definition row_key :: "role_row \<Rightarrow> string \<times> string \<times> string" where
  "row_key x = (role_name x, role_description x, role_id x)"

definition policy_key :: "access_role \<times> string \<Rightarrow> string \<times> string \<times> string" where
  "policy_key ri = (ar_name (fst ri), ar_description (fst ri), snd ri)"

lemma role_stored_key: "role_stored ri rows \<longleftrightarrow> policy_key ri \<in> row_key ` set rows"
  unfolding role_stored_def policy_key_def row_key_def image_iff prod.inject by metis

lemma policy_ids_distinct:
  assumes "\<forall>ri \<in> set ris. role_stored ri rows" "distinct (map role_id rows)" "distinct (map (ar_name \<circ> fst) ris)"
  shows "distinct (map snd ris)"
proof -
  have "distinct ris" using assms(3) by (simp add: distinct_map)
  moreover have "ri = rj" if "ri \<in> set ris" "rj \<in> set ris" "snd ri = snd rj" for ri rj
  proof -
    from assms(1) that obtain x y where "x \<in> set rows" "role_name x = ar_name (fst ri)" "role_id x = snd ri"
      "y \<in> set rows" "role_name y = ar_name (fst rj)" "role_id y = snd rj" unfolding role_stored_def by blast
    moreover have "x = y" using calculation that(3) assms(2) by (auto simp: distinct_map inj_on_def)
    ultimately have "(ar_name \<circ> fst) ri = (ar_name \<circ> fst) rj" by simp
    then show "ri = rj" using that(1,2) assms(3) by (auto simp: distinct_map inj_on_def)
  qed
  ultimately show ?thesis by (auto simp: distinct_map inj_on_def)
qed

lemma applied_rows:
  assumes stored: "\<forall>ri \<in> set ris. role_stored ri rows" and ids: "distinct (map role_id rows)"
    and names: "distinct (map (ar_name \<circ> fst) ris)"
  defines "R \<equiv> filter (\<lambda>r. role_id r \<in> snd ` set ris) rows"
  shows "mset (map row_key R) = mset (map policy_key ris)"
proof -
  have dR: "distinct (map row_key R)"
    using ids by (auto simp: R_def distinct_map inj_on_def row_key_def)
  have dP: "distinct (map policy_key ris)"
    using names by (auto simp: distinct_map inj_on_def policy_key_def)
  have "row_key ` set R = policy_key ` set ris"
  proof (intro equalityI subsetI)
    fix k assume "k \<in> row_key ` set R"
    then obtain x ri where x: "k = row_key x" "x \<in> set rows" "ri \<in> set ris" "role_id x = snd ri" by (auto simp: R_def)
    from stored x(3) obtain y where y: "y \<in> set rows" "row_key y = policy_key ri" by (auto simp: role_stored_key)
    with x have "x = y" using ids by (auto simp: distinct_map inj_on_def row_key_def policy_key_def)
    with x y show "k \<in> policy_key ` set ris" by auto
  next
    fix k assume "k \<in> policy_key ` set ris"
    then obtain ri where ri: "ri \<in> set ris" "k = policy_key ri" by auto
    with stored obtain y where y: "y \<in> set rows" "row_key y = policy_key ri" by (auto simp: role_stored_key)
    then have "role_id y = snd ri" by (simp add: row_key_def policy_key_def)
    with ri y show "k \<in> row_key ` set R" by (force simp: R_def)
  qed
  with dR dP show ?thesis by (metis list.set_map set_eq_iff_mset_eq_distinct)
qed

lemma permission_rows_of:
  assumes "distinct (map snd ris)" "(r, rid) \<in> set ris"
  shows "map snd (filter (\<lambda>p. fst p = rid) (permission_rows ris)) = ar_permissions r"
proof -
  have none: "filter (\<lambda>p. fst p = rid) (permission_rows ris) = []" if "rid \<notin> snd ` set ris" for ris
    using that by (force simp: permission_rows_def filter_empty_conv)
  have own: "map snd (filter (\<lambda>p. fst p = rid) (map (Pair rid) ps)) = ps" for ps :: "permission list"
    by (induction ps) simp_all
  have other: "x \<noteq> rid \<Longrightarrow> filter (\<lambda>p. fst p = rid) (map (Pair x) ps) = []" for x and ps :: "permission list"
    by (auto simp: filter_empty_conv)
  show ?thesis using assms
  proof (induction ris)
    case (Cons ri ris)
    obtain r1 rid1 where ri: "ri = (r1, rid1)" by (cases ri)
    have split: "permission_rows (ri # ris) = map (Pair rid1) (ar_permissions r1) @ permission_rows ris"
      by (simp add: permission_rows_def ri)
    show ?case
    proof (cases "rid1 = rid")
      case True
      then have nin: "rid \<notin> snd ` set ris" using Cons.prems by (simp add: ri)
      then have "(r, rid) \<notin> set ris" by force
      then show ?thesis using True Cons.prems none [OF nin] by (auto simp: split [unfolded ri True] own comp_def ri)
    next
      case False
      then show ?thesis using Cons by (simp add: split [unfolded ri] other ri)
    qed
  qed simp
qed

definition stored_of :: "(access_role \<times> string) list \<Rightarrow> string \<times> string \<times> string \<Rightarrow> access_role" where
  "stored_of ris k = (case k of (n, ds, rid) \<Rightarrow>
     \<lparr>ar_name = n, ar_description = ds, ar_permissions = map snd (filter (\<lambda>p. fst p = rid) (permission_rows ris))\<rparr>)"

lemma stored_of_policy: "distinct (map snd ris) \<Longrightarrow> ri \<in> set ris \<Longrightarrow> stored_of ris (policy_key ri) = fst ri"
  by (cases ri) (simp add: stored_of_def policy_key_def permission_rows_of)

lemma stored_roles_of_policy:
  assumes "mset (map row_key R) = mset (map policy_key ris)" "distinct (map snd ris)"
    "\<And>x. x \<in> set R \<Longrightarrow> stored_role d x = stored_of ris (row_key x)"
  shows "mset (map (stored_role d) R) = mset (map fst ris)"
proof -
  have "mset (map (stored_role d) R) = image_mset (stored_of ris) (mset (map row_key R))"
    using assms(3) by (auto simp: multiset.map_comp comp_def intro!: image_mset_cong)
  also have "\<dots> = image_mset (\<lambda>ri. stored_of ris (policy_key ri)) (mset ris)"
    by (simp only: assms(1)) (simp add: multiset.map_comp comp_def)
  also have "\<dots> = image_mset fst (mset ris)"
    by (rule image_mset_cong) (simp add: stored_of_policy assms(2))
  finally show ?thesis by simp
qed

lemma policy_name_of_id:
  assumes "mset (map row_key R) = mset (map policy_key ris)" "distinct (map role_id R)" "ri \<in> set ris"
  shows "name_of_role_id R (snd ri) = Some (ar_name (fst ri))"
proof -
  have "policy_key ri \<in> row_key ` set R"
    using assms(3) mset_eq_setD [OF assms(1)] by auto
  then obtain x where x: "x \<in> set R" "role_name x = ar_name (fst ri)" "role_id x = snd ri"
    by (auto simp: row_key_def policy_key_def)
  then have "find (\<lambda>r. role_id r = snd ri) R = Some x"
    using assms(2) by (intro find_unique) (auto simp: distinct_map inj_on_def)
  with x show ?thesis by (simp add: name_of_role_id_def)
qed

lemma rid_of_policy: "n \<in> (ar_name \<circ> fst) ` set ris \<Longrightarrow> \<exists>ri \<in> set ris. ar_name (fst ri) = n \<and> rid_of ris n = snd ri \<and>
    find (\<lambda>ri. ar_name (fst ri) = n) ris = Some ri"
  by (induction ris) (auto simp: rid_of_def)

lemma mset_bindings_by_kind:
  "mset (concat (map (\<lambda>b. case b of SubjectBinding n i s \<Rightarrow> [b] | _ \<Rightarrow> []) bs)) +
   mset (concat (map (\<lambda>b. case b of EmailBinding n e \<Rightarrow> [b] | _ \<Rightarrow> []) bs)) +
   mset (concat (map (\<lambda>b. case b of DomainBinding n m \<Rightarrow> [b] | _ \<Rightarrow> []) bs)) = mset bs"
proof (induction bs)
  case (Cons b bs)
  then show ?case by (cases b) simp_all
qed simp

lemma stored_bindings_of_policy:
  assumes "\<And>n. n \<in> binding_role ` set bs \<Longrightarrow> name_of_role_id (roles_table d) (rid_of ris n) = Some n"
    "subject_bindings d = subject_rows env ris bs" "email_bindings d = email_rows env ris bs"
    "domain_bindings d = domain_rows env ris bs"
  shows "mset (stored_bindings d) = mset bs"
proof -
  let ?role = "\<lambda>rid. case name_of_role_id (roles_table d) rid of None \<Rightarrow> [] | Some n \<Rightarrow> n"
  have role: "n \<in> binding_role ` set bs \<Longrightarrow> ?role (rid_of ris n) = n" for n using assms(1) by simp
  have s: "map (\<lambda>b. SubjectBinding (?role (sb_role b)) (sb_issuer b) (sb_subject b)) (subject_rows env ris bs) =
      concat (map (\<lambda>b. case b of SubjectBinding n i s \<Rightarrow> [b] | _ \<Rightarrow> []) bs)"
    using role unfolding subject_rows_def by (induction bs) (auto split: access_binding.splits)
  have e: "map (\<lambda>b. EmailBinding (?role (eb_role b)) (eb_email b)) (email_rows env ris bs) =
      concat (map (\<lambda>b. case b of EmailBinding n e \<Rightarrow> [b] | _ \<Rightarrow> []) bs)"
    using role unfolding email_rows_def by (induction bs) (auto split: access_binding.splits)
  have m: "map (\<lambda>b. DomainBinding (?role (dm_role b)) (dm_domain b)) (domain_rows env ris bs) =
      concat (map (\<lambda>b. case b of DomainBinding n m \<Rightarrow> [b] | _ \<Rightarrow> []) bs)"
    using role unfolding domain_rows_def by (induction bs) (auto split: access_binding.splits)
  show ?thesis
    unfolding stored_bindings_def Let_def assms(2-4) s e m
    using mset_bindings_by_kind [of bs] by (simp add: add.assoc)
qed

subsection \<open>Policies that differ in order only\<close>

definition same_policy :: "access_config \<Rightarrow> access_config \<Rightarrow> bool" where
  "same_policy a b \<longleftrightarrow> mset (ac_roles a) = mset (ac_roles b) \<and> mset (ac_bindings a) = mset (ac_bindings b) \<and>
     ac_defaultRole a = ac_defaultRole b"

lemma role_permissions_of_distinct:
  assumes "distinct (map ar_name (ac_roles c))"
  shows "p \<in> set (role_permissions_of c n) \<longleftrightarrow> (\<exists>r \<in> set (ac_roles c). ar_name r = n \<and> p \<in> set (ar_permissions r))"
proof (cases "find (\<lambda>r. ar_name r = n) (ac_roles c)")
  case None
  then have "role_permissions_of c n = []" by (simp add: role_permissions_of_def)
  moreover from None have "\<forall>r \<in> set (ac_roles c). ar_name r \<noteq> n" by (auto simp: find_None_iff)
  ultimately show ?thesis by auto
next
  case (Some r)
  have "r' = r" if "r' \<in> set (ac_roles c)" "ar_name r' = n" for r'
    using find_Some_in [OF Some] that assms by (auto simp: distinct_map inj_on_def)
  then show ?thesis using find_Some_in [OF Some] by (auto simp: role_permissions_of_def Some)
qed

lemma mset_distinct: "mset xs = mset ys \<Longrightarrow> distinct (map f xs) \<longleftrightarrow> distinct (map f ys)"
  by (rule mset_eq_imp_distinct_iff) simp

lemma same_policy_consistent:
  assumes "same_policy a b" "config_consistent a"
  shows "config_consistent b"
proof -
  have m: "mset (ac_roles a) = mset (ac_roles b)" "mset (ac_bindings a) = mset (ac_bindings b)"
    and d: "ac_defaultRole a = ac_defaultRole b" using assms(1) by (simp_all add: same_policy_def)
  have s: "set (ac_roles a) = set (ac_roles b)" "set (ac_bindings a) = set (ac_bindings b)"
    by (rule mset_eq_setD [OF m(1)], rule mset_eq_setD [OF m(2)])
  have dist: "distinct (map ar_name (ac_roles b))" "distinct (map ar_name (ac_roles a))"
    using assms(2) mset_distinct [OF m(1), of ar_name] by (simp_all add: config_consistent_def)
  have "set (reachable_roles a) = set (reachable_roles b)" by (simp add: reachable_roles_def s d)
  moreover have "p \<in> set (role_permissions_of a n) \<longleftrightarrow> p \<in> set (role_permissions_of b n)" for p n
    by (simp add: role_permissions_of_distinct dist s)
  moreover have "distinct (ac_bindings b)" using assms(2) m(2) by (auto simp: config_consistent_def dest: mset_eq_imp_distinct_iff)
  ultimately show ?thesis using assms(2) dist by (auto simp: config_consistent_def list_ex_iff list_all_iff s d split: option.splits)
qed

lemma same_policy_schema:
  assumes "same_policy a b" "accessControlConfigSchema env a = Some a'"
  shows "accessControlConfigSchema env b = Some (normal_config b)" "same_policy a' (normal_config b)"
proof -
  have a': "a' = normal_config a" using assms(2) by (simp add: schema_Some)
  have s: "set (ac_roles a) = set (ac_roles b)" "set (ac_bindings a) = set (ac_bindings b)"
    "length (ac_roles a) = length (ac_roles b)" "length (ac_bindings a) = length (ac_bindings b)"
    "ac_defaultRole a = ac_defaultRole b"
    using assms(1) unfolding same_policy_def by (auto dest: mset_eq_setD mset_eq_length)
  show same: "same_policy a' (normal_config b)" using assms(1) by (simp add: same_policy_def a')
  then have "config_consistent (normal_config b)"
    using assms(2) by (auto simp: schema_Some intro: same_policy_consistent)
  then show "accessControlConfigSchema env b = Some (normal_config b)"
    using assms(2) by (auto simp: accessControlConfigSchema_def list_all_iff s split: if_splits)
qed

lemma same_policy_json:
  assumes "same_policy a b" "config_consistent a"
  shows "canonical_json a = canonical_json b"
proof -
  have "inj_on ar_name (set (ac_roles a))" using assms(2) by (simp add: config_consistent_def distinct_map)
  then have roles: "sort_key ar_name (ac_roles a) = sort_key ar_name (ac_roles b)"
    using assms(1) mset_eq_setD [of "ac_roles a" "ac_roles b"]
    by (intro sort_key_inj_key_eq) (simp_all add: same_policy_def)
  have sorted_json: "map binding_json (sort_key binding_json bs) = sort (map binding_json bs)" for bs
    by (rule properties_for_sort [symmetric]) simp_all
  have "sort (map binding_json (ac_bindings a)) = sort (map binding_json (ac_bindings b))"
    using assms(1) by (intro properties_for_sort) (simp_all add: same_policy_def)
  with roles assms(1) show ?thesis by (simp add: canonical_json_def sorted_json same_policy_def)
qed

lemma schema_idem:
  assumes "accessControlConfigSchema env c = Some c'" "\<And>e. email_valid env e \<Longrightarrow> email_valid env (to_lower e)"
  shows "accessControlConfigSchema env c' = Some c'"
proof -
  have c': "c' = normal_config c" using assms(1) by (simp add: schema_Some)
  have same: "normal_config (normal_config c) = normal_config c"
    by (simp add: normal_config_def comp_def)
  have "binding_ok env b \<Longrightarrow> binding_ok env (normal_binding b)" for b using assms(2) by (cases b) simp_all
  then show ?thesis using assms(1)
    by (auto simp: c' accessControlConfigSchema_def list_all_iff same split: if_splits)
qed

subsection \<open>Round trip\<close>

lemma mset_sort_by [simp]: "mset (sort_by le xs) = mset xs"
proof -
  have "mset (insort_by le x ys) = add_mset x (mset ys)" for x ys by (induction ys) auto
  then show ?thesis unfolding sort_by_def by (induction xs) auto
qed

lemma applied_state:
  assumes c: "config_consistent c" "ac_roles c \<noteq> []"
    and db: "distinct (map role_name (roles_table d))" "distinct (map role_id (roles_table d))"
    and app: "apply_transaction env uuid now c d = Inr d'"
  obtains ris R where
    "map fst ris = ac_roles c" "distinct (map (ar_name \<circ> fst) ris)" "distinct (map snd ris)"
    "distinct (map role_id R)" "distinct (map role_name R)" "mset (map row_key R) = mset (map policy_key ris)"
    "d' = d\<lparr>roles_table := R, role_permissions := permission_rows ris,
            user_roles := filter (\<lambda>p. snd p \<in> snd ` set ris) (user_roles d),
            subject_bindings := subject_rows env ris (ac_bindings c),
            email_bindings := email_rows env ris (ac_bindings c),
            domain_bindings := domain_rows env ris (ac_bindings c),
            settings := Some \<lparr>default_role_id = map_option (rid_of ris) (ac_defaultRole c), settings_updated = now\<rparr>\<rparr>"
proof -
  define ris where "ris = policy_role_ids uuid (roles_table d) (ac_roles c)"
  obtain rows where
      rows: "upsert_roles now ris (roles_table d) = Inr rows" and
      d': "d' = d\<lparr>roles_table := filter (\<lambda>r. role_id r \<in> snd ` set ris) rows,
            role_permissions := permission_rows ris,
            user_roles := filter (\<lambda>p. snd p \<in> snd ` set ris) (user_roles d),
            subject_bindings := subject_rows env ris (ac_bindings c),
            email_bindings := email_rows env ris (ac_bindings c),
            domain_bindings := domain_rows env ris (ac_bindings c),
            settings := Some \<lparr>default_role_id = (case ac_defaultRole c of
                  None \<Rightarrow> None | Some n \<Rightarrow> map_option snd (find (\<lambda>ri. ar_name (fst ri) = n) ris)),
                settings_updated = now\<rparr>\<rparr>"
    by (rule apply_transaction_effect [OF app c(2), folded ris_def]) (erule (1) that)
  have fst_ris: "map fst ris = ac_roles c" by (simp add: ris_def)
  have names_ris: "map (ar_name \<circ> fst) ris = map ar_name (ac_roles c)" by (simp add: fst_ris [symmetric])
  have dn: "distinct (map (ar_name \<circ> fst) ris)" using c(1) by (simp add: names_ris config_consistent_def)
  have agree: "ids_agree ris (roles_table d)" unfolding ris_def by (rule policy_role_ids_agree [OF db(1)])
  note e = upsert_roles_effect [OF rows agree db dn]
  let ?R = "filter (\<lambda>r. role_id r \<in> snd ` set ris) rows"
  have stored: "\<forall>ri \<in> set ris. role_stored ri rows" and ids: "distinct (map role_id rows)"
    and nms: "distinct (map role_name rows)" using e by blast+
  have "(case ac_defaultRole c of None \<Rightarrow> None | Some n \<Rightarrow> map_option snd (find (\<lambda>ri. ar_name (fst ri) = n) ris)) =
      map_option (rid_of ris) (ac_defaultRole c)"
  proof (cases "ac_defaultRole c")
    case (Some n)
    then have "n \<in> set (map ar_name (ac_roles c))" using c(1) by (simp add: config_consistent_def)
    then have "n \<in> (ar_name \<circ> fst) ` set ris" using names_ris by (metis list.set_map)
    from rid_of_policy [OF this] show ?thesis by (auto simp: Some)
  qed simp
  with d' show ?thesis
    using that [OF fst_ris dn policy_ids_distinct [OF stored ids dn] distinct_map_filter [OF ids] distinct_map_filter [OF nms]
        applied_rows [OF stored ids dn]] by simp
qed

lemma policy_name_found:
  assumes "map fst ris = ac_roles c" "n \<in> set (map ar_name (ac_roles c))"
    "mset (map row_key R) = mset (map policy_key ris)" "distinct (map role_id R)"
  shows "\<exists>ri \<in> set ris. ar_name (fst ri) = n \<and> rid_of ris n = snd ri \<and> name_of_role_id R (rid_of ris n) = Some n"
proof -
  have "n \<in> (ar_name \<circ> fst) ` set ris" using assms(1,2) by (metis list.set_map map_map)
  from rid_of_policy [OF this] policy_name_of_id [OF assms(3,4)] show ?thesis by force
qed

lemma applied_policy_stored:
  assumes c: "config_consistent c" "ac_roles c \<noteq> []"
    and db: "distinct (map role_name (roles_table d))" "distinct (map role_id (roles_table d))"
    and app: "apply_transaction env uuid now c d = Inr d'"
  obtains s where "settings d' = Some s"
    "mset (map (stored_role d') (roles_table d')) = mset (ac_roles c)"
    "mset (stored_bindings d') = mset (ac_bindings c)"
    "Option.bind (default_role_id s) (name_of_role_id (roles_table d')) = ac_defaultRole c"
proof -
  obtain ris R where fst_ris: "map fst ris = ac_roles c" and snd_ris: "distinct (map snd ris)"
    and idsR: "distinct (map role_id R)" and key: "mset (map row_key R) = mset (map policy_key ris)"
    and d': "d' = d\<lparr>roles_table := R, role_permissions := permission_rows ris,
            user_roles := filter (\<lambda>p. snd p \<in> snd ` set ris) (user_roles d),
            subject_bindings := subject_rows env ris (ac_bindings c),
            email_bindings := email_rows env ris (ac_bindings c),
            domain_bindings := domain_rows env ris (ac_bindings c),
            settings := Some \<lparr>default_role_id = map_option (rid_of ris) (ac_defaultRole c), settings_updated = now\<rparr>\<rparr>"
    by (rule applied_state [OF c db app])
  have name: "name_of_role_id R (rid_of ris n) = Some n" if "n \<in> set (map ar_name (ac_roles c))" for n
    using policy_name_found [OF fst_ris that key idsR] by blast
  show ?thesis
  proof (rule that)
    show "settings d' = Some \<lparr>default_role_id = map_option (rid_of ris) (ac_defaultRole c), settings_updated = now\<rparr>"
      by (simp add: d')
    have "mset (map (stored_role d') R) = mset (map fst ris)"
      by (rule stored_roles_of_policy [OF key snd_ris]) (simp add: stored_role_def stored_of_def row_key_def d')
    then show "mset (map (stored_role d') (roles_table d')) = mset (ac_roles c)" by (simp add: d' fst_ris)
    show "mset (stored_bindings d') = mset (ac_bindings c)"
    proof (rule stored_bindings_of_policy)
      show "name_of_role_id (roles_table d') (rid_of ris n) = Some n" if "n \<in> binding_role ` set (ac_bindings c)" for n
        using that c(1) by (auto simp: config_consistent_def list_all_iff d' intro!: name)
    qed (simp_all add: d')
    show "Option.bind (default_role_id \<lparr>default_role_id = map_option (rid_of ris) (ac_defaultRole c), settings_updated = now\<rparr>)
        (name_of_role_id (roles_table d')) = ac_defaultRole c"
      using c(1) name by (cases "ac_defaultRole c") (simp_all add: d' config_consistent_def)
  qed
qed

lemma apply_load_same:
  assumes "applyAccessControl env uuid now input d = Inr (config, d')"
    "distinct (map role_name (roles_table d))" "distinct (map role_id (roles_table d))"
    "\<And>e. email_valid env e \<Longrightarrow> email_valid env (to_lower e)"
  obtains loaded where "loadAccessControl env d' = Inr (Some loaded)" "same_policy config loaded"
    "accessControlRevision env (Some loaded) = accessControlRevision env (Some config)"
proof -
  from assms(1) have schema: "accessControlConfigSchema env input = Some config"
    and tx: "apply_transaction env uuid now config d = Inr d'"
    by (auto simp: applyAccessControl_def bindE_Inr split: option.splits)
  note cc = schema_Some [OF schema] and again = schema_idem [OF schema assms(4)]
  from cc have con: "config_consistent config" "ac_roles config \<noteq> []" by auto
  from applied_policy_stored [OF con assms(2,3) tx] obtain s where s: "settings d' = Some s"
    "mset (map (stored_role d') (roles_table d')) = mset (ac_roles config)"
    "mset (stored_bindings d') = mset (ac_bindings config)"
    "Option.bind (default_role_id s) (name_of_role_id (roles_table d')) = ac_defaultRole config" .
  define raw where "raw = \<lparr>ac_roles = map (stored_role d') (sort_by (\<lambda>a b. locale_compare env (role_name a) (role_name b) \<le> 0) (roles_table d')),
    ac_bindings = sort_by (\<lambda>a b. locale_compare env (binding_json a) (binding_json b) \<le> 0) (stored_bindings d'),
    ac_defaultRole = Option.bind (default_role_id s) (name_of_role_id (roles_table d'))\<rparr>"
  have "same_policy config raw" using s(2-4) by (simp add: same_policy_def raw_def)
  note parsed = same_policy_schema [OF this again]
  have load: "loadAccessControl env d' = Inr (Some (normal_config raw))"
    using parsed(1) by (simp add: loadAccessControl_def s(1) raw_def [symmetric])
  note reparsed = same_policy_schema [OF parsed(2) again]
  have "canonical_json config = canonical_json (normal_config (normal_config raw))"
    by (rule same_policy_json [OF reparsed(2) con(1)])
  then have "accessControlRevision env (Some (normal_config raw)) = accessControlRevision env (Some config)"
    by (simp add: accessControlRevision_def reparsed(1) again)
  with that load parsed(2) show ?thesis by blast
qed

end
