(* ===== verification/Managed_Users.thy ===== *)
theory Managed_Users
  imports Access_Control
begin

text \<open>
  Invitation, role assignment, enabling, disabling and removal of managed users,
  \<^verbatim>\<open>src/src/domains/auth/users.ts\<close> with its contract
  \<^verbatim>\<open>users-contract.ts\<close>, and the runs of all authorization operations on one database.
\<close>

section \<open>Contract\<close>

record managed_user =
  mu_id :: string
  mu_email :: string
  mu_status :: user_status
  mu_roles :: "string list"
  mu_created :: int
  mu_updated :: int

definition managedUserEmailSchema :: "access_env \<Rightarrow> string \<Rightarrow> string option" where
  "managedUserEmailSchema env e = (if email_valid env e \<and> length e \<le> 320 then Some (to_lower e) else None)"

definition managedUserRolesSchema :: "string list \<Rightarrow> bool" where
  "managedUserRolesSchema rs \<longleftrightarrow> list_all role_name_ok rs \<and> length rs \<le> 64 \<and> distinct rs"

text \<open>Ids and dates are written by \<open>randomUUID\<close> and \<open>toISOString\<close> and always parse.\<close>

definition managedUserSchema :: "access_env \<Rightarrow> managed_user \<Rightarrow> access_error + managed_user" where
  "managedUserSchema env u =
     (case managedUserEmailSchema env (mu_email u) of
        None \<Rightarrow> Inl SchemaError
      | Some e \<Rightarrow> if managedUserRolesSchema (mu_roles u) then Inr (u\<lparr>mu_email := e\<rparr>) else Inl SchemaError)"

definition inviteManagedUserInputSchema :: "access_env \<Rightarrow> string \<Rightarrow> string list \<Rightarrow> (string \<times> string list) option" where
  "inviteManagedUserInputSchema env e rs =
     (if managedUserRolesSchema rs \<and> 1 \<le> length rs
      then map_option (\<lambda>x. (x, rs)) (managedUserEmailSchema env e) else None)"

definition replaceManagedUserRolesInputSchema :: "access_env \<Rightarrow> string \<Rightarrow> string list \<Rightarrow> (string \<times> string list) option" where
  "replaceManagedUserRolesInputSchema env e rs =
     (if managedUserRolesSchema rs then map_option (\<lambda>x. (x, rs)) (managedUserEmailSchema env e) else None)"

section \<open>Queries\<close>

definition requireAccessPolicy :: "auth_db \<Rightarrow> access_error + unit" where
  "requireAccessPolicy d = require (settings d \<noteq> None) (BrowserAccessError PolicyNotConfigured)"

definition roleIds :: "auth_db \<Rightarrow> string list \<Rightarrow> access_error + (string \<Rightarrow> string option)" where
  "roleIds d rs =
     (let ids = (\<lambda>n. if n \<in> set rs then role_id_of_name (roles_table d) n else None)
      in bindE (require (list_all (\<lambda>n. ids n \<noteq> None) rs) (BrowserAccessError RoleNotFound)) (\<lambda>_. Inr ids))"

fun requiredRoleIds :: "(string \<Rightarrow> string option) \<Rightarrow> string list \<Rightarrow> access_error + string list" where
  "requiredRoleIds ids [] = Inr []"
| "requiredRoleIds ids (n # ns) =
     (case ids n of
        None \<Rightarrow> Inl (BrowserAccessError RoleNotFound)
      | Some rid \<Rightarrow> bindE (requiredRoleIds ids ns) (\<lambda>rids. Inr (rid # rids)))"

text \<open>The email row of an address joined with its user.\<close>

definition user_of_email :: "auth_db \<Rightarrow> string \<Rightarrow> user_row option" where
  "user_of_email d e = Option.bind (find (\<lambda>r. email_address r = e) (user_emails d)) (\<lambda>r. find_user d (email_user r))"

definition assigned_role_names :: "auth_db \<Rightarrow> string \<Rightarrow> string list" where
  "assigned_role_names d uid =
     sort (concat (map (\<lambda>p. map role_name (filter (\<lambda>r. role_id r = snd p) (roles_table d)))
                       (filter (\<lambda>p. fst p = uid) (user_roles d))))"

definition userByEmail :: "access_env \<Rightarrow> auth_db \<Rightarrow> string \<Rightarrow> access_error + managed_user" where
  "userByEmail env d e =
     (case user_of_email d e of
        None \<Rightarrow> Inl (BrowserAccessError ManagedUserNotFound)
      | Some u \<Rightarrow> managedUserSchema env
          \<lparr>mu_id = user_id u, mu_email = e, mu_status = user_status u, mu_roles = assigned_role_names d (user_id u),
           mu_created = user_created u, mu_updated = user_updated u\<rparr>)"

fun users_by_emails :: "access_env \<Rightarrow> auth_db \<Rightarrow> string list \<Rightarrow> access_error + managed_user list" where
  "users_by_emails env d [] = Inr []"
| "users_by_emails env d (e # es) =
     bindE (userByEmail env d e) (\<lambda>u. bindE (users_by_emails env d es) (\<lambda>us. Inr (u # us)))"

definition listManagedUsers :: "access_env \<Rightarrow> auth_db \<Rightarrow> access_error + managed_user list" where
  "listManagedUsers env d =
     users_by_emails env d (sort (map email_address (filter (\<lambda>r. case find_user d (email_user r) of
         None \<Rightarrow> False | Some u \<Rightarrow> user_status u \<noteq> Removed) (user_emails d))))"

section \<open>Operations\<close>

definition assign_roles :: "string \<Rightarrow> (string \<Rightarrow> string option) \<Rightarrow> string list \<Rightarrow> auth_db \<Rightarrow> access_error + auth_db" where
  "assign_roles uid ids rs d =
     bindE (requiredRoleIds ids rs) (\<lambda>rids.
     bindE (insert_rows (=) (\<lambda>p. user_exists d (fst p) \<and> role_exists d (snd p)) (map (Pair uid) rids) (user_roles d))
       (\<lambda>t. Inr (d\<lparr>user_roles := t\<rparr>)))"

definition drop_assignments :: "string \<Rightarrow> auth_db \<Rightarrow> auth_db" where
  "drop_assignments uid d = d\<lparr>user_roles := filter (\<lambda>p. fst p \<noteq> uid) (user_roles d)\<rparr>"

definition create_user :: "int \<Rightarrow> string \<Rightarrow> string \<Rightarrow> auth_db \<Rightarrow> access_error + auth_db" where
  "create_user now uid e d =
     bindE (insert_row (\<lambda>x y. user_id x = user_id y) (\<lambda>x. True)
              \<lparr>user_id = uid, user_status = Pending, user_created = now, user_updated = now\<rparr> (users_table d))
       (\<lambda>us. let d1 = d\<lparr>users_table := us\<rparr> in
         bindE (insert_row (\<lambda>x y. email_user x = email_user y \<or> email_address x = email_address y)
                  (\<lambda>x. user_exists d1 (email_user x)) \<lparr>email_user = uid, email_address = e\<rparr> (user_emails d1))
           (\<lambda>es. Inr (d1\<lparr>user_emails := es\<rparr>)))"

definition inviteManagedUser ::
  "access_env \<Rightarrow> string \<Rightarrow> int \<Rightarrow> string \<Rightarrow> string list \<Rightarrow> auth_db \<Rightarrow> access_error + (managed_user \<times> auth_db)" where
  "inviteManagedUser env uuid now inputEmail inputRoles d =
     (case inviteManagedUserInputSchema env inputEmail inputRoles of
        None \<Rightarrow> Inl SchemaError
      | Some (e, rs) \<Rightarrow>
          bindE (requireAccessPolicy d) (\<lambda>_.
          bindE (roleIds d rs) (\<lambda>_.
          let existing = user_of_email d e in
          bindE (require (case existing of None \<Rightarrow> True | Some u \<Rightarrow> user_status u = Removed)
                   (BrowserAccessError ManagedUserExists)) (\<lambda>_.
          let uid = (case existing of Some u \<Rightarrow> user_id u | None \<Rightarrow> uuid) in
          bindE (case existing of
                   Some u \<Rightarrow> Inr (drop_assignments uid (set_status uid Pending now d))
                 | None \<Rightarrow> create_user now uid e d) (\<lambda>d1.
          bindE (roleIds d1 rs) (\<lambda>ids.
          bindE (assign_roles uid ids rs d1) (\<lambda>d2.
          bindE (userByEmail env d2 e) (\<lambda>u. Inr (u, d2)))))))))"

definition replaceManagedUserRoles ::
  "access_env \<Rightarrow> string \<Rightarrow> string list \<Rightarrow> auth_db \<Rightarrow> access_error + (managed_user \<times> auth_db)" where
  "replaceManagedUserRoles env inputEmail inputRoles d =
     (case replaceManagedUserRolesInputSchema env inputEmail inputRoles of
        None \<Rightarrow> Inl SchemaError
      | Some (e, rs) \<Rightarrow>
          bindE (requireAccessPolicy d) (\<lambda>_.
          bindE (userByEmail env d e) (\<lambda>u.
          bindE (require (mu_status u \<noteq> Removed) (BrowserAccessError ManagedUserNotFound)) (\<lambda>_.
          bindE (roleIds d rs) (\<lambda>ids.
          bindE (assign_roles (mu_id u) ids rs (drop_assignments (mu_id u) d)) (\<lambda>d1.
          bindE (userByEmail env d1 e) (\<lambda>u1. Inr (u1, d1))))))))"

definition setManagedUserStatus ::
  "access_env \<Rightarrow> int \<Rightarrow> user_status \<Rightarrow> string \<Rightarrow> auth_db \<Rightarrow> access_error + (managed_user \<times> auth_db)" where
  "setManagedUserStatus env now st inputEmail d =
     (case managedUserEmailSchema env inputEmail of
        None \<Rightarrow> Inl SchemaError
      | Some e \<Rightarrow>
          bindE (userByEmail env d e) (\<lambda>u.
          bindE (require (mu_status u \<noteq> Removed) (BrowserAccessError ManagedUserNotFound)) (\<lambda>_.
          let d1 = set_status (mu_id u) st now d in
          bindE (userByEmail env d1 e) (\<lambda>u1. Inr (u1, d1)))))"

definition enableManagedUser :: "access_env \<Rightarrow> int \<Rightarrow> string \<Rightarrow> auth_db \<Rightarrow> access_error + (managed_user \<times> auth_db)" where
  "enableManagedUser env now e d = setManagedUserStatus env now Active e d"

definition disableManagedUser :: "access_env \<Rightarrow> int \<Rightarrow> string \<Rightarrow> auth_db \<Rightarrow> access_error + (managed_user \<times> auth_db)" where
  "disableManagedUser env now e d = setManagedUserStatus env now Disabled e d"

definition removeManagedUser :: "access_env \<Rightarrow> int \<Rightarrow> string \<Rightarrow> auth_db \<Rightarrow> access_error + (managed_user \<times> auth_db)" where
  "removeManagedUser env now inputEmail d =
     (case managedUserEmailSchema env inputEmail of
        None \<Rightarrow> Inl SchemaError
      | Some e \<Rightarrow>
          bindE (userByEmail env d e) (\<lambda>u.
          bindE (require (mu_status u \<noteq> Removed) (BrowserAccessError ManagedUserNotFound)) (\<lambda>_.
          let d1 = d\<lparr>magic_tokens := filter (\<lambda>t. token_user t \<noteq> mu_id u) (magic_tokens d)\<rparr> in
          Inr (u, set_status (mu_id u) Removed now (drop_assignments (mu_id u) d1)))))"

end
