(* ===== verification/Magic_Links.thy ===== *)
theory Magic_Links
  imports Managed_Users
begin

text \<open>
  One-time sign-in links, \<^verbatim>\<open>src/src/domains/auth/magic-links.ts\<close>.  The random token of
  an issued link is an argument; delivery by email is not modelled, apart from the revocation of
  a link whose delivery failed.
\<close>

definition magicLinkTtlMs :: int where "magicLinkTtlMs = 15 * 60 * 1000"
definition magicLinkRequestCooldownMs :: int where "magicLinkRequestCooldownMs = 60 * 1000"

definition magicLinkTokenSchema :: "string \<Rightarrow> bool" where
  "magicLinkTokenSchema t \<longleftrightarrow> length t = 43 \<and>
     list_all (\<lambda>c. char_between 65 90 c \<or> lower_letter c \<or> digit c \<or> c = CHR ''_'' \<or> c = CHR ''-'') t"

definition magicLinkIssuer :: "string \<Rightarrow> string" where
  "magicLinkIssuer origin = origin @ ''/magic-link''"

record magic_link =
  ml_email :: string
  ml_token :: string
  ml_expires :: int

definition may_sign_in :: "user_status \<Rightarrow> bool" where
  "may_sign_in st \<longleftrightarrow> st \<in> {Pending, Active}"

definition upsert_token :: "token_row \<Rightarrow> token_row list \<Rightarrow> access_error + token_row list" where
  "upsert_token row t =
     (let clash = list_ex (\<lambda>x. token_user x \<noteq> token_user row \<and> token_digest x = token_digest row) t in
      if clash then Inl ConstraintViolation
      else if list_ex (\<lambda>x. token_user x = token_user row) t
      then Inr (map (\<lambda>x. if token_user x = token_user row then row else x) t)
      else Inr (t @ [row]))"

definition issueMagicLink ::
  "access_env \<Rightarrow> string \<Rightarrow> int \<Rightarrow> string \<Rightarrow> auth_db \<Rightarrow> access_error + (magic_link option \<times> auth_db)" where
  "issueMagicLink env token now inputEmail d =
     (case managedUserEmailSchema env inputEmail of
        None \<Rightarrow> Inl SchemaError
      | Some e \<Rightarrow>
          (case user_of_email d e of
             None \<Rightarrow> Inr (None, d)
           | Some u \<Rightarrow>
               if \<not> may_sign_in (user_status u) then Inr (None, d)
               else if (case find (\<lambda>t. token_user t = user_id u) (magic_tokens d) of
                          None \<Rightarrow> False
                        | Some t \<Rightarrow> now - token_created t < magicLinkRequestCooldownMs)
               then Inr (None, d)
               else bindE (upsert_token
                      \<lparr>token_user = user_id u, token_digest = sha256 env token,
                       token_expires = now + magicLinkTtlMs, token_created = now\<rparr> (magic_tokens d))
                 (\<lambda>ts. Inr (Some \<lparr>ml_email = e, ml_token = token, ml_expires = now + magicLinkTtlMs\<rparr>,
                        d\<lparr>magic_tokens := ts\<rparr>))))"

definition delete_digest :: "string \<Rightarrow> auth_db \<Rightarrow> auth_db" where
  "delete_digest h d = d\<lparr>magic_tokens := filter (\<lambda>t. token_digest t \<noteq> h) (magic_tokens d)\<rparr>"

definition revokeMagicLink :: "access_env \<Rightarrow> string \<Rightarrow> auth_db \<Rightarrow> auth_db" where
  "revokeMagicLink env token d =
     (if magicLinkTokenSchema token then delete_digest (sha256 env token) d else d)"

text \<open>The token row of a digest joined with its user and the user's email.\<close>

definition stored_link :: "auth_db \<Rightarrow> string \<Rightarrow> (string \<times> int \<times> user_status \<times> string) option" where
  "stored_link d h =
     Option.bind (find (\<lambda>t. token_digest t = h) (magic_tokens d)) (\<lambda>t.
     Option.bind (find_user d (token_user t)) (\<lambda>u.
     map_option (\<lambda>e. (user_id u, token_expires t, user_status u, e)) (user_email d (user_id u))))"

definition consumeMagicLink ::
  "access_env \<Rightarrow> string \<Rightarrow> string \<Rightarrow> int \<Rightarrow> auth_db \<Rightarrow> browser_identity option \<times> auth_db" where
  "consumeMagicLink env token issuer now d =
     (if \<not> magicLinkTokenSchema token then (None, d)
      else let h = sha256 env token; d1 = delete_digest h d in
        (case stored_link d h of
           None \<Rightarrow> (None, d1)
         | Some (uid, expires, st, e) \<Rightarrow>
             if \<not> may_sign_in st \<or> expires \<le> now then (None, d1)
             else (Some \<lparr>bi_issuer = issuer, bi_subject = uid, bi_email = Some e\<rparr>, d1)))"

definition clearMagicLinks :: "auth_db \<Rightarrow> auth_db" where
  "clearMagicLinks d = d\<lparr>magic_tokens := []\<rparr>"

end
