(* ===== verification/Auth_System.thy ===== *)
theory Auth_System
  imports Magic_Links
begin

text \<open>
  The authorization operations together, as the events of one database
  (\<^verbatim>\<open>access-control.ts\<close>, \<^verbatim>\<open>users.ts\<close> and \<^verbatim>\<open>magic-links.ts\<close> under
  \<^verbatim>\<open>src/src/domains/auth\<close>): the invariant every operation keeps, and what it gives for
  removed users, the policy and the links.
\<close>

datatype auth_event =
    ApplyPolicy "nat \<Rightarrow> string" int access_config
  | ClearPolicy
  | Invite string int string "string list"
  | ReplaceRoles string "string list"
  | Enable int string
  | Disable int string
  | Remove int string
  | Resolve int string browser_identity bool
  | IssueLink string int string
  | RevokeLink string
  | ConsumeLink string string int
  | ClearLinks

text \<open>A transaction that throws leaves the database as it was.\<close>

definition committed :: "auth_db \<Rightarrow> access_error + ('a \<times> auth_db) \<Rightarrow> auth_db" where
  "committed d r = (case r of Inl e \<Rightarrow> d | Inr (x, d') \<Rightarrow> d')"

fun auth_after :: "access_env \<Rightarrow> auth_event \<Rightarrow> auth_db \<Rightarrow> auth_db" where
  "auth_after env (ApplyPolicy uuid now c) d = committed d (applyAccessControl env uuid now c d)"
| "auth_after env ClearPolicy d = committed d (clearAccessControl d)"
| "auth_after env (Invite uuid now e rs) d = committed d (inviteManagedUser env uuid now e rs d)"
| "auth_after env (ReplaceRoles e rs) d = committed d (replaceManagedUserRoles env e rs d)"
| "auth_after env (Enable now e) d = committed d (enableManagedUser env now e d)"
| "auth_after env (Disable now e) d = committed d (disableManagedUser env now e d)"
| "auth_after env (Remove now e) d = committed d (removeManagedUser env now e d)"
| "auth_after env (Resolve now uuid who claim) d = committed d (resolveAccessControl now uuid who claim d)"
| "auth_after env (IssueLink t now e) d = committed d (issueMagicLink env t now e d)"
| "auth_after env (RevokeLink t) d = revokeMagicLink env t d"
| "auth_after env (ConsumeLink t iss now) d = snd (consumeMagicLink env t iss now d)"
| "auth_after env ClearLinks d = clearMagicLinks d"

definition auth_step :: "access_env \<Rightarrow> auth_event \<Rightarrow> auth_db \<Rightarrow> auth_db option" where
  "auth_step env e d = Some (auth_after env e d)"

section \<open>The invariant\<close>

text \<open>Primary keys, unique indexes and foreign keys.\<close>

definition keys_unique :: "auth_db \<Rightarrow> bool" where
  "keys_unique d \<longleftrightarrow>
     distinct (map role_id (roles_table d)) \<and> distinct (map role_name (roles_table d)) \<and>
     distinct (map user_id (users_table d)) \<and>
     distinct (map email_user (user_emails d)) \<and> distinct (map email_address (user_emails d)) \<and>
     distinct (map (\<lambda>i. (identity_issuer i, identity_subject i)) (identities d)) \<and>
     distinct (map token_user (magic_tokens d)) \<and> distinct (map token_digest (magic_tokens d))"

definition references_ok :: "auth_db \<Rightarrow> bool" where
  "references_ok d \<longleftrightarrow>
     (\<forall>e \<in> set (user_emails d). user_exists d (email_user e)) \<and>
     (\<forall>i \<in> set (identities d). user_exists d (identity_user i)) \<and>
     (\<forall>p \<in> set (user_roles d). user_exists d (fst p) \<and> role_exists d (snd p)) \<and>
     (\<forall>t \<in> set (magic_tokens d). user_exists d (token_user t)) \<and>
     (\<forall>p \<in> set (role_permissions d). role_exists d (fst p))"

text \<open>A removed user keeps no assignment and no link.\<close>

definition removed_clean :: "auth_db \<Rightarrow> bool" where
  "removed_clean d \<longleftrightarrow>
     (\<forall>u \<in> set (users_table d). user_status u = Removed \<longrightarrow>
        user_id u \<notin> fst ` set (user_roles d) \<and> user_id u \<notin> token_user ` set (magic_tokens d))"

text \<open>The roles an identity can obtain without an assignment.\<close>

definition bound_role_ids :: "auth_db \<Rightarrow> string list" where
  "bound_role_ids d =
     (case settings d of None \<Rightarrow> [] | Some s \<Rightarrow> (case default_role_id s of None \<Rightarrow> [] | Some rid \<Rightarrow> [rid])) @
     map sb_role (subject_bindings d) @ map eb_role (email_bindings d) @ map dm_role (domain_bindings d)"

text \<open>
  Without a policy there is no role and every managed user is removed; with one, some reachable
  role grants \<open>access:manage\<close>.
\<close>

definition policy_ok :: "auth_db \<Rightarrow> bool" where
  "policy_ok d \<longleftrightarrow>
     (if settings d = None then roles_table d = [] \<and> (\<forall>u \<in> set (users_table d). user_status u = Removed)
      else \<exists>rid \<in> set (bound_role_ids d). (rid, AccessManage) \<in> set (role_permissions d))"

definition auth_inv :: "auth_db \<Rightarrow> bool" where
  "auth_inv d \<longleftrightarrow> keys_unique d \<and> references_ok d \<and> removed_clean d \<and> policy_ok d"

section \<open>Effects of the operations\<close>

lemma userByEmail_Inr:
  assumes "userByEmail env d e = Inr m"
  obtains u where "user_of_email d e = Some u" "find_user d (user_id u) = Some u" "mu_id m = user_id u"
    "mu_status m = user_status u"
proof -
  from assms obtain u where u: "user_of_email d e = Some u" and m: "mu_id m = user_id u" "mu_status m = user_status u"
    by (auto simp: userByEmail_def managedUserSchema_def split: option.splits if_splits)
  moreover have "find_user d (user_id u) = Some u"
    using u find_user_Some by (fastforce simp: user_of_email_def bind_eq_Some_conv)
  ultimately show ?thesis using that by blast
qed

lemma user_of_email_found: "user_of_email d e = Some u \<Longrightarrow> find_user d (user_id u) = Some u"
  using find_user_Some by (fastforce simp: user_of_email_def bind_eq_Some_conv)

lemma assign_roles_Inr:
  assumes "assign_roles uid ids rs d = Inr d'"
  obtains rids where "d' = d\<lparr>user_roles := user_roles d @ map (Pair uid) rids\<rparr>"
    "\<And>rid. rid \<in> set rids \<Longrightarrow> user_exists d uid \<and> role_exists d rid"
proof -
  from assms obtain rids t where "insert_rows (=) (\<lambda>p. user_exists d (fst p) \<and> role_exists d (snd p)) (map (Pair uid) rids) (user_roles d) = Inr t"
    and "d' = d\<lparr>user_roles := t\<rparr>" by (auto simp: assign_roles_def bindE_Inr)
  with that insert_rows_append show ?thesis by fastforce
qed

lemma create_user_Inr:
  assumes "create_user now uid e d = Inr d'"
  shows "d' = d\<lparr>users_table := users_table d @ [\<lparr>user_id = uid, user_status = Pending, user_created = now, user_updated = now\<rparr>],
      user_emails := user_emails d @ [\<lparr>email_user = uid, email_address = e\<rparr>]\<rparr>"
    "\<not> user_exists d uid" "uid \<notin> email_user ` set (user_emails d)" "e \<notin> email_address ` set (user_emails d)"
  using assms by (auto simp: create_user_def bindE_Inr insert_row_Inr Let_def user_exists_iff)

lemma inviteManagedUser_Inr:
  assumes "inviteManagedUser env uuid now inputEmail inputRoles d = Inr (m, d')"
  obtains e rs uid ids d1 where
    "managedUserEmailSchema env inputEmail = Some e" "settings d \<noteq> None"
    "assign_roles uid ids rs d1 = Inr d'" "user_of_email d' e \<noteq> None"
    "(\<exists>u. user_of_email d e = Some u \<and> user_status u = Removed \<and> uid = user_id u \<and>
          d1 = drop_assignments uid (set_status uid Pending now d)) \<or>
     user_of_email d e = None \<and> uid = uuid \<and> create_user now uuid e d = Inr d1"
proof -
  from assms obtain e where e: "managedUserEmailSchema env inputEmail = Some e"
    "inviteManagedUserInputSchema env inputEmail inputRoles = Some (e, inputRoles)"
    by (auto simp: inviteManagedUser_def inviteManagedUserInputSchema_def split: option.splits if_splits)
  show ?thesis
  proof (cases "user_of_email d e")
    case None
    with assms e show ?thesis
      by (auto simp: inviteManagedUser_def bindE_Inr requireAccessPolicy_def Let_def elim!: userByEmail_Inr intro!: that)
  next
    case (Some u)
    with assms e show ?thesis
      by (auto simp: inviteManagedUser_def bindE_Inr requireAccessPolicy_def Let_def elim!: userByEmail_Inr intro!: that)
  qed
qed

lemma replaceManagedUserRoles_Inr:
  assumes "replaceManagedUserRoles env inputEmail inputRoles d = Inr (m, d')"
  obtains u ids where "find_user d (user_id u) = Some u" "user_status u \<noteq> Removed" "settings d \<noteq> None"
    "assign_roles (user_id u) ids inputRoles (drop_assignments (user_id u) d) = Inr d'"
  using assms
  by (auto simp: replaceManagedUserRoles_def replaceManagedUserRolesInputSchema_def bindE_Inr requireAccessPolicy_def
      split: option.splits if_splits elim!: userByEmail_Inr intro: that)

lemma setManagedUserStatus_Inr:
  assumes "setManagedUserStatus env now st inputEmail d = Inr (m, d')"
  obtains e u where "managedUserEmailSchema env inputEmail = Some e" "user_of_email d e = Some u"
    "find_user d (user_id u) = Some u" "user_status u \<noteq> Removed" "d' = set_status (user_id u) st now d"
  using assms
  by (auto simp: setManagedUserStatus_def bindE_Inr Let_def split: option.splits elim!: userByEmail_Inr intro: that)

lemma removeManagedUser_Inr:
  assumes "removeManagedUser env now inputEmail d = Inr (m, d')"
  obtains e u where "managedUserEmailSchema env inputEmail = Some e" "user_of_email d e = Some u"
    "find_user d (user_id u) = Some u" "user_status u \<noteq> Removed" "mu_id m = user_id u"
    "d' = set_status (user_id u) Removed now (drop_assignments (user_id u)
        (d\<lparr>magic_tokens := filter (\<lambda>t. token_user t \<noteq> user_id u) (magic_tokens d)\<rparr>))"
  using assms
  by (auto simp: removeManagedUser_def bindE_Inr Let_def split: option.splits elim!: userByEmail_Inr intro: that)

section \<open>The invariant is kept\<close>

lemma bound_role_ids_update [simp]:
  "bound_role_ids (d\<lparr>roles_table := a\<rparr>) = bound_role_ids d"
  "bound_role_ids (d\<lparr>role_permissions := b\<rparr>) = bound_role_ids d"
  "bound_role_ids (d\<lparr>users_table := c\<rparr>) = bound_role_ids d"
  "bound_role_ids (d\<lparr>user_emails := e\<rparr>) = bound_role_ids d"
  "bound_role_ids (d\<lparr>identities := f\<rparr>) = bound_role_ids d"
  "bound_role_ids (d\<lparr>user_roles := g\<rparr>) = bound_role_ids d"
  "bound_role_ids (d\<lparr>magic_tokens := h\<rparr>) = bound_role_ids d"
  "bound_role_ids (set_status uid st now d) = bound_role_ids d"
  by (simp_all add: bound_role_ids_def)

lemma inv_has_policy: "auth_inv d \<Longrightarrow> find_user d uid = Some u \<Longrightarrow> user_status u \<noteq> Removed \<Longrightarrow> settings d \<noteq> None"
  by (cases "settings d") (auto simp: auth_inv_def policy_ok_def dest!: find_user_Some)

lemma set_status_users:
  "v \<in> set (users_table (set_status uid st now d)) \<longleftrightarrow>
    (\<exists>u \<in> set (users_table d). v = (if user_id u = uid then u\<lparr>user_status := st, user_updated := now\<rparr> else u))"
proof -
  have "users_table (set_status uid st now d) =
      map (\<lambda>u. if user_id u = uid then u\<lparr>user_status := st, user_updated := now\<rparr> else u) (users_table d)"
    by (simp add: set_status_def)
  then show ?thesis by (simp only: set_map image_iff)
qed

lemma inv_set_status:
  assumes "auth_inv d" "settings d \<noteq> None"
    "st = Removed \<Longrightarrow> uid \<notin> fst ` set (user_roles d) \<and> uid \<notin> token_user ` set (magic_tokens d)"
  shows "auth_inv (set_status uid st now d)"
proof -
  have "keys_unique (set_status uid st now d)" "references_ok (set_status uid st now d)" "policy_ok (set_status uid st now d)"
    using assms(1,2) by (auto simp: auth_inv_def keys_unique_def references_ok_def policy_ok_def)
  moreover have "removed_clean (set_status uid st now d)"
    using assms(1,3) unfolding removed_clean_def auth_inv_def Ball_def set_status_users
    by (force split: if_splits)
  ultimately show ?thesis by (simp add: auth_inv_def)
qed

lemma inv_drop_assignments: "auth_inv d \<Longrightarrow> auth_inv (drop_assignments uid d)"
  by (auto simp: auth_inv_def keys_unique_def references_ok_def removed_clean_def policy_ok_def drop_assignments_def)

lemma inv_filter_tokens: "auth_inv d \<Longrightarrow> auth_inv (d\<lparr>magic_tokens := filter P (magic_tokens d)\<rparr>)"
  by (auto simp: auth_inv_def keys_unique_def references_ok_def removed_clean_def policy_ok_def distinct_map_filter)

lemma inv_assign_roles:
  assumes inv: "auth_inv d" and a: "assign_roles uid ids rs d = Inr d'"
    and u: "find_user d uid = Some u" "user_status u \<noteq> Removed"
  shows "auth_inv d'"
proof -
  obtain rids where d': "d' = d\<lparr>user_roles := user_roles d @ map (Pair uid) rids\<rparr>"
    and ex: "\<And>rid. rid \<in> set rids \<Longrightarrow> user_exists d uid \<and> role_exists d rid"
    by (rule assign_roles_Inr [OF a]) (rule that)
  have "user_status v \<noteq> Removed" if "v \<in> set (users_table d)" "user_id v = uid" for v
    using find_user_unique [of d v] inv u that by (auto simp: auth_inv_def keys_unique_def)
  then have "removed_clean d'" using inv by (auto simp: auth_inv_def removed_clean_def d')
  moreover have "keys_unique d'" "policy_ok d'" using inv by (simp_all add: auth_inv_def keys_unique_def policy_ok_def d')
  moreover have "references_ok d'" using inv ex by (auto simp: auth_inv_def references_ok_def d')
  ultimately show ?thesis by (simp add: auth_inv_def)
qed

lemma inv_create_user:
  assumes inv: "auth_inv d" and c: "create_user now uid e d = Inr d'" and s: "settings d \<noteq> None"
  shows "auth_inv d'" "\<exists>u. find_user d' uid = Some u \<and> user_status u = Pending"
proof -
  note e = create_user_Inr [OF c]
  have "keys_unique d'" using inv e(2-4) by (auto simp: auth_inv_def keys_unique_def e(1) user_exists_iff)
  moreover have "references_ok d'" using inv by (auto simp: auth_inv_def references_ok_def e(1) user_exists_iff role_exists_iff)
  moreover have "removed_clean d'" using inv by (auto simp: auth_inv_def removed_clean_def e(1))
  moreover have "policy_ok d'" using inv s by (simp add: auth_inv_def policy_ok_def e(1))
  ultimately show inv': "auth_inv d'" by (simp add: auth_inv_def)
  show "\<exists>u. find_user d' uid = Some u \<and> user_status u = Pending"
    using find_user_unique [of d' "\<lparr>user_id = uid, user_status = Pending, user_created = now, user_updated = now\<rparr>"] inv'
    by (auto simp: auth_inv_def keys_unique_def e(1))
qed

lemma inv_add_identity:
  assumes "auth_inv d" "user_exists d (identity_user row)"
    "(identity_issuer row, identity_subject row) \<notin> (\<lambda>i. (identity_issuer i, identity_subject i)) ` set (identities d)"
  shows "auth_inv (d\<lparr>identities := identities d @ [row]\<rparr>)"
  using assms by (auto simp: auth_inv_def keys_unique_def references_ok_def removed_clean_def policy_ok_def)

text \<open>What claiming an invitation can do to the database.\<close>

lemma claim_invitation_Inr:
  assumes "claim_invitation now uuid who claim stored d = Inr (refused, si, d')"
  obtains "d' = d" "si = stored" "\<not> refused"
  | ids d1 where "d1 = d\<lparr>identities := ids\<rparr>" "stored = None"
      "ids = identities d \<or> (\<exists>row. ids = identities d @ [row] \<and> user_exists d (identity_user row) \<and>
         (identity_issuer row, identity_subject row) \<notin> (\<lambda>i. (identity_issuer i, identity_subject i)) ` set (identities d))"
      "d' = d1 \<or> (\<exists>uid. d' = set_status uid Active now d1 \<and> (\<exists>s. select_identity d1 who = Some s \<and> si_user s = uid \<and> si_status s = Pending))"
      "refused \<or> (\<exists>s. select_identity d1 who = Some s \<and>
          (si_status s = Pending \<and> d' = set_status (si_user s) Active now d1 \<and> si = Some (s\<lparr>si_status := Active\<rparr>) \<or>
           si_status s \<noteq> Pending \<and> d' = d1 \<and> si = Some s))"
proof (cases stored)
  case (Some s)
  with assms that(1) show ?thesis by (simp add: claim_invitation_def)
next
  case None
  show ?thesis
  proof (cases "truthy_email (map_option to_lower (bi_email who))")
    case n2: None
    with assms that(1) show ?thesis by (simp add: claim_invitation_def None)
  next
    case (Some email)
    show ?thesis
    proof (cases "claim \<and> find (\<lambda>e. email_address e = email) (user_emails d) \<noteq> None")
      case False
      with assms that(1) show ?thesis by (auto simp: claim_invitation_def None Some split: option.splits if_splits)
    next
      case True
      then obtain inv where inv: "find (\<lambda>e. email_address e = email) (user_emails d) = Some inv" and c: claim by auto
      define row where "row = \<lparr>identity_id = uuid, identity_user = email_user inv, identity_issuer = bi_issuer who,
                           identity_subject = bi_subject who, identity_email = Some email,
                           identity_created = now, identity_seen = now\<rparr>"
      let ?clash = "\<lambda>x y. identity_id x = identity_id y \<or>
                               identity_issuer x = identity_issuer y \<and> identity_subject x = identity_subject y"
      from assms obtain ids where ins_eq: "(if list_ex (?clash row) (identities d) then Inr (identities d)
                          else insert_row ?clash (\<lambda>x. user_exists d (identity_user x)) row (identities d)) = Inr ids"
        and rest: "(let d1 = d\<lparr>identities := ids\<rparr> in
                        case select_identity d1 who of
                          None \<Rightarrow> Inr (True, None, d1)
                        | Some si \<Rightarrow>
                            if si_user si \<noteq> email_user inv then Inr (True, Some si, d1)
                            else if si_status si = Pending
                            then Inr (False, Some (si\<lparr>si_status := Active\<rparr>), set_status (email_user inv) Active now d1)
                            else Inr (False, Some si, d1)) = (Inr (refused, si, d') :: access_error + (bool \<times> stored_identity option \<times> auth_db))"
        by (auto simp: claim_invitation_def None Some inv c row_def [symmetric] Let_def bindE_Inr)
      have ins: "ids = identities d \<or> (ids = identities d @ [row] \<and> user_exists d (identity_user row) \<and>
         (identity_issuer row, identity_subject row) \<notin> (\<lambda>i. (identity_issuer i, identity_subject i)) ` set (identities d))"
        using ins_eq by (auto simp: insert_row_Inr list_ex_iff split: if_splits)
      show ?thesis
        by (rule that(2) [OF refl None, of ids]) (use ins rest in \<open>auto simp: Let_def split: option.splits if_splits\<close>)
    qed
  qed
qed

lemma activate_pending_state:
  "activate_pending now who claim stored d = (si, d') \<Longrightarrow>
     d' = d \<and> si = stored \<or>
     (\<exists>s. stored = Some s \<and> si_status s = Pending \<and> d' = set_status (si_user s) Active now d \<and> si = Some (s\<lparr>si_status := Active\<rparr>))"
  by (auto simp: activate_pending_def split: option.splits if_splits)

lemma inv_claim:
  assumes inv: "auth_inv d" "settings d \<noteq> None"
    and c: "claim_invitation now uuid who claim stored d = Inr (refused, si, d')"
  shows "auth_inv d' \<and> settings d' = settings d"
  using c
proof (cases rule: claim_invitation_Inr)
  case 1
  then show ?thesis using inv by simp
next
  case (2 ids d1)
  have "auth_inv d1" using 2(1,3) inv inv_add_identity by auto
  then show ?thesis using 2(1,4) inv(2) by (auto intro: inv_set_status)
qed

lemma inv_resolve:
  assumes inv: "auth_inv d" and r: "resolveAccessControl now uuid who claim d = Inr (g, d')"
  shows "auth_inv d'"
proof (cases "settings d")
  case None
  with r inv show ?thesis by (simp add: resolveAccessControl_def)
next
  case (Some s)
  with r obtain refused si d1 where c: "claim_invitation now uuid who claim (select_identity d who) d = Inr (refused, si, d1)"
    and rest: "refused \<and> d' = d1 \<or> \<not> refused \<and> d' = snd (activate_pending now who claim si d1)"
    by (auto simp: resolveAccessControl_def bindE_Inr split: if_splits prod.splits)
  from inv_claim [OF inv _ c] Some have d1: "auth_inv d1" "settings d1 \<noteq> None" by simp_all
  have "auth_inv (snd (activate_pending now who claim si d1))"
    using activate_pending_state [of now who claim si d1] d1 by (cases "activate_pending now who claim si d1") (auto intro: inv_set_status)
  with rest d1 show ?thesis by auto
qed

lemma inv_clear: "auth_inv d \<Longrightarrow> clearAccessControl d = Inr (b, d') \<Longrightarrow> auth_inv d'"
proof (cases "settings d = None")
  case False
  assume inv: "auth_inv d" and c: "clearAccessControl d = Inr (b, d')"
  from c False have removed: "\<forall>u \<in> set (users_table d). user_status u = Removed" and
    d': "d' = delete_roles (\<lambda>rid. True)
            (d\<lparr>subject_bindings := [], email_bindings := [], domain_bindings := [], settings := None\<rparr>)"
    by (auto simp: clearAccessControl_def bindE_Inr list_ex_iff)
  have "keys_unique d'" "references_ok d'" "removed_clean d'" "policy_ok d'"
    using inv removed
    by (simp_all add: d' delete_roles_def auth_inv_def keys_unique_def references_ok_def removed_clean_def policy_ok_def)
  then show ?thesis by (simp add: auth_inv_def)
qed (simp add: clearAccessControl_def)

lemma permission_rows_mem: "(rid, p) \<in> set (permission_rows ris) \<longleftrightarrow> (\<exists>r. (r, rid) \<in> set ris \<and> p \<in> set (ar_permissions r))"
  by (force simp: permission_rows_def)

lemma rid_of_bound:
  assumes "n \<in> set (reachable_roles c)"
    "d' = d\<lparr>roles_table := R, role_permissions := ps, user_roles := us,
            subject_bindings := subject_rows env ris (ac_bindings c),
            email_bindings := email_rows env ris (ac_bindings c),
            domain_bindings := domain_rows env ris (ac_bindings c),
            settings := Some \<lparr>default_role_id = map_option (rid_of ris) (ac_defaultRole c), settings_updated = now\<rparr>\<rparr>"
  shows "rid_of ris n \<in> set (bound_role_ids d')"
proof -
  have b: "rid_of ris (binding_role b) \<in> sb_role ` set (subject_rows env ris bs) \<union> eb_role ` set (email_rows env ris bs) \<union>
      dm_role ` set (domain_rows env ris bs)" if "b \<in> set bs" for b bs
    using that
  proof (induction bs)
    case (Cons b' bs)
    then show ?case by (cases b'; force simp: subject_rows_def email_rows_def domain_rows_def)
  qed simp
  from assms(1) consider "ac_defaultRole c = Some n" | b where "b \<in> set (ac_bindings c)" "n = binding_role b"
    by (auto simp: reachable_roles_def split: option.splits)
  then show ?thesis
  proof cases
    case 1
    then show ?thesis by (simp add: bound_role_ids_def assms(2))
  next
    case 2
    from b [OF 2(1)] show ?thesis by (auto simp: bound_role_ids_def assms(2) 2(2))
  qed
qed

lemma inv_apply:
  assumes inv: "auth_inv d" and app: "applyAccessControl env uuid now input d = Inr (c, d')"
  shows "auth_inv d'"
proof -
  from app have schema: "accessControlConfigSchema env input = Some c"
    and tx: "apply_transaction env uuid now c d = Inr d'"
    by (auto simp: applyAccessControl_def bindE_Inr split: option.splits)
  have con: "config_consistent c" "ac_roles c \<noteq> []" using schema_Some [OF schema] by auto
  have db: "distinct (map role_name (roles_table d))" "distinct (map role_id (roles_table d))"
    using inv by (simp_all add: auth_inv_def keys_unique_def)
  obtain ris R where fst_ris: "map fst ris = ac_roles c" and dR: "distinct (map role_id R)" "distinct (map role_name R)"
    and key: "mset (map row_key R) = mset (map policy_key ris)"
    and d': "d' = d\<lparr>roles_table := R, role_permissions := permission_rows ris,
            user_roles := filter (\<lambda>p. snd p \<in> snd ` set ris) (user_roles d),
            subject_bindings := subject_rows env ris (ac_bindings c),
            email_bindings := email_rows env ris (ac_bindings c),
            domain_bindings := domain_rows env ris (ac_bindings c),
            settings := Some \<lparr>default_role_id = map_option (rid_of ris) (ac_defaultRole c), settings_updated = now\<rparr>\<rparr>"
    by (rule applied_state [OF con db tx])
  have "row_key ` set R = policy_key ` set ris" using mset_eq_setD [OF key] by simp
  then have "(\<lambda>k. snd (snd k)) ` row_key ` set R = (\<lambda>k. snd (snd k)) ` policy_key ` set ris" by simp
  then have ids: "role_id ` set R = snd ` set ris" by (simp add: image_image row_key_def policy_key_def)
  have "keys_unique d'" using inv dR by (simp add: auth_inv_def keys_unique_def d')
  moreover have "fst p \<in> snd ` set ris" if "p \<in> set (permission_rows ris)" for p
  proof -
    obtain rid x where p: "p = (rid, x)" by (cases p)
    with that obtain r where "(r, rid) \<in> set ris" by (auto simp: permission_rows_mem)
    then show ?thesis by (force simp: p)
  qed
  then have "references_ok d'"
    using inv by (auto simp: auth_inv_def references_ok_def d' role_exists_iff ids)
  moreover have "removed_clean d'" using inv unfolding auth_inv_def removed_clean_def d' by fastforce
  moreover have "policy_ok d'"
  proof -
    from con(1) obtain n where n: "n \<in> set (reachable_roles c)" "AccessManage \<in> set (role_permissions_of c n)"
      and names: "distinct (map ar_name (ac_roles c))"
      by (auto simp: config_consistent_def list_ex_iff)
    from n(2) obtain r where r: "r \<in> set (ac_roles c)" "ar_name r = n" "AccessManage \<in> set (ar_permissions r)"
      by (auto simp: role_permissions_of_distinct [OF names])
    obtain ri where ri: "ri \<in> set ris" "ar_name (fst ri) = n" "rid_of ris n = snd ri"
      using policy_name_found [OF fst_ris _ key dR(1), of n] r by auto
    have "fst ri \<in> set (ac_roles c)" using ri(1) fst_ris by (metis image_eqI list.set_map)
    then have "fst ri = r" using r ri(2) names by (auto simp: distinct_map inj_on_def)
    then have "(rid_of ris n, AccessManage) \<in> set (permission_rows ris)"
      using ri r(3) by (cases ri) (auto simp: permission_rows_mem)
    with rid_of_bound [OF n(1) d'] show ?thesis by (auto simp: policy_ok_def d' simp del: bound_role_ids_update)
  qed
  ultimately show ?thesis by (simp add: auth_inv_def)
qed

lemma issueMagicLink_Inr:
  assumes "issueMagicLink env t now inputEmail d = Inr (l, d')"
  obtains "l = None" "d' = d"
  | e u ts where "managedUserEmailSchema env inputEmail = Some e" "user_of_email d e = Some u" "may_sign_in (user_status u)"
      "upsert_token \<lparr>token_user = user_id u, token_digest = sha256 env t,
                       token_expires = now + magicLinkTtlMs, token_created = now\<rparr> (magic_tokens d) = Inr ts"
      "l = Some \<lparr>ml_email = e, ml_token = t, ml_expires = now + magicLinkTtlMs\<rparr>"
      "d' = d\<lparr>magic_tokens := ts\<rparr>"
proof -
  from assms obtain e where e: "managedUserEmailSchema env inputEmail = Some e"
    by (cases "managedUserEmailSchema env inputEmail") (simp_all add: issueMagicLink_def)
  show ?thesis
  proof (cases "user_of_email d e")
    case None
    then show ?thesis using assms e that(1) by (simp add: issueMagicLink_def)
  next
    case (Some u)
    define cool where "cool = (case find (\<lambda>t. token_user t = user_id u) (magic_tokens d) of
                          None \<Rightarrow> False
                        | Some t \<Rightarrow> now - token_created t < magicLinkRequestCooldownMs)"
    from assms have "(if \<not> may_sign_in (user_status u) then Inr (None, d) else if cool then Inr (None, d)
        else bindE (upsert_token \<lparr>token_user = user_id u, token_digest = sha256 env t,
                       token_expires = now + magicLinkTtlMs, token_created = now\<rparr> (magic_tokens d))
          (\<lambda>ts. Inr (Some \<lparr>ml_email = e, ml_token = t, ml_expires = now + magicLinkTtlMs\<rparr>, d\<lparr>magic_tokens := ts\<rparr>))) = Inr (l, d')"
      by (simp only: issueMagicLink_def e Some option.case cool_def)
    note r = this
    show ?thesis
    proof (cases "may_sign_in (user_status u) \<and> \<not> cool")
      case False
      with r have "l = None" "d' = d" by (auto split: if_splits)
      then show ?thesis by (rule that(1))
    next
      case True
      with r obtain ts where "upsert_token \<lparr>token_user = user_id u, token_digest = sha256 env t,
                       token_expires = now + magicLinkTtlMs, token_created = now\<rparr> (magic_tokens d) = Inr ts"
        "l = Some \<lparr>ml_email = e, ml_token = t, ml_expires = now + magicLinkTtlMs\<rparr>" "d' = d\<lparr>magic_tokens := ts\<rparr>"
        by (auto simp: bindE_Inr)
      with True show ?thesis by (intro that(2) [OF e Some]) simp_all
    qed
  qed
qed

lemma inv_issue:
  assumes inv: "auth_inv d" and i: "issueMagicLink env t now inputEmail d = Inr (l, d')"
  shows "auth_inv d'"
proof -
  from i show ?thesis
  proof (cases rule: issueMagicLink_Inr)
    case 1
    then show ?thesis using inv by simp
  next
    case (2 e u ts)
    define row where "row = \<lparr>token_user = user_id u, token_digest = sha256 env t,
                       token_expires = now + magicLinkTtlMs, token_created = now\<rparr>"
    have u: "find_user d (user_id u) = Some u" using 2(2) by (rule user_of_email_found)
    have free: "\<forall>x \<in> set (magic_tokens d). token_user x \<noteq> token_user row \<longrightarrow> token_digest x \<noteq> token_digest row"
      using 2(4) by (auto simp: upsert_token_def row_def [symmetric] list_ex_iff split: if_splits)
    have ts: "ts = (if token_user row \<in> token_user ` set (magic_tokens d)
        then map (\<lambda>x. if token_user x = token_user row then row else x) (magic_tokens d) else magic_tokens d @ [row])"
    proof -
      have "list_ex (\<lambda>x. token_user x = token_user row) (magic_tokens d) \<longleftrightarrow> token_user row \<in> token_user ` set (magic_tokens d)"
        unfolding list_ex_iff image_iff by metis
      then show ?thesis using 2(4) by (simp add: upsert_token_def row_def [symmetric] Let_def split: if_splits)
    qed
    have "map token_user (map (\<lambda>x. if token_user x = token_user row then row else x) xs) = map token_user xs" for xs
      by (induction xs) auto
    then have tu: "map token_user ts = (if token_user row \<in> token_user ` set (magic_tokens d)
        then map token_user (magic_tokens d) else map token_user (magic_tokens d) @ [user_id u])"
      by (simp add: ts row_def)
    have "token_user ` set ts = set (map token_user ts)" by simp
    then have users: "token_user ` set ts = insert (user_id u) (token_user ` set (magic_tokens d))"
      unfolding tu by (auto simp: row_def)
    have uniq: "distinct (map token_user ts)"
      using inv unfolding tu by (auto simp: auth_inv_def keys_unique_def row_def)
    have digests: "distinct (map token_digest ts)"
    proof (cases "token_user row \<in> token_user ` set (magic_tokens d)")
      case True
      then have eq: "ts = map (\<lambda>x. if token_user x = token_user row then row else x) (magic_tokens d)" by (simp add: ts)
      have "distinct (map (\<lambda>x. token_digest (if token_user x = token_user row then row else x)) xs)"
        if "distinct (map token_user xs)" "distinct (map token_digest xs)"
          "\<forall>x \<in> set xs. token_user x \<noteq> token_user row \<longrightarrow> token_digest x \<noteq> token_digest row" for xs
      proof -
        have "inj_on (\<lambda>x. token_digest (if token_user x = token_user row then row else x)) (set xs)"
        proof (rule inj_onI)
          fix x y assume xy: "x \<in> set xs" "y \<in> set xs"
            and eq: "token_digest (if token_user x = token_user row then row else x) =
              token_digest (if token_user y = token_user row then row else y)"
          have users: "token_user x = token_user y \<Longrightarrow> x = y" and digests: "token_digest x = token_digest y \<Longrightarrow> x = y"
            using that(1,2) xy by (auto simp: distinct_map inj_on_def)
          show "x = y"
            using eq users digests bspec [OF that(3) xy(1)] bspec [OF that(3) xy(2)]
            by (cases "token_user x = token_user row"; cases "token_user y = token_user row") simp_all
        qed
        then show ?thesis using that(1) by (simp add: distinct_map)
      qed
      then show ?thesis using inv free by (simp add: eq comp_def auth_inv_def keys_unique_def)
    next
      case False
      then have "\<forall>x \<in> set (magic_tokens d). token_digest x \<noteq> token_digest row" using free by (metis imageI)
      then have "token_digest row \<notin> token_digest ` set (magic_tokens d)" by (metis imageE)
      then show ?thesis using inv False by (simp add: ts auth_inv_def keys_unique_def)
    qed
    have "keys_unique d'" using inv uniq digests by (simp add: auth_inv_def keys_unique_def 2(6))
    moreover have "references_ok d'"
    proof -
      have "\<forall>x \<in> set ts. user_exists d (token_user x)"
      proof
        fix x assume "x \<in> set ts"
        then have "token_user x \<in> insert (user_id u) (token_user ` set (magic_tokens d))" using users by blast
        then show "user_exists d (token_user x)" using inv find_user_None [of d "user_id u"] u by (auto simp: auth_inv_def references_ok_def)
      qed
      then show ?thesis using inv by (simp add: auth_inv_def references_ok_def 2(6))
    qed
    moreover have "removed_clean d'"
    proof -
      have other: "user_id v \<noteq> user_id u" if "v \<in> set (users_table d)" "user_status v = Removed" for v
      proof
        assume eq: "user_id v = user_id u"
        have "distinct (map user_id (users_table d))" using inv by (simp add: auth_inv_def keys_unique_def)
        from find_user_unique [OF this that(1)] u have "Some v = Some u" unfolding eq by (rule trans [OF sym])
        then have "v = u" by simp
        with that(2) 2(3) show False by (simp add: may_sign_in_def)
      qed
      have "removed_clean d" using inv by (simp add: auth_inv_def)
      then show ?thesis using other by (simp add: removed_clean_def 2(6) users)
    qed
    moreover have "policy_ok d'" using inv by (simp add: auth_inv_def policy_ok_def 2(6))
    ultimately show ?thesis by (simp add: auth_inv_def)
  qed
qed

lemma inv_invite:
  assumes inv: "auth_inv d" and i: "inviteManagedUser env uuid now inputEmail inputRoles d = Inr (m, d')"
  shows "auth_inv d'"
  using i
proof (cases rule: inviteManagedUser_Inr)
  case (1 e rs uid ids d1)
  from 1(5) show ?thesis
  proof
    assume "\<exists>u. user_of_email d e = Some u \<and> user_status u = Removed \<and> uid = user_id u \<and>
          d1 = drop_assignments uid (set_status uid Pending now d)"
    then obtain u where u: "find_user d uid = Some u" and d1: "d1 = drop_assignments uid (set_status uid Pending now d)"
      using user_of_email_found by blast
    have "auth_inv d1" using inv 1(2) by (auto simp: d1 intro: inv_drop_assignments inv_set_status)
    moreover have "find_user d1 uid = Some (u\<lparr>user_status := Pending, user_updated := now\<rparr>)"
      using u by (simp add: d1 drop_assignments_def find_user_set_status)
    ultimately show ?thesis using inv_assign_roles [OF _ 1(3)] by simp
  next
    assume "user_of_email d e = None \<and> uid = uuid \<and> create_user now uuid e d = Inr d1"
    with inv_create_user [OF inv _ 1(2)] have "auth_inv d1" "\<exists>u. find_user d1 uid = Some u \<and> user_status u = Pending" by auto
    then show ?thesis using inv_assign_roles [OF _ 1(3)] by auto
  qed
qed

lemma auth_step_inv: "auth_inv d \<Longrightarrow> auth_inv (auth_after env e d)"
proof -
  assume inv: "auth_inv d"
  have c: "auth_inv (committed d r)" if "\<And>x d'. r = Inr (x, d') \<Longrightarrow> auth_inv d'" for r :: "access_error + 'a \<times> auth_db"
    using that inv by (auto simp: committed_def split: sum.splits)
  have status: "auth_inv d'" if "setManagedUserStatus env now st em d = Inr (m, d')" "st \<noteq> Removed" for now st em m d'
    using that(1) by (rule setManagedUserStatus_Inr) (use inv that(2) inv_has_policy in \<open>auto intro: inv_set_status\<close>)
  show ?thesis
  proof (cases e)
    case (ReplaceRoles em rs)
    have "auth_inv d'" if r: "replaceManagedUserRoles env em rs d = Inr (m, d')" for m d'
    proof -
      from r obtain u ids where u: "find_user d (user_id u) = Some u" "user_status u \<noteq> Removed"
        and a: "assign_roles (user_id u) ids rs (drop_assignments (user_id u) d) = Inr d'" by (rule replaceManagedUserRoles_Inr)
      then show ?thesis using inv_assign_roles [OF inv_drop_assignments [OF inv] a] by (simp add: drop_assignments_def)
    qed
    then show ?thesis by (auto simp: ReplaceRoles intro: c)
  next
    case (Remove now em)
    have "auth_inv d'" if r: "removeManagedUser env now em d = Inr (m, d')" for m d'
    proof -
      from r obtain u where u: "find_user d (user_id u) = Some u" "user_status u \<noteq> Removed"
        and d': "d' = set_status (user_id u) Removed now (drop_assignments (user_id u)
        (d\<lparr>magic_tokens := filter (\<lambda>t. token_user t \<noteq> user_id u) (magic_tokens d)\<rparr>))" by (rule removeManagedUser_Inr)
      have "settings d \<noteq> None" using inv u by (rule inv_has_policy)
      then show ?thesis unfolding d'
        using inv by (intro inv_set_status inv_drop_assignments inv_filter_tokens) (auto simp: drop_assignments_def)
    qed
    then show ?thesis by (auto simp: Remove intro: c)
  next
    case (ConsumeLink t iss now)
    then show ?thesis using inv inv_filter_tokens
      by (auto simp: consumeMagicLink_def delete_digest_def Let_def split: option.splits)
  next
    case ClearLinks
    then show ?thesis using inv_filter_tokens [OF inv, of "\<lambda>t. False"] by (simp add: clearMagicLinks_def)
  next
    case (RevokeLink t)
    then show ?thesis using inv inv_filter_tokens by (auto simp: revokeMagicLink_def delete_digest_def)
  qed (auto simp: enableManagedUser_def disableManagedUser_def intro: c status inv inv_apply inv_clear inv_invite inv_resolve inv_issue)
qed

lemma select_identity_Some:
  "select_identity d who = Some s \<Longrightarrow> \<exists>u. find_user d (si_user s) = Some u \<and> user_status u = si_status s"
  using find_user_Some by (fastforce simp: select_identity_def bind_eq_Some_conv)

section \<open>Runs\<close>

lemma auth_inv_empty: "auth_inv empty_auth_db"
  by (simp add: auth_inv_def keys_unique_def references_ok_def removed_clean_def policy_ok_def empty_auth_db_def)

interpretation auth: total_system "auth_step env" auth_inv "\<lambda>e d. True" for env
  by unfold_locales (auto simp: auth_step_def auth_step_inv)

lemma reachable_inv: "run_events (auth_step env) es empty_auth_db = Some d \<Longrightarrow> auth_inv d"
  by (rule auth.run_inv_free [OF _ auth_inv_empty]) simp_all

subsection \<open>Removed users\<close>

definition removed_as :: "string \<Rightarrow> string \<Rightarrow> auth_db \<Rightarrow> bool" where
  "removed_as uid e d \<longleftrightarrow> (\<exists>u. find_user d uid = Some u \<and> user_status u = Removed) \<and>
     (\<exists>r \<in> set (user_emails d). email_user r = uid \<and> email_address r = e)"

definition not_invited :: "access_env \<Rightarrow> string \<Rightarrow> auth_event \<Rightarrow> bool" where
  "not_invited env e ev \<longleftrightarrow> (\<forall>uuid now e' rs. ev = Invite uuid now e' rs \<longrightarrow> managedUserEmailSchema env e' \<noteq> Some e)"

lemma removed_as_set_status:
  "removed_as uid e d \<Longrightarrow> uid' \<noteq> uid \<Longrightarrow> removed_as uid e (set_status uid' st now d)"
  by (auto simp: removed_as_def find_user_set_status)

lemma removed_as_active: "removed_as uid e d \<Longrightarrow> find_user d uid' = Some u \<Longrightarrow> user_status u \<noteq> Removed \<Longrightarrow> uid' \<noteq> uid"
  by (auto simp: removed_as_def)

lemma removed_as_set_active:
  assumes "removed_as uid e d" "find_user d uid' = Some u" "user_status u \<noteq> Removed"
  shows "removed_as uid e (set_status uid' st now d)"
  using assms(1) removed_as_active [OF assms] by (rule removed_as_set_status)

lemma removed_as_cong:
  "users_table d' = users_table d \<Longrightarrow> user_emails d' = user_emails d \<Longrightarrow> removed_as uid e d' = removed_as uid e d"
  by (simp add: removed_as_def find_user_def)

lemma removed_as_keep:
  "removed_as uid e d \<Longrightarrow> users_table d' = users_table d \<Longrightarrow> user_emails d' = user_emails d \<Longrightarrow> removed_as uid e d'"
  by (simp add: removed_as_def find_user_def)

lemma assign_roles_tables: "assign_roles uid ids rs d = Inr d' \<Longrightarrow> users_table d' = users_table d \<and> user_emails d' = user_emails d"
  by (erule assign_roles_Inr) simp

lemma email_of_user:
  assumes "auth_inv d" "user_of_email d e' = Some u" "r \<in> set (user_emails d)" "email_user r = user_id u"
  shows "email_address r = e'"
proof -
  from assms(2) obtain r' where r': "find (\<lambda>r. email_address r = e') (user_emails d) = Some r'" "find_user d (email_user r') = Some u"
    by (auto simp: user_of_email_def bind_eq_Some_conv)
  then have "email_user r' = user_id u" using find_user_Some by metis
  with assms(1,3,4) find_Some_in [OF r'(1)] have "r = r'" by (auto simp: auth_inv_def keys_unique_def distinct_map inj_on_def)
  with find_Some_in [OF r'(1)] show ?thesis by simp
qed

lemma find_append: "find P (xs @ ys) = (case find P xs of None \<Rightarrow> find P ys | Some x \<Rightarrow> Some x)"
  by (induction xs) simp_all

lemma clear_tables: "clearAccessControl d = Inr (b, d') \<Longrightarrow> users_table d' = users_table d \<and> user_emails d' = user_emails d"
  by (cases "settings d = None") (auto simp: clearAccessControl_def bindE_Inr delete_roles_def)

lemma link_tables [simp]:
  "users_table (revokeMagicLink env t d) = users_table d" "user_emails (revokeMagicLink env t d) = user_emails d"
  "users_table (snd (consumeMagicLink env t iss now d)) = users_table d"
  "user_emails (snd (consumeMagicLink env t iss now d)) = user_emails d"
  "users_table (clearMagicLinks d) = users_table d" "user_emails (clearMagicLinks d) = user_emails d"
  by (simp_all add: revokeMagicLink_def consumeMagicLink_def clearMagicLinks_def delete_digest_def Let_def case_prod_unfold
      split: option.split)

lemma removed_as_invite:
  assumes inv: "auth_inv d" and r: "removed_as uid e d"
    and i: "inviteManagedUser env uuid now inputEmail inputRoles d = Inr (m, d')"
    and other: "managedUserEmailSchema env inputEmail \<noteq> Some e"
  shows "removed_as uid e d'"
  using i
proof (cases rule: inviteManagedUser_Inr)
  case (1 e' rs uid' ids d1)
  have "e' \<noteq> e" using 1(1) other by simp
  have same: "removed_as uid e d' = removed_as uid e d1" using assign_roles_tables [OF 1(3)] by (intro removed_as_cong) simp_all
  from 1(5) have "removed_as uid e d1"
  proof
    assume "\<exists>u. user_of_email d e' = Some u \<and> user_status u = Removed \<and> uid' = user_id u \<and>
          d1 = drop_assignments uid' (set_status uid' Pending now d)"
    then obtain u where u: "user_of_email d e' = Some u" "uid' = user_id u"
      and d1: "d1 = drop_assignments uid' (set_status uid' Pending now d)" by blast
    have "uid' \<noteq> uid" using email_of_user [OF inv u(1)] r u(2) \<open>e' \<noteq> e\<close> by (auto simp: removed_as_def)
    then show ?thesis using removed_as_set_status [OF r] by (simp add: d1 drop_assignments_def removed_as_def)
  next
    assume "user_of_email d e' = None \<and> uid' = uuid \<and> create_user now uuid e' d = Inr d1"
    then have "create_user now uuid e' d = Inr d1" by blast
    note c = create_user_Inr [OF this]
    have "find_user d1 uid = find_user d uid" using r c(2)
      by (auto simp: c(1) removed_as_def find_user_def find_append user_exists_iff split: option.splits)
    then show ?thesis using r by (auto simp: removed_as_def c(1))
  qed
  then show ?thesis by (simp add: same)
qed

lemma removed_as_resolve:
  assumes "resolveAccessControl now uuid who claim d = Inr (g, d')" "removed_as uid e d"
  shows "removed_as uid e d'"
proof (cases "settings d")
  case None
  then show ?thesis using assms by (simp add: resolveAccessControl_def)
next
  case (Some s)
  with assms(1) obtain refused si d1 where c: "claim_invitation now uuid who claim (select_identity d who) d = Inr (refused, si, d1)"
    and rest: "refused \<and> d' = d1 \<or> \<not> refused \<and> d' = snd (activate_pending now who claim si d1)"
    by (auto simp: resolveAccessControl_def bindE_Inr split: if_splits prod.splits)
  have pending: "removed_as uid e (set_status (si_user x) Active now d2)"
    if "removed_as uid e d2" "select_identity d2 who = Some x" "si_status x = Pending" for d2 x
    using select_identity_Some [OF that(2)] that(3) by (auto intro: removed_as_set_active [OF that(1)])
  have d1: "removed_as uid e d1 \<and> (\<not> refused \<longrightarrow> (\<forall>x. si = Some x \<and> si_status x = Pending \<longrightarrow> select_identity d1 who = Some x))"
    using c
  proof (cases rule: claim_invitation_Inr)
    case 1
    then show ?thesis using assms(2) by auto
  next
    case (2 ids d2)
    have r2: "removed_as uid e d2" using assms(2) 2(1) by (simp add: removed_as_def)
    then have "removed_as uid e d1" using 2(4) pending by auto
    moreover have "\<forall>x. si = Some x \<and> si_status x = Pending \<longrightarrow> select_identity d1 who = Some x" if "\<not> refused"
      using 2(5) that by auto
    ultimately show ?thesis by blast
  qed
  have "removed_as uid e (snd (activate_pending now who claim si d1))" if "\<not> refused"
    using d1 that activate_pending_state [of now who claim si d1] pending [of d1]
    by (cases "activate_pending now who claim si d1") auto
  with rest d1 show ?thesis by auto
qed

lemma removed_as_step:
  assumes inv: "auth_inv d" and r: "removed_as uid e d" and n: "not_invited env e ev"
  shows "removed_as uid e (auth_after env ev d)"
proof -
  have c: "removed_as uid e (committed d x)" if "\<And>y d'. x = Inr (y, d') \<Longrightarrow> removed_as uid e d'" for x :: "access_error + 'a \<times> auth_db"
    using that r by (auto simp: committed_def split: sum.splits)
  have status: "removed_as uid e d'" if "setManagedUserStatus env now st em d = Inr (m, d')" for now st em m d'
    using that by (rule setManagedUserStatus_Inr) (use r in \<open>auto intro: removed_as_set_active\<close>)
  show ?thesis
  proof (cases ev)
    case (ApplyPolicy uuid now cfg)
    have "removed_as uid e d'" if a: "applyAccessControl env uuid now cfg d = Inr (y, d')" for y d'
    proof -
      from a have tx: "apply_transaction env uuid now y d = Inr d'" and s: "accessControlConfigSchema env cfg = Some y"
        by (auto simp: applyAccessControl_def bindE_Inr split: option.splits)
      have "ac_roles y \<noteq> []" using schema_Some [OF s] by blast
      with tx have "users_table d' = users_table d \<and> user_emails d' = user_emails d"
        by (rule apply_transaction_effect) simp
      then show ?thesis by (auto intro: removed_as_keep [OF r])
    qed
    then show ?thesis by (auto simp: ApplyPolicy intro: c)
  next
    case ClearPolicy
    have "removed_as uid e d'" if "clearAccessControl d = Inr (y, d')" for y d'
      using clear_tables [OF that] by (auto intro: removed_as_keep [OF r])
    then show ?thesis by (auto simp: ClearPolicy intro: c)
  next
    case (Invite uuid now em rs)
    then show ?thesis using n by (auto simp: not_invited_def intro!: c intro: removed_as_invite [OF inv r])
  next
    case (ReplaceRoles em rs)
    have "removed_as uid e d'" if "replaceManagedUserRoles env em rs d = Inr (y, d')" for y d'
      using that
    proof (cases rule: replaceManagedUserRoles_Inr)
      case (1 u ids)
      from assign_roles_tables [OF 1(4)] show ?thesis by (auto simp: drop_assignments_def intro: removed_as_keep [OF r])
    qed
    then show ?thesis by (auto simp: ReplaceRoles intro: c)
  next
    case (Remove now em)
    have "removed_as uid e d'" if "removeManagedUser env now em d = Inr (y, d')" for y d'
      using that
    proof (cases rule: removeManagedUser_Inr)
      case (1 e' u)
      have "user_id u \<noteq> uid" using r 1(3,4) by (rule removed_as_active)
      then show ?thesis unfolding 1(6) using r by (intro removed_as_set_status) (simp_all add: drop_assignments_def removed_as_def)
    qed
    then show ?thesis by (auto simp: Remove intro: c)
  next
    case (Resolve now uuid who claim)
    have "removed_as uid e d'" if "resolveAccessControl now uuid who claim d = Inr (y, d')" for y d'
      using that r by (rule removed_as_resolve)
    then show ?thesis by (auto simp: Resolve intro: c)
  next
    case (IssueLink t now em)
    have "removed_as uid e d'" if "issueMagicLink env t now em d = Inr (y, d')" for y d'
      using that by (rule issueMagicLink_Inr) (use r in \<open>simp_all add: removed_as_def\<close>)
    then show ?thesis by (auto simp: IssueLink intro: c)
  next
    case (Enable now em)
    then show ?thesis by (auto simp: enableManagedUser_def intro: c status)
  next
    case (Disable now em)
    then show ?thesis by (auto simp: disableManagedUser_def intro: c status)
  qed (auto intro: removed_as_keep [OF r])
qed

interpretation removed_user: invariant_system "auth_step env" "\<lambda>d. auth_inv d \<and> removed_as uid e d"
    "\<lambda>ev d. not_invited env e ev" for env uid e
  by unfold_locales (auto simp: auth_step_def auth_step_inv removed_as_step)

lemma removed_after_remove:
  assumes "removeManagedUser env now inputEmail d = Inr (m, d')"
  obtains e where "managedUserEmailSchema env inputEmail = Some e" "removed_as (mu_id m) e d'"
  using assms
proof (cases rule: removeManagedUser_Inr)
  case (1 e u)
  from 1(2) obtain r where "r \<in> set (user_emails d)" "email_address r = e" "find_user d (email_user r) = Some u"
    by (auto simp: user_of_email_def bind_eq_Some_conv dest!: find_Some_in)
  moreover have "email_user r = user_id u" using calculation(3) find_user_Some by metis
  ultimately have "removed_as (mu_id m) e d'"
    using 1(3) by (auto simp: removed_as_def 1(5,6) find_user_set_status drop_assignments_def)
  then show ?thesis using that 1(1) by blast
qed

lemma select_identity_linked:
  assumes "auth_inv d" "i \<in> set (identities d)" "identity_issuer i = bi_issuer who" "identity_subject i = bi_subject who"
    "find_user d (identity_user i) = Some u"
  shows "\<exists>si. select_identity d who = Some si \<and> si_user si = identity_user i \<and> si_status si = user_status u"
proof -
  have only: "j = i" if "j \<in> set (identities d)" "identity_issuer j = bi_issuer who \<and> identity_subject j = bi_subject who" for j
  proof -
    have "distinct (map (\<lambda>i. (identity_issuer i, identity_subject i)) (identities d))"
      using assms(1) by (simp add: auth_inv_def keys_unique_def)
    then show ?thesis using assms(2-4) that unfolding distinct_map inj_on_def by simp
  qed
  have "find (\<lambda>i. identity_issuer i = bi_issuer who \<and> identity_subject i = bi_subject who) (identities d) = Some i"
    by (rule find_unique [OF assms(2) _ only]) (simp_all add: assms(3,4))
  then show ?thesis using assms(5) find_user_Some [OF assms(5)] by (simp add: select_identity_def)
qed

lemma resolve_blocked:
  assumes "select_identity d who = Some si" "si_status si \<notin> {Active, Pending}"
  shows "resolveAccessControl now uuid who claim d = Inr (if settings d = None then None else Some no_access, d)"
  using assms by (auto simp: resolveAccessControl_def claim_invitation_def activate_pending_def split: option.splits)

lemma resolve_removed:
  assumes "auth_inv d" "removed_as uid e d" "i \<in> set (identities d)" "identity_user i = uid"
    "identity_issuer i = bi_issuer who" "identity_subject i = bi_subject who"
  shows "resolveAccessControl now uuid who claim d = Inr (if settings d = None then None else Some no_access, d)"
proof -
  from assms(2,4) obtain u where u: "find_user d (identity_user i) = Some u" "user_status u = Removed" by (auto simp: removed_as_def)
  from select_identity_linked [OF assms(1,3,5,6) u(1)] u(2) obtain si
    where si: "select_identity d who = Some si" "si_status si = Removed" by auto
  show ?thesis by (rule resolve_blocked [OF si(1)]) (simp add: si(2))
qed

subsection \<open>Spent links\<close>

definition no_digest :: "string \<Rightarrow> auth_db \<Rightarrow> bool" where
  "no_digest h d \<longleftrightarrow> (\<forall>t \<in> set (magic_tokens d). token_digest t \<noteq> h)"

definition not_issued :: "access_env \<Rightarrow> string \<Rightarrow> auth_event \<Rightarrow> bool" where
  "not_issued env h ev \<longleftrightarrow> (\<forall>t now e. ev = IssueLink t now e \<longrightarrow> sha256 env t \<noteq> h)"

lemma tokens_kept:
  "setManagedUserStatus env now st em d = Inr (m, d') \<Longrightarrow> magic_tokens d' = magic_tokens d"
  "inviteManagedUser env uuid now em rs d = Inr (m, d') \<Longrightarrow> magic_tokens d' = magic_tokens d"
  "replaceManagedUserRoles env em rs d = Inr (m, d') \<Longrightarrow> magic_tokens d' = magic_tokens d"
  "clearAccessControl d = Inr (b, d') \<Longrightarrow> magic_tokens d' = magic_tokens d"
  "applyAccessControl env uuids now cfg d = Inr (c, d') \<Longrightarrow> magic_tokens d' = magic_tokens d"
  "resolveAccessControl now uuid who claim d = Inr (g, d') \<Longrightarrow> magic_tokens d' = magic_tokens d"
proof -
  show "setManagedUserStatus env now st em d = Inr (m, d') \<Longrightarrow> magic_tokens d' = magic_tokens d"
    by (erule setManagedUserStatus_Inr) simp
  show "inviteManagedUser env uuid now em rs d = Inr (m, d') \<Longrightarrow> magic_tokens d' = magic_tokens d"
    by (erule inviteManagedUser_Inr, erule assign_roles_Inr) (auto simp: drop_assignments_def dest!: create_user_Inr(1))
  show "replaceManagedUserRoles env em rs d = Inr (m, d') \<Longrightarrow> magic_tokens d' = magic_tokens d"
    by (erule replaceManagedUserRoles_Inr, erule assign_roles_Inr) (auto simp: drop_assignments_def)
  show "clearAccessControl d = Inr (b, d') \<Longrightarrow> magic_tokens d' = magic_tokens d"
    by (cases "settings d = None") (auto simp: clearAccessControl_def bindE_Inr delete_roles_def)
  show "magic_tokens d' = magic_tokens d" if a: "applyAccessControl env uuids now cfg d = Inr (c, d')"
  proof -
    from a have tx: "apply_transaction env uuids now c d = Inr d'" and s: "accessControlConfigSchema env cfg = Some c"
      by (auto simp: applyAccessControl_def bindE_Inr split: option.splits)
    have "ac_roles c \<noteq> []" using schema_Some [OF s] by blast
    with tx show ?thesis by (rule apply_transaction_effect) simp
  qed
  show "magic_tokens d' = magic_tokens d" if r: "resolveAccessControl now uuid who claim d = Inr (g, d')"
  proof (cases "settings d")
    case None
    then show ?thesis using r by (simp add: resolveAccessControl_def)
  next
    case (Some s)
    with r obtain refused si d1 where c: "claim_invitation now uuid who claim (select_identity d who) d = Inr (refused, si, d1)"
      and rest: "refused \<and> d' = d1 \<or> \<not> refused \<and> d' = snd (activate_pending now who claim si d1)"
      by (auto simp: resolveAccessControl_def bindE_Inr split: if_splits prod.splits)
    have "magic_tokens d1 = magic_tokens d" using c by (rule claim_invitation_Inr) auto
    then show ?thesis
      using rest activate_pending_state [of now who claim si d1] by (cases "activate_pending now who claim si d1") auto
  qed
qed

lemma no_digest_step:
  assumes n: "no_digest h d" and i: "not_issued env h ev"
  shows "no_digest h (auth_after env ev d)"
proof -
  have c: "no_digest h (committed d x)" if "\<And>y d'. x = Inr (y, d') \<Longrightarrow> no_digest h d'" for x :: "access_error + 'a \<times> auth_db"
    using that n by (auto simp: committed_def split: sum.splits)
  have keep: "no_digest h d'" if "magic_tokens d' = magic_tokens d" for d' using n that by (simp add: no_digest_def)
  show ?thesis
  proof (cases ev)
    case (Remove now em)
    have "no_digest h d'" if "removeManagedUser env now em d = Inr (y, d')" for y d'
      using that by (rule removeManagedUser_Inr) (use n in \<open>simp add: no_digest_def drop_assignments_def\<close>)
    then show ?thesis by (auto simp: Remove intro: c)
  next
    case (IssueLink t now em)
    have "no_digest h d'" if "issueMagicLink env t now em d = Inr (y, d')" for y d'
      using that
    proof (cases rule: issueMagicLink_Inr)
      case (2 e u ts)
      have "sha256 env t \<noteq> h" using i by (auto simp: not_issued_def IssueLink)
      then show ?thesis using 2(4) n
        by (auto simp: 2(6) no_digest_def upsert_token_def Let_def split: if_splits)
    qed (use n in simp)
    then show ?thesis by (auto simp: IssueLink intro: c)
  next
    case (RevokeLink t)
    then show ?thesis using n by (simp add: revokeMagicLink_def delete_digest_def no_digest_def)
  next
    case (ConsumeLink t iss now)
    then show ?thesis using n
      by (simp add: consumeMagicLink_def delete_digest_def no_digest_def Let_def case_prod_unfold split: option.split)
  next
    case ClearLinks
    then show ?thesis by (simp add: clearMagicLinks_def no_digest_def)
  qed (auto simp: enableManagedUser_def disableManagedUser_def intro!: c intro: keep dest!: tokens_kept)
qed

interpretation spent: invariant_system "auth_step env" "no_digest h" "\<lambda>ev d. not_issued env h ev" for env h
  by unfold_locales (auto simp: auth_step_def no_digest_step)

lemma consume_spends: "magicLinkTokenSchema t \<Longrightarrow> no_digest (sha256 env t) (snd (consumeMagicLink env t iss now d))"
  by (simp add: consumeMagicLink_def delete_digest_def no_digest_def Let_def case_prod_unfold split: option.split)

lemma consume_no_digest: "no_digest (sha256 env t) d \<Longrightarrow> fst (consumeMagicLink env t iss now d) = None"
proof -
  assume "no_digest (sha256 env t) d"
  then have "find (\<lambda>r. token_digest r = sha256 env t) (magic_tokens d) = None" by (auto simp: no_digest_def find_None_iff)
  then show ?thesis by (simp add: consumeMagicLink_def stored_link_def Let_def)
qed

lemma user_email_of:
  assumes "auth_inv d" "user_of_email d e = Some u"
  shows "user_email d (user_id u) = Some e"
proof -
  from assms(2) obtain r where r: "r \<in> set (user_emails d)" "email_address r = e" "find_user d (email_user r) = Some u"
    by (auto simp: user_of_email_def bind_eq_Some_conv dest!: find_Some_in)
  have uid: "email_user r = user_id u" using find_user_Some [OF r(3)] by simp
  have "distinct (map email_user (user_emails d))" using assms(1) by (simp add: auth_inv_def keys_unique_def)
  then have "find (\<lambda>x. email_user x = user_id u) (user_emails d) = Some r"
    using r(1) uid by (intro find_unique) (simp_all add: distinct_map inj_on_def)
  then show ?thesis by (simp add: user_email_def r(2))
qed

lemma stored_link_issued:
  assumes inv: "auth_inv d" and i: "issueMagicLink env t now em d = Inr (Some l, d')"
  obtains u where "user_of_email d (ml_email l) = Some u" "may_sign_in (user_status u)"
    "stored_link d' (sha256 env t) = Some (user_id u, now + magicLinkTtlMs, user_status u, ml_email l)"
  using i
proof (cases rule: issueMagicLink_Inr)
  case (2 e u ts)
  let ?row = "\<lparr>token_user = user_id u, token_digest = sha256 env t, token_expires = now + magicLinkTtlMs, token_created = now\<rparr>"
  have "?row \<in> set ts" using 2(4) by (auto simp: upsert_token_def Let_def list_ex_iff split: if_splits)
  moreover have "distinct (map token_digest ts)"
    using inv_issue [OF inv i] by (simp add: auth_inv_def keys_unique_def 2(6))
  ultimately have f: "find (\<lambda>x. token_digest x = sha256 env t) (magic_tokens d') = Some ?row"
    unfolding 2(6) by (intro find_unique) (auto simp: distinct_map inj_on_def)
  have fu: "find_user d' (user_id u) = Some u" using user_of_email_found [OF 2(2)] by (simp add: 2(6))
  have ue: "user_email d' (user_id u) = Some e" using user_email_of [OF inv 2(2)] by (simp add: user_email_def 2(6))
  have "stored_link d' (sha256 env t) = Some (user_id u, now + magicLinkTtlMs, user_status u, e)"
    unfolding stored_link_def f bind.bind_lunit token_row.select_convs fu ue option.map(2) by (rule refl)
  then show ?thesis using 2(2,3,5) by (intro that [of u]) simp_all
qed simp

section \<open>A demonstration database\<close>

definition demo_env :: access_env where
  "demo_env = \<lparr>email_valid = (\<lambda>e. CHR ''@'' \<in> set e), url_valid = (\<lambda>u. True), sha256 = (\<lambda>s. s),
     locale_compare = (\<lambda>a b. if a < b then - 1 else if a = b then 0 else 1)\<rparr>"

definition demo_policy :: access_config where
  "demo_policy = \<lparr>ac_roles =
       [\<lparr>ar_name = ''user'', ar_description = [], ar_permissions = [InferenceChat]\<rparr>,
        \<lparr>ar_name = ''admin'', ar_description = ''all'', ar_permissions = [AccessManage, AccessRead]\<rparr>],
     ac_bindings = [EmailBinding ''admin'' ''Root@x.io'', DomainBinding ''user'' ''x.io''], ac_defaultRole = None\<rparr>"

definition demo_token :: string where
  "demo_token = replicate 43 CHR ''a''"

definition demo_invited :: "auth_event list" where
  "demo_invited = [ApplyPolicy (\<lambda>i. if i = 0 then ''r0'' else ''r1'') 1 demo_policy, Invite ''u0'' 2 ''Ann@y.org'' [''user'']]"

definition demo_who :: browser_identity where
  "demo_who = \<lparr>bi_issuer = ''iss'', bi_subject = ''u0'', bi_email = Some ''ann@y.org''\<rparr>"

definition demo_linked :: "auth_event list" where
  "demo_linked = demo_invited @ [Resolve 3 ''i0'' demo_who True]"

definition demo_db :: auth_db where
  "demo_db = the (run_events (auth_step demo_env) demo_linked empty_auth_db)"

lemma demo_db_run: "run_events (auth_step demo_env) demo_linked empty_auth_db = Some demo_db"
proof -
  have "run_allows (\<lambda>e d. True) (auth_step demo_env) demo_linked empty_auth_db" by (rule run_allowsI) simp
  from auth.run_total [OF auth_inv_empty this] show ?thesis by (auto simp: demo_db_def)
qed

lemma demo_env_lower: "email_valid demo_env e \<Longrightarrow> email_valid demo_env (to_lower e)"
proof -
  have at: "lower_char CHR ''@'' = CHR ''@''" by (simp add: lower_char_def)
  assume "email_valid demo_env e"
  then have "CHR ''@'' \<in> set e" by (simp add: demo_env_def)
  then have "lower_char CHR ''@'' \<in> lower_char ` set e" by (rule imageI)
  then show ?thesis by (simp add: demo_env_def to_lower_def at)
qed

lemma demo_db_settings: "settings demo_db = Some \<lparr>default_role_id = None, settings_updated = 1\<rparr>"
  by code_simp

lemma demo_db_identities: "identities demo_db =
    [\<lparr>identity_id = ''i0'', identity_user = ''u0'', identity_issuer = ''iss'', identity_subject = ''u0'',
      identity_email = Some ''ann@y.org'', identity_created = 3, identity_seen = 3\<rparr>]"
  by code_simp

section \<open>Properties\<close>

text \<open>
  C26: every state the authorization operations can reach from an empty database keeps its keys
  unique and its references valid; while no policy is stored there is no role and every managed
  user is removed; while one is stored some role that an identity can obtain without an
  assignment grants \<open>access:manage\<close>, so the policy can never lock its managers out; and a removed
  user has no role assignment and no sign-in link.
\<close>

theorem reachable_auth_state:
  assumes "run_events (auth_step env) es empty_auth_db = Some d"
  shows "keys_unique d \<and> references_ok d \<and>
    (settings d = None \<longrightarrow> roles_table d = [] \<and> (\<forall>u \<in> set (users_table d). user_status u = Removed)) \<and>
    (settings d \<noteq> None \<longrightarrow> (\<exists>rid \<in> set (bound_role_ids d). (rid, AccessManage) \<in> set (role_permissions d))) \<and>
    (\<forall>u \<in> set (users_table d). user_status u = Removed \<longrightarrow>
       user_id u \<notin> fst ` set (user_roles d) \<and> user_id u \<notin> token_user ` set (magic_tokens d))"
  using reachable_inv [OF assms] by (auto simp: auth_inv_def policy_ok_def removed_clean_def)

theorem reachable_auth_state_witness:
  "\<exists>rid \<in> set (bound_role_ids demo_db). (rid, AccessManage) \<in> set (role_permissions demo_db)"
  using reachable_auth_state [OF demo_db_run] by (simp add: demo_db_settings)

text \<open>
  loading a policy returns the policy that was applied.  In every reachable database, when
  \<open>applyAccessControl\<close> succeeds and returns a policy, \<open>loadAccessControl\<close> afterwards succeeds
  with the same roles, bindings and default role up to order, and both have the same revision
  (the value compared to detect concurrent edits), given that zod accepts the lower case of every
  email address it accepts.
\<close>

theorem policy_round_trip:
  assumes "run_events (auth_step env) es empty_auth_db = Some d"
    and "applyAccessControl env uuid now input d = Inr (config, d')"
    and "\<And>e. email_valid env e \<Longrightarrow> email_valid env (to_lower e)"
  shows "\<exists>loaded. loadAccessControl env d' = Inr (Some loaded) \<and>
    mset (ac_roles loaded) = mset (ac_roles config) \<and> mset (ac_bindings loaded) = mset (ac_bindings config) \<and>
    ac_defaultRole loaded = ac_defaultRole config \<and>
    accessControlRevision env (Some loaded) = accessControlRevision env (Some config)"
proof -
  have "auth_inv d" using assms(1) by (rule reachable_inv)
  then have "distinct (map role_name (roles_table d))" "distinct (map role_id (roles_table d))"
    by (simp_all add: auth_inv_def keys_unique_def)
  from apply_load_same [OF assms(2) this assms(3)] show ?thesis by (metis same_policy_def)
qed

theorem policy_round_trip_witness:
  "\<exists>config d' loaded. applyAccessControl demo_env (\<lambda>i. ''r2'') 5 demo_policy demo_db = Inr (config, d') \<and>
     loadAccessControl demo_env d' = Inr (Some loaded) \<and>
     accessControlRevision demo_env (Some loaded) = accessControlRevision demo_env (Some config)"
proof -
  have "\<not> isl (applyAccessControl demo_env (\<lambda>i. ''r2'') 5 demo_policy demo_db)" by code_simp
  then obtain config d' where a: "applyAccessControl demo_env (\<lambda>i. ''r2'') 5 demo_policy demo_db = Inr (config, d')"
    by (cases "applyAccessControl demo_env (\<lambda>i. ''r2'') 5 demo_policy demo_db") auto
  from policy_round_trip [OF demo_db_run a demo_env_lower] a show ?thesis by blast
qed

text \<open>
  C23: a removed user stays out until invited again.  After \<open>removeManagedUser\<close> succeeds in a
  reachable database, and after any further operations other than an invitation of the same
  email address, every identity linked to that user resolves to no role and no permission
  (\<open>null\<close> when the policy itself was cleared), and the lookup changes nothing.
\<close>

theorem removed_user_stays_out:
  assumes "run_events (auth_step env) es empty_auth_db = Some d"
    and "removeManagedUser env now e d = Inr (m, d')"
    and "run_events (auth_step env) fs d' = Some d''"
    and "\<And>uuid t e' rs. Invite uuid t e' rs \<in> set fs \<Longrightarrow> managedUserEmailSchema env e' \<noteq> managedUserEmailSchema env e"
    and "i \<in> set (identities d'')" "identity_user i = mu_id m"
    and "identity_issuer i = bi_issuer who" "identity_subject i = bi_subject who"
  shows "resolveAccessControl t uuid who claim d'' = Inr (if settings d'' = None then None else Some no_access, d'')"
proof -
  have inv: "auth_inv d" using assms(1) by (rule reachable_inv)
  have inv': "auth_inv d'" using auth_step_inv [OF inv, of env "Remove now e"] assms(2) by (simp add: committed_def)
  obtain e0 where e0: "managedUserEmailSchema env e = Some e0" "removed_as (mu_id m) e0 d'"
    by (rule removed_after_remove [OF assms(2)])
  have "run_allows (\<lambda>ev d. not_invited env e0 ev) (auth_step env) fs d'"
    using assms(4) e0(1) by (intro run_allowsI) (auto simp: not_invited_def)
  then have "auth_inv d'' \<and> removed_as (mu_id m) e0 d''" using removed_user.run_inv inv' e0(2) assms(3) by blast
  with assms(5-8) show ?thesis by (blast intro: resolve_removed)
qed

definition demo_removed :: auth_db where
  "demo_removed = auth_after demo_env (Remove 7 ''ann@y.org'') demo_db"

theorem removed_user_stays_out_witness:
  "resolveAccessControl 9 ''i1'' demo_who True (auth_after demo_env (Invite ''u1'' 8 ''bob@y.org'' [''admin'']) demo_removed) =
     Inr (Some no_access, auth_after demo_env (Invite ''u1'' 8 ''bob@y.org'' [''admin'']) demo_removed)"
proof -
  let ?d = "auth_after demo_env (Invite ''u1'' 8 ''bob@y.org'' [''admin'']) demo_removed"
  have "\<not> isl (removeManagedUser demo_env 7 ''ann@y.org'' demo_db)" by code_simp
  then obtain m d' where r: "removeManagedUser demo_env 7 ''ann@y.org'' demo_db = Inr (m, d')"
    by (cases "removeManagedUser demo_env 7 ''ann@y.org'' demo_db") auto
  then have d': "d' = demo_removed" by (simp add: demo_removed_def committed_def)
  have "map_sum id (mu_id \<circ> fst) (removeManagedUser demo_env 7 ''ann@y.org'' demo_db) = Inr ''u0''" by code_simp
  then have m: "mu_id m = ''u0''" by (simp add: r)
  have run: "run_events (auth_step demo_env) [Invite ''u1'' 8 ''bob@y.org'' [''admin'']] d' = Some ?d"
    by (simp add: auth_step_def d')
  have other: "managedUserEmailSchema demo_env ''bob@y.org'' \<noteq> managedUserEmailSchema demo_env ''ann@y.org''" by code_simp
  have ids: "identities ?d = [\<lparr>identity_id = ''i0'', identity_user = ''u0'', identity_issuer = ''iss'', identity_subject = ''u0'',
      identity_email = Some ''ann@y.org'', identity_created = 3, identity_seen = 3\<rparr>]" by code_simp
  have s: "settings ?d \<noteq> None" by code_simp
  have "resolveAccessControl 9 ''i1'' demo_who True ?d = Inr (if settings ?d = None then None else Some no_access, ?d)"
    by (rule removed_user_stays_out [OF demo_db_run r run, of "hd (identities ?d)"])
      (use other in \<open>simp_all add: ids m demo_who_def del: auth_after.simps\<close>)
  with s show ?thesis by simp
qed

text \<open>
  C27: a sign-in link works at most once.  Presenting a token spends it, whatever the answer was:
  after any further operations that do not issue a link with the same digest, presenting it again
  signs nobody in.
\<close>

theorem magic_link_single_use:
  assumes "run_events (auth_step env) es (snd (consumeMagicLink env t iss now d)) = Some d''"
    and "\<And>t' n e. IssueLink t' n e \<in> set es \<Longrightarrow> sha256 env t' \<noteq> sha256 env t"
  shows "fst (consumeMagicLink env t iss' now' d'') = None"
proof (cases "magicLinkTokenSchema t")
  case True
  have "run_allows (\<lambda>ev d. not_issued env (sha256 env t) ev) (auth_step env) es (snd (consumeMagicLink env t iss now d))"
    using assms(2) by (intro run_allowsI) (auto simp: not_issued_def)
  then have "no_digest (sha256 env t) d''" using spent.run_inv consume_spends [OF True] assms(1) by blast
  then show ?thesis by (rule consume_no_digest)
qed (simp add: consumeMagicLink_def)

definition demo_issued :: auth_db where
  "demo_issued = auth_after demo_env (IssueLink demo_token 1000 ''ann@y.org'') demo_db"

theorem magic_link_single_use_witness:
  "fst (consumeMagicLink demo_env demo_token ''iss'' 2000 demo_issued) \<noteq> None \<and>
   fst (consumeMagicLink demo_env demo_token ''iss'' 2001
     (auth_after demo_env (Disable 8 ''ann@y.org'') (snd (consumeMagicLink demo_env demo_token ''iss'' 2000 demo_issued)))) = None"
proof
  show "fst (consumeMagicLink demo_env demo_token ''iss'' 2000 demo_issued) \<noteq> None" by code_simp
  show "fst (consumeMagicLink demo_env demo_token ''iss'' 2001
     (auth_after demo_env (Disable 8 ''ann@y.org'') (snd (consumeMagicLink demo_env demo_token ''iss'' 2000 demo_issued)))) = None"
    by (rule magic_link_single_use [where es = "[Disable 8 ''ann@y.org'']"]) (simp_all add: auth_step_def)
qed

text \<open>
  a link signs in the invited user for fifteen minutes.  When \<open>issueMagicLink\<close> in a reachable
  database returns a link, presenting its token afterwards returns an identity of the user with
  that email, with the email verified, exactly when less than 15 minutes have passed.
\<close>

theorem magic_link_round_trip:
  assumes "run_events (auth_step env) es empty_auth_db = Some d"
    and "issueMagicLink env t now e d = Inr (Some l, d')" "magicLinkTokenSchema t"
  shows "\<exists>u. user_of_email d (ml_email l) = Some u \<and>
    fst (consumeMagicLink env t iss now' d') =
      (if now' < now + 900000 then Some \<lparr>bi_issuer = iss, bi_subject = user_id u, bi_email = Some (ml_email l)\<rparr> else None)"
proof -
  have "auth_inv d" using assms(1) by (rule reachable_inv)
  from stored_link_issued [OF this assms(2)] obtain u where u: "user_of_email d (ml_email l) = Some u" "may_sign_in (user_status u)"
    "stored_link d' (sha256 env t) = Some (user_id u, now + magicLinkTtlMs, user_status u, ml_email l)" .
  then show ?thesis using assms(3) by (auto simp: consumeMagicLink_def Let_def magicLinkTtlMs_def)
qed

theorem magic_link_round_trip_witness:
  "\<exists>l d' u. issueMagicLink demo_env demo_token 1000 ''ann@y.org'' demo_db = Inr (Some l, d') \<and>
     fst (consumeMagicLink demo_env demo_token ''iss'' 2000 d') = Some \<lparr>bi_issuer = ''iss'', bi_subject = u, bi_email = Some (ml_email l)\<rparr>"
proof -
  have "map_sum id (\<lambda>r. fst r \<noteq> None) (issueMagicLink demo_env demo_token 1000 ''ann@y.org'' demo_db) = Inr True" by code_simp
  then obtain l d' where i: "issueMagicLink demo_env demo_token 1000 ''ann@y.org'' demo_db = Inr (Some l, d')"
    by (cases "issueMagicLink demo_env demo_token 1000 ''ann@y.org'' demo_db") auto
  have "magicLinkTokenSchema demo_token" by code_simp
  from magic_link_round_trip [OF demo_db_run i this, of "''iss''" 2000] i show ?thesis by auto
qed

end
