(* ===== verification/Supervisor_Registry.thy ===== *)
theory Supervisor_Registry
  imports Modality_Admission Inference_Queue
begin

text \<open>
  The supervisors of one gateway and what is reported about them:
  \<^verbatim>\<open>src/src/domains/runtime/supervisor-registry.ts\<close> and \<^verbatim>\<open>lifecycle-snapshot.ts\<close>.
  A supervisor is a number; what it answers (its state, its runtime's id, its slots) comes from the
  process it watches and is an argument.
\<close>

section \<open>The registry\<close>

record registry =
  sr_services :: "runtime_modality \<Rightarrow> nat option"
  sr_draining :: "runtime_modality \<Rightarrow> bool"
  sr_failed :: "runtime_modality \<Rightarrow> bool"

definition new_registry :: "(runtime_modality \<Rightarrow> nat option) \<Rightarrow> registry" where
  "new_registry services = \<lparr>sr_services = services, sr_draining = (\<lambda>_. False), sr_failed = (\<lambda>_. False)\<rparr>"

definition get_service :: "runtime_modality \<Rightarrow> registry \<Rightarrow> nat option" where
  "get_service m r = sr_services r m"

text \<open>\<open>add\<close> throws when the modality has a supervisor.\<close>

definition add_service :: "runtime_modality \<Rightarrow> nat \<Rightarrow> registry \<Rightarrow> registry option" where
  "add_service m s r =
     (if sr_services r m \<noteq> None then None
      else Some (r\<lparr>sr_services := (sr_services r)(m := Some s), sr_draining := (sr_draining r)(m := False),
        sr_failed := (sr_failed r)(m := False)\<rparr>))"

definition take_service :: "runtime_modality \<Rightarrow> registry \<Rightarrow> nat option \<times> registry" where
  "take_service m r =
     (case sr_services r m of
        None \<Rightarrow> (None, r)
      | Some s \<Rightarrow> (Some s, r\<lparr>sr_services := (sr_services r)(m := None), sr_draining := (sr_draining r)(m := False)\<rparr>))"

definition markDraining :: "runtime_modality \<Rightarrow> registry \<Rightarrow> registry" where
  "markDraining m r = r\<lparr>sr_draining := (sr_draining r)(m := True), sr_failed := (sr_failed r)(m := False)\<rparr>"

definition markFailed :: "runtime_modality \<Rightarrow> registry \<Rightarrow> registry" where
  "markFailed m r = r\<lparr>sr_draining := (sr_draining r)(m := False), sr_failed := (sr_failed r)(m := True)\<rparr>"

definition clearDraining :: "runtime_modality \<Rightarrow> registry \<Rightarrow> registry" where
  "clearDraining m r = r\<lparr>sr_draining := (sr_draining r)(m := False)\<rparr>"

definition clearFailure :: "runtime_modality \<Rightarrow> registry \<Rightarrow> registry" where
  "clearFailure m r = r\<lparr>sr_failed := (sr_failed r)(m := False)\<rparr>"

section \<open>Lifecycle snapshots\<close>

text \<open>\<open>None\<close> is an admission of kind \<open>unknown\<close>.\<close>

record execution_snapshot =
  ex_slots :: "int option"
  ex_activeAdmissions :: "int option"
  ex_available :: "int option"
  ex_immediateDispatchAvailable :: "bool option"

record lifecycle_snapshot =
  lc_modality :: runtime_modality
  lc_configured :: bool
  lc_state :: lifecycle_state
  lc_modelId :: "string option"
  lc_runtimeId :: "string option"
  lc_admission :: "admission_snapshot option"
  lc_execution :: execution_snapshot
  lc_queue :: "inference_queue_snapshot option"

definition immediateDispatchAvailability ::
  "lifecycle_state \<Rightarrow> admission_snapshot option \<Rightarrow> inference_queue_snapshot option \<Rightarrow> bool option" where
  "immediateDispatchAvailability state admission queue =
     (case queue of
        None \<Rightarrow> None
      | Some q \<Rightarrow>
          if \<not> qs_accepting q \<or> state = Draining \<or>
             (case admission of Some a \<Rightarrow> \<not> as_accepting a | None \<Rightarrow> False) then Some False
          else (case admission of None \<Rightarrow> None | Some a \<Rightarrow> qs_immediateDispatchAvailable q))"

definition createRuntimeLifecycleSnapshot ::
  "runtime_modality \<Rightarrow> bool \<Rightarrow> lifecycle_state \<Rightarrow> string option \<Rightarrow> string option \<Rightarrow> admission_snapshot option \<Rightarrow>
   int option \<Rightarrow> inference_queue_snapshot option \<Rightarrow> lifecycle_snapshot" where
  "createRuntimeLifecycleSnapshot m configured state modelId runtimeId admission configuredSlots input_queue =
     (let immediate = immediateDispatchAvailability state admission input_queue;
          queue = map_option (\<lambda>q. q\<lparr>qs_immediateDispatchAvailable := immediate\<rparr>) input_queue;
          activeAdmissions = map_option qs_active queue
      in \<lparr>lc_modality = m, lc_configured = configured, lc_state = state, lc_modelId = modelId, lc_runtimeId = runtimeId,
          lc_admission = admission,
          lc_execution = \<lparr>ex_slots = configuredSlots, ex_activeAdmissions = activeAdmissions,
            ex_available = (case (configuredSlots, activeAdmissions) of
                (Some s, Some a) \<Rightarrow> Some (max 0 (s - a)) | _ \<Rightarrow> None),
            ex_immediateDispatchAvailable = immediate\<rparr>,
          lc_queue = queue\<rparr>)"

text \<open>
  \<open>lifecycleSnapshot\<close> of the registry.  \<open>admission\<close> is the caller's or the admission reader's;
  \<open>state_of\<close>, \<open>runtime_id\<close> and \<open>slots_of\<close> are what the supervisor answers.
\<close>

definition registry_state :: "(nat \<Rightarrow> lifecycle_state) \<Rightarrow> runtime_modality \<Rightarrow> bool \<Rightarrow> registry \<Rightarrow> lifecycle_state" where
  "registry_state state_of m configured r =
     (if sr_draining r m then Draining
      else if sr_failed r m then Failed
      else case sr_services r m of Some s \<Rightarrow> if configured then state_of s else Disabled | None \<Rightarrow> Disabled)"

definition registry_lifecycleSnapshot ::
  "(nat \<Rightarrow> lifecycle_state) \<Rightarrow> (nat \<Rightarrow> string) \<Rightarrow> (nat \<Rightarrow> int option) \<Rightarrow> runtime_modality \<Rightarrow> bool \<Rightarrow> string option \<Rightarrow>
   admission_snapshot option \<Rightarrow> inference_queue_snapshot option \<Rightarrow> registry \<Rightarrow> lifecycle_snapshot" where
  "registry_lifecycleSnapshot state_of runtime_id slots_of m configured modelId admission queue r =
     createRuntimeLifecycleSnapshot m configured (registry_state state_of m configured r) modelId
       (map_option runtime_id (sr_services r m)) admission
       (case sr_services r m of None \<Rightarrow> None | Some s \<Rightarrow> slots_of s) queue"

section \<open>Lemmas\<close>

lemma add_service_Some:
  "add_service m s r = Some r' \<longleftrightarrow> sr_services r m = None \<and>
     r' = r\<lparr>sr_services := (sr_services r)(m := Some s), sr_draining := (sr_draining r)(m := False),
        sr_failed := (sr_failed r)(m := False)\<rparr>"
  by (auto simp: add_service_def)

lemma take_service_parts:
  "fst (take_service m r) = sr_services r m"
  "sr_services (snd (take_service m r)) = (sr_services r)(m := None)"
  by (auto simp: take_service_def fun_eq_iff split: option.split)

lemma take_add_service: "add_service m s r = Some r' \<Longrightarrow> fst (take_service m r') = Some s"
  by (auto simp: add_service_Some take_service_def)

lemma marks_keep_services [simp]:
  "sr_services (markDraining m r) = sr_services r" "sr_services (markFailed m r) = sr_services r"
  "sr_services (clearDraining m r) = sr_services r" "sr_services (clearFailure m r) = sr_services r"
  by (simp_all add: markDraining_def markFailed_def clearDraining_def clearFailure_def)

text \<open>A snapshot never offers immediate dispatch for a backend that drains or a barrier that is shut.\<close>

lemma immediate_dispatch_needs_open_barrier:
  assumes "ex_immediateDispatchAvailable (lc_execution (registry_lifecycleSnapshot st rid sl m c mid adm q r)) = Some True"
  shows "\<not> sr_draining r m \<and> (\<exists>a. adm = Some a \<and> as_accepting a) \<and> (\<exists>q'. q = Some q' \<and> qs_accepting q')"
  using assms
  by (auto simp: registry_lifecycleSnapshot_def createRuntimeLifecycleSnapshot_def Let_def immediateDispatchAvailability_def
      registry_state_def split: option.splits if_splits)

end
