(* ===== verification/Model_Eligibility.thy ===== *)
theory Model_Eligibility
  imports Model_Catalog Memory_Safety "HOL-Library.Sublist"
begin

text \<open>
  Which catalog models a host may run: \<^verbatim>\<open>src/src/domains/models/model-eligibility.ts\<close>.
  The process's own platform and architecture are parameters.
\<close>

datatype ineligibility = ExperimentalOptInRequired | UnsupportedModelTarget

fun experimental_text :: "ineligibility \<Rightarrow> string" where
  "experimental_text ExperimentalOptInRequired = ''Experimental models require models.allowExperimental = true.''"
| "experimental_text UnsupportedModelTarget = ''Requires Linux x64 with a single NVIDIA GPU.''"

definition videoTargetFromTopology :: "memory_topology \<Rightarrow> string \<Rightarrow> string \<Rightarrow> video_target option" where
  "videoTargetFromTopology topology platform arch =
     (if platform = ''linux'' \<and> arch = ''x64'' \<and>
         (case topology of Discrete _ [accelerator] \<Rightarrow> prefix ''nvidia:'' (pool_id accelerator) | _ \<Rightarrow> False)
      then Some \<lparr>vt_platform = ''linux'', vt_architecture = ''x64'', vt_accelerator = ''nvidia''\<rparr>
      else if platform = ''darwin'' \<and> arch = ''arm64'' \<and> (case topology of Unified _ _ \<Rightarrow> True | _ \<Rightarrow> False)
      then Some \<lparr>vt_platform = ''darwin'', vt_architecture = ''arm64'', vt_accelerator = ''apple-unified''\<rparr>
      else None)"

text \<open>
  The options: \<open>el_target\<close> is \<open>None\<close> when the caller gives no target, and \<open>Some None\<close> for a target
  that is \<open>null\<close>.
\<close>

record eligibility_options =
  el_allowExperimental :: "bool option"
  el_target :: "video_target option option"
  el_platform :: "string option"
  el_architecture :: "string option"

definition modelEligibilityReason :: "string \<Rightarrow> string \<Rightarrow> model_spec \<Rightarrow> eligibility_options \<Rightarrow> ineligibility option" where
  "modelEligibilityReason process_platform process_arch model options =
     (if sp_qualificationState model = Some Experimental \<and> el_allowExperimental options \<noteq> Some True
      then Some ExperimentalOptInRequired
      else
        (case sp_videoRuntime model of
           None \<Rightarrow> None
         | Some profile \<Rightarrow>
             (case el_target options of
                Some None \<Rightarrow> Some UnsupportedModelTarget
              | Some (Some target) \<Rightarrow>
                  if list_ex (\<lambda>candidate. candidate = target) (vr_supportedTargets profile)
                  then None else Some UnsupportedModelTarget
              | None \<Rightarrow>
                  if el_platform options \<noteq> None \<or> el_architecture options \<noteq> None then
                    (let platform = (case el_platform options of Some p \<Rightarrow> p | None \<Rightarrow> process_platform);
                         architecture = (case el_architecture options of Some a \<Rightarrow> a | None \<Rightarrow> process_arch)
                     in if list_ex (\<lambda>candidate. vt_platform candidate = platform \<and> vt_architecture candidate = architecture)
                          (vr_supportedTargets profile)
                        then None else Some UnsupportedModelTarget)
                  else None)))"

datatype eligibility_error = HardwareIneligible string ineligibility | NotEligible string ineligibility

definition assertModelEligible :: "string \<Rightarrow> string \<Rightarrow> model_spec \<Rightarrow> eligibility_options \<Rightarrow> eligibility_error + unit" where
  "assertModelEligible process_platform process_arch model options =
     (case modelEligibilityReason process_platform process_arch model options of
        Some UnsupportedModelTarget \<Rightarrow> Inl (HardwareIneligible (sp_modelId model) UnsupportedModelTarget)
      | Some reason \<Rightarrow> Inl (NotEligible (sp_modelId model) reason)
      | None \<Rightarrow> Inr ())"

text \<open>A model that may run on a target may run there for a caller that names only its platform.\<close>

lemma eligible_on_target_platform:
  assumes "modelEligibilityReason pp pa model \<lparr>el_allowExperimental = x, el_target = Some (Some t), el_platform = p, el_architecture = a\<rparr> = None"
  shows "modelEligibilityReason pp pa model \<lparr>el_allowExperimental = x, el_target = None,
    el_platform = Some (vt_platform t), el_architecture = Some (vt_architecture t)\<rparr> = None"
  using assms unfolding modelEligibilityReason_def
  by (auto simp: list_ex_iff Let_def split: option.splits if_splits)

text \<open>A host has at most one video target, which names its own platform.\<close>

lemma target_is_host:
  "videoTargetFromTopology t p a = Some v \<Longrightarrow> vt_platform v = p \<and> vt_architecture v = a"
  by (auto simp: videoTargetFromTopology_def split: if_splits)

end
