(* ===== verification/Runtime_Reconciler.thy ===== *)
theory Runtime_Reconciler
  imports Supervisor_Registry Reconciliation_Plan Model_Eligibility
begin

text \<open>
  The reconciler: \<^verbatim>\<open>src/src/domains/runtime/runtime-reconciler.ts\<close>.  It keeps, for each
  modality, the admission barrier and the supervisor in service, applies changed configurations to
  them while the gateway listens, and admits requests, switching a modality's model when a request
  asks for another.

  Every modality has a chain of exclusive work (\<open>exclusiveModality\<close>): \<open>rc_waiting\<close> holds the work
  that has not begun and \<open>rc_running\<close> the point at which the work that has is suspended.  One event
  settles one awaited promise and runs the code to its next \<open>await\<close>; an event whose promise is not
  awaited changes nothing.  \<open>rc_exclusive\<close> is the owner of the gateway-wide chain (\<open>exclusive\<close>) while
  it updates the configuration.  Supervisors and their processes are reached only through their
  interface: what they answer comes with the events, and the calls made are recorded in \<open>rc_calls\<close>.
  Logging is left out.
\<close>

section \<open>State\<close>

datatype supervisor_kind = ServerKind | SpeechKind

text \<open>
  A supervisor object: the configuration \<open>factory.create\<close> built it from, its state, whether it keeps
  its process when a generation is cancelled, and which optional methods it has.
\<close>

record supervisor =
  sv_kind :: supervisor_kind
  sv_from :: config_snapshot
  sv_state :: lifecycle_state
  sv_retains :: bool
  sv_reportsSlots :: bool
  sv_preflight :: bool

record supervisor_shape =
  sh_kind :: supervisor_kind
  sh_retains :: bool
  sh_reportsSlots :: bool
  sh_preflight :: bool

text \<open>\<open>re_create\<close> is \<open>factory.create\<close>, \<open>None\<close> when it throws; \<open>re_model\<close> is \<open>byId\<close> on the catalogue.\<close>

record reconciler_env =
  re_localeCompare :: "string \<Rightarrow> string \<Rightarrow> int"
  re_stringify :: "json \<Rightarrow> string"
  re_canonical :: "json \<Rightarrow> json"
  re_root :: json
  re_dirs :: "json \<Rightarrow> config_field \<Rightarrow> json"
  re_ownership :: override_ownership
  re_create :: "runtime_modality \<Rightarrow> config_snapshot \<Rightarrow> supervisor_shape option"
  re_model :: "string \<Rightarrow> model_spec option"
  re_platform :: string
  re_arch :: string

record memory_rejection =
  mr_capacity :: bool
  mr_message :: string

datatype admission_error =
    RequestAborted
  | QueueCancelled
  | ModelManagementInvalid ineligibility
  | OtherError

datatype admission_result =
    Admitted string nat
  | AdmittedConfigured nat
  | NotConfigured
  | ModelNotFound
  | UnavailableResult
  | InsufficientMemory memory_rejection
  | Threw admission_error

text \<open>
  A request waiting for its admission: \<open>ar_modelId = None\<close> for \<open>admit\<close>, the abort flag of its signal,
  whether its dispatch lease has started and whether the queue has cancelled it.
\<close>

record admission_request =
  ar_modality :: runtime_modality
  ar_modelId :: "string option"
  ar_aborted :: bool
  ar_started :: bool
  ar_cancelled :: bool
  ar_result :: "admission_result option"

text \<open>An admission handed out by \<open>prepare\<close>.\<close>

record prepared_admission =
  pa_snapshot :: config_snapshot
  pa_supervisor :: nat
  pa_startupPending :: bool
  pa_stopRequested :: bool
  pa_settled :: bool

text \<open>The locals of \<open>activateModel\<close>.\<close>

record switch =
  sw_request :: nat
  sw_modelId :: string
  sw_previousModel :: string
  sw_restoreModel :: string
  sw_source :: config_snapshot

datatype task =
    TReconcile
  | TAdmission nat
  | TEvictIdle nat
  | TEvictAll
  | TIdleCancellation nat
  | TSafeguard nat nat
  | TClaim nat
  | TStop nat "runtime_modality list"
  | TRelease

datatype point =
    AtLoop config_snapshot
  | AtApplyPreflight config_snapshot config_snapshot modality_action
  | AtBeforeDrain config_snapshot config_snapshot modality_action
  | AtApplyDrain nat config_snapshot config_snapshot modality_action
  | AtApplyShutdown config_snapshot config_snapshot modality_action
  | AtSwitchPreflight switch
  | AtSwitchDrain nat switch
  | AtAbortedDrain nat switch
  | AtSwitchUpdate switch
  | AtSwitchShutdown switch config_snapshot "nat option" bool
  | AtSettlePreflight switch config_snapshot "nat option" bool int
  | AtSettleTimer switch config_snapshot "nat option" bool int
  | AtRollback switch config_snapshot bool memory_rejection
  | AtStartPreflight nat string config_snapshot
  | AtEvictKill nat
  | AtEvictAllKill nat
  | AtEvictAllDrain nat
  | AtCancelKill nat
  | AtSafeguardSlots nat nat
  | AtSafeguardKill nat
  | AtNested nat
  | AtStopKill nat "(runtime_modality \<times> nat \<times> nat) list"

datatype supervisor_call = Kill nat | Shutdown nat | EnsureRunning nat

record evict_batch =
  eb_excluded :: "runtime_modality option"
  eb_left :: nat
  eb_count :: nat
  eb_failed :: bool

datatype recovery_phase = Claiming nat | Projecting | Stopping | RecoveryDone "bool option"

text \<open>A claim is its modality, the supervisor it was made on and its token.\<close>

record recovery =
  rv_modality :: runtime_modality
  rv_modelId :: string
  rv_aborted :: bool
  rv_claims :: "(runtime_modality \<times> nat \<times> nat) list"
  rv_phase :: recovery_phase

record reconciler =
  rc_controller :: config_snapshot
  rc_snapshot :: config_snapshot
  rc_configured :: "runtime_modality \<Rightarrow> bool"
  rc_applied :: "runtime_modality \<Rightarrow> config_snapshot"
  rc_barrier :: "runtime_modality \<Rightarrow> barrier"
  rc_registry :: registry
  rc_supervisor :: "nat \<Rightarrow> supervisor"
  rc_nextSupervisor :: nat
  rc_scheduled :: "runtime_modality \<Rightarrow> bool"
  rc_pending :: "runtime_modality \<Rightarrow> string list option"
  rc_preflights :: "runtime_modality \<Rightarrow> bool"
  rc_claims :: "runtime_modality \<Rightarrow> nat option"
  rc_nextToken :: nat
  rc_safeguards :: "runtime_modality \<Rightarrow> (nat \<times> nat) option"
  rc_lastMemoryEvictionAt :: "int option"
  rc_now :: int
  rc_running :: "runtime_modality \<Rightarrow> point option"
  rc_waiting :: "runtime_modality \<Rightarrow> task list"
  rc_exclusive :: "runtime_modality option"
  rc_requests :: "admission_request list"
  rc_prepared :: "runtime_modality \<Rightarrow> nat \<Rightarrow> prepared_admission"
  rc_batches :: "evict_batch list"
  rc_recoveries :: "recovery list"
  rc_reloads :: "(runtime_modality \<times> nat) list"
  rc_calls :: "supervisor_call list"

definition MEMORY_SETTLE_TIMEOUT_MS :: int where "MEMORY_SETTLE_TIMEOUT_MS = 10000"
definition MAX_CANCELLATION_SAFEGUARD_CHECKS :: nat where "MAX_CANCELLATION_SAFEGUARD_CHECKS = 6"

section \<open>Configuration\<close>

fun activeModelField :: "runtime_modality \<Rightarrow> config_field" where
  "activeModelField LLM = F_activeLlmModel"
| "activeModelField STT = F_activeSttModel"
| "activeModelField TTS = F_activeTtsModel"
| "activeModelField Image = F_activeImageModel"
| "activeModelField Video = F_activeVideoModel"

text \<open>The schema of the configuration file makes these fields strings and lists of strings.\<close>

fun json_string :: "json \<Rightarrow> string" where
  "json_string (JStr s) = s"
| "json_string _ = []"

fun json_strings :: "json \<Rightarrow> string list" where
  "json_strings (JArr xs) = map json_string xs"
| "json_strings _ = []"

definition activeModel :: "runtime_modality \<Rightarrow> config \<Rightarrow> string" where
  "activeModel m config = json_string (config (activeModelField m))"

definition selectedModels :: "runtime_modality \<Rightarrow> config \<Rightarrow> string list" where
  "selectedModels m config = json_strings (config (case m of
     LLM \<Rightarrow> F_selectedLlmModels | STT \<Rightarrow> F_selectedSttModels | TTS \<Rightarrow> F_selectedTtsModels
   | Image \<Rightarrow> F_selectedImageModels | Video \<Rightarrow> F_selectedVideoModels))"

definition with_model :: "runtime_modality \<Rightarrow> string \<Rightarrow> config \<Rightarrow> config" where
  "with_model m modelId config = config(activeModelField m := JStr modelId)"

definition configuredModalities :: "config_snapshot \<Rightarrow> override_ownership \<Rightarrow> runtime_modality \<Rightarrow> bool" where
  "configuredModalities s ownership m = configuredRuntimeModality m (cfg_config s) ownership"

definition owned_field :: "reconciler_env \<Rightarrow> runtime_modality \<Rightarrow> bool" where
  "owned_field env m \<longleftrightarrow> activeModelField m \<in> set (ov_configFields (re_ownership env))"

definition resolveRequestedModel :: "runtime_modality \<Rightarrow> string option \<Rightarrow> config \<Rightarrow> string option" where
  "resolveRequestedModel m requested config =
     (case requested of
        None \<Rightarrow> Some (activeModel m config)
      | Some r \<Rightarrow> find (\<lambda>modelId. modelId = r) (activeModel m config # selectedModels m config))"

text \<open>\<open>controller.refresh\<close> and \<open>controller.update\<close> end in \<open>replace\<close>.\<close>

definition controller_replace :: "reconciler_env \<Rightarrow> config \<Rightarrow> config_snapshot \<Rightarrow> config_snapshot option" where
  "controller_replace env config s =
     replace_config (re_stringify env) (re_localeCompare env) (re_canonical env) (re_root env) config s"

definition reconcile_plan :: "reconciler_env \<Rightarrow> config_snapshot \<Rightarrow> config_snapshot \<Rightarrow> plan_error + reconciliation_plan" where
  "reconcile_plan env source target =
     createRuntimeReconciliationPlan (re_localeCompare env) (re_dirs env) source target (re_ownership env)"

definition plan_action :: "reconciler_env \<Rightarrow> runtime_modality \<Rightarrow> config_snapshot \<Rightarrow> config_snapshot \<Rightarrow> modality_action option" where
  "plan_action env m source target =
     (case reconcile_plan env source target of
        Inl e \<Rightarrow> None
      | Inr p \<Rightarrow> map_option mp_action (map_of (rp_modalities p) m))"

section \<open>Updates\<close>

definition upd_barrier :: "runtime_modality \<Rightarrow> (barrier \<Rightarrow> barrier) \<Rightarrow> reconciler \<Rightarrow> reconciler" where
  "upd_barrier m f st = st\<lparr>rc_barrier := (rc_barrier st)(m := f (rc_barrier st m))\<rparr>"

definition upd_registry :: "(registry \<Rightarrow> registry) \<Rightarrow> reconciler \<Rightarrow> reconciler" where
  "upd_registry f st = st\<lparr>rc_registry := f (rc_registry st)\<rparr>"

definition upd_supervisor :: "nat \<Rightarrow> (supervisor \<Rightarrow> supervisor) \<Rightarrow> reconciler \<Rightarrow> reconciler" where
  "upd_supervisor s f st = st\<lparr>rc_supervisor := (rc_supervisor st)(s := f (rc_supervisor st s))\<rparr>"

definition upd_prepared :: "runtime_modality \<Rightarrow> nat \<Rightarrow> (prepared_admission \<Rightarrow> prepared_admission) \<Rightarrow> reconciler \<Rightarrow> reconciler" where
  "upd_prepared m i f st =
     st\<lparr>rc_prepared := (rc_prepared st)(m := (rc_prepared st m)(i := f (rc_prepared st m i)))\<rparr>"

definition upd_request :: "nat \<Rightarrow> (admission_request \<Rightarrow> admission_request) \<Rightarrow> reconciler \<Rightarrow> reconciler" where
  "upd_request r f st =
     (if r < length (rc_requests st) then st\<lparr>rc_requests := (rc_requests st)[r := f (rc_requests st ! r)]\<rparr> else st)"

definition set_pending :: "runtime_modality \<Rightarrow> string list option \<Rightarrow> reconciler \<Rightarrow> reconciler" where
  "set_pending m p st = st\<lparr>rc_pending := (rc_pending st)(m := p)\<rparr>"

definition set_preflight :: "runtime_modality \<Rightarrow> bool \<Rightarrow> reconciler \<Rightarrow> reconciler" where
  "set_preflight m b st = st\<lparr>rc_preflights := (rc_preflights st)(m := b)\<rparr>"

definition set_applied :: "runtime_modality \<Rightarrow> config_snapshot \<Rightarrow> reconciler \<Rightarrow> reconciler" where
  "set_applied m s st = st\<lparr>rc_applied := (rc_applied st)(m := s)\<rparr>"

definition set_scheduled :: "runtime_modality \<Rightarrow> bool \<Rightarrow> reconciler \<Rightarrow> reconciler" where
  "set_scheduled m b st = st\<lparr>rc_scheduled := (rc_scheduled st)(m := b)\<rparr>"

definition set_claim :: "runtime_modality \<Rightarrow> nat option \<Rightarrow> reconciler \<Rightarrow> reconciler" where
  "set_claim m c st = st\<lparr>rc_claims := (rc_claims st)(m := c)\<rparr>"

definition call_supervisor :: "supervisor_call \<Rightarrow> reconciler \<Rightarrow> reconciler" where
  "call_supervisor c st = st\<lparr>rc_calls := rc_calls st @ [c]\<rparr>"

text \<open>The work of a modality suspends at a point, ends, or joins the end of its chain.\<close>

definition suspend :: "runtime_modality \<Rightarrow> point \<Rightarrow> reconciler \<Rightarrow> reconciler" where
  "suspend m p st = st\<lparr>rc_running := (rc_running st)(m := Some p)\<rparr>"

definition end_work :: "runtime_modality \<Rightarrow> reconciler \<Rightarrow> reconciler" where
  "end_work m st = st\<lparr>rc_running := (rc_running st)(m := None)\<rparr>"

definition exclusiveModality :: "runtime_modality \<Rightarrow> task \<Rightarrow> reconciler \<Rightarrow> reconciler" where
  "exclusiveModality m t st = st\<lparr>rc_waiting := (rc_waiting st)(m := rc_waiting st m @ [t])\<rparr>"

definition service :: "reconciler \<Rightarrow> runtime_modality \<Rightarrow> nat option" where
  "service st m = sr_services (rc_registry st) m"

definition service_state :: "reconciler \<Rightarrow> nat \<Rightarrow> lifecycle_state" where
  "service_state st s = sv_state (rc_supervisor st s)"

definition running_service :: "reconciler \<Rightarrow> runtime_modality \<Rightarrow> nat option" where
  "running_service st m =
     (case service st m of Some s \<Rightarrow> if service_state st s = Running then Some s else None | None \<Rightarrow> None)"

definition applied_model :: "reconciler \<Rightarrow> runtime_modality \<Rightarrow> string" where
  "applied_model st m = activeModel m (cfg_config (rc_applied st m))"

definition set_snapshot :: "reconciler_env \<Rightarrow> config_snapshot \<Rightarrow> reconciler \<Rightarrow> reconciler" where
  "set_snapshot env s st = st\<lparr>rc_snapshot := s, rc_configured := configuredModalities s (re_ownership env)\<rparr>"

text \<open>Reattachment invalidates recovery ownership before reopening admission.\<close>

definition attachBarrier :: "runtime_modality \<Rightarrow> reconciler \<Rightarrow> reconciler" where
  "attachBarrier m st =
     (let st1 = set_claim m None st in if rc_configured st1 m then upd_barrier m attach st1 else st1)"

text \<open>\<open>supervisors.add(modality, factory.create(modality, target))\<close>: \<open>None\<close> when either throws.\<close>

definition add_created :: "reconciler_env \<Rightarrow> runtime_modality \<Rightarrow> config_snapshot \<Rightarrow> reconciler \<Rightarrow> reconciler option" where
  "add_created env m target st =
     (case re_create env m target of
        None \<Rightarrow> None
      | Some sh \<Rightarrow>
          let s = rc_nextSupervisor st;
              st1 = st\<lparr>rc_supervisor := (rc_supervisor st)(s := \<lparr>sv_kind = sh_kind sh, sv_from = target, sv_state = Idle,
                        sv_retains = sh_retains sh, sv_reportsSlots = sh_reportsSlots sh, sv_preflight = sh_preflight sh\<rparr>),
                      rc_nextSupervisor := Suc s\<rparr>
          in map_option (\<lambda>r. st1\<lparr>rc_registry := r\<rparr>) (add_service m s (rc_registry st1)))"

section \<open>Admissions and their callbacks\<close>

text \<open>
  Lease \<open>i\<close> of a barrier registers callback \<open>2 i\<close> for a pending detach and \<open>2 i + 1\<close> for an idle
  cancellation.  The barrier records the callbacks it calls; \<open>barrier_op\<close> runs their bodies.
\<close>

definition stop_admission :: "runtime_modality \<Rightarrow> nat \<Rightarrow> bool \<Rightarrow> reconciler \<Rightarrow> reconciler" where
  "stop_admission m i allowRunning st =
     (let a = rc_prepared st m i; state = service_state st (pa_supervisor a) in
      if pa_stopRequested a then st
      else if state = Starting \<or> (allowRunning \<and> state = Running)
      then call_supervisor (Kill (pa_supervisor a)) (upd_prepared m i (\<lambda>a. a\<lparr>pa_stopRequested := True\<rparr>) st)
      else st)"

definition speech_admission :: "runtime_modality \<Rightarrow> nat \<Rightarrow> reconciler \<Rightarrow> bool" where
  "speech_admission m i st \<longleftrightarrow> sv_kind (rc_supervisor st (pa_supervisor (rc_prepared st m i))) = SpeechKind"

definition pending_detached :: "runtime_modality \<Rightarrow> nat \<Rightarrow> reconciler \<Rightarrow> reconciler" where
  "pending_detached m i st =
     (if pa_startupPending (rc_prepared st m i) \<or> speech_admission m i st
      then stop_admission m i (speech_admission m i st) st else st)"

definition idle_cancelled :: "runtime_modality \<Rightarrow> nat \<Rightarrow> reconciler \<Rightarrow> reconciler" where
  "idle_cancelled m i st =
     (if pa_stopRequested (rc_prepared st m i) then st
      else exclusiveModality m (TIdleCancellation i) (upd_prepared m i (\<lambda>a. a\<lparr>pa_stopRequested := True\<rparr>) st))"

definition invoke :: "runtime_modality \<Rightarrow> nat \<Rightarrow> reconciler \<Rightarrow> reconciler" where
  "invoke m c st = (if even c then pending_detached m (c div 2) st else idle_cancelled m (c div 2) st)"

definition barrier_op :: "runtime_modality \<Rightarrow> (barrier \<Rightarrow> barrier) \<Rightarrow> reconciler \<Rightarrow> reconciler" where
  "barrier_op m f st =
     (let n = length (b_invoked (rc_barrier st m)); st1 = upd_barrier m f st
      in fold (invoke m) (drop n (b_invoked (rc_barrier st1 m))) st1)"

definition acquire_admission :: "reconciler_env \<Rightarrow> runtime_modality \<Rightarrow> config_snapshot \<Rightarrow> reconciler \<Rightarrow> nat option \<times> reconciler" where
  "acquire_admission env m snap st =
     (if \<not> configuredRuntimeModality m (cfg_config snap) (re_ownership env) then (None, st)
      else
        (case service st m of
           None \<Rightarrow> (None, st)
         | Some s \<Rightarrow>
             (case acquire_lease (rc_barrier st m) of
                (None, b) \<Rightarrow> (None, st)
              | (Some i, b) \<Rightarrow>
                  (Some i, upd_prepared m i (\<lambda>_. \<lparr>pa_snapshot = snap, pa_supervisor = s, pa_startupPending = True,
                      pa_stopRequested = False, pa_settled = False\<rparr>) (upd_barrier m (\<lambda>_. b) st)))))"

definition prepare :: "runtime_modality \<Rightarrow> nat \<Rightarrow> reconciler \<Rightarrow> reconciler" where
  "prepare m i st =
     call_supervisor (EnsureRunning (pa_supervisor (rc_prepared st m i)))
       (upd_barrier m (on_idle_cancellation i (2 * i + 1)) (upd_barrier m (on_pending_detach i (2 * i)) st))"

definition scheduleCancellationSafeguard :: "runtime_modality \<Rightarrow> nat \<Rightarrow> nat \<Rightarrow> reconciler \<Rightarrow> reconciler" where
  "scheduleCancellationSafeguard m s check st =
     st\<lparr>rc_safeguards := (rc_safeguards st)(m := Some (s, check))\<rparr>"

definition retainsOnCancel :: "runtime_modality \<Rightarrow> supervisor \<Rightarrow> bool" where
  "retainsOnCancel m sv =
     (if m = LLM then sv_kind sv = ServerKind else m = TTS \<and> sv_kind sv = SpeechKind \<and> sv_retains sv)"

definition preserveOnCancel :: "runtime_modality \<Rightarrow> nat \<Rightarrow> reconciler \<Rightarrow> bool" where
  "preserveOnCancel m i st \<longleftrightarrow>
     (let a = rc_prepared st m i; sv = rc_supervisor st (pa_supervisor a) in
      retainsOnCancel m sv \<and> sv_reportsSlots sv \<and> \<not> pa_startupPending a \<and> \<not> pa_stopRequested a \<and>
      sv_state sv = Running \<and> service st m = Some (pa_supervisor a))"

definition cancel_admission :: "runtime_modality \<Rightarrow> nat \<Rightarrow> reconciler \<Rightarrow> reconciler" where
  "cancel_admission m i st =
     (if pa_settled (rc_prepared st m i) then st
      else
        let st1 = upd_prepared m i (\<lambda>a. a\<lparr>pa_settled := True\<rparr>) st in
        if \<not> preserveOnCancel m i st1 then barrier_op m (cancel_lease i) st1
        else scheduleCancellationSafeguard m (pa_supervisor (rc_prepared st1 m i)) 1 (barrier_op m (release_lease i) st1))"

definition release_admission :: "runtime_modality \<Rightarrow> nat \<Rightarrow> reconciler \<Rightarrow> reconciler" where
  "release_admission m i st =
     (if pa_settled (rc_prepared st m i) then st
      else barrier_op m (release_lease i) (upd_prepared m i (\<lambda>a. a\<lparr>pa_settled := True\<rparr>) st))"

section \<open>Settling requests\<close>

definition request :: "reconciler \<Rightarrow> nat \<Rightarrow> admission_request" where
  "request st r = rc_requests st ! r"

definition settle_request :: "runtime_modality \<Rightarrow> nat \<Rightarrow> admission_result \<Rightarrow> reconciler \<Rightarrow> reconciler" where
  "settle_request m r res st = end_work m (upd_request r (\<lambda>q. q\<lparr>ar_result := Some res\<rparr>) st)"

text \<open>\<open>throwIfAborted(signal)\<close> then \<open>dispatchLease?.throwIfCancelled()\<close>.\<close>

definition request_error :: "reconciler \<Rightarrow> nat \<Rightarrow> admission_error option" where
  "request_error st r =
     (if ar_aborted (request st r) then Some RequestAborted
      else if ar_cancelled (request st r) then Some QueueCancelled else None)"

text \<open>The end of \<open>coordinateAdmission\<close>: acquire a lease on the barrier and prepare it.\<close>

definition grant_admission :: "reconciler_env \<Rightarrow> runtime_modality \<Rightarrow> nat \<Rightarrow> string \<Rightarrow> config_snapshot \<Rightarrow> reconciler \<Rightarrow> reconciler" where
  "grant_admission env m r modelId snap st =
     (case request_error st r of
        Some e \<Rightarrow> settle_request m r (Threw e) st
      | None \<Rightarrow>
          (case acquire_admission env m snap st of
             (None, st1) \<Rightarrow> settle_request m r UnavailableResult st1
           | (Some i, st1) \<Rightarrow> settle_request m r (Admitted modelId i) (prepare m i st1)))"

text \<open>From the model's activation to the start preflight of a stopped video backend.\<close>

definition after_activation :: "reconciler_env \<Rightarrow> runtime_modality \<Rightarrow> nat \<Rightarrow> string \<Rightarrow> config_snapshot \<Rightarrow> reconciler \<Rightarrow> reconciler" where
  "after_activation env m r modelId snap st =
     (case request_error st r of
        Some e \<Rightarrow> settle_request m r (Threw e) st
      | None \<Rightarrow>
          if m = Video \<and> service st m \<noteq> None \<and> running_service st m = None then
            (case re_create env m snap of
               None \<Rightarrow> settle_request m r (Threw OtherError) st
             | Some _ \<Rightarrow> suspend m (AtStartPreflight r modelId snap) (set_preflight m True st))
          else grant_admission env m r modelId snap st)"

section \<open>Switching a model\<close>

datatype preflight_outcome = PreflightFits | PreflightRejected memory_rejection | PreflightFailed

text \<open>\<open>activateModel\<close> ends by throwing: its \<open>finally\<close>, and the request fails or is answered.\<close>

definition switch_ends :: "runtime_modality \<Rightarrow> switch \<Rightarrow> admission_result \<Rightarrow> reconciler \<Rightarrow> reconciler" where
  "switch_ends m sw res st = settle_request m (sw_request sw) res (set_pending m None st)"

definition reopen :: "runtime_modality \<Rightarrow> reconciler \<Rightarrow> reconciler" where
  "reopen m st = attachBarrier m (upd_registry (clearDraining m) st)"

definition begin_switch_drain :: "runtime_modality \<Rightarrow> switch \<Rightarrow> reconciler \<Rightarrow> reconciler" where
  "begin_switch_drain m sw st =
     (let st1 = upd_registry (markDraining m) st; p = fst (drain (rc_barrier st1 m))
      in suspend m (AtSwitchDrain p sw) (barrier_op m (\<lambda>b. snd (drain b)) st1))"

text \<open>
  \<open>assertSwitchFits\<close>: a candidate that cannot be built or has no preflight lets the switch go on;
  otherwise its preflight is awaited.
\<close>

definition candidate_preflight :: "reconciler_env \<Rightarrow> runtime_modality \<Rightarrow> config_snapshot \<Rightarrow> string \<Rightarrow> bool" where
  "candidate_preflight env m source modelId =
     (case re_create env m (source\<lparr>cfg_config := with_model m modelId (cfg_config source)\<rparr>) of
        None \<Rightarrow> False | Some sh \<Rightarrow> sh_preflight sh)"

definition activateModel :: "reconciler_env \<Rightarrow> runtime_modality \<Rightarrow> nat \<Rightarrow> string \<Rightarrow> config_snapshot \<Rightarrow> reconciler \<Rightarrow> reconciler" where
  "activateModel env m r modelId source st =
     (let sw = \<lparr>sw_request = r, sw_modelId = modelId, sw_previousModel = activeModel m (cfg_config source),
                sw_restoreModel = applied_model st m, sw_source = source\<rparr>;
          st1 = set_pending m (Some [sw_previousModel sw, modelId, sw_restoreModel sw]) st
      in if candidate_preflight env m source modelId
         then suspend m (AtSwitchPreflight sw) (set_preflight m True st1)
         else begin_switch_drain m sw st1)"

definition switch_preflighted :: "runtime_modality \<Rightarrow> switch \<Rightarrow> preflight_outcome \<Rightarrow> reconciler \<Rightarrow> reconciler" where
  "switch_preflighted m sw outcome st =
     (let st1 = set_preflight m False st in
      case outcome of
        PreflightRejected e \<Rightarrow> switch_ends m sw (InsufficientMemory e) st1
      | _ \<Rightarrow> begin_switch_drain m sw st1)"

text \<open>The drain is over: unless the request was given up, wait for the gateway-wide chain.\<close>

definition switch_drained :: "runtime_modality \<Rightarrow> switch \<Rightarrow> reconciler \<Rightarrow> reconciler" where
  "switch_drained m sw st =
     (case request_error st (sw_request sw) of
        Some RequestAborted \<Rightarrow> switch_ends m sw (Threw RequestAborted) (reopen m st)
      | Some e \<Rightarrow> switch_ends m sw (Threw e) st
      | None \<Rightarrow> suspend m (AtSwitchUpdate sw) st)"

text \<open>
  The update holds the gateway-wide chain.  \<open>stored\<close> is the configuration its transaction read,
  \<open>None\<close> when the update failed.  Then the old supervisor is taken and shut down.
\<close>

definition switch_update_fails :: "runtime_modality \<Rightarrow> switch \<Rightarrow> admission_result \<Rightarrow> reconciler \<Rightarrow> reconciler" where
  "switch_update_fails m sw res st = switch_ends m sw res (reopen m st)"

definition switch_updated :: "reconciler_env \<Rightarrow> runtime_modality \<Rightarrow> switch \<Rightarrow> config option \<Rightarrow> reconciler \<Rightarrow> reconciler" where
  "switch_updated env m sw stored st =
     (let st1 = st\<lparr>rc_exclusive := None\<rparr> in
      case stored of
        None \<Rightarrow> switch_update_fails m sw (Threw OtherError) st1
      | Some config \<Rightarrow>
          if sw_modelId sw \<notin> set (selectedModels m config) then switch_update_fails m sw ModelNotFound st1
          else
            (case controller_replace env (with_model m (sw_modelId sw) config) (rc_controller st1) of
               None \<Rightarrow> switch_update_fails m sw (Threw OtherError) st1
             | Some target \<Rightarrow>
                 let st2 = set_snapshot env target (st1\<lparr>rc_controller := target\<rparr>) in
                 if ar_cancelled (request st2 (sw_request sw)) then switch_update_fails m sw (Threw QueueCancelled) st2
                 else
                   let (previous, r) = take_service m (rc_registry st2); st3 = st2\<lparr>rc_registry := r\<rparr>;
                       wasRunning = (case previous of Some s \<Rightarrow> service_state st3 s = Running | None \<Rightarrow> False)
                   in suspend m (AtSwitchShutdown sw target previous wasRunning)
                        (case previous of Some s \<Rightarrow> call_supervisor (Shutdown s) st3 | None \<Rightarrow> st3)))"

text \<open>The new supervisor takes its place and the request goes on.\<close>

definition finish_switch :: "reconciler_env \<Rightarrow> runtime_modality \<Rightarrow> switch \<Rightarrow> config_snapshot \<Rightarrow> reconciler \<Rightarrow> reconciler" where
  "finish_switch env m sw target st =
     (if ar_cancelled (request st (sw_request sw)) then switch_ends m sw (Threw QueueCancelled) st
      else
        (case add_created env m target st of
           None \<Rightarrow> switch_ends m sw (Threw OtherError) st
         | Some st1 \<Rightarrow>
             after_activation env m (sw_request sw) (sw_modelId sw) target
               (set_pending m None (attachBarrier m (set_applied m target st1)))))"

text \<open>
  \<open>settleAdmissionAfterEviction\<close> inside a switch.  \<open>settle_rejected\<close> is what follows a rejection:
  the previous model is restored when there is one to restore.
\<close>

definition settle_probe :: "runtime_modality \<Rightarrow> switch \<Rightarrow> config_snapshot \<Rightarrow> nat option \<Rightarrow> bool \<Rightarrow> int \<Rightarrow> reconciler \<Rightarrow> reconciler" where
  "settle_probe m sw target previous wasRunning deadline st =
     (if ar_aborted (request st (sw_request sw)) then switch_ends m sw (Threw RequestAborted) st
      else suspend m (AtSettlePreflight sw target previous wasRunning deadline) st)"

definition begin_settle :: "reconciler_env \<Rightarrow> runtime_modality \<Rightarrow> switch \<Rightarrow> config_snapshot \<Rightarrow> nat option \<Rightarrow> bool \<Rightarrow> reconciler \<Rightarrow> reconciler" where
  "begin_settle env m sw target previous wasRunning st =
     (if \<not> configuredRuntimeModality m (cfg_config (sw_source sw)) (re_ownership env) then finish_switch env m sw target st
      else
        (case re_create env m ((sw_source sw)\<lparr>cfg_config := with_model m (sw_modelId sw) (cfg_config (sw_source sw))\<rparr>) of
           None \<Rightarrow> switch_ends m sw (Threw OtherError) st
         | Some sh \<Rightarrow>
             if \<not> sh_preflight sh then finish_switch env m sw target st
             else settle_probe m sw target previous wasRunning (rc_now st + MEMORY_SETTLE_TIMEOUT_MS) st))"

definition settle_rejected ::
  "reconciler_env \<Rightarrow> runtime_modality \<Rightarrow> switch \<Rightarrow> config_snapshot \<Rightarrow> nat option \<Rightarrow> bool \<Rightarrow> memory_rejection \<Rightarrow> reconciler \<Rightarrow> reconciler" where
  "settle_rejected env m sw target previous wasRunning e st =
     (if previous \<noteq> None \<and> sw_restoreModel sw \<noteq> sw_modelId sw then suspend m (AtRollback sw target wasRunning e) st
      else finish_switch env m sw target st)"

definition settle_preflighted ::
  "reconciler_env \<Rightarrow> runtime_modality \<Rightarrow> switch \<Rightarrow> config_snapshot \<Rightarrow> nat option \<Rightarrow> bool \<Rightarrow> int \<Rightarrow> preflight_outcome \<Rightarrow> reconciler \<Rightarrow> reconciler" where
  "settle_preflighted env m sw target previous wasRunning deadline outcome st =
     (case outcome of
        PreflightRejected e \<Rightarrow>
          if mr_capacity e \<or> deadline - rc_now st \<le> 0 then settle_rejected env m sw target previous wasRunning e st
          else suspend m (AtSettleTimer sw target previous wasRunning deadline) st
      | _ \<Rightarrow> finish_switch env m sw target st)"

definition switch_shut_down ::
  "reconciler_env \<Rightarrow> runtime_modality \<Rightarrow> switch \<Rightarrow> config_snapshot \<Rightarrow> nat option \<Rightarrow> bool \<Rightarrow> bool \<Rightarrow> reconciler \<Rightarrow> reconciler" where
  "switch_shut_down env m sw target previous wasRunning ok st =
     (if \<not> ok then switch_ends m sw (Threw OtherError) st
      else if ar_cancelled (request st (sw_request sw)) then switch_ends m sw (Threw QueueCancelled) st
      else begin_settle env m sw target previous wasRunning st)"

text \<open>
  \<open>rollBackRejectedSwitch\<close>: the previous model is made active again and gets a new supervisor,
  unless the configuration has moved on.
\<close>

definition rolled_back ::
  "reconciler_env \<Rightarrow> runtime_modality \<Rightarrow> switch \<Rightarrow> config_snapshot \<Rightarrow> bool \<Rightarrow> memory_rejection \<Rightarrow> config option \<Rightarrow> reconciler \<Rightarrow> reconciler" where
  "rolled_back env m sw target wasRunning e stored st =
     (let st1 = st\<lparr>rc_exclusive := None\<rparr> in
      case stored of
        None \<Rightarrow> switch_ends m sw (Threw OtherError) st1
      | Some config \<Rightarrow>
          let restored = (activeModel m config = sw_modelId sw \<and> sw_restoreModel sw \<in> set (selectedModels m config)) in
          (case controller_replace env (if restored then with_model m (sw_restoreModel sw) config else config) (rc_controller st1) of
             None \<Rightarrow> switch_ends m sw (Threw OtherError) st1
           | Some reverted \<Rightarrow>
               let st2 = st1\<lparr>rc_controller := reverted\<rparr> in
               if \<not> restored then finish_switch env m sw target st2
               else
                 let st3 = set_snapshot env reverted st2 in
                 (case add_created env m reverted st3 of
                    None \<Rightarrow> switch_ends m sw (Threw OtherError) st3
                  | Some st4 \<Rightarrow>
                      let st5 = attachBarrier m (set_applied m reverted st4);
                          st6 = (if wasRunning then (case service st5 m of
                                   Some s \<Rightarrow> st5\<lparr>rc_reloads := (m, s) # rc_reloads st5\<rparr> | None \<Rightarrow> st5) else st5)
                      in switch_ends m sw (InsufficientMemory e) st6)))"

section \<open>Admitting a request\<close>

text \<open>\<open>coordinateAdmission\<close> from the start of its exclusive work.\<close>

definition allow_experimental :: "config \<Rightarrow> bool option" where
  "allow_experimental config = (case config F_allowExperimental of JBool b \<Rightarrow> Some b | _ \<Rightarrow> None)"

definition experimental_refused :: "reconciler_env \<Rightarrow> config \<Rightarrow> string \<Rightarrow> bool" where
  "experimental_refused env config modelId \<longleftrightarrow>
     (case re_model env modelId of
        None \<Rightarrow> False
      | Some model \<Rightarrow>
          modelEligibilityReason (re_platform env) (re_arch env) model
            \<lparr>el_allowExperimental = allow_experimental config, el_target = None, el_platform = None, el_architecture = None\<rparr>
          = Some ExperimentalOptInRequired)"

definition coordinateAdmission :: "reconciler_env \<Rightarrow> runtime_modality \<Rightarrow> nat \<Rightarrow> string \<Rightarrow> reconciler \<Rightarrow> reconciler" where
  "coordinateAdmission env m r requested st =
     (case request_error st r of
        Some e \<Rightarrow> settle_request m r (Threw e) st
      | None \<Rightarrow>
          let st1 = upd_request r (\<lambda>q. q\<lparr>ar_started := True\<rparr>) st; desired = rc_snapshot st1 in
          if \<not> configuredRuntimeModality m (cfg_config desired) (re_ownership env) then settle_request m r NotConfigured st1
          else
            (case resolveRequestedModel m (Some requested) (cfg_config desired) of
               None \<Rightarrow> settle_request m r ModelNotFound st1
             | Some modelId \<Rightarrow>
                 if modelId = [] then settle_request m r ModelNotFound st1
                 else if m = Video \<and> experimental_refused env (cfg_config desired) modelId
                 then settle_request m r (Threw (ModelManagementInvalid ExperimentalOptInRequired)) st1
                 else if modelId \<noteq> applied_model st1 m \<and> \<not> owned_field env m
                 then activateModel env m r modelId desired st1
                 else after_activation env m r modelId (rc_applied st1 m) st1))"

definition admit_configured :: "reconciler_env \<Rightarrow> runtime_modality \<Rightarrow> nat \<Rightarrow> reconciler \<Rightarrow> reconciler" where
  "admit_configured env m r st =
     (case acquire_admission env m (rc_applied st m) st of
        (None, st1) \<Rightarrow> settle_request m r UnavailableResult st1
      | (Some i, st1) \<Rightarrow> settle_request m r (AdmittedConfigured i) (prepare m i st1))"

text \<open>The start preflight of a stopped video backend.\<close>

definition start_preflighted ::
  "reconciler_env \<Rightarrow> runtime_modality \<Rightarrow> nat \<Rightarrow> string \<Rightarrow> config_snapshot \<Rightarrow> preflight_outcome \<Rightarrow> reconciler \<Rightarrow> reconciler" where
  "start_preflighted env m r modelId snap outcome st =
     (let st1 = set_preflight m False st;
          answer = (case re_create env m snap of Some sh \<Rightarrow> if sh_preflight sh then outcome else PreflightFits | None \<Rightarrow> outcome)
      in case answer of
           PreflightFailed \<Rightarrow> settle_request m r (Threw OtherError) st1
         | PreflightRejected e \<Rightarrow>
             (case request_error st1 r of
                Some x \<Rightarrow> settle_request m r (Threw x) st1
              | None \<Rightarrow> settle_request m r (InsufficientMemory e) st1)
         | PreflightFits \<Rightarrow> grant_admission env m r modelId snap st1)"

section \<open>Applying a configuration\<close>

definition recordReconciliationFailure :: "runtime_modality \<Rightarrow> reconciler \<Rightarrow> reconciler" where
  "recordReconciliationFailure m st = upd_registry (markFailed m) st"

text \<open>\<open>applyModality\<close> ends; \<open>scheduleModality\<close>'s loop resumes.\<close>

definition apply_ends :: "runtime_modality \<Rightarrow> config_snapshot \<Rightarrow> reconciler \<Rightarrow> reconciler" where
  "apply_ends m before st = suspend m (AtLoop before) (set_pending m None st)"

definition apply_fails :: "runtime_modality \<Rightarrow> config_snapshot \<Rightarrow> reconciler \<Rightarrow> reconciler" where
  "apply_fails m before st = apply_ends m before (recordReconciliationFailure m st)"

definition apply_drain :: "runtime_modality \<Rightarrow> config_snapshot \<Rightarrow> config_snapshot \<Rightarrow> modality_action \<Rightarrow> reconciler \<Rightarrow> reconciler" where
  "apply_drain m before target action st =
     (let cancel = (\<lambda>q. if ar_modality q = m \<and> ar_result q = None then q\<lparr>ar_cancelled := True\<rparr> else q);
          st1 = (if action = DrainAndRemove then st\<lparr>rc_requests := map cancel (rc_requests st)\<rparr> else st);
          st2 = upd_registry (markDraining m) st1; p = fst (drain (rc_barrier st2 m))
      in suspend m (AtApplyDrain p before target action) (barrier_op m (\<lambda>b. snd (drain b)) st2))"

definition apply_drained :: "runtime_modality \<Rightarrow> config_snapshot \<Rightarrow> config_snapshot \<Rightarrow> modality_action \<Rightarrow> reconciler \<Rightarrow> reconciler" where
  "apply_drained m before target action st =
     (let (previous, r) = take_service m (rc_registry st); st1 = st\<lparr>rc_registry := r\<rparr>
      in suspend m (AtApplyShutdown before target action)
           (case previous of Some s \<Rightarrow> call_supervisor (Shutdown s) st1 | None \<Rightarrow> st1))"

definition apply_shut_down ::
  "reconciler_env \<Rightarrow> runtime_modality \<Rightarrow> config_snapshot \<Rightarrow> config_snapshot \<Rightarrow> modality_action \<Rightarrow> bool \<Rightarrow> reconciler \<Rightarrow> reconciler" where
  "apply_shut_down env m before target action ok st =
     (if \<not> ok then apply_fails m before st
      else if action = DrainAndReplace then
        (case add_created env m target st of
           None \<Rightarrow> apply_fails m before st
         | Some st1 \<Rightarrow> apply_ends m before (set_applied m target (attachBarrier m st1)))
      else apply_ends m before (set_applied m target st))"

definition applyModality ::
  "reconciler_env \<Rightarrow> runtime_modality \<Rightarrow> config_snapshot \<Rightarrow> config_snapshot \<Rightarrow> modality_action \<Rightarrow> reconciler \<Rightarrow> reconciler" where
  "applyModality env m before target action st =
     (let st1 = set_pending m (Some [applied_model st m, activeModel m (cfg_config target)]) st in
      if action = Add then
        (case add_created env m target st1 of
           None \<Rightarrow> apply_fails m before st1
         | Some st2 \<Rightarrow> apply_ends m before (set_applied m target (attachBarrier m st2)))
      else if action = DrainAndReplace \<and> service st1 m \<noteq> None \<and>
              candidate_preflight env m target (activeModel m (cfg_config target))
      then suspend m (AtApplyPreflight before target action) (set_preflight m True st1)
      else suspend m (AtBeforeDrain before target action) st1)"

definition apply_preflighted ::
  "runtime_modality \<Rightarrow> config_snapshot \<Rightarrow> config_snapshot \<Rightarrow> modality_action \<Rightarrow> preflight_outcome \<Rightarrow> reconciler \<Rightarrow> reconciler" where
  "apply_preflighted m before target action outcome st =
     (let st1 = set_preflight m False st in
      case outcome of
        PreflightRejected e \<Rightarrow> apply_ends m before st1
      | _ \<Rightarrow> suspend m (AtBeforeDrain before target action) st1)"

definition reconcileModality :: "reconciler_env \<Rightarrow> runtime_modality \<Rightarrow> reconciler \<Rightarrow> reconciler" where
  "reconcileModality env m st =
     (let before = rc_applied st m; target = rc_snapshot st in
      case plan_action env m before target of
        None \<Rightarrow> end_work m (set_scheduled m False st)
      | Some Unchanged \<Rightarrow>
          if configuredRuntimeModality m (cfg_config target) (re_ownership env) \<and> service st m = None then
            (case add_created env m target st of
               None \<Rightarrow> suspend m (AtLoop before) (recordReconciliationFailure m st)
             | Some st1 \<Rightarrow> suspend m (AtLoop before) (set_applied m target (attachBarrier m st1)))
          else suspend m (AtLoop before) (set_applied m target st)
      | Some action \<Rightarrow> applyModality env m before target action st)"

text \<open>
  The loop of \<open>scheduleModality\<close>.  A snapshot is identified by its revision.
\<close>

definition reconcile_turn :: "reconciler_env \<Rightarrow> runtime_modality \<Rightarrow> reconciler \<Rightarrow> reconciler" where
  "reconcile_turn env m st =
     (if cfg_revision (rc_applied st m) \<noteq> cfg_revision (rc_snapshot st) then reconcileModality env m st
      else end_work m (set_scheduled m False st))"

definition reconcile_again :: "reconciler_env \<Rightarrow> runtime_modality \<Rightarrow> config_snapshot \<Rightarrow> reconciler \<Rightarrow> reconciler" where
  "reconcile_again env m before st =
     (if cfg_revision (rc_applied st m) = cfg_revision before then end_work m (set_scheduled m False st)
      else reconcile_turn env m st)"

definition scheduleModality :: "runtime_modality \<Rightarrow> reconciler \<Rightarrow> reconciler" where
  "scheduleModality m st =
     (if rc_scheduled st m \<or> cfg_revision (rc_applied st m) = cfg_revision (rc_snapshot st) then st
      else exclusiveModality m TReconcile (set_scheduled m True st))"

definition scheduleReconciliation :: "reconciler_env \<Rightarrow> config_snapshot \<Rightarrow> reconciler \<Rightarrow> reconciler" where
  "scheduleReconciliation env target st =
     (if cfg_revision target = cfg_revision (rc_snapshot st) then fold scheduleModality runtimeModalities st
      else
        (case reconcile_plan env (rc_snapshot st) target of
           Inl e \<Rightarrow> st
         | Inr plan \<Rightarrow>
             if rp_restartAction plan = RestartNeeded then st
             else fold scheduleModality runtimeModalities (set_snapshot env target st)))"

text \<open>\<open>coordinate\<close>: \<open>stored\<close> is the configuration read, \<open>None\<close> when reading it failed.\<close>

definition coordinate :: "reconciler_env \<Rightarrow> config option \<Rightarrow> reconciler \<Rightarrow> reconciler" where
  "coordinate env stored st =
     (case stored of
        None \<Rightarrow> st
      | Some config \<Rightarrow>
          (case controller_replace env config (rc_controller st) of
             None \<Rightarrow> st
           | Some target \<Rightarrow> scheduleReconciliation env target (st\<lparr>rc_controller := target\<rparr>)))"

section \<open>Eviction\<close>

definition eviction_time :: "bool \<Rightarrow> reconciler \<Rightarrow> reconciler" where
  "eviction_time b st = (if b then st\<lparr>rc_lastMemoryEvictionAt := Some (rc_now st)\<rparr> else st)"

definition batch_result :: "nat \<Rightarrow> nat \<Rightarrow> bool \<Rightarrow> reconciler \<Rightarrow> reconciler" where
  "batch_result k n ok st =
     (let b = rc_batches st ! k;
          b1 = b\<lparr>eb_left := eb_left b - 1, eb_count := eb_count b + n, eb_failed := eb_failed b \<or> \<not> ok\<rparr>
      in eviction_time (eb_left b1 = 0 \<and> \<not> eb_failed b1 \<and> eb_count b1 > 0) (st\<lparr>rc_batches := (rc_batches st)[k := b1]\<rparr>))"

definition evict_idle :: "runtime_modality \<Rightarrow> nat \<Rightarrow> reconciler \<Rightarrow> reconciler" where
  "evict_idle m k st =
     (if eb_excluded (rc_batches st ! k) = Some m then batch_result k 0 True (end_work m st)
      else
        (case running_service st m of
           None \<Rightarrow> batch_result k 0 True (end_work m st)
         | Some s \<Rightarrow>
             if \<not> fst (detachIfIdle (rc_barrier st m)) then batch_result k 0 True (end_work m st)
             else suspend m (AtEvictKill k) (call_supervisor (Kill s) (upd_barrier m (\<lambda>b. snd (detachIfIdle b)) st))))"

definition evicted_idle :: "runtime_modality \<Rightarrow> nat \<Rightarrow> bool \<Rightarrow> reconciler \<Rightarrow> reconciler" where
  "evicted_idle m k ok st = batch_result k (if ok then 1 else 0) ok (end_work m (attachBarrier m st))"

definition isWithinReclaimGrace :: "reconciler \<Rightarrow> bool" where
  "isWithinReclaimGrace st =
     (case rc_lastMemoryEvictionAt st of None \<Rightarrow> False | Some t \<Rightarrow> rc_now st - t < MEMORY_SETTLE_TIMEOUT_MS)"

text \<open>\<open>rejectQueued\<close> cancels every request that has not been answered.\<close>

definition rejectQueued :: "reconciler \<Rightarrow> reconciler" where
  "rejectQueued st =
     st\<lparr>rc_requests := map (\<lambda>q. if ar_result q = None then q\<lparr>ar_cancelled := True\<rparr> else q) (rc_requests st)\<rparr>"

text \<open>The end of an aborted preflight (\<open>switchPreflights\<close>).\<close>

definition preflight_aborted :: "runtime_modality \<Rightarrow> reconciler \<Rightarrow> reconciler" where
  "preflight_aborted m st =
     (if \<not> rc_preflights st m then st
      else
        (case rc_running st m of
           Some (AtApplyPreflight before target action) \<Rightarrow> apply_fails m before (set_preflight m False st)
         | Some (AtSwitchPreflight sw) \<Rightarrow> switch_ends m sw (Threw RequestAborted) (set_preflight m False st)
         | Some (AtStartPreflight r modelId snap) \<Rightarrow> settle_request m r (Threw RequestAborted) (set_preflight m False st)
         | _ \<Rightarrow> st))"

definition evictAllRuntimes :: "reconciler \<Rightarrow> reconciler" where
  "evictAllRuntimes st =
     fold (\<lambda>m. exclusiveModality m TEvictAll) runtimeModalities
       (fold preflight_aborted runtimeModalities (rejectQueued st))"

definition evict_all :: "runtime_modality \<Rightarrow> reconciler \<Rightarrow> reconciler" where
  "evict_all m st =
     (case service st m of
        None \<Rightarrow> end_work m st
      | Some s \<Rightarrow>
          let st1 = upd_registry (markDraining m) st; p = fst (drainWithoutCancellation (rc_barrier st1 m))
          in suspend m (AtEvictAllKill p)
               (call_supervisor (Kill s) (barrier_op m (\<lambda>b. snd (drainWithoutCancellation b)) st1)))"

definition evicted_all :: "runtime_modality \<Rightarrow> reconciler \<Rightarrow> reconciler" where
  "evicted_all m st = end_work m (reopen m st)"

section \<open>Cancelled generations\<close>

definition reattach_if_serving :: "runtime_modality \<Rightarrow> nat \<Rightarrow> reconciler \<Rightarrow> reconciler" where
  "reattach_if_serving m s st =
     end_work m (if rc_configured st m \<and> service st m = Some s then attachBarrier m st else st)"

definition idle_cancellation_work :: "runtime_modality \<Rightarrow> nat \<Rightarrow> reconciler \<Rightarrow> reconciler" where
  "idle_cancellation_work m i st =
     (let s = pa_supervisor (rc_prepared st m i) in
      if service st m = Some s \<and> (service_state st s = Starting \<or> service_state st s = Running)
      then suspend m (AtCancelKill s) (call_supervisor (Kill s) st)
      else reattach_if_serving m s st)"

definition safeguard_work :: "runtime_modality \<Rightarrow> nat \<Rightarrow> nat \<Rightarrow> reconciler \<Rightarrow> reconciler" where
  "safeguard_work m s check st =
     (if running_service st m \<noteq> Some s then end_work m st else suspend m (AtSafeguardSlots s check) st)"

definition safeguard_slots :: "runtime_modality \<Rightarrow> nat \<Rightarrow> nat \<Rightarrow> int option \<Rightarrow> reconciler \<Rightarrow> reconciler" where
  "safeguard_slots m s check processing st =
     (case (if sv_reportsSlots (rc_supervisor st s) then processing else None) of
        None \<Rightarrow> end_work m st
      | Some n \<Rightarrow>
          if n \<le> as_activeCount (admission_snapshot (rc_barrier st m)) then end_work m st
          else if \<not> fst (detachIfIdle (rc_barrier st m)) then
            (if check < MAX_CANCELLATION_SAFEGUARD_CHECKS
             then scheduleCancellationSafeguard m s (check + 1) (end_work m st) else end_work m st)
          else suspend m (AtSafeguardKill s)
                 (call_supervisor (Kill s) (upd_barrier m (\<lambda>b. snd (detachIfIdle b)) st)))"

section \<open>Recovery by evicting idle peers\<close>

definition upd_recovery :: "nat \<Rightarrow> (recovery \<Rightarrow> recovery) \<Rightarrow> reconciler \<Rightarrow> reconciler" where
  "upd_recovery v f st =
     (if v < length (rc_recoveries st) then st\<lparr>rc_recoveries := (rc_recoveries st)[v := f (rc_recoveries st ! v)]\<rparr> else st)"

definition claim_current :: "reconciler \<Rightarrow> runtime_modality \<times> nat \<times> nat \<Rightarrow> bool" where
  "claim_current st c = (case c of (m, s, token) \<Rightarrow> rc_claims st m = Some token)"

definition claim_serving :: "reconciler \<Rightarrow> runtime_modality \<times> nat \<times> nat \<Rightarrow> bool" where
  "claim_serving st c = (case c of (m, s, token) \<Rightarrow> claim_current st c \<and> running_service st m = Some s)"

text \<open>
  The \<open>finally\<close> of \<open>recoverWithIdleEviction\<close>: give up the claims and reopen the barriers, each in its
  modality's chain.
\<close>

definition release_claims :: "nat \<Rightarrow> reconciler \<Rightarrow> reconciler" where
  "release_claims v st =
     (let cs = rv_claims (rc_recoveries st ! v);
          st1 = fold (\<lambda>c st. if claim_current st c then set_claim (fst c) None st else st) cs st
      in fold (\<lambda>c. exclusiveModality (fst c) TRelease) cs st1)"

definition recovery_ends :: "nat \<Rightarrow> bool option \<Rightarrow> reconciler \<Rightarrow> reconciler" where
  "recovery_ends v res st = release_claims v (upd_recovery v (\<lambda>q. q\<lparr>rv_phase := RecoveryDone res\<rparr>) st)"

definition with_candidate :: "reconciler_env \<Rightarrow> runtime_modality \<Rightarrow> string \<Rightarrow> reconciler \<Rightarrow> supervisor_shape option" where
  "with_candidate env m modelId st =
     re_create env m ((rc_snapshot st)\<lparr>cfg_config := with_model m modelId (cfg_config (rc_snapshot st))\<rparr>)"

text \<open>The peers a projection may credit when no claim has been made.\<close>

definition idle_peers :: "runtime_modality \<Rightarrow> reconciler \<Rightarrow> nat list" where
  "idle_peers m st =
     concat (map (\<lambda>peer.
       if peer = m then []
       else (case running_service st peer of
               None \<Rightarrow> []
             | Some s \<Rightarrow> let a = admission_snapshot (rc_barrier st peer) in
                 if \<not> as_accepting a \<or> as_activeCount a \<noteq> 0 then [] else [s])) runtimeModalities)"

definition releasing_supervisors :: "runtime_modality \<Rightarrow> string \<Rightarrow> nat list option \<Rightarrow> reconciler \<Rightarrow> nat list" where
  "releasing_supervisors m modelId claimed st =
     (case claimed of Some ss \<Rightarrow> ss | None \<Rightarrow> idle_peers m st) @
     (if m = Video \<and> modelId \<noteq> applied_model st Video
      then (case service st Video of Some s \<Rightarrow> [s] | None \<Rightarrow> []) else [])"

text \<open>The chains held by the recovery's nested work are released.\<close>

definition end_nested :: "nat \<Rightarrow> reconciler \<Rightarrow> reconciler" where
  "end_nested v st =
     st\<lparr>rc_running := (\<lambda>m. if rc_running st m = Some (AtNested v) then None else rc_running st m)\<rparr>"

definition stop_ends :: "runtime_modality \<Rightarrow> nat \<Rightarrow> bool option \<Rightarrow> reconciler \<Rightarrow> reconciler" where
  "stop_ends m v res st =
     (let st1 = end_nested v (end_work m st) in
      if rv_phase (rc_recoveries st ! v) = Stopping
      then recovery_ends v res (eviction_time (res = Some True \<and> rv_claims (rc_recoveries st ! v) \<noteq> []) st1)
      else st1)"

text \<open>All claims are held: their supervisors are stopped one after the other.\<close>

definition stop_claims :: "runtime_modality \<Rightarrow> nat \<Rightarrow> (runtime_modality \<times> nat \<times> nat) list \<Rightarrow> reconciler \<Rightarrow> reconciler" where
  "stop_claims m v cs st =
     (case cs of
        (pm, s, token) # rest \<Rightarrow> suspend m (AtStopKill v rest) (call_supervisor (Kill s) st)
      | [] \<Rightarrow> stop_ends m v (Some True) st)"

definition claim_idle :: "reconciler \<Rightarrow> runtime_modality \<times> nat \<times> nat \<Rightarrow> bool" where
  "claim_idle st c =
     (let a = admission_snapshot (rc_barrier st (fst c))
      in claim_serving st c \<and> as_activeCount a = 0 \<and> \<not> as_accepting a)"

definition claimed_modalities :: "recovery \<Rightarrow> runtime_modality list" where
  "claimed_modalities q = filter (\<lambda>m. list_ex (\<lambda>c. fst c = m) (rv_claims q)) runtimeModalities"

definition begin_stop :: "nat \<Rightarrow> reconciler \<Rightarrow> reconciler" where
  "begin_stop v st =
     (case claimed_modalities (rc_recoveries st ! v) of
        [] \<Rightarrow> recovery_ends v (Some True) st
      | m # rest \<Rightarrow> exclusiveModality m (TStop v rest) (upd_recovery v (\<lambda>q. q\<lparr>rv_phase := Stopping\<rparr>) st))"

definition recovery_projected :: "nat \<Rightarrow> bool \<Rightarrow> reconciler \<Rightarrow> reconciler" where
  "recovery_projected v canAdmit st =
     (if \<not> canAdmit then recovery_ends v (Some False) st
      else if \<not> list_all (claim_serving st) (rv_claims (rc_recoveries st ! v)) then recovery_ends v (Some False) st
      else begin_stop v st)"

definition begin_projection :: "reconciler_env \<Rightarrow> nat \<Rightarrow> reconciler \<Rightarrow> reconciler" where
  "begin_projection env v st =
     (let q = rc_recoveries st ! v in
      if \<not> configuredRuntimeModality (rv_modality q) (cfg_config (rc_snapshot st)) (re_ownership env)
      then recovery_projected v False st
      else
        (case with_candidate env (rv_modality q) (rv_modelId q) st of
           None \<Rightarrow> recovery_projected v False st
         | Some sh \<Rightarrow>
             if \<not> sh_preflight sh then recovery_projected v True st
             else upd_recovery v (\<lambda>q. q\<lparr>rv_phase := Projecting\<rparr>) st))"

text \<open>One claim is made, or not; when all five are, the projection begins.\<close>

definition claim_made :: "reconciler_env \<Rightarrow> nat \<Rightarrow> reconciler \<Rightarrow> reconciler" where
  "claim_made env v st =
     (case rv_phase (rc_recoveries st ! v) of
        Claiming n \<Rightarrow>
          let st1 = upd_recovery v (\<lambda>q. q\<lparr>rv_phase := Claiming (n - 1)\<rparr>) st
          in if n - 1 = 0 then begin_projection env v st1 else st1
      | _ \<Rightarrow> st)"

definition claim_work :: "reconciler_env \<Rightarrow> runtime_modality \<Rightarrow> nat \<Rightarrow> reconciler \<Rightarrow> reconciler" where
  "claim_work env m v st =
     (let q = rc_recoveries st ! v; st0 = end_work m st in
      if rv_aborted q then st0
      else if m = rv_modality q then claim_made env v st0
      else
        (case running_service st m of
           None \<Rightarrow> claim_made env v st0
         | Some s \<Rightarrow>
             if \<not> fst (detachIfIdle (rc_barrier st m)) then claim_made env v st0
             else
               let token = rc_nextToken st0;
                   st1 = (set_claim m (Some token) (upd_barrier m (\<lambda>b. snd (detachIfIdle b)) st0))\<lparr>rc_nextToken := Suc token\<rparr>
               in claim_made env v (upd_recovery v (\<lambda>q. q\<lparr>rv_claims := rv_claims q @ [(m, s, token)]\<rparr>) st1)))"

definition stop_work :: "runtime_modality \<Rightarrow> nat \<Rightarrow> runtime_modality list \<Rightarrow> reconciler \<Rightarrow> reconciler" where
  "stop_work m v rest st =
     (let q = rc_recoveries st ! v in
      if rv_aborted q then end_work m st
      else
        (case rest of
           m' # rest' \<Rightarrow> exclusiveModality m' (TStop v rest') (suspend m (AtNested v) st)
         | [] \<Rightarrow>
             if \<not> list_all (claim_idle st) (rv_claims q) then stop_ends m v (Some False) st
             else stop_claims m v (rv_claims q) st))"

definition claim_stopped :: "runtime_modality \<Rightarrow> nat \<Rightarrow> (runtime_modality \<times> nat \<times> nat) list \<Rightarrow> bool \<Rightarrow> reconciler \<Rightarrow> reconciler" where
  "claim_stopped m v rest ok st =
     (if \<not> ok \<or> rv_aborted (rc_recoveries st ! v) then stop_ends m v None st
      else stop_claims m v rest st)"

definition release_work :: "runtime_modality \<Rightarrow> reconciler \<Rightarrow> reconciler" where
  "release_work m st = end_work m (if rc_claims st m \<noteq> None then st else attachBarrier m st)"

text \<open>
  An abort rejects every promise the recovery awaits under the signal: the outer chains are released
  and the claims given up at once, while work already stopping a supervisor finishes its step.
\<close>

definition recovery_aborted :: "nat \<Rightarrow> reconciler \<Rightarrow> reconciler" where
  "recovery_aborted v st =
     (let q = rc_recoveries st ! v; st1 = upd_recovery v (\<lambda>q. q\<lparr>rv_aborted := True\<rparr>) st in
      case rv_phase q of
        RecoveryDone _ \<Rightarrow> st1
      | _ \<Rightarrow> recovery_ends v None (end_nested v st1))"

definition recoverWithIdleEviction :: "runtime_modality \<Rightarrow> string \<Rightarrow> reconciler \<Rightarrow> reconciler" where
  "recoverWithIdleEviction m modelId st =
     (let v = length (rc_recoveries st);
          st1 = st\<lparr>rc_recoveries := rc_recoveries st @ [\<lparr>rv_modality = m, rv_modelId = modelId, rv_aborted = False,
                   rv_claims = [], rv_phase = Claiming (length runtimeModalities)\<rparr>]\<rparr>
      in fold (\<lambda>pm. exclusiveModality pm (TClaim v)) runtimeModalities st1)"

definition recovery_answer :: "nat \<Rightarrow> preflight_outcome \<Rightarrow> reconciler \<Rightarrow> reconciler" where
  "recovery_answer v outcome st =
     (if v < length (rc_recoveries st) \<and> rv_phase (rc_recoveries st ! v) = Projecting
      then recovery_projected v (outcome = PreflightFits) st else st)"

text \<open>
  \<open>canAdmitAfterIdleEviction\<close> outside a recovery: what the projection answers when the preflight of
  the candidate, called with \<open>releasing_supervisors\<close>, has the given outcome.
\<close>

definition canAdmitAfterIdleEviction :: "reconciler_env \<Rightarrow> runtime_modality \<Rightarrow> string \<Rightarrow> (nat list \<Rightarrow> preflight_outcome) \<Rightarrow> reconciler \<Rightarrow> bool" where
  "canAdmitAfterIdleEviction env m modelId preflight st \<longleftrightarrow>
     configuredRuntimeModality m (cfg_config (rc_snapshot st)) (re_ownership env) \<and>
     (case with_candidate env m modelId st of
        None \<Rightarrow> False
      | Some sh \<Rightarrow> \<not> sh_preflight sh \<or> preflight (releasing_supervisors m modelId None st) = PreflightFits)"

section \<open>What the reconciler reports\<close>

definition protectedModelIds :: "reconciler \<Rightarrow> string list" where
  "protectedModelIds st =
     filter (\<lambda>s. s \<noteq> [])
       (concat (map (\<lambda>m. case service st m of Some _ \<Rightarrow> [applied_model st m] | None \<Rightarrow> []) runtimeModalities) @
        concat (map (\<lambda>m. case rc_pending st m of Some ids \<Rightarrow> ids | None \<Rightarrow> []) runtimeModalities))"

definition reconciler_lifecycle ::
  "reconciler_env \<Rightarrow> (nat \<Rightarrow> string) \<Rightarrow> (nat \<Rightarrow> int option) \<Rightarrow>
   (runtime_modality \<Rightarrow> string option \<Rightarrow> inference_queue_snapshot) \<Rightarrow> reconciler \<Rightarrow> runtime_modality \<Rightarrow> lifecycle_snapshot" where
  "reconciler_lifecycle env runtime_id slots queue st m =
     (let modelId = (case service st m of None \<Rightarrow> None
            | Some _ \<Rightarrow> if applied_model st m = [] then None else Some (applied_model st m))
      in registry_lifecycleSnapshot (service_state st) runtime_id slots m
           (configuredRuntimeModality m (cfg_config (rc_applied st m)) (re_ownership env)) modelId
           (Some (admission_snapshot (rc_barrier st m))) (Some (queue m modelId)) (rc_registry st))"

section \<open>Events\<close>

datatype reconciler_event =
    EvCoordinate "config option"
  | EvPersist config
  | EvClock int
  | EvSupervisorState nat lifecycle_state
  | EvDispatch runtime_modality string
  | EvAdmit runtime_modality
  | EvAbort nat
  | EvTimeout nat
  | EvStart runtime_modality
  | EvLoop runtime_modality
  | EvPreflight runtime_modality preflight_outcome
  | EvHook runtime_modality bool
  | EvDrained runtime_modality
  | EvStopped runtime_modality bool
  | EvExclusive runtime_modality
  | EvUpdated runtime_modality "config option"
  | EvTimer runtime_modality
  | EvSlots runtime_modality "int option"
  | EvSafeguard runtime_modality
  | EvCancel runtime_modality nat
  | EvRelease runtime_modality nat
  | EvResponseStarted runtime_modality nat
  | EvReady runtime_modality nat
  | EvEvictIdle "runtime_modality option"
  | EvEvictAll
  | EvReloaded runtime_modality nat bool
  | EvRecover runtime_modality string
  | EvProjected nat preflight_outcome
  | EvRecoveryAbort nat

text \<open>Work at the head of an idle chain begins.\<close>

definition start_work :: "reconciler_env \<Rightarrow> runtime_modality \<Rightarrow> task \<Rightarrow> reconciler \<Rightarrow> reconciler" where
  "start_work env m t st =
     (case t of
        TReconcile \<Rightarrow> reconcile_turn env m st
      | TAdmission r \<Rightarrow>
          (case ar_modelId (request st r) of
             None \<Rightarrow> admit_configured env m r st | Some modelId \<Rightarrow> coordinateAdmission env m r modelId st)
      | TEvictIdle k \<Rightarrow> evict_idle m k st
      | TEvictAll \<Rightarrow> evict_all m st
      | TIdleCancellation i \<Rightarrow> idle_cancellation_work m i st
      | TSafeguard s check \<Rightarrow> safeguard_work m s check st
      | TClaim v \<Rightarrow> claim_work env m v st
      | TStop v rest \<Rightarrow> stop_work m v rest st
      | TRelease \<Rightarrow> release_work m st)"

definition next_work :: "reconciler_env \<Rightarrow> runtime_modality \<Rightarrow> reconciler \<Rightarrow> reconciler" where
  "next_work env m st =
     (case (rc_running st m, rc_waiting st m) of
        (None, t # ts) \<Rightarrow> start_work env m t (st\<lparr>rc_waiting := (rc_waiting st)(m := ts)\<rparr>)
      | _ \<Rightarrow> st)"

text \<open>An awaited preflight settles.\<close>

definition preflight_settles :: "reconciler_env \<Rightarrow> runtime_modality \<Rightarrow> preflight_outcome \<Rightarrow> reconciler \<Rightarrow> reconciler" where
  "preflight_settles env m outcome st =
     (case rc_running st m of
        Some (AtApplyPreflight before target action) \<Rightarrow> apply_preflighted m before target action outcome st
      | Some (AtSwitchPreflight sw) \<Rightarrow> switch_preflighted m sw outcome st
      | Some (AtSettlePreflight sw target previous wasRunning deadline) \<Rightarrow>
          settle_preflighted env m sw target previous wasRunning deadline outcome st
      | Some (AtStartPreflight r modelId snap) \<Rightarrow> start_preflighted env m r modelId snap outcome st
      | _ \<Rightarrow> st)"

text \<open>An awaited drain settles once its promise is resolved.\<close>

definition drain_settles :: "runtime_modality \<Rightarrow> reconciler \<Rightarrow> reconciler" where
  "drain_settles m st =
     (let resolved = set (b_resolved (rc_barrier st m)) in
      case rc_running st m of
        Some (AtApplyDrain p before target action) \<Rightarrow> if p \<in> resolved then apply_drained m before target action st else st
      | Some (AtSwitchDrain p sw) \<Rightarrow> if p \<in> resolved then switch_drained m sw st else st
      | Some (AtAbortedDrain p sw) \<Rightarrow>
          if p \<in> resolved then switch_ends m sw (Threw RequestAborted) (reopen m st) else st
      | Some (AtEvictAllDrain p) \<Rightarrow> if p \<in> resolved then evicted_all m st else st
      | _ \<Rightarrow> st)"

text \<open>An awaited \<open>kill\<close> or \<open>shutdown\<close> settles.\<close>

definition stop_settles :: "reconciler_env \<Rightarrow> runtime_modality \<Rightarrow> bool \<Rightarrow> reconciler \<Rightarrow> reconciler" where
  "stop_settles env m ok st =
     (case rc_running st m of
        Some (AtApplyShutdown before target action) \<Rightarrow> apply_shut_down env m before target action ok st
      | Some (AtSwitchShutdown sw target previous wasRunning) \<Rightarrow> switch_shut_down env m sw target previous wasRunning ok st
      | Some (AtEvictKill k) \<Rightarrow> evicted_idle m k ok st
      | Some (AtEvictAllKill p) \<Rightarrow> suspend m (AtEvictAllDrain p) st
      | Some (AtCancelKill s) \<Rightarrow> reattach_if_serving m s st
      | Some (AtSafeguardKill s) \<Rightarrow> reattach_if_serving m s st
      | Some (AtStopKill v rest) \<Rightarrow> claim_stopped m v rest ok st
      | _ \<Rightarrow> st)"

text \<open>The gateway-wide chain is free and an update waits for it: the update begins.\<close>

definition exclusive_begins :: "runtime_modality \<Rightarrow> reconciler \<Rightarrow> reconciler" where
  "exclusive_begins m st =
     (if rc_exclusive st \<noteq> None then st
      else
        (case rc_running st m of
           Some (AtSwitchUpdate sw) \<Rightarrow>
             if ar_cancelled (request st (sw_request sw)) then switch_update_fails m sw (Threw QueueCancelled) st
             else st\<lparr>rc_exclusive := Some m\<rparr>
         | Some (AtRollback sw target wasRunning e) \<Rightarrow> st\<lparr>rc_exclusive := Some m\<rparr>
         | _ \<Rightarrow> st))"

definition update_settles :: "reconciler_env \<Rightarrow> runtime_modality \<Rightarrow> config option \<Rightarrow> reconciler \<Rightarrow> reconciler" where
  "update_settles env m stored st =
     (if rc_exclusive st \<noteq> Some m then st
      else
        (case rc_running st m of
           Some (AtSwitchUpdate sw) \<Rightarrow> switch_updated env m sw stored st
         | Some (AtRollback sw target wasRunning e) \<Rightarrow> rolled_back env m sw target wasRunning e stored st
         | _ \<Rightarrow> st))"

text \<open>
  A request's signal aborts: the queue cancels its dispatch and whatever it awaits under the signal
  is rejected.
\<close>

definition abort_request :: "nat \<Rightarrow> reconciler \<Rightarrow> reconciler" where
  "abort_request r st =
     (if r \<ge> length (rc_requests st) \<or> ar_result (request st r) \<noteq> None then st
      else
        let m = ar_modality (request st r);
            st1 = upd_request r (\<lambda>q. q\<lparr>ar_aborted := True, ar_cancelled := True\<rparr>) st
        in (case rc_running st1 m of
              Some (AtSwitchPreflight sw) \<Rightarrow>
                if sw_request sw = r then switch_ends m sw (Threw RequestAborted) (set_preflight m False st1) else st1
            | Some (AtSwitchDrain p sw) \<Rightarrow> if sw_request sw = r then suspend m (AtAbortedDrain p sw) st1 else st1
            | Some (AtSettlePreflight sw target previous wasRunning deadline) \<Rightarrow>
                if sw_request sw = r then switch_ends m sw (Threw RequestAborted) st1 else st1
            | Some (AtSettleTimer sw target previous wasRunning deadline) \<Rightarrow>
                if sw_request sw = r then switch_ends m sw (Threw RequestAborted) st1 else st1
            | Some (AtStartPreflight r' modelId snap) \<Rightarrow>
                if r' = r then settle_request m r (Threw RequestAborted) (set_preflight m False st1) else st1
            | _ \<Rightarrow> st1))"

definition new_request :: "runtime_modality \<Rightarrow> string option \<Rightarrow> reconciler \<Rightarrow> reconciler" where
  "new_request m modelId st =
     exclusiveModality m (TAdmission (length (rc_requests st)))
       (st\<lparr>rc_requests := rc_requests st @ [\<lparr>ar_modality = m, ar_modelId = modelId, ar_aborted = False,
          ar_started = False, ar_cancelled = False, ar_result = None\<rparr>]\<rparr>)"

definition evictIdleRuntimes :: "runtime_modality option \<Rightarrow> reconciler \<Rightarrow> reconciler" where
  "evictIdleRuntimes excluded st =
     (let k = length (rc_batches st);
          st1 = st\<lparr>rc_batches := rc_batches st @ [\<lparr>eb_excluded = excluded, eb_left = length runtimeModalities,
                   eb_count = 0, eb_failed = False\<rparr>]\<rparr>
      in fold (\<lambda>m. exclusiveModality m (TEvictIdle k)) runtimeModalities st1)"

definition safeguard_fires :: "runtime_modality \<Rightarrow> reconciler \<Rightarrow> reconciler" where
  "safeguard_fires m st =
     (case rc_safeguards st m of
        None \<Rightarrow> st
      | Some (s, check) \<Rightarrow> exclusiveModality m (TSafeguard s check) (st\<lparr>rc_safeguards := (rc_safeguards st)(m := None)\<rparr>))"

text \<open>\<open>reloadRestoredModel\<close>, once its wait for memory has ended.\<close>

definition restored_reload :: "runtime_modality \<Rightarrow> nat \<Rightarrow> bool \<Rightarrow> reconciler \<Rightarrow> reconciler" where
  "restored_reload m s rejected st =
     (if (m, s) \<notin> set (rc_reloads st) then st
      else
        let st1 = st\<lparr>rc_reloads := remove1 (m, s) (rc_reloads st)\<rparr> in
        if rejected \<or> service st1 m \<noteq> Some s \<or> service_state st1 s \<noteq> Idle then st1
        else call_supervisor (EnsureRunning s) st1)"

definition issued :: "runtime_modality \<Rightarrow> nat \<Rightarrow> reconciler \<Rightarrow> bool" where
  "issued m i st \<longleftrightarrow> i < b_next (rc_barrier st m)"

fun reconciler_apply :: "reconciler_env \<Rightarrow> reconciler_event \<Rightarrow> reconciler \<Rightarrow> reconciler" where
  "reconciler_apply env (EvCoordinate stored) st = (if rc_exclusive st = None then coordinate env stored st else st)"
| "reconciler_apply env (EvPersist config) st =
     (case controller_replace env config (rc_controller st) of None \<Rightarrow> st | Some s \<Rightarrow> st\<lparr>rc_controller := s\<rparr>)"
| "reconciler_apply env (EvClock t) st = st\<lparr>rc_now := t\<rparr>"
| "reconciler_apply env (EvSupervisorState s state) st = upd_supervisor s (\<lambda>sv. sv\<lparr>sv_state := state\<rparr>) st"
| "reconciler_apply env (EvDispatch m modelId) st = new_request m (Some modelId) st"
| "reconciler_apply env (EvAdmit m) st = new_request m None st"
| "reconciler_apply env (EvAbort r) st = abort_request r st"
| "reconciler_apply env (EvTimeout r) st =
     (if r < length (rc_requests st) \<and> \<not> ar_started (request st r)
      then upd_request r (\<lambda>q. q\<lparr>ar_cancelled := True\<rparr>) st else st)"
| "reconciler_apply env (EvStart m) st = next_work env m st"
| "reconciler_apply env (EvLoop m) st =
     (case rc_running st m of Some (AtLoop before) \<Rightarrow> reconcile_again env m before st | _ \<Rightarrow> st)"
| "reconciler_apply env (EvPreflight m outcome) st = preflight_settles env m outcome st"
| "reconciler_apply env (EvHook m ok) st =
     (case rc_running st m of
        Some (AtBeforeDrain before target action) \<Rightarrow>
          if ok then apply_drain m before target action st else apply_fails m before st
      | _ \<Rightarrow> st)"
| "reconciler_apply env (EvDrained m) st = drain_settles m st"
| "reconciler_apply env (EvStopped m ok) st = stop_settles env m ok st"
| "reconciler_apply env (EvExclusive m) st = exclusive_begins m st"
| "reconciler_apply env (EvUpdated m stored) st = update_settles env m stored st"
| "reconciler_apply env (EvTimer m) st =
     (case rc_running st m of
        Some (AtSettleTimer sw target previous wasRunning deadline) \<Rightarrow> settle_probe m sw target previous wasRunning deadline st
      | _ \<Rightarrow> st)"
| "reconciler_apply env (EvSlots m processing) st =
     (case rc_running st m of
        Some (AtSafeguardSlots s check) \<Rightarrow> safeguard_slots m s check processing st
      | _ \<Rightarrow> st)"
| "reconciler_apply env (EvSafeguard m) st = safeguard_fires m st"
| "reconciler_apply env (EvCancel m i) st = (if issued m i st then cancel_admission m i st else st)"
| "reconciler_apply env (EvRelease m i) st = (if issued m i st then release_admission m i st else st)"
| "reconciler_apply env (EvResponseStarted m i) st =
     (if issued m i st then barrier_op m (mark_response_started i) st else st)"
| "reconciler_apply env (EvReady m i) st =
     (if issued m i st then upd_prepared m i (\<lambda>a. a\<lparr>pa_startupPending := False\<rparr>) st else st)"
| "reconciler_apply env (EvEvictIdle excluded) st = evictIdleRuntimes excluded st"
| "reconciler_apply env EvEvictAll st = evictAllRuntimes st"
| "reconciler_apply env (EvReloaded m s rejected) st = restored_reload m s rejected st"
| "reconciler_apply env (EvRecover m modelId) st = recoverWithIdleEviction m modelId st"
| "reconciler_apply env (EvProjected v outcome) st = recovery_answer v outcome st"
| "reconciler_apply env (EvRecoveryAbort v) st = (if v < length (rc_recoveries st) then recovery_aborted v st else st)"

definition reconciler_step :: "reconciler_env \<Rightarrow> reconciler_event \<Rightarrow> reconciler \<Rightarrow> reconciler option" where
  "reconciler_step env ev st = Some (reconciler_apply env ev st)"

abbreviation reconciler_run :: "reconciler_env \<Rightarrow> reconciler_event list \<Rightarrow> reconciler \<Rightarrow> reconciler option" where
  "reconciler_run env \<equiv> run_events (reconciler_step env)"

text \<open>
  The constructor: the controller's snapshot is the applied one everywhere, and \<open>services\<close> are the
  supervisors the gateway was started with.
\<close>

definition new_reconciler :: "reconciler_env \<Rightarrow> config_snapshot \<Rightarrow> (runtime_modality \<Rightarrow> nat option) \<Rightarrow> (nat \<Rightarrow> supervisor) \<Rightarrow> nat \<Rightarrow> reconciler" where
  "new_reconciler env s services supervisors n =
     \<lparr>rc_controller = s, rc_snapshot = s, rc_configured = configuredModalities s (re_ownership env),
      rc_applied = (\<lambda>_. s), rc_barrier = (\<lambda>m. new_barrier m (configuredModalities s (re_ownership env) m)),
      rc_registry = new_registry services, rc_supervisor = supervisors, rc_nextSupervisor = n,
      rc_scheduled = (\<lambda>_. False), rc_pending = (\<lambda>_. None), rc_preflights = (\<lambda>_. False), rc_claims = (\<lambda>_. None),
      rc_nextToken = 0, rc_safeguards = (\<lambda>_. None), rc_lastMemoryEvictionAt = None, rc_now = 0,
      rc_running = (\<lambda>_. None), rc_waiting = (\<lambda>_. []), rc_exclusive = None, rc_requests = [],
      rc_prepared = (\<lambda>_ _. \<lparr>pa_snapshot = s, pa_supervisor = 0, pa_startupPending = False, pa_stopRequested = False,
         pa_settled = False\<rparr>),
      rc_batches = [], rc_recoveries = [], rc_reloads = [], rc_calls = []\<rparr>"

end
