(* ===== verification/Reconciler_Safety.thy ===== *)
theory Reconciler_Safety
  imports Runtime_Reconciler "HOL-Library.Countable"
begin

text \<open>
  What the reconciler guarantees over any sequence of events: an invariant of each modality, kept by
  every continuation of its work, and the properties that follow from it.
\<close>

section \<open>Snapshots\<close>

text \<open>Snapshots of one controller are ordered by revision; equal revisions are the same snapshot.\<close>

definition older :: "config_snapshot \<Rightarrow> config_snapshot \<Rightarrow> bool" where
  "older s t \<longleftrightarrow> cfg_revision s < cfg_revision t \<or> s = t"

lemma older_refl [simp, intro]: "older s s"
  by (simp add: older_def)

lemma older_trans [trans]: "older s t \<Longrightarrow> older t u \<Longrightarrow> older s u"
  by (auto simp: older_def)

lemma older_eq: "older s t \<Longrightarrow> cfg_revision s = cfg_revision t \<Longrightarrow> s = t"
  by (auto simp: older_def)

lemma older_revision: "older s t \<Longrightarrow> cfg_revision s \<le> cfg_revision t"
  by (auto simp: older_def)

lemma replace_older: "controller_replace env c s = Some t \<Longrightarrow> older s t"
  by (auto simp: controller_replace_def replace_config_def older_def split: if_splits)

lemma activeModelField_in_all: "activeModelField m \<in> set all_fields"
  by simp

text \<open>With an injective \<open>JSON.stringify\<close> a configuration that is not replaced has the same models.\<close>

lemma normalized_field:
  assumes "inj stringify" "configFingerprint stringify lc c = configFingerprint stringify lc d"
  shows "normalizedValue lc (c f) = normalizedValue lc (d f)"
  using sorted_entries_fields [of lc c d f] assms by (auto simp: configFingerprint_def dest: injD)

lemma normalized_string: "normalizedValue lc v = normalizedValue lc w \<Longrightarrow> json_string v = json_string w"
  by (cases v; cases w) auto

lemma normalized_array: "normalizedValue lc v = normalizedValue lc w \<Longrightarrow> nonempty_array v = nonempty_array w"
  by (cases v; cases w) (auto simp: nonempty_array_def)

lemma same_fingerprint_models:
  assumes "inj stringify" "configFingerprint stringify lc c = configFingerprint stringify lc d"
  shows "activeModel m c = activeModel m d" "configuredRuntimeModality m c ov = configuredRuntimeModality m d ov"
proof -
  note n = normalized_field [OF assms]
  show "activeModel m c = activeModel m d"
    unfolding activeModel_def by (rule normalized_string [OF n])
  have "nonempty_array (c f) = nonempty_array (d f)" for f by (rule normalized_array [OF n])
  then show "configuredRuntimeModality m c ov = configuredRuntimeModality m d ov"
    by (simp add: configuredRuntimeModality_def split: option.split runtime_modality.split)
qed

lemma replace_models:
  assumes "inj (re_stringify env)" "controller_replace env c s = Some t"
  shows "activeModel m (cfg_config t) = activeModel m c"
    "configuredRuntimeModality m (cfg_config t) ov = configuredRuntimeModality m c ov"
  using assms(2) same_fingerprint_models [OF assms(1), of "re_localeCompare env" "cfg_config s" c]
  by (auto simp: controller_replace_def replace_config_def split: if_splits)

text \<open>A model in the selection configures its modality, unless an override switches it off.\<close>

lemma selected_configured:
  assumes "i \<in> set (selectedModels m c)" "ov_configured ov m \<noteq> Some False"
  shows "configuredRuntimeModality m c ov"
proof -
  have "i \<in> set (json_strings v) \<Longrightarrow> nonempty_array v" for v by (cases v) (auto simp: nonempty_array_def)
  with assms show ?thesis
    by (cases m) (auto simp: configuredRuntimeModality_def selectedModels_def split: option.split)
qed

lemma with_model_simps [simp]:
  "activeModel m (with_model m i c) = i"
  "configuredRuntimeModality m' (with_model m i c) ov = configuredRuntimeModality m' c ov"
  "selectedModels m' (with_model m i c) = selectedModels m' c"
  by (cases m; cases m'; simp add: activeModel_def with_model_def configuredRuntimeModality_def selectedModels_def split: option.split)+

text \<open>A plan that leaves a modality alone keeps its model and whether it is configured.\<close>

lemma equal_strings: "valuesEqual lc v w \<Longrightarrow> json_string v = json_string w"
  by (subst (asm) valuesEqual.simps) (cases v; cases w; auto split: if_splits)

lemma plan_action_eq:
  assumes "plan_action env m s t = Some a"
  shows "a = mp_action (modalityPlan (re_localeCompare env) m s t (re_ownership env) (ov_configFields (re_ownership env)))"
proof -
  have o': "ownedFields (re_ownership env) = Inr os \<Longrightarrow> os = ov_configFields (re_ownership env)" for os
    by (simp add: ownedFields_def split: option.splits)
  have mo: "map_of (map (\<lambda>m. (m, f m)) runtimeModalities) m = Some (f m)" for f :: "runtime_modality \<Rightarrow> modality_plan"
    by (cases m) (simp_all add: runtimeModalities_def)
  show ?thesis
    using assms by (auto simp: plan_action_def reconcile_plan_def createRuntimeReconciliationPlan_def Let_def mo
        split: option.splits sum.splits dest!: o')
qed

lemma effective_model: "effectiveValue s (activeModelField m) = cfg_config s (activeModelField m)"
  by (cases m) (simp_all add: effectiveValue_def backendHostFields_def split: json.split)

lemma activeModelField_launch: "activeModelField m \<in> set (modalityLaunchFields m)"
  by (cases m) simp_all

lemma plan_unchanged:
  assumes "plan_action env m s t = Some Unchanged"
  shows "owned_field env m \<or> configuredRuntimeModality m (cfg_config s) (re_ownership env) \<longrightarrow>
      owned_field env m \<or> activeModel m (cfg_config s) = activeModel m (cfg_config t)"
    "configuredRuntimeModality m (cfg_config s) (re_ownership env) = configuredRuntimeModality m (cfg_config t) (re_ownership env)"
proof -
  let ?p = "modalityPlan (re_localeCompare env) m s t (re_ownership env) (ov_configFields (re_ownership env))"
  have a: "mp_action ?p = Unchanged" using plan_action_eq [OF assms] by simp
  then show "configuredRuntimeModality m (cfg_config s) (re_ownership env) = configuredRuntimeModality m (cfg_config t) (re_ownership env)"
    by (auto simp: modalityPlan_def Let_def split: if_splits)
  show "owned_field env m \<or> configuredRuntimeModality m (cfg_config s) (re_ownership env) \<longrightarrow>
      owned_field env m \<or> activeModel m (cfg_config s) = activeModel m (cfg_config t)"
  proof (clarsimp)
    assume c: "configuredRuntimeModality m (cfg_config s) (re_ownership env)"
      and n: "activeModel m (cfg_config s) \<noteq> activeModel m (cfg_config t)"
    have "changedFields (re_localeCompare env) s t (modalityLaunchFields m) (ov_configFields (re_ownership env)) = []"
      using a c by (auto simp: modalityPlan_def Let_def split: if_splits)
    then have "activeModelField m \<notin> set (ov_configFields (re_ownership env)) \<Longrightarrow>
        valuesEqual (re_localeCompare env) (effectiveValue s (activeModelField m)) (effectiveValue t (activeModelField m))"
      using activeModelField_launch [of m] by (auto simp: changedFields_def filter_empty_conv)
    with n show "owned_field env m"
      by (auto simp: owned_field_def effective_model activeModel_def dest: equal_strings)
  qed
qed

lemma plan_actions:
  assumes "plan_action env m s t = Some a"
  shows "a = Add \<or> a = DrainAndReplace \<Longrightarrow> configuredRuntimeModality m (cfg_config t) (re_ownership env)"
    "a = DrainAndRemove \<Longrightarrow> \<not> configuredRuntimeModality m (cfg_config t) (re_ownership env)"
    "a = Add \<Longrightarrow> \<not> configuredRuntimeModality m (cfg_config s) (re_ownership env)"
  using plan_action_eq [OF assms] by (auto simp: modalityPlan_def Let_def split: if_splits)

section \<open>The invariant\<close>

definition shut :: "barrier \<Rightarrow> bool" where
  "shut b \<longleftrightarrow> \<not> b_accepting b \<and> b_active b = 0"

definition draining_for :: "nat \<Rightarrow> barrier \<Rightarrow> bool" where
  "draining_for p b \<longleftrightarrow> \<not> b_accepting b \<and> b_idle b = p"

definition configured_in :: "reconciler_env \<Rightarrow> runtime_modality \<Rightarrow> config_snapshot \<Rightarrow> bool" where
  "configured_in env m s \<longleftrightarrow> configuredRuntimeModality m (cfg_config s) (re_ownership env)"

definition model_of :: "runtime_modality \<Rightarrow> config_snapshot \<Rightarrow> string" where
  "model_of m s = activeModel m (cfg_config s)"

text \<open>The configuration being applied, and the one a switch moves to.\<close>

definition target_ok :: "reconciler_env \<Rightarrow> reconciler \<Rightarrow> runtime_modality \<Rightarrow> config_snapshot \<Rightarrow> modality_action \<Rightarrow> bool" where
  "target_ok env st m t a \<longleftrightarrow> older t (rc_snapshot st) \<and> cfg_revision (rc_applied st m) < cfg_revision t \<and>
     (a = DrainAndReplace \<and> configured_in env m t \<or> a = DrainAndRemove \<and> \<not> configured_in env m t)"

definition request_of :: "reconciler \<Rightarrow> runtime_modality \<Rightarrow> nat \<Rightarrow> bool" where
  "request_of st m r \<longleftrightarrow> r < length (rc_requests st) \<and> ar_modality (rc_requests st ! r) = m"

definition asks :: "reconciler \<Rightarrow> nat \<Rightarrow> string \<Rightarrow> bool" where
  "asks st r modelId \<longleftrightarrow> r < length (rc_requests st) \<and> ar_modelId (rc_requests st ! r) = Some modelId"

definition switch_ok :: "reconciler_env \<Rightarrow> reconciler \<Rightarrow> runtime_modality \<Rightarrow> switch \<Rightarrow> bool" where
  "switch_ok env st m sw \<longleftrightarrow> \<not> owned_field env m \<and> request_of st m (sw_request sw) \<and> asks st (sw_request sw) (sw_modelId sw) \<and>
     sw_modelId sw \<noteq> model_of m (rc_applied st m) \<and> ov_configured (re_ownership env) m \<noteq> Some False"

definition switching_to :: "reconciler_env \<Rightarrow> reconciler \<Rightarrow> runtime_modality \<Rightarrow> switch \<Rightarrow> config_snapshot \<Rightarrow> bool" where
  "switching_to env st m sw t \<longleftrightarrow> switch_ok env st m sw \<and> older t (rc_snapshot st) \<and>
     cfg_revision (rc_applied st m) < cfg_revision t \<and> model_of m t = sw_modelId sw \<and> configured_in env m t \<and>
     service st m = None \<and> shut (rc_barrier st m)"

fun point_ok :: "reconciler_env \<Rightarrow> reconciler \<Rightarrow> runtime_modality \<Rightarrow> point \<Rightarrow> bool" where
  "point_ok env st m (AtApplyPreflight b t a) = target_ok env st m t a"
| "point_ok env st m (AtBeforeDrain b t a) = target_ok env st m t a"
| "point_ok env st m (AtApplyDrain p b t a) = (target_ok env st m t a \<and> draining_for p (rc_barrier st m))"
| "point_ok env st m (AtApplyShutdown b t a) =
     (target_ok env st m t a \<and> shut (rc_barrier st m) \<and> service st m = None)"
| "point_ok env st m (AtSwitchPreflight sw) = switch_ok env st m sw"
| "point_ok env st m (AtSwitchDrain p sw) = (switch_ok env st m sw \<and> draining_for p (rc_barrier st m))"
| "point_ok env st m (AtAbortedDrain p sw) = (switch_ok env st m sw \<and> draining_for p (rc_barrier st m))"
| "point_ok env st m (AtSwitchUpdate sw) = (switch_ok env st m sw \<and> shut (rc_barrier st m))"
| "point_ok env st m (AtSwitchShutdown sw t prev w) = switching_to env st m sw t"
| "point_ok env st m (AtSettlePreflight sw t prev w d) = switching_to env st m sw t"
| "point_ok env st m (AtSettleTimer sw t prev w d) = switching_to env st m sw t"
| "point_ok env st m (AtRollback sw t w e) = switching_to env st m sw t"
| "point_ok env st m (AtStartPreflight r i s) =
     (s = rc_applied st m \<and> request_of st m r \<and> asks st r i \<and> (owned_field env m \<or> i = model_of m s))"
| "point_ok env st m (AtEvictKill k) = shut (rc_barrier st m)"
| "point_ok env st m (AtSafeguardKill s) = shut (rc_barrier st m)"
| "point_ok env st m (AtEvictAllKill p) = draining_for p (rc_barrier st m)"
| "point_ok env st m (AtEvictAllDrain p) = draining_for p (rc_barrier st m)"
| "point_ok env st m _ = True"

text \<open>
  What holds of a modality whatever its work does: the supervisor in service was built for the applied
  snapshot's model, every lease not yet released is on it, and once the newest snapshot is applied
  there is a supervisor exactly when the modality is configured.
\<close>

definition open_lease :: "barrier \<Rightarrow> nat \<Rightarrow> bool" where
  "open_lease b i \<longleftrightarrow> i < b_next b \<and> \<not> l_released (b_lease b i)"

definition service_ok :: "reconciler_env \<Rightarrow> reconciler \<Rightarrow> runtime_modality \<Rightarrow> nat \<Rightarrow> bool" where
  "service_ok env st m s \<longleftrightarrow> s < rc_nextSupervisor st \<and> configured_in env m (rc_applied st m) \<and>
     (owned_field env m \<or> model_of m (sv_from (rc_supervisor st s)) = model_of m (rc_applied st m))"

definition leases_ok :: "reconciler \<Rightarrow> runtime_modality \<Rightarrow> bool" where
  "leases_ok st m \<longleftrightarrow> (\<forall>i < b_next (rc_barrier st m). pa_supervisor (rc_prepared st m i) < rc_nextSupervisor st \<and>
     (\<not> l_released (b_lease (rc_barrier st m) i) \<longrightarrow> service st m = Some (pa_supervisor (rc_prepared st m i))))"

definition modality_ok :: "reconciler_env \<Rightarrow> reconciler \<Rightarrow> runtime_modality \<Rightarrow> bool" where
  "modality_ok env st m \<longleftrightarrow> barrier_inv (rc_barrier st m) \<and> older (rc_applied st m) (rc_snapshot st) \<and>
     (\<forall>s. service st m = Some s \<longrightarrow> service_ok env st m s) \<and> leases_ok st m \<and>
     (rc_applied st m = rc_snapshot st \<longrightarrow> configured_in env m (rc_applied st m) \<longrightarrow> service st m \<noteq> None)"

definition work_ok :: "reconciler_env \<Rightarrow> reconciler \<Rightarrow> runtime_modality \<Rightarrow> bool" where
  "work_ok env st m \<longleftrightarrow> (\<forall>p. rc_running st m = Some p \<longrightarrow> point_ok env st m p)"

text \<open>Requests: tasks belong to their modality, and an answered request has what it asked for.\<close>

definition tasks_ok :: "reconciler \<Rightarrow> bool" where
  "tasks_ok st \<longleftrightarrow> (\<forall>m r. TAdmission r \<in> set (rc_waiting st m) \<longrightarrow> request_of st m r)"

definition answers_ok :: "reconciler_env \<Rightarrow> reconciler \<Rightarrow> bool" where
  "answers_ok env st \<longleftrightarrow> (\<forall>q \<in> set (rc_requests st). \<forall>modelId i. ar_result q = Some (Admitted modelId i) \<longrightarrow>
     i < b_next (rc_barrier st (ar_modality q)) \<and>
     (owned_field env (ar_modality q) \<or>
      model_of (ar_modality q) (sv_from (rc_supervisor st (pa_supervisor (rc_prepared st (ar_modality q) i)))) = modelId))"

definition names_ok :: "reconciler \<Rightarrow> bool" where
  "names_ok st \<longleftrightarrow> (\<forall>q \<in> set (rc_requests st). \<forall>modelId i. ar_result q = Some (Admitted modelId i) \<longrightarrow> ar_modelId q = Some modelId)"

definition gateway_ok :: "reconciler_env \<Rightarrow> reconciler \<Rightarrow> bool" where
  "gateway_ok env st \<longleftrightarrow> rc_configured st = configuredModalities (rc_snapshot st) (re_ownership env) \<and>
     older (rc_snapshot st) (rc_controller st) \<and> tasks_ok st \<and> answers_ok env st \<and> names_ok st"

text \<open>The invariant, and what remains of it while the work of \<open>m\<close> is between two points.\<close>

definition reconciler_inv :: "reconciler_env \<Rightarrow> reconciler \<Rightarrow> bool" where
  "reconciler_inv env st \<longleftrightarrow> gateway_ok env st \<and> (\<forall>m. modality_ok env st m \<and> work_ok env st m)"

definition between :: "reconciler_env \<Rightarrow> runtime_modality \<Rightarrow> reconciler \<Rightarrow> bool" where
  "between env m st \<longleftrightarrow> gateway_ok env st \<and> (\<forall>m'. modality_ok env st m' \<and> (m' \<noteq> m \<longrightarrow> work_ok env st m'))"

lemma inv_between: "reconciler_inv env st \<Longrightarrow> between env m st"
  by (simp add: reconciler_inv_def between_def)

lemma betweenI:
  assumes "gateway_ok env st" "modality_ok env st m" "\<And>m'. m' \<noteq> m \<Longrightarrow> modality_ok env st m' \<and> work_ok env st m'"
  shows "between env m st"
  unfolding between_def using assms by metis

lemmas reconciler_predicates = target_ok_def request_of_def switch_ok_def switching_to_def service_ok_def leases_ok_def
  modality_ok_def work_ok_def tasks_ok_def answers_ok_def gateway_ok_def configured_in_def model_of_def

text \<open>
  A modality whose own components are unchanged keeps its invariant when the rest of the state only
  grows: newer snapshots, more supervisors, more requests.
\<close>

definition grows :: "reconciler \<Rightarrow> reconciler \<Rightarrow> bool" where
  "grows st st' \<longleftrightarrow> older (rc_snapshot st) (rc_snapshot st') \<and> rc_nextSupervisor st \<le> rc_nextSupervisor st' \<and>
     (\<forall>s < rc_nextSupervisor st. sv_from (rc_supervisor st' s) = sv_from (rc_supervisor st s)) \<and>
     length (rc_requests st) \<le> length (rc_requests st') \<and>
     (\<forall>r < length (rc_requests st). ar_modality (rc_requests st' ! r) = ar_modality (rc_requests st ! r) \<and>
        ar_modelId (rc_requests st' ! r) = ar_modelId (rc_requests st ! r))"

definition same_modality :: "runtime_modality \<Rightarrow> reconciler \<Rightarrow> reconciler \<Rightarrow> bool" where
  "same_modality m st st' \<longleftrightarrow> rc_barrier st' m = rc_barrier st m \<and> service st' m = service st m \<and>
     rc_applied st' m = rc_applied st m \<and> (\<forall>i. pa_supervisor (rc_prepared st' m i) = pa_supervisor (rc_prepared st m i))"

lemma grows_refl [simp, intro]: "grows st st"
  by (simp add: grows_def)

lemma same_modality_refl [simp, intro]: "same_modality m st st"
  by (simp add: same_modality_def)

lemma grows_request: "grows st st' \<Longrightarrow> request_of st m r \<Longrightarrow> request_of st' m r"
  by (auto simp: grows_def request_of_def)

lemma grows_asks: "grows st st' \<Longrightarrow> asks st r i \<Longrightarrow> asks st' r i"
  by (auto simp: grows_def asks_def)

lemma modality_ok_frame:
  assumes "modality_ok env st m" "grows st st'" "same_modality m st st'"
  shows "modality_ok env st' m"
proof -
  have o: "older (rc_applied st m) (rc_snapshot st)" "older (rc_snapshot st) (rc_snapshot st')"
    using assms by (auto simp: modality_ok_def grows_def)
  then have e: "rc_applied st m = rc_snapshot st' \<Longrightarrow> rc_applied st m = rc_snapshot st"
    by (auto simp: older_def)
  have same: "rc_barrier st' m = rc_barrier st m" "service st' m = service st m" "rc_applied st' m = rc_applied st m"
    "pa_supervisor (rc_prepared st' m i) = pa_supervisor (rc_prepared st m i)" for i
    using assms(3) by (simp_all add: same_modality_def)
  have n: "s < rc_nextSupervisor st \<Longrightarrow> s < rc_nextSupervisor st' \<and> sv_from (rc_supervisor st' s) = sv_from (rc_supervisor st s)" for s
    using assms(2) by (simp add: grows_def)
  have "service_ok env st m s \<Longrightarrow> service_ok env st' m s" for s
    using n [of s] unfolding service_ok_def same by simp
  moreover have "leases_ok st m \<Longrightarrow> leases_ok st' m"
    using n unfolding leases_ok_def same by blast
  ultimately show ?thesis
    using assms(1) older_trans [OF o] e unfolding modality_ok_def same by blast
qed

lemma point_ok_frame:
  assumes "point_ok env st m p" "grows st st'" "same_modality m st st'"
  shows "point_ok env st' m p"
proof -
  have t: "older t (rc_snapshot st) \<Longrightarrow> older t (rc_snapshot st')" for t
    using assms(2) by (auto simp: grows_def intro: older_trans)
  show ?thesis
    using assms(1,3) grows_request [OF assms(2)] grows_asks [OF assms(2)]
    by (cases p) (auto simp: same_modality_def target_ok_def switch_ok_def switching_to_def t)
qed

lemma work_ok_frame:
  "work_ok env st m \<Longrightarrow> grows st st' \<Longrightarrow> same_modality m st st' \<Longrightarrow> rc_running st' m = rc_running st m \<Longrightarrow> work_ok env st' m"
  by (auto simp: work_ok_def intro: point_ok_frame)

section \<open>Steps the invariant does not see\<close>

text \<open>
  \<open>quiet\<close>: the change is to components the invariant does not read (draining and failure marks,
  pending references, claims, calls, recoveries and so on).
\<close>

definition quiet :: "reconciler \<Rightarrow> reconciler \<Rightarrow> bool" where
  "quiet st st' \<longleftrightarrow> rc_snapshot st' = rc_snapshot st \<and> rc_controller st' = rc_controller st \<and>
     rc_configured st' = rc_configured st \<and> rc_applied st' = rc_applied st \<and> rc_barrier st' = rc_barrier st \<and>
     rc_running st' = rc_running st \<and> rc_nextSupervisor st' = rc_nextSupervisor st \<and> service st' = service st \<and>
     (\<forall>s. sv_from (rc_supervisor st' s) = sv_from (rc_supervisor st s)) \<and>
     (\<forall>m i. pa_supervisor (rc_prepared st' m i) = pa_supervisor (rc_prepared st m i)) \<and>
     map (\<lambda>q. (ar_modality q, ar_modelId q, ar_result q)) (rc_requests st') = map (\<lambda>q. (ar_modality q, ar_modelId q, ar_result q)) (rc_requests st) \<and>
     (\<forall>m r. TAdmission r \<in> set (rc_waiting st' m) \<longleftrightarrow> TAdmission r \<in> set (rc_waiting st m))"

lemma service_registry: "service st = sr_services (rc_registry st)"
  by (rule ext) (simp add: service_def)

lemma quiet_refl [simp, intro]: "quiet st st"
  by (simp add: quiet_def)

lemma quiet_sym: "quiet st st' \<Longrightarrow> quiet st' st"
  by (auto simp: quiet_def)

lemma quiet_trans [trans]: "quiet st st' \<Longrightarrow> quiet st' st'' \<Longrightarrow> quiet st st''"
  by (simp add: quiet_def)

lemma quiet_modality:
  assumes "map (\<lambda>q. (ar_modality q, ar_modelId q, ar_result q)) xs = map (\<lambda>q. (ar_modality q, ar_modelId q, ar_result q)) ys"
  shows "length xs = length ys" "r < length ys \<Longrightarrow> ar_modality (xs ! r) = ar_modality (ys ! r)"
    "r < length ys \<Longrightarrow> ar_modelId (xs ! r) = ar_modelId (ys ! r)"
proof -
  show l: "length xs = length ys" by (rule map_eq_imp_length_eq [OF assms])
  assume "r < length ys"
  then show "ar_modality (xs ! r) = ar_modality (ys ! r)" "ar_modelId (xs ! r) = ar_modelId (ys ! r)"
    using arg_cong [OF assms, of "\<lambda>zs. zs ! r"] l by simp_all
qed

lemma quiet_grows:
  assumes "quiet st st'"
  shows "grows st st' \<and> same_modality m st st'"
proof -
  have "map (\<lambda>q. (ar_modality q, ar_modelId q, ar_result q)) (rc_requests st') = map (\<lambda>q. (ar_modality q, ar_modelId q, ar_result q)) (rc_requests st)"
    using assms by (simp add: quiet_def)
  note r = quiet_modality [OF this]
  show ?thesis using assms by (simp add: quiet_def grows_def same_modality_def r)
qed

lemma quiet_gateway:
  assumes "quiet st st'" "gateway_ok env st"
  shows "gateway_ok env st'"
proof -
  note q = assms(1) [unfolded quiet_def]
  have tasks: "tasks_ok st'"
    using assms q grows_request quiet_grows [OF assms(1)] unfolding tasks_ok_def gateway_ok_def by blast
  have "\<exists>q \<in> set (rc_requests st). ar_modality q = ar_modality q' \<and> ar_modelId q = ar_modelId q' \<and> ar_result q = ar_result q'" if "q' \<in> set (rc_requests st')" for q'
  proof -
    have "(ar_modality q', ar_modelId q', ar_result q') \<in> set (map (\<lambda>q. (ar_modality q, ar_modelId q, ar_result q)) (rc_requests st'))" using that by simp
    then have "(ar_modality q', ar_modelId q', ar_result q') \<in> set (map (\<lambda>q. (ar_modality q, ar_modelId q, ar_result q)) (rc_requests st))" using q by simp
    then show ?thesis by auto
  qed
  note e' = this
  then have "answers_ok env st'"
    unfolding answers_ok_def
  proof (intro ballI allI impI)
    fix q' i l
    assume e: "\<And>q'. q' \<in> set (rc_requests st') \<Longrightarrow> \<exists>q \<in> set (rc_requests st). ar_modality q = ar_modality q' \<and> ar_modelId q = ar_modelId q' \<and> ar_result q = ar_result q'"
      and q': "q' \<in> set (rc_requests st')" "ar_result q' = Some (Admitted i l)"
    obtain q0 where q0: "q0 \<in> set (rc_requests st)" "ar_modality q0 = ar_modality q'" "ar_result q0 = ar_result q'"
      using e [OF q'(1)] by blast
    have "answers_ok env st" using assms(2) by (simp add: gateway_ok_def)
    from this [unfolded answers_ok_def, rule_format, OF q0(1), of i l] show
      "l < b_next (rc_barrier st' (ar_modality q')) \<and>
       (owned_field env (ar_modality q') \<or>
        model_of (ar_modality q') (sv_from (rc_supervisor st' (pa_supervisor (rc_prepared st' (ar_modality q') l)))) = i)"
      using q q0 q' by simp
  qed
  moreover have "names_ok st'"
    unfolding names_ok_def
  proof (intro ballI allI impI)
    fix q' i l assume q': "q' \<in> set (rc_requests st')" "ar_result q' = Some (Admitted i l)"
    obtain q0 where "q0 \<in> set (rc_requests st)" "ar_modelId q0 = ar_modelId q'" "ar_result q0 = ar_result q'"
      using e' [OF q'(1)] by blast
    with q'(2) assms(2) show "ar_modelId q' = Some i" by (auto simp: gateway_ok_def names_ok_def)
  qed
  ultimately show ?thesis using tasks q assms(2) by (simp add: gateway_ok_def)
qed

lemma quiet_predicates:
  assumes "quiet st st'"
  shows "between env m st' = between env m st" "reconciler_inv env st' = reconciler_inv env st"
    "point_ok env st' m p = point_ok env st m p" "service st' = service st" "rc_barrier st' = rc_barrier st"
    "rc_applied st' = rc_applied st" "rc_snapshot st' = rc_snapshot st" "rc_running st' = rc_running st"
    "rc_controller st' = rc_controller st" "rc_configured st' = rc_configured st"
    "target_ok env st' m t a = target_ok env st m t a" "switch_ok env st' m sw = switch_ok env st m sw"
    "switching_to env st' m sw t = switching_to env st m sw t" "request_of st' m r = request_of st m r"
    "work_ok env st' m = work_ok env st m" "asks st' r i = asks st r i"
proof -
  note g = quiet_grows [OF assms] quiet_grows [OF quiet_sym [OF assms]]
  have mo: "modality_ok env st' m = modality_ok env st m" for m
    using g modality_ok_frame by blast
  have po: "point_ok env st' m p = point_ok env st m p" for m p
    using g point_ok_frame by blast
  have wo: "work_ok env st' m = work_ok env st m" for m
    using assms by (simp add: work_ok_def po quiet_def)
  have ga: "gateway_ok env st' = gateway_ok env st"
    using quiet_gateway assms quiet_sym by blast
  have as': "asks st' r i = asks st r i" for r i
    using g grows_asks by blast
  have rq: "request_of st' m r = request_of st m r" for m r
    using g grows_request by blast
  show "between env m st' = between env m st" "reconciler_inv env st' = reconciler_inv env st"
    by (simp_all add: between_def reconciler_inv_def mo wo ga)
  show "point_ok env st' m p = point_ok env st m p" "work_ok env st' m = work_ok env st m" "request_of st' m r = request_of st m r"
    "asks st' r i = asks st r i"
    by (fact po wo rq as')+
  show "service st' = service st" "rc_barrier st' = rc_barrier st"
    "rc_applied st' = rc_applied st" "rc_snapshot st' = rc_snapshot st" "rc_running st' = rc_running st"
    "rc_controller st' = rc_controller st" "rc_configured st' = rc_configured st"
    using assms by (simp_all add: quiet_def)
  then show "target_ok env st' m t a = target_ok env st m t a" "switch_ok env st' m sw = switch_ok env st m sw"
    "switching_to env st' m sw t = switching_to env st m sw t"
    by (simp_all add: target_ok_def switch_ok_def switching_to_def rq as')
qed

text \<open>The quiet operations.\<close>

lemma quiet_updates:
  "quiet st (set_pending m p st)" "quiet st (set_preflight m b st)" "quiet st (set_scheduled m b st)"
  "quiet st (set_claim m c st)" "quiet st (call_supervisor call st)"
  "quiet st (scheduleCancellationSafeguard m s k st)" "quiet st (eviction_time b st)" "quiet st (batch_result k n ok st)"
  "quiet st (upd_recovery v f st)" "quiet st (st\<lparr>rc_exclusive := x\<rparr>)" "quiet st (st\<lparr>rc_now := t\<rparr>)"
  "quiet st (st\<lparr>rc_reloads := l\<rparr>)" "quiet st (st\<lparr>rc_nextToken := n\<rparr>)" "quiet st (st\<lparr>rc_recoveries := rs\<rparr>)"
  "quiet st (st\<lparr>rc_batches := bs\<rparr>)" "quiet st (st\<lparr>rc_safeguards := g\<rparr>)"
  by (simp_all add: quiet_def service_registry set_pending_def set_preflight_def set_scheduled_def set_claim_def call_supervisor_def
      scheduleCancellationSafeguard_def eviction_time_def batch_result_def upd_recovery_def Let_def)

lemma quiet_marks:
  "quiet st (upd_registry (markDraining m) st)" "quiet st (upd_registry (markFailed m) st)"
  "quiet st (upd_registry (clearDraining m) st)" "quiet st (recordReconciliationFailure m st)"
  by (simp_all add: quiet_def service_registry upd_registry_def recordReconciliationFailure_def fun_eq_iff)

lemma quiet_upd_prepared: "(\<And>a. pa_supervisor (f a) = pa_supervisor a) \<Longrightarrow> quiet st (upd_prepared m i f st)"
  by (simp add: quiet_def upd_prepared_def service_registry)

lemma quiet_upd_supervisor: "(\<And>a. sv_from (f a) = sv_from a) \<Longrightarrow> quiet st (upd_supervisor s f st)"
  by (simp add: quiet_def upd_supervisor_def service_registry)

lemma quiet_upd_request:
  assumes "\<And>q. ar_modality (f q) = ar_modality q \<and> ar_modelId (f q) = ar_modelId q \<and> ar_result (f q) = ar_result q"
  shows "quiet st (upd_request r f st)"
proof -
  have "map (\<lambda>q. (ar_modality q, ar_modelId q, ar_result q)) (xs[r := f (xs ! r)]) = map (\<lambda>q. (ar_modality q, ar_modelId q, ar_result q)) xs" if "r < length xs" for xs
    using that assms by (simp add: map_update) (simp add: list_update_same_conv)
  then show ?thesis by (simp add: quiet_def upd_request_def service_registry)
qed

lemma quiet_cancel_requests:
  "quiet st (st\<lparr>rc_requests := map (\<lambda>q. if P q then q\<lparr>ar_cancelled := True\<rparr> else q) (rc_requests st)\<rparr>)"
  by (simp add: quiet_def service_registry)

lemma quiet_exclusive: "(\<And>r. t \<noteq> TAdmission r) \<Longrightarrow> quiet st (exclusiveModality m t st)"
  by (auto simp: quiet_def exclusiveModality_def service_registry)

lemma quiet_fold: "(\<And>x st. x \<in> set xs \<Longrightarrow> quiet st (f x st)) \<Longrightarrow> quiet st (fold f xs st)"
proof (induction xs arbitrary: st)
  case (Cons x xs)
  have "quiet st (f x st)" using Cons.prems by simp
  also have "quiet (f x st) (fold f xs (f x st))" using Cons by simp
  finally show ?case by simp
qed simp

lemma quiet_invoke: "quiet st (invoke m c st)"
proof -
  have "quiet st (stop_admission m i b st)" for i b
    unfolding stop_admission_def Let_def
    by (auto intro: quiet_trans [OF quiet_upd_prepared quiet_updates(5)])
  moreover have "quiet st (exclusiveModality m (TIdleCancellation i) (upd_prepared m i (\<lambda>a. a\<lparr>pa_stopRequested := True\<rparr>) st))" for i
    by (rule quiet_trans [OF quiet_upd_prepared quiet_exclusive]) simp_all
  then have "quiet st (idle_cancelled m i st)" for i
    by (simp add: idle_cancelled_def)
  ultimately show ?thesis by (simp add: invoke_def pending_detached_def)
qed

lemma quiet_schedule: "quiet st (scheduleModality m st)"
proof -
  have "quiet st (exclusiveModality m TReconcile (set_scheduled m True st))"
    by (rule quiet_trans [OF quiet_updates(3) quiet_exclusive]) simp
  then show ?thesis by (simp add: scheduleModality_def)
qed

lemma quiet_release_claims: "quiet st (release_claims v st)"
  unfolding release_claims_def Let_def
  by (rule quiet_trans [OF quiet_fold quiet_fold]) (simp_all add: quiet_updates quiet_exclusive)

lemma quiet_recovery_ends: "quiet st (recovery_ends v res st)"
  unfolding recovery_ends_def by (rule quiet_trans [OF quiet_updates(9) quiet_release_claims])

lemmas quiet_all = quiet_updates quiet_marks quiet_schedule quiet_release_claims quiet_recovery_ends quiet_invoke
lemmas quiet_simps [simp] = quiet_all [THEN quiet_predicates(1)] quiet_all [THEN quiet_predicates(2)]
  quiet_all [THEN quiet_predicates(3)] quiet_all [THEN quiet_predicates(4)] quiet_all [THEN quiet_predicates(5)]
  quiet_all [THEN quiet_predicates(6)] quiet_all [THEN quiet_predicates(7)] quiet_all [THEN quiet_predicates(8)]
  quiet_all [THEN quiet_predicates(9)] quiet_all [THEN quiet_predicates(10)] quiet_all [THEN quiet_predicates(11)]
  quiet_all [THEN quiet_predicates(12)] quiet_all [THEN quiet_predicates(13)] quiet_all [THEN quiet_predicates(14)]
  quiet_all [THEN quiet_predicates(16)]

section \<open>Suspending and ending work\<close>

lemma suspend_frame:
  "grows st (suspend m p st)" "grows (suspend m p st) st" "same_modality m' st (suspend m p st)" "same_modality m' (suspend m p st) st"
  "gateway_ok env (suspend m p st) = gateway_ok env st" "rc_running (suspend m p st) = (rc_running st)(m := Some p)"
  by (simp_all add: suspend_def grows_def same_modality_def service_def gateway_ok_def tasks_ok_def answers_ok_def names_ok_def request_of_def)

lemma end_work_frame:
  "grows st (end_work m st)" "grows (end_work m st) st" "same_modality m' st (end_work m st)" "same_modality m' (end_work m st) st"
  "gateway_ok env (end_work m st) = gateway_ok env st" "rc_running (end_work m st) = (rc_running st)(m := None)"
  by (simp_all add: end_work_def grows_def same_modality_def service_def gateway_ok_def tasks_ok_def answers_ok_def names_ok_def request_of_def)

lemma suspend_inv:
  assumes "between env m st" "point_ok env st m p"
  shows "reconciler_inv env (suspend m p st)"
proof -
  have "modality_ok env (suspend m p st) m'" for m'
    using assms(1) modality_ok_frame [OF _ suspend_frame(1) suspend_frame(3)] by (auto simp: between_def)
  moreover have "work_ok env (suspend m p st) m'" for m'
  proof (cases "m' = m")
    case True
    then show ?thesis
      using point_ok_frame [OF assms(2) suspend_frame(1) suspend_frame(3)] by (simp add: work_ok_def suspend_frame)
  next
    case False
    then show ?thesis
      using assms(1) work_ok_frame [OF _ suspend_frame(1) suspend_frame(3)] by (auto simp: between_def suspend_frame)
  qed
  ultimately show ?thesis using assms(1) by (simp add: reconciler_inv_def between_def suspend_frame)
qed

lemma end_work_inv:
  assumes "between env m st"
  shows "reconciler_inv env (end_work m st)"
proof -
  have "modality_ok env (end_work m st) m'" for m'
    using assms(1) modality_ok_frame [OF _ end_work_frame(1) end_work_frame(3)] by (auto simp: between_def)
  moreover have "work_ok env (end_work m st) m'" for m'
    using assms(1) work_ok_frame [OF _ end_work_frame(1) end_work_frame(3)]
    by (cases "m' = m") (auto simp: between_def end_work_frame work_ok_def)
  ultimately show ?thesis using assms(1) by (simp add: reconciler_inv_def between_def end_work_frame)
qed

lemma end_nested_inv:
  assumes "reconciler_inv env st"
  shows "reconciler_inv env (end_nested v st)"
proof -
  have g: "grows st (end_nested v st)" "same_modality m st (end_nested v st)" for m
    by (simp_all add: end_nested_def grows_def same_modality_def service_def)
  have "modality_ok env (end_nested v st) m" for m
    using assms modality_ok_frame [OF _ g] by (auto simp: reconciler_inv_def)
  moreover have "work_ok env (end_nested v st) m" for m
    using assms point_ok_frame [OF _ g] by (auto simp: reconciler_inv_def work_ok_def end_nested_def split: if_splits)
  moreover have "gateway_ok env (end_nested v st) = gateway_ok env st"
    by (simp add: end_nested_def gateway_ok_def tasks_ok_def answers_ok_def names_ok_def request_of_def)
  ultimately show ?thesis using assms by (simp add: reconciler_inv_def)
qed

text \<open>Answering a request.\<close>

definition answer_ok :: "reconciler_env \<Rightarrow> reconciler \<Rightarrow> runtime_modality \<Rightarrow> nat \<Rightarrow> admission_result \<Rightarrow> bool" where
  "answer_ok env st m r res \<longleftrightarrow> (\<forall>modelId i. res = Admitted modelId i \<longrightarrow> asks st r modelId \<and> i < b_next (rc_barrier st m) \<and>
     (owned_field env m \<or> model_of m (sv_from (rc_supervisor st (pa_supervisor (rc_prepared st m i)))) = modelId))"

lemma answer_ok_simps [simp]:
  "answer_ok env st m r (Threw e)" "answer_ok env st m r NotConfigured" "answer_ok env st m r ModelNotFound"
  "answer_ok env st m r UnavailableResult" "answer_ok env st m r (InsufficientMemory x)" "answer_ok env st m r (AdmittedConfigured j)"
  by (simp_all add: answer_ok_def)

definition answer :: "nat \<Rightarrow> admission_result \<Rightarrow> reconciler \<Rightarrow> reconciler" where
  "answer r res st = upd_request r (\<lambda>q. q\<lparr>ar_result := Some res\<rparr>) st"

lemma answer_modality:
  "map (\<lambda>q. (ar_modality q, ar_modelId q)) (rc_requests (answer r res st)) = map (\<lambda>q. (ar_modality q, ar_modelId q)) (rc_requests st)"
  by (simp add: answer_def upd_request_def map_update) (simp add: list_update_same_conv)

lemma answer_frame:
  "grows st (answer r res st)" "same_modality m' st (answer r res st)" "request_of (answer r res st) m' r' = request_of st m' r'"
  "rc_running (answer r res st) = rc_running st"
proof -
  have l: "length (rc_requests (answer r res st)) = length (rc_requests st)"
    using arg_cong [OF answer_modality, of length] by simp
  have n: "j < length (rc_requests st) \<Longrightarrow> ar_modality (rc_requests (answer r res st) ! j) = ar_modality (rc_requests st ! j) \<and>
      ar_modelId (rc_requests (answer r res st) ! j) = ar_modelId (rc_requests st ! j)" for j
    using arg_cong [OF answer_modality [of r res st], of "\<lambda>xs. xs ! j"] l by simp
  show "request_of (answer r res st) m' r' = request_of st m' r'" using l n by (auto simp: request_of_def)
  show "grows st (answer r res st)" using l n by (simp add: grows_def answer_def upd_request_def)
  show "same_modality m' st (answer r res st)" "rc_running (answer r res st) = rc_running st"
    by (simp_all add: same_modality_def answer_def upd_request_def service_def)
qed

lemma answer_gateway:
  assumes "gateway_ok env st" "request_of st m r" "answer_ok env st m r res"
  shows "gateway_ok env (answer r res st)"
proof -
  have "tasks_ok (answer r res st)"
    using assms(1) unfolding gateway_ok_def tasks_ok_def answer_frame(3) by (simp add: answer_def upd_request_def)
  moreover have "answers_ok env (answer r res st)"
    unfolding answers_ok_def
  proof (intro ballI allI impI)
    fix q modelId i
    assume q: "q \<in> set (rc_requests (answer r res st))" "ar_result q = Some (Admitted modelId i)"
    let ?P = "\<lambda>m. i < b_next (rc_barrier st m) \<and>
        (owned_field env m \<or> model_of m (sv_from (rc_supervisor st (pa_supervisor (rc_prepared st m i)))) = modelId)"
    have "?P (ar_modality q)"
    proof (cases "q \<in> set (rc_requests st)")
      case True
      then show ?thesis using assms(1) q(2) unfolding gateway_ok_def answers_ok_def by blast
    next
      case False
      then have "q = (rc_requests st ! r)\<lparr>ar_result := Some res\<rparr>"
        using q(1) set_update_subset_insert [of "rc_requests st" r "(rc_requests st ! r)\<lparr>ar_result := Some res\<rparr>"]
        by (auto simp: answer_def upd_request_def split: if_splits)
      then show ?thesis using assms(2,3) q(2) by (simp add: request_of_def answer_ok_def)
    qed
    then show "i < b_next (rc_barrier (answer r res st) (ar_modality q)) \<and>
        (owned_field env (ar_modality q) \<or> model_of (ar_modality q) (sv_from (rc_supervisor (answer r res st)
           (pa_supervisor (rc_prepared (answer r res st) (ar_modality q) i)))) = modelId)"
      by (simp add: answer_def upd_request_def)
  qed
  moreover have "names_ok (answer r res st)"
    unfolding names_ok_def
  proof (intro ballI allI impI)
    fix q modelId i
    assume q: "q \<in> set (rc_requests (answer r res st))" "ar_result q = Some (Admitted modelId i)"
    show "ar_modelId q = Some modelId"
    proof (cases "q \<in> set (rc_requests st)")
      case True
      then show ?thesis using assms(1) q(2) by (auto simp: gateway_ok_def names_ok_def)
    next
      case False
      then have "q = (rc_requests st ! r)\<lparr>ar_result := Some res\<rparr>"
        using q(1) set_update_subset_insert [of "rc_requests st" r "(rc_requests st ! r)\<lparr>ar_result := Some res\<rparr>"]
        by (auto simp: answer_def upd_request_def split: if_splits)
      then show ?thesis using assms(3) q(2) by (simp add: answer_ok_def asks_def)
    qed
  qed
  ultimately show ?thesis using assms(1) by (simp add: gateway_ok_def answer_def upd_request_def)
qed

lemma answer_between:
  assumes "between env m st" "request_of st m r" "answer_ok env st m r res"
  shows "between env m (answer r res st)"
  using assms answer_gateway [OF _ assms(2,3)] modality_ok_frame [OF _ answer_frame(1,2)] work_ok_frame [OF _ answer_frame(1,2)]
  by (auto simp: between_def answer_frame(4))

lemma settle_request_inv:
  assumes "between env m st" "request_of st m r" "answer_ok env st m r res"
  shows "reconciler_inv env (settle_request m r res st)"
  using end_work_inv [OF answer_between [OF assms]] by (simp add: settle_request_def answer_def)

lemma switch_ends_inv:
  assumes "between env m st" "request_of st m (sw_request sw)" "answer_ok env st m (sw_request sw) res"
  shows "reconciler_inv env (switch_ends m sw res st)"
proof -
  have "answer_ok env (set_pending m None st) m (sw_request sw) res" using assms(3) by (simp add: answer_ok_def set_pending_def asks_def)
  then show ?thesis unfolding switch_ends_def using assms by (intro settle_request_inv) simp_all
qed

section \<open>Barriers\<close>

lemma barrier_apply_monotone:
  assumes "ev \<noteq> BAcquire"
  shows "b_next (barrier_apply ev b) = b_next b"
    "l_released (b_lease b i) \<Longrightarrow> l_released (b_lease (barrier_apply ev b) i)"
  using assms
  by (cases ev; auto simp: attach_def detach_def detachIfIdle_def on_pending_detach_def
      on_idle_cancellation_def mark_response_started_def close_lease_eqs close_lease_def release_active_def
      upd_lease_def drainLeases_def detachPending_def Let_def split: option.split)+

lemma shut_no_lease: "barrier_inv b \<Longrightarrow> shut b \<Longrightarrow> \<not> open_lease b i"
  using barrier_active_zero [of b] by (auto simp: shut_def open_lease_def open_leases_def)

lemma shutI: "barrier_inv b \<Longrightarrow> \<not> b_accepting b \<Longrightarrow> (\<And>i. \<not> open_lease b i) \<Longrightarrow> shut b"
  using barrier_active_zero [of b] by (auto simp: shut_def open_lease_def open_leases_def)

lemma shut_step:
  assumes "barrier_inv b" "shut b" "ev \<noteq> BAttach" "ev \<noteq> BAcquire"
  shows "shut (barrier_apply ev b)"
proof (rule shutI)
  show "barrier_inv (barrier_apply ev b)" using assms(1) by (rule barrier_apply_inv)
  show "\<not> b_accepting (barrier_apply ev b)" using detached_step assms by (auto simp: shut_def)
  show "\<not> open_lease (barrier_apply ev b) i" for i
    using shut_no_lease [OF assms(1,2), of i] barrier_apply_monotone [OF assms(4)] by (auto simp: open_lease_def)
qed

lemma draining_step: "draining_for p b \<Longrightarrow> ev \<noteq> BAttach \<Longrightarrow> draining_for p (barrier_apply ev b)"
  using detached_step [of b ev] by (auto simp: draining_for_def)

lemma drained_shut: "barrier_inv b \<Longrightarrow> draining_for p b \<Longrightarrow> p \<in> set (b_resolved b) \<Longrightarrow> shut b"
  using idle_resolved_iff [of b] by (auto intro!: shutI simp: draining_for_def open_lease_def)

lemma draining_drain: "draining_for (fst (drain b)) (snd (drain b))" "draining_for (fst (drainWithoutCancellation b)) (snd (drainWithoutCancellation b))"
  by (simp_all add: draining_for_def drain_def drainWithoutCancellation_def drainLeases_parts)

text \<open>An operation on the barrier of \<open>m\<close> that admits nothing and opens nothing.\<close>

lemma upd_barrier_frame:
  "grows st (upd_barrier m f st)" "m' \<noteq> m \<Longrightarrow> same_modality m' st (upd_barrier m f st)"
  "rc_running (upd_barrier m f st) = rc_running st" "rc_barrier (upd_barrier m f st) m = f (rc_barrier st m)"
  "service (upd_barrier m f st) = service st" "rc_applied (upd_barrier m f st) = rc_applied st"
  "rc_snapshot (upd_barrier m f st) = rc_snapshot st" "rc_configured (upd_barrier m f st) = rc_configured st"
  "rc_prepared (upd_barrier m f st) = rc_prepared st" "rc_nextSupervisor (upd_barrier m f st) = rc_nextSupervisor st"
  "rc_supervisor (upd_barrier m f st) = rc_supervisor st" "rc_requests (upd_barrier m f st) = rc_requests st"
  "rc_controller (upd_barrier m f st) = rc_controller st" "rc_waiting (upd_barrier m f st) = rc_waiting st"
  by (simp_all add: upd_barrier_def grows_def same_modality_def service_registry)

lemma upd_barrier_gateway:
  assumes "gateway_ok env st" "b_next (rc_barrier st m) \<le> b_next (f (rc_barrier st m))"
  shows "gateway_ok env (upd_barrier m f st)"
proof -
  have n: "b_next (rc_barrier st m') \<le> b_next (rc_barrier (upd_barrier m f st) m')" for m'
    using assms(2) by (simp add: upd_barrier_def)
  have "answers_ok env (upd_barrier m f st)"
    unfolding answers_ok_def upd_barrier_frame
  proof (intro ballI allI impI)
    fix q i l
    assume "q \<in> set (rc_requests st)" "ar_result q = Some (Admitted i l)"
    then have "l < b_next (rc_barrier st (ar_modality q)) \<and> (owned_field env (ar_modality q) \<or>
      model_of (ar_modality q) (sv_from (rc_supervisor st (pa_supervisor (rc_prepared st (ar_modality q) l)))) = i)"
      using assms(1) unfolding gateway_ok_def answers_ok_def by blast
    then show "l < b_next (rc_barrier (upd_barrier m f st) (ar_modality q)) \<and> (owned_field env (ar_modality q) \<or>
      model_of (ar_modality q) (sv_from (rc_supervisor st (pa_supervisor (rc_prepared st (ar_modality q) l)))) = i)"
      using n [of "ar_modality q"] by auto
  qed
  then show ?thesis using assms(1) by (simp add: gateway_ok_def tasks_ok_def names_ok_def request_of_def upd_barrier_frame)
qed

lemma upd_barrier_modality:
  assumes "modality_ok env st m" "barrier_inv (f (rc_barrier st m))" "b_next (f (rc_barrier st m)) = b_next (rc_barrier st m)"
    and "\<And>i. l_released (b_lease (rc_barrier st m) i) \<Longrightarrow> l_released (b_lease (f (rc_barrier st m)) i)"
  shows "modality_ok env (upd_barrier m f st) m"
proof -
  have l: "leases_ok st m" using assms(1) by (simp add: modality_ok_def)
  have "leases_ok (upd_barrier m f st) m"
    unfolding leases_ok_def upd_barrier_frame assms(3)
  proof (intro allI impI conjI)
    fix i assume i: "i < b_next (rc_barrier st m)"
    then show "pa_supervisor (rc_prepared st m i) < rc_nextSupervisor st" using l by (simp add: leases_ok_def)
    assume "\<not> l_released (b_lease (f (rc_barrier st m)) i)"
    with assms(4) have "\<not> l_released (b_lease (rc_barrier st m) i)" by blast
    then show "service st m = Some (pa_supervisor (rc_prepared st m i))" using l i by (simp add: leases_ok_def)
  qed
  then show ?thesis
    using assms(1,2) unfolding modality_ok_def service_ok_def upd_barrier_frame by simp
qed

lemma upd_barrier_between:
  assumes "between env m st" "ev \<noteq> BAcquire"
  shows "between env m (upd_barrier m (barrier_apply ev) st)"
proof -
  have "barrier_inv (rc_barrier st m)" using assms(1) by (simp add: between_def modality_ok_def)
  then have m: "modality_ok env (upd_barrier m (barrier_apply ev) st) m"
    using assms by (intro upd_barrier_modality) (auto simp: between_def barrier_apply_inv barrier_apply_monotone)
  have "modality_ok env (upd_barrier m (barrier_apply ev) st) m' \<and> work_ok env (upd_barrier m (barrier_apply ev) st) m'" if "m' \<noteq> m" for m'
    using assms(1) that upd_barrier_frame(1) upd_barrier_frame(2) [OF that]
    by (auto simp: between_def upd_barrier_frame(3) intro: modality_ok_frame work_ok_frame)
  moreover have "gateway_ok env (upd_barrier m (barrier_apply ev) st)"
    using assms upd_barrier_gateway barrier_apply_monotone by (simp add: between_def)
  ultimately show ?thesis using m by (intro betweenI)
qed

lemma upd_barrier_point:
  assumes "point_ok env st m p" "barrier_inv (rc_barrier st m)" "ev \<noteq> BAcquire" "ev \<noteq> BAttach"
  shows "point_ok env (upd_barrier m (barrier_apply ev) st) m p"
  using assms shut_step [OF assms(2)] draining_step
  by (cases p) (auto simp: target_ok_def switch_ok_def switching_to_def request_of_def asks_def upd_barrier_frame)

lemma upd_barrier_inv:
  assumes "reconciler_inv env st" "ev \<noteq> BAcquire" "ev \<noteq> BAttach"
  shows "reconciler_inv env (upd_barrier m (barrier_apply ev) st)"
proof -
  have b: "between env m (upd_barrier m (barrier_apply ev) st)"
    using upd_barrier_between [OF inv_between [OF assms(1)] assms(2)] .
  have "work_ok env (upd_barrier m (barrier_apply ev) st) m"
    using assms upd_barrier_point by (auto simp: reconciler_inv_def work_ok_def modality_ok_def upd_barrier_frame(3))
  with b show ?thesis by (auto simp: reconciler_inv_def between_def)
qed

lemma barrier_op_quiet: "quiet (upd_barrier m f st) (barrier_op m f st)"
  unfolding barrier_op_def Let_def by (rule quiet_fold) (rule quiet_invoke)

lemmas barrier_op_simps [simp] = quiet_predicates [OF barrier_op_quiet]

lemma barrier_op_inv:
  "reconciler_inv env st \<Longrightarrow> ev \<noteq> BAcquire \<Longrightarrow> ev \<noteq> BAttach \<Longrightarrow> reconciler_inv env (barrier_op m (barrier_apply ev) st)"
  by (simp add: upd_barrier_inv)

lemma barrier_op_cong: "f (rc_barrier st m) = g (rc_barrier st m) \<Longrightarrow> barrier_op m f st = barrier_op m g st"
  by (simp add: barrier_op_def upd_barrier_def)

lemma drains_apply:
  "(\<lambda>b. snd (drain b)) = barrier_apply (BDrain True)" "(\<lambda>b. snd (drainWithoutCancellation b)) = barrier_apply (BDrain False)"
  "(\<lambda>b. snd (detachIfIdle b)) = barrier_apply BDetachIfIdle" "attach = barrier_apply BAttach"
  by (simp_all add: fun_eq_iff drain_def drainWithoutCancellation_def)

text \<open>Reopening a modality's barrier.\<close>

lemma attachBarrier_between: "between env m st \<Longrightarrow> between env m (attachBarrier m st)"
  by (simp add: attachBarrier_def Let_def drains_apply upd_barrier_between)

lemma attachBarrier_simps [simp]:
  "service (attachBarrier m st) = service st" "rc_applied (attachBarrier m st) = rc_applied st"
  "rc_snapshot (attachBarrier m st) = rc_snapshot st" "rc_requests (attachBarrier m st) = rc_requests st"
  "rc_prepared (attachBarrier m st) = rc_prepared st" "rc_supervisor (attachBarrier m st) = rc_supervisor st"
  "rc_configured (attachBarrier m st) = rc_configured st" "rc_controller (attachBarrier m st) = rc_controller st"
  "rc_running (attachBarrier m st) = rc_running st" "rc_nextSupervisor (attachBarrier m st) = rc_nextSupervisor st"
  by (simp_all add: attachBarrier_def Let_def upd_barrier_def service_registry set_claim_def)

lemma attachBarrier_asks [simp]: "asks (attachBarrier m st) r i = asks st r i"
  by (simp add: asks_def)

lemma attachBarrier_request [simp]: "request_of (attachBarrier m st) m' r = request_of st m' r" "request (attachBarrier m st) r = request st r"
  by (simp_all add: request_of_def request_def)

lemma reopen_between: "between env m st \<Longrightarrow> between env m (reopen m st)"
  by (simp add: reopen_def attachBarrier_between)

lemma reopen_request [simp]: "request_of (reopen m st) m' r = request_of st m' r"
  by (simp add: reopen_def)

section \<open>Supervisors and snapshots\<close>

lemma gateway_frame:
  assumes "gateway_ok env st" "\<And>m. leases_ok st m" "grows st st'"
    and "rc_requests st' = rc_requests st" "rc_waiting st' = rc_waiting st" "rc_barrier st' = rc_barrier st"
    and "rc_prepared st' = rc_prepared st"
    and "rc_configured st' = configuredModalities (rc_snapshot st') (re_ownership env)" "older (rc_snapshot st') (rc_controller st')"
  shows "gateway_ok env st'"
proof -
  have "answers_ok env st'"
    unfolding answers_ok_def assms(4,6,7)
  proof (intro ballI allI impI)
    fix q i l
    assume q: "q \<in> set (rc_requests st)" "ar_result q = Some (Admitted i l)"
    then have a: "l < b_next (rc_barrier st (ar_modality q)) \<and> (owned_field env (ar_modality q) \<or>
      model_of (ar_modality q) (sv_from (rc_supervisor st (pa_supervisor (rc_prepared st (ar_modality q) l)))) = i)"
      using assms(1) unfolding gateway_ok_def answers_ok_def by blast
    then have "pa_supervisor (rc_prepared st (ar_modality q) l) < rc_nextSupervisor st"
      using assms(2) [of "ar_modality q"] by (simp add: leases_ok_def)
    with a show "l < b_next (rc_barrier st (ar_modality q)) \<and> (owned_field env (ar_modality q) \<or>
      model_of (ar_modality q) (sv_from (rc_supervisor st' (pa_supervisor (rc_prepared st (ar_modality q) l)))) = i)"
      using assms(3) by (simp add: grows_def)
  qed
  then show ?thesis
    using assms by (simp add: gateway_ok_def tasks_ok_def names_ok_def request_of_def)
qed

lemma between_leases: "between env m st \<Longrightarrow> leases_ok st m'"
  by (simp add: between_def modality_ok_def)

text \<open>The supervisor of a modality whose barrier is shut is taken out of service.\<close>

lemma take_between:
  assumes "between env m st" "shut (rc_barrier st m)" "rc_applied st m \<noteq> rc_snapshot st"
    and "take_service m (rc_registry st) = (previous, r)"
  shows "between env m (st\<lparr>rc_registry := r\<rparr>)" "service (st\<lparr>rc_registry := r\<rparr>) = (service st)(m := None)"
proof -
  let ?st = "st\<lparr>rc_registry := r\<rparr>"
  show s: "service ?st = (service st)(m := None)"
    using take_service_parts(2) [of m "rc_registry st"] assms(4) by (simp add: service_registry)
  have g: "grows st ?st" by (simp add: grows_def)
  have same: "same_modality m' st ?st" if "m' \<noteq> m" for m' using that by (simp add: same_modality_def s)
  have ok: "modality_ok env st m" using assms(1) by (simp add: between_def)
  then have b: "barrier_inv (rc_barrier st m)" by (simp add: modality_ok_def)
  have "leases_ok ?st m"
    using ok shut_no_lease [OF b assms(2)] by (auto simp: leases_ok_def modality_ok_def open_lease_def)
  then have "modality_ok env ?st m" using ok assms(3) by (simp add: modality_ok_def s)
  moreover have "gateway_ok env ?st"
    using assms(1) by (intro gateway_frame [OF _ between_leases [OF assms(1)] g]) (simp_all add: between_def gateway_ok_def)
  ultimately show "between env m ?st"
    using assms(1) modality_ok_frame [OF _ g same] work_ok_frame [OF _ g same] by (intro betweenI) (auto simp: between_def)
qed

text \<open>A created supervisor enters service and its snapshot becomes the applied one.\<close>

lemma add_created_parts:
  assumes "add_created env m t st = Some st1"
  shows "service st m = None" "service st1 = (service st)(m := Some (rc_nextSupervisor st))"
    "rc_nextSupervisor st1 = Suc (rc_nextSupervisor st)" "sv_from (rc_supervisor st1 (rc_nextSupervisor st)) = t"
    "grows st st1" "rc_snapshot st1 = rc_snapshot st" "rc_controller st1 = rc_controller st" "rc_configured st1 = rc_configured st"
    "rc_applied st1 = rc_applied st" "rc_barrier st1 = rc_barrier st" "rc_prepared st1 = rc_prepared st" "rc_running st1 = rc_running st"
    "rc_requests st1 = rc_requests st" "rc_waiting st1 = rc_waiting st"
    "s \<noteq> rc_nextSupervisor st \<Longrightarrow> rc_supervisor st1 s = rc_supervisor st s"
  using assms
  by (auto simp: add_created_def Let_def add_service_Some service_registry grows_def split: option.splits)

lemma installed_between:
  assumes "between env m st" "add_created env m t st = Some st1" "older t (rc_snapshot st)" "configured_in env m t"
  shows "between env m (set_applied m t st1)"
proof -
  let ?st = "set_applied m t st1"
  note p = add_created_parts [OF assms(2)]
  have f: "service ?st = (service st)(m := Some (rc_nextSupervisor st))" "rc_applied ?st = (rc_applied st)(m := t)"
    "rc_barrier ?st = rc_barrier st" "rc_prepared ?st = rc_prepared st" "rc_snapshot ?st = rc_snapshot st"
    "rc_nextSupervisor ?st = Suc (rc_nextSupervisor st)" "rc_supervisor ?st = rc_supervisor st1" "rc_running ?st = rc_running st"
    using p by (simp_all add: set_applied_def service_registry)
  have g: "grows st ?st" using p(5) by (simp add: grows_def set_applied_def)
  have same: "same_modality m' st ?st" if "m' \<noteq> m" for m' using that by (simp add: same_modality_def f)
  have ok: "modality_ok env st m" using assms(1) by (simp add: between_def)
  have "leases_ok ?st m"
    using ok p(1) by (auto simp: leases_ok_def modality_ok_def f less_Suc_eq)
  moreover have "service_ok env ?st m (rc_nextSupervisor st)"
    using assms(4) by (simp add: service_ok_def f p)
  ultimately have "modality_ok env ?st m"
    using ok assms(3) unfolding modality_ok_def f by simp
  moreover have "gateway_ok env ?st"
    using assms(1) p by (intro gateway_frame [OF _ between_leases [OF assms(1)] g])
      (simp_all add: between_def gateway_ok_def set_applied_def)
  ultimately show ?thesis
    using assms(1) modality_ok_frame [OF _ g same] work_ok_frame [OF _ g same] by (intro betweenI) (auto simp: between_def f)
qed

lemma set_applied_between:
  assumes "between env m st" "older t (rc_snapshot st)"
    and "\<And>s. service st m = Some s \<Longrightarrow> configured_in env m t \<and> (owned_field env m \<or> model_of m t = model_of m (rc_applied st m))"
    and "service st m = None \<Longrightarrow> \<not> configured_in env m t"
  shows "between env m (set_applied m t st)"
proof -
  let ?st = "set_applied m t st"
  have f: "service ?st = service st" "rc_applied ?st = (rc_applied st)(m := t)"
    "rc_barrier ?st = rc_barrier st" "rc_prepared ?st = rc_prepared st" "rc_snapshot ?st = rc_snapshot st"
    "rc_nextSupervisor ?st = rc_nextSupervisor st" "rc_supervisor ?st = rc_supervisor st" "rc_running ?st = rc_running st"
    by (simp_all add: set_applied_def service_registry)
  have g: "grows st ?st" by (simp add: grows_def set_applied_def)
  have same: "same_modality m' st ?st" if "m' \<noteq> m" for m' using that by (simp add: same_modality_def f)
  have ok: "modality_ok env st m" using assms(1) by (simp add: between_def)
  have "service_ok env ?st m s" if "service st m = Some s" for s
    using ok assms(3) [OF that] that by (auto simp: modality_ok_def service_ok_def f)
  moreover have "leases_ok ?st m" using ok by (simp add: modality_ok_def leases_ok_def f)
  moreover have "t = rc_snapshot st \<Longrightarrow> configured_in env m t \<Longrightarrow> service st m \<noteq> None" using assms(4) by blast
  ultimately have "modality_ok env ?st m"
    using ok assms(2) unfolding modality_ok_def f fun_upd_same by blast
  moreover have "gateway_ok env ?st"
    using assms(1) by (intro gateway_frame [OF _ between_leases [OF assms(1)] g])
      (simp_all add: between_def gateway_ok_def set_applied_def)
  ultimately show ?thesis
    using assms(1) modality_ok_frame [OF _ g same] work_ok_frame [OF _ g same] by (intro betweenI) (auto simp: between_def f)
qed

text \<open>The controller replaces its configuration, and the reconciler adopts it.\<close>

lemma controller_frame:
  assumes "controller_replace env c (rc_controller st) = Some t"
  shows "between env m st \<Longrightarrow> between env m (st\<lparr>rc_controller := t\<rparr>)"
    "reconciler_inv env st \<Longrightarrow> reconciler_inv env (st\<lparr>rc_controller := t\<rparr>)"
proof -
  let ?st = "st\<lparr>rc_controller := t\<rparr>"
  have g: "grows st ?st" "same_modality m' st ?st" for m' by (simp_all add: grows_def same_modality_def service_registry)
  have ga: "gateway_ok env st \<Longrightarrow> (\<And>m. leases_ok st m) \<Longrightarrow> gateway_ok env ?st"
    using older_trans [OF _ replace_older [OF assms]] by (intro gateway_frame [OF _ _ g(1)]) (simp_all add: gateway_ok_def)
  show "between env m st \<Longrightarrow> between env m ?st"
    using ga modality_ok_frame [OF _ g] work_ok_frame [OF _ g] between_leases [of env m st] by (simp add: between_def)
  show "reconciler_inv env st \<Longrightarrow> reconciler_inv env ?st"
    using ga modality_ok_frame [OF _ g] work_ok_frame [OF _ g] between_leases [OF inv_between] by (simp add: reconciler_inv_def)
qed

lemma set_snapshot_frame:
  assumes "older (rc_snapshot st) (rc_controller st)"
  shows "between env m st \<Longrightarrow> between env m (set_snapshot env (rc_controller st) st)"
    "reconciler_inv env st \<Longrightarrow> reconciler_inv env (set_snapshot env (rc_controller st) st)"
proof -
  let ?st = "set_snapshot env (rc_controller st) st"
  have g: "grows st ?st" "same_modality m' st ?st" for m'
    using assms by (simp_all add: grows_def same_modality_def service_registry set_snapshot_def)
  have ga: "gateway_ok env st \<Longrightarrow> (\<And>m. leases_ok st m) \<Longrightarrow> gateway_ok env ?st"
    by (rule gateway_frame [OF _ _ g(1)]) (simp_all add: gateway_ok_def set_snapshot_def)
  have r: "rc_running ?st = rc_running st" by (simp add: set_snapshot_def)
  show "between env m st \<Longrightarrow> between env m ?st"
    using ga modality_ok_frame [OF _ g] work_ok_frame [OF _ g r [THEN fun_cong]] between_leases [of env m st] by (simp add: between_def)
  show "reconciler_inv env st \<Longrightarrow> reconciler_inv env ?st"
    using ga modality_ok_frame [OF _ g] work_ok_frame [OF _ g r [THEN fun_cong]] between_leases [OF inv_between]
    by (simp add: reconciler_inv_def)
qed

lemma between_snapshot: "between env m st \<Longrightarrow> older (rc_snapshot st) (rc_controller st)"
  by (simp add: between_def gateway_ok_def)

section \<open>Granting an admission\<close>

lemma acquire_lease_parts:
  assumes "acquire_lease b = (Some i, b')"
  shows "b' = barrier_apply BAcquire b" "i = b_next b" "b_next b' = Suc (b_next b)"
    "j < b_next b \<Longrightarrow> l_released (b_lease b' j) = l_released (b_lease b j)"
  using assms by (auto simp: acquire_lease_def Let_def split: if_splits)

lemma acquired_between:
  assumes b: "between env m st" and a: "acquire_admission env m snap st = (Some i, st1)"
  shows "between env m st1" "i < b_next (rc_barrier st1 m)" "rc_requests st1 = rc_requests st"
    "\<exists>s. service st1 m = Some s \<and> pa_supervisor (rc_prepared st1 m i) = s \<and> service_ok env st1 m s"
    "rc_applied st1 = rc_applied st" "pa_snapshot (rc_prepared st1 m i) = snap"
proof -
  obtain s where s: "service st m = Some s"
    using a by (auto simp: acquire_admission_def split: if_splits option.splits)
  obtain b' where b': "acquire_lease (rc_barrier st m) = (Some i, b')"
    using a s by (auto simp: acquire_admission_def split: if_splits prod.splits option.splits)
  note p = acquire_lease_parts [OF b']
  have st1: "st1 = upd_prepared m i (\<lambda>_. \<lparr>pa_snapshot = snap, pa_supervisor = s, pa_startupPending = True,
      pa_stopRequested = False, pa_settled = False\<rparr>) (upd_barrier m (\<lambda>_. b') st)"
    using a s b' by (auto simp: acquire_admission_def split: if_splits)
  have f: "service st1 = service st" "rc_applied st1 = rc_applied st" "rc_snapshot st1 = rc_snapshot st"
    "rc_barrier st1 = (rc_barrier st)(m := b')" "rc_nextSupervisor st1 = rc_nextSupervisor st" "rc_supervisor st1 = rc_supervisor st"
    "rc_prepared st1 m i = \<lparr>pa_snapshot = snap, pa_supervisor = s, pa_startupPending = True, pa_stopRequested = False, pa_settled = False\<rparr>"
    "j \<noteq> i \<Longrightarrow> rc_prepared st1 m j = rc_prepared st m j" "m' \<noteq> m \<Longrightarrow> rc_prepared st1 m' = rc_prepared st m'"
    "rc_running st1 = rc_running st" "rc_requests st1 = rc_requests st" "rc_waiting st1 = rc_waiting st"
    "rc_configured st1 = rc_configured st" "rc_controller st1 = rc_controller st" for j m'
    by (simp_all add: st1 upd_prepared_def upd_barrier_def service_registry)
  have ok: "modality_ok env st m" using b by (simp add: between_def)
  then have so: "service_ok env st m s" using s by (simp add: modality_ok_def)
  have ls: "leases_ok st m" using ok by (simp add: modality_ok_def)
  have "leases_ok st1 m"
    unfolding leases_ok_def
  proof (intro allI impI)
    fix j assume "j < b_next (rc_barrier st1 m)"
    then have "j = i \<or> j < b_next (rc_barrier st m)" using p by (auto simp: f less_Suc_eq)
    then show "pa_supervisor (rc_prepared st1 m j) < rc_nextSupervisor st1 \<and>
        (\<not> l_released (b_lease (rc_barrier st1 m) j) \<longrightarrow> service st1 m = Some (pa_supervisor (rc_prepared st1 m j)))"
    proof
      assume "j = i"
      then show ?thesis using so s by (simp add: f service_ok_def)
    next
      assume j: "j < b_next (rc_barrier st m)"
      then have "j \<noteq> i" using p(2) by simp
      then show ?thesis using ls j p(4) [OF j] by (simp add: f leases_ok_def)
    qed
  qed
  moreover have "barrier_inv b'" using ok unfolding p(1) modality_ok_def by (blast intro: barrier_apply_inv)
  ultimately have "modality_ok env st1 m"
    using ok unfolding modality_ok_def service_ok_def f by simp
  moreover have g: "grows st st1" by (simp add: grows_def f)
  have same: "same_modality m' st st1" if "m' \<noteq> m" for m' using that by (simp add: same_modality_def f)
  have "answers_ok env st1"
    unfolding answers_ok_def f
  proof (intro ballI allI impI)
    fix q modelId l
    assume q: "q \<in> set (rc_requests st)" "ar_result q = Some (Admitted modelId l)"
    then have w: "l < b_next (rc_barrier st (ar_modality q)) \<and> (owned_field env (ar_modality q) \<or>
      model_of (ar_modality q) (sv_from (rc_supervisor st (pa_supervisor (rc_prepared st (ar_modality q) l)))) = modelId)"
      using b unfolding between_def gateway_ok_def answers_ok_def by blast
    then have "rc_prepared st1 (ar_modality q) l = rc_prepared st (ar_modality q) l"
      using f(8,9) p(2) by (cases "ar_modality q = m") auto
    with w show "l < b_next (((rc_barrier st)(m := b')) (ar_modality q)) \<and> (owned_field env (ar_modality q) \<or>
      model_of (ar_modality q) (sv_from (rc_supervisor st (pa_supervisor (rc_prepared st1 (ar_modality q) l)))) = modelId)"
      using p(3) by (cases "ar_modality q = m") auto
  qed
  then have "gateway_ok env st1"
    using b by (simp add: between_def gateway_ok_def tasks_ok_def names_ok_def request_of_def f)
  ultimately show "between env m st1"
    using b modality_ok_frame [OF _ g same] work_ok_frame [OF _ g same] by (intro betweenI) (auto simp: between_def f)
  show "i < b_next (rc_barrier st1 m)" using p by (simp add: f)
  show "rc_requests st1 = rc_requests st" "rc_applied st1 = rc_applied st" "pa_snapshot (rc_prepared st1 m i) = snap" by (simp_all add: f)
  show "\<exists>s. service st1 m = Some s \<and> pa_supervisor (rc_prepared st1 m i) = s \<and> service_ok env st1 m s"
    using s so by (simp add: f service_ok_def)
qed

lemma prepare_eq:
  assumes "i < b_next (rc_barrier st m)"
  shows "prepare m i st = call_supervisor (EnsureRunning (pa_supervisor (rc_prepared st m i)))
    (upd_barrier m (barrier_apply (BOnIdleCancellation i (2 * i + 1))) (upd_barrier m (barrier_apply (BOnPendingDetach i (2 * i))) st))"
proof -
  have "upd_barrier m (on_pending_detach i (2 * i)) st = upd_barrier m (barrier_apply (BOnPendingDetach i (2 * i))) st"
    using assms by (simp add: upd_barrier_def)
  moreover have "b_next (rc_barrier (upd_barrier m (barrier_apply (BOnPendingDetach i (2 * i))) st) m) = b_next (rc_barrier st m)"
    by (simp add: upd_barrier_frame barrier_apply_monotone del: barrier_apply.simps)
  then have "upd_barrier m (on_idle_cancellation i (2 * i + 1)) (upd_barrier m (barrier_apply (BOnPendingDetach i (2 * i))) st) =
      upd_barrier m (barrier_apply (BOnIdleCancellation i (2 * i + 1))) (upd_barrier m (barrier_apply (BOnPendingDetach i (2 * i))) st)"
    using assms by (simp add: upd_barrier_def)
  ultimately show ?thesis by (simp add: prepare_def)
qed

lemma prepare_between:
  assumes "between env m st" "i < b_next (rc_barrier st m)"
  shows "between env m (prepare m i st)" "rc_requests (prepare m i st) = rc_requests st" "i < b_next (rc_barrier (prepare m i st) m)"
    "rc_prepared (prepare m i st) = rc_prepared st" "rc_supervisor (prepare m i st) = rc_supervisor st"
proof -
  show "between env m (prepare m i st)"
    using upd_barrier_between [OF upd_barrier_between [OF assms(1), of "BOnPendingDetach i (2 * i)"], of "BOnIdleCancellation i (2 * i + 1)"]
    by (simp add: prepare_eq [OF assms(2)] del: barrier_apply.simps)
  show "rc_requests (prepare m i st) = rc_requests st" "rc_prepared (prepare m i st) = rc_prepared st" "rc_supervisor (prepare m i st) = rc_supervisor st"
    by (simp_all add: prepare_def call_supervisor_def upd_barrier_def)
  show "i < b_next (rc_barrier (prepare m i st) m)"
    using assms(2) by (simp add: prepare_eq upd_barrier_frame barrier_apply_monotone del: barrier_apply.simps)
qed

lemma acquire_none: "acquire_admission env m snap st = (None, st1) \<Longrightarrow> st1 = st"
  by (auto simp: acquire_admission_def split: if_splits option.splits prod.splits)

lemma granted_inv:
  assumes "between env m st" "request_of st m r" "acquire_admission env m snap st = (Some i, st1)"
    and "\<And>modelId. res = Admitted modelId i \<Longrightarrow> owned_field env m \<or> modelId = model_of m (rc_applied st m)"
    and "\<And>modelId j. res = Admitted modelId j \<Longrightarrow> j = i \<and> asks st r modelId"
  shows "reconciler_inv env (settle_request m r res (prepare m i st1))"
proof -
  note a = acquired_between [OF assms(1,3)]
  note p = prepare_between [OF a(1,2)]
  have "answer_ok env (prepare m i st1) m r res"
    unfolding answer_ok_def p
  proof (intro allI impI)
    fix modelId j assume r: "res = Admitted modelId j"
    then have j: "j = i" "asks st r modelId" using assms(5) by blast+
    have "owned_field env m \<or> modelId = model_of m (rc_applied st m)" using assms(4) r j by simp
    then show "asks (prepare m i st1) r modelId \<and> j < b_next (rc_barrier (prepare m i st1) m) \<and> (owned_field env m \<or>
        model_of m (sv_from (rc_supervisor st1 (pa_supervisor (rc_prepared st1 m j)))) = modelId)"
      using a(3-5) p(2,3) j(2) by (auto simp: j(1) service_ok_def asks_def)
  qed
  then show ?thesis
    using assms(2) p(2) a(3) by (intro settle_request_inv [OF p(1)]) (simp_all add: request_of_def)
qed

lemma grant_admission_inv:
  assumes "between env m st" "request_of st m r" "owned_field env m \<or> i = model_of m (rc_applied st m)" "asks st r i"
  shows "reconciler_inv env (grant_admission env m r i snap st)"
proof (cases "request_error st r")
  case None
  obtain o1 st1 where a: "acquire_admission env m snap st = (o1, st1)" by (cases "acquire_admission env m snap st")
  show ?thesis
  proof (cases o1)
    case None
    then show ?thesis
      using assms a \<open>request_error st r = None\<close> acquire_none [of env m snap st st1] by (simp add: grant_admission_def settle_request_inv)
  next
    case (Some l)
    have "reconciler_inv env (settle_request m r (Admitted i l) (prepare m l st1))"
      by (rule granted_inv [OF assms(1,2) a [unfolded Some]]) (use assms(3,4) in auto)
    then show ?thesis using a Some \<open>request_error st r = None\<close> by (simp add: grant_admission_def)
  qed
qed (use assms in \<open>simp add: grant_admission_def settle_request_inv\<close>)

lemma after_activation_inv:
  assumes "between env m st" "request_of st m r" "owned_field env m \<or> i = model_of m (rc_applied st m)" "snap = rc_applied st m"
    and "asks st r i"
  shows "reconciler_inv env (after_activation env m r i snap st)"
  using assms by (auto simp: after_activation_def intro!: settle_request_inv grant_admission_inv suspend_inv split: option.split)

lemma admit_configured_inv:
  assumes "between env m st" "request_of st m r"
  shows "reconciler_inv env (admit_configured env m r st)"
proof -
  obtain o1 st1 where a: "acquire_admission env m (rc_applied st m) st = (o1, st1)" by (cases "acquire_admission env m (rc_applied st m) st")
  show ?thesis
  proof (cases o1)
    case None
    then have "st1 = st" using a acquire_none by blast
    then show ?thesis using assms a None by (simp add: admit_configured_def settle_request_inv)
  next
    case (Some l)
    have "reconciler_inv env (settle_request m r (AdmittedConfigured l) (prepare m l st1))"
      by (rule granted_inv [OF assms a [unfolded Some]]) auto
    then show ?thesis using a Some by (simp add: admit_configured_def)
  qed
qed

section \<open>Switching\<close>

lemma upd_barrier_switch [simp]:
  "switch_ok env (upd_barrier m f st) m' sw = switch_ok env st m' sw" "request_of (upd_barrier m f st) m' r = request_of st m' r"
  "target_ok env (upd_barrier m f st) m' t a = target_ok env st m' t a"
  by (simp_all add: switch_ok_def asks_def request_of_def target_ok_def upd_barrier_frame)

lemma drain_suspends:
  assumes "between env m st"
    and "draining_for p (barrier_apply ev (rc_barrier st m)) \<Longrightarrow> point_ok env (upd_barrier m (barrier_apply ev) st) m pt"
    and "draining_for p (barrier_apply ev (rc_barrier st m))" "ev \<noteq> BAcquire"
  shows "reconciler_inv env (suspend m pt (barrier_op m (barrier_apply ev) st))"
  using assms by (intro suspend_inv) (simp_all add: upd_barrier_between)

lemma drain_is_draining: "draining_for (fst (drain b)) (barrier_apply (BDrain True) b)"
    "draining_for (fst (drainWithoutCancellation b)) (barrier_apply (BDrain False) b)"
  using draining_drain [of b] by (simp_all add: drain_def drainWithoutCancellation_def)

lemma begin_switch_drain_inv:
  assumes "between env m st" "switch_ok env st m sw"
  shows "reconciler_inv env (begin_switch_drain m sw st)"
  unfolding begin_switch_drain_def Let_def drains_apply
  by (rule drain_suspends [where p = "fst (drain (rc_barrier st m))"])
    (use assms in \<open>simp_all add: drain_is_draining upd_barrier_frame del: barrier_apply.simps\<close>)

lemma switch_request: "switch_ok env st m sw \<Longrightarrow> request_of st m (sw_request sw)"
  by (simp add: switch_ok_def)

lemma activateModel_inv:
  assumes "between env m st" "request_of st m r" "\<not> owned_field env m" "i \<noteq> applied_model st m"
    and "ov_configured (re_ownership env) m \<noteq> Some False" "asks st r i"
  shows "reconciler_inv env (activateModel env m r i source st)"
  using assms unfolding activateModel_def Let_def
  by (auto intro!: suspend_inv begin_switch_drain_inv simp: switch_ok_def model_of_def applied_model_def)

lemma switch_preflighted_inv:
  assumes "between env m st" "switch_ok env st m sw"
  shows "reconciler_inv env (switch_preflighted m sw outcome st)"
  using assms unfolding switch_preflighted_def Let_def
  by (auto intro!: begin_switch_drain_inv switch_ends_inv simp: switch_request split: preflight_outcome.split)

lemma switch_drained_inv:
  assumes "between env m st" "switch_ok env st m sw" "shut (rc_barrier st m)"
  shows "reconciler_inv env (switch_drained m sw st)"
  using assms unfolding switch_drained_def
  by (auto intro!: suspend_inv switch_ends_inv reopen_between simp: switch_request split: option.split admission_error.split)

lemma switch_update_fails_inv:
  assumes "between env m st" "request_of st m (sw_request sw)" "answer_ok env st m (sw_request sw) res" "\<And>i l. res \<noteq> Admitted i l"
  shows "reconciler_inv env (switch_update_fails m sw res st)"
  using assms unfolding switch_update_fails_def
  by (intro switch_ends_inv reopen_between) (simp_all add: answer_ok_def)

text \<open>The snapshot a switch or a rollback adopts.\<close>

lemma adopted_snapshot:
  assumes "inj (re_stringify env)" "between env m st" "controller_replace env (with_model m i config) (rc_controller st) = Some t"
    and "i \<in> set (selectedModels m config)" "ov_configured (re_ownership env) m \<noteq> Some False" "i \<noteq> model_of m (rc_applied st m)"
  defines "st' \<equiv> set_snapshot env t (st\<lparr>rc_controller := t\<rparr>)"
  shows "between env m st'" "rc_snapshot st' = t" "model_of m t = i" "configured_in env m t"
    "cfg_revision (rc_applied st m) < cfg_revision t" "service st' = service st" "rc_barrier st' = rc_barrier st"
    "rc_applied st' = rc_applied st" "rc_registry st' = rc_registry st" "rc_requests st' = rc_requests st"
proof -
  have c: "between env m (st\<lparr>rc_controller := t\<rparr>)" using controller_frame(1) [OF assms(3)] assms(2) .
  have o: "older (rc_snapshot st) t"
    using older_trans [OF between_snapshot [OF assms(2)] replace_older [OF assms(3)]] .
  then show "between env m st'"
    using set_snapshot_frame(1) [of "st\<lparr>rc_controller := t\<rparr>" env m] c by (simp add: st'_def)
  show "model_of m t = i" "configured_in env m t"
    using replace_models [OF assms(1,3)] selected_configured [OF assms(4,5)] by (simp_all add: model_of_def configured_in_def)
  then have "rc_applied st m \<noteq> t" using assms(6) by auto
  moreover have "older (rc_applied st m) t"
    using assms(2) older_trans [OF _ o] by (simp add: between_def modality_ok_def)
  ultimately show "cfg_revision (rc_applied st m) < cfg_revision t" by (auto simp: older_def)
qed (simp_all add: st'_def set_snapshot_def service_registry)

lemma switch_updated_inv:
  assumes "inj (re_stringify env)" "between env m st" "switch_ok env st m sw" "shut (rc_barrier st m)"
  shows "reconciler_inv env (switch_updated env m sw stored st)"
proof -
  let ?st = "st\<lparr>rc_exclusive := None\<rparr>"
  have b: "between env m ?st" and w: "switch_ok env ?st m sw" using assms(2,3) by simp_all
  have fails: "(\<And>i l. res \<noteq> Admitted i l) \<Longrightarrow> answer_ok env ?st m (sw_request sw) res \<Longrightarrow> reconciler_inv env (switch_update_fails m sw res ?st)" for res
    using switch_update_fails_inv [OF b switch_request [OF w]] by blast
  show ?thesis
  proof (cases stored)
    case None
    then show ?thesis using fails by (simp add: switch_updated_def)
  next
    case (Some config)
    show ?thesis
    proof (cases "sw_modelId sw \<in> set (selectedModels m config)")
      case False
      then show ?thesis using fails Some by (simp add: switch_updated_def)
    next
      case sel: True
      show ?thesis
      proof (cases "controller_replace env (with_model m (sw_modelId sw) config) (rc_controller ?st)")
        case None
        then show ?thesis using fails Some sel by (simp add: switch_updated_def)
      next
        case t: (Some t)
        let ?st2 = "set_snapshot env t (?st\<lparr>rc_controller := t\<rparr>)"
        have "sw_modelId sw \<noteq> model_of m (rc_applied ?st m)" "ov_configured (re_ownership env) m \<noteq> Some False"
          using w by (simp_all add: switch_ok_def)
        note a = adopted_snapshot [OF assms(1) b t sel this(2,1)]
        have w2: "switch_ok env ?st2 m sw"
          using w a(8,10) by (simp add: switch_ok_def asks_def request_of_def)
        obtain previous r where p: "take_service m (rc_registry ?st2) = (previous, r)"
          by (cases "take_service m (rc_registry ?st2)")
        have "shut (rc_barrier ?st2 m)" "rc_applied ?st2 m \<noteq> rc_snapshot ?st2"
          using assms(4) a by auto
        note tk = take_between [OF a(1) this p]
        have sw2: "switching_to env (?st2\<lparr>rc_registry := r\<rparr>) m sw t"
          using w2 a assms(4) tk(2) by (simp add: switching_to_def switch_ok_def asks_def request_of_def)
        have "reconciler_inv env (suspend m (AtSwitchShutdown sw t previous run)
            (case previous of Some s \<Rightarrow> call_supervisor (Shutdown s) (?st2\<lparr>rc_registry := r\<rparr>) | None \<Rightarrow> ?st2\<lparr>rc_registry := r\<rparr>))" for run
          using tk(1) sw2 by (intro suspend_inv) (simp_all split: option.split)
        moreover have "reconciler_inv env (switch_update_fails m sw (Threw QueueCancelled) ?st2)"
          using a(1) switch_request [OF w2] by (intro switch_update_fails_inv) simp_all
        ultimately show ?thesis using Some sel t p by (simp add: switch_updated_def Let_def)
      qed
    qed
  qed
qed

lemma finish_switch_inv:
  assumes "between env m st" "switching_to env st m sw t"
  shows "reconciler_inv env (finish_switch env m sw t st)"
proof -
  have r: "request_of st m (sw_request sw)" using assms(2) by (simp add: switching_to_def switch_ok_def)
  show ?thesis
  proof (cases "ar_cancelled (request st (sw_request sw)) \<or> add_created env m t st = None")
    case True
    then show ?thesis using assms(1) r by (auto simp: finish_switch_def switch_ends_inv)
  next
    case False
    then obtain st1 where a: "add_created env m t st = Some st1" and n: "\<not> ar_cancelled (request st (sw_request sw))" by auto
    have b: "between env m (set_applied m t st1)"
      using installed_between [OF assms(1) a] assms(2) by (simp add: switching_to_def)
    have "request_of (set_applied m t st1) m (sw_request sw)" "asks (set_applied m t st1) (sw_request sw) (sw_modelId sw)"
      using r assms(2) add_created_parts(13) [OF a]
      by (simp_all add: request_of_def asks_def set_applied_def switching_to_def switch_ok_def)
    moreover have "rc_applied (set_applied m t st1) m = t" by (simp add: set_applied_def)
    ultimately have "reconciler_inv env (after_activation env m (sw_request sw) (sw_modelId sw) t
        (set_pending m None (attachBarrier m (set_applied m t st1))))"
      using assms(2) attachBarrier_between [OF b] by (intro after_activation_inv) (simp_all add: switching_to_def)
    then show ?thesis using a n by (simp add: finish_switch_def)
  qed
qed

lemma settle_probe_inv:
  assumes "between env m st" "switching_to env st m sw t"
  shows "reconciler_inv env (settle_probe m sw t previous run deadline st)"
  using assms by (auto simp: settle_probe_def switching_to_def switch_ok_def intro!: switch_ends_inv suspend_inv)

lemma switching_request: "switching_to env st m sw t \<Longrightarrow> request_of st m (sw_request sw)"
  by (simp add: switching_to_def switch_ok_def)

lemma begin_settle_inv:
  assumes "between env m st" "switching_to env st m sw t"
  shows "reconciler_inv env (begin_settle env m sw t previous run st)"
  using assms switching_request [OF assms(2)]
  by (auto simp: begin_settle_def intro!: finish_switch_inv switch_ends_inv settle_probe_inv split: option.split)

lemma settle_preflighted_inv:
  assumes "between env m st" "switching_to env st m sw t"
  shows "reconciler_inv env (settle_preflighted env m sw t previous run deadline outcome st)"
  using assms
  by (auto simp: settle_preflighted_def settle_rejected_def intro!: finish_switch_inv suspend_inv split: preflight_outcome.split)

lemma switch_shut_down_inv:
  assumes "between env m st" "switching_to env st m sw t"
  shows "reconciler_inv env (switch_shut_down env m sw t previous run ok st)"
  using assms switching_request [OF assms(2)]
  by (auto simp: switch_shut_down_def intro!: switch_ends_inv begin_settle_inv)

text \<open>The rollback: either the previous model is reinstated or the switch goes on.\<close>

lemma rolled_back_inv:
  assumes "inj (re_stringify env)" "between env m st" "switching_to env st m sw t"
  shows "reconciler_inv env (rolled_back env m sw t run e stored st)"
proof -
  let ?st = "st\<lparr>rc_exclusive := None\<rparr>"
  have b: "between env m ?st" and w: "switching_to env ?st m sw t" using assms(2,3) by simp_all
  have ends: "reconciler_inv env (switch_ends m sw (Threw OtherError) ?st)"
    using b switching_request [OF w] by (intro switch_ends_inv) simp_all
  show ?thesis
  proof (cases stored)
    case None
    then show ?thesis using ends by (simp add: rolled_back_def)
  next
    case (Some config)
    define restored where "restored = (activeModel m config = sw_modelId sw \<and> sw_restoreModel sw \<in> set (selectedModels m config))"
    let ?c = "if restored then with_model m (sw_restoreModel sw) config else config"
    show ?thesis
    proof (cases "controller_replace env ?c (rc_controller ?st)")
      case None
      then show ?thesis using Some ends by (simp add: rolled_back_def Let_def restored_def)
    next
      case r: (Some reverted)
      let ?st2 = "?st\<lparr>rc_controller := reverted\<rparr>"
      have b2: "between env m ?st2" using controller_frame(1) [OF r] b .
      have w2: "switching_to env ?st2 m sw t"
        using w by (simp add: switching_to_def switch_ok_def asks_def request_of_def service_registry)
      show ?thesis
      proof (cases restored)
        case False
        then show ?thesis
          using Some r finish_switch_inv [OF b2 w2] by (simp add: rolled_back_def Let_def restored_def)
      next
        case True
        let ?st3 = "set_snapshot env reverted ?st2"
        have ov: "ov_configured (re_ownership env) m \<noteq> Some False" using w by (simp add: switching_to_def switch_ok_def)
        have sel: "sw_restoreModel sw \<in> set (selectedModels m config)" using True by (simp add: restored_def)
        have o: "older (rc_snapshot ?st2) (rc_controller ?st2)" by (rule between_snapshot [OF b2])
        have b3: "between env m ?st3" using set_snapshot_frame(1) [OF o] b2 by simp
        have conf: "configured_in env m reverted"
          using replace_models(2) [OF assms(1) r] True selected_configured [OF sel ov] by (simp add: configured_in_def)
        have rq: "request_of ?st3 m (sw_request sw)"
          using switching_request [OF w2] by (simp add: request_of_def set_snapshot_def)
        show ?thesis
        proof (cases "add_created env m reverted ?st3")
          case None
          then show ?thesis
            using Some r True rq switch_ends_inv [OF b3] by (simp add: rolled_back_def Let_def restored_def)
        next
          case a: (Some st4)
          have b5: "between env m (attachBarrier m (set_applied m reverted st4))"
            using installed_between [OF b3 a _ conf] by (intro attachBarrier_between) (simp add: set_snapshot_def)
          have rq5: "request_of (attachBarrier m (set_applied m reverted st4)) m (sw_request sw)"
            using rq add_created_parts(13) [OF a] by (simp add: request_of_def set_applied_def)
          have "reconciler_inv env (switch_ends m sw (InsufficientMemory e) (if run then
              (case service (attachBarrier m (set_applied m reverted st4)) m of
                Some s \<Rightarrow> (attachBarrier m (set_applied m reverted st4))
                  \<lparr>rc_reloads := (m, s) # rc_reloads (attachBarrier m (set_applied m reverted st4))\<rparr>
              | None \<Rightarrow> attachBarrier m (set_applied m reverted st4)) else attachBarrier m (set_applied m reverted st4)))"
            using b5 rq5 by (intro switch_ends_inv) (simp_all split: option.split)
          then show ?thesis
            using Some r True a by (simp add: rolled_back_def Let_def restored_def)
        qed
      qed
    qed
  qed
qed

lemma coordinateAdmission_inv:
  assumes "between env m st" "request_of st m r"
    and "asks st r requested"
  shows "reconciler_inv env (coordinateAdmission env m r requested st)"
proof -
  let ?st = "upd_request r (\<lambda>q. q\<lparr>ar_started := True\<rparr>) st"
  have q: "quiet st ?st" by (rule quiet_upd_request) simp
  note qp = quiet_predicates [OF q]
  have b: "between env m ?st" and rq: "request_of ?st m r" and ask: "asks ?st r requested" using assms qp by simp_all
  have name: "resolveRequestedModel m (Some requested) c = Some i \<Longrightarrow> i = requested" for c i
    by (auto simp: resolveRequestedModel_def split: if_splits dest: find_Some_in)
  have ov: "configuredRuntimeModality m c (re_ownership env) \<Longrightarrow> ov_configured (re_ownership env) m \<noteq> Some False" for c
    by (auto simp: configuredRuntimeModality_def)
  have "reconciler_inv env (after_activation env m r i (rc_applied ?st m) ?st)"
    if "\<not> (i \<noteq> applied_model ?st m \<and> \<not> owned_field env m)" "i = requested" for i
    using that b rq ask by (intro after_activation_inv) (auto simp: applied_model_def model_of_def)
  moreover have "reconciler_inv env (activateModel env m r i s ?st)"
    if "i \<noteq> applied_model ?st m" "\<not> owned_field env m" "configuredRuntimeModality m c (re_ownership env)" "i = requested" for i s c
    using that b rq ask ov by (intro activateModel_inv) auto
  moreover have "answer_ok env ?st m r res \<Longrightarrow> reconciler_inv env (settle_request m r res ?st)" for res
    using b rq by (rule settle_request_inv)
  moreover have "reconciler_inv env (settle_request m r (Threw e) st)" for e
    using assms by (simp add: settle_request_inv)
  ultimately show ?thesis
    unfolding coordinateAdmission_def Let_def by (auto split: option.split dest: name)
qed

lemma start_preflighted_inv:
  assumes "between env m st" "request_of st m r" "owned_field env m \<or> i = model_of m (rc_applied st m)" "asks st r i"
  shows "reconciler_inv env (start_preflighted env m r i snap outcome st)"
proof -
  have "reconciler_inv env (settle_request m r res (set_preflight m False st))" if "\<And>st. answer_ok env st m r res" for res
    using assms that by (intro settle_request_inv) simp_all
  moreover have "reconciler_inv env (grant_admission env m r i snap (set_preflight m False st))"
    using assms by (intro grant_admission_inv) simp_all
  ultimately show ?thesis
    by (auto simp: start_preflighted_def Let_def split: preflight_outcome.split option.split)
qed

section \<open>Applying a configuration\<close>

lemma apply_ends_inv: "between env m st \<Longrightarrow> reconciler_inv env (apply_ends m before st)"
  by (simp add: apply_ends_def suspend_inv)

lemma apply_fails_inv: "between env m st \<Longrightarrow> reconciler_inv env (apply_fails m before st)"
  by (simp add: apply_fails_def apply_ends_inv)

lemma apply_drain_inv:
  assumes "between env m st" "target_ok env st m t a"
  shows "reconciler_inv env (apply_drain m before t a st)"
proof -
  define cancelled where "cancelled = (if a = DrainAndRemove then st\<lparr>rc_requests := map (\<lambda>q. if ar_modality q = m \<and> ar_result q = None
      then q\<lparr>ar_cancelled := True\<rparr> else q) (rc_requests st)\<rparr> else st)"
  have "quiet st cancelled" unfolding cancelled_def by (simp add: quiet_cancel_requests)
  note q = quiet_predicates [OF this]
  have "reconciler_inv env (suspend m (AtApplyDrain (fst (drain (rc_barrier st m))) before t a)
      (barrier_op m (barrier_apply (BDrain True)) (upd_registry (markDraining m) cancelled)))"
    by (rule drain_suspends [where p = "fst (drain (rc_barrier st m))"])
      (use assms q in \<open>simp_all add: drain_is_draining upd_barrier_frame del: barrier_apply.simps\<close>)
  then show ?thesis
    using q unfolding apply_drain_def Let_def drains_apply cancelled_def [symmetric] by simp
qed

lemma apply_drained_inv:
  assumes "between env m st" "target_ok env st m t a" "shut (rc_barrier st m)"
  shows "reconciler_inv env (apply_drained m before t a st)"
proof -
  obtain previous r where p: "take_service m (rc_registry st) = (previous, r)"
    by (cases "take_service m (rc_registry st)")
  have "rc_applied st m \<noteq> rc_snapshot st" using assms(2) by (auto simp: target_ok_def older_def)
  note tk = take_between [OF assms(1,3) this p]
  have "target_ok env (st\<lparr>rc_registry := r\<rparr>) m t a" using assms(2) by (simp add: target_ok_def)
  then have "reconciler_inv env (suspend m (AtApplyShutdown before t a)
      (case previous of Some s \<Rightarrow> call_supervisor (Shutdown s) (st\<lparr>rc_registry := r\<rparr>) | None \<Rightarrow> st\<lparr>rc_registry := r\<rparr>))"
    using tk assms(3) by (intro suspend_inv) (simp_all split: option.split)
  then show ?thesis by (simp add: apply_drained_def p Let_def)
qed

lemma attach_applied: "set_applied m t (attachBarrier m st) = attachBarrier m (set_applied m t st)"
  by (simp add: attachBarrier_def set_applied_def set_claim_def upd_barrier_def Let_def)

lemma apply_shut_down_inv:
  assumes "between env m st" "target_ok env st m t a" "service st m = None"
  shows "reconciler_inv env (apply_shut_down env m before t a ok st)"
proof -
  have "reconciler_inv env (apply_ends m before (set_applied m t (attachBarrier m st1)))"
    if "add_created env m t st = Some st1" "a = DrainAndReplace" for st1
    using assms that installed_between [OF assms(1) that(1)] unfolding attach_applied
    by (intro apply_ends_inv attachBarrier_between) (auto simp: target_ok_def)
  moreover have "reconciler_inv env (apply_ends m before (set_applied m t st))" if "a \<noteq> DrainAndReplace"
    using assms that by (intro apply_ends_inv set_applied_between) (auto simp: target_ok_def)
  ultimately show ?thesis
    using apply_fails_inv [OF assms(1)] by (auto simp: apply_shut_down_def split: option.split)
qed

lemma apply_preflighted_inv:
  assumes "between env m st" "target_ok env st m t a"
  shows "reconciler_inv env (apply_preflighted m before t a outcome st)"
  using assms by (auto simp: apply_preflighted_def Let_def intro!: apply_ends_inv suspend_inv split: preflight_outcome.split)

lemma reconcileModality_inv:
  assumes "between env m st" "cfg_revision (rc_applied st m) \<noteq> cfg_revision (rc_snapshot st)"
  shows "reconciler_inv env (reconcileModality env m st)"
proof -
  let ?s = "rc_applied st m" and ?t = "rc_snapshot st"
  have ok: "modality_ok env st m" using assms(1) by (simp add: between_def)
  have lt: "cfg_revision ?s < cfg_revision ?t" using ok assms(2) by (auto simp: modality_ok_def older_def)
  show ?thesis
  proof (cases "plan_action env m ?s ?t")
    case None
    then show ?thesis using assms(1) by (simp add: reconcileModality_def Let_def end_work_inv)
  next
    case (Some a)
    note acts = plan_actions [OF Some, folded configured_in_def]
    show ?thesis
    proof (cases "a = Unchanged")
      case True
      have same: "configured_in env m ?s = configured_in env m ?t"
        using plan_unchanged(2) [OF Some [unfolded True]] by (simp add: configured_in_def)
      have keep: "configured_in env m ?s \<Longrightarrow> owned_field env m \<or> model_of m ?s = model_of m ?t"
        using plan_unchanged(1) [OF Some [unfolded True]] by (simp add: configured_in_def model_of_def)
      have "reconciler_inv env (suspend m (AtLoop ?s) (set_applied m ?t (attachBarrier m st1)))"
        if "add_created env m ?t st = Some st1" "configured_in env m ?t" for st1
        using installed_between [OF assms(1) that(1)] that unfolding attach_applied
        by (intro suspend_inv attachBarrier_between) auto
      moreover have "reconciler_inv env (suspend m (AtLoop ?s) (set_applied m ?t st))"
        if "\<not> (configured_in env m ?t \<and> service st m = None)"
        using that assms(1) ok same keep
        by (intro suspend_inv set_applied_between) (auto simp: modality_ok_def service_ok_def)
      ultimately show ?thesis
        using assms(1) Some True
        by (auto simp: reconcileModality_def Let_def configured_in_def intro!: suspend_inv split: option.split)
    next
      case False
      let ?st = "set_pending m (Some [applied_model st m, activeModel m (cfg_config ?t)]) st"
      have b: "between env m ?st" using assms(1) by simp
      have "reconciler_inv env (apply_ends m ?s (set_applied m ?t (attachBarrier m st1)))"
        if "add_created env m ?t ?st = Some st1" "a = Add" for st1
        using installed_between [OF b that(1)] acts(1) that unfolding attach_applied
        by (intro apply_ends_inv attachBarrier_between) auto
      moreover have "target_ok env st m ?t a" if "a \<noteq> Add"
        using that False lt acts by (cases a) (auto simp: target_ok_def)
      ultimately have "reconciler_inv env (applyModality env m ?s ?t a st)"
        using assms(1) unfolding applyModality_def Let_def
        by (auto intro!: apply_fails_inv suspend_inv split: option.split)
      then show ?thesis using Some False by (cases a) (simp_all add: reconcileModality_def Let_def)
    qed
  qed
qed

lemma reconcile_turn_inv: "between env m st \<Longrightarrow> reconciler_inv env (reconcile_turn env m st)"
  by (simp add: reconcile_turn_def reconcileModality_inv end_work_inv)

lemma reconcile_again_inv: "between env m st \<Longrightarrow> reconciler_inv env (reconcile_again env m before st)"
  by (simp add: reconcile_again_def reconcile_turn_inv end_work_inv)

section \<open>Evictions, cancellations and recovery\<close>

lemma evict_idle_inv:
  assumes "between env m st"
  shows "reconciler_inv env (evict_idle m k st)"
proof -
  have "reconciler_inv env (suspend m (AtEvictKill k) (call_supervisor (Kill s) (upd_barrier m (barrier_apply BDetachIfIdle) st)))"
    if "fst (detachIfIdle (rc_barrier st m))" for s
    using that upd_barrier_between [OF assms, of BDetachIfIdle]
    by (intro suspend_inv) (auto simp: upd_barrier_frame shut_def detachIfIdle_def split: if_splits)
  then show ?thesis
    using end_work_inv [OF assms] by (auto simp: evict_idle_def Let_def drains_apply split: option.split)
qed

lemma evict_all_inv:
  assumes "between env m st"
  shows "reconciler_inv env (evict_all m st)"
proof -
  have "reconciler_inv env (suspend m (AtEvictAllKill (fst (drainWithoutCancellation (rc_barrier st m))))
      (barrier_op m (barrier_apply (BDrain False)) (upd_registry (markDraining m) st)))"
    by (rule drain_suspends [where p = "fst (drainWithoutCancellation (rc_barrier st m))"])
      (use assms in \<open>simp_all add: drain_is_draining upd_barrier_frame del: barrier_apply.simps\<close>)
  then have "reconciler_inv env (suspend m (AtEvictAllKill (fst (drainWithoutCancellation (rc_barrier st m))))
      (call_supervisor c (barrier_op m (barrier_apply (BDrain False)) (upd_registry (markDraining m) st))))" for c
  proof -
    have "suspend m p (call_supervisor c s) = call_supervisor c (suspend m p s)" for p s
      by (simp add: suspend_def call_supervisor_def)
    moreover assume "reconciler_inv env (suspend m (AtEvictAllKill (fst (drainWithoutCancellation (rc_barrier st m))))
      (barrier_op m (barrier_apply (BDrain False)) (upd_registry (markDraining m) st)))"
    ultimately show ?thesis by simp
  qed
  then show ?thesis
    using end_work_inv [OF assms] by (simp add: evict_all_def Let_def drains_apply split: option.split)
qed

lemma reattach_if_serving_inv: "between env m st \<Longrightarrow> reconciler_inv env (reattach_if_serving m s st)"
  by (simp add: reattach_if_serving_def end_work_inv attachBarrier_between)

lemma idle_cancellation_inv: "between env m st \<Longrightarrow> reconciler_inv env (idle_cancellation_work m i st)"
  by (simp add: idle_cancellation_work_def Let_def suspend_inv reattach_if_serving_inv)

lemma safeguard_work_inv: "between env m st \<Longrightarrow> reconciler_inv env (safeguard_work m s check st)"
  by (simp add: safeguard_work_def suspend_inv end_work_inv)

lemma safeguard_slots_inv:
  assumes "between env m st"
  shows "reconciler_inv env (safeguard_slots m s check processing st)"
proof -
  have "reconciler_inv env (suspend m (AtSafeguardKill s) (call_supervisor (Kill s) (upd_barrier m (barrier_apply BDetachIfIdle) st)))"
    if "fst (detachIfIdle (rc_barrier st m))"
    using that upd_barrier_between [OF assms, of BDetachIfIdle]
    by (intro suspend_inv) (auto simp: upd_barrier_frame shut_def detachIfIdle_def split: if_splits)
  then show ?thesis
    using end_work_inv [OF assms] by (auto simp: safeguard_slots_def drains_apply split: option.split)
qed

lemma recovery_projected_inv [simp]: "reconciler_inv env (recovery_projected v b st) = reconciler_inv env st"
proof -
  have "quiet st (begin_stop v st)"
    by (auto simp: begin_stop_def quiet_recovery_ends split: list.split
        intro: quiet_trans [OF quiet_updates(9) quiet_exclusive])
  then have "quiet st (recovery_projected v b st)"
    by (simp add: recovery_projected_def quiet_recovery_ends)
  then show ?thesis by (rule quiet_predicates)
qed

lemma claim_made_inv [simp]: "reconciler_inv env (claim_made env v st) = reconciler_inv env st"
  by (simp add: claim_made_def begin_projection_def Let_def split: recovery_phase.split option.split)

lemma claim_work_inv:
  assumes "between env m st"
  shows "reconciler_inv env (claim_work env m v st)"
proof -
  have e: "reconciler_inv env (end_work m st)" by (rule end_work_inv [OF assms])
  have "reconciler_inv env (upd_barrier m (barrier_apply BDetachIfIdle) (end_work m st))"
    by (rule upd_barrier_inv [OF e]) simp_all
  then show ?thesis
    using e by (auto simp: claim_work_def Let_def drains_apply split: option.split)
qed

lemma stop_ends_inv: "between env m st \<Longrightarrow> reconciler_inv env (stop_ends m v res st)"
  by (simp add: stop_ends_def Let_def end_nested_inv end_work_inv)

lemma stop_claims_inv: "between env m st \<Longrightarrow> reconciler_inv env (stop_claims m v cs st)"
  by (auto simp: stop_claims_def stop_ends_inv suspend_inv split: list.split)

lemma stop_work_inv:
  assumes "between env m st"
  shows "reconciler_inv env (stop_work m v rest st)"
proof -
  have "reconciler_inv env (exclusiveModality m' (TStop v ms) (suspend m (AtNested v) st))" for m' ms
    using suspend_inv [OF assms, of "AtNested v"] quiet_predicates(2) [OF quiet_exclusive, of "TStop v ms"] by simp
  then show ?thesis
    using assms by (auto simp: stop_work_def Let_def end_work_inv stop_ends_inv stop_claims_inv split: list.split)
qed

lemma release_work_inv: "between env m st \<Longrightarrow> reconciler_inv env (release_work m st)"
  by (simp add: release_work_def end_work_inv attachBarrier_between)

section \<open>Every event keeps the invariant\<close>

lemma asks_request: "request_of st m r \<Longrightarrow> ar_modelId (request st r) = Some i \<Longrightarrow> asks st r i"
  by (simp add: asks_def request_of_def request_def)

lemma start_work_inv:
  assumes "between env m st" "\<And>r. t = TAdmission r \<Longrightarrow> request_of st m r"
  shows "reconciler_inv env (start_work env m t st)"
proof (cases t)
  case (TAdmission r)
  then show ?thesis
    using assms asks_request [of st m r]
    by (auto simp: start_work_def admit_configured_inv coordinateAdmission_inv split: option.split)
qed (use assms(1) in \<open>simp_all add: start_work_def reconcile_turn_inv evict_idle_inv evict_all_inv
      idle_cancellation_inv safeguard_work_inv claim_work_inv stop_work_inv release_work_inv\<close>)

lemma shorter_queue:
  assumes "reconciler_inv env st" "set ts \<subseteq> set (rc_waiting st m)"
  shows "reconciler_inv env (st\<lparr>rc_waiting := (rc_waiting st)(m := ts)\<rparr>)"
proof -
  let ?st = "st\<lparr>rc_waiting := (rc_waiting st)(m := ts)\<rparr>"
  have g: "grows st ?st" "same_modality m' st ?st" for m' by (simp_all add: grows_def same_modality_def service_registry)
  have "gateway_ok env ?st"
    using assms by (auto simp: reconciler_inv_def gateway_ok_def tasks_ok_def answers_ok_def names_ok_def request_of_def)
  moreover have "modality_ok env ?st m' \<and> work_ok env ?st m'" for m'
    using assms(1) modality_ok_frame [OF _ g] work_ok_frame [OF _ g] by (simp add: reconciler_inv_def)
  ultimately show ?thesis by (simp add: reconciler_inv_def)
qed

lemma next_work_inv:
  assumes "reconciler_inv env st"
  shows "reconciler_inv env (next_work env m st)"
proof (cases "rc_running st m")
  case None
  show ?thesis
  proof (cases "rc_waiting st m")
    case (Cons t ts)
    have "reconciler_inv env (st\<lparr>rc_waiting := (rc_waiting st)(m := ts)\<rparr>)"
      by (rule shorter_queue [OF assms]) (auto simp: Cons)
    moreover have "request_of (st\<lparr>rc_waiting := (rc_waiting st)(m := ts)\<rparr>) m r" if "t = TAdmission r" for r
    proof -
      have "TAdmission r \<in> set (rc_waiting st m)" using Cons that by simp
      then have "request_of st m r" using assms by (simp add: reconciler_inv_def gateway_ok_def tasks_ok_def)
      then show ?thesis by (simp add: request_of_def)
    qed
    ultimately show ?thesis
      using None Cons by (simp add: next_work_def start_work_inv inv_between)
  qed (use assms None in \<open>simp add: next_work_def\<close>)
qed (use assms in \<open>simp add: next_work_def\<close>)

lemma inv_point: "reconciler_inv env st \<Longrightarrow> rc_running st m = Some p \<Longrightarrow> point_ok env st m p"
  by (simp add: reconciler_inv_def work_ok_def)

lemma inv_barrier: "reconciler_inv env st \<Longrightarrow> barrier_inv (rc_barrier st m)"
  by (simp add: reconciler_inv_def modality_ok_def)

lemma preflight_settles_inv:
  assumes "reconciler_inv env st"
  shows "reconciler_inv env (preflight_settles env m outcome st)"
  using assms inv_between [OF assms, of m] inv_point [OF assms]
  by (auto simp: preflight_settles_def apply_preflighted_inv switch_preflighted_inv settle_preflighted_inv
      split: option.split point.split intro!: start_preflighted_inv dest: inv_point)

lemma drain_settles_inv:
  assumes "reconciler_inv env st"
  shows "reconciler_inv env (drain_settles m st)"
proof -
  note b = inv_between [OF assms, of m]
  have sh: "draining_for p (rc_barrier st m) \<Longrightarrow> p \<in> set (b_resolved (rc_barrier st m)) \<Longrightarrow> shut (rc_barrier st m)" for p
    using drained_shut [OF inv_barrier [OF assms]] .
  show ?thesis
  proof (cases "rc_running st m")
    case (Some p)
    note pt = inv_point [OF assms Some]
    show ?thesis
      using Some pt assms b sh
      by (cases p) (auto simp: drain_settles_def Let_def evicted_all_def switch_request
          intro!: apply_drained_inv switch_drained_inv switch_ends_inv end_work_inv reopen_between)
  qed (use assms in \<open>simp add: drain_settles_def\<close>)
qed

lemma stop_settles_inv:
  assumes "reconciler_inv env st"
  shows "reconciler_inv env (stop_settles env m ok st)"
proof (cases "rc_running st m")
  case (Some p)
  note b = inv_between [OF assms, of m] and pt = inv_point [OF assms Some]
  have "reconciler_inv env (evicted_idle m k ok st)" for k
    using b by (simp add: evicted_idle_def end_work_inv attachBarrier_between)
  moreover have "reconciler_inv env (claim_stopped m v rest ok st)" for v rest
    using b by (simp add: claim_stopped_def stop_ends_inv stop_claims_inv)
  ultimately show ?thesis
    using Some pt assms b
    by (cases p) (auto simp: stop_settles_def reattach_if_serving_inv apply_shut_down_inv switch_shut_down_inv suspend_inv)
qed (use assms in \<open>simp add: stop_settles_def\<close>)

lemma exclusive_begins_inv:
  assumes "reconciler_inv env st"
  shows "reconciler_inv env (exclusive_begins m st)"
  using assms inv_between [OF assms, of m] inv_point [OF assms]
  by (auto simp: exclusive_begins_def split: option.split point.split intro!: switch_update_fails_inv dest!: inv_point [of env st m] switch_request)

lemma update_settles_inv:
  assumes "inj (re_stringify env)" "reconciler_inv env st"
  shows "reconciler_inv env (update_settles env m stored st)"
proof (cases "rc_running st m")
  case (Some p)
  note b = inv_between [OF assms(2), of m] and pt = inv_point [OF assms(2) Some]
  show ?thesis
    using Some pt assms(2) switch_updated_inv [OF assms(1) b] rolled_back_inv [OF assms(1) b]
    by (cases p) (auto simp: update_settles_def)
qed (use assms in \<open>simp add: update_settles_def\<close>)

lemma preflight_aborted_inv:
  assumes "reconciler_inv env st"
  shows "reconciler_inv env (preflight_aborted m st)"
proof (cases "rc_running st m")
  case (Some p)
  note b = inv_between [OF assms, of m] and pt = inv_point [OF assms Some]
  show ?thesis
    using Some pt assms b
    by (cases p) (auto simp: preflight_aborted_def switch_request intro!: apply_fails_inv switch_ends_inv settle_request_inv)
qed (use assms in \<open>simp add: preflight_aborted_def\<close>)

lemma fold_inv: "(\<And>x st. reconciler_inv env st \<Longrightarrow> reconciler_inv env (f x st)) \<Longrightarrow> reconciler_inv env st \<Longrightarrow> reconciler_inv env (fold f xs st)"
  by (induction xs arbitrary: st) auto

lemma evictAll_inv:
  assumes "reconciler_inv env st"
  shows "reconciler_inv env (evictAllRuntimes st)"
proof -
  have "quiet st (rejectQueued st)" unfolding rejectQueued_def by (rule quiet_cancel_requests)
  then have "reconciler_inv env (rejectQueued st)" using assms quiet_predicates(2) by blast
  then have "reconciler_inv env (fold preflight_aborted runtimeModalities (rejectQueued st))"
    by (intro fold_inv preflight_aborted_inv)
  then show ?thesis
    unfolding evictAllRuntimes_def by (rule fold_inv [rotated]) (simp add: quiet_predicates(2) [OF quiet_exclusive])
qed

lemma abort_request_inv:
  assumes "reconciler_inv env st"
  shows "reconciler_inv env (abort_request r st)"
proof -
  let ?st = "upd_request r (\<lambda>q. q\<lparr>ar_aborted := True, ar_cancelled := True\<rparr>) st" and ?m = "ar_modality (request st r)"
  have "quiet st ?st" by (rule quiet_upd_request) simp
  note q = quiet_predicates [OF this]
  have i: "reconciler_inv env ?st" using assms q by simp
  note b = inv_between [OF i, of ?m]
  show ?thesis
  proof (cases "r < length (rc_requests st) \<and> ar_result (request st r) = None")
    case True
    show ?thesis
    proof (cases "rc_running ?st ?m")
      case None
      then show ?thesis using i True by (simp add: abort_request_def Let_def)
    next
      case (Some p)
      note pt = inv_point [OF i Some]
      show ?thesis
        using Some True pt i b
        by (cases p) (auto simp: abort_request_def Let_def switch_request switching_request
            intro!: switch_ends_inv settle_request_inv suspend_inv)
    qed
  qed (use assms in \<open>auto simp: abort_request_def not_less\<close>)
qed

lemma new_request_inv:
  assumes "reconciler_inv env st"
  shows "reconciler_inv env (new_request m i st)"
proof -
  let ?r = "\<lparr>ar_modality = m, ar_modelId = i, ar_aborted = False, ar_started = False, ar_cancelled = False, ar_result = None\<rparr>"
  have g: "grows st (new_request m i st)" "same_modality m' st (new_request m i st)"
    "rc_running (new_request m i st) m' = rc_running st m'" for m'
    by (simp_all add: new_request_def exclusiveModality_def grows_def same_modality_def service_registry nth_append)
  have t: "tasks_ok st" "answers_ok env st" using assms by (simp_all add: reconciler_inv_def gateway_ok_def)
  have "tasks_ok (new_request m i st)"
    unfolding tasks_ok_def
  proof (intro allI impI)
    fix m' r assume "TAdmission r \<in> set (rc_waiting (new_request m i st) m')"
    then have "TAdmission r \<in> set (rc_waiting st m') \<or> m' = m \<and> r = length (rc_requests st)"
      by (auto simp: new_request_def exclusiveModality_def split: if_splits)
    then show "request_of (new_request m i st) m' r"
      using t(1) grows_request [OF g(1)] by (auto simp: tasks_ok_def) (simp add: request_of_def new_request_def exclusiveModality_def)
  qed
  moreover have "answers_ok env (new_request m i st)"
    using t(2) by (simp add: answers_ok_def new_request_def exclusiveModality_def)
  moreover have "names_ok (new_request m i st)"
    using assms by (simp add: reconciler_inv_def gateway_ok_def names_ok_def new_request_def exclusiveModality_def)
  ultimately have "gateway_ok env (new_request m i st)"
    using assms by (simp add: reconciler_inv_def gateway_ok_def new_request_def exclusiveModality_def)
  then show ?thesis
    using assms modality_ok_frame [OF _ g(1,2)] work_ok_frame [OF _ g] by (simp add: reconciler_inv_def)
qed

lemma scheduleReconciliation_inv:
  assumes "reconciler_inv env st" "rc_controller st = target"
  shows "reconciler_inv env (scheduleReconciliation env target st)"
proof -
  have f: "reconciler_inv env (fold scheduleModality runtimeModalities s)" if "reconciler_inv env s" for s
    using that by (intro fold_inv) simp_all
  have "older (rc_snapshot st) (rc_controller st)" using assms(1) by (simp add: reconciler_inv_def gateway_ok_def)
  then have "reconciler_inv env (set_snapshot env target st)" using set_snapshot_frame(2) assms by blast
  then show ?thesis using f assms(1) by (simp add: scheduleReconciliation_def split: sum.split)
qed

lemma coordinate_inv:
  assumes "reconciler_inv env st"
  shows "reconciler_inv env (coordinate env stored st)"
  using assms controller_frame(2) [OF _ assms]
  by (auto simp: coordinate_def intro!: scheduleReconciliation_inv split: option.split)

lemma quiet_inv: "quiet st st' \<Longrightarrow> reconciler_inv env st \<Longrightarrow> reconciler_inv env st'"
  by (simp add: quiet_predicates(2))

lemma issued_ops:
  assumes "issued m i st"
  shows "barrier_op m (cancel_lease i) st = barrier_op m (barrier_apply (BCancel i)) st"
    "barrier_op m (release_lease i) st = barrier_op m (barrier_apply (BRelease i)) st"
    "barrier_op m (mark_response_started i) st = barrier_op m (barrier_apply (BMarkResponseStarted i)) st"
  using assms by (auto simp: issued_def intro!: barrier_op_cong)

lemma settled_admission:
  assumes "reconciler_inv env st" "issued m i st"
  shows "reconciler_inv env (cancel_admission m i st)" "reconciler_inv env (release_admission m i st)"
proof -
  let ?st = "upd_prepared m i (\<lambda>a. a\<lparr>pa_settled := True\<rparr>) st"
  have "quiet st ?st" by (rule quiet_upd_prepared) simp
  then have st: "reconciler_inv env ?st" "issued m i ?st"
    using assms quiet_inv quiet_predicates(5) [of st ?st] by (auto simp: issued_def)
  note op = issued_ops [OF st(2)] barrier_op_inv [OF st(1)]
  show "reconciler_inv env (cancel_admission m i st)" "reconciler_inv env (release_admission m i st)"
    using assms(1) op by (simp_all add: cancel_admission_def release_admission_def Let_def del: barrier_apply.simps barrier_op_simps)
qed

theorem reconciler_event_inv:
  assumes "inj (re_stringify env)" "reconciler_inv env st"
  shows "reconciler_inv env (reconciler_apply env ev st)"
proof -
  note i = assms(2) and b = inv_between [OF assms(2)]
  have x: "reconciler_inv env (fold (\<lambda>m. exclusiveModality m t) ms s)"
    if "reconciler_inv env s" "\<And>r. t \<noteq> TAdmission r" for t ms s
    using that by (intro fold_inv) (simp_all add: quiet_predicates(2) [OF quiet_exclusive])
  show ?thesis
  proof (cases ev)
    case (EvHook m ok)
    show ?thesis
    proof (cases "rc_running st m")
      case (Some p)
      then show ?thesis using EvHook i b inv_point [OF i Some] by (cases p) (simp_all add: apply_drain_inv apply_fails_inv)
    qed (use EvHook i in simp)
  next
    case (EvTimer m)
    show ?thesis
    proof (cases "rc_running st m")
      case (Some p)
      then show ?thesis using EvTimer i b inv_point [OF i Some] by (cases p) (simp_all add: settle_probe_inv)
    qed (use EvTimer i in simp)
  next
    case (EvResponseStarted m i')
    then show ?thesis using i issued_ops(3) barrier_op_inv [OF i] by (simp del: barrier_apply.simps barrier_op_simps)
  next
    case (EvSafeguard m)
    have "quiet st (safeguard_fires m st)"
      by (auto simp: safeguard_fires_def split: option.split intro: quiet_trans [OF quiet_updates(16) quiet_exclusive])
    then show ?thesis using EvSafeguard i quiet_inv by simp
  next
    case (EvReloaded m s r)
    have "quiet st (restored_reload m s r st)"
      by (auto simp: restored_reload_def Let_def intro: quiet_updates quiet_trans [OF quiet_updates(12) quiet_updates(5)])
    then show ?thesis using EvReloaded i quiet_inv by simp
  next
    case (EvRecoveryAbort v)
    have "reconciler_inv env (end_nested v (upd_recovery v (\<lambda>q. q\<lparr>rv_aborted := True\<rparr>) st))"
      using i by (intro end_nested_inv) simp
    then show ?thesis using EvRecoveryAbort i by (simp add: recovery_aborted_def Let_def split: recovery_phase.split)
  next
    case (EvReady m i')
    have "quiet st (upd_prepared m i' (\<lambda>a. a\<lparr>pa_startupPending := False\<rparr>) st)" by (rule quiet_upd_prepared) simp
    then show ?thesis using EvReady i quiet_inv by simp
  next
    case (EvSupervisorState s state)
    have "quiet st (upd_supervisor s (\<lambda>sv. sv\<lparr>sv_state := state\<rparr>) st)" by (rule quiet_upd_supervisor) simp
    then show ?thesis using EvSupervisorState i quiet_inv by simp
  next
    case (EvTimeout r)
    have "quiet st (upd_request r (\<lambda>q. q\<lparr>ar_cancelled := True\<rparr>) st)" by (rule quiet_upd_request) simp
    then show ?thesis using EvTimeout i quiet_inv by simp
  next
    case (EvPersist config)
    then show ?thesis using i controller_frame(2) [OF _ i] by (auto split: option.split)
  next
    case (EvLoop m)
    then show ?thesis using i b by (auto simp: reconcile_again_inv split: option.split point.split)
  next
    case (EvSlots m n)
    then show ?thesis using i b by (auto simp: safeguard_slots_inv split: option.split point.split)
  next
    case (EvEvictIdle m)
    then show ?thesis using i x by (simp add: evictIdleRuntimes_def Let_def)
  next
    case (EvRecover m s)
    then show ?thesis using i x by (simp add: recoverWithIdleEviction_def Let_def)
  next
    case (EvProjected v s)
    then show ?thesis using i by (simp add: recovery_answer_def)
  qed (use i in \<open>simp_all add: coordinate_inv new_request_inv abort_request_inv next_work_inv preflight_settles_inv
      drain_settles_inv stop_settles_inv exclusive_begins_inv update_settles_inv [OF assms(1)] settled_admission evictAll_inv\<close>)
qed

interpretation reconciling: invariant_system "reconciler_step env" "reconciler_inv env" "\<lambda>_ _. inj (re_stringify env)" for env
  by unfold_locales (auto simp: reconciler_step_def intro: reconciler_event_inv)

end
