(* ===== verification/Reconciler_Properties.thy ===== *)
theory Reconciler_Properties
  imports Reconciler_Safety
begin

text \<open>
  The reconciler's properties, most read off its invariant, the two that show what it gets wrong, and concrete
  runs they apply to.
\<close>

section \<open>A gateway that has started\<close>

text \<open>
  The supervisors a gateway starts with: one for each configured modality, built for the
  configuration's model.
\<close>

definition started :: "reconciler_env \<Rightarrow> config_snapshot \<Rightarrow> (runtime_modality \<Rightarrow> nat option) \<Rightarrow> (nat \<Rightarrow> supervisor) \<Rightarrow> nat \<Rightarrow> bool" where
  "started env s services supervisors n \<longleftrightarrow>
     (\<forall>m. (services m \<noteq> None \<longleftrightarrow> configuredRuntimeModality m (cfg_config s) (re_ownership env)) \<and>
       (\<forall>k. services m = Some k \<longrightarrow> k < n \<and> sv_from (supervisors k) = s))"

lemma new_reconciler_inv:
  assumes "started env s services supervisors n"
  shows "reconciler_inv env (new_reconciler env s services supervisors n)"
proof -
  let ?st = "new_reconciler env s services supervisors n"
  have f: "rc_barrier ?st m = new_barrier m (configuredModalities s (re_ownership env) m)" "service ?st = services"
    "rc_applied ?st m = s" "rc_snapshot ?st = s" "rc_running ?st m = None" for m
    by (simp_all add: new_reconciler_def service_registry new_registry_def)
  have "service_ok env ?st m k" if "services m = Some k" for m k
    using assms that by (force simp: started_def service_ok_def configured_in_def new_reconciler_def)
  moreover have "leases_ok ?st m" for m
    by (simp add: leases_ok_def f) (simp add: new_barrier_def)
  moreover have "barrier_inv (rc_barrier ?st m)" for m
    by (simp add: f new_barrier_inv)
  moreover have "configured_in env m s \<Longrightarrow> services m \<noteq> None" for m
    using assms by (simp add: started_def configured_in_def)
  ultimately have "modality_ok env ?st m" for m
    unfolding modality_ok_def f by blast
  then show ?thesis
    by (simp add: reconciler_inv_def work_ok_def f gateway_ok_def tasks_ok_def answers_ok_def names_ok_def)
      (simp add: new_reconciler_def)
qed

lemma reconciler_reachable:
  assumes "inj (re_stringify env)" "started env s services supervisors n"
    and "reconciler_run env es (new_reconciler env s services supervisors n) = Some st"
  shows "reconciler_inv env st"
  using reconciling.run_inv [OF new_reconciler_inv [OF assms(2)] run_allowsI assms(3)] assms(1) by blast

section \<open>A demonstration gateway\<close>

instance json :: countable
  by countable_datatype

definition demo_stringify :: "json \<Rightarrow> string" where
  "demo_stringify j = replicate (to_nat j) CHR ''x''"

lemma demo_stringify_inj: "inj demo_stringify"
  by (rule injI) (auto simp: demo_stringify_def replicate_eq_replicate split: if_splits)

definition demo_reconciler :: reconciler_env where
  "demo_reconciler = \<lparr>re_localeCompare = (\<lambda>_ _. 0), re_stringify = demo_stringify, re_canonical = (\<lambda>r. r), re_root = JStr ''r'',
     re_dirs = (\<lambda>_ _. JArr []), re_ownership = no_overrides,
     re_create = (\<lambda>m s. Some \<lparr>sh_kind = ServerKind, sh_retains = False, sh_reportsSlots = True, sh_preflight = (m = Video)\<rparr>),
     re_model = (\<lambda>_. None), re_platform = ''linux'', re_arch = ''x64''\<rparr>"

definition demo_settings :: "string \<Rightarrow> bool \<Rightarrow> config" where
  "demo_settings llm video = (\<lambda>f. if f = F_root then JStr ''r'' else if f = F_activeLlmModel then JStr llm
     else if f = F_selectedLlmModels then JArr [JStr ''a'', JStr ''b'']
     else if f = F_activeVideoModel then JStr ''v''
     else if f = F_selectedVideoModels \<and> video then JArr [JStr ''v'', JStr ''w''] else JArr [])"

definition demo_start :: reconciler where
  "demo_start = new_reconciler demo_reconciler \<lparr>cfg_revision = 0, cfg_config = demo_settings ''a'' False\<rparr>
     (\<lambda>m. if m = LLM then Some 0 else None)
     (\<lambda>_. \<lparr>sv_kind = ServerKind, sv_from = \<lparr>cfg_revision = 0, cfg_config = demo_settings ''a'' False\<rparr>, sv_state = Idle,
        sv_retains = False, sv_reportsSlots = True, sv_preflight = False\<rparr>) 1"

lemma demo_started:
  "started demo_reconciler \<lparr>cfg_revision = 0, cfg_config = demo_settings ''a'' False\<rparr> (\<lambda>m. if m = LLM then Some 0 else None)
     (\<lambda>_. \<lparr>sv_kind = ServerKind, sv_from = \<lparr>cfg_revision = 0, cfg_config = demo_settings ''a'' False\<rparr>, sv_state = Idle,
        sv_retains = False, sv_reportsSlots = True, sv_preflight = False\<rparr>) 1"
proof -
  have "configuredRuntimeModality m (demo_settings ''a'' False) no_overrides = (m = LLM)" for m
    by (cases m) (simp_all add: configuredRuntimeModality_def no_overrides_def demo_settings_def nonempty_array_def)
  then show ?thesis by (simp add: started_def demo_reconciler_def)
qed

lemma demo_replace:
  assumes "c F_root = JStr ''r''" "activeModel m c \<noteq> activeModel m (cfg_config s)"
  shows "controller_replace demo_reconciler c s = Some \<lparr>cfg_revision = cfg_revision s + 1, cfg_config = c\<rparr>"
  using assms same_fingerprint_models(1) [OF demo_stringify_inj, of "\<lambda>_ _. 0" "cfg_config s" c]
  by (auto simp: controller_replace_def replace_config_def demo_reconciler_def)

section \<open>Evaluating runs\<close>

lemmas reconciler_eval = reconciler_step_def new_reconciler_def new_request_def exclusiveModality_def
  next_work_def start_work_def coordinateAdmission_def request_error_def request_def upd_request_def
  resolveRequestedModel_def experimental_refused_def applied_model_def owned_field_def activateModel_def candidate_preflight_def
  set_pending_def set_preflight_def begin_switch_drain_def upd_registry_def preflight_settles_def switch_preflighted_def
  barrier_op_def upd_barrier_def suspend_def drain_settles_def switch_drained_def exclusive_begins_def update_settles_def
  switch_updated_def set_snapshot_def take_service_def call_supervisor_def service_state_def stop_settles_def switch_shut_down_def
  begin_settle_def finish_switch_def add_created_def add_service_def after_activation_def attachBarrier_def set_claim_def
  set_applied_def grant_admission_def acquire_admission_def acquire_lease_def service_def settle_request_def end_work_def
  prepare_def upd_prepared_def drain_def drainLeases_def detach_def detachPending_def first_callback_def new_barrier_def
  new_registry_def markDraining_def attach_def on_pending_detach_def on_idle_cancellation_def upd_lease_def new_lease_def
  set_add_def configuredModalities_def Let_def

lemma demo_models [simp]:
  "activeModel m (demo_settings l v) = (if m = LLM then l else if m = Video then ''v'' else [])"
  "selectedModels m (demo_settings l v) = (if m = LLM then [''a'', ''b''] else if m = Video \<and> v then [''v'', ''w''] else [])"
  "configuredRuntimeModality m (demo_settings l v) no_overrides = (m = LLM \<or> m = Video \<and> v)"
  by (cases m; simp add: activeModel_def selectedModels_def demo_settings_def configuredRuntimeModality_def no_overrides_def nonempty_array_def)+

lemma demo_root: "demo_settings l v F_root = JStr ''r''" "with_model m i c F_root = c F_root"
  by (simp_all add: demo_settings_def with_model_def) (cases m; simp)

lemma demo_env:
  "re_create demo_reconciler m s = Some \<lparr>sh_kind = ServerKind, sh_retains = False, sh_reportsSlots = True, sh_preflight = (m = Video)\<rparr>"
  "re_ownership demo_reconciler = no_overrides" "re_model demo_reconciler i = None" "ov_configFields no_overrides = []"
  "inj (re_stringify demo_reconciler)"
  by (simp_all add: demo_reconciler_def no_overrides_def demo_stringify_inj)

lemmas demo_eval = demo_start_def reconciler_eval demo_env demo_root

text \<open>A request for the other model switches the backend and is admitted to the new supervisor.\<close>

definition demo_switch :: "reconciler_event list" where
  "demo_switch = [EvDispatch LLM ''b'', EvStart LLM, EvDrained LLM, EvExclusive LLM,
     EvUpdated LLM (Some (demo_settings ''a'' False)), EvStopped LLM True]"

lemma demo_switched:
  "\<exists>st. reconciler_run demo_reconciler demo_switch demo_start = Some st \<and>
     map ar_result (rc_requests st) = [Some (Admitted ''b'' 0)] \<and> map ar_modality (rc_requests st) = [LLM] \<and>
     b_next (rc_barrier st LLM) = 1 \<and> \<not> l_released (b_lease (rc_barrier st LLM) 0) \<and>
     cfg_revision (rc_applied st LLM) = 1 \<and> cfg_revision (rc_snapshot st) = 1 \<and>
     activeModel LLM (cfg_config (rc_snapshot st)) = ''b'' \<and>
     configuredRuntimeModality LLM (cfg_config (rc_snapshot st)) no_overrides"
  by (simp add: demo_switch_def demo_eval demo_replace [where m = LLM])

section \<open>Properties\<close>

text \<open>
  C5: a backend leaves service only when nothing is admitted to it.  However requests, configuration
  changes, switches, evictions, recoveries and failures interleave, an admission that has not been
  released or cancelled is on the supervisor that serves its modality.
\<close>

theorem admissions_stay_on_serving_backend:
  assumes "inj (re_stringify env)" and "started env s services supervisors n"
    and "reconciler_run env es (new_reconciler env s services supervisors n) = Some st"
    and "i < b_next (rc_barrier st m)" and "\<not> l_released (b_lease (rc_barrier st m) i)"
  shows "service st m = Some (pa_supervisor (rc_prepared st m i))"
  using reconciler_reachable [OF assms(1-3)] assms(4,5) by (simp add: reconciler_inv_def modality_ok_def leases_ok_def)

theorem admissions_stay_on_serving_backend_witness:
  "\<exists>st. reconciler_run demo_reconciler demo_switch demo_start = Some st \<and>
     service st LLM = Some (pa_supervisor (rc_prepared st LLM 0))"
proof -
  obtain st where st: "reconciler_run demo_reconciler demo_switch demo_start = Some st"
      "b_next (rc_barrier st LLM) = 1" "\<not> l_released (b_lease (rc_barrier st LLM) 0)"
    using demo_switched by blast
  with admissions_stay_on_serving_backend [OF demo_env(5) demo_started, folded demo_start_def, OF st(1), of 0 LLM]
  show ?thesis by simp
qed

text \<open>
  C6: a request gets the model it asked for.  Unless an override fixes the active model, a request
  answered with an admission was answered for the model it named, and the supervisor of the admission
  was built from a configuration whose active model is that one.
\<close>

theorem admitted_request_gets_its_model:
  assumes "inj (re_stringify env)" and "started env s services supervisors n"
    and "reconciler_run env es (new_reconciler env s services supervisors n) = Some st"
    and "q \<in> set (rc_requests st)" and "ar_result q = Some (Admitted modelId i)" and "\<not> owned_field env (ar_modality q)"
  shows "ar_modelId q = Some modelId \<and>
    activeModel (ar_modality q) (cfg_config (sv_from (rc_supervisor st (pa_supervisor (rc_prepared st (ar_modality q) i))))) = modelId"
proof -
  have "answers_ok env st" "names_ok st"
    using reconciler_reachable [OF assms(1-3)] by (simp_all add: reconciler_inv_def gateway_ok_def)
  from this(1) [unfolded answers_ok_def, rule_format, OF assms(4,5)] this(2) [unfolded names_ok_def, rule_format, OF assms(4,5)]
  show ?thesis using assms(6) by (simp add: model_of_def)
qed

theorem admitted_request_gets_its_model_witness:
  "\<exists>st. reconciler_run demo_reconciler demo_switch demo_start = Some st \<and>
     activeModel LLM (cfg_config (sv_from (rc_supervisor st (pa_supervisor (rc_prepared st LLM 0))))) = ''b''"
proof -
  obtain st where st: "reconciler_run demo_reconciler demo_switch demo_start = Some st"
      "map ar_result (rc_requests st) = [Some (Admitted ''b'' 0)]" "map ar_modality (rc_requests st) = [LLM]"
    using demo_switched by (elim exE conjE) (rule that; assumption)
  then obtain q where q: "rc_requests st = [q]" "ar_result q = Some (Admitted ''b'' 0)" "ar_modality q = LLM" by auto
  have "q \<in> set (rc_requests st)" "\<not> owned_field demo_reconciler (ar_modality q)"
    by (simp_all add: q owned_field_def demo_env)
  from admitted_request_gets_its_model [OF demo_env(5) demo_started, folded demo_start_def, OF st(1) this(1) q(2) this(2)]
  show ?thesis using st(1) q(3) by auto
qed

text \<open>
  C7: a modality whose applied snapshot is the newest one has a supervisor in service exactly when
  that configuration serves it, whatever failures, evictions and switches came before.
\<close>

theorem reconciled_modality_has_backend:
  assumes "inj (re_stringify env)" and "started env s services supervisors n"
    and "reconciler_run env es (new_reconciler env s services supervisors n) = Some st"
    and "cfg_revision (rc_applied st m) = cfg_revision (rc_snapshot st)"
  shows "service st m \<noteq> None \<longleftrightarrow> configuredRuntimeModality m (cfg_config (rc_snapshot st)) (re_ownership env)"
proof -
  have ok: "modality_ok env st m" using reconciler_reachable [OF assms(1-3)] by (simp add: reconciler_inv_def)
  then have "rc_applied st m = rc_snapshot st" using assms(4) older_eq by (simp add: modality_ok_def)
  with ok show ?thesis by (auto simp: modality_ok_def service_ok_def configured_in_def)
qed

theorem reconciled_modality_has_backend_witness:
  "\<exists>st. reconciler_run demo_reconciler demo_switch demo_start = Some st \<and> service st LLM \<noteq> None"
proof -
  obtain st where st: "reconciler_run demo_reconciler demo_switch demo_start = Some st"
      "cfg_revision (rc_applied st LLM) = 1" "cfg_revision (rc_snapshot st) = 1"
      "configuredRuntimeModality LLM (cfg_config (rc_snapshot st)) no_overrides"
    using demo_switched by blast
  with reconciled_modality_has_backend [OF demo_env(5) demo_started, folded demo_start_def, OF st(1), of LLM]
  show ?thesis by (simp add: demo_env)
qed

text \<open>
  C8: while an idle backend is stopped for its memory, while an orphaned generation is stopped, and
  while a replaced or removed backend shuts down, its barrier is closed and holds no admission.
\<close>

definition stopping_point :: "point \<Rightarrow> bool" where
  "stopping_point p \<longleftrightarrow> (case p of
     AtEvictKill k \<Rightarrow> True | AtSafeguardKill s \<Rightarrow> True | AtApplyShutdown b t a \<Rightarrow> True
   | AtSwitchShutdown sw t previous run \<Rightarrow> True | _ \<Rightarrow> False)"

theorem stopping_backend_is_idle:
  assumes "inj (re_stringify env)" and "started env s services supervisors n"
    and "reconciler_run env es (new_reconciler env s services supervisors n) = Some st"
    and "rc_running st m = Some p" and "stopping_point p"
  shows "\<not> b_accepting (rc_barrier st m) \<and> (\<forall>i < b_next (rc_barrier st m). l_released (b_lease (rc_barrier st m) i))"
proof -
  have i: "reconciler_inv env st" by (rule reconciler_reachable [OF assms(1-3)])
  have "shut (rc_barrier st m)"
    using inv_point [OF i assms(4)] assms(5) by (cases p) (simp_all add: stopping_point_def switching_to_def)
  then show ?thesis using shut_no_lease [OF inv_barrier [OF i]] by (auto simp: shut_def open_lease_def)
qed

lemma demo_evicting:
  "\<exists>st. reconciler_run demo_reconciler [EvSupervisorState 0 Running, EvEvictIdle None, EvStart LLM] demo_start = Some st \<and>
     rc_running st LLM = Some (AtEvictKill 0)"
  by (simp add: demo_eval upd_supervisor_def evictIdleRuntimes_def runtimeModalities_def evict_idle_def running_service_def detachIfIdle_def)

theorem stopping_backend_is_idle_witness:
  "\<exists>st. reconciler_run demo_reconciler [EvSupervisorState 0 Running, EvEvictIdle None, EvStart LLM] demo_start = Some st \<and>
     \<not> b_accepting (rc_barrier st LLM)"
proof -
  obtain st where st: "reconciler_run demo_reconciler [EvSupervisorState 0 Running, EvEvictIdle None, EvStart LLM] demo_start = Some st"
      "rc_running st LLM = Some (AtEvictKill 0)"
    using demo_evicting by blast
  with stopping_backend_is_idle [OF demo_env(5) demo_started, folded demo_start_def, OF st(1), of LLM "AtEvictKill 0"]
  show ?thesis by (simp add: stopping_point_def)
qed

lemma schedule_snapshot: "rc_snapshot (fold scheduleModality ms s) = rc_snapshot s"
  by (induction ms arbitrary: s) (simp_all add: scheduleModality_def exclusiveModality_def set_scheduled_def)

lemma refresh_guard:
  assumes "rc_snapshot (reconciler_apply env (EvCoordinate stored) st) \<noteq> rc_snapshot st"
  shows "changedFields (re_localeCompare env) (rc_snapshot st) (rc_snapshot (reconciler_apply env (EvCoordinate stored) st))
    restartRequiredFields (ov_configFields (re_ownership env)) = []"
proof -
  obtain config target plan where c: "controller_replace env config (rc_controller st) = Some target"
      "reconcile_plan env (rc_snapshot st) target = Inr plan" "rp_restartAction plan \<noteq> RestartNeeded"
      "rc_snapshot (reconciler_apply env (EvCoordinate stored) st) = target"
    using assms by (auto simp: coordinate_def scheduleReconciliation_def schedule_snapshot set_snapshot_def split: if_splits option.splits sum.splits)
  have o': "ownedFields (re_ownership env) = Inr os \<Longrightarrow> os = ov_configFields (re_ownership env)" for os
    by (simp add: ownedFields_def split: option.splits)
  show ?thesis
    using c(2,3) unfolding c(4)
    by (auto simp: reconcile_plan_def createRuntimeReconciliationPlan_def Let_def split: option.splits sum.splits if_splits dest!: o')
qed

text \<open>
  a refresh never adopts a configuration that needs a restart: when it changes the snapshot, no
  restart-required field that is not overridden differs between the old and the new one.
\<close>

theorem refresh_never_needs_restart:
  assumes "rc_snapshot (reconciler_apply env (EvCoordinate stored) st) \<noteq> rc_snapshot st"
  shows "changedFields (re_localeCompare env) (rc_snapshot st) (rc_snapshot (reconciler_apply env (EvCoordinate stored) st))
    restartRequiredFields (ov_configFields (re_ownership env)) = []"
  using assms by (rule refresh_guard)

lemma demo_dirs: "assertRootDerivedDirectories (\<lambda>_ _. JArr []) \<lparr>cfg_revision = n, cfg_config = demo_settings l v\<rparr> rootDerivedDirectoryFields = None"
  by (simp add: rootDerivedDirectoryFields_def demo_settings_def)

lemma demo_changed:
  "changedFields (\<lambda>_ _. 0) \<lparr>cfg_revision = n, cfg_config = demo_settings l v\<rparr> \<lparr>cfg_revision = k, cfg_config = demo_settings l' v'\<rparr>
    restartRequiredFields [] = []"
  by (simp add: changedFields_def filter_empty_conv restartRequiredFields_def effectiveValue_def demo_settings_def backendHostFields_def)
    (subst valuesEqual.simps; simp)+

lemma demo_plan:
  "\<exists>p. reconcile_plan demo_reconciler \<lparr>cfg_revision = n, cfg_config = demo_settings l v\<rparr>
      \<lparr>cfg_revision = k, cfg_config = demo_settings l' v'\<rparr> = Inr p \<and> rp_restartAction p = RestartUnchanged"
proof -
  have "find (\<lambda>f. False) fs = None" for fs :: "config_field list" by (induction fs) simp_all
  then show ?thesis
    by (simp add: reconcile_plan_def demo_reconciler_def createRuntimeReconciliationPlan_def demo_dirs ownedFields_def no_overrides_def
        demo_changed Let_def)
qed

theorem refresh_never_needs_restart_witness:
  "changedFields (\<lambda>_ _. 0) \<lparr>cfg_revision = 0, cfg_config = demo_settings ''a'' False\<rparr>
     \<lparr>cfg_revision = 1, cfg_config = demo_settings ''b'' False\<rparr> restartRequiredFields [] = [] \<and>
   rc_snapshot (reconciler_apply demo_reconciler (EvCoordinate (Some (demo_settings ''b'' False))) demo_start) =
     \<lparr>cfg_revision = 1, cfg_config = demo_settings ''b'' False\<rparr>"
proof -
  obtain p where "reconcile_plan demo_reconciler \<lparr>cfg_revision = 0, cfg_config = demo_settings ''a'' False\<rparr>
      \<lparr>cfg_revision = 1, cfg_config = demo_settings ''b'' False\<rparr> = Inr p" "rp_restartAction p = RestartUnchanged"
    using demo_plan by blast
  then have e: "rc_snapshot (reconciler_apply demo_reconciler (EvCoordinate (Some (demo_settings ''b'' False))) demo_start) =
      \<lparr>cfg_revision = 1, cfg_config = demo_settings ''b'' False\<rparr>"
    by (simp add: demo_start_def new_reconciler_def coordinate_def demo_replace [where m = LLM] demo_root scheduleReconciliation_def schedule_snapshot
        set_snapshot_def)
  have d: "rc_snapshot demo_start = \<lparr>cfg_revision = 0, cfg_config = demo_settings ''a'' False\<rparr>"
    by (simp add: demo_start_def new_reconciler_def)
  have "re_localeCompare demo_reconciler = (\<lambda>_ _. 0)" by (simp add: demo_reconciler_def)
  with refresh_never_needs_restart [of demo_reconciler "Some (demo_settings ''b'' False)" demo_start] e d
  show ?thesis by (simp add: demo_env)
qed

text \<open>
  C9: a switch does adopt one.  When the update of a switch stores a configuration whose restart-required
  fields, not overridden, differ from the gateway's snapshot, the switch publishes it as the snapshot and
  goes on with it, from any state; a refresh that reads the same configuration in the same situation leaves
  the snapshot as it is.
\<close>

theorem switch_adopts_restart_fields:
  assumes "rc_running st m = Some (AtSwitchUpdate sw)" and "rc_exclusive st = Some m"
    and "\<not> ar_cancelled (request st (sw_request sw))" and "sw_modelId sw \<in> set (selectedModels m config)"
    and "controller_replace env (with_model m (sw_modelId sw) config) (rc_controller st) = Some target"
    and "changedFields (re_localeCompare env) (rc_snapshot st) target restartRequiredFields (ov_configFields (re_ownership env)) \<noteq> []"
    and "rc_exclusive idle = None" and "rc_snapshot idle = rc_snapshot st" and "rc_controller idle = rc_controller st"
  shows "rc_snapshot (reconciler_apply env (EvUpdated m (Some config)) st) = target \<and>
    (\<exists>previous run. rc_running (reconciler_apply env (EvUpdated m (Some config)) st) m = Some (AtSwitchShutdown sw target previous run)) \<and>
    rc_snapshot (reconciler_apply env (EvCoordinate (Some (with_model m (sw_modelId sw) config))) idle) = rc_snapshot idle"
proof -
  let ?st = "set_snapshot env target (st\<lparr>rc_exclusive := None, rc_controller := target\<rparr>)"
  let ?up = "reconciler_apply env (EvUpdated m (Some config)) st"
  have "\<not> ar_cancelled (request ?st (sw_request sw))" using assms(3) by (simp add: request_def set_snapshot_def)
  then have up: "rc_snapshot ?up = target" "\<exists>previous run. rc_running ?up m = Some (AtSwitchShutdown sw target previous run)"
    using assms(1,2,4,5)
    by (auto simp: update_settles_def switch_updated_def Let_def case_prod_beta set_snapshot_def call_supervisor_def suspend_def split: option.split)
  let ?re = "reconciler_apply env (EvCoordinate (Some (with_model m (sw_modelId sw) config))) idle"
  have "rc_snapshot ?re = rc_snapshot idle"
  proof (rule ccontr)
    assume c: "rc_snapshot ?re \<noteq> rc_snapshot idle"
    then have "rc_snapshot ?re = target"
      using assms(5,7,9)
      by (auto simp: coordinate_def scheduleReconciliation_def schedule_snapshot set_snapshot_def split: if_splits sum.splits)
    then show False using refresh_guard [OF c] assms(6,8) by simp
  qed
  with up show ?thesis by blast
qed

text \<open>The \<open>memory\<close> section changes while a request switches the model.\<close>

definition demo_memory_change :: config where
  "demo_memory_change = (demo_settings ''a'' False)(F_memory := JBool True)"

lemma demo_memory_changed:
  "changedFields (\<lambda>_ _. 0) \<lparr>cfg_revision = n, cfg_config = demo_settings ''a'' False\<rparr>
    \<lparr>cfg_revision = k, cfg_config = with_model LLM ''b'' demo_memory_change\<rparr> restartRequiredFields [] \<noteq> []"
proof -
  have "\<not> valuesEqual (\<lambda>_ _. 0) (JArr []) (JBool True)" by (subst valuesEqual.simps) simp
  then have "F_memory \<in> set (changedFields (\<lambda>_ _. 0) \<lparr>cfg_revision = n, cfg_config = demo_settings ''a'' False\<rparr>
      \<lparr>cfg_revision = k, cfg_config = with_model LLM ''b'' demo_memory_change\<rparr> restartRequiredFields [])"
    by (simp add: changedFields_def restartRequiredFields_def effectiveValue_def with_model_def demo_memory_change_def demo_settings_def)
  then show ?thesis by (metis empty_iff empty_set)
qed

theorem switch_adopts_restart_fields_witness:
  "\<exists>st. reconciler_run demo_reconciler [EvDispatch LLM ''b'', EvStart LLM, EvDrained LLM, EvExclusive LLM] demo_start = Some st \<and>
     cfg_config (rc_snapshot (reconciler_apply demo_reconciler (EvUpdated LLM (Some demo_memory_change)) st)) F_memory = JBool True"
proof -
  have m: "selectedModels LLM demo_memory_change = [''a'', ''b'']" "demo_memory_change F_root = JStr ''r''"
    "with_model LLM ''b'' demo_memory_change F_memory = JBool True" "activeModel LLM (with_model LLM ''b'' demo_memory_change) = ''b''"
    by (simp_all add: selectedModels_def demo_memory_change_def demo_settings_def with_model_def activeModel_def)
  obtain st sw where st: "reconciler_run demo_reconciler [EvDispatch LLM ''b'', EvStart LLM, EvDrained LLM, EvExclusive LLM] demo_start = Some st"
      "rc_running st LLM = Some (AtSwitchUpdate sw)" "rc_exclusive st = Some LLM" "\<not> ar_cancelled (request st (sw_request sw))"
      "sw_modelId sw = ''b''" "rc_snapshot st = \<lparr>cfg_revision = 0, cfg_config = demo_settings ''a'' False\<rparr>"
      "rc_controller st = \<lparr>cfg_revision = 0, cfg_config = demo_settings ''a'' False\<rparr>"
    by (simp add: demo_eval)
  have t: "controller_replace demo_reconciler (with_model LLM (sw_modelId sw) demo_memory_change) (rc_controller st) =
      Some \<lparr>cfg_revision = 1, cfg_config = with_model LLM ''b'' demo_memory_change\<rparr>"
    using demo_replace [of "with_model LLM ''b'' demo_memory_change" LLM "rc_controller st"] m st(5,7) by (simp add: demo_root)
  have c: "changedFields (re_localeCompare demo_reconciler) (rc_snapshot st) \<lparr>cfg_revision = 1, cfg_config = with_model LLM ''b'' demo_memory_change\<rparr>
      restartRequiredFields (ov_configFields (re_ownership demo_reconciler)) \<noteq> []"
    using demo_memory_changed [of 0 1] st(6) by (simp add: demo_env) (simp add: demo_reconciler_def)
  have "sw_modelId sw \<in> set (selectedModels LLM demo_memory_change)" using st(5) m(1) by simp
  from switch_adopts_restart_fields [OF st(2-4) this t c, of "st\<lparr>rc_exclusive := None\<rparr>"] st(1) m(3) show ?thesis by auto
qed

definition demo_video_start :: reconciler where
  "demo_video_start = new_reconciler demo_reconciler \<lparr>cfg_revision = 0, cfg_config = demo_settings ''a'' True\<rparr>
     (\<lambda>m. if m = LLM then Some 0 else if m = Video then Some 1 else None)
     (\<lambda>_. \<lparr>sv_kind = ServerKind, sv_from = \<lparr>cfg_revision = 0, cfg_config = demo_settings ''a'' True\<rparr>, sv_state = Idle,
        sv_retains = False, sv_reportsSlots = True, sv_preflight = True\<rparr>) 2"

definition demo_detour :: "reconciler_event list" where
  "demo_detour =
    [EvDispatch Video ''w'', EvStart Video, EvPreflight Video PreflightFits, EvDrained Video, EvExclusive Video,
     EvUpdated Video (Some (demo_settings ''a'' True)),
     EvCoordinate (Some (with_model Video ''w'' (demo_settings ''a'' False))),
     EvStopped Video True, EvPreflight Video PreflightFits,
     EvCoordinate (Some (with_model Video ''w'' (demo_settings ''a'' True))),
     EvPreflight Video PreflightFits, EvStart Video, EvLoop Video]"

lemma demo_reconfigured:
  assumes "c F_root = JStr ''r''" "configuredRuntimeModality Video c no_overrides \<noteq> configuredRuntimeModality Video (cfg_config s) no_overrides"
  shows "controller_replace demo_reconciler c s = Some \<lparr>cfg_revision = cfg_revision s + 1, cfg_config = c\<rparr>"
  using assms same_fingerprint_models(2) [OF demo_stringify_inj, of "\<lambda>_ _. 0" "cfg_config s" c]
  by (auto simp: controller_replace_def replace_config_def demo_reconciler_def)

lemma same_fields: "(\<And>f. f \<in> set fs \<Longrightarrow> cfg_config s f = cfg_config t f) \<Longrightarrow> changedFields lc s t fs os = []"
  by (auto simp: changedFields_def filter_empty_conv effectiveValue_def intro: normalized_valuesEqual [OF refl] split: json.split)

lemma demo_video_plan:
  assumes "i = ''w''"
  shows "\<exists>p. reconcile_plan demo_reconciler \<lparr>cfg_revision = n, cfg_config = with_model Video i (demo_settings l v)\<rparr>
      \<lparr>cfg_revision = k, cfg_config = with_model Video i (demo_settings l v')\<rparr> = Inr p \<and> rp_restartAction p = RestartUnchanged \<and>
    rp_modalities p = map (\<lambda>m. (m, modalityPlan (\<lambda>_ _. 0) m \<lparr>cfg_revision = n, cfg_config = with_model Video i (demo_settings l v)\<rparr>
      \<lparr>cfg_revision = k, cfg_config = with_model Video i (demo_settings l v')\<rparr> no_overrides [])) runtimeModalities"
proof -
  have d: "assertRootDerivedDirectories (\<lambda>_ _. JArr []) \<lparr>cfg_revision = n, cfg_config = with_model Video i (demo_settings l v)\<rparr>
      rootDerivedDirectoryFields = None" for n v
    by (simp add: rootDerivedDirectoryFields_def demo_settings_def with_model_def)
  have c: "changedFields (\<lambda>_ _. 0) \<lparr>cfg_revision = n, cfg_config = with_model Video i (demo_settings l v)\<rparr>
      \<lparr>cfg_revision = k, cfg_config = with_model Video i (demo_settings l v')\<rparr> restartRequiredFields [] = []"
    by (rule same_fields) (auto simp: restartRequiredFields_def with_model_def demo_settings_def)
  have "find (\<lambda>f. False) fs = None" for fs :: "config_field list" by (induction fs) simp_all
  then show ?thesis
    by (simp add: reconcile_plan_def demo_reconciler_def createRuntimeReconciliationPlan_def d ownedFields_def no_overrides_def c Let_def)
qed

lemma demo_video_unchanged:
  "plan_action demo_reconciler Video \<lparr>cfg_revision = n, cfg_config = with_model Video ''w'' (demo_settings l True)\<rparr>
    \<lparr>cfg_revision = k, cfg_config = with_model Video ''w'' (demo_settings l True)\<rparr> = Some Unchanged"
proof -
  obtain p where p: "reconcile_plan demo_reconciler \<lparr>cfg_revision = n, cfg_config = with_model Video ''w'' (demo_settings l True)\<rparr>
      \<lparr>cfg_revision = k, cfg_config = with_model Video ''w'' (demo_settings l True)\<rparr> = Inr p"
    "rp_modalities p = map (\<lambda>m. (m, modalityPlan (\<lambda>_ _. 0) m \<lparr>cfg_revision = n, cfg_config = with_model Video ''w'' (demo_settings l True)\<rparr>
      \<lparr>cfg_revision = k, cfg_config = with_model Video ''w'' (demo_settings l True)\<rparr> no_overrides [])) runtimeModalities"
    using demo_video_plan [OF refl] by metis
  have "changedFields (\<lambda>_ _. 0) \<lparr>cfg_revision = n, cfg_config = with_model Video ''w'' (demo_settings l True)\<rparr>
      \<lparr>cfg_revision = k, cfg_config = with_model Video ''w'' (demo_settings l True)\<rparr> (modalityLaunchFields Video) [] = []"
    by (rule same_fields) simp
  then show ?thesis by (simp add: plan_action_def p runtimeModalities_def modalityPlan_def Let_def)
qed

lemmas demo_refresh = coordinate_def scheduleReconciliation_def scheduleModality_def set_scheduled_def runtimeModalities_def
  reconcile_turn_def reconcileModality_def reconcile_again_def running_service_def settle_probe_def settle_preflighted_def
  start_preflighted_def take_service_def demo_video_unchanged

text \<open>
  A modality that is shut out: configured, reconciled and with a supervisor, no work of it under way or
  waiting, and its barrier closed.  The events that knock at it: requests for it, or for the model it
  serves, their work, preflights, aborts and timeouts, and refreshes that find nothing changed.
\<close>

definition shut_out :: "reconciler_env \<Rightarrow> runtime_modality \<Rightarrow> reconciler \<Rightarrow> bool" where
  "shut_out env m st \<longleftrightarrow>
     configuredRuntimeModality m (cfg_config (rc_snapshot st)) (re_ownership env) \<and>
     cfg_revision (rc_applied st m) = cfg_revision (rc_snapshot st) \<and> rc_snapshot st = rc_controller st \<and>
     service st m \<noteq> None \<and> rc_running st m = None \<and> rc_waiting st m = [] \<and> \<not> b_accepting (rc_barrier st m)"

fun knocks :: "reconciler_env \<Rightarrow> runtime_modality \<Rightarrow> reconciler \<Rightarrow> reconciler_event \<Rightarrow> bool" where
  "knocks env m st (EvDispatch m' modelId) \<longleftrightarrow> m' = m \<and> modelId = applied_model st m"
| "knocks env m st (EvAdmit m') \<longleftrightarrow> m' = m"
| "knocks env m st (EvStart m') \<longleftrightarrow> m' = m"
| "knocks env m st (EvPreflight m' outcome) \<longleftrightarrow> m' = m"
| "knocks env m st (EvCoordinate stored) \<longleftrightarrow>
     (case stored of None \<Rightarrow> True
      | Some config \<Rightarrow> controller_replace env config (rc_controller st) \<in> {None, Some (rc_controller st)})"
| "knocks env m st (EvAbort r) \<longleftrightarrow> True"
| "knocks env m st (EvTimeout r) \<longleftrightarrow> True"
| "knocks env m st (EvClock t) \<longleftrightarrow> True"
| "knocks env m st _ \<longleftrightarrow> False"

text \<open>What they keep, of a state \<open>s0\<close> from which they begin.\<close>

definition refused :: "admission_result option \<Rightarrow> bool" where
  "refused res \<longleftrightarrow> (case res of Some (Admitted i l) \<Rightarrow> False | Some (AdmittedConfigured l) \<Rightarrow> False | _ \<Rightarrow> True)"

definition newcomer :: "runtime_modality \<Rightarrow> reconciler \<Rightarrow> admission_request list \<Rightarrow> nat \<Rightarrow> bool" where
  "newcomer m s0 qs r \<longleftrightarrow>
     length (rc_requests s0) \<le> r \<and> r < length qs \<and> ar_modality (qs ! r) = m \<and>
     (\<forall>i. ar_modelId (qs ! r) = Some i \<longrightarrow> i = applied_model s0 m)"

definition kept_out :: "runtime_modality \<Rightarrow> reconciler \<Rightarrow> reconciler \<Rightarrow> bool" where
  "kept_out m s0 st \<longleftrightarrow>
     rc_snapshot st = rc_snapshot s0 \<and> rc_controller st = rc_controller s0 \<and> rc_applied st m = rc_applied s0 m \<and>
     service st m = service s0 m \<and> \<not> b_accepting (rc_barrier st m) \<and> length (rc_requests s0) \<le> length (rc_requests st) \<and>
     (\<forall>p. rc_running st m = Some p \<longrightarrow> (\<exists>r i snap. p = AtStartPreflight r i snap \<and> newcomer m s0 (rc_requests st) r)) \<and>
     (\<forall>t \<in> set (rc_waiting st m). \<exists>r. t = TAdmission r \<and> newcomer m s0 (rc_requests st) r) \<and>
     (\<forall>r. length (rc_requests s0) \<le> r \<and> r < length (rc_requests st) \<longrightarrow> refused (ar_result (rc_requests st ! r)))"

lemma refused_simps [simp]:
  "refused None" "refused (Some (Threw e))" "refused (Some UnavailableResult)" "refused (Some NotConfigured)"
  "refused (Some ModelNotFound)" "refused (Some (InsufficientMemory x))"
  by (simp_all add: refused_def)

text \<open>Settling a request with a refusal, and changes of a request's flags.\<close>

lemma kept_out_request:
  assumes "kept_out m s0 st" and "\<And>q. ar_modality (f q) = ar_modality q \<and> ar_modelId (f q) = ar_modelId q \<and>
      (refused (ar_result q) \<longrightarrow> refused (ar_result (f q)))"
  shows "kept_out m s0 (upd_request r f st)"
proof -
  let ?qs = "(rc_requests st)[r := f (rc_requests st ! r)]"
  have "newcomer m s0 ?qs q = newcomer m s0 (rc_requests st) q" for q
    using assms(2) [of "rc_requests st ! q"] by (cases "r = q") (auto simp: newcomer_def)
  moreover have "refused (ar_result (?qs ! q))" if "refused (ar_result (rc_requests st ! q))" "q < length (rc_requests st)" for q
    using assms(2) [of "rc_requests st ! q"] that by (cases "r = q") auto
  ultimately show ?thesis using assms(1) by (simp add: kept_out_def upd_request_def service_def)
qed

lemma kept_out_ends:
  assumes "kept_out m s0 st" and "refused (Some res)"
  shows "kept_out m s0 (settle_request m' r res st)"
proof -
  have "kept_out m s0 (upd_request r (\<lambda>q. q\<lparr>ar_result := Some res\<rparr>) st)"
    using assms by (intro kept_out_request) simp_all
  moreover have "kept_out m s0 (end_work m' s)" if "kept_out m s0 s" for s
    using that by (simp add: kept_out_def end_work_def service_def)
  ultimately show ?thesis by (simp add: settle_request_def)
qed

lemma kept_out_preflight: "kept_out m s0 (set_preflight m' b st) = kept_out m s0 st"
  by (simp add: kept_out_def set_preflight_def service_def)

lemma no_lease_behind: "\<not> b_accepting (rc_barrier st m) \<Longrightarrow> fst (acquire_admission env m snap st) = None \<and> snd (acquire_admission env m snap st) = st"
  by (simp add: acquire_admission_def acquire_lease_def split: option.split)

lemma kept_out_grant:
  assumes "kept_out m s0 st"
  shows "kept_out m s0 (grant_admission env m r i snap st)"
proof -
  have "acquire_admission env m snap st = (None, st)"
    using no_lease_behind [of st m env snap] assms by (simp add: kept_out_def prod_eq_iff)
  then show ?thesis using kept_out_ends [OF assms] by (simp add: grant_admission_def split: option.split)
qed

lemma kept_out_activation:
  assumes "kept_out m s0 st" and "newcomer m s0 (rc_requests st) r"
  shows "kept_out m s0 (after_activation env m r i snap st)"
proof (cases "request_error st r")
  case (Some e)
  then show ?thesis using kept_out_ends [OF assms(1)] by (simp add: after_activation_def)
next
  case None
  have "kept_out m s0 (suspend m (AtStartPreflight r i snap) (set_preflight m True st))"
    using assms by (simp add: kept_out_def suspend_def set_preflight_def service_def)
  moreover have "kept_out m s0 (settle_request m r (Threw OtherError) st)" using kept_out_ends [OF assms(1)] by simp
  ultimately show ?thesis
    using kept_out_grant [OF assms(1)] None unfolding after_activation_def by (simp only: option.case split: if_split option.split) blast
qed

lemma kept_out_coordinated:
  assumes k: "kept_out m s0 st" and "newcomer m s0 (rc_requests st) r" and "ar_modelId (request st r) = Some i"
  shows "kept_out m s0 (coordinateAdmission env m r i st)"
proof -
  let ?s = "upd_request r (\<lambda>q. q\<lparr>ar_started := True\<rparr>) st"
  have s: "kept_out m s0 ?s" using k by (rule kept_out_request) simp
  have n: "newcomer m s0 (rc_requests ?s) r" using assms(2) by (auto simp: newcomer_def upd_request_def)
  have i: "i = applied_model ?s m"
    using assms(2,3) k by (auto simp: newcomer_def applied_model_def kept_out_def upd_request_def request_def)
  have "resolveRequestedModel m (Some i) c = Some j \<Longrightarrow> j = i" for c j
    by (auto simp: resolveRequestedModel_def split: if_splits dest!: find_Some_in)
  then show ?thesis
    using kept_out_ends [OF k] kept_out_ends [OF s] kept_out_activation [OF s n] i
    by (auto simp: coordinateAdmission_def Let_def split: option.splits)
qed

lemma kept_out_configured:
  assumes "kept_out m s0 st"
  shows "kept_out m s0 (admit_configured env m r st)"
proof -
  have "acquire_admission env m (rc_applied st m) st = (None, st)"
    using no_lease_behind [of st m env] assms by (simp add: kept_out_def prod_eq_iff)
  then show ?thesis using kept_out_ends [OF assms] by (simp add: admit_configured_def)
qed

lemma kept_out_next:
  assumes "kept_out m s0 st"
  shows "kept_out m s0 (next_work env m st)"
proof (cases "rc_running st m = None \<and> rc_waiting st m \<noteq> []")
  case True
  then obtain t ts where w: "rc_waiting st m = t # ts" by (cases "rc_waiting st m") auto
  let ?s = "st\<lparr>rc_waiting := (rc_waiting st)(m := ts)\<rparr>"
  obtain r where r: "t = TAdmission r" "newcomer m s0 (rc_requests st) r" using assms w by (auto simp: kept_out_def)
  have s: "kept_out m s0 ?s" using assms w by (simp add: kept_out_def service_def)
  have n: "newcomer m s0 (rc_requests ?s) r" using r(2) by simp
  have "next_work env m st = start_work env m t ?s" using True w by (simp add: next_work_def)
  then show ?thesis
    using kept_out_configured [OF s] kept_out_coordinated [OF s n] r(1) by (simp add: start_work_def split: option.split)
next
  case False
  then have "next_work env m st = st" by (auto simp: next_work_def split: option.split list.split)
  then show ?thesis using assms by simp
qed

lemma kept_out_preflighted:
  assumes "kept_out m s0 st"
  shows "kept_out m s0 (preflight_settles env m outcome st)"
proof (cases "rc_running st m")
  case (Some p)
  then obtain r i snap where "p = AtStartPreflight r i snap" using assms by (auto simp: kept_out_def)
  moreover have "kept_out m s0 (start_preflighted env m r i snap outcome st)"
    using kept_out_ends [of m s0 "set_preflight m False st"] kept_out_grant [of m s0 "set_preflight m False st"] assms
    by (auto simp: start_preflighted_def Let_def kept_out_preflight split: preflight_outcome.split option.split)
  ultimately show ?thesis using Some by (simp add: preflight_settles_def)
qed (use assms in \<open>simp add: preflight_settles_def\<close>)

lemma kept_out_requested:
  assumes "kept_out m s0 st" and "i = None \<or> i = Some (applied_model s0 m)"
  shows "kept_out m s0 (new_request m i st)"
proof -
  let ?q = "\<lparr>ar_modality = m, ar_modelId = i, ar_aborted = False, ar_started = False, ar_cancelled = False, ar_result = None\<rparr>"
  let ?qs = "rc_requests st @ [?q]"
  have n: "newcomer m s0 ?qs q" if "newcomer m s0 (rc_requests st) q" for q
    using that by (auto simp: newcomer_def nth_append)
  have new: "newcomer m s0 ?qs (length (rc_requests st))" using assms by (auto simp: newcomer_def kept_out_def)
  have "refused (ar_result (?qs ! q))" if "length (rc_requests s0) \<le> q" "q < Suc (length (rc_requests st))" for q
    using assms(1) that by (cases "q < length (rc_requests st)") (auto simp: kept_out_def nth_append less_Suc_eq)
  then show ?thesis
    using assms(1) n new by (fastforce simp: kept_out_def new_request_def exclusiveModality_def service_def)
qed

lemma kept_out_elsewhere:
  assumes "kept_out m s0 st" and "m' \<noteq> m"
  shows "kept_out m s0 (suspend m' p st)"
  using assms by (simp add: kept_out_def suspend_def service_def)

lemma kept_out_aborted:
  assumes "kept_out m s0 st"
  shows "kept_out m s0 (abort_request r st)"
proof (cases "r \<ge> length (rc_requests st) \<or> ar_result (request st r) \<noteq> None")
  case False
  define s where "s = upd_request r (\<lambda>q. q\<lparr>ar_aborted := True, ar_cancelled := True\<rparr>) st"
  have s: "kept_out m s0 s" unfolding s_def using assms by (rule kept_out_request) simp
  define m' where "m' = ar_modality (request st r)"
  have ends: "kept_out m s0 (settle_request m' r' (Threw RequestAborted) s)" for r' using kept_out_ends [OF s] by simp
  have ends': "kept_out m s0 (settle_request m' r' (Threw RequestAborted) (set_preflight m' False s))" for r'
    using kept_out_ends [of m s0 "set_preflight m' False s"] s by (simp add: kept_out_preflight)
  have sw: "kept_out m s0 (set_pending m' None x)" if "kept_out m s0 x" for x
    using that by (simp add: kept_out_def set_pending_def service_def)
  have sw': "kept_out m s0 (switch_ends m' w (Threw RequestAborted) x)" if "kept_out m s0 x" for x w
    using kept_out_ends [OF sw [OF that]] by (simp add: switch_ends_def)
  have drain: "kept_out m s0 (suspend m' p s)" if "rc_running s m' = Some (AtSwitchDrain k w)" for p k w
  proof (cases "m' = m")
    case True
    then show ?thesis using that s by (auto simp: kept_out_def)
  qed (rule kept_out_elsewhere [OF s])
  have "abort_request r st = (case rc_running s m' of
              Some (AtSwitchPreflight sw) \<Rightarrow>
                if sw_request sw = r then switch_ends m' sw (Threw RequestAborted) (set_preflight m' False s) else s
            | Some (AtSwitchDrain p sw) \<Rightarrow> if sw_request sw = r then suspend m' (AtAbortedDrain p sw) s else s
            | Some (AtSettlePreflight sw target previous wasRunning deadline) \<Rightarrow>
                if sw_request sw = r then switch_ends m' sw (Threw RequestAborted) s else s
            | Some (AtSettleTimer sw target previous wasRunning deadline) \<Rightarrow>
                if sw_request sw = r then switch_ends m' sw (Threw RequestAborted) s else s
            | Some (AtStartPreflight r' modelId snap) \<Rightarrow>
                if r' = r then settle_request m' r (Threw RequestAborted) (set_preflight m' False s) else s
            | _ \<Rightarrow> s)"
    unfolding abort_request_def Let_def s_def m'_def if_not_P [OF False] by (rule refl)
  then show ?thesis
    using s ends ends' sw' drain kept_out_preflight [of m s0 m' False s]
    by (cases "rc_running s m'") (simp, rename_tac p, case_tac p, simp_all)
qed (use assms in \<open>auto simp: abort_request_def\<close>)

lemma kept_out_scheduled:
  assumes "kept_out m s0 st" and "cfg_revision (rc_applied s0 m) = cfg_revision (rc_snapshot s0)"
  shows "kept_out m s0 (fold scheduleModality ms st)"
  using assms(1)
proof (induction ms arbitrary: st)
  case (Cons m' ms)
  have "scheduleModality m st = st" using Cons.prems assms(2) by (simp add: scheduleModality_def kept_out_def)
  moreover have "kept_out m s0 (scheduleModality m' st)" if "m' \<noteq> m"
    using Cons.prems that by (simp add: kept_out_def scheduleModality_def set_scheduled_def exclusiveModality_def service_def)
  ultimately have "kept_out m s0 (scheduleModality m' st)" using Cons.prems by (cases "m' = m") simp_all
  from Cons.IH [OF this] show ?case by simp
qed simp

lemma kept_out_refreshed:
  assumes "kept_out m s0 st" and "shut_out env m s0" and "knocks env m s0 (EvCoordinate stored)"
  shows "kept_out m s0 (coordinate env stored st)"
proof -
  have c: "rc_controller st = rc_controller s0" "rc_snapshot st = rc_controller s0"
    using assms(1,2) by (simp_all add: kept_out_def shut_out_def)
  have "kept_out m s0 (st\<lparr>rc_controller := rc_controller s0\<rparr>)" using assms(1) by (simp add: kept_out_def service_def)
  then have "kept_out m s0 (fold scheduleModality runtimeModalities (st\<lparr>rc_controller := rc_controller s0\<rparr>))"
    using assms(2) by (intro kept_out_scheduled) (simp_all add: shut_out_def)
  then show ?thesis
    using assms(1,3) c by (auto simp: coordinate_def scheduleReconciliation_def split: option.splits)
qed

lemma kept_out_event:
  assumes "kept_out m s0 st" and "shut_out env m s0" and "knocks env m s0 ev"
  shows "kept_out m s0 (reconciler_apply env ev st)"
proof (cases ev)
  case (EvTimeout r)
  have "kept_out m s0 (upd_request r (\<lambda>q. q\<lparr>ar_cancelled := True\<rparr>) st)" using assms(1) by (rule kept_out_request) simp
  then show ?thesis using EvTimeout assms(1) by simp
next
  case (EvClock t)
  then show ?thesis using assms(1) by (simp add: kept_out_def service_def)
qed (use assms in \<open>auto intro: kept_out_requested kept_out_aborted kept_out_next kept_out_preflighted kept_out_refreshed
  simp del: knocks.simps(5) simp: assms\<close>)

text \<open>
  C10: a modality can be left configured, reconciled and with a supervisor, but behind a closed barrier with
  no work that would open it, and then it stays shut: whatever sequence of requests for it or for the model
  it serves, of their work, preflights, aborts and timeouts and of refreshes that fail or find nothing
  changed follows, its barrier is closed and none of those requests was admitted.  Such a state is reached,
  as the example shows, when a refresh removes video from the configuration while a video switch shuts the
  old backend down, so that the switch reattaches nothing, and another one restores it while the switch
  waits for the start preflight: the reconciliation that follows finds nothing to do.
\<close>

theorem reconfigured_modality_stays_shut:
  assumes "shut_out env m st" and "\<forall>ev \<in> set es. knocks env m st ev"
  shows "\<exists>st'. reconciler_run env es st = Some st' \<and>
    configuredRuntimeModality m (cfg_config (rc_snapshot st')) (re_ownership env) \<and>
    cfg_revision (rc_applied st' m) = cfg_revision (rc_snapshot st') \<and> service st' m \<noteq> None \<and>
    \<not> b_accepting (rc_barrier st' m) \<and>
    (\<forall>r i l. length (rc_requests st) \<le> r \<and> r < length (rc_requests st') \<longrightarrow>
      ar_result (request st' r) \<noteq> Some (Admitted i l) \<and> ar_result (request st' r) \<noteq> Some (AdmittedConfigured l))"
proof -
  have "kept_out m st s \<Longrightarrow> \<exists>s'. reconciler_run env es s = Some s' \<and> kept_out m st s'" for s
    using assms(2)
  proof (induction es arbitrary: s)
    case (Cons ev es)
    then have "kept_out m st (reconciler_apply env ev s)" using kept_out_event [OF _ assms(1)] by simp
    from Cons.IH [OF this] Cons.prems(2) show ?case by (simp add: reconciler_step_def)
  qed simp
  moreover have "kept_out m st st" using assms(1) by (auto simp: shut_out_def kept_out_def)
  ultimately obtain s' where s': "reconciler_run env es st = Some s'" "kept_out m st s'" by blast
  moreover have "ar_result (request s' r) \<noteq> Some (Admitted i l) \<and> ar_result (request s' r) \<noteq> Some (AdmittedConfigured l)"
    if "length (rc_requests st) \<le> r" "r < length (rc_requests s')" for r i l
  proof -
    have "refused (ar_result (rc_requests s' ! r))" using s'(2) that by (simp add: kept_out_def)
    then show ?thesis by (auto simp: refused_def request_def)
  qed
  ultimately show ?thesis using assms(1) by (auto simp: kept_out_def shut_out_def)
qed

lemma demo_shut_out:
  "\<exists>st. reconciler_run demo_reconciler demo_detour demo_video_start = Some st \<and> shut_out demo_reconciler Video st \<and>
     length (rc_requests st) = 1"
proof -
  obtain p where p: "reconcile_plan demo_reconciler \<lparr>cfg_revision = Suc 0, cfg_config = with_model Video ''w'' (demo_settings ''a'' True)\<rparr>
      \<lparr>cfg_revision = Suc (Suc 0), cfg_config = with_model Video ''w'' (demo_settings ''a'' False)\<rparr> = Inr p" "rp_restartAction p = RestartUnchanged"
    using demo_video_plan [OF refl] by metis
  obtain q where q: "reconcile_plan demo_reconciler \<lparr>cfg_revision = Suc (Suc 0), cfg_config = with_model Video ''w'' (demo_settings ''a'' False)\<rparr>
      \<lparr>cfg_revision = Suc (Suc (Suc 0)), cfg_config = with_model Video ''w'' (demo_settings ''a'' True)\<rparr> = Inr q" "rp_restartAction q = RestartUnchanged"
    using demo_video_plan [OF refl] by metis
  show ?thesis
    by (simp add: shut_out_def demo_detour_def demo_video_start_def demo_eval demo_refresh p q demo_replace [where m = Video] demo_reconfigured)
qed

theorem reconfigured_modality_stays_shut_witness:
  "\<exists>st st'. reconciler_run demo_reconciler demo_detour demo_video_start = Some st \<and> shut_out demo_reconciler Video st \<and>
     reconciler_run demo_reconciler [EvAdmit Video, EvStart Video, EvCoordinate None] st = Some st' \<and>
     length (rc_requests st') = 2 \<and> \<not> b_accepting (rc_barrier st' Video) \<and>
     (\<forall>l. ar_result (request st' 1) \<noteq> Some (AdmittedConfigured l))"
proof -
  obtain st where st: "reconciler_run demo_reconciler demo_detour demo_video_start = Some st" "shut_out demo_reconciler Video st"
      "length (rc_requests st) = 1"
    using demo_shut_out by blast
  have k: "\<forall>ev \<in> set [EvAdmit Video, EvStart Video, EvCoordinate None]. knocks demo_reconciler Video st ev" by simp
  obtain st' where st': "reconciler_run demo_reconciler [EvAdmit Video, EvStart Video, EvCoordinate None] st = Some st'"
      "\<not> b_accepting (rc_barrier st' Video)"
      "\<And>r i l. 1 \<le> r \<and> r < length (rc_requests st') \<Longrightarrow> ar_result (request st' r) \<noteq> Some (AdmittedConfigured l)"
    using reconfigured_modality_stays_shut [OF st(2) k] st(3) by fastforce

  have "length (rc_requests st') = 2"
    using st'(1) st(2,3) by (auto simp: shut_out_def reconciler_step_def new_request_def exclusiveModality_def next_work_def start_work_def
      request_def nth_append admit_configured_def acquire_admission_def acquire_lease_def settle_request_def end_work_def upd_request_def
      service_def coordinate_def split: option.splits)
  then show ?thesis using st st' by auto
qed

end
