(* ===== verification/Managed_Service.thy ===== *)
theory Managed_Service
  imports Modality Parallel_Slots
begin

text \<open>
  The supervisor of one backend process: \<^verbatim>\<open>src/src/domains/runtime/supervisor.ts\<close>.

  A start attempt, a \<open>kill\<close>, the \<open>shutdown\<close>, a caller of \<open>ensureRunning\<close> and the cleanup of an exited
  process are suspended calls; each keeps the point at which it waits.  An event settles one awaited
  promise and runs that call to its next \<open>await\<close>; an event for a promise that is not awaited changes
  nothing.  The process, its guardian, the launch plan, the health probe and the memory controller are
  reached through their interface, and their answers come with the events.  Of the memory controller
  the model keeps the one entry of this runtime's id: \<open>reserve\<close> throws while there is one, and
  \<open>release\<close> deletes the entry its handle was given for.  Logging and tracing are left out.
\<close>

section \<open>State\<close>

text \<open>
  A process: its exit, the reservation its cleanup releases, whether its stop was expected, and the
  promise kept in \<open>processCleanups\<close>.
\<close>

datatype cleanup = CleanupWaiting | CleanupGuardian nat | CleanupDone bool

record child =
  ch_pid :: int
  ch_exited :: bool
  ch_reservation :: nat
  ch_expected :: bool
  ch_cleanup :: cleanup

datatype startup_error = StartupCancelled | CrashLimitReached | MemoryRejected | StartupFailed

text \<open>
  The waits of \<open>stopCurrentProcess\<close>: a stop, begun by this call or another, or the cleanup of a process
  that has exited.
\<close>

datatype stop_phase =
    NothingToStop
  | Joining nat
  | AwaitingExited nat

datatype attempt_point =
    AtBackoff
  | AtPreflight
  | AtLaunch
  | AtReserve
  | AtSpawn
  | AtHealth
  | AtHealthPoll
  | AtStop stop_phase startup_error
  | Settled "startup_error option"

record attempt =
  at_cancelled :: bool
  at_proc :: "nat option"
  at_reservation :: "nat option"
  at_since :: int
  at_point :: attempt_point

datatype kill_point =
    KillFirst stop_phase "nat option"
  | KillStartup nat
  | KillSecond stop_phase
  | KillDone bool

datatype down_point =
    DownFirst stop_phase "nat option"
  | DownStartup nat
  | DownSecond stop_phase
  | DownGuardians
  | DownDone bool

datatype caller_point =
    CallerStopping nat
  | CallerRestart nat
  | CallerStart nat
  | CallerDone bool

text \<open>What is read of a launch plan.\<close>

record llm_plan =
  lp_ctxSize :: int
  lp_slots :: int
  lp_trainingContext :: "int option"
  lp_geometryContext :: "int option"

record service_plan =
  sp_runtimeId :: string
  sp_llm :: "llm_plan option"

record service_options =
  so_runtimeId :: string
  so_startupTimeoutMs :: "int option"
  so_slotsUrl :: bool

text \<open>
  \<open>mg_stops\<close> are the stop promises, each with its process and its outcome; \<open>mg_held\<close> is the memory controller's entry
  and \<open>mg_resident\<close> whether it has been materialized.
\<close>

record managed =
  mg_children :: "child list"
  mg_proc :: "nat option"
  mg_crashTimes :: "int list"
  mg_isRestarting :: bool
  mg_restart :: "nat option"
  mg_isShuttingDown :: bool
  mg_shutdown :: "down_point option"
  mg_downGuardians :: "(int \<times> nat) list"
  mg_stopping :: "nat option"
  mg_stops :: "(nat \<times> bool option) list"
  mg_guardians :: "(int, nat) js_map"
  mg_nextGuardian :: nat
  mg_startup :: "nat option"
  mg_attempts :: "attempt list"
  mg_state :: lifecycle_state
  mg_reservation :: "nat option"
  mg_resolvedPlan :: "service_plan option"
  mg_held :: "nat option"
  mg_resident :: bool
  mg_nextToken :: nat
  mg_kills :: "kill_point list"
  mg_callers :: "caller_point list"
  mg_fatal :: nat
  mg_now :: int

definition new_service :: managed where
  "new_service =
     \<lparr>mg_children = [], mg_proc = None, mg_crashTimes = [], mg_isRestarting = False, mg_restart = None,
      mg_isShuttingDown = False, mg_shutdown = None, mg_downGuardians = [], mg_stopping = None, mg_stops = [],
      mg_guardians = [], mg_nextGuardian = 0, mg_startup = None, mg_attempts = [], mg_state = Idle,
      mg_reservation = None, mg_resolvedPlan = None, mg_held = None, mg_resident = False, mg_nextToken = 0,
      mg_kills = [], mg_callers = [], mg_fatal = 0, mg_now = 0\<rparr>"

definition HEALTH_TIMEOUT_MS :: "service_options \<Rightarrow> int" where
  "HEALTH_TIMEOUT_MS opts = (case so_startupTimeoutMs opts of Some t \<Rightarrow> t | None \<Rightarrow> 30000)"

section \<open>Updates\<close>

definition child :: "managed \<Rightarrow> nat \<Rightarrow> child" where
  "child st p = mg_children st ! p"

definition attempt :: "managed \<Rightarrow> nat \<Rightarrow> attempt" where
  "attempt st n = mg_attempts st ! n"

definition upd_child :: "nat \<Rightarrow> (child \<Rightarrow> child) \<Rightarrow> managed \<Rightarrow> managed" where
  "upd_child p f st = st\<lparr>mg_children := (mg_children st)[p := f (mg_children st ! p)]\<rparr>"

definition upd_attempt :: "nat \<Rightarrow> (attempt \<Rightarrow> attempt) \<Rightarrow> managed \<Rightarrow> managed" where
  "upd_attempt n f st = st\<lparr>mg_attempts := (mg_attempts st)[n := f (mg_attempts st ! n)]\<rparr>"

definition attempt_waits :: "nat \<Rightarrow> attempt_point \<Rightarrow> managed \<Rightarrow> managed" where
  "attempt_waits n p = upd_attempt n (\<lambda>a. a\<lparr>at_point := p\<rparr>)"

definition exited :: "managed \<Rightarrow> nat \<Rightarrow> bool" where
  "exited st p \<longleftrightarrow> ch_exited (child st p)"

definition failed :: "managed \<Rightarrow> bool" where
  "failed st \<longleftrightarrow> mg_state st = Failed"

definition startupIsActive :: "managed \<Rightarrow> nat \<Rightarrow> bool" where
  "startupIsActive st n \<longleftrightarrow> mg_startup st = Some n \<and> \<not> at_cancelled (attempt st n)"

definition cancelStartup :: "managed \<Rightarrow> managed" where
  "cancelStartup st =
     (case mg_startup st of None \<Rightarrow> st | Some n \<Rightarrow> upd_attempt n (\<lambda>a. a\<lparr>at_cancelled := True\<rparr>) st)"

text \<open>A handle's \<open>release\<close>, and the field when it is the current handle.\<close>

definition releaseReservation :: "nat option \<Rightarrow> managed \<Rightarrow> managed" where
  "releaseReservation r st =
     (case r of
        None \<Rightarrow> st
      | Some t \<Rightarrow>
          let st1 = (if mg_held st = Some t then st\<lparr>mg_held := None, mg_resident := False\<rparr> else st)
          in if mg_reservation st1 = Some t then st1\<lparr>mg_reservation := None\<rparr> else st1)"

section \<open>Stopping the current process\<close>

definition stopCurrentProcess :: "managed \<Rightarrow> stop_phase \<times> managed" where
  "stopCurrentProcess st =
     (case mg_stopping st of
        Some k \<Rightarrow> (Joining k, st)
      | None \<Rightarrow>
          (case mg_proc st of
             None \<Rightarrow> (NothingToStop, st)
           | Some p \<Rightarrow>
               let st1 = upd_child p (\<lambda>c. c\<lparr>ch_expected := True\<rparr>) st in
               if exited st p then (AwaitingExited p, st1)
               else (Joining (length (mg_stops st)),
                     st1\<lparr>mg_state := Stopping, mg_resolvedPlan := None,
                         mg_stopping := Some (length (mg_stops st)), mg_stops := mg_stops st @ [(p, None)]\<rparr>)))"

definition forget_proc :: "nat \<Rightarrow> managed \<Rightarrow> managed" where
  "forget_proc p st = (if mg_proc st = Some p then st\<lparr>mg_proc := None\<rparr> else st)"

text \<open>
  The stop promise settles.  \<open>stopNativeProcess\<close> resolves as soon as the process has exited, so a stop
  resolves in the turn of the event loop in which the cleanup of its process does, before any call
  that waits for it goes on; it fails with that cleanup, or when the native stop fails.
\<close>

definition stop_promise_settles :: "bool \<Rightarrow> managed \<Rightarrow> managed" where
  "stop_promise_settles ok st =
     (case mg_stopping st of
        None \<Rightarrow> st
      | Some k \<Rightarrow>
          let p = fst (mg_stops st ! k);
              st1 = (if ok then forget_proc p st else st\<lparr>mg_state := Failed\<rparr>)
          in st1\<lparr>mg_stops := (mg_stops st1)[k := (p, Some ok)], mg_stopping := None\<rparr>)"

definition stop_fails :: "nat \<Rightarrow> managed \<Rightarrow> managed" where
  "stop_fails k st = (if mg_stopping st = Some k then stop_promise_settles False st else st)"

definition stop_cleaned :: "nat \<Rightarrow> bool \<Rightarrow> managed \<Rightarrow> managed" where
  "stop_cleaned p ok st =
     (case mg_stopping st of
        None \<Rightarrow> st | Some k \<Rightarrow> if fst (mg_stops st ! k) = p then stop_promise_settles ok st else st)"

text \<open>A call waiting in \<open>stopCurrentProcess\<close> goes on, if what it waits for has settled.\<close>

datatype stop_outcome = Still | Returned | Thrown

definition stop_step :: "stop_phase \<Rightarrow> managed \<Rightarrow> stop_outcome \<times> managed" where
  "stop_step ph st =
     (case ph of
        NothingToStop \<Rightarrow> (Returned, st)
      | Joining k \<Rightarrow>
          (case snd (mg_stops st ! k) of
             None \<Rightarrow> (Still, st) | Some True \<Rightarrow> (Returned, st) | Some False \<Rightarrow> (Thrown, st))
      | AwaitingExited p \<Rightarrow>
          (case ch_cleanup (child st p) of
             CleanupDone True \<Rightarrow> (Returned, (forget_proc p st)\<lparr>mg_resolvedPlan := None\<rparr>)
           | CleanupDone False \<Rightarrow> (Thrown, st)
           | _ \<Rightarrow> (Still, st)))"

section \<open>Starting\<close>

text \<open>The \<open>finally\<close> of a start attempt, and its promise.\<close>

definition attempt_ends :: "nat \<Rightarrow> startup_error option \<Rightarrow> managed \<Rightarrow> managed" where
  "attempt_ends n res st =
     attempt_waits n (Settled res)
       (if mg_startup st = Some n
        then st\<lparr>mg_startup := None, mg_isRestarting := False,
                mg_state := (if at_cancelled (attempt st n) \<and> \<not> mg_isShuttingDown st then Idle else mg_state st)\<rparr>
        else st)"

text \<open>Its \<open>catch\<close>.  A process it has started is stopped first; its cleanup releases the reservation.\<close>

definition attempt_fails :: "nat \<Rightarrow> startup_error \<Rightarrow> managed \<Rightarrow> managed" where
  "attempt_fails n err st =
     (let a = attempt st n;
          st1 = st\<lparr>mg_resolvedPlan := None\<rparr>
      in if err = StartupCancelled \<or> at_cancelled a then
           (case at_proc a of
              Some p \<Rightarrow> let (ph, st2) = stopCurrentProcess st1 in attempt_waits n (AtStop ph StartupCancelled) st2
            | None \<Rightarrow> attempt_ends n (Some StartupCancelled) (releaseReservation (at_reservation a) st1))
         else if err = CrashLimitReached then attempt_ends n (Some err) st1
         else if err = MemoryRejected then
           attempt_ends n (Some err) ((releaseReservation (at_reservation a) st1)\<lparr>mg_state := Idle\<rparr>)
         else
           let st2 = st1\<lparr>mg_crashTimes := mg_crashTimes st1 @ [mg_now st1]\<rparr> in
           (case at_proc a of
              Some p \<Rightarrow> let (ph, st3) = stopCurrentProcess st2 in attempt_waits n (AtStop ph err) st3
            | None \<Rightarrow> attempt_ends n (Some err) ((releaseReservation (at_reservation a) st2)\<lparr>mg_state := Failed\<rparr>)))"

text \<open>The stop inside the \<open>catch\<close> settles.\<close>

definition attempt_stop :: "nat \<Rightarrow> managed \<Rightarrow> managed" where
  "attempt_stop n st =
     (case at_point (attempt st n) of
        AtStop ph err \<Rightarrow>
          (case stop_step ph st of
             (Still, st1) \<Rightarrow> st1
           | (Returned, st1) \<Rightarrow>
               if err = StartupCancelled then attempt_ends n (Some err) st1
               else attempt_ends n (Some err) (st1\<lparr>mg_state := Failed\<rparr>)
           | (Thrown, st1) \<Rightarrow> attempt_ends n (Some StartupFailed) st1)
      | _ \<Rightarrow> st)"

definition if_active :: "nat \<Rightarrow> (managed \<Rightarrow> managed) \<Rightarrow> managed \<Rightarrow> managed" where
  "if_active n go st = (if startupIsActive st n then go st else attempt_fails n StartupCancelled st)"

definition recent_crashes :: "int \<Rightarrow> int list \<Rightarrow> int list" where
  "recent_crashes now = filter (\<lambda>t. now - t < 300000)"

text \<open>\<open>start\<close> to the first wait of its attempt.\<close>

definition start_attempt :: "managed \<Rightarrow> managed" where
  "start_attempt st =
     (let n = length (mg_attempts st);
          crashes = recent_crashes (mg_now st) (mg_crashTimes st);
          st1 = st\<lparr>mg_resolvedPlan := None,
                   mg_attempts := mg_attempts st @ [\<lparr>at_cancelled = False, at_proc = None, at_reservation = None,
                     at_since = 0, at_point = AtBackoff\<rparr>],
                   mg_startup := Some n, mg_state := Starting, mg_isRestarting := True, mg_restart := Some n,
                   mg_crashTimes := crashes\<rparr>
      in if length crashes \<ge> 5 then
           attempt_fails n CrashLimitReached (st1\<lparr>mg_state := Failed, mg_fatal := mg_fatal st1 + 1\<rparr>)
         else if length crashes > 0 then st1
         else attempt_waits n AtPreflight st1)"

definition backoffMs :: "nat \<Rightarrow> int" where
  "backoffMs crashCount = min (1000 * 2 ^ (crashCount - 1)) 16000"

datatype answer = Fits | Fails startup_error

text \<open>A dependency throws the memory controller's error or another one.\<close>

definition answered_error :: "startup_error \<Rightarrow> startup_error" where
  "answered_error e = (if e = MemoryRejected then MemoryRejected else StartupFailed)"

definition backoff_over :: "nat \<Rightarrow> managed \<Rightarrow> managed" where
  "backoff_over n = if_active n (attempt_waits n AtPreflight)"

definition preflighted :: "nat \<Rightarrow> answer \<Rightarrow> managed \<Rightarrow> managed" where
  "preflighted n answer =
     (case answer of
        Fits \<Rightarrow> if_active n (attempt_waits n AtLaunch)
      | Fails e \<Rightarrow> if_active n (attempt_fails n (answered_error e)))"

definition launched :: "service_options \<Rightarrow> nat \<Rightarrow> startup_error + service_plan \<Rightarrow> managed \<Rightarrow> managed" where
  "launched opts n answer st =
     (case answer of
        Inl e \<Rightarrow> attempt_fails n (answered_error e) st
      | Inr plan \<Rightarrow>
          if_active n (\<lambda>st.
            if sp_runtimeId plan \<noteq> so_runtimeId opts then attempt_fails n StartupFailed st
            else attempt_waits n AtReserve (st\<lparr>mg_resolvedPlan := Some plan\<rparr>)) st)"

text \<open>\<open>reserve\<close> throws while this runtime's id has an entry.\<close>

definition reserved :: "nat \<Rightarrow> answer \<Rightarrow> managed \<Rightarrow> managed" where
  "reserved n answer st =
     (case answer of
        Fails e \<Rightarrow> attempt_fails n (answered_error e) st
      | Fits \<Rightarrow>
          if mg_held st \<noteq> None then attempt_fails n StartupFailed st
          else
            let t = mg_nextToken st in
            if_active n (attempt_waits n AtSpawn)
              (upd_attempt n (\<lambda>a. a\<lparr>at_reservation := Some t\<rparr>)
                (st\<lparr>mg_held := Some t, mg_resident := False, mg_nextToken := Suc t, mg_reservation := Some t\<rparr>)))"

text \<open>The head of the loop of \<open>waitHealthy\<close>.\<close>

definition waitHealthy :: "service_options \<Rightarrow> nat \<Rightarrow> managed \<Rightarrow> managed" where
  "waitHealthy opts n st =
     (if mg_now st - at_since (attempt st n) < HEALTH_TIMEOUT_MS opts then
        if_active n (\<lambda>st.
          if mg_isShuttingDown st \<or> (case at_proc (attempt st n) of Some p \<Rightarrow> exited st p | None \<Rightarrow> False)
          then attempt_fails n StartupFailed st
          else attempt_waits n AtHealth st) st
      else attempt_fails n StartupFailed st)"

text \<open>
  The process is there: \<open>pid\<close> and whether its guardian could be started.  The guardian watches it from
  then on.
\<close>

definition startGuardian :: "int \<Rightarrow> managed \<Rightarrow> managed" where
  "startGuardian pid st =
     st\<lparr>mg_guardians := js_set pid (mg_nextGuardian st) (mg_guardians st), mg_nextGuardian := Suc (mg_nextGuardian st)\<rparr>"

definition spawned :: "service_options \<Rightarrow> nat \<Rightarrow> (int \<times> bool) option \<Rightarrow> managed \<Rightarrow> managed" where
  "spawned opts n answer st =
     (case answer of
        None \<Rightarrow> attempt_fails n StartupFailed st
      | Some (pid, guardian) \<Rightarrow>
          let p = length (mg_children st);
              st1 = upd_attempt n (\<lambda>a. a\<lparr>at_proc := Some p, at_since := mg_now st\<rparr>)
                      (st\<lparr>mg_children := mg_children st @ [\<lparr>ch_pid = pid, ch_exited = False,
                            ch_reservation = (case at_reservation (attempt st n) of Some t \<Rightarrow> t | None \<Rightarrow> 0),
                            ch_expected = False, ch_cleanup = CleanupWaiting\<rparr>],
                          mg_proc := Some p\<rparr>)
          in if \<not> guardian then attempt_fails n StartupFailed st1
             else
               let st2 = startGuardian pid st1 in
               if \<not> startupIsActive st2 n \<or> mg_isShuttingDown st2 then attempt_fails n StartupCancelled st2
               else waitHealthy opts n st2)"

datatype health_answer = HealthOk | HealthBad | HealthError

definition health_answered :: "nat \<Rightarrow> health_answer \<Rightarrow> managed \<Rightarrow> managed" where
  "health_answered n answer =
     (case answer of
        HealthOk \<Rightarrow> if_active n (\<lambda>st.
          attempt_ends n None
            (st\<lparr>mg_resident := (mg_resident st \<or> (mg_held st \<noteq> None \<and> mg_held st = at_reservation (attempt st n))),
                mg_state := Running\<rparr>))
      | HealthBad \<Rightarrow> attempt_waits n AtHealthPoll
      | HealthError \<Rightarrow> if_active n (attempt_waits n AtHealthPoll))"

section \<open>Callers\<close>

datatype caller_outcome = CallerWaits caller_point | CallerStarts

text \<open>\<open>ensureRunning\<close> from its start, and after the stop it waited for.\<close>

definition ensure_checked :: "managed \<Rightarrow> caller_outcome" where
  "ensure_checked st =
     (if mg_isShuttingDown st \<or> failed st then CallerWaits (CallerDone False)
      else if mg_isRestarting st then
        CallerWaits (case mg_restart st of Some n \<Rightarrow> CallerRestart n | None \<Rightarrow> CallerDone True)
      else if (case mg_proc st of Some p \<Rightarrow> \<not> exited st p | None \<Rightarrow> False) then CallerWaits (CallerDone True)
      else CallerStarts)"

definition ensureRunning :: "managed \<Rightarrow> caller_outcome" where
  "ensureRunning st = (case mg_stopping st of Some k \<Rightarrow> CallerWaits (CallerStopping k) | None \<Rightarrow> ensure_checked st)"

definition caller_goes :: "nat \<Rightarrow> caller_outcome \<Rightarrow> managed \<Rightarrow> managed" where
  "caller_goes c out st =
     (case out of
        CallerWaits p \<Rightarrow> st\<lparr>mg_callers := (mg_callers st)[c := p]\<rparr>
      | CallerStarts \<Rightarrow>
          start_attempt (st\<lparr>mg_callers := (mg_callers st)[c := CallerStart (length (mg_attempts st))]\<rparr>))"

definition caller_step :: "nat \<Rightarrow> managed \<Rightarrow> managed" where
  "caller_step c st =
     (case mg_callers st ! c of
        CallerStopping k \<Rightarrow>
          (case snd (mg_stops st ! k) of
             None \<Rightarrow> st
           | Some True \<Rightarrow> caller_goes c (ensure_checked st) st
           | Some False \<Rightarrow> caller_goes c (CallerWaits (CallerDone False)) st)
      | CallerRestart n \<Rightarrow>
          (case at_point (attempt st n) of
             Settled None \<Rightarrow>
               caller_goes c (if failed st then CallerWaits (CallerDone False) else ensureRunning st) st
           | Settled (Some e) \<Rightarrow> caller_goes c (CallerWaits (CallerDone False)) st
           | _ \<Rightarrow> st)
      | CallerStart n \<Rightarrow>
          (case at_point (attempt st n) of
             Settled res \<Rightarrow> caller_goes c (CallerWaits (CallerDone (res = None))) st
           | _ \<Rightarrow> st)
      | CallerDone b \<Rightarrow> st)"

definition ensure_call :: "managed \<Rightarrow> managed" where
  "ensure_call st =
     caller_goes (length (mg_callers st)) (ensureRunning st) (st\<lparr>mg_callers := mg_callers st @ [CallerDone False]\<rparr>)"

section \<open>Stopping\<close>

definition kill_waits :: "nat \<Rightarrow> kill_point \<Rightarrow> managed \<Rightarrow> managed" where
  "kill_waits k p st = st\<lparr>mg_kills := (mg_kills st)[k := p]\<rparr>"

definition kill_call :: "managed \<Rightarrow> managed" where
  "kill_call st =
     (let startup = (if mg_isRestarting st then mg_restart st else None);
          (ph, st1) = stopCurrentProcess (cancelStartup st)
      in st1\<lparr>mg_kills := mg_kills st1 @ [KillFirst ph startup]\<rparr>)"

definition kill_second :: "nat \<Rightarrow> managed \<Rightarrow> managed" where
  "kill_second k st = (let (ph, st1) = stopCurrentProcess st in kill_waits k (KillSecond ph) st1)"

definition kill_step :: "nat \<Rightarrow> managed \<Rightarrow> managed" where
  "kill_step k st =
     (case mg_kills st ! k of
        KillFirst ph startup \<Rightarrow>
          (case stop_step ph st of
             (Still, st1) \<Rightarrow> st1
           | (Returned, st1) \<Rightarrow>
               (case startup of Some n \<Rightarrow> kill_waits k (KillStartup n) st1 | None \<Rightarrow> kill_second k st1)
           | (Thrown, st1) \<Rightarrow> kill_waits k (KillDone False) st1)
      | KillStartup n \<Rightarrow>
          (case at_point (attempt st n) of
             Settled res \<Rightarrow>
               if res = None \<or> res = Some StartupCancelled then kill_second k st
               else kill_waits k (KillDone False) st
           | _ \<Rightarrow> st)
      | KillSecond ph \<Rightarrow>
          (case stop_step ph st of
             (Still, st1) \<Rightarrow> st1
           | (Returned, st1) \<Rightarrow>
               kill_waits k (KillDone True)
                 (if mg_isShuttingDown st1 then st1 else st1\<lparr>mg_state := Idle\<rparr>)
           | (Thrown, st1) \<Rightarrow> kill_waits k (KillDone False) st1)
      | KillDone b \<Rightarrow> st)"

definition shutdown_call :: "managed \<Rightarrow> managed" where
  "shutdown_call st =
     (if mg_shutdown st \<noteq> None then st
      else
        let st1 = st\<lparr>mg_isShuttingDown := True, mg_state := Stopping\<rparr>;
            startup = mg_restart st1;
            (ph, st2) = stopCurrentProcess (cancelStartup st1)
        in st2\<lparr>mg_shutdown := Some (DownFirst ph startup)\<rparr>)"

definition down_second :: "managed \<Rightarrow> managed" where
  "down_second st = (let (ph, st1) = stopCurrentProcess st in st1\<lparr>mg_shutdown := Some (DownSecond ph)\<rparr>)"

text \<open>\<open>stopAllGuardians\<close>.\<close>

definition stopAllGuardians :: "managed \<Rightarrow> managed" where
  "stopAllGuardians st =
     st\<lparr>mg_downGuardians := mg_guardians st,
        mg_shutdown := Some (if mg_guardians st = [] then DownDone True else DownGuardians)\<rparr>"

definition shutdown_step :: "managed \<Rightarrow> managed" where
  "shutdown_step st =
     (case mg_shutdown st of
        Some (DownFirst ph startup) \<Rightarrow>
          (case stop_step ph st of
             (Still, st1) \<Rightarrow> st1
           | (Returned, st1) \<Rightarrow>
               (case startup of Some n \<Rightarrow> st1\<lparr>mg_shutdown := Some (DownStartup n)\<rparr> | None \<Rightarrow> down_second st1)
           | (Thrown, st1) \<Rightarrow> st1\<lparr>mg_shutdown := Some (DownDone False)\<rparr>)
      | Some (DownStartup n) \<Rightarrow>
          (case at_point (attempt st n) of Settled res \<Rightarrow> down_second st | _ \<Rightarrow> st)
      | Some (DownSecond ph) \<Rightarrow>
          (case stop_step ph st of
             (Still, st1) \<Rightarrow> st1
           | (Returned, st1) \<Rightarrow> stopAllGuardians st1
           | (Thrown, st1) \<Rightarrow> st1\<lparr>mg_shutdown := Some (DownDone False)\<rparr>)
      | _ \<Rightarrow> st)"

text \<open>One of the guardians \<open>shutdown\<close> stops has stopped, or could not be.\<close>

definition delete_guardian :: "int \<Rightarrow> nat \<Rightarrow> managed \<Rightarrow> managed" where
  "delete_guardian pid g st =
     (if js_get (mg_guardians st) pid = Some g then st\<lparr>mg_guardians := js_delete pid (mg_guardians st)\<rparr> else st)"

definition guardian_stopped :: "int \<Rightarrow> nat \<Rightarrow> bool \<Rightarrow> managed \<Rightarrow> managed" where
  "guardian_stopped pid g ok st =
     (if (pid, g) \<notin> set (mg_downGuardians st) then st
      else
        let st1 = st\<lparr>mg_downGuardians := remove1 (pid, g) (mg_downGuardians st)\<rparr>;
            st2 = (if ok then delete_guardian pid g st1 else st1)
        in if mg_shutdown st2 \<noteq> Some DownGuardians then st2
           else if \<not> ok then st2\<lparr>mg_shutdown := Some (DownDone False)\<rparr>
           else if mg_downGuardians st2 = [] then st2\<lparr>mg_shutdown := Some (DownDone True)\<rparr>
           else st2)"

section \<open>The end of a process\<close>

definition handleCrash :: "nat \<Rightarrow> managed \<Rightarrow> managed" where
  "handleCrash p st =
     (if \<not> mg_isShuttingDown st \<and> \<not> ch_expected (child st p) \<and> mg_proc st = Some p \<and> exited st p \<and> \<not> mg_isRestarting st
      then start_attempt (st\<lparr>mg_crashTimes := mg_crashTimes st @ [mg_now st], mg_proc := None, mg_state := Starting\<rparr>)
      else st)"

definition cleanup_ends :: "nat \<Rightarrow> bool \<Rightarrow> managed \<Rightarrow> managed" where
  "cleanup_ends p ok st =
     stop_cleaned p ok (handleCrash p (upd_child p (\<lambda>c. c\<lparr>ch_cleanup := CleanupDone ok\<rparr>)
       (releaseReservation (Some (ch_reservation (child st p))) st)))"

definition cleanup_step :: "nat \<Rightarrow> bool \<Rightarrow> managed \<Rightarrow> managed" where
  "cleanup_step p ok st =
     (case ch_cleanup (child st p) of
        CleanupWaiting \<Rightarrow>
          if \<not> exited st p then st
          else
            (case js_get (mg_guardians st) (ch_pid (child st p)) of
               None \<Rightarrow> cleanup_ends p True st
             | Some g \<Rightarrow> upd_child p (\<lambda>c. c\<lparr>ch_cleanup := CleanupGuardian g\<rparr>) st)
      | CleanupGuardian g \<Rightarrow>
          if ok then cleanup_ends p True (delete_guardian (ch_pid (child st p)) g st) else cleanup_ends p False st
      | CleanupDone b \<Rightarrow> st)"

section \<open>What is reported\<close>

definition resolvedSlots :: "managed \<Rightarrow> int option" where
  "resolvedSlots st = map_option lp_slots (Option.bind (mg_resolvedPlan st) sp_llm)"

definition resolvedContextLength :: "managed \<Rightarrow> int option" where
  "resolvedContextLength st =
     map_option (\<lambda>l.
       let perSequence = llamaContextPerSequence (lp_ctxSize l) (lp_slots l) False in
       case (lp_trainingContext l, lp_geometryContext l) of
         (Some t, _) \<Rightarrow> min perSequence t
       | (None, Some g) \<Rightarrow> min perSequence g
       | (None, None) \<Rightarrow> perSequence) (Option.bind (mg_resolvedPlan st) sp_llm)"

text \<open>\<open>slots\<close>: for each slot of the backend's answer whether it is processing; \<open>None\<close> without one.\<close>

definition processingSlots :: "service_options \<Rightarrow> bool list option \<Rightarrow> managed \<Rightarrow> nat option" where
  "processingSlots opts slots st =
     (if \<not> so_slotsUrl opts \<or> mg_state st \<noteq> Running then None
      else map_option (\<lambda>s. length (filter (\<lambda>b. b) s)) slots)"

section \<open>Events\<close>

datatype managed_event =
    EvClock int
  | EvEnsureRunning
  | EvCaller nat
  | EvKill
  | EvKillStep nat
  | EvShutdown
  | EvShutdownStep
  | EvGuardianStopped int nat bool
  | EvGuardianExit int nat
  | EvExit nat
  | EvCleanup nat bool
  | EvBackoff nat
  | EvPreflighted nat answer
  | EvLaunched nat "startup_error + service_plan"
  | EvReserved nat answer
  | EvSpawned nat "(int \<times> bool) option"
  | EvHealth nat health_answer
  | EvHealthPoll nat
  | EvStopStep nat
  | EvStopFails nat

definition at_attempt :: "nat \<Rightarrow> attempt_point \<Rightarrow> (managed \<Rightarrow> managed) \<Rightarrow> managed \<Rightarrow> managed" where
  "at_attempt n p go st = (if n < length (mg_attempts st) \<and> at_point (attempt st n) = p then go st else st)"

fun managed_apply :: "service_options \<Rightarrow> managed_event \<Rightarrow> managed \<Rightarrow> managed" where
  "managed_apply opts (EvClock t) st = st\<lparr>mg_now := t\<rparr>"
| "managed_apply opts EvEnsureRunning st = ensure_call st"
| "managed_apply opts (EvCaller c) st = (if c < length (mg_callers st) then caller_step c st else st)"
| "managed_apply opts EvKill st = kill_call st"
| "managed_apply opts (EvKillStep k) st = (if k < length (mg_kills st) then kill_step k st else st)"
| "managed_apply opts EvShutdown st = shutdown_call st"
| "managed_apply opts EvShutdownStep st = shutdown_step st"
| "managed_apply opts (EvGuardianStopped pid g ok) st = guardian_stopped pid g ok st"
| "managed_apply opts (EvGuardianExit pid g) st = delete_guardian pid g st"
| "managed_apply opts (EvExit p) st =
     (if p < length (mg_children st) then upd_child p (\<lambda>c. c\<lparr>ch_exited := True\<rparr>) st else st)"
| "managed_apply opts (EvCleanup p ok) st = (if p < length (mg_children st) then cleanup_step p ok st else st)"
| "managed_apply opts (EvBackoff n) st = at_attempt n AtBackoff (backoff_over n) st"
| "managed_apply opts (EvPreflighted n answer) st = at_attempt n AtPreflight (preflighted n answer) st"
| "managed_apply opts (EvLaunched n answer) st = at_attempt n AtLaunch (launched opts n answer) st"
| "managed_apply opts (EvReserved n answer) st = at_attempt n AtReserve (reserved n answer) st"
| "managed_apply opts (EvSpawned n answer) st = at_attempt n AtSpawn (spawned opts n answer) st"
| "managed_apply opts (EvHealth n answer) st = at_attempt n AtHealth (health_answered n answer) st"
| "managed_apply opts (EvHealthPoll n) st = at_attempt n AtHealthPoll (waitHealthy opts n) st"
| "managed_apply opts (EvStopStep n) st = (if n < length (mg_attempts st) then attempt_stop n st else st)"
| "managed_apply opts (EvStopFails k) st = stop_fails k st"

definition managed_step :: "service_options \<Rightarrow> managed_event \<Rightarrow> managed \<Rightarrow> managed option" where
  "managed_step opts ev st = Some (managed_apply opts ev st)"

abbreviation managed_run :: "service_options \<Rightarrow> managed_event list \<Rightarrow> managed \<Rightarrow> managed option" where
  "managed_run opts \<equiv> run_events (managed_step opts)"

end
