(* ===== verification/Managed_Safety.thy ===== *)
theory Managed_Safety
  imports Managed_Service
begin

text \<open>
  What the supervisor of a backend process guarantees: its invariant, kept by every event, what a
  \<open>kill\<close> and the shutdown wait for, and the properties that follow.
\<close>

section \<open>Invariant\<close>

definition cleaned :: "managed \<Rightarrow> nat \<Rightarrow> bool" where
  "cleaned st p \<longleftrightarrow> (\<exists>b. ch_cleanup (child st p) = CleanupDone b)"

definition all_cleaned :: "managed \<Rightarrow> bool" where
  "all_cleaned st \<longleftrightarrow> (\<forall>p < length (mg_children st). cleaned st p)"

definition settled :: "managed \<Rightarrow> nat \<Rightarrow> bool" where
  "settled st n \<longleftrightarrow> (\<exists>res. at_point (attempt st n) = Settled res)"

definition children_ok :: "managed \<Rightarrow> bool" where
  "children_ok st \<longleftrightarrow>
     (\<forall>p < length (mg_children st).
        (cleaned st p \<or> mg_proc st = Some p \<and> mg_held st = Some (ch_reservation (child st p))) \<and>
        (ch_cleanup (child st p) = CleanupWaiting \<or> exited st p)) \<and>
     (\<forall>p. mg_proc st = Some p \<longrightarrow> p < length (mg_children st)) \<and> mg_reservation st = mg_held st"

definition stops_ok :: "managed \<Rightarrow> bool" where
  "stops_ok st \<longleftrightarrow>
     (\<forall>k < length (mg_stops st). fst (mg_stops st ! k) < length (mg_children st) \<and>
        (snd (mg_stops st ! k) \<noteq> None \<or> mg_stopping st = Some k) \<and>
        (snd (mg_stops st ! k) \<noteq> Some True \<or> cleaned st (fst (mg_stops st ! k)))) \<and>
     (\<forall>k. mg_stopping st = Some k \<longrightarrow> k < length (mg_stops st) \<and> snd (mg_stops st ! k) = None \<and>
        \<not> cleaned st (fst (mg_stops st ! k)) \<and> ch_expected (child st (fst (mg_stops st ! k))))"

definition starts_ok :: "managed \<Rightarrow> bool" where
  "starts_ok st \<longleftrightarrow>
     (\<forall>n < length (mg_attempts st). settled st n \<longleftrightarrow> mg_startup st \<noteq> Some n) \<and>
     (\<forall>n. mg_startup st = Some n \<longrightarrow> Suc n = length (mg_attempts st)) \<and>
     mg_isRestarting st = (mg_startup st \<noteq> None) \<and>
     mg_restart st = (if mg_attempts st = [] then None else Some (length (mg_attempts st) - 1))"

text \<open>When a call waits in this phase, whatever is not cleaned up below \<open>N\<close> is what it waits for.\<close>

definition waits_for :: "managed \<Rightarrow> nat \<Rightarrow> stop_phase \<Rightarrow> bool" where
  "waits_for st N ph \<longleftrightarrow>
     (\<forall>k. ph = Joining k \<longrightarrow> k < length (mg_stops st)) \<and>
     (\<forall>p < N. cleaned st p \<or>
        (case ph of NothingToStop \<Rightarrow> False | Joining k \<Rightarrow> fst (mg_stops st ! k) = p | AwaitingExited q \<Rightarrow> q = p))"

definition down_ok :: "managed \<Rightarrow> bool" where
  "down_ok st \<longleftrightarrow>
     (mg_isShuttingDown st \<longleftrightarrow> mg_shutdown st \<noteq> None) \<and>
     (case mg_shutdown st of
        Some (DownFirst ph startup) \<Rightarrow> startup = mg_restart st
      | Some (DownStartup n) \<Rightarrow> mg_restart st = Some n
      | Some (DownSecond ph) \<Rightarrow> mg_startup st = None \<and> waits_for st (length (mg_children st)) ph
      | Some DownGuardians \<Rightarrow> mg_startup st = None \<and> all_cleaned st
      | Some (DownDone True) \<Rightarrow> mg_startup st = None \<and> all_cleaned st
      | _ \<Rightarrow> True)"

definition core :: "managed \<Rightarrow> bool" where
  "core st \<longleftrightarrow> children_ok st \<and> stops_ok st \<and> starts_ok st \<and> down_ok st"

text \<open>Who holds the reservation while an attempt is under way.\<close>

definition held_by_child :: "managed \<Rightarrow> bool" where
  "held_by_child st \<longleftrightarrow> (mg_held st \<noteq> None \<longrightarrow> \<not> all_cleaned st)"

definition owns :: "managed \<Rightarrow> attempt \<Rightarrow> bool" where
  "owns st a \<longleftrightarrow>
     (case at_proc a of
        Some p \<Rightarrow> p < length (mg_children st) \<and> held_by_child st
      | None \<Rightarrow>
          (case at_reservation a of
             None \<Rightarrow> held_by_child st
           | Some t \<Rightarrow> mg_held st = Some t \<and> all_cleaned st))"

definition at_its_point :: "managed \<Rightarrow> attempt \<Rightarrow> bool" where
  "at_its_point st a \<longleftrightarrow>
     (case at_point a of
        AtSpawn \<Rightarrow> at_proc a = None \<and> at_reservation a \<noteq> None
      | AtHealth \<Rightarrow> at_proc a \<noteq> None
      | AtHealthPoll \<Rightarrow> at_proc a \<noteq> None
      | AtStop ph err \<Rightarrow> at_proc a \<noteq> None
      | Settled res \<Rightarrow> True
      | _ \<Rightarrow> at_proc a = None \<and> at_reservation a = None)"

definition managed_inv :: "managed \<Rightarrow> bool" where
  "managed_inv st \<longleftrightarrow> core st \<and>
     (case mg_startup st of
        None \<Rightarrow> held_by_child st
      | Some n \<Rightarrow> owns st (attempt st n) \<and> at_its_point st (attempt st n))"

text \<open>An attempt between two of its waits.\<close>

definition mid :: "nat \<Rightarrow> managed \<Rightarrow> bool" where
  "mid n st \<longleftrightarrow> core st \<and> mg_startup st = Some n \<and> owns st (attempt st n)"

lemma inv_new: "managed_inv new_service"
  by (simp add: managed_inv_def core_def children_ok_def stops_ok_def starts_ok_def down_ok_def held_by_child_def new_service_def)

lemma frame_defs: "cleaned st p = (\<exists>b. ch_cleanup (mg_children st ! p) = CleanupDone b)"
  "exited st p = ch_exited (mg_children st ! p)"
  by (simp_all add: cleaned_def exited_def child_def)

text \<open>Two states that agree on what the predicates read.\<close>

definition agree :: "managed \<Rightarrow> managed \<Rightarrow> bool" where
  "agree st st' \<longleftrightarrow>
     mg_children st' = mg_children st \<and> mg_proc st' = mg_proc st \<and> mg_held st' = mg_held st \<and>
     mg_reservation st' = mg_reservation st \<and> mg_stops st' = mg_stops st \<and> mg_stopping st' = mg_stopping st \<and>
     mg_attempts st' = mg_attempts st \<and> mg_startup st' = mg_startup st \<and> mg_isRestarting st' = mg_isRestarting st \<and>
     mg_restart st' = mg_restart st \<and> mg_shutdown st' = mg_shutdown st \<and> mg_isShuttingDown st' = mg_isShuttingDown st"

lemma agree_frame:
  assumes "agree st st'"
  shows "cleaned st' = cleaned st" "all_cleaned st' = all_cleaned st" "attempt st' = attempt st" "waits_for st' = waits_for st"
    "core st' = core st" "held_by_child st' = held_by_child st" "owns st' = owns st" "at_its_point st' = at_its_point st"
    "managed_inv st' = managed_inv st" "mid n st' = mid n st" "exited st' = exited st" "child st' = child st" "settled st' = settled st"
proof -
  show c: "cleaned st' = cleaned st" "attempt st' = attempt st" "exited st' = exited st" "child st' = child st"
    using assms by (simp_all add: agree_def fun_eq_iff frame_defs child_def attempt_def)
  show a: "all_cleaned st' = all_cleaned st" "settled st' = settled st"
    using assms c by (simp_all add: agree_def all_cleaned_def settled_def fun_eq_iff)
  show w: "waits_for st' = waits_for st"
    using assms c by (simp add: agree_def waits_for_def fun_eq_iff cong: stop_phase.case_cong)
  show k: "core st' = core st"
    using assms c a w by (simp add: agree_def core_def children_ok_def stops_ok_def starts_ok_def down_ok_def
        cong: option.case_cong down_point.case_cong bool.case_cong)
  show h: "held_by_child st' = held_by_child st" using assms a by (simp add: agree_def held_by_child_def)
  show o: "owns st' = owns st"
    using assms a h by (simp add: agree_def owns_def fun_eq_iff cong: option.case_cong)
  show p: "at_its_point st' = at_its_point st" by (simp add: at_its_point_def fun_eq_iff)
  show "managed_inv st' = managed_inv st" "mid n st' = mid n st"
    using assms k h o p c by (simp_all add: agree_def managed_inv_def mid_def cong: option.case_cong)
qed

lemma agree_unread [simp]:
  "agree st (st\<lparr>mg_state := a\<rparr>)" "agree st (st\<lparr>mg_crashTimes := b\<rparr>)" "agree st (st\<lparr>mg_resolvedPlan := c\<rparr>)"
  "agree st (st\<lparr>mg_fatal := d\<rparr>)" "agree st (st\<lparr>mg_now := e\<rparr>)" "agree st (st\<lparr>mg_callers := f\<rparr>)" "agree st (st\<lparr>mg_kills := h\<rparr>)"
  "agree st (st\<lparr>mg_guardians := i\<rparr>)" "agree st (st\<lparr>mg_nextGuardian := j\<rparr>)" "agree st (st\<lparr>mg_downGuardians := k\<rparr>)"
  "agree st (st\<lparr>mg_resident := l\<rparr>)" "agree st (st\<lparr>mg_nextToken := m\<rparr>)"
  by (simp_all add: agree_def)

lemmas unread_simps [simp] = agree_unread [THEN agree_frame(1)] agree_unread [THEN agree_frame(2)] agree_unread [THEN agree_frame(3)]
  agree_unread [THEN agree_frame(4)] agree_unread [THEN agree_frame(5)] agree_unread [THEN agree_frame(6)]
  agree_unread [THEN agree_frame(7)] agree_unread [THEN agree_frame(8)] agree_unread [THEN agree_frame(9)]
  agree_unread [THEN agree_frame(10)] agree_unread [THEN agree_frame(11)] agree_unread [THEN agree_frame(12)]
  agree_unread [THEN agree_frame(13)]

section \<open>Operations\<close>

lemma core_starts: "core st \<Longrightarrow> mg_startup st = Some n \<Longrightarrow> n < length (mg_attempts st) \<and> \<not> settled st n \<and>
    (\<forall>m < length (mg_attempts st). m \<noteq> n \<longrightarrow> settled st m)"
  by (auto simp: core_def starts_ok_def)

lemma down_early:
  assumes "down_ok st" "mg_startup st \<noteq> None" "mg_shutdown st' = mg_shutdown st"
    "mg_isShuttingDown st' = mg_isShuttingDown st" "mg_restart st' = mg_restart st"
  shows "down_ok st'"
proof (cases "mg_shutdown st")
  case (Some d)
  with assms show ?thesis by (cases d) (simp_all add: down_ok_def split: bool.splits)
qed (use assms in \<open>simp add: down_ok_def\<close>)

lemma down_frame:
  assumes "down_ok st" "mg_startup st' = mg_startup st" "mg_shutdown st' = mg_shutdown st"
    "mg_isShuttingDown st' = mg_isShuttingDown st" "mg_restart st' = mg_restart st"
    "length (mg_children st') = length (mg_children st)" "all_cleaned st \<Longrightarrow> all_cleaned st'"
    "\<And>ph. waits_for st (length (mg_children st)) ph \<Longrightarrow> waits_for st' (length (mg_children st)) ph"
  shows "down_ok st'"
proof (cases "mg_shutdown st")
  case (Some d)
  with assms show ?thesis by (cases d) (simp_all add: down_ok_def split: bool.splits)
qed (use assms in \<open>simp add: down_ok_def\<close>)

lemma only_uncleaned:
  "core st \<Longrightarrow> p < length (mg_children st) \<Longrightarrow> \<not> cleaned st p \<Longrightarrow> mg_proc st = Some p"
  "core st \<Longrightarrow> p < length (mg_children st) \<Longrightarrow> \<not> cleaned st p \<Longrightarrow> mg_held st = Some (ch_reservation (child st p))"
  unfolding core_def children_ok_def by blast+

lemma attempt_ends_inv:
  assumes "core st" "mg_startup st = Some n" "held_by_child st"
  shows "managed_inv (attempt_ends n res st)"
proof -
  let ?st = "st\<lparr>mg_startup := None, mg_isRestarting := False\<rparr>"
  let ?e = "attempt_ends n res st"
  have n: "n < length (mg_attempts st)" "\<forall>m < length (mg_attempts st). m \<noteq> n \<longrightarrow> settled st m" "Suc n = length (mg_attempts st)"
    using core_starts [OF assms(1,2)] assms(1,2) by (simp_all add: core_def starts_ok_def)
  have e: "mg_children ?e = mg_children st" "mg_stops ?e = mg_stops st" "mg_proc ?e = mg_proc st" "mg_held ?e = mg_held st"
    "mg_reservation ?e = mg_reservation st" "mg_stopping ?e = mg_stopping st" "mg_startup ?e = None" "mg_isRestarting ?e = False"
    "mg_restart ?e = mg_restart st" "mg_shutdown ?e = mg_shutdown st" "mg_isShuttingDown ?e = mg_isShuttingDown st"
    "mg_attempts ?e = (mg_attempts st)[n := (mg_attempts st ! n)\<lparr>at_point := Settled res\<rparr>]"
    using assms(2) by (simp_all add: attempt_ends_def attempt_waits_def upd_attempt_def)
  have c: "cleaned ?e = cleaned st" "exited ?e = exited st" "child ?e = child st"
    by (simp_all add: fun_eq_iff frame_defs e child_def)
  have d: "down_ok ?e"
    using down_early [of st ?e] assms(1,2) by (simp add: core_def e)
  have s: "starts_ok ?e"
    using assms(1,2) n by (auto simp: core_def starts_ok_def e settled_def attempt_def nth_list_update)
  have "children_ok ?e" "stops_ok ?e" "held_by_child ?e"
    using assms unfolding core_def children_ok_def stops_ok_def held_by_child_def all_cleaned_def e c by blast+
  with d s show ?thesis by (simp add: managed_inv_def core_def e)
qed

lemma waits_inv:
  assumes "mid n st" "at_its_point st ((attempt st n)\<lparr>at_point := pt\<rparr>)" "\<forall>res. pt \<noteq> Settled res"
  shows "managed_inv (attempt_waits n pt st)"
proof -
  let ?e = "attempt_waits n pt st"
  have m: "core st" "mg_startup st = Some n" "owns st (attempt st n)" using assms(1) by (simp_all add: mid_def)
  have n: "n < length (mg_attempts st)" "\<not> settled st n" using core_starts [OF m(1,2)] by simp_all
  have e: "mg_children ?e = mg_children st" "mg_stops ?e = mg_stops st" "mg_proc ?e = mg_proc st" "mg_held ?e = mg_held st"
    "mg_reservation ?e = mg_reservation st" "mg_stopping ?e = mg_stopping st" "mg_startup ?e = mg_startup st"
    "mg_isRestarting ?e = mg_isRestarting st" "mg_restart ?e = mg_restart st" "mg_shutdown ?e = mg_shutdown st"
    "mg_isShuttingDown ?e = mg_isShuttingDown st" "length (mg_attempts ?e) = length (mg_attempts st)"
    "mg_attempts ?e = [] \<longleftrightarrow> mg_attempts st = []"
    "attempt ?e k = (if k = n then (attempt st n)\<lparr>at_point := pt\<rparr> else attempt st k)" for k
    using n(1) by (auto simp: attempt_waits_def upd_attempt_def attempt_def nth_list_update)
  have c: "cleaned ?e = cleaned st" "exited ?e = exited st" "child ?e = child st"
    by (simp_all add: fun_eq_iff frame_defs e(1) child_def)
  have a: "all_cleaned ?e = all_cleaned st" by (simp add: all_cleaned_def c e)
  have d: "down_ok ?e"
    using down_early [of st ?e] m(1,2) by (simp add: core_def e)
  have "settled ?e k = settled st k" for k
    using n(2) assms(3) by (simp add: settled_def e)
  then have s: "starts_ok ?e"
    using m(1,2) unfolding core_def starts_ok_def e by simp
  have "children_ok ?e" "stops_ok ?e"
    using m(1) unfolding core_def children_ok_def stops_ok_def e c by blast+
  moreover have "owns ?e (attempt ?e n)"
    using m(3) by (simp add: owns_def e a held_by_child_def cong: option.case_cong)
  moreover have "at_its_point ?e (attempt ?e n)"
    using assms(2) by (simp add: e at_its_point_def cong: attempt_point.case_cong)
  ultimately show ?thesis using d s m(2) by (simp add: managed_inv_def core_def e)
qed




text \<open>Stopping the current process.\<close>

lemma children_proc: "core st \<Longrightarrow> mg_proc st = Some p \<Longrightarrow> p < length (mg_children st)"
  unfolding core_def children_ok_def by blast

lemma children_exit: "core st \<Longrightarrow> p < length (mg_children st) \<Longrightarrow> ch_cleanup (child st p) \<noteq> CleanupWaiting \<Longrightarrow> exited st p"
  unfolding core_def children_ok_def by blast

lemma stop_pending:
  assumes "core st" "mg_stopping st = Some k"
  shows "k < length (mg_stops st)" "snd (mg_stops st ! k) = None" "\<not> cleaned st (fst (mg_stops st ! k))"
    "ch_expected (child st (fst (mg_stops st ! k)))" "fst (mg_stops st ! k) < length (mg_children st)"
  using assms unfolding core_def stops_ok_def by blast+

lemma waits_pending:
  assumes "core st" "mg_stopping st = Some k"
  shows "waits_for st (length (mg_children st)) (Joining k)"
proof -
  note k = stop_pending [OF assms]
  have "fst (mg_stops st ! k) = p" if "p < length (mg_children st)" "\<not> cleaned st p" for p
    using only_uncleaned(1) [OF assms(1) k(5,3)] only_uncleaned(1) [OF assms(1) that] by simp
  then show ?thesis by (auto simp: waits_for_def k)
qed

text \<open>Marking the process as expected to stop, and a stop of it.\<close>

lemma expected_core:
  assumes "core st" "p < length (mg_children st)"
  shows "core (upd_child p (\<lambda>c. c\<lparr>ch_expected := True\<rparr>) st)" "cleaned (upd_child p (\<lambda>c. c\<lparr>ch_expected := True\<rparr>) st) = cleaned st"
    "exited (upd_child p (\<lambda>c. c\<lparr>ch_expected := True\<rparr>) st) = exited st"
proof -
  let ?e = "upd_child p (\<lambda>c. c\<lparr>ch_expected := True\<rparr>) st"
  have ch: "ch_cleanup (child ?e q) = ch_cleanup (child st q)" "ch_exited (child ?e q) = ch_exited (child st q)"
    "ch_reservation (child ?e q) = ch_reservation (child st q)" "ch_expected (child st q) \<Longrightarrow> ch_expected (child ?e q)" for q
    using assms(2) by (cases "q = p"; simp add: upd_child_def child_def)+
  show c: "cleaned ?e = cleaned st" "exited ?e = exited st" by (simp_all add: fun_eq_iff cleaned_def exited_def ch)
  have e: "length (mg_children ?e) = length (mg_children st)" "mg_proc ?e = mg_proc st" "mg_held ?e = mg_held st"
    "mg_reservation ?e = mg_reservation st" "mg_stops ?e = mg_stops st" "mg_stopping ?e = mg_stopping st" "attempt ?e = attempt st"
    "mg_attempts ?e = mg_attempts st" "mg_startup ?e = mg_startup st" "mg_isRestarting ?e = mg_isRestarting st"
    "mg_restart ?e = mg_restart st" "mg_shutdown ?e = mg_shutdown st" "mg_isShuttingDown ?e = mg_isShuttingDown st"
    by (simp_all add: upd_child_def fun_eq_iff attempt_def)
  have "children_ok ?e" using assms(1) unfolding core_def children_ok_def e c ch by blast
  moreover have "stops_ok ?e" using assms(1) ch(4) unfolding core_def stops_ok_def e c by blast
  moreover have "starts_ok ?e" using assms(1) unfolding core_def starts_ok_def settled_def e by blast
  moreover have "waits_for ?e N = waits_for st N" for N
    by (simp add: waits_for_def e c fun_eq_iff cong: stop_phase.case_cong)
  then have "down_ok ?e" using down_frame [of st ?e] assms(1) by (simp add: core_def e all_cleaned_def c)
  ultimately show "core ?e" by (simp add: core_def)
qed

lemma new_stop_core:
  assumes "core st" "mg_stopping st = None" "mg_proc st = Some p" "\<not> exited st p" "ch_expected (child st p)"
  shows "core (st\<lparr>mg_stopping := Some (length (mg_stops st)), mg_stops := mg_stops st @ [(p, None)]\<rparr>)" (is "core ?e")
proof -
  have p: "p < length (mg_children st)" by (rule children_proc [OF assms(1,3)])
  have live: "\<not> cleaned st p" using children_exit [OF assms(1) p] assms(4) by (auto simp: cleaned_def)
  have c: "cleaned ?e = cleaned st" "child ?e = child st" "exited ?e = exited st" "attempt ?e = attempt st"
    by (simp_all add: fun_eq_iff frame_defs child_def attempt_def)
  have "children_ok ?e" using assms(1) unfolding core_def children_ok_def c by simp
  moreover have "starts_ok ?e" using assms(1) unfolding core_def starts_ok_def settled_def c by simp
  moreover have "stops_ok ?e"
    using assms p live by (simp add: stops_ok_def c nth_append less_Suc_eq) (auto simp: core_def stops_ok_def)
  moreover have "waits_for ?e N q" if "waits_for st N q" for N q
    using that by (auto simp: waits_for_def c nth_append split: stop_phase.splits)
  then have "down_ok ?e" using down_frame [of st ?e] assms(1) by (simp add: core_def all_cleaned_def c)
  ultimately show ?thesis by (simp add: core_def)
qed


definition stop_frame :: "managed \<Rightarrow> managed \<Rightarrow> bool" where
  "stop_frame st st' \<longleftrightarrow>
     cleaned st' = cleaned st \<and> length (mg_children st') = length (mg_children st) \<and> mg_attempts st' = mg_attempts st \<and>
     mg_startup st' = mg_startup st \<and> mg_held st' = mg_held st \<and> mg_restart st' = mg_restart st \<and>
     mg_shutdown st' = mg_shutdown st \<and> mg_isShuttingDown st' = mg_isShuttingDown st \<and> mg_kills st' = mg_kills st \<and>
     length (mg_stops st) \<le> length (mg_stops st') \<and> (\<forall>k < length (mg_stops st). mg_stops st' ! k = mg_stops st ! k)"

lemma stop_begins:
  assumes "core st" "stopCurrentProcess st = (ph, st')"
  shows "core st'" "waits_for st' (length (mg_children st')) ph" "stop_frame st st'"
proof -
  have "core st' \<and> waits_for st' (length (mg_children st')) ph \<and> stop_frame st st'"
  proof (cases "mg_stopping st")
    case (Some k)
    with assms(2) have "ph = Joining k" "st' = st" by (simp_all add: stopCurrentProcess_def)
    then show ?thesis using assms(1) waits_pending [OF assms(1) Some] by (simp add: stop_frame_def)
  next
    case None
    show ?thesis
    proof (cases "mg_proc st")
      case None
      with assms(2) \<open>mg_stopping st = None\<close> have e: "ph = NothingToStop" "st' = st" by (simp_all add: stopCurrentProcess_def)
      then show ?thesis using assms(1) only_uncleaned(1) [OF assms(1)] None by (auto simp: stop_frame_def waits_for_def)
    next
      case (Some p)
      note pl = children_proc [OF assms(1) Some]
      let ?x = "upd_child p (\<lambda>c. c\<lparr>ch_expected := True\<rparr>) st"
      note x = expected_core [OF assms(1) pl]
      have xf: "mg_stopping ?x = None" "mg_proc ?x = Some p" "ch_expected (child ?x p)" "length (mg_children ?x) = length (mg_children st)"
        "mg_stops ?x = mg_stops st" "mg_attempts ?x = mg_attempts st" "mg_startup ?x = mg_startup st" "mg_held ?x = mg_held st"
        "mg_restart ?x = mg_restart st" "mg_shutdown ?x = mg_shutdown st" "mg_isShuttingDown ?x = mg_isShuttingDown st"
        "mg_kills ?x = mg_kills st"
        using None Some pl by (simp_all add: upd_child_def child_def)
      have only: "q = p" if "q < length (mg_children st)" "\<not> cleaned st q" for q
        using only_uncleaned(1) [OF assms(1) that] Some by simp
      show ?thesis
      proof (cases "exited st p")
        case True
        with assms(2) None Some have e: "ph = AwaitingExited p" "st' = ?x" by (simp_all add: stopCurrentProcess_def Let_def)
        show ?thesis unfolding e using x xf only by (auto simp: stop_frame_def waits_for_def)
      next
        case False
        let ?n = "?x\<lparr>mg_stopping := Some (length (mg_stops ?x)), mg_stops := mg_stops ?x @ [(p, None)]\<rparr>"
        have e: "ph = Joining (length (mg_stops st))"
          "st' = ?n\<lparr>mg_state := Stopping\<rparr>\<lparr>mg_resolvedPlan := None\<rparr>"
          using False assms(2) None Some xf by (auto simp: stopCurrentProcess_def Let_def intro!: managed.equality)
        have n: "core ?n" by (rule new_stop_core) (use x xf False in simp_all)
        have cn: "cleaned ?n = cleaned st" using x(2) by (simp add: fun_eq_iff frame_defs)
        show ?thesis unfolding e using n cn xf only by (auto simp: stop_frame_def waits_for_def nth_append)
      qed
    qed
  qed
  then show "core st'" "waits_for st' (length (mg_children st')) ph" "stop_frame st st'" by simp_all
qed

lemma stop_frame_owns: "stop_frame st st' \<Longrightarrow> owns st' a = owns st a"
  by (simp add: stop_frame_def owns_def held_by_child_def all_cleaned_def cong: option.case_cong)

lemma stop_frame_held: "stop_frame st st' \<Longrightarrow> held_by_child st' = held_by_child st"
  by (simp add: stop_frame_def held_by_child_def all_cleaned_def)

text \<open>Releasing the reservation of an attempt that has no process.\<close>

lemma release_core:
  assumes "core st" "held_by_child st \<or> mg_held st = r \<and> all_cleaned st" "r = None \<or> mg_held st = r \<and> all_cleaned st"
  shows "core (releaseReservation r st)" "held_by_child (releaseReservation r st)" "mg_startup (releaseReservation r st) = mg_startup st"
    "attempt (releaseReservation r st) = attempt st" "mg_isShuttingDown (releaseReservation r st) = mg_isShuttingDown st"
proof -
  show f: "mg_startup (releaseReservation r st) = mg_startup st" "attempt (releaseReservation r st) = attempt st"
    "mg_isShuttingDown (releaseReservation r st) = mg_isShuttingDown st"
    by (simp_all add: releaseReservation_def Let_def attempt_def fun_eq_iff split: option.split)
  have "core (releaseReservation r st) \<and> held_by_child (releaseReservation r st)"
  proof (cases r)
    case None
    then show ?thesis
      using assms(1,2) by (auto simp: releaseReservation_def held_by_child_def)
  next
    case (Some t)
    then have h: "mg_held st = Some t" "all_cleaned st" using assms(3) by auto
    have r: "mg_reservation st = Some t" using assms(1) h(1) by (simp add: core_def children_ok_def)
    let ?e = "st\<lparr>mg_held := None, mg_reservation := None\<rparr>"
    have e: "releaseReservation r st = ?e\<lparr>mg_resident := False\<rparr>"
      using h(1) r Some by (simp add: releaseReservation_def Let_def)
    have c: "cleaned ?e = cleaned st" "exited ?e = exited st" "child ?e = child st" "attempt ?e = attempt st"
      by (simp_all add: fun_eq_iff frame_defs child_def attempt_def)
    have "children_ok ?e" using assms(1) h(2) by (simp add: core_def children_ok_def c all_cleaned_def)
    moreover have "stops_ok ?e" using assms(1) by (simp add: core_def stops_ok_def c)
    moreover have "starts_ok ?e" using assms(1) by (simp add: core_def starts_ok_def settled_def c)
    moreover have "waits_for ?e N = waits_for st N" for N
      by (simp add: waits_for_def c fun_eq_iff cong: stop_phase.case_cong)
    then have "down_ok ?e" using down_frame [of st ?e] assms(1) by (simp add: core_def all_cleaned_def c)
    ultimately have "core ?e" by (simp add: core_def)
    then show ?thesis by (simp add: e) (simp add: held_by_child_def)
  qed
  then show "core (releaseReservation r st)" "held_by_child (releaseReservation r st)" by simp_all
qed

lemma owns_release:
  assumes "owns st a" "at_proc a = None"
  shows "held_by_child st \<or> mg_held st = at_reservation a \<and> all_cleaned st"
    "at_reservation a = None \<or> mg_held st = at_reservation a \<and> all_cleaned st"
  using assms by (auto simp: owns_def split: option.splits)

lemma attempt_fails_inv:
  assumes "mid n st"
    and "err = MemoryRejected \<Longrightarrow> at_proc (attempt st n) = None"
    and "err = CrashLimitReached \<Longrightarrow> at_proc (attempt st n) = None \<and> at_reservation (attempt st n) = None"
  shows "managed_inv (attempt_fails n err st)"
proof -
  have m: "core st" "mg_startup st = Some n" "owns st (attempt st n)" using assms(1) by (simp_all add: mid_def)
  let ?st = "st\<lparr>mg_resolvedPlan := None\<rparr>"
  have mr: "core ?st" "mg_startup ?st = Some n" "owns ?st (attempt ?st n)" "attempt ?st = attempt st" using m by simp_all
  have a: "managed_inv (attempt_waits n (AtStop ph e) st')"
    if "stopCurrentProcess s = (ph, st')" "core s" "mg_startup s = Some n" "owns s (attempt s n)" "at_proc (attempt s n) \<noteq> None"
    for s ph st' e
  proof (rule waits_inv)
    note b = stop_begins [OF that(2,1)]
    have at: "attempt st' n = attempt s n" using b(3) by (simp add: stop_frame_def attempt_def)
    show "mid n st'" using b that stop_frame_owns [OF b(3)] by (simp add: mid_def at) (simp add: stop_frame_def)
    show "at_its_point st' ((attempt st' n)\<lparr>at_point := AtStop ph e\<rparr>)" using that(5) by (simp add: at_its_point_def at)
  qed simp
  have r: "managed_inv (attempt_ends n e (releaseReservation (at_reservation (attempt st n)) s))"
    if "core s" "mg_startup s = Some n" "owns s (attempt st n)" "at_proc (attempt st n) = None" for s e
    using release_core [OF that(1) owns_release [OF that(3,4)]] that(2) by (simp add: attempt_ends_inv)
  have r2: "managed_inv (attempt_ends n e ((releaseReservation (at_reservation (attempt st n)) s)\<lparr>mg_state := x\<rparr>))"
    if "core s" "mg_startup s = Some n" "owns s (attempt st n)" "at_proc (attempt st n) = None" for s e x
    using release_core [OF that(1) owns_release [OF that(3,4)]] that(2) by (simp add: attempt_ends_inv)
  have l: "managed_inv (attempt_ends n e ?st)" if "at_proc (attempt st n) = None" "at_reservation (attempt st n) = None" for e
    using m that by (intro attempt_ends_inv) (simp_all add: owns_def)
  let ?c = "?st\<lparr>mg_crashTimes := mg_crashTimes ?st @ [mg_now ?st]\<rparr>"
  have mc: "core ?c" "mg_startup ?c = Some n" "owns ?c (attempt ?c n)" "attempt ?c = attempt st" using m by simp_all
  show ?thesis
    using assms(2,3) a [OF _ mr(1-3)] r [OF mr(1,2)] r2 [OF mr(1,2)] l a [OF _ mc(1-3)] r2 [OF mc(1,2)] mr mc
    by (auto simp: attempt_fails_def Let_def split: option.splits prod.splits)
qed


lemma if_active_inv:
  assumes "mid n st" "startupIsActive st n \<Longrightarrow> managed_inv (go st)"
  shows "managed_inv (if_active n go st)"
  using assms(2) attempt_fails_inv [OF assms(1), of StartupCancelled] by (simp add: if_active_def)

text \<open>An attempt at one of its waits is in the middle of its run.\<close>

lemma attempt_mid:
  assumes "managed_inv st" "n < length (mg_attempts st)" "\<not> settled st n"
  shows "mid n st" "at_its_point st (attempt st n)"
proof -
  have "mg_startup st = Some n" using assms by (auto simp: managed_inv_def core_def starts_ok_def)
  then show "mid n st" "at_its_point st (attempt st n)" using assms(1) by (simp_all add: managed_inv_def mid_def)
qed

lemma start_attempt_inv:
  assumes "managed_inv st" "\<not> mg_isRestarting st" "\<not> mg_isShuttingDown st"
  shows "managed_inv (start_attempt st)"
proof -
  have c: "core st" "mg_startup st = None" "held_by_child st"
    using assms by (auto simp: managed_inv_def core_def starts_ok_def split: option.splits)
  let ?n = "length (mg_attempts st)"
  let ?a = "\<lparr>at_cancelled = False, at_proc = None, at_reservation = None, at_since = 0, at_point = AtBackoff\<rparr>"
  let ?e = "st\<lparr>mg_attempts := mg_attempts st @ [?a], mg_startup := Some ?n, mg_isRestarting := True, mg_restart := Some ?n\<rparr>"
  have f: "cleaned ?e = cleaned st" "exited ?e = exited st" "child ?e = child st" "all_cleaned ?e = all_cleaned st"
    "attempt ?e k = (if k < ?n then attempt st k else if k = ?n then ?a else attempt ?e k)" for k
    by (simp_all add: fun_eq_iff frame_defs child_def attempt_def all_cleaned_def nth_append)
  have "children_ok ?e" using c(1) by (simp add: core_def children_ok_def f)
  moreover have "stops_ok ?e" using c(1) by (simp add: core_def stops_ok_def f)
  moreover have "settled ?e k = settled st k" if "k < ?n" for k using that f(5) [of k] by (simp add: settled_def)
  then have "starts_ok ?e"
    using c(1,2) f(5) [of ?n] by (auto simp: core_def starts_ok_def less_Suc_eq) (simp add: settled_def)
  moreover have "down_ok ?e" using c(1) assms(3) by (auto simp: core_def down_ok_def)
  moreover have "owns ?e (attempt ?e ?n)" using c(3) f(5) [of ?n] by (simp add: owns_def) (simp add: held_by_child_def f)
  ultimately have m: "mid ?n ?e" by (simp add: mid_def core_def)
  have p: "at_proc (attempt ?e ?n) = None" "at_reservation (attempt ?e ?n) = None" "at_its_point ?e (attempt ?e ?n)"
    using f(5) [of ?n] by (simp_all add: at_its_point_def)
  let ?s = "st\<lparr>mg_resolvedPlan := None, mg_attempts := mg_attempts st @ [?a],
      mg_startup := Some ?n, mg_state := Starting, mg_isRestarting := True, mg_restart := Some ?n,
      mg_crashTimes := recent_crashes (mg_now st) (mg_crashTimes st)\<rparr>"
  have ag: "agree ?e ?s" by (simp add: agree_def)
  note s = agree_frame [OF ag]
  have m': "mid ?n ?s" "at_proc (attempt ?s ?n) = None" "at_reservation (attempt ?s ?n) = None" "at_its_point ?s (attempt ?s ?n)"
    using m p by (simp_all only: s)
  have "mid ?n (?s\<lparr>mg_state := Failed, mg_fatal := mg_fatal ?s + 1\<rparr>)" using m'(1) by (simp only: unread_simps)
  then have A: "managed_inv (attempt_fails ?n CrashLimitReached (?s\<lparr>mg_state := Failed, mg_fatal := mg_fatal ?s + 1\<rparr>))"
    by (rule attempt_fails_inv) (use m' in \<open>simp_all only: unread_simps\<close>)
  have B: "managed_inv ?s" using m' by (simp add: managed_inv_def mid_def)
  have C: "managed_inv (attempt_waits ?n AtPreflight ?s)"
    by (rule waits_inv [OF m'(1)]) (use m' in \<open>simp_all add: at_its_point_def\<close>)
  show ?thesis
    unfolding start_attempt_def Let_def
    by (split if_split, intro conjI impI, rule A, split if_split, intro conjI impI, rule B, rule C)
qed

lemma start_attempt_frame:
  "mg_stopping (start_attempt st) = mg_stopping st" "mg_stops (start_attempt st) = mg_stops st"
  "mg_children (start_attempt st) = mg_children st" "mg_kills (start_attempt st) = mg_kills st"
  "mg_shutdown (start_attempt st) = mg_shutdown st"
  by (simp_all add: start_attempt_def attempt_fails_def attempt_ends_def upd_attempt_def attempt_waits_def attempt_def Let_def)

section \<open>Settling the waits of an attempt\<close>

lemma point_waits:
  assumes "mid n st" "at_proc (attempt st n) = None" "at_reservation (attempt st n) = None" "pt \<in> {AtPreflight, AtLaunch, AtReserve}"
  shows "managed_inv (attempt_waits n pt st)"
  by (rule waits_inv [OF assms(1)]) (use assms(2-4) in \<open>auto simp: at_its_point_def\<close>)

lemma early_point:
  assumes "managed_inv st" "n < length (mg_attempts st)" "at_point (attempt st n) \<in> {AtBackoff, AtPreflight, AtLaunch, AtReserve}"
  shows "mid n st" "at_proc (attempt st n) = None" "at_reservation (attempt st n) = None"
proof -
  have "\<not> settled st n" using assms(3) by (auto simp: settled_def)
  from attempt_mid [OF assms(1,2) this] assms(3)
  show "mid n st" "at_proc (attempt st n) = None" "at_reservation (attempt st n) = None" by (auto simp: at_its_point_def)
qed

lemma early_fails:
  "mid n st \<Longrightarrow> at_proc (attempt st n) = None \<Longrightarrow> at_reservation (attempt st n) = None \<Longrightarrow> managed_inv (attempt_fails n err st)"
  by (rule attempt_fails_inv) simp_all

lemma backoff_over_inv:
  assumes "managed_inv st" "n < length (mg_attempts st)" "at_point (attempt st n) = AtBackoff"
  shows "managed_inv (backoff_over n st)"
  using early_point [OF assms(1,2)] assms(3) by (simp add: backoff_over_def if_active_inv point_waits)

lemma preflighted_inv:
  assumes "managed_inv st" "n < length (mg_attempts st)" "at_point (attempt st n) = AtPreflight"
  shows "managed_inv (preflighted n answer st)"
  using early_point [OF assms(1,2)] assms(3)
  by (cases answer) (simp_all add: preflighted_def if_active_inv point_waits early_fails)

lemma launched_inv:
  assumes "managed_inv st" "n < length (mg_attempts st)" "at_point (attempt st n) = AtLaunch"
  shows "managed_inv (launched opts n answer st)"
  using early_point [OF assms(1,2)] assms(3)
  by (cases answer) (simp_all add: launched_def if_active_inv point_waits early_fails)

lemma granted_mid:
  assumes "mid n st" "at_proc (attempt st n) = None" "at_reservation (attempt st n) = None" "mg_held st = None"
  shows "mid n (upd_attempt n (\<lambda>a. a\<lparr>at_reservation := Some t\<rparr>) (st\<lparr>mg_held := Some t, mg_reservation := Some t\<rparr>))" (is "mid n ?e")
    and "attempt (upd_attempt n (\<lambda>a. a\<lparr>at_reservation := Some t\<rparr>) (st\<lparr>mg_held := Some t, mg_reservation := Some t\<rparr>)) n =
      (attempt st n)\<lparr>at_reservation := Some t\<rparr>"
proof -
  have m: "core st" "mg_startup st = Some n" using assms(1) by (simp_all add: mid_def)
  note n = core_starts [OF m]
  have all: "all_cleaned st" using only_uncleaned(2) [OF m(1)] assms(4) by (auto simp: all_cleaned_def)
  have e: "mg_children ?e = mg_children st" "mg_stops ?e = mg_stops st" "mg_proc ?e = mg_proc st" "mg_held ?e = Some t"
    "mg_reservation ?e = Some t" "mg_stopping ?e = mg_stopping st" "mg_startup ?e = mg_startup st"
    "mg_isRestarting ?e = mg_isRestarting st" "mg_restart ?e = mg_restart st" "mg_shutdown ?e = mg_shutdown st"
    "mg_isShuttingDown ?e = mg_isShuttingDown st" "length (mg_attempts ?e) = length (mg_attempts st)"
    "mg_attempts ?e = [] \<longleftrightarrow> mg_attempts st = []"
    "attempt ?e k = (if k = n then (attempt st n)\<lparr>at_reservation := Some t\<rparr> else attempt st k)" for k
    using n by (auto simp: upd_attempt_def attempt_def nth_list_update)
  have c: "cleaned ?e = cleaned st" "exited ?e = exited st" "child ?e = child st"
    by (simp_all add: fun_eq_iff frame_defs e(1) child_def)
  have a: "all_cleaned ?e = all_cleaned st" by (simp add: all_cleaned_def c e)
  have "children_ok ?e" using m(1) all by (simp add: core_def children_ok_def all_cleaned_def c e)
  moreover have "stops_ok ?e" using m(1) unfolding core_def stops_ok_def e c by blast
  moreover have "settled ?e k = settled st k" for k by (simp add: settled_def e)
  then have "starts_ok ?e" using m(1) unfolding core_def starts_ok_def e by simp
  moreover have "down_ok ?e" using down_early [of st ?e] m by (simp add: core_def e)
  moreover have "owns ?e (attempt ?e n)" using assms(2) all by (simp add: owns_def e a)
  ultimately show "mid n ?e" using m(2) by (simp add: mid_def core_def e)
  show "attempt ?e n = (attempt st n)\<lparr>at_reservation := Some t\<rparr>" by (simp add: e)
qed

lemma reserved_inv:
  assumes "managed_inv st" "n < length (mg_attempts st)" "at_point (attempt st n) = AtReserve"
  shows "managed_inv (reserved n answer st)"
proof (cases answer)
  case Fits
  note p = early_point [OF assms(1,2)]
  have ep: "at_point (attempt st n) \<in> {AtBackoff, AtPreflight, AtLaunch, AtReserve}" using assms(3) by simp
  show ?thesis
  proof (cases "mg_held st = None")
    case True
    let ?t = "mg_nextToken st"
    let ?e = "upd_attempt n (\<lambda>a. a\<lparr>at_reservation := Some ?t\<rparr>) (st\<lparr>mg_held := Some ?t, mg_reservation := Some ?t\<rparr>)"
    let ?s = "upd_attempt n (\<lambda>a. a\<lparr>at_reservation := Some ?t\<rparr>)
                (st\<lparr>mg_held := Some ?t, mg_resident := False, mg_nextToken := Suc ?t, mg_reservation := Some ?t\<rparr>)"
    have ag: "agree ?e ?s" by (simp add: agree_def upd_attempt_def)
    note g = granted_mid [OF p [OF ep] True, of ?t]
    have m: "mid n ?s" "attempt ?s n = (attempt st n)\<lparr>at_reservation := Some ?t\<rparr>"
      using g by (simp_all only: agree_frame [OF ag])
    have "managed_inv (attempt_waits n AtSpawn ?s)"
      by (rule waits_inv [OF m(1)]) (use p [OF ep] in \<open>simp_all add: m(2) at_its_point_def\<close>)
    then show ?thesis using Fits True m(1) by (simp add: reserved_def Let_def if_active_inv)
  qed (use Fits p [OF ep] in \<open>simp add: reserved_def early_fails\<close>)
next
  case (Fails e)
  then show ?thesis using early_point [OF assms(1,2)] assms(3) by (simp add: reserved_def early_fails)
qed


lemma late_point:
  assumes "managed_inv st" "n < length (mg_attempts st)" "at_point (attempt st n) = AtHealth \<or> at_point (attempt st n) = AtHealthPoll"
  shows "mid n st" "at_proc (attempt st n) \<noteq> None"
proof -
  have "\<not> settled st n" using assms(3) by (auto simp: settled_def)
  from attempt_mid [OF assms(1,2) this] assms(3) show "mid n st" "at_proc (attempt st n) \<noteq> None" by (auto simp: at_its_point_def)
qed

lemma late_waits:
  "mid n st \<Longrightarrow> at_proc (attempt st n) \<noteq> None \<Longrightarrow> pt \<in> {AtHealth, AtHealthPoll} \<Longrightarrow> managed_inv (attempt_waits n pt st)"
  by (rule waits_inv) (auto simp: at_its_point_def)

lemma late_fails: "mid n st \<Longrightarrow> managed_inv (attempt_fails n StartupFailed st)"
  by (rule attempt_fails_inv) simp_all

lemma waitHealthy_inv:
  assumes "mid n st" "at_proc (attempt st n) \<noteq> None"
  shows "managed_inv (waitHealthy opts n st)"
  using late_fails [OF assms(1)] late_waits [OF assms] by (simp add: waitHealthy_def if_active_inv [OF assms(1)])

lemma health_answered_inv:
  assumes "managed_inv st" "n < length (mg_attempts st)" "at_point (attempt st n) = AtHealth"
  shows "managed_inv (health_answered n answer st)"
proof -
  note l = late_point [OF assms(1,2)]
  have m: "mid n st" "at_proc (attempt st n) \<noteq> None" using l assms(3) by simp_all
  have h: "core st" "mg_startup st = Some n" "held_by_child st" using m by (auto simp: mid_def owns_def)
  have "managed_inv (attempt_ends n None (st\<lparr>mg_resident := x, mg_state := Running\<rparr>))" for x
    by (rule attempt_ends_inv) (use h in simp_all)
  then show ?thesis
    using late_waits [OF m] by (cases answer) (simp_all add: health_answered_def if_active_inv [OF m(1)])
qed

lemma spawned_inv:
  assumes "managed_inv st" "n < length (mg_attempts st)" "at_point (attempt st n) = AtSpawn"
  shows "managed_inv (spawned opts n answer st)"
proof -
  have "\<not> settled st n" using assms(3) by (simp add: settled_def)
  note m = attempt_mid [OF assms(1,2) this]
  obtain t where t: "at_proc (attempt st n) = None" "at_reservation (attempt st n) = Some t"
    using m(2) assms(3) by (auto simp: at_its_point_def)
  have c: "core st" "mg_startup st = Some n" "mg_held st = Some t" "all_cleaned st"
    using m(1) t by (simp_all add: mid_def owns_def)
  note n = core_starts [OF c(1,2)]
  have ns: "mg_stopping st = None"
    using stop_pending(3,5) [OF c(1)] c(4) by (cases "mg_stopping st") (auto simp: all_cleaned_def)
  show ?thesis
  proof (cases answer)
    case None
    then show ?thesis using late_fails [OF m(1)] by (simp add: spawned_def)
  next
    case (Some pg)
    obtain pid g where pg: "pg = (pid, g)" by (cases pg)
    let ?p = "length (mg_children st)"
    let ?c = "\<lparr>ch_pid = pid, ch_exited = False, ch_reservation = t, ch_expected = False, ch_cleanup = CleanupWaiting\<rparr>"
    let ?e = "upd_attempt n (\<lambda>a. a\<lparr>at_proc := Some ?p, at_since := mg_now st\<rparr>) (st\<lparr>mg_children := mg_children st @ [?c], mg_proc := Some ?p\<rparr>)"
    have e: "mg_children ?e = mg_children st @ [?c]" "mg_stops ?e = mg_stops st" "mg_proc ?e = Some ?p" "mg_held ?e = Some t"
      "mg_reservation ?e = mg_reservation st" "mg_stopping ?e = None" "mg_startup ?e = mg_startup st"
      "mg_isRestarting ?e = mg_isRestarting st" "mg_restart ?e = mg_restart st" "mg_shutdown ?e = mg_shutdown st"
      "mg_isShuttingDown ?e = mg_isShuttingDown st" "length (mg_attempts ?e) = length (mg_attempts st)"
      "mg_attempts ?e = [] \<longleftrightarrow> mg_attempts st = []"
      "attempt ?e k = (if k = n then (attempt st n)\<lparr>at_proc := Some ?p, at_since := mg_now st\<rparr> else attempt st k)" for k
      using n ns c(3) by (auto simp: upd_attempt_def attempt_def nth_list_update)
    have old: "cleaned ?e k" if "k < ?p" for k
      using c(4) that by (simp add: all_cleaned_def frame_defs e(1) nth_append)
    have new: "child ?e ?p = ?c" by (simp add: child_def e(1))
    then have nc: "\<not> cleaned ?e ?p" "ch_cleanup (child ?e ?p) = CleanupWaiting" by (simp_all add: cleaned_def)
    have ex: "ch_cleanup (child ?e k) = CleanupWaiting \<or> exited ?e k" if "k < ?p" for k
      using children_exit [OF c(1) that] that by (auto simp: frame_defs child_def e(1) nth_append)
    have "children_ok ?e"
      using c(1,3) old ex new nc(2) by (auto simp: core_def children_ok_def e less_Suc_eq)
    moreover have "stops_ok ?e"
      using c(1) old by (auto simp: core_def stops_ok_def e less_Suc_eq ns)
    moreover have "settled ?e k = settled st k" for k by (simp add: settled_def e)
    then have "starts_ok ?e" using c(1) unfolding core_def starts_ok_def e by simp
    moreover have "down_ok ?e" using down_early [of st ?e] c(1,2) by (simp add: core_def e)
    moreover have "owns ?e (attempt ?e n)" using nc(1) by (auto simp: owns_def e held_by_child_def all_cleaned_def)
    ultimately have me: "mid n ?e" using c(2) by (simp add: mid_def core_def e)
    have ap: "at_proc (attempt ?e n) \<noteq> None" by (simp add: e)
    let ?g = "startGuardian pid ?e"
    have ag: "agree ?e ?g" by (simp add: startGuardian_def agree_def)
    have mg: "mid n ?g" "at_proc (attempt ?g n) \<noteq> None" using me ap by (simp_all only: agree_frame [OF ag] not_False_eq_True)
    show ?thesis
      using Some pg t late_fails [OF me] waitHealthy_inv [OF mg] attempt_fails_inv [OF mg(1), of StartupCancelled]
      by (simp add: spawned_def Let_def)
  qed
qed

section \<open>Waiting for a stop\<close>

lemma forget_fields [simp]:
  "mg_children (forget_proc p st) = mg_children st" "mg_attempts (forget_proc p st) = mg_attempts st"
  "mg_startup (forget_proc p st) = mg_startup st" "mg_held (forget_proc p st) = mg_held st"
  "mg_reservation (forget_proc p st) = mg_reservation st" "mg_isRestarting (forget_proc p st) = mg_isRestarting st"
  "mg_restart (forget_proc p st) = mg_restart st" "mg_shutdown (forget_proc p st) = mg_shutdown st"
  "mg_isShuttingDown (forget_proc p st) = mg_isShuttingDown st" "mg_kills (forget_proc p st) = mg_kills st"
  "mg_stops (forget_proc p st) = mg_stops st" "mg_stopping (forget_proc p st) = mg_stopping st"
  by (simp_all add: forget_proc_def)

lemma forget_core:
  assumes "core st" "cleaned st p"
  shows "core (forget_proc p st)" "cleaned (forget_proc p st) = cleaned st"
proof -
  let ?e = "st\<lparr>mg_proc := None\<rparr>"
  have c: "cleaned ?e = cleaned st" "exited ?e = exited st" "child ?e = child st" "attempt ?e = attempt st"
    by (simp_all add: fun_eq_iff frame_defs child_def attempt_def)
  have w: "waits_for ?e N = waits_for st N" for N
    by (simp add: waits_for_def c fun_eq_iff cong: stop_phase.case_cong)
  have "core ?e" if "mg_proc st = Some p"
  proof -
    have all: "cleaned st q" if "q < length (mg_children st)" for q
      using only_uncleaned(1) [OF assms(1) that] \<open>mg_proc st = Some p\<close> assms(2) by auto
    have "children_ok ?e" using assms(1) all by (simp add: core_def children_ok_def c)
    moreover have "stops_ok ?e" using assms(1) by (simp add: core_def stops_ok_def c)
    moreover have "starts_ok ?e" using assms(1) by (simp add: core_def starts_ok_def settled_def c)
    moreover have "down_ok ?e" using down_frame [of st ?e] assms(1) w by (simp add: core_def all_cleaned_def c)
    ultimately show ?thesis by (simp add: core_def)
  qed
  then show "core (forget_proc p st)" "cleaned (forget_proc p st) = cleaned st"
    using assms(1) c(1) by (simp_all add: forget_proc_def)
qed

lemma stop_step_ok:
  assumes "core st" "stop_step ph st = (out, st')"
  shows "core st'" "stop_frame st st'"
    and "out = Returned \<Longrightarrow> waits_for st N ph \<Longrightarrow> p < N \<Longrightarrow> cleaned st p"
proof -
  have s: "st' = st \<or> (\<exists>p. cleaned st p \<and> st' = (forget_proc p st)\<lparr>mg_resolvedPlan := None\<rparr>)"
    using assms(2) by (auto simp: stop_step_def cleaned_def split: stop_phase.splits option.splits bool.splits cleanup.splits)
  then show "core st'" using assms(1) forget_core(1) by auto
  show "stop_frame st st'"
    using s forget_core(2) [OF assms(1)] by (auto simp: stop_frame_def)
  show "cleaned st p" if "out = Returned" "waits_for st N ph" "p < N"
  proof (cases ph)
    case (Joining k)
    then have "snd (mg_stops st ! k) = Some True" "k < length (mg_stops st)"
      using assms(2) that(1,2) by (auto simp: stop_step_def waits_for_def split: option.splits bool.splits)
    then have "cleaned st (fst (mg_stops st ! k))" using assms(1) by (auto simp: core_def stops_ok_def)
    then show ?thesis using that(2,3) Joining by (auto simp: waits_for_def)
  next
    case (AwaitingExited q)
    then have "cleaned st q"
      using assms(2) that(1) by (auto simp: stop_step_def cleaned_def split: cleanup.splits bool.splits)
    then show ?thesis using that(2,3) AwaitingExited by (auto simp: waits_for_def)
  qed (use that in \<open>auto simp: waits_for_def\<close>)
qed

lemma stop_frame_inv:
  assumes "managed_inv st" "stop_frame st st'" "core st'"
  shows "managed_inv st'"
proof -
  have "attempt st' = attempt st" "mg_startup st' = mg_startup st" using assms(2) by (simp_all add: stop_frame_def attempt_def fun_eq_iff)
  then show ?thesis
    using assms(1,3) stop_frame_owns [OF assms(2)] stop_frame_held [OF assms(2)]
    by (simp add: managed_inv_def at_its_point_def cong: option.case_cong)
qed

lemma attempt_stop_inv:
  assumes "managed_inv st" "n < length (mg_attempts st)"
  shows "managed_inv (attempt_stop n st)"
proof (cases "at_point (attempt st n)")
  case (AtStop ph err)
  have "\<not> settled st n" by (simp add: settled_def AtStop)
  note m = attempt_mid [OF assms this]
  have h: "core st" "mg_startup st = Some n" "held_by_child st"
    using m AtStop by (auto simp: mid_def owns_def at_its_point_def)
  obtain out st1 where o: "stop_step ph st = (out, st1)" by (cases "stop_step ph st")
  note s = stop_step_ok(1,2) [OF h(1) o]
  have h1: "core st1" "mg_startup st1 = Some n" "held_by_child st1" "managed_inv st1"
    using s h stop_frame_held [OF s(2)] stop_frame_inv [OF assms(1) s(2,1)] by (simp_all add: stop_frame_def)
  have "managed_inv (attempt_ends n e st1)" "managed_inv (attempt_ends n e (st1\<lparr>mg_state := x\<rparr>))" for e x
    using h1 by (simp_all add: attempt_ends_inv)
  then show ?thesis using h1(4) by (simp add: attempt_stop_def AtStop o split: stop_outcome.split)
qed (use assms(1) in \<open>simp_all add: attempt_stop_def\<close>)


section \<open>The end of a process\<close>

text \<open>A change of one process that leaves its cleanup as far as it was.\<close>

lemma child_update_inv:
  assumes "managed_inv st" "p < length (mg_children st)"
    and f: "\<And>c. ch_reservation (f c) = ch_reservation c" "\<And>c. ch_expected c \<Longrightarrow> ch_expected (f c)" "\<And>c. ch_exited c \<Longrightarrow> ch_exited (f c)"
    and g: "cleaned (upd_child p f st) = cleaned st"
      "ch_cleanup (f (child st p)) = CleanupWaiting \<or> ch_exited (f (child st p))"
  shows "managed_inv (upd_child p f st)"
proof -
  let ?e = "upd_child p f st"
  have c: "core st" using assms(1) by (simp add: managed_inv_def)
  have ch: "child ?e q = (if q = p then f (child st p) else child st q)" for q
    using assms(2) by (auto simp: upd_child_def child_def nth_list_update)
  have e: "length (mg_children ?e) = length (mg_children st)" "mg_proc ?e = mg_proc st" "mg_held ?e = mg_held st"
    "mg_reservation ?e = mg_reservation st" "mg_stops ?e = mg_stops st" "mg_stopping ?e = mg_stopping st" "attempt ?e = attempt st"
    "mg_attempts ?e = mg_attempts st" "mg_startup ?e = mg_startup st" "mg_isRestarting ?e = mg_isRestarting st"
    "mg_restart ?e = mg_restart st" "mg_shutdown ?e = mg_shutdown st" "mg_isShuttingDown ?e = mg_isShuttingDown st"
    by (simp_all add: upd_child_def fun_eq_iff attempt_def)
  have a: "all_cleaned ?e = all_cleaned st" by (simp add: all_cleaned_def g e)
  have r: "ch_reservation (child ?e q) = ch_reservation (child st q)" for q by (simp add: ch f(1))
  have x: "ch_cleanup (child ?e q) = CleanupWaiting \<or> exited ?e q" if "q < length (mg_children st)" for q
    using c that g(2) by (auto simp: ch exited_def core_def children_ok_def)
  have "children_ok ?e" using c x by (simp add: core_def children_ok_def g(1) r e)
  moreover have "stops_ok ?e" using c f(2) by (auto simp: core_def stops_ok_def g(1) e ch)
  moreover have "starts_ok ?e" using c by (simp add: core_def starts_ok_def settled_def e)
  moreover have "waits_for ?e N = waits_for st N" for N
    by (simp add: waits_for_def g(1) e fun_eq_iff cong: stop_phase.case_cong)
  then have "down_ok ?e" using down_frame [of st ?e] c by (simp add: core_def e a)
  moreover have "owns ?e = owns st" by (simp add: owns_def fun_eq_iff e a held_by_child_def cong: option.case_cong)
  ultimately show ?thesis
    using assms(1) by (simp add: managed_inv_def core_def e a held_by_child_def at_its_point_def cong: option.case_cong)
qed

lemma exit_inv:
  assumes "managed_inv st" "p < length (mg_children st)"
  shows "managed_inv (upd_child p (\<lambda>c. c\<lparr>ch_exited := True\<rparr>) st)"
proof (rule child_update_inv [OF assms])
  have "ch_cleanup (child (upd_child p (\<lambda>c. c\<lparr>ch_exited := True\<rparr>) st) q) = ch_cleanup (child st q)" for q
    using assms(2) by (cases "q = p"; simp add: upd_child_def child_def)
  then show "cleaned (upd_child p (\<lambda>c. c\<lparr>ch_exited := True\<rparr>) st) = cleaned st" by (simp add: fun_eq_iff cleaned_def)
qed simp_all

lemma guardian_stopping_inv:
  assumes "managed_inv st" "p < length (mg_children st)" "exited st p" "ch_cleanup (child st p) = CleanupWaiting"
  shows "managed_inv (upd_child p (\<lambda>c. c\<lparr>ch_cleanup := CleanupGuardian g\<rparr>) st)"
proof (rule child_update_inv [OF assms(1,2)])
  show "cleaned (upd_child p (\<lambda>c. c\<lparr>ch_cleanup := CleanupGuardian g\<rparr>) st) = cleaned st"
    using assms(2,4) by (auto simp: fun_eq_iff cleaned_def upd_child_def child_def nth_list_update)
qed (use assms(3) in \<open>simp_all add: exited_def\<close>)

text \<open>Once the last process has been cleaned up nothing is held, and no stop is pending.\<close>

lemma all_clean_inv:
  assumes "managed_inv st" "p < length (mg_children st)" "\<not> cleaned st p" "exited st p"
    and e: "mg_children e = (mg_children st)[p := (child st p)\<lparr>ch_cleanup := CleanupDone ok\<rparr>]" "mg_held e = None" "mg_reservation e = None"
      "mg_stopping e = None" "length (mg_stops e) = length (mg_stops st)"
      "\<forall>k < length (mg_stops st). fst (mg_stops e ! k) = fst (mg_stops st ! k) \<and> snd (mg_stops e ! k) \<noteq> None"
      "mg_proc e = mg_proc st" "mg_attempts e = mg_attempts st" "mg_startup e = mg_startup st"
      "mg_isRestarting e = mg_isRestarting st" "mg_restart e = mg_restart st" "mg_shutdown e = mg_shutdown st"
      "mg_isShuttingDown e = mg_isShuttingDown st"
  shows "managed_inv e" "all_cleaned e"
proof -
  have c: "core st" using assms(1) by (simp add: managed_inv_def)
  have ch: "child e q = (if q = p then (child st p)\<lparr>ch_cleanup := CleanupDone ok\<rparr> else child st q)" for q
    using assms(2) by (auto simp: child_def e(1) nth_list_update)
  have cl: "cleaned e q" if "q < length (mg_children st)" for q
    using only_uncleaned(1) [OF c that] only_uncleaned(1) [OF c assms(2,3)] by (auto simp: cleaned_def ch)
  have len: "length (mg_children e) = length (mg_children st)" by (simp add: e(1))
  show a: "all_cleaned e" by (simp add: all_cleaned_def len cl)
  have x: "ch_cleanup (child e q) = CleanupWaiting \<or> exited e q" if "q < length (mg_children st)" for q
    using children_exit [OF c that] assms(4) by (auto simp: ch exited_def)
  have at: "attempt e = attempt st" by (simp add: fun_eq_iff attempt_def e(8))
  have "children_ok e" using c cl x by (simp add: core_def children_ok_def len e(2,3,7))
  moreover have "stops_ok e"
    using c e(6) cl by (simp add: core_def stops_ok_def len e(4,5))
  moreover have "starts_ok e" using c by (simp add: core_def starts_ok_def settled_def e at)
  moreover have "waits_for e (length (mg_children st)) ph" if "waits_for st (length (mg_children st)) ph" for ph
    using that cl by (simp add: waits_for_def e(5))
  then have "down_ok e" using down_frame [of st e] c a by (simp add: core_def len e)
  moreover have "\<not> all_cleaned st" using assms(2,3) by (auto simp: all_cleaned_def)
  then have "owns e (attempt st n)" if "owns st (attempt st n)" for n
    using that by (auto simp: owns_def len held_by_child_def e(2) split: option.splits)
  ultimately show "managed_inv e"
    using assms(1) by (auto simp: managed_inv_def core_def e(9) at held_by_child_def e(2) at_its_point_def split: option.splits)
qed

lemma stop_promise_settles_at:
  "mg_stopping s = Some k \<Longrightarrow> fst (mg_stops s ! k) = p \<Longrightarrow> mg_proc s = Some p \<Longrightarrow>
    stop_promise_settles ok s = (if ok then s\<lparr>mg_proc := None\<rparr> else s\<lparr>mg_state := Failed\<rparr>)
      \<lparr>mg_stops := (mg_stops s)[k := (p, Some ok)], mg_stopping := None\<rparr>"
  by (simp add: stop_promise_settles_def Let_def forget_proc_def)

lemma cleanup_ends_inv:
  assumes "managed_inv st" "p < length (mg_children st)" "\<not> cleaned st p" "exited st p"
  shows "managed_inv (cleanup_ends p ok st)"
proof -
  have c: "core st" using assms(1) by (simp add: managed_inv_def)
  note u = only_uncleaned [OF c assms(2,3)]
  have res: "mg_reservation st = Some (ch_reservation (child st p))" using c u(2) by (simp add: core_def children_ok_def)
  let ?r = "releaseReservation (Some (ch_reservation (child st p))) st"
  let ?e = "upd_child p (\<lambda>c. c\<lparr>ch_cleanup := CleanupDone ok\<rparr>) ?r"
  have r: "?r = st\<lparr>mg_held := None, mg_resident := False, mg_reservation := None\<rparr>"
    by (simp add: releaseReservation_def u(2) res)
  have e: "mg_children ?e = (mg_children st)[p := (child st p)\<lparr>ch_cleanup := CleanupDone ok\<rparr>]" "mg_held ?e = None"
    "mg_reservation ?e = None" "mg_stopping ?e = mg_stopping st" "mg_stops ?e = mg_stops st" "mg_proc ?e = mg_proc st"
    "mg_attempts ?e = mg_attempts st" "mg_startup ?e = mg_startup st" "mg_isRestarting ?e = mg_isRestarting st"
    "mg_restart ?e = mg_restart st" "mg_shutdown ?e = mg_shutdown st" "mg_isShuttingDown ?e = mg_isShuttingDown st"
    unfolding r by (simp_all add: upd_child_def child_def)
  have che: "child ?e p = (child st p)\<lparr>ch_cleanup := CleanupDone ok\<rparr>" using assms(2) by (simp add: child_def [of ?e] e(1))
  have clp: "cleaned s p" if "child s p = child ?e p" for s using that che by (simp add: cleaned_def)
  have forget: "managed_inv (s\<lparr>mg_proc := None\<rparr>)" if "managed_inv s" "mg_proc s = Some p" "cleaned s p" "all_cleaned s" "mg_held s = None" for s
  proof -
    have f: "s\<lparr>mg_proc := None\<rparr> = forget_proc p s" using that(2) by (simp add: forget_proc_def)
    have "core s" using that(1) by (simp add: managed_inv_def)
    note k = forget_core [OF this that(3)]
    have "stop_frame s (forget_proc p s)" by (simp add: stop_frame_def k(2))
    from stop_frame_inv [OF that(1) this k(1)] show ?thesis by (simp add: f)
  qed
  show ?thesis
  proof (cases "mg_stopping st")
    case None
    have s: "\<forall>k < length (mg_stops st). fst (mg_stops ?e ! k) = fst (mg_stops st ! k) \<and> snd (mg_stops ?e ! k) \<noteq> None"
      using c None by (simp add: core_def stops_ok_def e)
    note i = all_clean_inv [OF assms e(1-3) _ _ s e(6-12)]
    have ie: "managed_inv ?e" "all_cleaned ?e" using i by (simp_all add: e None)
    let ?h = "?e\<lparr>mg_crashTimes := mg_crashTimes ?e @ [mg_now ?e], mg_proc := None, mg_state := Starting\<rparr>"
    have "managed_inv (?e\<lparr>mg_proc := None\<rparr>)" by (rule forget) (use ie u(1) clp in \<open>simp_all add: e\<close>)
    moreover have "agree (?e\<lparr>mg_proc := None\<rparr>) ?h" by (simp add: agree_def)
    ultimately have "managed_inv ?h" by (simp only: agree_frame)
    then have h: "managed_inv (handleCrash p ?e)"
      using ie(1) by (auto simp: handleCrash_def intro: start_attempt_inv)
    have "mg_stopping (handleCrash p ?e) = None" by (simp add: handleCrash_def start_attempt_frame e None)
    then show ?thesis using h by (simp add: cleanup_ends_def stop_cleaned_def)
  next
    case (Some k)
    note k = stop_pending [OF c Some]
    have fp: "fst (mg_stops st ! k) = p" using only_uncleaned(1) [OF c k(5,3)] u(1) by simp
    have "ch_expected (child ?e p)" using k(4) fp che by simp
    then have hc: "handleCrash p ?e = ?e" by (simp add: handleCrash_def)
    let ?f = "?e\<lparr>mg_stops := (mg_stops ?e)[k := (p, Some ok)], mg_stopping := None\<rparr>"
    have s: "\<forall>j < length (mg_stops st). fst (mg_stops ?f ! j) = fst (mg_stops st ! j) \<and> snd (mg_stops ?f ! j) \<noteq> None"
      using c Some k(1) fp by (auto simp: core_def stops_ok_def nth_list_update e)
    have f: "mg_children ?f = (mg_children st)[p := (child st p)\<lparr>ch_cleanup := CleanupDone ok\<rparr>]" "mg_held ?f = None" "mg_reservation ?f = None"
      "mg_stopping ?f = None" "length (mg_stops ?f) = length (mg_stops st)" "mg_proc ?f = mg_proc st"
      "mg_attempts ?f = mg_attempts st" "mg_startup ?f = mg_startup st" "mg_isRestarting ?f = mg_isRestarting st"
      "mg_restart ?f = mg_restart st" "mg_shutdown ?f = mg_shutdown st" "mg_isShuttingDown ?f = mg_isShuttingDown st"
      by (simp_all add: e)
    note i = all_clean_inv [OF assms f(1-5) s f(6-12)]
    have cf: "cleaned ?f p" by (rule clp) (simp add: child_def)
    have g: "managed_inv (?f\<lparr>mg_proc := None\<rparr>)" by (rule forget) (use i u(1) cf in \<open>simp_all add: e\<close>)
    have r: "cleanup_ends p ok st = stop_promise_settles ok ?e"
      by (simp add: cleanup_ends_def hc stop_cleaned_def e Some fp)
    have settle: "stop_promise_settles ok ?e = (if ok then ?e\<lparr>mg_proc := None\<rparr> else ?e\<lparr>mg_state := Failed\<rparr>)
        \<lparr>mg_stops := (mg_stops ?e)[k := (p, Some ok)], mg_stopping := None\<rparr>"
      by (rule stop_promise_settles_at) (simp_all add: e Some fp u(1))
    show ?thesis
    proof (cases ok)
      case True
      have "agree (?f\<lparr>mg_proc := None\<rparr>) (stop_promise_settles ok ?e)"
        unfolding settle agree_def using True by simp
      then show ?thesis using g by (simp only: r agree_frame)
    next
      case False
      have "agree ?f (stop_promise_settles ok ?e)" unfolding settle agree_def using False by simp
      then show ?thesis using i(1) by (simp only: r agree_frame)
    qed
  qed
qed


lemma cleanup_step_inv:
  assumes "managed_inv st" "p < length (mg_children st)"
  shows "managed_inv (cleanup_step p ok st)"
proof -
  have c: "core st" using assms(1) by (simp add: managed_inv_def)
  have d: "managed_inv (delete_guardian pid g st)" "agree st (delete_guardian pid g st)" for pid g
    using assms(1) by (simp_all add: delete_guardian_def) (simp add: agree_def)
  show ?thesis
  proof (cases "ch_cleanup (child st p)")
    case CleanupWaiting
    then have "\<not> cleaned st p" by (simp add: cleaned_def)
    with CleanupWaiting show ?thesis
      using assms cleanup_ends_inv [OF assms] guardian_stopping_inv [OF assms]
      by (simp add: cleanup_step_def split: option.split)
  next
    case (CleanupGuardian g)
    then have n: "\<not> cleaned st p" "exited st p" using children_exit [OF c assms(2)] by (simp_all add: cleaned_def)
    note ag = agree_frame [OF d(2) [of "ch_pid (child st p)" g]]
    have "managed_inv (cleanup_ends p True (delete_guardian (ch_pid (child st p)) g st))"
    proof (rule cleanup_ends_inv [OF d(1)])
      show "p < length (mg_children (delete_guardian (ch_pid (child st p)) g st))" using assms(2) by (simp add: delete_guardian_def)
    qed (use n in \<open>simp_all only: ag not_False_eq_True\<close>)
    then show ?thesis using cleanup_ends_inv [OF assms n] by (simp add: cleanup_step_def CleanupGuardian)
  qed (use assms(1) in \<open>simp add: cleanup_step_def\<close>)
qed

lemma stop_fails_inv:
  assumes "managed_inv st"
  shows "managed_inv (stop_fails k st)"
proof (cases "mg_stopping st = Some k")
  case True
  have c: "core st" using assms by (simp add: managed_inv_def)
  note k = stop_pending [OF c True]
  let ?e = "st\<lparr>mg_stops := (mg_stops st)[k := (fst (mg_stops st ! k), Some False)], mg_stopping := None\<rparr>"
  have f: "cleaned ?e = cleaned st" "exited ?e = exited st" "child ?e = child st" "attempt ?e = attempt st" "all_cleaned ?e = all_cleaned st"
    by (simp_all add: fun_eq_iff frame_defs child_def attempt_def all_cleaned_def)
  have fe: "fst ((mg_stops st)[k := (fst (mg_stops st ! k), Some False)] ! j) = fst (mg_stops st ! j)" for j
    using k(1) by (cases "j = k") simp_all
  have "children_ok ?e" using c by (simp add: core_def children_ok_def f)
  moreover have "stops_ok ?e" using c True k(1) by (auto simp: core_def stops_ok_def f nth_list_update)
  moreover have "starts_ok ?e" using c by (simp add: core_def starts_ok_def settled_def f)
  moreover have "waits_for ?e N ph" if "waits_for st N ph" for N ph
    using that by (auto simp: waits_for_def f fe split: stop_phase.splits)
  then have "down_ok ?e" using down_frame [of st ?e] c by (simp add: core_def f)
  moreover have "owns ?e = owns st" by (simp add: owns_def fun_eq_iff f held_by_child_def cong: option.case_cong)
  ultimately have "managed_inv ?e"
    using assms by (simp add: managed_inv_def core_def f held_by_child_def at_its_point_def cong: option.case_cong)
  moreover have "agree ?e (stop_fails k st)" by (simp add: stop_fails_def stop_promise_settles_def True Let_def agree_def)
  ultimately show ?thesis by (simp only: agree_frame)
qed (use assms in \<open>simp add: stop_fails_def\<close>)

section \<open>Callers\<close>

lemma caller_goes_inv:
  assumes "managed_inv st" "out = CallerStarts \<Longrightarrow> \<not> mg_isRestarting st \<and> \<not> mg_isShuttingDown st"
  shows "managed_inv (caller_goes c out st)"
  using assms start_attempt_inv by (cases out) (simp_all add: caller_goes_def)

lemma ensure_starts:
  "ensure_checked st = CallerStarts \<Longrightarrow> \<not> mg_isRestarting st \<and> \<not> mg_isShuttingDown st"
  "ensureRunning st = CallerStarts \<Longrightarrow> \<not> mg_isRestarting st \<and> \<not> mg_isShuttingDown st"
  by (auto simp: ensureRunning_def ensure_checked_def split: if_splits option.splits)

lemma caller_step_inv: "managed_inv st \<Longrightarrow> managed_inv (caller_step c st)"
  by (auto simp: caller_step_def split: caller_point.split option.split bool.split attempt_point.split
      intro!: caller_goes_inv dest: ensure_starts)

lemma ensure_call_inv: "managed_inv st \<Longrightarrow> managed_inv (ensure_call st)"
  by (auto simp: ensure_call_def intro!: caller_goes_inv dest: ensure_starts)

section \<open>Kill and shutdown\<close>

lemma cancelStartup_inv:
  assumes "managed_inv st"
  shows "managed_inv (cancelStartup st)"
proof (cases "mg_startup st")
  case (Some n)
  have c: "core st" using assms by (simp add: managed_inv_def)
  note n = core_starts [OF c Some]
  let ?e = "cancelStartup st"
  have e: "mg_children ?e = mg_children st" "mg_stops ?e = mg_stops st" "mg_proc ?e = mg_proc st" "mg_held ?e = mg_held st"
    "mg_reservation ?e = mg_reservation st" "mg_stopping ?e = mg_stopping st" "mg_startup ?e = mg_startup st"
    "mg_isRestarting ?e = mg_isRestarting st" "mg_restart ?e = mg_restart st" "mg_shutdown ?e = mg_shutdown st"
    "mg_isShuttingDown ?e = mg_isShuttingDown st" "length (mg_attempts ?e) = length (mg_attempts st)"
    "mg_attempts ?e = [] \<longleftrightarrow> mg_attempts st = []"
    "attempt ?e k = (if k = n then (attempt st n)\<lparr>at_cancelled := True\<rparr> else attempt st k)" for k
    using n by (auto simp: cancelStartup_def Some upd_attempt_def attempt_def nth_list_update)
  have f: "cleaned ?e = cleaned st" "exited ?e = exited st" "child ?e = child st"
    by (simp_all add: fun_eq_iff frame_defs e(1) child_def)
  have a: "all_cleaned ?e = all_cleaned st" by (simp add: all_cleaned_def f e)
  have "children_ok ?e" "stops_ok ?e" using c unfolding core_def children_ok_def stops_ok_def e f by blast+
  moreover have "settled ?e k = settled st k" for k by (simp add: settled_def e)
  then have "starts_ok ?e" using c unfolding core_def starts_ok_def e by simp
  moreover have "down_ok ?e" using down_early [of st ?e] c Some by (simp add: core_def e)
  moreover have "owns ?e (attempt ?e n)" "at_its_point ?e (attempt ?e n)"
    using assms Some by (simp_all add: managed_inv_def owns_def e a held_by_child_def at_its_point_def cong: option.case_cong attempt_point.case_cong)
  ultimately show ?thesis using Some by (simp add: managed_inv_def core_def e)
qed (use assms in \<open>simp add: cancelStartup_def\<close>)

lemma stopped_inv:
  assumes "managed_inv st" "stopCurrentProcess st = (ph, st')"
  shows "managed_inv st'"
proof -
  have "core st" using assms(1) by (simp add: managed_inv_def)
  note s = stop_begins [OF this assms(2)]
  show ?thesis by (rule stop_frame_inv [OF assms(1) s(3,1)])
qed

lemma stepped_inv:
  assumes "managed_inv st" "stop_step ph st = (out, st')"
  shows "managed_inv st'"
proof -
  have "core st" using assms(1) by (simp add: managed_inv_def)
  note s = stop_step_ok(1,2) [OF this assms(2)]
  show ?thesis by (rule stop_frame_inv [OF assms(1) s(2,1)])
qed

lemma kill_waits_inv [simp]: "managed_inv (kill_waits k p st) = managed_inv st"
  by (simp add: kill_waits_def)

lemma kill_call_inv:
  assumes "managed_inv st"
  shows "managed_inv (kill_call st)"
proof -
  obtain ph st1 where s: "stopCurrentProcess (cancelStartup st) = (ph, st1)" by (cases "stopCurrentProcess (cancelStartup st)")
  then have "managed_inv st1" by (rule stopped_inv [OF cancelStartup_inv [OF assms]])
  then show ?thesis by (simp add: kill_call_def s)
qed

lemma kill_second_inv:
  assumes "managed_inv st"
  shows "managed_inv (kill_second k st)"
proof -
  obtain ph st1 where s: "stopCurrentProcess st = (ph, st1)" by (cases "stopCurrentProcess st")
  then have "managed_inv st1" by (rule stopped_inv [OF assms])
  then show ?thesis by (simp add: kill_second_def s)
qed

lemma kill_step_inv:
  assumes "managed_inv st"
  shows "managed_inv (kill_step k st)"
proof -
  have s: "managed_inv s1" if "stop_step ph st = (out, s1)" for ph out s1 by (rule stepped_inv [OF assms that])
  show ?thesis
  proof (cases "mg_kills st ! k")
    case (KillFirst ph startup)
    obtain out s1 where o: "stop_step ph st = (out, s1)" by (cases "stop_step ph st")
    show ?thesis using s [OF o] kill_second_inv by (simp add: kill_step_def KillFirst o split: stop_outcome.split option.split)
  next
    case (KillStartup n)
    show ?thesis using assms kill_second_inv by (simp add: kill_step_def KillStartup split: attempt_point.split)
  next
    case (KillSecond ph)
    obtain out s1 where o: "stop_step ph st = (out, s1)" by (cases "stop_step ph st")
    show ?thesis using s [OF o] by (simp add: kill_step_def KillSecond o split: stop_outcome.split)
  qed (use assms in \<open>simp add: kill_step_def\<close>)
qed

lemma shut_inv:
  assumes "managed_inv st" "down_ok (st\<lparr>mg_isShuttingDown := True, mg_shutdown := Some d\<rparr>)"
  shows "managed_inv (st\<lparr>mg_isShuttingDown := True, mg_shutdown := Some d\<rparr>)"
proof -
  let ?e = "st\<lparr>mg_isShuttingDown := True, mg_shutdown := Some d\<rparr>"
  have c: "core st" using assms(1) by (simp add: managed_inv_def)
  have f: "cleaned ?e = cleaned st" "exited ?e = exited st" "child ?e = child st" "attempt ?e = attempt st" "all_cleaned ?e = all_cleaned st"
    by (simp_all add: fun_eq_iff frame_defs child_def attempt_def all_cleaned_def)
  have "children_ok ?e" using c by (simp add: core_def children_ok_def f)
  moreover have "stops_ok ?e" using c by (simp add: core_def stops_ok_def f)
  moreover have "starts_ok ?e" using c by (simp add: core_def starts_ok_def settled_def f)
  moreover have "owns ?e = owns st" by (simp add: owns_def fun_eq_iff f held_by_child_def cong: option.case_cong)
  ultimately show ?thesis
    using assms by (simp add: managed_inv_def core_def f held_by_child_def at_its_point_def cong: option.case_cong)
qed

lemma shut_down_state: "mg_isShuttingDown st \<Longrightarrow> st\<lparr>mg_shutdown := x\<rparr> = st\<lparr>mg_isShuttingDown := True, mg_shutdown := x\<rparr>"
  by simp

lemma stop_shutting:
  "stopCurrentProcess (st\<lparr>mg_isShuttingDown := True\<rparr>) = (ph, st') \<Longrightarrow>
    \<exists>s. stopCurrentProcess st = (ph, s) \<and> st' = s\<lparr>mg_isShuttingDown := True\<rparr>"
  by (auto simp: stopCurrentProcess_def Let_def upd_child_def exited_def child_def split: option.splits if_splits)

lemma cancel_shutting: "cancelStartup (st\<lparr>mg_isShuttingDown := True\<rparr>) = (cancelStartup st)\<lparr>mg_isShuttingDown := True\<rparr>"
  by (simp add: cancelStartup_def upd_attempt_def split: option.split)

lemma shutdown_call_inv:
  assumes "managed_inv st"
  shows "managed_inv (shutdown_call st)"
proof (cases "mg_shutdown st")
  case None
  let ?s = "cancelStartup (st\<lparr>mg_state := Stopping\<rparr>)"
  have i: "managed_inv ?s" by (rule cancelStartup_inv) (use assms in simp)
  have rs: "mg_restart ?s = mg_restart st" by (simp add: cancelStartup_def upd_attempt_def split: option.split)
  obtain ph st2 where st2: "stopCurrentProcess (?s\<lparr>mg_isShuttingDown := True\<rparr>) = (ph, st2)"
    by (cases "stopCurrentProcess (?s\<lparr>mg_isShuttingDown := True\<rparr>)")
  from stop_shutting [OF this] obtain s where s: "stopCurrentProcess ?s = (ph, s)" "st2 = s\<lparr>mg_isShuttingDown := True\<rparr>" by blast
  have si: "managed_inv s" by (rule stopped_inv [OF i s(1)])
  have "core ?s" using i by (simp add: managed_inv_def)
  then have "mg_restart s = mg_restart st" using stop_begins(3) [OF _ s(1)] rs by (simp add: stop_frame_def)
  then have "managed_inv (s\<lparr>mg_isShuttingDown := True, mg_shutdown := Some (DownFirst ph (mg_restart st))\<rparr>)"
    by (intro shut_inv [OF si]) (simp add: down_ok_def)
  moreover have "st\<lparr>mg_isShuttingDown := True, mg_state := Stopping\<rparr> = (st\<lparr>mg_state := Stopping\<rparr>)\<lparr>mg_isShuttingDown := True\<rparr>" by simp
  then have "stopCurrentProcess (cancelStartup (st\<lparr>mg_isShuttingDown := True, mg_state := Stopping\<rparr>)) = (ph, st2)"
    using st2 by (simp only: cancel_shutting)
  ultimately show ?thesis using None by (simp add: shutdown_call_def Let_def s(2))
qed (use assms in \<open>simp add: shutdown_call_def\<close>)


lemma shutting: "managed_inv st \<Longrightarrow> mg_shutdown st \<noteq> None \<Longrightarrow> mg_isShuttingDown st"
  by (simp add: managed_inv_def core_def down_ok_def)

lemma set_down_inv:
  assumes "managed_inv st" "mg_isShuttingDown st" "down_ok (st\<lparr>mg_shutdown := Some d\<rparr>)"
  shows "managed_inv (st\<lparr>mg_shutdown := Some d\<rparr>)"
  using shut_inv [OF assms(1)] assms(3) unfolding shut_down_state [OF assms(2)] by blast

lemma no_startup:
  assumes "managed_inv st" "case mg_restart st of None \<Rightarrow> True | Some n \<Rightarrow> settled st n"
  shows "mg_startup st = None"
proof (cases "mg_startup st")
  case (Some n)
  then have "Suc n = length (mg_attempts st)" "\<not> settled st n" "mg_restart st = Some n"
    using assms(1) core_starts [of st n] by (auto simp: managed_inv_def core_def starts_ok_def split: if_splits)
  then show ?thesis using assms(2) by simp
qed simp

lemma down_second_inv:
  assumes "managed_inv st" "mg_isShuttingDown st" "mg_startup st = None"
  shows "managed_inv (down_second st)"
proof -
  obtain ph s where s: "stopCurrentProcess st = (ph, s)" by (cases "stopCurrentProcess st")
  have "core st" using assms(1) by (simp add: managed_inv_def)
  note b = stop_begins [OF this s]
  have "waits_for (s\<lparr>mg_shutdown := d\<rparr>) N q = waits_for s N q" for d N q
    by (simp add: waits_for_def frame_defs cong: stop_phase.case_cong)
  then have "down_ok (s\<lparr>mg_shutdown := Some (DownSecond ph)\<rparr>)"
    using b(2,3) assms(2,3) by (simp add: down_ok_def stop_frame_def)
  moreover have "mg_isShuttingDown s" using b(3) assms(2) by (simp add: stop_frame_def)
  ultimately have "managed_inv (s\<lparr>mg_shutdown := Some (DownSecond ph)\<rparr>)" using set_down_inv stopped_inv [OF assms(1) s] by blast
  then show ?thesis by (simp add: down_second_def s)
qed

lemma down_done_inv:
  assumes "managed_inv st" "mg_isShuttingDown st"
  shows "managed_inv (st\<lparr>mg_shutdown := Some (DownDone False)\<rparr>)"
  by (rule set_down_inv [OF assms]) (use assms(2) in \<open>simp add: down_ok_def\<close>)

lemma guardians_inv:
  assumes "managed_inv st" "mg_isShuttingDown st" "mg_startup st = None" "all_cleaned st" "d = DownDone True \<or> d = DownGuardians"
  shows "managed_inv (st\<lparr>mg_shutdown := Some d\<rparr>)"
  by (rule set_down_inv [OF assms(1,2)]) (use assms(2-5) in \<open>auto simp: down_ok_def all_cleaned_def frame_defs\<close>)

lemma shutdown_step_inv:
  assumes "managed_inv st"
  shows "managed_inv (shutdown_step st)"
proof (cases "mg_shutdown st")
  case (Some d)
  have sd: "mg_isShuttingDown st" using shutting [OF assms] Some by simp
  have c: "core st" using assms by (simp add: managed_inv_def)
  have down: "down_ok st" using c by (simp add: core_def)
  have f: "managed_inv s1" "mg_isShuttingDown s1" "mg_startup s1 = mg_startup st" "mg_restart s1 = mg_restart st" "cleaned s1 = cleaned st"
      "length (mg_children s1) = length (mg_children st)" if "stop_step ph st = (out, s1)" for ph out s1
    using stepped_inv [OF assms that] stop_step_ok(2) [OF c that] sd by (simp_all add: stop_frame_def)
  show ?thesis
  proof (cases d)
    case (DownFirst ph startup)
    obtain out s1 where o: "stop_step ph st = (out, s1)" by (cases "stop_step ph st")
    note f = f [OF o]
    have su: "startup = mg_restart st" using down Some DownFirst by (simp add: down_ok_def)
    have "managed_inv (s1\<lparr>mg_shutdown := Some (DownStartup n)\<rparr>)" if "startup = Some n" for n
      by (rule set_down_inv [OF f(1,2)]) (use f su that in \<open>simp add: down_ok_def\<close>)
    moreover have "managed_inv (down_second s1)" if "startup = None"
      using down_second_inv [OF f(1,2)] no_startup [OF f(1)] f su that by simp
    ultimately show ?thesis
      using Some DownFirst o f down_done_inv [OF f(1,2)] by (simp add: shutdown_step_def split: stop_outcome.split option.split)
  next
    case (DownStartup n)
    have "managed_inv (down_second st)" if "settled st n"
      using down Some DownStartup that no_startup [OF assms] down_second_inv [OF assms sd] by (simp add: down_ok_def)
    then show ?thesis using assms Some DownStartup by (simp add: shutdown_step_def settled_def split: attempt_point.split)
  next
    case (DownSecond ph)
    obtain out s1 where o: "stop_step ph st = (out, s1)" by (cases "stop_step ph st")
    note f = f [OF o]
    have w: "mg_startup st = None" "waits_for st (length (mg_children st)) ph"
      using down Some DownSecond by (simp_all add: down_ok_def)
    have "managed_inv (stopAllGuardians s1)" if "out = Returned"
    proof -
      have "all_cleaned s1" using stop_step_ok(3) [OF c o that w(2)] f by (simp add: all_cleaned_def)
      then have "managed_inv (s1\<lparr>mg_downGuardians := g, mg_shutdown := Some e\<rparr>)" if "e = DownDone True \<or> e = DownGuardians" for g e
        using guardians_inv [of "s1\<lparr>mg_downGuardians := g\<rparr>" e] f w(1) that by simp
      then show ?thesis by (simp add: stopAllGuardians_def)
    qed
    then show ?thesis
      using Some DownSecond o f down_done_inv [OF f(1,2)] by (simp add: shutdown_step_def split: stop_outcome.split)
  qed (use assms Some in \<open>simp_all add: shutdown_step_def\<close>)
qed (use assms in \<open>simp add: shutdown_step_def\<close>)

lemma guardian_stopped_inv:
  assumes "managed_inv st"
  shows "managed_inv (guardian_stopped pid g ok st)"
proof -
  let ?d = "st\<lparr>mg_downGuardians := remove1 (pid, g) (mg_downGuardians st)\<rparr>"
  define s where "s = (if ok then delete_guardian pid g ?d else ?d)"
  have ag: "agree st s" by (simp add: s_def delete_guardian_def agree_def)
  have i: "managed_inv s" using assms by (simp only: agree_frame [OF ag])
  have sh: "mg_shutdown s = mg_shutdown st" "mg_isShuttingDown s = mg_isShuttingDown st" "mg_startup s = mg_startup st"
    using ag by (simp_all add: agree_def)
  have "managed_inv (s\<lparr>mg_shutdown := Some (DownDone False)\<rparr>)" "managed_inv (s\<lparr>mg_shutdown := Some (DownDone True)\<rparr>)"
    if "mg_shutdown s = Some DownGuardians"
  proof -
    have sd: "mg_isShuttingDown s" using shutting [OF i] that by simp
    have a: "mg_startup s = None" "all_cleaned s" using i that by (simp_all add: managed_inv_def core_def down_ok_def)
    show "managed_inv (s\<lparr>mg_shutdown := Some (DownDone False)\<rparr>)" "managed_inv (s\<lparr>mg_shutdown := Some (DownDone True)\<rparr>)"
      using down_done_inv [OF i sd] guardians_inv [OF i sd a, of "DownDone True"] by simp_all
  qed
  then show ?thesis using assms i unfolding guardian_stopped_def Let_def s_def [symmetric] by simp
qed

section \<open>Every event keeps the invariant\<close>

lemma managed_event_inv: "managed_inv st \<Longrightarrow> managed_inv (managed_apply opts ev st)"
proof (cases ev)
  case (EvGuardianExit pid g)
  assume "managed_inv st"
  then show ?thesis by (simp add: EvGuardianExit delete_guardian_def)
qed (simp_all add: ensure_call_inv caller_step_inv kill_call_inv kill_step_inv shutdown_call_inv shutdown_step_inv guardian_stopped_inv
    exit_inv cleanup_step_inv at_attempt_def backoff_over_inv preflighted_inv launched_inv reserved_inv spawned_inv
    health_answered_inv attempt_stop_inv stop_fails_inv late_point waitHealthy_inv)

interpretation managing: invariant_system "managed_step opts" managed_inv "\<lambda>_ _. True" for opts
  by unfold_locales (auto simp: managed_step_def managed_event_inv)

lemma managed_reachable: "managed_run opts es new_service = Some st \<Longrightarrow> managed_inv st"
  using managing.run_inv [OF inv_new run_allowsI] by blast


section \<open>What every event keeps\<close>

definition grows :: "managed \<Rightarrow> managed \<Rightarrow> bool" where
  "grows st st' \<longleftrightarrow>
     length (mg_children st) \<le> length (mg_children st') \<and> (\<forall>p < length (mg_children st). cleaned st p \<longrightarrow> cleaned st' p) \<and>
     length (mg_stops st) \<le> length (mg_stops st') \<and> (\<forall>k < length (mg_stops st). fst (mg_stops st' ! k) = fst (mg_stops st ! k))"

definition quietly :: "managed \<Rightarrow> managed \<Rightarrow> bool" where
  "quietly st st' \<longleftrightarrow> grows st st' \<and> mg_kills st' = mg_kills st \<and> mg_shutdown st' = mg_shutdown st"

lemma quietly_refl [simp]: "quietly st st"
  by (simp add: quietly_def grows_def)

lemma grows_trans: "grows a b \<Longrightarrow> grows b c \<Longrightarrow> grows a c"
  unfolding grows_def by (metis order.trans order.strict_trans2)

lemma quietly_trans: "quietly a b \<Longrightarrow> quietly b c \<Longrightarrow> quietly a c"
  unfolding quietly_def using grows_trans by metis

lemma quietly_same:
  "mg_children s' = mg_children s \<Longrightarrow> mg_stops s' = mg_stops s \<Longrightarrow> mg_kills s' = mg_kills s \<Longrightarrow> mg_shutdown s' = mg_shutdown s \<Longrightarrow>
    quietly s s'"
  by (simp add: quietly_def grows_def frame_defs)

text \<open>Two states that differ in what is not read here.\<close>

lemma quietly_after:
  assumes "quietly st s" "mg_children s' = mg_children s" "mg_stops s' = mg_stops s" "mg_kills s' = mg_kills s" "mg_shutdown s' = mg_shutdown s"
  shows "quietly st s'"
  by (rule quietly_trans [OF assms(1) quietly_same]) (use assms(2-5) in simp_all)

lemma quietly_fields [simp]:
  "quietly st (s\<lparr>mg_state := x0\<rparr>) = quietly st s"
  "quietly st (s\<lparr>mg_crashTimes := x1\<rparr>) = quietly st s"
  "quietly st (s\<lparr>mg_resolvedPlan := x2\<rparr>) = quietly st s"
  "quietly st (s\<lparr>mg_fatal := x3\<rparr>) = quietly st s"
  "quietly st (s\<lparr>mg_now := x4\<rparr>) = quietly st s"
  "quietly st (s\<lparr>mg_callers := x5\<rparr>) = quietly st s"
  "quietly st (s\<lparr>mg_guardians := x6\<rparr>) = quietly st s"
  "quietly st (s\<lparr>mg_nextGuardian := x7\<rparr>) = quietly st s"
  "quietly st (s\<lparr>mg_downGuardians := x8\<rparr>) = quietly st s"
  "quietly st (s\<lparr>mg_resident := x9\<rparr>) = quietly st s"
  "quietly st (s\<lparr>mg_nextToken := x10\<rparr>) = quietly st s"
  "quietly st (s\<lparr>mg_startup := x11\<rparr>) = quietly st s"
  "quietly st (s\<lparr>mg_isRestarting := x12\<rparr>) = quietly st s"
  "quietly st (s\<lparr>mg_restart := x13\<rparr>) = quietly st s"
  "quietly st (s\<lparr>mg_proc := x14\<rparr>) = quietly st s"
  "quietly st (s\<lparr>mg_held := x15\<rparr>) = quietly st s"
  "quietly st (s\<lparr>mg_reservation := x16\<rparr>) = quietly st s"
  "quietly st (s\<lparr>mg_attempts := x17\<rparr>) = quietly st s"
  "quietly st (s\<lparr>mg_isShuttingDown := x18\<rparr>) = quietly st s"
  "quietly st (s\<lparr>mg_stopping := x19\<rparr>) = quietly st s"
  by (simp_all add: quietly_def grows_def frame_defs)

lemma quietly_child:
  assumes "\<And>b. ch_cleanup (child st p) = CleanupDone b \<Longrightarrow> \<exists>b. ch_cleanup (f (child st p)) = CleanupDone b"
  shows "quietly st (upd_child p f st)"
proof -
  have "cleaned (upd_child p f st) q" if "cleaned st q" for q
    using that assms by (cases "p < length (mg_children st)")
      (auto simp: cleaned_def upd_child_def child_def nth_list_update list_update_beyond)
  then show ?thesis by (simp add: quietly_def grows_def) (simp add: upd_child_def)
qed

lemma quietly_waits [simp]: "quietly st s \<Longrightarrow> quietly st (attempt_waits n p s)"
  by (erule quietly_after) (simp_all add: attempt_waits_def upd_attempt_def)

lemma quietly_ends [simp]: "quietly st s \<Longrightarrow> quietly st (attempt_ends n r s)"
  by (simp add: attempt_ends_def)

lemma quietly_release [simp]: "quietly st s \<Longrightarrow> quietly st (releaseReservation r s)"
  by (erule quietly_after) (simp_all add: releaseReservation_def Let_def split: option.split)

lemma quietly_stop:
  assumes "stopCurrentProcess s = (ph, s')"
  shows "quietly s s'"
proof -
  have e: "quietly s (upd_child p (\<lambda>c. c\<lparr>ch_expected := True\<rparr>) s)" for p by (rule quietly_child) simp
  have "quietly x (x\<lparr>mg_state := a, mg_resolvedPlan := b, mg_stopping := c, mg_stops := mg_stops x @ [d]\<rparr>)" for x a b c d
    by (auto simp: quietly_def grows_def frame_defs nth_append)
  then have "quietly s ((upd_child p (\<lambda>c. c\<lparr>ch_expected := True\<rparr>) s)\<lparr>mg_state := a, mg_resolvedPlan := b, mg_stopping := c,
      mg_stops := mg_stops (upd_child p (\<lambda>c. c\<lparr>ch_expected := True\<rparr>) s) @ [d]\<rparr>)" for p a b c d
    using quietly_trans e by blast
  moreover have "mg_stops (upd_child p (\<lambda>c. c\<lparr>ch_expected := True\<rparr>) s) = mg_stops s" for p by (simp add: upd_child_def)
  ultimately show ?thesis
    using assms e by (auto simp: stopCurrentProcess_def Let_def split: option.splits if_splits)
qed

lemma quietly_fails [simp]:
  assumes "quietly st s"
  shows "quietly st (attempt_fails n e s)"
proof -
  have u: "quietly st s'" if "mg_children s' = mg_children s" "mg_stops s' = mg_stops s" "mg_kills s' = mg_kills s"
      "mg_shutdown s' = mg_shutdown s" for s'
    using quietly_after [OF assms that] .
  have st: "quietly st (attempt_waits n p y)" if "stopCurrentProcess x = (ph, y)" "quietly st x" for x ph y p
    by (rule quietly_waits, rule quietly_trans [OF that(2) quietly_stop [OF that(1)]])
  have re: "quietly st (attempt_ends n r ((releaseReservation t x)\<lparr>mg_state := a\<rparr>))" if "quietly st x" for r t x a
    by (rule quietly_ends, rule quietly_after [OF quietly_release [OF that]]) simp_all
  show ?thesis
    unfolding attempt_fails_def Let_def
    by (auto split: option.split prod.split intro!: quietly_ends quietly_release st re u)
qed

lemma quietly_active [simp]:
  "quietly st s \<Longrightarrow> (quietly st s \<Longrightarrow> quietly st (go s)) \<Longrightarrow> quietly st (if_active n go s)"
  by (simp add: if_active_def)

lemma quietly_start [simp]: "quietly st s \<Longrightarrow> quietly st (start_attempt s)"
  by (erule quietly_after) (simp_all add: start_attempt_frame)

lemma quietly_forget [simp]: "quietly st s \<Longrightarrow> quietly st (forget_proc p s)"
  by (erule quietly_after) simp_all

lemma quietly_delete [simp]: "quietly st s \<Longrightarrow> quietly st (delete_guardian pid g s)"
  by (erule quietly_after) (simp_all add: delete_guardian_def)

lemma quietly_cancel [simp]: "quietly st s \<Longrightarrow> quietly st (cancelStartup s)"
  by (erule quietly_after) (simp_all add: cancelStartup_def upd_attempt_def split: option.split)

lemma quietly_settles [simp]:
  assumes "quietly st s"
  shows "quietly st (stop_promise_settles ok s)"
proof (rule quietly_trans [OF assms])
  show "quietly s (stop_promise_settles ok s)"
  proof (cases "mg_stopping s")
    case (Some k)
    have "fst ((mg_stops s)[k := (fst (mg_stops s ! k), Some ok)] ! j) = fst (mg_stops s ! j)" if "j < length (mg_stops s)" for j
      using that by (cases "j = k") simp_all
    then show ?thesis
      by (auto simp: stop_promise_settles_def Some Let_def quietly_def grows_def frame_defs)
  qed (simp add: stop_promise_settles_def)
qed

lemma quietly_step:
  "stop_step ph s = (out, s') \<Longrightarrow> quietly s s'"
  by (auto simp: stop_step_def split: stop_phase.splits option.splits bool.splits cleanup.splits intro: quietly_forget)

lemma quietly_healthy [simp]: "quietly st s \<Longrightarrow> quietly st (waitHealthy opts n s)"
  by (simp add: waitHealthy_def)

lemma quietly_reserved [simp]: "quietly st s \<Longrightarrow> quietly st (reserved n answer s)"
  by (auto simp: reserved_def Let_def split: answer.split intro!: quietly_active quietly_waits)
    (erule quietly_after; simp add: upd_attempt_def)

lemma quietly_spawned [simp]:
  assumes "quietly st s"
  shows "quietly st (spawned opts n answer s)"
proof -
  have n: "quietly s (upd_attempt n f (s\<lparr>mg_children := mg_children s @ [c], mg_proc := p\<rparr>))" for f c p
    by (auto simp: quietly_def grows_def frame_defs upd_attempt_def nth_append)
  have g: "quietly x (startGuardian pid x)" for x pid by (rule quietly_same) (simp_all add: startGuardian_def)
  show ?thesis
    using quietly_trans [OF assms n] quietly_trans [OF quietly_trans [OF assms n] g] assms
    by (auto simp: spawned_def Let_def split: option.split)
qed

lemma quietly_cleanup [simp]:
  assumes "quietly st s"
  shows "quietly st (cleanup_step p ok s)"
proof -
  have e: "quietly x (cleanup_ends p b x)" for b x
  proof -
    let ?m = "upd_child p (\<lambda>c. c\<lparr>ch_cleanup := CleanupDone b\<rparr>) (releaseReservation (Some (ch_reservation (child x p))) x)"
    have m: "quietly x ?m" by (rule quietly_trans [OF quietly_release [OF quietly_refl] quietly_child]) simp
    have h: "quietly x (handleCrash p y)" if "quietly x y" for y
      using that by (auto simp: handleCrash_def intro!: quietly_start quietly_after [OF that])
    show ?thesis
      using h [OF m] by (simp add: cleanup_ends_def stop_cleaned_def split: option.split)
  qed
  have w: "quietly x (upd_child p (\<lambda>c. c\<lparr>ch_cleanup := CleanupGuardian g\<rparr>) x)" if "ch_cleanup (child x p) = CleanupWaiting" for x g
    by (rule quietly_child) (simp add: that)
  have d: "quietly s (cleanup_ends p b (delete_guardian i g s))" for b i g
    by (rule quietly_trans [OF quietly_delete [OF quietly_refl] e])
  have "quietly s (cleanup_step p ok s)"
    using e w d by (simp add: cleanup_step_def split: cleanup.split option.split)
  with assms show ?thesis by (rule quietly_trans)
qed

lemma quietly_caller [simp]: "quietly st s \<Longrightarrow> quietly st (caller_goes c out s)"
  by (cases out) (simp_all add: caller_goes_def)

lemma quietly_event:
  assumes "\<not> (\<exists>k. ev = EvKill \<or> ev = EvKillStep k \<or> ev = EvShutdown \<or> ev = EvShutdownStep)" "\<And>pid g ok. ev \<noteq> EvGuardianStopped pid g ok"
  shows "quietly st (managed_apply opts ev st)"
proof (cases ev)
  case EvEnsureRunning
  then show ?thesis by (simp add: ensure_call_def)
next
  case (EvCaller c)
  then show ?thesis by (simp add: caller_step_def split: caller_point.split option.split bool.split attempt_point.split)
next
  case (EvExit p)
  then show ?thesis by (auto intro: quietly_child)
next
  case (EvPreflighted n answer)
  then show ?thesis by (simp add: at_attempt_def preflighted_def split: answer.split)
next
  case (EvLaunched n answer)
  then show ?thesis
    by (auto simp: at_attempt_def launched_def split: sum.split intro!: quietly_active quietly_waits quietly_same)
next
  case (EvHealth n answer)
  then show ?thesis
    by (auto simp: at_attempt_def health_answered_def split: health_answer.split intro!: quietly_active quietly_ends quietly_same)
next
  case (EvStopStep n)
  have "quietly st (attempt_ends n r s)" "quietly st (attempt_ends n r (s\<lparr>mg_state := x\<rparr>))" "quietly st s" if "stop_step ph st = (out, s)" for r s x ph out
    using quietly_step [OF that] by (auto intro: quietly_after)
  then show ?thesis
    using EvStopStep by (auto simp: attempt_stop_def split: attempt_point.split stop_outcome.split prod.split)
qed (use assms in \<open>auto simp: at_attempt_def backoff_over_def stop_fails_def intro: quietly_same\<close>)


section \<open>What a kill waits for\<close>

lemma waits_grows:
  assumes "waits_for st N ph" "grows st st'" "N \<le> length (mg_children st)"
  shows "waits_for st' N ph"
proof -
  have "cleaned st' p" if "p < N" "cleaned st p" for p using that assms(2,3) by (auto simp: grows_def)
  moreover have "k < length (mg_stops st')" "fst (mg_stops st' ! k) = fst (mg_stops st ! k)" if "k < length (mg_stops st)" for k
    using that assms(2) by (auto simp: grows_def)
  ultimately show ?thesis using assms(1) by (cases ph) (auto simp: waits_for_def)
qed

definition kill_inv :: "nat \<Rightarrow> nat \<Rightarrow> managed \<Rightarrow> bool" where
  "kill_inv N k st \<longleftrightarrow> managed_inv st \<and> N \<le> length (mg_children st) \<and> k < length (mg_kills st) \<and>
     (case mg_kills st ! k of
        KillFirst ph startup \<Rightarrow> waits_for st N ph
      | KillDone False \<Rightarrow> True
      | _ \<Rightarrow> \<forall>p < N. cleaned st p)"

lemma kill_inv_grows:
  assumes "kill_inv N k st" "grows st st'" "managed_inv st'" "k < length (mg_kills st')" "mg_kills st' ! k = mg_kills st ! k"
  shows "kill_inv N k st'"
proof -
  have n: "N \<le> length (mg_children st)" "N \<le> length (mg_children st')" using assms(1,2) by (auto simp: kill_inv_def grows_def)
  have c: "\<forall>p < N. cleaned st' p" if "\<forall>p < N. cleaned st p" using that assms(2) n(1) by (auto simp: grows_def)
  show ?thesis
  proof (cases "mg_kills st ! k")
    case (KillFirst ph startup)
    then show ?thesis using assms waits_grows [OF _ assms(2) n(1)] n(2) by (simp add: kill_inv_def)
  next
    case (KillDone b)
    then show ?thesis using assms c n(2) by (cases b) (simp_all add: kill_inv_def)
  qed (use assms c n(2) in \<open>simp_all add: kill_inv_def\<close>)
qed

lemma grows_same [simp]:
  "grows st st" "grows st (s\<lparr>mg_shutdown := a\<rparr>) = grows st s" "grows st (s\<lparr>mg_kills := b\<rparr>) = grows st s"
  "grows st (s\<lparr>mg_state := e\<rparr>) = grows st s" "grows st (s\<lparr>mg_downGuardians := c\<rparr>) = grows st s" "grows st (s\<lparr>mg_guardians := d\<rparr>) = grows st s"
  by (simp_all add: grows_def frame_defs)

lemma kill_second_frame:
  "grows s (kill_second k s)" "mg_kills (kill_second k s) = (mg_kills s)[k := KillSecond (fst (stopCurrentProcess s))]"
proof -
  obtain ph s' where s: "stopCurrentProcess s = (ph, s')" by (cases "stopCurrentProcess s")
  show "grows s (kill_second k s)" "mg_kills (kill_second k s) = (mg_kills s)[k := KillSecond (fst (stopCurrentProcess s))]"
    using quietly_stop [OF s] by (simp_all add: kill_second_def kill_waits_def s quietly_def)
qed

lemma kill_second_grows: "grows st s \<Longrightarrow> grows st (kill_second k s)"
  by (rule grows_trans [OF _ kill_second_frame(1)])

lemmas kill_second_kills = kill_second_frame(2)

lemma kill_step_frame:
  shows "grows st (kill_step k st)" "length (mg_kills (kill_step k st)) = length (mg_kills st)"
    "j \<noteq> k \<Longrightarrow> mg_kills (kill_step k st) ! j = mg_kills st ! j"
proof -
  have s: "grows st s1 \<and> mg_kills s1 = mg_kills st" if "stop_step ph st = (out, s1)" for ph out s1
    using quietly_step [OF that] by (simp add: quietly_def)
  have r: "grows st st" using quietly_refl [of st] by (simp add: quietly_def)
  have kw: "grows st (kill_waits k p s1)" if "grows st s1" for p s1 using that by (simp add: kill_waits_def )
  have "grows st (kill_step k st) \<and> length (mg_kills (kill_step k st)) = length (mg_kills st) \<and>
      (j \<noteq> k \<longrightarrow> mg_kills (kill_step k st) ! j = mg_kills st ! j)"
  proof (cases "mg_kills st ! k")
    case (KillFirst ph startup)
    obtain out s1 where o: "stop_step ph st = (out, s1)" by (cases "stop_step ph st")
    show ?thesis using s [OF o] r kw kill_second_grows [of st s1 k]
      by (simp add: kill_step_def KillFirst o kill_second_kills kill_waits_def split: stop_outcome.split option.split)
  next
    case (KillStartup n)
    show ?thesis using r kw kill_second_grows [of st st k]
      by (simp add: kill_step_def KillStartup kill_second_kills kill_waits_def split: attempt_point.split)
  next
    case (KillSecond ph)
    obtain out s1 where o: "stop_step ph st = (out, s1)" by (cases "stop_step ph st")
    show ?thesis using s [OF o] r by (simp add: kill_step_def KillSecond o kill_waits_def split: stop_outcome.split)
  qed (simp add: kill_step_def r)
  then show "grows st (kill_step k st)" "length (mg_kills (kill_step k st)) = length (mg_kills st)"
    "j \<noteq> k \<Longrightarrow> mg_kills (kill_step k st) ! j = mg_kills st ! j" by simp_all
qed

lemma shutdown_grows:
  assumes "ev = EvShutdown \<or> ev = EvShutdownStep \<or> ev = EvGuardianStopped pid g ok"
  shows "grows st (managed_apply opts ev st)" "mg_kills (managed_apply opts ev st) = mg_kills st"
proof -
  have r: "grows st st" using quietly_refl [of st] by (simp add: quietly_def)
  have sd: "grows s (s\<lparr>mg_shutdown := x\<rparr>)" "mg_kills (s\<lparr>mg_shutdown := x\<rparr>) = mg_kills s" for s x
    using quietly_refl [of s] by (simp_all add: quietly_def)
  have q: "grows st s \<and> mg_kills s = mg_kills st" if "quietly st s" for s using that by (simp add: quietly_def)
  have d: "grows s (down_second s)" "mg_kills (down_second s) = mg_kills s" for s
  proof -
    obtain ph s' where s: "stopCurrentProcess s = (ph, s')" by (cases "stopCurrentProcess s")
    show "grows s (down_second s)" "mg_kills (down_second s) = mg_kills s"
      using quietly_stop [OF s] by (simp_all add: down_second_def s quietly_def)
  qed
  have c: "grows st (shutdown_call st) \<and> mg_kills (shutdown_call st) = mg_kills st"
  proof (cases "mg_shutdown st")
    case None
    let ?s = "cancelStartup (st\<lparr>mg_isShuttingDown := True, mg_state := Stopping\<rparr>)"
    obtain ph s where s: "stopCurrentProcess ?s = (ph, s)" by (cases "stopCurrentProcess ?s")
    have "quietly st ?s" by simp
    then have "quietly st s" by (rule quietly_trans [OF _ quietly_stop [OF s]])
    then show ?thesis using None s by (simp add: shutdown_call_def Let_def quietly_def)
  qed (simp add: shutdown_call_def r)
  have t: "grows st (shutdown_step st) \<and> mg_kills (shutdown_step st) = mg_kills st"
  proof (cases "mg_shutdown st")
    case (Some dp)
    have f: "grows st s1 \<and> mg_kills s1 = mg_kills st" if "stop_step ph st = (out, s1)" for ph out s1
      using quietly_step [OF that] by (simp add: quietly_def)
    show ?thesis
    proof (cases dp)
      case (DownFirst ph startup)
      obtain out s1 where o: "stop_step ph st = (out, s1)" by (cases "stop_step ph st")
      show ?thesis using Some DownFirst o f [OF o] d grows_trans [OF _ d(1), of st s1]
        by (simp add: shutdown_step_def split: stop_outcome.split option.split)
    next
      case (DownSecond ph)
      obtain out s1 where o: "stop_step ph st = (out, s1)" by (cases "stop_step ph st")
      show ?thesis using Some DownSecond o f [OF o]
        by (simp add: shutdown_step_def stopAllGuardians_def split: stop_outcome.split)
    qed (use Some r d in \<open>simp_all add: shutdown_step_def split: attempt_point.split\<close>)
  qed (simp add: shutdown_step_def r)
  have g: "grows st (guardian_stopped pid g ok st) \<and> mg_kills (guardian_stopped pid g ok st) = mg_kills st"
    using r by (auto simp: guardian_stopped_def Let_def delete_guardian_def )
  from c t g show "grows st (managed_apply opts ev st)" "mg_kills (managed_apply opts ev st) = mg_kills st"
    using assms by auto
qed

lemma kill_call_frame:
  "grows st (kill_call st)" "mg_kills (kill_call st) = mg_kills st @ [KillFirst (fst (stopCurrentProcess (cancelStartup st)))
     (if mg_isRestarting st then mg_restart st else None)]"
proof -
  obtain ph s where s: "stopCurrentProcess (cancelStartup st) = (ph, s)" by (cases "stopCurrentProcess (cancelStartup st)")
  have "quietly st (cancelStartup st)" by simp
  then have "quietly st s" by (rule quietly_trans [OF _ quietly_stop [OF s]])
  then show "grows st (kill_call st)" "mg_kills (kill_call st) = mg_kills st @ [KillFirst (fst (stopCurrentProcess (cancelStartup st)))
     (if mg_isRestarting st then mg_restart st else None)]"
    by (simp_all add: kill_call_def Let_def s quietly_def)
qed

lemma kill_step_kept:
  assumes "kill_inv N k st"
  shows "kill_inv N k (kill_step k st)"
proof -
  have i: "managed_inv st" "core st" "N \<le> length (mg_children st)" "k < length (mg_kills st)"
    using assms by (simp_all add: kill_inv_def managed_inv_def)
  note j = kill_step_inv [OF i(1), of k] kill_step_frame(1) [of st k] kill_step_frame(2) [of k st]
  have n: "N \<le> length (mg_children (kill_step k st))" "k < length (mg_kills (kill_step k st))" using i(3,4) j(2,3) by (auto simp: grows_def)
  have finished: "kill_inv N k (kill_step k st)" if "\<forall>p < N. cleaned st p" "\<forall>ph startup. mg_kills (kill_step k st) ! k \<noteq> KillFirst ph startup"
  proof -
    have "\<forall>p < N. cleaned (kill_step k st) p" using that(1) j(2) i(3) by (auto simp: grows_def)
    then show ?thesis using that(2) j n by (simp add: kill_inv_def split: kill_point.split bool.split)
  qed
  have stay: "kill_inv N k (kill_step k st)" if "mg_kills (kill_step k st) ! k = mg_kills st ! k"
    using kill_inv_grows [OF assms j(2,1) n(2) that] .
  have fail: "kill_inv N k (kill_step k st)" if "mg_kills (kill_step k st) ! k = KillDone False"
    using that j n by (simp add: kill_inv_def)
  show ?thesis
  proof (cases "mg_kills st ! k")
    case (KillFirst ph startup)
    obtain out s1 where o: "stop_step ph st = (out, s1)" by (cases "stop_step ph st")
    have s1: "mg_kills s1 = mg_kills st" using quietly_step [OF o] by (simp add: quietly_def)
    show ?thesis
    proof (cases out)
      case Returned
      have "waits_for st N ph" using assms KillFirst by (simp add: kill_inv_def)
      then have "\<forall>p < N. cleaned st p" using stop_step_ok(3) [OF i(2) o Returned] by blast
      moreover have "\<forall>ph startup. mg_kills (kill_step k st) ! k \<noteq> KillFirst ph startup"
        using i(4) s1 by (simp add: kill_step_def KillFirst o Returned kill_second_kills kill_waits_def split: option.split)
      ultimately show ?thesis by (rule finished)
    next
      case Still
      show ?thesis by (rule stay) (simp add: kill_step_def KillFirst o Still s1)
    next
      case Thrown
      show ?thesis by (rule fail) (use i(4) s1 in \<open>simp add: kill_step_def KillFirst o Thrown kill_waits_def\<close>)
    qed
  next
    case (KillStartup n)
    have "\<forall>p < N. cleaned st p" using assms KillStartup by (simp add: kill_inv_def)
    then show ?thesis
      by (rule finished) (use i(4) KillStartup in \<open>auto simp: kill_step_def kill_second_kills kill_waits_def split: attempt_point.split\<close>)
  next
    case (KillSecond ph)
    have "\<forall>p < N. cleaned st p" using assms KillSecond by (simp add: kill_inv_def)
    moreover obtain out s1 where o: "stop_step ph st = (out, s1)" by (cases "stop_step ph st")
    have s1: "mg_kills s1 = mg_kills st" using quietly_step [OF o] by (simp add: quietly_def)
    ultimately show ?thesis
      using i(4) by (intro finished) (simp_all add: kill_step_def KillSecond o s1 kill_waits_def split: stop_outcome.split)
  qed (rule stay, simp add: kill_step_def)
qed

lemma kill_event_inv:
  assumes "kill_inv N k st"
  shows "kill_inv N k (managed_apply opts ev st)"
proof -
  have i: "managed_inv st" "k < length (mg_kills st)" using assms by (simp_all add: kill_inv_def)
  note j = managed_event_inv [OF i(1), of opts ev]
  consider (kill) "ev = EvKill" | (step) n where "ev = EvKillStep n"
    | (down) "ev = EvShutdown \<or> ev = EvShutdownStep \<or> (\<exists>pid g ok. ev = EvGuardianStopped pid g ok)"
    | (quiet) "\<not> (\<exists>k. ev = EvKill \<or> ev = EvKillStep k \<or> ev = EvShutdown \<or> ev = EvShutdownStep)" "\<And>pid g ok. ev \<noteq> EvGuardianStopped pid g ok"
    by blast
  then show ?thesis
  proof cases
    case kill
    show ?thesis by (rule kill_inv_grows [OF assms _ j]) (use i(2) kill kill_call_frame in \<open>simp_all add: nth_append\<close>)
  next
    case (step n)
    show ?thesis
    proof (cases "n = k")
      case True
      then show ?thesis using kill_step_kept [OF assms] assms step by simp
    next
      case False
      show ?thesis
        by (rule kill_inv_grows [OF assms _ j])
          (use i(2) step False kill_step_frame(1) [of st n] kill_step_frame(2) [of n st] kill_step_frame(3) [of k n st] in \<open>simp_all add: quietly_def\<close>)
    qed
  next
    case down
    then obtain pid g ok where "ev = EvShutdown \<or> ev = EvShutdownStep \<or> ev = EvGuardianStopped pid g ok" by blast
    note s = shutdown_grows [OF this, where st = st and opts = opts]
    show ?thesis by (rule kill_inv_grows [OF assms s(1) j]) (use s(2) i(2) in simp_all)
  next
    case quiet
    note q = quietly_event [OF quiet, where st = st and opts = opts]
    show ?thesis by (rule kill_inv_grows [OF assms _ j]) (use q i(2) in \<open>simp_all add: quietly_def\<close>)
  qed
qed

interpretation killing: invariant_system "managed_step opts" "kill_inv N k" "\<lambda>_ _. True" for opts N k
  by unfold_locales (auto simp: managed_step_def kill_event_inv)

lemma kill_call_begins:
  assumes "managed_inv st"
  shows "kill_inv (length (mg_children st)) (length (mg_kills st)) (kill_call st)"
proof -
  obtain ph s where s: "stopCurrentProcess (cancelStartup st) = (ph, s)" by (cases "stopCurrentProcess (cancelStartup st)")
  have "core (cancelStartup st)" using cancelStartup_inv [OF assms] by (simp add: managed_inv_def)
  note b = stop_begins [OF this s]
  have len: "length (mg_children s) = length (mg_children st)"
    using b(3) by (simp add: stop_frame_def cancelStartup_def upd_attempt_def split: option.splits)
  have e: "kill_call st = s\<lparr>mg_kills := mg_kills s @ [KillFirst ph (if mg_isRestarting st then mg_restart st else None)]\<rparr>"
    by (simp add: kill_call_def Let_def s)
  have k: "mg_kills s = mg_kills st" using b(3) by (simp add: stop_frame_def cancelStartup_def upd_attempt_def split: option.splits)
  show ?thesis using kill_call_inv [OF assms] b(2) len k by (simp add: kill_inv_def e)
qed


lemma kill_step_shutdown: "mg_shutdown (kill_step k st) = mg_shutdown st" "mg_shutdown (kill_call st) = mg_shutdown st"
proof -
  have s: "mg_shutdown s1 = mg_shutdown st" if "stop_step ph st = (out, s1)" for ph out s1
    using quietly_step [OF that] by (simp add: quietly_def)
  have w: "mg_shutdown (kill_waits k p s1) = mg_shutdown s1" for p s1 by (simp add: kill_waits_def)
  have z: "mg_shutdown (kill_second k s1) = mg_shutdown s1" for s1
  proof -
    obtain ph s' where s: "stopCurrentProcess s1 = (ph, s')" by (cases "stopCurrentProcess s1")
    show ?thesis using quietly_stop [OF s] by (simp add: kill_second_def s w quietly_def)
  qed
  show "mg_shutdown (kill_step k st) = mg_shutdown st"
  proof (cases "mg_kills st ! k")
    case (KillFirst ph startup)
    obtain out s1 where o: "stop_step ph st = (out, s1)" by (cases "stop_step ph st")
    show ?thesis using s [OF o] by (simp add: kill_step_def KillFirst o w z split: stop_outcome.split option.split)
  next
    case (KillSecond ph)
    obtain out s1 where o: "stop_step ph st = (out, s1)" by (cases "stop_step ph st")
    show ?thesis using s [OF o] by (simp add: kill_step_def KillSecond o w split: stop_outcome.split)
  qed (simp_all add: kill_step_def w z split: attempt_point.split)
  obtain ph s' where s: "stopCurrentProcess (cancelStartup st) = (ph, s')" by (cases "stopCurrentProcess (cancelStartup st)")
  have "quietly st (cancelStartup st)" by simp
  then have "quietly st s'" by (rule quietly_trans [OF _ quietly_stop [OF s]])
  then show "mg_shutdown (kill_call st) = mg_shutdown st" by (simp add: kill_call_def Let_def s quietly_def)
qed

text \<open>A shutdown that has ended stays ended.\<close>

lemma shutdown_ended:
  assumes "mg_shutdown st = Some (DownDone b)"
  shows "mg_shutdown (managed_apply opts ev st) = Some (DownDone b)"
proof -
  consider "ev = EvKill \<or> (\<exists>k. ev = EvKillStep k)" | "ev = EvShutdown \<or> ev = EvShutdownStep" | pid g ok where "ev = EvGuardianStopped pid g ok"
    | (quiet) "\<not> (\<exists>k. ev = EvKill \<or> ev = EvKillStep k \<or> ev = EvShutdown \<or> ev = EvShutdownStep)" "\<And>pid g ok. ev \<noteq> EvGuardianStopped pid g ok"
    by blast
  then show ?thesis
  proof cases
    case quiet
    then show ?thesis using quietly_event [OF quiet, where st = st and opts = opts] assms by (simp add: quietly_def)
  qed (use assms in \<open>auto simp: kill_step_shutdown shutdown_call_def shutdown_step_def guardian_stopped_def Let_def delete_guardian_def\<close>)
qed

interpretation ended: invariant_system "managed_step opts" "\<lambda>st. managed_inv st \<and> mg_shutdown st = Some (DownDone b)" "\<lambda>_ _. True" for opts b
  by unfold_locales (auto simp: managed_step_def managed_event_inv shutdown_ended)

section \<open>A demonstration service\<close>

definition demo_service :: service_options where
  "demo_service = \<lparr>so_runtimeId = ''llm'', so_startupTimeoutMs = None, so_slotsUrl = True\<rparr>"

definition demo_plan :: service_plan where
  "demo_plan = \<lparr>sp_runtimeId = ''llm'', sp_llm = Some \<lparr>lp_ctxSize = 8192, lp_slots = 2, lp_trainingContext = None, lp_geometryContext = None\<rparr>\<rparr>"

definition demo_up :: "managed_event list" where
  "demo_up = [EvEnsureRunning, EvPreflighted 0 Fits, EvLaunched 0 (Inr demo_plan), EvReserved 0 Fits, EvSpawned 0 (Some (10, True)),
     EvHealth 0 HealthOk]"

definition demo_exit :: "managed_event list" where
  "demo_exit = [EvExit 0, EvCleanup 0 True, EvCleanup 0 True]"

text \<open>What holds at the end of a run, as a test that computes.\<close>

definition run_ends :: "managed_event list \<Rightarrow> (managed \<Rightarrow> bool) \<Rightarrow> bool" where
  "run_ends es P = (case managed_run demo_service es new_service of None \<Rightarrow> False | Some st \<Rightarrow> P st)"

lemma run_endsE:
  assumes "run_ends es P"
  obtains st where "managed_run demo_service es new_service = Some st" "P st"
  using assms by (auto simp: run_ends_def split: option.splits)

lemma demo_running:
  "run_ends demo_up (\<lambda>st. mg_state st = Running \<and> length (mg_children st) = 1 \<and> \<not> exited st 0 \<and> mg_kills st = [] \<and> mg_held st = Some 0)"
  by code_simp

lemma demo_killed:
  "run_ends (demo_up @ EvKill # demo_exit @ [EvKillStep 0, EvKillStep 0]) (\<lambda>st. mg_kills st = [KillDone True] \<and> mg_startup st = None \<and>
     length (mg_children st) = 1 \<and> ch_cleanup (child st 0) = CleanupDone True)"
  by code_simp

lemma demo_shut_down:
  "run_ends (demo_up @ EvShutdown # demo_exit @ [EvShutdownStep, EvShutdownStep, EvShutdownStep])
     (\<lambda>st. mg_shutdown st = Some (DownDone True) \<and> length (mg_children st) = 1)"
  by code_simp

lemma demo_settled:
  "run_ends demo_up (\<lambda>st. mg_proc st = Some 0 \<and> \<not> exited st 0 \<and> mg_stopping st = None \<and> mg_startup st = None \<and> \<not> mg_isShuttingDown st \<and>
     mg_crashTimes st = [] \<and> length (mg_callers st) = 1 \<and> mg_kills st = [] \<and> length (mg_attempts st) = 1)"
  by code_simp

section \<open>A start begun during a kill\<close>

text \<open>
  A kill and a caller of \<open>ensureRunning\<close> that wait for the same stop, of process \<open>p\<close>, and the same after
  the process has been cleaned up.
\<close>

definition stop_shared :: "nat \<Rightarrow> nat \<Rightarrow> nat \<Rightarrow> nat \<Rightarrow> managed \<Rightarrow> bool" where
  "stop_shared j k c n st \<longleftrightarrow>
     mg_startup st = None \<and> \<not> mg_isRestarting st \<and> \<not> mg_isShuttingDown st \<and> mg_state st \<noteq> Failed \<and>
     length (mg_attempts st) = n \<and> j < length (mg_stops st) \<and>
     k < length (mg_kills st) \<and> mg_kills st ! k = KillFirst (Joining j) None \<and>
     c < length (mg_callers st) \<and> mg_callers st ! c = CallerStopping j \<and>
     length (recent_crashes (mg_now st) (mg_crashTimes st)) < 5"

definition stop_awaited :: "nat \<Rightarrow> nat \<Rightarrow> managed \<Rightarrow> bool" where
  "stop_awaited p j st \<longleftrightarrow>
     p < length (mg_children st) \<and> ch_expected (mg_children st ! p) \<and> mg_proc st = Some p \<and>
     mg_stopping st = Some j \<and> mg_stops st ! j = (p, None)"

definition stop_over :: "nat \<Rightarrow> nat \<Rightarrow> managed \<Rightarrow> bool" where
  "stop_over p j st \<longleftrightarrow>
     p < length (mg_children st) \<and> (\<exists>b. ch_cleanup (mg_children st ! p) = CleanupDone b) \<and> mg_proc st = None \<and>
     mg_stopping st = None \<and> mg_stops st ! j = (p, Some True)"

lemma kill_begins:
  assumes "p < length (mg_children st)" "\<not> exited st p" "mg_startup st = None" "mg_proc st = Some p" "mg_stopping st = None"
    "\<not> mg_isRestarting st" "\<not> mg_isShuttingDown st" "length (recent_crashes (mg_now st) (mg_crashTimes st)) < 5"
  defines "st' \<equiv> ensure_call (kill_call st)"
  shows "stop_shared (length (mg_stops st)) (length (mg_kills st)) (length (mg_callers st)) (length (mg_attempts st)) st'"
    and "stop_awaited p (length (mg_stops st)) st'"
    and "ch_cleanup (mg_children st' ! p) = ch_cleanup (mg_children st ! p)"
  using assms(1-8)
  by (simp_all add: st'_def stop_shared_def stop_awaited_def kill_call_def cancelStartup_def stopCurrentProcess_def ensure_call_def
      ensureRunning_def caller_goes_def upd_child_def)

lemma process_exits:
  assumes "stop_shared j k c n st" "stop_awaited p j st"
  defines "st' \<equiv> upd_child p (\<lambda>c. c\<lparr>ch_exited := True\<rparr>) st"
  shows "stop_shared j k c n st'" "stop_awaited p j st'" "exited st' p" "ch_cleanup (mg_children st' ! p) = ch_cleanup (mg_children st ! p)"
  using assms(1,2) by (simp_all add: st'_def stop_shared_def stop_awaited_def upd_child_def exited_def child_def)

lemma releaseReservation_keeps:
  "mg_children (releaseReservation r st) = mg_children st" "mg_proc (releaseReservation r st) = mg_proc st"
  "mg_stopping (releaseReservation r st) = mg_stopping st" "mg_stops (releaseReservation r st) = mg_stops st"
  "mg_startup (releaseReservation r st) = mg_startup st" "mg_isRestarting (releaseReservation r st) = mg_isRestarting st"
  "mg_isShuttingDown (releaseReservation r st) = mg_isShuttingDown st" "mg_state (releaseReservation r st) = mg_state st"
  "mg_attempts (releaseReservation r st) = mg_attempts st" "mg_kills (releaseReservation r st) = mg_kills st"
  "mg_callers (releaseReservation r st) = mg_callers st" "mg_now (releaseReservation r st) = mg_now st"
  "mg_crashTimes (releaseReservation r st) = mg_crashTimes st"
  by (simp_all add: releaseReservation_def Let_def split: option.split)

lemma delete_guardian_keeps:
  "stop_shared j k c n (delete_guardian pid g st) = stop_shared j k c n st" "stop_awaited p j (delete_guardian pid g st) = stop_awaited p j st"
  by (simp_all add: delete_guardian_def stop_shared_def stop_awaited_def)

lemma cleanup_over:
  assumes "stop_shared j k c n st" "stop_awaited p j st"
  shows "stop_shared j k c n (cleanup_ends p True st)" "stop_over p j (cleanup_ends p True st)"
  using assms
  by (auto simp: stop_shared_def stop_awaited_def stop_over_def cleanup_ends_def stop_cleaned_def handleCrash_def
      stop_promise_settles_def forget_proc_def upd_child_def child_def releaseReservation_keeps Let_def)

lemma cleaned_up:
  assumes "stop_shared j k c n st" "stop_awaited p j st" "exited st p" "ch_cleanup (mg_children st ! p) = CleanupWaiting"
  defines "st' \<equiv> cleanup_step p True (cleanup_step p True st)"
  shows "stop_shared j k c n st' \<and> stop_over p j st' \<and> p < length (mg_children (cleanup_step p True st))"
proof (cases "js_get (mg_guardians st) (ch_pid (child st p))")
  case None
  then have one: "cleanup_step p True st = cleanup_ends p True st"
    using assms(3,4) by (simp add: cleanup_step_def child_def)
  note over = cleanup_over [OF assms(1,2)]
  then have "cleanup_step p True (cleanup_ends p True st) = cleanup_ends p True st"
    by (auto simp: stop_over_def cleanup_step_def child_def)
  then show ?thesis using over by (simp add: st'_def one) (simp add: stop_over_def)
next
  case (Some g)
  let ?s = "upd_child p (\<lambda>c. c\<lparr>ch_cleanup := CleanupGuardian g\<rparr>) st"
  have one: "cleanup_step p True st = ?s" using Some assms(3,4) by (simp add: cleanup_step_def child_def)
  have s: "stop_shared j k c n ?s" "stop_awaited p j ?s" "ch_cleanup (child ?s p) = CleanupGuardian g"
    using assms(1,2) by (simp_all add: stop_shared_def stop_awaited_def upd_child_def child_def)
  have "cleanup_step p True ?s = cleanup_ends p True (delete_guardian (ch_pid (child ?s p)) g ?s)"
    using s(3) by (simp add: cleanup_step_def)
  then show ?thesis using cleanup_over [of j k c n "delete_guardian (ch_pid (child ?s p)) g ?s" p] s(1,2)
    by (simp add: st'_def one delete_guardian_keeps) (use s(2) in \<open>simp add: stop_awaited_def\<close>)
qed

lemma new_start_hidden:
  assumes "stop_shared j k c n st" "stop_over p j st"
  defines "st' \<equiv> kill_step k (kill_step k (caller_step c st))"
  shows "mg_kills st' ! k = KillDone True \<and> mg_startup st' = Some n \<and> mg_isRestarting st' \<and> \<not> at_cancelled (attempt st' n) \<and>
     at_point (attempt st' n) \<in> {AtBackoff, AtPreflight} \<and> mg_state st' = Idle \<and>
     length (mg_kills (caller_step c st)) = length (mg_kills st) \<and> length (mg_kills (kill_step k (caller_step c st))) = length (mg_kills st)"
proof -
  let ?s = "caller_step c st"
  have f: "snd (mg_stops st ! j) = Some True" "mg_proc st = None" "mg_stopping st = None" "\<not> mg_isShuttingDown st" "\<not> failed st"
      "\<not> mg_isRestarting st" "mg_callers st ! c = CallerStopping j" "length (mg_attempts st) = n"
      "length (recent_crashes (mg_now st) (mg_crashTimes st)) < 5" "k < length (mg_kills st)" "mg_kills st ! k = KillFirst (Joining j) None"
    using assms(1,2) by (simp_all add: stop_shared_def stop_over_def failed_def)
  have "?s = start_attempt (st\<lparr>mg_callers := (mg_callers st)[c := CallerStart n]\<rparr>)"
    using f by (simp add: caller_step_def ensure_checked_def caller_goes_def)
  then have s: "mg_startup ?s = Some n" "mg_isRestarting ?s" "\<not> at_cancelled (attempt ?s n)" "at_point (attempt ?s n) \<in> {AtBackoff, AtPreflight}"
      "mg_kills ?s = mg_kills st" "mg_stops ?s = mg_stops st" "mg_proc ?s = None" "mg_stopping ?s = None" "\<not> mg_isShuttingDown ?s"
    using f by (auto simp: start_attempt_def attempt_waits_def upd_attempt_def attempt_def Let_def)
  have one: "kill_step k ?s = ?s\<lparr>mg_kills := (mg_kills ?s)[k := KillSecond NothingToStop]\<rparr>"
    using f s by (simp add: kill_step_def stop_step_def kill_second_def stopCurrentProcess_def kill_waits_def)
  have "kill_step k (?s\<lparr>mg_kills := (mg_kills ?s)[k := KillSecond NothingToStop]\<rparr>) =
      ?s\<lparr>mg_kills := (mg_kills ?s)[k := KillDone True], mg_state := Idle\<rparr>"
    using f s by (simp add: kill_step_def stop_step_def kill_waits_def)
  then show ?thesis using f s unfolding st'_def one by (simp add: attempt_def)
qed

section \<open>Properties\<close>

text \<open>
  C11: a backend is accounted for as long as it lives.  However starts, crashes, kills and the shutdown
  interleave, at most one process of a supervisor is alive, and its memory reservation is held.
\<close>

theorem live_backend_is_reserved:
  assumes "managed_run opts es new_service = Some st" and "p < length (mg_children st)" and "\<not> exited st p"
  shows "mg_held st = Some (ch_reservation (child st p)) \<and> (\<forall>q < length (mg_children st). \<not> exited st q \<longrightarrow> q = p)"
proof -
  have c: "core st" using managed_reachable [OF assms(1)] by (simp add: managed_inv_def)
  have live: "\<not> cleaned st q" if "q < length (mg_children st)" "\<not> exited st q" for q
    using children_exit [OF c that(1)] that(2) by (auto simp: cleaned_def)
  show ?thesis
    using only_uncleaned [OF c assms(2) live [OF assms(2,3)]] only_uncleaned(1) [OF c _ live] by auto
qed

theorem live_backend_is_reserved_witness:
  "\<exists>st. managed_run demo_service demo_up new_service = Some st \<and> mg_held st = Some (ch_reservation (child st 0))"
proof -
  obtain st where "managed_run demo_service demo_up new_service = Some st" "length (mg_children st) = 1" "\<not> exited st 0"
    using demo_running by (elim run_endsE) blast
  with live_backend_is_reserved [of demo_service demo_up st 0] show ?thesis by auto
qed

text \<open>
  C14: no reservation leaks.  When no start is under way and every process has been cleaned up after its
  exit, the memory controller has no entry for the runtime.
\<close>

theorem reservation_never_leaks:
  assumes "managed_run opts es new_service = Some st" and "mg_startup st = None"
    and "\<forall>p < length (mg_children st). \<exists>b. ch_cleanup (child st p) = CleanupDone b"
  shows "mg_held st = None \<and> mg_reservation st = None"
proof -
  have i: "managed_inv st" by (rule managed_reachable [OF assms(1)])
  then have "mg_held st = None"
    using assms(2,3) by (auto simp: managed_inv_def held_by_child_def all_cleaned_def cleaned_def)
  then show ?thesis using i by (simp add: managed_inv_def core_def children_ok_def)
qed

theorem reservation_never_leaks_witness:
  "\<exists>st. managed_run demo_service (demo_up @ EvKill # demo_exit @ [EvKillStep 0, EvKillStep 0]) new_service = Some st \<and> mg_held st = None"
proof -
  obtain st where st: "managed_run demo_service (demo_up @ EvKill # demo_exit @ [EvKillStep 0, EvKillStep 0]) new_service = Some st"
      "mg_startup st = None" "length (mg_children st) = 1" "ch_cleanup (child st 0) = CleanupDone True"
    using demo_killed by (elim run_endsE) blast
  then have "\<forall>p < length (mg_children st). \<exists>b. ch_cleanup (child st p) = CleanupDone b" by auto
  with reservation_never_leaks [OF st(1,2)] st(1) show ?thesis by blast
qed

text \<open>
  C12: a kill that resolves has stopped what it was asked to.  Every process there was when \<open>kill\<close> was
  called has exited and been cleaned up when it resolves, whatever starts and stops went on meanwhile.
\<close>

theorem kill_waits_for_exit:
  assumes "managed_run opts es new_service = Some st0"
    and "managed_run opts fs (kill_call st0) = Some st"
    and "mg_kills st ! length (mg_kills st0) = KillDone True"
    and "p < length (mg_children st0)"
  shows "exited st p \<and> (\<exists>b. ch_cleanup (child st p) = CleanupDone b)"
proof -
  let ?N = "length (mg_children st0)" and ?k = "length (mg_kills st0)"
  have "kill_inv ?N ?k st"
    using killing.run_inv [OF kill_call_begins [OF managed_reachable [OF assms(1)]] run_allowsI assms(2)] by blast
  then have i: "core st" "?N \<le> length (mg_children st)" "\<forall>p < ?N. cleaned st p"
    using assms(3) by (simp_all add: kill_inv_def managed_inv_def)
  have "cleaned st p" using i(3) assms(4) by blast
  moreover from this have "exited st p"
    using children_exit [OF i(1)] i(2) assms(4) by (auto simp: cleaned_def)
  ultimately show ?thesis by (simp add: cleaned_def)
qed

theorem kill_waits_for_exit_witness:
  "\<exists>st0 st. managed_run demo_service demo_up new_service = Some st0 \<and>
     managed_run demo_service (demo_exit @ [EvKillStep 0, EvKillStep 0]) (kill_call st0) = Some st \<and> \<not> exited st0 0 \<and> exited st 0"
proof -
  obtain st0 where st0: "managed_run demo_service demo_up new_service = Some st0" "length (mg_children st0) = 1" "\<not> exited st0 0"
      "mg_kills st0 = []"
    using demo_running by (elim run_endsE) blast
  obtain st where st: "managed_run demo_service (demo_up @ EvKill # demo_exit @ [EvKillStep 0, EvKillStep 0]) new_service = Some st"
      "mg_kills st = [KillDone True]"
    using demo_killed by (elim run_endsE) blast
  have "managed_run demo_service (demo_exit @ [EvKillStep 0, EvKillStep 0]) (kill_call st0) = Some st"
    using st(1) st0(1) by (simp add: run_events_append managed_step_def)
  with kill_waits_for_exit [OF st0(1) this, of 0] st0 st(2) show ?thesis by auto
qed

text \<open>
  C13: a shutdown is final.  Once it has resolved, in every later state each process the supervisor ever
  started has exited, no start is under way and no reservation is held.
\<close>

theorem shutdown_is_final:
  assumes "managed_run opts es new_service = Some st" and "mg_shutdown st = Some (DownDone True)"
    and "managed_run opts fs st = Some st'"
  shows "(\<forall>p < length (mg_children st'). exited st' p) \<and> mg_startup st' = None \<and> mg_held st' = None"
proof -
  have "managed_inv st \<and> mg_shutdown st = Some (DownDone True)" using managed_reachable [OF assms(1)] assms(2) by blast
  from ended.run_inv [OF this run_allowsI assms(3)] have i: "managed_inv st'" "mg_shutdown st' = Some (DownDone True)" by blast+
  then have d: "core st'" "mg_startup st' = None" "all_cleaned st'" by (simp_all add: managed_inv_def core_def down_ok_def)
  have "exited st' p" if "p < length (mg_children st')" for p
    using children_exit [OF d(1) that] d(3) that by (auto simp: all_cleaned_def cleaned_def)
  moreover have "mg_held st' = None" using i(1) d(2,3) by (simp add: managed_inv_def held_by_child_def)
  ultimately show ?thesis using d(2) by blast
qed

theorem shutdown_is_final_witness:
  "\<exists>st. managed_run demo_service (demo_up @ EvShutdown # demo_exit @ [EvShutdownStep, EvShutdownStep, EvShutdownStep]) new_service = Some st \<and>
     exited st 0 \<and> mg_held st = None"
proof -
  obtain st where st: "managed_run demo_service (demo_up @ EvShutdown # demo_exit @ [EvShutdownStep, EvShutdownStep, EvShutdownStep]) new_service = Some st"
      "mg_shutdown st = Some (DownDone True)" "length (mg_children st) = 1"
    using demo_shut_down by (elim run_endsE) blast
  with shutdown_is_final [OF st(1,2), of "[]" st] show ?thesis by auto
qed

text \<open>
  C15: a kill hides the start that follows it.  In any reachable state of any service with a live process,
  no start, stop or shutdown under way and fewer than five recent crashes: when \<open>ensureRunning\<close> is called
  while a kill stops the process, and its start begins when the process has been cleaned up, before the
  kill goes on, then the kill succeeds and the service is idle, while that start is the current one, not
  cancelled, and on its way.
\<close>

theorem kill_hides_new_start:
  assumes "managed_run opts es new_service = Some st"
    and "mg_proc st = Some p" and "\<not> exited st p" and "mg_stopping st = None" and "mg_startup st = None" and "\<not> mg_isShuttingDown st"
    and "length (recent_crashes (mg_now st) (mg_crashTimes st)) < 5"
  shows "\<exists>st'. managed_run opts [EvKill, EvEnsureRunning, EvExit p, EvCleanup p True, EvCleanup p True,
         EvCaller (length (mg_callers st)), EvKillStep (length (mg_kills st)), EvKillStep (length (mg_kills st))] st = Some st' \<and>
     mg_kills st' ! length (mg_kills st) = KillDone True \<and>
     mg_startup st' = Some (length (mg_attempts st)) \<and> mg_isRestarting st' \<and>
     \<not> at_cancelled (attempt st' (length (mg_attempts st))) \<and>
     at_point (attempt st' (length (mg_attempts st))) \<in> {AtBackoff, AtPreflight} \<and> mg_state st' = Idle"
proof -
  have inv: "managed_inv st" by (rule managed_reachable [OF assms(1)])
  then have p: "p < length (mg_children st)" "ch_cleanup (mg_children st ! p) = CleanupWaiting" "\<not> mg_isRestarting st"
    using assms(2,3,5) by (auto simp: managed_inv_def core_def children_ok_def starts_ok_def child_def)
  let ?j = "length (mg_stops st)" and ?k = "length (mg_kills st)" and ?c = "length (mg_callers st)" and ?n = "length (mg_attempts st)"
  note begun = kill_begins [OF p(1) assms(3,5,2,4) p(3) assms(6,7)]
  define s0 where "s0 = ensure_call (kill_call st)"
  define s1 where "s1 = upd_child p (\<lambda>c. c\<lparr>ch_exited := True\<rparr>) s0"
  define s2 where "s2 = cleanup_step p True s1"
  define s3 where "s3 = cleanup_step p True s2"
  define s4 where "s4 = caller_step ?c s3"
  define s5 where "s5 = kill_step ?k s4"
  note ex = process_exits [OF begun(1,2), folded s0_def, folded s1_def]
  have over: "stop_shared ?j ?k ?c ?n s3" "stop_over p ?j s3" "p < length (mg_children s2)"
    using cleaned_up [OF ex(1,2,3)] ex(4) begun(3) p(2) by (simp_all add: s2_def s3_def s0_def)
  note hidden = new_start_hidden [OF over(1,2), folded s4_def, folded s5_def]
  have lens: "p < length (mg_children s0)" "p < length (mg_children s1)" "p < length (mg_children s2)" "?c < length (mg_callers s3)"
      "?k < length (mg_kills s3)"
    using begun(2) ex(2) over(1,3) by (simp_all add: s0_def stop_shared_def stop_awaited_def)
  have "managed_step opts EvKill st = Some (kill_call st)" "managed_step opts EvEnsureRunning (kill_call st) = Some s0"
      "managed_step opts (EvExit p) s0 = Some s1" "managed_step opts (EvCleanup p True) s1 = Some s2"
      "managed_step opts (EvCleanup p True) s2 = Some s3" "managed_step opts (EvCaller ?c) s3 = Some s4"
      "managed_step opts (EvKillStep ?k) s4 = Some s5" "managed_step opts (EvKillStep ?k) s5 = Some (kill_step ?k s5)"
    using lens hidden by (simp_all add: managed_step_def s0_def s1_def s2_def s3_def s4_def s5_def)
  then show ?thesis using hidden by simp
qed

theorem kill_hides_new_start_witness:
  "\<exists>st st'. managed_run demo_service demo_up new_service = Some st \<and>
     managed_run demo_service [EvKill, EvEnsureRunning, EvExit 0, EvCleanup 0 True, EvCleanup 0 True, EvCaller 1, EvKillStep 0, EvKillStep 0] st = Some st' \<and>
     mg_startup st' = Some 1 \<and> mg_state st' = Idle"
proof -
  obtain st where st: "managed_run demo_service demo_up new_service = Some st" "mg_proc st = Some 0" "\<not> exited st 0" "mg_stopping st = None"
      "mg_startup st = None" "\<not> mg_isShuttingDown st" "mg_crashTimes st = []" "length (mg_callers st) = 1" "mg_kills st = []" "length (mg_attempts st) = 1"
    using demo_settled by (elim run_endsE) blast
  then have "length (recent_crashes (mg_now st) (mg_crashTimes st)) < 5" by (simp add: recent_crashes_def)
  from kill_hides_new_start [OF st(1-6) this] st(1,8-10) show ?thesis by auto
qed

end
