(* ===== verification/Gateway_Admission.thy ===== *)
theory Gateway_Admission
  imports Memory_Controller Inference_Queue "HOL-Library.Word"
begin

text \<open>
  How the gateway admits a request, dispatches it and gives its admission back, from
  \<^verbatim>\<open>src/src/domains/runtime/commands/serve.ts\<close>: \<open>admitModelWithIdleRecovery\<close>,
  \<open>generateSpeechWithIdleRecovery\<close>, \<open>proxyWithAdmission\<close>, \<open>withResponseLease\<close>, the bounded reading of
  request bodies and the error responses; and the memory pressure monitor of
  \<^verbatim>\<open>memory-pressure-monitor.ts\<close> with what the gateway does under pressure.
  What the reconciler, the backend and the client answer comes with the events.  Telemetry spans and log
  entries, headers and the texts of errors are left out.
\<close>

section \<open>Error responses\<close>

record gateway_error =
  ge_status :: int
  ge_code :: string
  ge_param :: "string option"
  ge_retryAfter :: "int option"

definition serviceUnavailable :: gateway_error where
  "serviceUnavailable = \<lparr>ge_status = 503, ge_code = ''service_unavailable'', ge_param = None, ge_retryAfter = Some 5\<rparr>"

definition payloadTooLarge :: gateway_error where
  "payloadTooLarge = \<lparr>ge_status = 413, ge_code = ''payload_too_large'', ge_param = None, ge_retryAfter = None\<rparr>"

definition capacity_of :: "memory_error \<Rightarrow> capacity_shortfall option" where
  "capacity_of e = (case e of AdmissionError r p d c g \<Rightarrow> c | _ \<Rightarrow> None)"

definition resourceUnavailable :: "memory_error option \<Rightarrow> gateway_error" where
  "resourceUnavailable e =
     (if Option.bind e capacity_of \<noteq> None
      then \<lparr>ge_status = 422, ge_code = ''model_too_large'', ge_param = Some ''model'', ge_retryAfter = None\<rparr>
      else \<lparr>ge_status = 503, ge_code = ''insufficient_memory'', ge_param = None, ge_retryAfter = Some 5\<rparr>)"

datatype queue_rejection = RejectedCapacity | RejectedTimeout ms | RejectedUnavailable

definition classifyInferenceQueueError :: "queue_error \<Rightarrow> queue_rejection option" where
  "classifyInferenceQueueError e =
     (case e of
        CapacityError \<Rightarrow> Some RejectedCapacity
      | TimeoutError w \<Rightarrow> Some (RejectedTimeout w)
      | UnavailableError m \<Rightarrow> Some RejectedUnavailable
      | _ \<Rightarrow> None)"

definition inferenceQueueErrorResponse :: "queue_rejection \<Rightarrow> gateway_error" where
  "inferenceQueueErrorResponse r =
     (case r of
        RejectedCapacity \<Rightarrow> \<lparr>ge_status = 429, ge_code = ''inference_queue_full'', ge_param = None, ge_retryAfter = Some 1\<rparr>
      | RejectedTimeout w \<Rightarrow> \<lparr>ge_status = 429, ge_code = ''inference_queue_timeout'', ge_param = None, ge_retryAfter = Some 1\<rparr>
      | RejectedUnavailable \<Rightarrow> serviceUnavailable)"

definition inferenceQueueError :: "queue_error \<Rightarrow> gateway_error option" where
  "inferenceQueueError e = map_option inferenceQueueErrorResponse (classifyInferenceQueueError e)"

section \<open>Request bodies\<close>

definition MAX_REQUEST_BYTES :: int where "MAX_REQUEST_BYTES = 25 * 1024 * 1024"
definition MAX_DISCARDED_REQUEST_BYTES :: int where "MAX_DISCARDED_REQUEST_BYTES = 1024 * 1024"

type_synonym body_chunk = "8 word list"

text \<open>\<open>content-length\<close>: absent, or its \<open>Number\<close> when that is a safe integer.\<close>

definition requestExceedsSizeLimit :: "int option option \<Rightarrow> int \<Rightarrow> bool" where
  "requestExceedsSizeLimit header limit =
     (case header of None \<Rightarrow> False | Some None \<Rightarrow> True | Some (Some n) \<Rightarrow> n < 0 \<or> n > limit)"

text \<open>The bytes read and dropped.\<close>

fun discardRemainingBody :: "int \<Rightarrow> int \<Rightarrow> body_chunk list \<Rightarrow> int" where
  "discardRemainingBody budget discarded [] = discarded"
| "discardRemainingBody budget discarded (c # cs) =
     (if discarded \<le> budget then discardRemainingBody budget (discarded + int (length c)) cs else discarded)"

definition discardDeclaredOversizedBody :: "int option option \<Rightarrow> int \<Rightarrow> body_chunk list \<Rightarrow> int" where
  "discardDeclaredOversizedBody header limit body =
     (case header of
        Some (Some declared) \<Rightarrow>
          if declared > limit + MAX_DISCARDED_REQUEST_BYTES then 0 else discardRemainingBody declared 0 body
      | _ \<Rightarrow> 0)"

fun read_chunks :: "int \<Rightarrow> body_chunk list \<Rightarrow> int \<Rightarrow> body_chunk list \<Rightarrow> 8 word list option \<times> int" where
  "read_chunks limit chunks n [] = (Some (concat chunks), n)"
| "read_chunks limit chunks n (c # cs) =
     (let n = n + int (length c) in
      if n > limit then (None, n + discardRemainingBody MAX_DISCARDED_REQUEST_BYTES 0 cs)
      else read_chunks limit (chunks @ [c]) n cs)"

text \<open>The body, or \<open>None\<close> for the error of a body that is too large; and how many bytes were read.\<close>

definition readBoundedRequestBody :: "int option option \<Rightarrow> int \<Rightarrow> body_chunk list \<Rightarrow> 8 word list option \<times> int" where
  "readBoundedRequestBody header limit body =
     (if requestExceedsSizeLimit header limit then (None, discardDeclaredOversizedBody header limit body)
      else read_chunks limit [] 0 body)"

section \<open>Admission with recovery\<close>

datatype 'a model_admission = Admitted 'a | InsufficientMemory memory_error | OtherAdmission nat

text \<open>
  The first part of \<open>admitModelWithIdleRecovery\<close>: what each call answers (\<open>None\<close> when it throws) and
  whether the signal has aborted after it.  The result is \<open>None\<close> when it throws; with it, how many
  admissions were asked for.
\<close>

record 'a recovery_answers =
  an_abortedFirst :: bool
  an_recovered :: "bool option"
  an_abortedRecovered :: bool
  an_waited :: "bool option"
  an_abortedWaited :: bool
  an_retry :: "'a model_admission option"

definition admit_first :: "'a model_admission \<Rightarrow> 'a recovery_answers \<Rightarrow> 'a model_admission option \<times> nat" where
  "admit_first first an =
     (case first of
        InsufficientMemory e \<Rightarrow>
          if capacity_of e \<noteq> None then (Some first, 1)
          else if an_abortedFirst an then (None, 1)
          else
            (case an_recovered an of
               None \<Rightarrow> (None, 1)
             | Some False \<Rightarrow> (Some first, 1)
             | Some True \<Rightarrow>
                 if an_abortedRecovered an then (None, 1)
                 else
                   (case an_waited an of
                      None \<Rightarrow> (None, 1)
                    | Some False \<Rightarrow> (Some first, 1)
                    | Some True \<Rightarrow>
                        if an_abortedWaited an then (None, 1)
                        else
                          (case an_retry an of
                             None \<Rightarrow> (None, 2)
                           | Some (Admitted a) \<Rightarrow> (Some (Admitted a), 2)
                           | Some _ \<Rightarrow> (Some first, 2))))
      | _ \<Rightarrow> (Some first, 1))"

text \<open>A failure of a generation is a memory admission error, or another one.\<close>

datatype request_failure = MemoryAdmission memory_error | ConsentRequired | OtherFailure

definition generateSpeechWithIdleRecovery ::
    "request_failure + 'a \<Rightarrow> bool \<Rightarrow> 'b recovery_answers \<Rightarrow> request_failure + 'a \<Rightarrow> (request_failure + 'a) \<times> nat" where
  "generateSpeechWithIdleRecovery first aborted an second =
     (case first of
        Inr a \<Rightarrow> (Inr a, 1)
      | Inl (MemoryAdmission e) \<Rightarrow>
          if capacity_of e \<noteq> None \<or> aborted then (first, 1)
          else
            (case an_recovered an of
               None \<Rightarrow> (Inl OtherFailure, 1)
             | Some False \<Rightarrow> (first, 1)
             | Some True \<Rightarrow>
                 if an_abortedRecovered an then (Inl OtherFailure, 1)
                 else
                   (case an_waited an of
                      None \<Rightarrow> (Inl OtherFailure, 1)
                    | Some False \<Rightarrow> (first, 1)
                    | Some True \<Rightarrow> if an_abortedWaited an then (Inl OtherFailure, 1) else (second, 2)))
      | Inl f \<Rightarrow> (first, 1))"

section \<open>A request and its admission\<close>

text \<open>
  A request that has been admitted.  \<open>gq_admissions\<close> are the admissions it was given, each with whether it has
  been given back; \<open>gq_current\<close> is the one the handle stands for.  \<open>gq_ready\<close> is the point of the promise
  \<open>ready\<close> of the handle, which may replace the admission; \<open>gq_point\<close> that of \<open>proxyWithAdmission\<close>.
  \<open>gq_settles\<close> are the calls of the handle, \<open>True\<close> for \<open>release\<close> and \<open>False\<close> for \<open>cancel\<close>.
\<close>

datatype ready_point =
    ReadyFirst
  | ReadyKill memory_error
  | ReadyRecover memory_error
  | ReadyWait memory_error
  | ReadyAdmit memory_error
  | ReadyRetry memory_error
  | ReadyOk
  | ReadyFailed request_failure

datatype proxy_point = PxReady | PxTurn | PxDispatch | PxDispatched int bool | PxStreaming int | PxDone

datatype outcome = OutCompleted | OutCancelled | OutError

datatype terminal_source = RequestAborted | ResponseStreamError | ResponseCancelled | MemoryAdmissionSource

record inference_terminal =
  tm_outcome :: outcome
  tm_status :: int
  tm_source :: "terminal_source option"

record gateway_request =
  gq_admissions :: "bool list"
  gq_current :: nat
  gq_ready :: ready_point
  gq_point :: proxy_point
  gq_aborted :: bool
  gq_started :: bool
  gq_completed :: bool
  gq_response :: "int option"
  gq_settles :: "bool list"
  gq_terminals :: "inference_terminal list"

definition admitted_request :: gateway_request where
  "admitted_request =
     \<lparr>gq_admissions = [False], gq_current = 0, gq_ready = ReadyFirst, gq_point = PxReady, gq_aborted = False,
      gq_started = False, gq_completed = False, gq_response = None, gq_settles = [], gq_terminals = []\<rparr>"

definition settle_current :: "gateway_request \<Rightarrow> gateway_request" where
  "settle_current st = st\<lparr>gq_admissions := (gq_admissions st)[gq_current st := True]\<rparr>"

text \<open>The handle's \<open>release\<close> and \<open>cancel\<close>, called by the proxy.\<close>

definition settle_handle :: "bool \<Rightarrow> gateway_request \<Rightarrow> gateway_request" where
  "settle_handle ok st = settle_current (st\<lparr>gq_settles := gq_settles st @ [ok]\<rparr>)"

definition report_terminal :: "outcome \<Rightarrow> int \<Rightarrow> terminal_source option \<Rightarrow> gateway_request \<Rightarrow> gateway_request" where
  "report_terminal out status source st =
     st\<lparr>gq_terminals := gq_terminals st @ [\<lparr>tm_outcome = out, tm_status = status, tm_source = source\<rparr>]\<rparr>"

text \<open>The \<open>ready\<close> of the handle, up to its next wait.\<close>

definition ready_fails :: "request_failure \<Rightarrow> gateway_request \<Rightarrow> gateway_request" where
  "ready_fails f st = st\<lparr>gq_ready := ReadyFailed f\<rparr>"

definition unless_aborted :: "(gateway_request \<Rightarrow> gateway_request) \<Rightarrow> gateway_request \<Rightarrow> gateway_request" where
  "unless_aborted go st = (if gq_aborted st then ready_fails OtherFailure st else go st)"

definition ready_first :: "request_failure option \<Rightarrow> gateway_request \<Rightarrow> gateway_request" where
  "ready_first f st =
     (case f of
        None \<Rightarrow> st\<lparr>gq_ready := ReadyOk\<rparr>
      | Some (MemoryAdmission e) \<Rightarrow>
          if gq_aborted st then ready_fails (MemoryAdmission e) st else (settle_current st)\<lparr>gq_ready := ReadyKill e\<rparr>
      | Some f \<Rightarrow> ready_fails f st)"

definition ready_killed :: "memory_error \<Rightarrow> bool \<Rightarrow> gateway_request \<Rightarrow> gateway_request" where
  "ready_killed e ok st =
     (if \<not> ok then ready_fails OtherFailure st
      else unless_aborted (\<lambda>st.
        if capacity_of e \<noteq> None then ready_fails (MemoryAdmission e) st else st\<lparr>gq_ready := ReadyRecover e\<rparr>) st)"

definition ready_answered :: "memory_error \<Rightarrow> ready_point \<Rightarrow> bool option \<Rightarrow> gateway_request \<Rightarrow> gateway_request" where
  "ready_answered e next answer st =
     (case answer of
        None \<Rightarrow> ready_fails OtherFailure st
      | Some False \<Rightarrow> ready_fails (MemoryAdmission e) st
      | Some True \<Rightarrow> unless_aborted (\<lambda>st. st\<lparr>gq_ready := next\<rparr>) st)"

datatype readmission = Readmitted | NotReadmitted | ReadmissionThrows

definition ready_readmitted :: "memory_error \<Rightarrow> readmission \<Rightarrow> gateway_request \<Rightarrow> gateway_request" where
  "ready_readmitted e answer st =
     (case answer of
        ReadmissionThrows \<Rightarrow> ready_fails OtherFailure st
      | NotReadmitted \<Rightarrow> ready_fails (MemoryAdmission e) st
      | Readmitted \<Rightarrow>
          st\<lparr>gq_admissions := gq_admissions st @ [False], gq_current := length (gq_admissions st), gq_ready := ReadyRetry e\<rparr>)"

definition ready_retried :: "memory_error \<Rightarrow> bool \<Rightarrow> gateway_request \<Rightarrow> gateway_request" where
  "ready_retried e ok st = (if ok then st\<lparr>gq_ready := ReadyOk\<rparr> else ready_fails (MemoryAdmission e) st)"

text \<open>The \<open>catch\<close> of \<open>proxyWithAdmission\<close>.\<close>

definition proxy_aborted :: "gateway_request \<Rightarrow> gateway_request" where
  "proxy_aborted st =
     report_terminal OutCancelled 499 (Some RequestAborted) ((settle_handle False st)\<lparr>gq_point := PxDone, gq_response := Some 499\<rparr>)"

definition failure_status :: "request_failure \<Rightarrow> int" where
  "failure_status f =
     (case f of
        MemoryAdmission e \<Rightarrow> ge_status (resourceUnavailable (Some e))
      | ConsentRequired \<Rightarrow> 409
      | OtherFailure \<Rightarrow> ge_status serviceUnavailable)"

definition proxy_fails :: "request_failure \<Rightarrow> gateway_request \<Rightarrow> gateway_request" where
  "proxy_fails f st =
     report_terminal OutError (failure_status f) (case f of MemoryAdmission e \<Rightarrow> Some MemoryAdmissionSource | _ \<Rightarrow> None)
       ((settle_handle True st)\<lparr>gq_point := PxDone, gq_response := Some (failure_status f)\<rparr>)"

text \<open>
  \<open>settleOnce\<close> of \<open>withResponseLease\<close>; \<open>proxyWithAdmission\<close> reports a completed response with an error
  status as an error.
\<close>

definition report_settled :: "outcome \<Rightarrow> int \<Rightarrow> terminal_source option \<Rightarrow> gateway_request \<Rightarrow> gateway_request" where
  "report_settled out status source =
     (if out = OutCompleted \<and> status \<ge> 400 then report_terminal OutError status None else report_terminal out status source)"

definition settleOnce :: "outcome \<Rightarrow> int \<Rightarrow> terminal_source option \<Rightarrow> gateway_request \<Rightarrow> gateway_request" where
  "settleOnce out status source st =
     (if gq_completed st then st
      else report_settled out status source (settle_handle (out = OutCompleted) (st\<lparr>gq_completed := True\<rparr>)))"

definition withResponseLease :: "int \<Rightarrow> bool \<Rightarrow> gateway_request \<Rightarrow> gateway_request" where
  "withResponseLease status hasBody st =
     (let st1 = st\<lparr>gq_response := Some status\<rparr> in
      if \<not> hasBody then
        (if gq_aborted st1 then report_settled OutCancelled status (Some RequestAborted) (settle_handle False st1)
         else report_settled OutCompleted status None (settle_handle True st1))\<lparr>gq_point := PxDone\<rparr>
      else
        let st2 = st1\<lparr>gq_point := PxStreaming status\<rparr> in
        if gq_aborted st2 then settleOnce OutCancelled status (Some RequestAborted) st2 else st2)"

datatype gateway_event =
    GAbort
  | GReadyFirst "request_failure option"
  | GKilled bool
  | GRecovered "bool option"
  | GWaited "bool option"
  | GReadmitted readmission
  | GRetried bool
  | GReadySeen
  | GTurn
  | GDispatched "request_failure + int \<times> bool"
  | GAnswered
  | GBodyEnds
  | GBodyFails
  | GClientCancels

text \<open>An abort rejects the wait it finds; the listener of a response lease settles it.\<close>

definition request_aborts :: "gateway_request \<Rightarrow> gateway_request" where
  "request_aborts st =
     (let st1 = st\<lparr>gq_aborted := True\<rparr> in
      if gq_aborted st then st
      else
        case gq_point st of
          PxReady \<Rightarrow> proxy_aborted st1
        | PxDispatch \<Rightarrow> proxy_aborted st1
        | PxStreaming status \<Rightarrow> settleOnce OutCancelled status (Some RequestAborted) st1
        | _ \<Rightarrow> st1)"

definition body_ends :: "outcome \<Rightarrow> terminal_source option \<Rightarrow> gateway_request \<Rightarrow> gateway_request" where
  "body_ends out source st =
     (case gq_point st of
        PxStreaming status \<Rightarrow> (settleOnce out status source st)\<lparr>gq_point := PxDone\<rparr>
      | _ \<Rightarrow> st)"

fun gateway_apply :: "gateway_event \<Rightarrow> gateway_request \<Rightarrow> gateway_request" where
  "gateway_apply GAbort st = request_aborts st"
| "gateway_apply (GReadyFirst f) st = (if gq_ready st = ReadyFirst then ready_first f st else st)"
| "gateway_apply (GKilled ok) st = (case gq_ready st of ReadyKill e \<Rightarrow> ready_killed e ok st | _ \<Rightarrow> st)"
| "gateway_apply (GRecovered r) st = (case gq_ready st of ReadyRecover e \<Rightarrow> ready_answered e (ReadyWait e) r st | _ \<Rightarrow> st)"
| "gateway_apply (GWaited r) st = (case gq_ready st of ReadyWait e \<Rightarrow> ready_answered e (ReadyAdmit e) r st | _ \<Rightarrow> st)"
| "gateway_apply (GReadmitted r) st = (case gq_ready st of ReadyAdmit e \<Rightarrow> ready_readmitted e r st | _ \<Rightarrow> st)"
| "gateway_apply (GRetried ok) st = (case gq_ready st of ReadyRetry e \<Rightarrow> ready_retried e ok st | _ \<Rightarrow> st)"
| "gateway_apply GReadySeen st =
     (if gq_point st \<noteq> PxReady then st
      else case gq_ready st of
        ReadyOk \<Rightarrow> st\<lparr>gq_point := PxTurn\<rparr> | ReadyFailed f \<Rightarrow> proxy_fails f st | _ \<Rightarrow> st)"
| "gateway_apply GTurn st =
     (if gq_point st \<noteq> PxTurn then st
      else if gq_aborted st then proxy_aborted st else st\<lparr>gq_point := PxDispatch\<rparr>)"
| "gateway_apply (GDispatched r) st =
     (if gq_point st \<noteq> PxDispatch then st
      else case r of Inl f \<Rightarrow> proxy_fails f st | Inr (status, hasBody) \<Rightarrow> st\<lparr>gq_point := PxDispatched status hasBody\<rparr>)"
| "gateway_apply GAnswered st =
     (case gq_point st of
        PxDispatched status hasBody \<Rightarrow> withResponseLease status hasBody (st\<lparr>gq_started := True\<rparr>)
      | _ \<Rightarrow> st)"
| "gateway_apply GBodyEnds st = body_ends OutCompleted None st"
| "gateway_apply GBodyFails st = body_ends OutError (Some ResponseStreamError) st"
| "gateway_apply GClientCancels st = body_ends OutCancelled (Some ResponseCancelled) st"

definition gateway_step :: "gateway_event \<Rightarrow> gateway_request \<Rightarrow> gateway_request option" where
  "gateway_step ev st = Some (gateway_apply ev st)"

abbreviation gateway_run :: "gateway_event list \<Rightarrow> gateway_request \<Rightarrow> gateway_request option" where
  "gateway_run \<equiv> run_events gateway_step"

text \<open>\<open>admitModel\<close> throws when the signal has aborted by the time it would return an admission.\<close>

definition admits_in_time :: "gateway_event \<Rightarrow> gateway_request \<Rightarrow> bool" where
  "admits_in_time ev st = (ev = GReadmitted Readmitted \<longrightarrow> \<not> gq_aborted st)"

section \<open>Memory pressure\<close>

text \<open>
  The monitor: one observation at a time, with the transition it is applying.  \<open>mo_log\<close> lists what it did:
  the calls of \<open>onElevatedPressure\<close>, \<open>onTransition\<close> and \<open>onError\<close> when they have settled, and the changes of
  \<open>lastApplied\<close>.
\<close>

datatype observe_point = AwaitingPoll | AwaitingElevated safety_transition | AwaitingTransition safety_transition | AwaitingError

datatype monitor_entry = Elevated safety_transition bool | Applied safety_transition | Notified safety_transition bool | ErrorReported | Observed

record monitor =
  mo_running :: "observe_point option"
  mo_reportedError :: bool
  mo_lastApplied :: hysteresis
  mo_log :: "monitor_entry list"

definition new_monitor :: monitor where
  "new_monitor =
     \<lparr>mo_running = None, mo_reportedError = False, mo_lastApplied = \<lparr>hy_state = Healthy, hy_normal = 0\<rparr>, mo_log = []\<rparr>"

definition observe_fails :: "monitor \<Rightarrow> monitor" where
  "observe_fails st =
     (if mo_reportedError st then st\<lparr>mo_running := None\<rparr>
      else st\<lparr>mo_reportedError := True, mo_running := Some AwaitingError\<rparr>)"

definition log_entry :: "monitor_entry \<Rightarrow> monitor \<Rightarrow> monitor" where
  "log_entry e st = st\<lparr>mo_log := mo_log st @ [e]\<rparr>"

definition observed :: "monitor \<Rightarrow> monitor" where
  "observed st = log_entry Observed (st\<lparr>mo_reportedError := False, mo_running := None\<rparr>)"

definition state_changed :: "monitor \<Rightarrow> safety_transition \<Rightarrow> bool" where
  "state_changed st tr \<longleftrightarrow> hy_state (tr_previous tr) \<noteq> hy_state (tr_current tr)"

definition apply_transition :: "safety_transition \<Rightarrow> monitor \<Rightarrow> monitor" where
  "apply_transition tr st =
     (if state_changed st tr
      then log_entry (Applied tr) (st\<lparr>mo_lastApplied := tr_current tr, mo_running := Some (AwaitingTransition tr)\<rparr>)
      else observed st)"

text \<open>The controller's \<open>poll\<close> answers; \<open>None\<close> when it throws.\<close>

definition polled :: "safety_transition option \<Rightarrow> monitor \<Rightarrow> monitor" where
  "polled answer st =
     (case answer of
        None \<Rightarrow> observe_fails st
      | Some t \<Rightarrow>
          let tr = \<lparr>tr_previous = mo_lastApplied st, tr_current = tr_current t, tr_action = tr_action t\<rparr> in
          if hy_state (tr_current tr) = ConstrainedState \<or> (hy_state (tr_current tr) = CriticalState \<and> state_changed st tr)
          then st\<lparr>mo_running := Some (AwaitingElevated tr)\<rparr>
          else apply_transition tr st)"

datatype monitor_event = MonPoll | MonPolled "safety_transition option" | MonSettled bool

definition monitor_apply :: "monitor_event \<Rightarrow> monitor \<Rightarrow> monitor" where
  "monitor_apply ev st =
     (case (ev, mo_running st) of
        (MonPoll, None) \<Rightarrow> st\<lparr>mo_running := Some AwaitingPoll\<rparr>
      | (MonPolled answer, Some AwaitingPoll) \<Rightarrow> polled answer st
      | (MonSettled ok, Some (AwaitingElevated tr)) \<Rightarrow>
          (let st1 = log_entry (Elevated tr ok) st in if ok then apply_transition tr st1 else observe_fails st1)
      | (MonSettled ok, Some (AwaitingTransition tr)) \<Rightarrow>
          (let st1 = log_entry (Notified tr ok) st in if ok then observed st1 else observe_fails st1)
      | (MonSettled ok, Some AwaitingError) \<Rightarrow> log_entry ErrorReported (st\<lparr>mo_running := None\<rparr>)
      | _ \<Rightarrow> st)"

definition monitor_step :: "monitor_event \<Rightarrow> monitor \<Rightarrow> monitor option" where
  "monitor_step ev st = Some (monitor_apply ev st)"

abbreviation monitor_run :: "monitor_event list \<Rightarrow> monitor \<Rightarrow> monitor option" where
  "monitor_run \<equiv> run_events monitor_step"

text \<open>What the gateway does: the number of evicted runtimes and the grace period are answers.\<close>

datatype pressure_call = EvictIdleRuntimes | FailActiveVideoJob | EvictAllRuntimes

definition applyElevatedMemoryPressure :: "nat \<Rightarrow> bool \<Rightarrow> safety_transition \<Rightarrow> pressure_call list" where
  "applyElevatedMemoryPressure evicted withinGrace tr =
     (case hy_state (tr_current tr) of
        ConstrainedState \<Rightarrow>
          EvictIdleRuntimes # (if evicted = 0 \<and> hy_normal (tr_current tr) = 0 \<and> \<not> withinGrace then [FailActiveVideoJob] else [])
      | CriticalState \<Rightarrow> [FailActiveVideoJob, EvictAllRuntimes]
      | Healthy \<Rightarrow> [])"

section \<open>Shutdown\<close>

text \<open>The exit status, from whether the lease was released and the log closed.\<close>

definition finalizeGatewayShutdown :: "bool \<Rightarrow> bool \<Rightarrow> int \<Rightarrow> int" where
  "finalizeGatewayShutdown leaseReleased logClosed exitStatus =
     (let finalStatus = (if leaseReleased then exitStatus else 1) in if logClosed then finalStatus else 1)"

end
