(* ===== verification/Gateway_Safety.thy ===== *)
theory Gateway_Safety
  imports Gateway_Admission
begin

text \<open>
  What the gateway guarantees of a request: its admission is given back once, the admission that replaces
  it after a recovery included, its body is read within bounds, and memory pressure is handled before it
  is reported.
\<close>

section \<open>The proxy\<close>

definition unanswered :: "proxy_point \<Rightarrow> bool" where
  "unanswered p \<longleftrightarrow> (case p of PxStreaming s \<Rightarrow> False | PxDone \<Rightarrow> False | _ \<Rightarrow> True)"

definition settle_matches :: "gateway_request \<Rightarrow> bool" where
  "settle_matches st \<longleftrightarrow>
     length (gq_terminals st) = length (gq_settles st) \<and>
     (\<forall>t. gq_terminals st = [t] \<longrightarrow>
        gq_settles st = [\<not> (tm_outcome t = OutCancelled \<or> tm_source t = Some ResponseStreamError)])"

definition proxy_inv :: "gateway_request \<Rightarrow> bool" where
  "proxy_inv st \<longleftrightarrow>
     settle_matches st \<and>
     (unanswered (gq_point st) \<longrightarrow> gq_settles st = [] \<and> \<not> gq_completed st) \<and>
     (gq_point st = PxReady \<or> gq_point st = PxDispatch \<longrightarrow> \<not> gq_aborted st) \<and>
     (\<forall>s. gq_point st = PxStreaming s \<longrightarrow>
        length (gq_settles st) = (if gq_completed st then 1 else 0) \<and> (gq_aborted st \<longrightarrow> gq_completed st)) \<and>
     (gq_point st = PxDone \<longrightarrow> length (gq_settles st) = 1)"

lemmas proxy_defs =
  proxy_inv_def settle_matches_def unanswered_def settle_handle_def settle_current_def report_terminal_def report_settled_def
  settleOnce_def proxy_aborted_def proxy_fails_def withResponseLease_def body_ends_def Let_def

lemmas ready_defs =
  ready_first_def ready_fails_def ready_killed_def ready_answered_def ready_readmitted_def ready_retried_def
  unless_aborted_def settle_current_def

lemma proxy_ready:
  "proxy_inv (ready_first f st) = proxy_inv st" "proxy_inv (ready_killed e ok st) = proxy_inv st"
  "proxy_inv (ready_answered e next r st) = proxy_inv st" "proxy_inv (ready_readmitted e a st) = proxy_inv st"
  "proxy_inv (ready_retried e ok st) = proxy_inv st"
  by (simp_all add: ready_defs proxy_inv_def settle_matches_def split: option.splits request_failure.splits readmission.splits bool.splits)

lemma proxy_abort: "proxy_inv st \<Longrightarrow> proxy_inv (request_aborts st)"
  by (auto simp: request_aborts_def proxy_defs split: proxy_point.splits)

lemma proxy_leased:
  "proxy_inv st \<Longrightarrow> gq_point st = PxDispatched status b \<Longrightarrow> proxy_inv (withResponseLease status b (st\<lparr>gq_started := True\<rparr>))"
  by (auto simp: proxy_defs)

lemma proxy_body: "proxy_inv st \<Longrightarrow> out = OutError \<longrightarrow> source = Some ResponseStreamError \<Longrightarrow> source = Some ResponseStreamError \<longrightarrow> out = OutError \<Longrightarrow> proxy_inv (body_ends out source st)"
  by (cases out) (auto simp: proxy_defs split: proxy_point.splits)

lemma proxy_failed: "proxy_inv st \<Longrightarrow> unanswered (gq_point st) \<Longrightarrow> proxy_inv (proxy_fails f st)"
  by (auto simp: proxy_defs split: request_failure.splits)

lemma proxy_point_moves:
  "proxy_inv st \<Longrightarrow> unanswered (gq_point st) \<Longrightarrow> unanswered p \<Longrightarrow> p = PxReady \<or> p = PxDispatch \<longrightarrow> \<not> gq_aborted st \<Longrightarrow>
     proxy_inv (st\<lparr>gq_point := p\<rparr>)"
  by (auto simp: proxy_inv_def settle_matches_def unanswered_def)

lemma proxy_turn_aborted: "proxy_inv st \<Longrightarrow> unanswered (gq_point st) \<Longrightarrow> proxy_inv (proxy_aborted st)"
  by (auto simp: proxy_defs)

lemma gateway_proxy_inv:
  assumes "proxy_inv st"
  shows "proxy_inv (gateway_apply ev st)"
proof (cases ev)
  case GReadySeen
  then show ?thesis using assms proxy_failed [OF assms] proxy_point_moves [OF assms, of PxTurn]
    by (cases "gq_ready st") (simp_all add: unanswered_def)
next
  case GTurn
  then show ?thesis using assms proxy_turn_aborted [OF assms] proxy_point_moves [OF assms, of PxDispatch] by (simp add: unanswered_def)
next
  case (GDispatched r)
  then show ?thesis using assms proxy_failed [OF assms] proxy_point_moves [OF assms]
    by (cases r) (auto simp: unanswered_def)
next
  case GAnswered
  then show ?thesis using assms proxy_leased [OF assms] by (cases "gq_point st") simp_all
next
  case (GKilled ok)
  then show ?thesis using assms by (cases "gq_ready st") (simp_all add: proxy_ready)
next
  case (GRecovered r)
  then show ?thesis using assms by (cases "gq_ready st") (simp_all add: proxy_ready)
next
  case (GWaited r)
  then show ?thesis using assms by (cases "gq_ready st") (simp_all add: proxy_ready)
next
  case (GReadmitted r)
  then show ?thesis using assms by (cases "gq_ready st") (simp_all add: proxy_ready)
next
  case (GRetried ok)
  then show ?thesis using assms by (cases "gq_ready st") (simp_all add: proxy_ready)
qed (simp_all add: assms proxy_ready proxy_abort proxy_body)

interpretation proxying: invariant_system gateway_step proxy_inv "\<lambda>ev st. True"
  by unfold_locales (auto simp: gateway_step_def gateway_proxy_inv)

section \<open>The admissions\<close>

definition ready_ended :: "ready_point \<Rightarrow> bool" where
  "ready_ended r \<longleftrightarrow> (case r of ReadyOk \<Rightarrow> True | ReadyFailed f \<Rightarrow> True | _ \<Rightarrow> False)"

text \<open>The points of \<open>ready\<close> at which its current admission may be open.\<close>

definition ready_holds :: "ready_point \<Rightarrow> bool" where
  "ready_holds r \<longleftrightarrow> (case r of ReadyFirst \<Rightarrow> True | ReadyRetry e \<Rightarrow> True | _ \<Rightarrow> ready_ended r)"

definition admissions_inv :: "gateway_request \<Rightarrow> bool" where
  "admissions_inv st \<longleftrightarrow>
     proxy_inv st \<and>
     Suc (gq_current st) = length (gq_admissions st) \<and>
     False \<notin> set (butlast (gq_admissions st)) \<and>
     (gq_settles st \<noteq> [] \<longrightarrow> last (gq_admissions st)) \<and>
     (ready_holds (gq_ready st) \<or> last (gq_admissions st)) \<and>
     (ready_ended (gq_ready st) \<or> gq_point st = PxReady \<or> gq_aborted st)"

lemma settled_last: "Suc n = length xs \<Longrightarrow> butlast (xs[n := True]) = butlast xs \<and> last (xs[n := True]) \<and> length (xs[n := True]) = length xs"
  by (cases xs rule: rev_cases) (auto simp: list_update_append)

text \<open>A step of the proxy: it leaves the admissions, or settles the current one.\<close>

definition proxy_moves :: "gateway_request \<Rightarrow> gateway_request \<Rightarrow> bool" where
  "proxy_moves st s \<longleftrightarrow>
     gq_ready s = gq_ready st \<and> gq_current s = gq_current st \<and>
     (gq_admissions s = gq_admissions st \<and> gq_settles s = gq_settles st \<or>
      gq_admissions s = (gq_admissions st)[gq_current st := True]) \<and>
     (gq_aborted st \<longrightarrow> gq_aborted s) \<and>
     (gq_point s = gq_point st \<or> gq_aborted s \<or> gq_point st \<noteq> PxReady \<or> ready_ended (gq_ready st))"

lemma proxy_moves_refl [simp]: "proxy_moves st st"
  by (simp add: proxy_moves_def)

lemma admissions_move:
  assumes inv: "admissions_inv st" and s: "proxy_inv s" and m: "proxy_moves st s"
  shows "admissions_inv s"
proof -
  have l: "Suc (gq_current st) = length (gq_admissions st)" using inv by (simp add: admissions_inv_def)
  have "gq_admissions s = gq_admissions st \<or> gq_admissions s = (gq_admissions st)[gq_current st := True]"
    using m by (auto simp: proxy_moves_def)
  then have "butlast (gq_admissions s) = butlast (gq_admissions st)" "length (gq_admissions s) = length (gq_admissions st)"
      "last (gq_admissions st) \<longrightarrow> last (gq_admissions s)" by (elim disjE; simp add: settled_last [OF l])+
  moreover have "gq_settles s \<noteq> [] \<longrightarrow> last (gq_admissions s)"
  proof -
    have "gq_settles st \<noteq> [] \<longrightarrow> last (gq_admissions st)" using inv unfolding admissions_inv_def by blast
    moreover have "gq_admissions s = gq_admissions st \<and> gq_settles s = gq_settles st \<or> last (gq_admissions s)"
      using m settled_last [OF l] unfolding proxy_moves_def by metis
    ultimately show ?thesis by metis
  qed
  moreover have "ready_ended (gq_ready s) \<or> gq_point s = PxReady \<or> gq_aborted s"
    using m inv unfolding proxy_moves_def admissions_inv_def by metis
  moreover have "gq_ready s = gq_ready st" "gq_current s = gq_current st" using m by (simp_all add: proxy_moves_def)
  ultimately show ?thesis using inv s unfolding admissions_inv_def by metis
qed

lemma admissions_proxy: "admissions_inv st \<Longrightarrow> proxy_inv st"
  by (simp add: admissions_inv_def)

lemma admissions_step:
  "admissions_inv st \<Longrightarrow> proxy_moves st (gateway_apply ev st) \<Longrightarrow> admissions_inv (gateway_apply ev st)"
  using admissions_move gateway_proxy_inv admissions_proxy by blast

lemma moves_abort: "proxy_moves st (request_aborts st)"
  by (auto simp: proxy_moves_def request_aborts_def proxy_defs split: proxy_point.splits)

lemma moves_body: "proxy_moves st (body_ends out source st)"
  by (auto simp: proxy_moves_def proxy_defs split: proxy_point.splits)

lemma moves_lease:
  "gq_point st = PxDispatched status b \<Longrightarrow> proxy_moves st (withResponseLease status b (st\<lparr>gq_started := True\<rparr>))"
  by (auto simp: proxy_moves_def proxy_defs)

lemma moves_fails: "gq_point st \<noteq> PxReady \<or> ready_ended (gq_ready st) \<Longrightarrow> proxy_moves st (proxy_fails f st)"
  by (auto simp: proxy_moves_def proxy_defs)

lemma moves_aborted: "gq_aborted st \<Longrightarrow> proxy_moves st (proxy_aborted st)"
  by (auto simp: proxy_moves_def proxy_defs)

lemma moves_point: "gq_point st \<noteq> PxReady \<or> ready_ended (gq_ready st) \<Longrightarrow> proxy_moves st (st\<lparr>gq_point := p\<rparr>)"
  by (auto simp: proxy_moves_def)

text \<open>The steps of \<open>ready\<close>.\<close>

lemma admissions_ready_first:
  assumes "admissions_inv st" and "gq_ready st = ReadyFirst"
  shows "admissions_inv (ready_first f st)"
  using assms settled_last [of "gq_current st" "gq_admissions st"] proxy_ready(1) [of f st]
  by (auto simp: admissions_inv_def ready_first_def ready_fails_def settle_current_def ready_holds_def ready_ended_def
    split: option.splits request_failure.splits)

lemma admissions_ready_fails: "admissions_inv st \<Longrightarrow> admissions_inv (ready_fails f st)"
  by (auto simp: admissions_inv_def ready_fails_def proxy_inv_def settle_matches_def ready_holds_def ready_ended_def)

lemma proxy_of_ready: "proxy_inv (st\<lparr>gq_ready := p\<rparr>) = proxy_inv st"
  by (simp add: proxy_inv_def settle_matches_def)

lemma ready_ended_holds: "ready_ended r \<Longrightarrow> ready_holds r"
  by (cases r) (simp_all add: ready_holds_def ready_ended_def)

lemma admissions_ready_next:
  "admissions_inv st \<Longrightarrow> \<not> ready_holds (gq_ready st) \<Longrightarrow> admissions_inv (st\<lparr>gq_ready := p\<rparr>)"
  unfolding admissions_inv_def by (auto simp: proxy_of_ready dest: ready_ended_holds)

lemma admissions_readmitted:
  assumes "admissions_inv st" and "gq_ready st = ReadyAdmit e" and "a = Readmitted \<longrightarrow> \<not> gq_aborted st"
  shows "admissions_inv (ready_readmitted e a st)"
proof (cases a)
  case Readmitted
  have l: "last (gq_admissions st)" "gq_point st = PxReady" "gq_admissions st \<noteq> []" "False \<notin> set (butlast (gq_admissions st))"
    using assms Readmitted by (auto simp: admissions_inv_def ready_holds_def ready_ended_def)
  have "gq_settles st = []" using assms(1) l(2) by (auto simp: admissions_inv_def proxy_inv_def unanswered_def)
  moreover have "False \<notin> set (gq_admissions st)" using l by (cases "gq_admissions st" rule: rev_cases) auto
  moreover have "proxy_inv (ready_readmitted e a st)" using assms(1) by (simp add: proxy_ready admissions_inv_def)
  ultimately show ?thesis using l(2) Readmitted by (simp add: admissions_inv_def ready_readmitted_def ready_holds_def)
qed (use assms(1) in \<open>simp_all add: ready_readmitted_def admissions_ready_fails\<close>)

lemma gateway_admissions_inv:
  assumes "admissions_inv st" and "admits_in_time ev st"
  shows "admissions_inv (gateway_apply ev st)"
proof (cases ev)
  case (GReadyFirst f)
  then show ?thesis using assms(1) by (simp add: admissions_ready_first)
next
  case (GKilled ok)
  then show ?thesis using assms(1)
    by (cases "gq_ready st") (simp_all add: ready_killed_def unless_aborted_def admissions_ready_fails admissions_ready_next ready_holds_def ready_ended_def)
next
  case (GRecovered r)
  then show ?thesis using assms(1)
    by (cases "gq_ready st")
      (simp_all add: ready_answered_def unless_aborted_def admissions_ready_fails admissions_ready_next ready_holds_def ready_ended_def split: option.split bool.split)
next
  case (GWaited r)
  then show ?thesis using assms(1)
    by (cases "gq_ready st")
      (simp_all add: ready_answered_def unless_aborted_def admissions_ready_fails admissions_ready_next ready_holds_def ready_ended_def split: option.split bool.split)
next
  case (GReadmitted r)
  then show ?thesis using assms by (cases "gq_ready st") (simp_all add: admissions_readmitted admits_in_time_def)
next
  case (GRetried ok)
  have "admissions_inv (st\<lparr>gq_ready := ReadyOk\<rparr>)"
    using assms(1) by (auto simp: admissions_inv_def proxy_inv_def settle_matches_def ready_holds_def ready_ended_def)
  then show ?thesis using GRetried assms(1)
    by (cases "gq_ready st") (simp_all add: ready_retried_def admissions_ready_fails)
next
  case GReadySeen
  have "proxy_moves st (gateway_apply ev st)" using GReadySeen
    by (cases "gq_ready st") (simp_all add: moves_point moves_fails ready_ended_def)
  then show ?thesis by (rule admissions_step [OF assms(1)])
next
  case GTurn
  have "proxy_moves st (gateway_apply ev st)" using GTurn by (simp add: moves_point moves_aborted)
  then show ?thesis by (rule admissions_step [OF assms(1)])
next
  case (GDispatched r)
  have "proxy_moves st (gateway_apply ev st)" using GDispatched by (cases r) (auto simp: moves_point moves_fails)
  then show ?thesis by (rule admissions_step [OF assms(1)])
next
  case GAnswered
  have "proxy_moves st (gateway_apply ev st)" using GAnswered by (cases "gq_point st") (simp_all add: moves_lease)
  then show ?thesis by (rule admissions_step [OF assms(1)])
next
  case GAbort
  then show ?thesis using admissions_step [OF assms(1), of ev] by (simp add: moves_abort)
qed (use admissions_step [OF assms(1), of ev] in \<open>simp_all add: moves_body\<close>)

interpretation admitting: invariant_system gateway_step admissions_inv admits_in_time
  by unfold_locales (auto simp: gateway_step_def gateway_admissions_inv)

lemma admitted_request_inv: "admissions_inv admitted_request" "proxy_inv admitted_request"
  by (simp_all add: admissions_inv_def proxy_inv_def settle_matches_def admitted_request_def unanswered_def ready_holds_def)

section \<open>Request bodies\<close>

lemma discard_bound:
  assumes "\<forall>c \<in> set cs. int (length c) \<le> m" and "0 \<le> m" and "d \<le> max 0 b + m"
  shows "discardRemainingBody b d cs \<le> max 0 b + m"
  using assms by (induction b d cs rule: discardRemainingBody.induct) auto

lemma read_chunks_result:
  assumes "\<forall>c \<in> set body. int (length c) \<le> m" and "0 \<le> m" and "n = int (length (concat chunks))" and "n \<le> limit"
  shows "case read_chunks limit chunks n body of
      (Some bs, k) \<Rightarrow> bs = concat chunks @ concat body \<and> int (length bs) \<le> limit
    | (None, k) \<Rightarrow> k \<le> limit + MAX_DISCARDED_REQUEST_BYTES + 2 * m \<and> limit < int (length (concat chunks @ concat body))"
  using assms
proof (induction limit chunks n body rule: read_chunks.induct)
  case (2 limit chunks n c cs)
  have c: "int (length c) \<le> m" "\<forall>c \<in> set cs. int (length c) \<le> m" using 2(2) by simp_all
  show ?case
  proof (cases "n + int (length c) > limit")
    case True
    have "discardRemainingBody MAX_DISCARDED_REQUEST_BYTES 0 cs \<le> MAX_DISCARDED_REQUEST_BYTES + m"
      using discard_bound [OF c(2) 2(3), of 0 MAX_DISCARDED_REQUEST_BYTES] 2(3) by (simp add: MAX_DISCARDED_REQUEST_BYTES_def)
    then show ?thesis using True c(1) 2(4,5) by simp
  next
    case False
    have "n + int (length c) = int (length (concat (chunks @ [c])))" using 2(4) by simp
    from "2.IH" [OF refl False c(2) 2(3) this] False show ?thesis by (simp split: prod.splits option.splits)
  qed
qed simp

section \<open>Memory pressure\<close>

definition last_applied :: "monitor_entry list \<Rightarrow> hysteresis" where
  "last_applied ls = fold (\<lambda>e h. case e of Applied tr \<Rightarrow> tr_current tr | _ \<Rightarrow> h) ls \<lparr>hy_state = Healthy, hy_normal = 0\<rparr>"

definition applied_well :: "monitor_entry list \<Rightarrow> safety_transition \<Rightarrow> bool" where
  "applied_well pre tr \<longleftrightarrow>
     tr_previous tr = last_applied pre \<and> hy_state (tr_current tr) \<noteq> hy_state (tr_previous tr) \<and>
     (hy_state (tr_current tr) \<noteq> Healthy \<longrightarrow> pre \<noteq> [] \<and> last pre = Elevated tr True)"

definition log_well :: "monitor_entry list \<Rightarrow> bool" where
  "log_well ls \<longleftrightarrow> (\<forall>pre tr post. ls = pre @ Applied tr # post \<longrightarrow> applied_well pre tr)"

lemma log_well_snoc:
  "log_well ls \<Longrightarrow> (\<And>tr. e = Applied tr \<Longrightarrow> applied_well ls tr) \<Longrightarrow> log_well (ls @ [e])"
  unfolding log_well_def
proof (intro allI impI)
  fix pre tr post
  assume l: "\<forall>pre tr post. ls = pre @ Applied tr # post \<longrightarrow> applied_well pre tr" "\<And>tr. e = Applied tr \<Longrightarrow> applied_well ls tr"
    and eq: "ls @ [e] = pre @ Applied tr # post"
  show "applied_well pre tr"
  proof (cases post rule: rev_cases)
    case Nil
    then show ?thesis using eq l(2) by simp
  next
    case (snoc post' x)
    then show ?thesis using eq l(1) by (metis append.assoc append_Cons butlast_snoc)
  qed
qed

lemma last_applied_snoc: "last_applied (ls @ [e]) = (case e of Applied tr \<Rightarrow> tr_current tr | _ \<Rightarrow> last_applied ls)"
  by (simp add: last_applied_def split: monitor_entry.split)

definition monitor_inv :: "monitor \<Rightarrow> bool" where
  "monitor_inv st \<longleftrightarrow>
     log_well (mo_log st) \<and> mo_lastApplied st = last_applied (mo_log st) \<and>
     (\<forall>tr. mo_running st = Some (AwaitingElevated tr) \<longrightarrow> tr_previous tr = mo_lastApplied st)"

lemma monitor_entry_inv:
  "monitor_inv st \<Longrightarrow> (\<And>tr. e \<noteq> Applied tr) \<Longrightarrow> monitor_inv (log_entry e st)"
  by (auto simp: monitor_inv_def log_entry_def last_applied_snoc intro: log_well_snoc split: monitor_entry.split)

lemma monitor_running_inv:
  "monitor_inv st \<Longrightarrow> (\<And>tr. r \<noteq> Some (AwaitingElevated tr)) \<Longrightarrow> monitor_inv (st\<lparr>mo_running := r\<rparr>)"
  "monitor_inv st \<Longrightarrow> monitor_inv (st\<lparr>mo_reportedError := b\<rparr>)"
  "monitor_inv st \<Longrightarrow> (\<And>tr. r \<noteq> Some (AwaitingElevated tr)) \<Longrightarrow> monitor_inv (st\<lparr>mo_reportedError := b, mo_running := r\<rparr>)"
  by (simp_all add: monitor_inv_def)

lemma observed_inv: "monitor_inv st \<Longrightarrow> monitor_inv (observed st)"
  by (simp add: observed_def monitor_entry_inv monitor_running_inv)

lemma observe_fails_inv: "monitor_inv st \<Longrightarrow> monitor_inv (observe_fails st)"
  by (simp add: observe_fails_def monitor_running_inv)

lemma apply_transition_inv:
  assumes "monitor_inv st" and "tr_previous tr = mo_lastApplied st"
    and "hy_state (tr_current tr) \<noteq> Healthy \<longrightarrow> mo_log st \<noteq> [] \<and> last (mo_log st) = Elevated tr True"
  shows "monitor_inv (apply_transition tr st)"
proof (cases "state_changed st tr")
  case True
  have "applied_well (mo_log st) tr" using assms True by (auto simp: applied_well_def monitor_inv_def state_changed_def)
  then have "log_well (mo_log st @ [Applied tr])" using assms(1) by (intro log_well_snoc) (auto simp: monitor_inv_def)
  then show ?thesis using True assms(1) by (simp add: apply_transition_def monitor_inv_def log_entry_def last_applied_snoc)
qed (use assms(1) in \<open>simp add: apply_transition_def observed_inv\<close>)

lemma polled_inv:
  assumes "monitor_inv st"
  shows "monitor_inv (polled answer st)"
proof (cases answer)
  case (Some t)
  let ?tr = "\<lparr>tr_previous = mo_lastApplied st, tr_current = tr_current t, tr_action = tr_action t\<rparr>"
  show ?thesis
  proof (cases "hy_state (tr_current ?tr) = ConstrainedState \<or> (hy_state (tr_current ?tr) = CriticalState \<and> state_changed st ?tr)")
    case True
    then show ?thesis using assms Some by (auto simp: polled_def monitor_inv_def)
  next
    case False
    have "monitor_inv (apply_transition ?tr st)"
    proof (cases "state_changed st ?tr")
      case True
      then have "hy_state (tr_current ?tr) = Healthy" using False by (cases "hy_state (tr_current ?tr)") auto
      then show ?thesis by (intro apply_transition_inv [OF assms]) simp_all
    qed (use assms in \<open>simp add: apply_transition_def observed_inv\<close>)
    then show ?thesis using False Some by (auto simp: polled_def Let_def)
  qed
qed (use assms in \<open>simp add: polled_def observe_fails_inv\<close>)

lemma elevated_inv:
  assumes "monitor_inv st" and "mo_running st = Some (AwaitingElevated tr)"
  shows "monitor_inv (apply_transition tr (log_entry (Elevated tr True) st))"
proof (rule apply_transition_inv)
  show "monitor_inv (log_entry (Elevated tr True) st)" using assms(1) by (simp add: monitor_entry_inv)
qed (use assms in \<open>simp_all add: log_entry_def monitor_inv_def\<close>)

lemma monitor_step_inv:
  assumes "monitor_inv st"
  shows "monitor_inv (monitor_apply ev st)"
proof (cases ev)
  case MonPoll
  then show ?thesis using assms by (cases "mo_running st") (simp_all add: monitor_apply_def monitor_running_inv)
next
  case (MonPolled a)
  then show ?thesis using assms by (auto simp: monitor_apply_def polled_inv split: option.split observe_point.split)
next
  case (MonSettled ok)
  then show ?thesis using assms
    by (auto simp: monitor_apply_def elevated_inv observe_fails_inv observed_inv monitor_entry_inv monitor_running_inv Let_def
      split: option.split observe_point.split)
qed

interpretation monitoring: invariant_system monitor_step monitor_inv "\<lambda>ev st. True"
  by unfold_locales (auto simp: monitor_step_def monitor_step_inv)

lemma new_monitor_inv: "monitor_inv new_monitor"
  by (simp add: monitor_inv_def new_monitor_def log_well_def last_applied_def)

section \<open>Properties\<close>

text \<open>
  C17: the gateway settles the admission of a request once.  However an abort, the dispatch, the end of the
  response and the client's cancellation interleave, the admission is released or cancelled at most once
  and once when the response has ended, each time with one report; it is cancelled exactly when the report
  is of a cancelled request or a broken response stream.
\<close>

theorem request_settled_once:
  assumes "gateway_run es admitted_request = Some st"
  shows "length (gq_settles st) \<le> 1 \<and> length (gq_terminals st) = length (gq_settles st) \<and>
    (gq_point st = PxDone \<longrightarrow> length (gq_settles st) = 1) \<and>
    (\<forall>t. gq_terminals st = [t] \<longrightarrow>
       gq_settles st = [\<not> (tm_outcome t = OutCancelled \<or> tm_source t = Some ResponseStreamError)])"
proof -
  have i: "proxy_inv st" by (rule proxying.run_inv [OF admitted_request_inv(2) run_allowsI assms]) simp
  then have "settle_matches st" by (simp add: proxy_inv_def)
  moreover have "length (gq_settles st) \<le> 1 \<and> (gq_point st = PxDone \<longrightarrow> length (gq_settles st) = 1)"
    using i by (cases "gq_point st") (simp_all add: proxy_inv_def unanswered_def)
  ultimately show ?thesis by (simp add: settle_matches_def)
qed

lemma demo_request:
  "map_option (\<lambda>st. (gq_point st, gq_settles st, gq_admissions st))
     (gateway_run [GReadyFirst (Some (MemoryAdmission SnapshotFailed)), GKilled True, GRecovered (Some True), GWaited (Some True),
        GReadmitted Readmitted, GRetried True, GReadySeen, GTurn, GDispatched (Inr (200, True)), GAnswered, GAbort, GBodyEnds]
      admitted_request) = Some (PxDone, [False], [True, True])"
  by code_simp

theorem request_settled_once_witness:
  "\<exists>st. gateway_run [GReadyFirst (Some (MemoryAdmission SnapshotFailed)), GKilled True, GRecovered (Some True), GWaited (Some True),
        GReadmitted Readmitted, GRetried True, GReadySeen, GTurn, GDispatched (Inr (200, True)), GAnswered, GAbort, GBodyEnds]
      admitted_request = Some st \<and> length (gq_terminals st) = 1"
proof -
  obtain st where st: "gateway_run [GReadyFirst (Some (MemoryAdmission SnapshotFailed)), GKilled True, GRecovered (Some True),
        GWaited (Some True), GReadmitted Readmitted, GRetried True, GReadySeen, GTurn, GDispatched (Inr (200, True)), GAnswered,
        GAbort, GBodyEnds] admitted_request = Some st" "gq_settles st = [False]"
    using demo_request by auto
  with request_settled_once [OF st(1)] show ?thesis by auto
qed

text \<open>
  C16: no admission leaks.  A start that fails for memory is retried with another admission after other
  runtimes were evicted; when the request has ended, every admission it was ever given has been given back,
  whenever the client aborted.
\<close>

theorem no_admission_leaks:
  assumes "gateway_run es admitted_request = Some st" and "run_allows admits_in_time gateway_step es admitted_request"
    and "gq_point st = PxDone"
  shows "False \<notin> set (gq_admissions st)"
proof -
  have i: "admissions_inv st" by (rule admitting.run_inv [OF admitted_request_inv(1) assms(2,1)])
  then have "gq_settles st \<noteq> []" using assms(3) by (auto simp: admissions_inv_def proxy_inv_def)
  then have "last (gq_admissions st)" "False \<notin> set (butlast (gq_admissions st))" using i unfolding admissions_inv_def by blast+
  then show ?thesis by (cases "gq_admissions st" rule: rev_cases) auto
qed

theorem no_admission_leaks_witness:
  "\<exists>st. gateway_run [GReadyFirst (Some (MemoryAdmission SnapshotFailed)), GKilled True, GRecovered (Some True), GWaited (Some True),
        GReadmitted Readmitted, GRetried True, GReadySeen, GTurn, GDispatched (Inr (200, True)), GAnswered, GAbort, GBodyEnds]
      admitted_request = Some st \<and> False \<notin> set (gq_admissions st)"
proof -
  obtain st where st: "gateway_run [GReadyFirst (Some (MemoryAdmission SnapshotFailed)), GKilled True, GRecovered (Some True),
        GWaited (Some True), GReadmitted Readmitted, GRetried True, GReadySeen, GTurn, GDispatched (Inr (200, True)), GAnswered,
        GAbort, GBodyEnds] admitted_request = Some st" "gq_point st = PxDone"
    using demo_request by auto
  moreover have "run_allows admits_in_time gateway_step [GReadyFirst (Some (MemoryAdmission SnapshotFailed)), GKilled True,
      GRecovered (Some True), GWaited (Some True), GReadmitted Readmitted, GRetried True, GReadySeen, GTurn,
      GDispatched (Inr (200, True)), GAnswered, GAbort, GBodyEnds] admitted_request"
    by code_simp
  ultimately show ?thesis using no_admission_leaks by blast
qed

text \<open>
  C29: request bodies are read within bounds.  A body that is accepted is all of it and within the limit;
  one that is refused is over it, and of it at most the limit, the discard budget and two chunks are read.
\<close>

theorem body_reading_bounded:
  assumes "\<forall>c \<in> set body. int (length c) \<le> m" and "0 \<le> m" and "0 \<le> limit"
  shows "case readBoundedRequestBody header limit body of
      (Some bs, n) \<Rightarrow> bs = concat body \<and> int (length bs) \<le> limit
    | (None, n) \<Rightarrow> n \<le> limit + MAX_DISCARDED_REQUEST_BYTES + 2 * m \<and>
        (requestExceedsSizeLimit header limit \<or> limit < int (length (concat body)))"
proof (cases "requestExceedsSizeLimit header limit")
  case True
  have "discardDeclaredOversizedBody header limit body \<le> limit + MAX_DISCARDED_REQUEST_BYTES + 2 * m"
  proof -
    have "discardRemainingBody d 0 body \<le> max 0 d + m" for d using discard_bound [OF assms(1,2), of 0 d] assms(2) by simp
    then have "discardRemainingBody d 0 body \<le> limit + MAX_DISCARDED_REQUEST_BYTES + 2 * m"
      if "d \<le> limit + MAX_DISCARDED_REQUEST_BYTES" for d
      using that assms(2,3) by (smt (verit) MAX_DISCARDED_REQUEST_BYTES_def)
    then show ?thesis using assms(2,3)
      by (simp add: discardDeclaredOversizedBody_def MAX_DISCARDED_REQUEST_BYTES_def split: option.split)
  qed
  then show ?thesis using True by (simp add: readBoundedRequestBody_def)
next
  case False
  then show ?thesis using read_chunks_result [OF assms(1,2), of 0 "[]" limit] assms(3)
    by (auto simp: readBoundedRequestBody_def split: prod.splits option.splits)
qed

theorem body_reading_bounded_witness:
  "fst (readBoundedRequestBody (Some (Some 2)) 4 [[1, 2], [3]]) = Some [1, 2, 3] \<and>
   snd (readBoundedRequestBody None 2 [[1, 2], [3]]) \<le> 2 + MAX_DISCARDED_REQUEST_BYTES + 2 * 2"
  using body_reading_bounded [of "[[1, 2], [3]]" 2 2 None] by (simp add: readBoundedRequestBody_def requestExceedsSizeLimit_def)

text \<open>
  C20: memory pressure is handled before it is reported.  Every change of state the monitor applies follows on
  from the last one; when the new state is constrained or critical, the handler of elevated pressure has
  just succeeded for it, so a handler that fails is called again.
\<close>

theorem pressure_handled_before_reported:
  assumes "monitor_run es new_monitor = Some st" and "mo_log st = pre @ Applied tr # post"
  shows "tr_previous tr = last_applied pre \<and> hy_state (tr_current tr) \<noteq> hy_state (tr_previous tr) \<and>
    (hy_state (tr_current tr) \<noteq> Healthy \<longrightarrow> pre \<noteq> [] \<and> last pre = Elevated tr True)"
proof -
  have "monitor_inv st" by (rule monitoring.run_inv [OF new_monitor_inv run_allowsI assms(1)]) simp
  then have "applied_well pre tr" using assms(2) by (simp add: monitor_inv_def log_well_def)
  then show ?thesis unfolding applied_well_def .
qed

definition demo_critical :: safety_transition where
  "demo_critical =
     \<lparr>tr_previous = \<lparr>hy_state = Healthy, hy_normal = 0\<rparr>, tr_current = \<lparr>hy_state = CriticalState, hy_normal = 0\<rparr>, tr_action = EmergencyStop\<rparr>"

lemma demo_monitor:
  "map_option mo_log (monitor_run [MonPoll, MonPolled (Some demo_critical), MonSettled False, MonSettled True, MonPoll,
     MonPolled (Some demo_critical), MonSettled True, MonSettled True] new_monitor) =
   Some ([Elevated demo_critical False, ErrorReported, Elevated demo_critical True] @ Applied demo_critical # [Notified demo_critical True, Observed])"
  by code_simp

theorem pressure_handled_before_reported_witness:
  "\<exists>st. monitor_run [MonPoll, MonPolled (Some demo_critical), MonSettled False, MonSettled True, MonPoll,
     MonPolled (Some demo_critical), MonSettled True, MonSettled True] new_monitor = Some st \<and>
     tr_previous demo_critical = last_applied [Elevated demo_critical False, ErrorReported, Elevated demo_critical True]"
proof -
  obtain st where st: "monitor_run [MonPoll, MonPolled (Some demo_critical), MonSettled False, MonSettled True, MonPoll,
     MonPolled (Some demo_critical), MonSettled True, MonSettled True] new_monitor = Some st"
    "mo_log st = [Elevated demo_critical False, ErrorReported, Elevated demo_critical True] @ Applied demo_critical #
       [Notified demo_critical True, Observed]"
    using demo_monitor by (auto simp del: append_Cons append_Nil)
  from pressure_handled_before_reported [OF st] st(1) show ?thesis by blast
qed

end
