(* ===== verification/Event_Streams.thy ===== *)
theory Event_Streams
  imports Prelude
begin

text \<open>
  The event streams of chat completions on their way to the client: \<open>validateEventStream\<close> and
  \<open>recoverEventStreamReadErrors\<close> of \<^verbatim>\<open>src/src/domains/runtime/commands/serve.ts\<close>, as transducers
  of chunks, and what a client gets.  A chunk is the text its bytes decode to.  \<open>JSON.parse\<close> with the
  schema, and \<open>JSON.stringify\<close> of a value with its model replaced, are arguments.
\<close>

section \<open>Lines and event boundaries\<close>

abbreviation CR :: char where "CR \<equiv> CHR 0x0D"
abbreviation LF :: char where "LF \<equiv> CHR 0x0A"

text \<open>
  The alternatives of \<open>(?:\r\n|\r|\n)\<close> at the start of a text, as lengths in the order in which they are
  tried; the boundary \<open>(?:\r\n|\r|\n)(?:\r\n|\r|\n)\<close> takes the first pair that matches.
\<close>

definition newline_alts :: "string \<Rightarrow> nat list" where
  "newline_alts s = (if take 2 s = [CR, LF] then [2] else []) @ (if take 1 s = [CR] then [1] else []) @
     (if take 1 s = [LF] then [1] else [])"

definition boundary_at :: "string \<Rightarrow> nat list" where
  "boundary_at s = concat (map (\<lambda>a. map (\<lambda>b. a + b) (newline_alts (drop a s))) (newline_alts s))"

text \<open>\<open>boundary.exec\<close>: index and length of the first match.\<close>

fun boundary_exec :: "string \<Rightarrow> (nat \<times> nat) option" where
  "boundary_exec [] = None"
| "boundary_exec (c # s) =
     (case boundary_at (c # s) of
        n # ns \<Rightarrow> Some (0, n)
      | [] \<Rightarrow> map_option (\<lambda>(i, n). (Suc i, n)) (boundary_exec s))"

text \<open>\<open>split(/\r\n|\r|\n/)\<close>.\<close>

fun split_lines :: "string \<Rightarrow> string list" where
  "split_lines [] = [[]]"
| "split_lines (c # s) =
     (if c = LF then [] # split_lines s
      else if c = CR then (case s of d # s' \<Rightarrow> [] # (if d = LF then split_lines s' else split_lines s) | [] \<Rightarrow> [[], []])
      else (case split_lines s of l # ls \<Rightarrow> (c # l) # ls | [] \<Rightarrow> [[c]]))"

definition is_data :: "string \<Rightarrow> bool" where
  "is_data line \<longleftrightarrow> take 5 line = ''data:''"

fun join_with :: "string \<Rightarrow> string list \<Rightarrow> string" where
  "join_with sep [] = []"
| "join_with sep [l] = l"
| "join_with sep (l # ls) = l @ sep @ join_with sep ls"

definition data_value :: "string \<Rightarrow> string" where
  "data_value line = (let v = drop 5 line in if take 1 v = '' '' then drop 1 v else v)"

definition eventData :: "string \<Rightarrow> string option" where
  "eventData event =
     (let vs = map data_value (filter is_data (split_lines event)) in if vs = [] then None else Some (join_with [LF] vs))"

fun text_includes :: "string \<Rightarrow> string \<Rightarrow> bool" where
  "text_includes pat [] = (pat = [])"
| "text_includes pat (c # s) = (take (length pat) (c # s) = pat \<or> text_includes pat s)"

text \<open>The first data line becomes the given one, the others go.\<close>

fun replace_data :: "string \<Rightarrow> string list \<Rightarrow> string list" where
  "replace_data new [] = []"
| "replace_data new (l # ls) = (if is_data l then new # filter (\<lambda>l. \<not> is_data l) ls else l # replace_data new ls)"

definition withCanonicalModel :: "string \<Rightarrow> string \<Rightarrow> string" where
  "withCanonicalModel event json =
     (let newline = (if text_includes [CR, LF] event then [CR, LF] else if text_includes [CR] event then [CR] else [LF])
      in join_with newline (replace_data (''data: '' @ json) (split_lines event)))"

section \<open>Validation\<close>

text \<open>
  A parsed value is an error (\<open>se_choices\<close> is \<open>None\<close>) or a chunk: for each choice its index, and whether
  its \<open>finish_reason\<close> is set.
\<close>

record 'v stream_env =
  se_parse :: "string \<Rightarrow> 'v option"
  se_choices :: "'v \<Rightarrow> (int \<times> bool) list option"
  se_canonical :: "('v \<Rightarrow> string) option"

record 'v validator =
  vs_buffered :: string
  vs_doneEvent :: "string option"
  vs_failed :: bool
  vs_finished :: "(int, bool) js_map"
  vs_terminated :: bool
  vs_out :: "string list"
  vs_invalid :: nat
  vs_validated :: "'v list"

definition new_validator :: "'v validator" where
  "new_validator =
     \<lparr>vs_buffered = [], vs_doneEvent = None, vs_failed = False, vs_finished = [], vs_terminated = False,
      vs_out = [], vs_invalid = 0, vs_validated = []\<rparr>"

definition quoted :: "string \<Rightarrow> string" where
  "quoted s = CHR 0x22 # s @ [CHR 0x22]"

definition error_event :: "string \<Rightarrow> string" where
  "error_event message =
     ''data: {'' @ quoted ''error'' @ '':{'' @ quoted ''message'' @ '':'' @ quoted message @ '','' @
     quoted ''type'' @ '':'' @ quoted ''server_error'' @ '','' @ quoted ''param'' @ '':null,'' @
     quoted ''code'' @ '':'' @ quoted ''upstream_error'' @ ''}}'' @ [LF, LF]"

definition validationFailure :: string where
  "validationFailure = error_event ''The upstream service returned an invalid event stream.''"

definition enqueue :: "string \<Rightarrow> 'v validator \<Rightarrow> 'v validator" where
  "enqueue t st = st\<lparr>vs_out := vs_out st @ [t]\<rparr>"

definition fail_stream :: "bool \<Rightarrow> 'v validator \<Rightarrow> bool \<times> 'v validator" where
  "fail_stream terminate st =
     (let st1 = (if vs_failed st then st else enqueue validationFailure (st\<lparr>vs_invalid := vs_invalid st + 1\<rparr>))
      in (False, st1\<lparr>vs_failed := True, vs_terminated := vs_terminated st1 \<or> terminate\<rparr>))"

text \<open>The choices of a chunk; a chunk for a choice that has finished is an error.\<close>

fun take_choices :: "(int \<times> bool) list \<Rightarrow> (int, bool) js_map \<Rightarrow> bool \<times> (int, bool) js_map" where
  "take_choices [] m = (True, m)"
| "take_choices ((i, f) # cs) m = (if js_get m i = Some True then (False, m) else take_choices cs (js_set i f m))"

definition flush_value :: "'v stream_env \<Rightarrow> bool \<Rightarrow> string \<Rightarrow> 'v \<Rightarrow> 'v validator \<Rightarrow> bool \<times> 'v validator" where
  "flush_value env terminate event v st =
     (let st1 = st\<lparr>vs_validated := vs_validated st @ [v]\<rparr> in
      case se_choices env v of
        None \<Rightarrow> (False, (enqueue event st1)\<lparr>vs_terminated := True\<rparr>)
      | Some cs \<Rightarrow>
          let (ok, m) = take_choices cs (vs_finished st1); st2 = st1\<lparr>vs_finished := m\<rparr> in
          if \<not> ok then fail_stream terminate st2
          else (True, enqueue (case se_canonical env of Some json \<Rightarrow> withCanonicalModel event (json v) | None \<Rightarrow> event) st2))"

definition flushEvent :: "'v stream_env \<Rightarrow> string \<Rightarrow> bool \<Rightarrow> bool \<Rightarrow> 'v validator \<Rightarrow> bool \<times> 'v validator" where
  "flushEvent env event terminateOnFailure framed st =
     (if \<forall>line \<in> set (split_lines event). line = [] then
        (True, if vs_doneEvent st = None then enqueue event st else st)
      else if vs_doneEvent st \<noteq> None then fail_stream terminateOnFailure st
      else
        case eventData event of
          None \<Rightarrow> (True, enqueue event st)
        | Some d \<Rightarrow>
            if d = ''[DONE]'' then
              if \<not> framed \<or> vs_finished st = [] \<or> list_ex (\<lambda>(i, f). \<not> f) (vs_finished st)
              then fail_stream terminateOnFailure st
              else (True, st\<lparr>vs_doneEvent := Some event\<rparr>)
            else
              case se_parse env d of
                None \<Rightarrow> fail_stream terminateOnFailure st
              | Some v \<Rightarrow> flush_value env terminateOnFailure event v st)"

lemma newline_alts_pos: "a \<in> set (newline_alts s) \<Longrightarrow> 0 < a \<and> a \<le> length s"
  by (cases s rule: remdups_adj.cases) (auto simp: newline_alts_def split: if_splits)

lemma boundary_at_pos: "n \<in> set (boundary_at s) \<Longrightarrow> 0 < n \<and> n \<le> length s"
  by (fastforce simp: boundary_at_def dest: newline_alts_pos)

lemma boundary_exec_pos: "boundary_exec s = Some (i, n) \<Longrightarrow> 0 < n \<and> i + n \<le> length s"
proof (induction s arbitrary: i)
  case (Cons c s)
  show ?case
  proof (cases "boundary_at (c # s)")
    case Nil
    with Cons show ?thesis by (auto split: prod.splits)
  next
    case (Cons m ms)
    then have "m \<in> set (boundary_at (c # s))" by simp
    from boundary_at_pos [OF this] show ?thesis using Cons Cons.prems by simp
  qed
qed simp

text \<open>The loop of \<open>transform\<close>: every complete event, while they are valid.\<close>

function drain_events :: "'v stream_env \<Rightarrow> 'v validator \<Rightarrow> 'v validator" where
  "drain_events env st =
     (case boundary_exec (vs_buffered st) of
        None \<Rightarrow> st
      | Some (i, n) \<Rightarrow>
          let r = flushEvent env (take (i + n) (vs_buffered st)) True True st in
          if fst r then drain_events env ((snd r)\<lparr>vs_buffered := drop (i + n) (vs_buffered st)\<rparr>) else snd r)"
  by auto
termination
  by (relation "measure (\<lambda>(env, st). length (vs_buffered st))") (auto dest: boundary_exec_pos)

text \<open>\<open>transform\<close> and \<open>flush\<close>; neither is called after \<open>controller.terminate()\<close>.\<close>

definition stream_transform :: "'v stream_env \<Rightarrow> string \<Rightarrow> 'v validator \<Rightarrow> 'v validator" where
  "stream_transform env chunk st =
     (if vs_terminated st then st else drain_events env (st\<lparr>vs_buffered := vs_buffered st @ chunk\<rparr>))"

definition stream_flush :: "'v validator \<Rightarrow> 'v validator" where
  "stream_flush st =
     (if vs_terminated st then st
      else
        let hasUnframedEvent = vs_buffered st \<noteq> []; st1 = st\<lparr>vs_buffered := []\<rparr> in
        if vs_failed st1 then st1
        else
          case vs_doneEvent st1 of
            Some e \<Rightarrow> if hasUnframedEvent then snd (fail_stream False st1) else enqueue e st1
          | None \<Rightarrow> snd (fail_stream False st1))"

definition validateEventStream :: "'v stream_env \<Rightarrow> string list \<Rightarrow> 'v validator" where
  "validateEventStream env chunks = stream_flush (fold (stream_transform env) chunks new_validator)"

section \<open>Reading from upstream\<close>

text \<open>\<open>matchAll\<close>: the end of the last boundary.\<close>

function last_boundary :: "string \<Rightarrow> nat option" where
  "last_boundary s =
     (case boundary_exec s of
        None \<Rightarrow> None
      | Some (i, n) \<Rightarrow> (case last_boundary (drop (i + n) s) of None \<Rightarrow> Some (i + n) | Some e \<Rightarrow> Some (i + n + e)))"
  by auto
termination
  by (relation "measure length") (auto dest: boundary_exec_pos)

datatype stream_read = ReadChunk string | ReadEnd | ReadFails

record recoverer =
  rs_buffered :: string
  rs_out :: "string list"
  rs_errors :: nat
  rs_closed :: bool

definition new_recoverer :: recoverer where
  "new_recoverer = \<lparr>rs_buffered = [], rs_out = [], rs_errors = 0, rs_closed = False\<rparr>"

definition recover_error :: "string \<Rightarrow> recoverer \<Rightarrow> recoverer" where
  "recover_error message st =
     st\<lparr>rs_buffered := [], rs_errors := rs_errors st + 1, rs_out := rs_out st @ [error_event message], rs_closed := True\<rparr>"

definition recover_read :: "stream_read \<Rightarrow> recoverer \<Rightarrow> recoverer" where
  "recover_read r st =
     (if rs_closed st then st
      else case r of
        ReadEnd \<Rightarrow>
          if rs_buffered st \<noteq> [] then recover_error ''The upstream stream ended mid-event.'' st
          else st\<lparr>rs_closed := True\<rparr>
      | ReadFails \<Rightarrow> recover_error ''The upstream stream failed.'' st
      | ReadChunk c \<Rightarrow>
          let b = rs_buffered st @ c in
          case last_boundary b of
            None \<Rightarrow> st\<lparr>rs_buffered := b\<rparr>
          | Some e \<Rightarrow> st\<lparr>rs_buffered := drop e b, rs_out := rs_out st @ [take e b]\<rparr>)"

definition recoverEventStreamReadErrors :: "stream_read list \<Rightarrow> recoverer" where
  "recoverEventStreamReadErrors reads = fold recover_read reads new_recoverer"

text \<open>The stream \<open>proxyRequest\<close> gives the client.\<close>

definition proxied_stream :: "'v stream_env \<Rightarrow> stream_read list \<Rightarrow> 'v validator" where
  "proxied_stream env reads = validateEventStream env (rs_out (recoverEventStreamReadErrors reads))"

end
