(* ===== verification/Stream_Properties.thy ===== *)
theory Stream_Properties
  imports Event_Streams
begin

text \<open>
  What a client of a streamed chat completion gets: with line feeds only, the same events however the
  network cuts the stream; always an end it can recognise; every choice finished when that end is \<open>[DONE]\<close>;
  and how carriage returns break events.
\<close>

section \<open>Chunks\<close>

lemma newline_alts_noCR:
  "CR \<notin> set (take 1 s) \<Longrightarrow> newline_alts s = (if take 1 s = [LF] then [1] else [])"
  by (cases s; cases "tl s") (auto simp: newline_alts_def)

lemma boundary_at_noCR:
  "CR \<notin> set (take 2 s) \<Longrightarrow> boundary_at s = (if take 2 s = [LF, LF] then [2] else [])"
proof (cases s)
  case (Cons c t)
  assume "CR \<notin> set (take 2 s)"
  then show ?thesis using Cons by (cases t) (auto simp: boundary_at_def newline_alts_noCR)
qed (simp add: boundary_at_def newline_alts_def)

lemma boundary_exec_extend:
  "CR \<notin> set b \<Longrightarrow> boundary_exec b = Some (i, n) \<Longrightarrow> boundary_exec (b @ c) = Some (i, n)"
proof (induction b arbitrary: i)
  case (Cons x b)
  have x: "CR \<notin> set (take 2 (x # b))" using Cons.prems(1) set_take_subset by fastforce
  show ?case
  proof (cases b)
    case Nil
    then show ?thesis using Cons.prems x by (simp add: boundary_at_noCR)
  next
    case (Cons y t)
    have two: "take 2 ((x # b) @ c) = take 2 (x # b)" using Cons by simp
    have eq: "boundary_at ((x # b) @ c) = boundary_at (x # b)"
      using boundary_at_noCR [of "(x # b) @ c"] boundary_at_noCR [OF x] x unfolding two by simp
    show ?thesis
    proof (cases "boundary_at (x # b)")
      case Nil
      then obtain j where "boundary_exec b = Some (j, n)" "i = Suc j" using Cons.prems(2) by auto
      moreover have "boundary_exec (b @ c) = Some (j, n)" using Cons.IH Cons.prems(1) calculation(1) by simp
      ultimately show ?thesis using eq Nil by simp
    next
      case (Cons m ms)
      then show ?thesis using eq Cons.prems(2) by simp
    qed
  qed
qed simp

declare drain_events.simps [simp del] last_boundary.simps [simp del]

text \<open>The events do not depend on what is buffered after them.\<close>

lemma fail_stream_buffered:
  "fail_stream t (st\<lparr>vs_buffered := b\<rparr>) = (fst (fail_stream t st), (snd (fail_stream t st))\<lparr>vs_buffered := b\<rparr>)"
  by (simp add: fail_stream_def enqueue_def Let_def)

lemma flush_value_buffered:
  "flush_value env t ev v (st\<lparr>vs_buffered := b\<rparr>) =
     (fst (flush_value env t ev v st), (snd (flush_value env t ev v st))\<lparr>vs_buffered := b\<rparr>)"
  by (auto simp: flush_value_def fail_stream_def enqueue_def Let_def split: option.splits prod.splits)

lemma flushEvent_buffered:
  "flushEvent env ev t fr (st\<lparr>vs_buffered := b\<rparr>) =
     (fst (flushEvent env ev t fr st), (snd (flushEvent env ev t fr st))\<lparr>vs_buffered := b\<rparr>)"
  by (auto simp: flushEvent_def fail_stream_buffered flush_value_buffered enqueue_def split: option.splits)

lemma flushEvent_terminates:
  assumes "\<not> fst (flushEvent env ev True fr st)"
  shows "vs_terminated (snd (flushEvent env ev True fr st))"
  using assms
  by (auto simp: flushEvent_def flush_value_def fail_stream_def Let_def split: option.splits prod.splits if_splits)

lemma flushEvent_goes_on:
  assumes "fst (flushEvent env ev True fr st)"
  shows "vs_terminated (snd (flushEvent env ev True fr st)) = vs_terminated st"
  using assms
  by (auto simp: flushEvent_def flush_value_def fail_stream_def enqueue_def Let_def split: option.splits prod.splits if_splits)

text \<open>What can be seen of a validator.\<close>

definition same_stream :: "'v validator \<Rightarrow> 'v validator \<Rightarrow> bool" where
  "same_stream s t \<longleftrightarrow> s\<lparr>vs_buffered := []\<rparr> = t\<lparr>vs_buffered := []\<rparr> \<and> (vs_terminated s \<or> vs_buffered s = vs_buffered t)"

lemma same_stream_refl [simp, intro]: "same_stream s s"
  by (simp add: same_stream_def)

lemma same_stream_trans: "same_stream s t \<Longrightarrow> same_stream t u \<Longrightarrow> same_stream s u"
  unfolding same_stream_def by (metis validator.select_convs(5) validator.surjective validator.update_convs(1))

lemma drain_events_extend:
  assumes "CR \<notin> set (vs_buffered st)" and "\<not> vs_terminated st"
  shows "same_stream (stream_transform env c (drain_events env st)) (drain_events env (st\<lparr>vs_buffered := vs_buffered st @ c\<rparr>))"
  using assms
proof (induction env st rule: drain_events.induct)
  case (1 env st)
  let ?b = "vs_buffered st"
  show ?case
  proof (cases "boundary_exec ?b")
    case None
    then have "drain_events env st = st" by (simp add: drain_events.simps)
    then show ?thesis using 1(3) by (simp add: stream_transform_def)
  next
    case (Some r)
    obtain i n where r: "r = (i, n)" by (cases r)
    have in_b: "i + n \<le> length ?b" using boundary_exec_pos Some r by blast
    have ext: "boundary_exec (?b @ c) = Some (i, n)" using boundary_exec_extend 1(2) Some r by blast
    let ?ev = "take (i + n) ?b" and ?f = "flushEvent env (take (i + n) ?b) True True st"
    have fe: "flushEvent env (take (i + n) (?b @ c)) True True (st\<lparr>vs_buffered := ?b @ c\<rparr>) = (fst ?f, (snd ?f)\<lparr>vs_buffered := ?b @ c\<rparr>)"
      using in_b by (simp add: flushEvent_buffered)
    show ?thesis
    proof (cases "fst ?f")
      case True
      let ?s = "(snd ?f)\<lparr>vs_buffered := drop (i + n) ?b\<rparr>"
      have a: "drain_events env st = drain_events env ?s" using Some r True by (simp add: drain_events.simps [of env st])
      have b: "drain_events env (st\<lparr>vs_buffered := ?b @ c\<rparr>) = drain_events env (?s\<lparr>vs_buffered := vs_buffered ?s @ c\<rparr>)"
        using ext fe True in_b by (simp add: drain_events.simps [of env "st\<lparr>vs_buffered := ?b @ c\<rparr>"])
      have "CR \<notin> set (vs_buffered ?s)" using 1(2) set_drop_subset by fastforce
      moreover have "\<not> vs_terminated ?s" using flushEvent_goes_on [OF True] 1(3) by simp
      ultimately show ?thesis unfolding a b using "1.IH" [OF Some r [symmetric] refl True] by blast
    next
      case False
      then have "vs_terminated (snd ?f)" by (rule flushEvent_terminates)
      moreover have "drain_events env st = snd ?f" using Some r False by (simp add: drain_events.simps [of env st])
      moreover have "drain_events env (st\<lparr>vs_buffered := ?b @ c\<rparr>) = (snd ?f)\<lparr>vs_buffered := ?b @ c\<rparr>"
        using ext fe False by (simp add: drain_events.simps [of env "st\<lparr>vs_buffered := ?b @ c\<rparr>"])
      ultimately show ?thesis by (simp add: stream_transform_def same_stream_def)
    qed
  qed
qed

lemma drain_events_ends:
  "vs_terminated (drain_events env st) \<or> boundary_exec (vs_buffered (drain_events env st)) = None"
proof (induction env st rule: drain_events.induct)
  case (1 env st)
  show ?case
  proof (cases "boundary_exec (vs_buffered st)")
    case None
    then show ?thesis by (simp add: drain_events.simps)
  next
    case (Some r)
    obtain i n where r: "r = (i, n)" by (cases r)
    let ?f = "flushEvent env (take (i + n) (vs_buffered st)) True True st"
    show ?thesis
    proof (cases "fst ?f")
      case True
      then show ?thesis using "1.IH" [OF Some r [symmetric] refl True] Some r by (simp add: drain_events.simps [of env st])
    next
      case False
      then show ?thesis using flushEvent_terminates [OF False] Some r by (simp add: drain_events.simps [of env st])
    qed
  qed
qed

lemma flushEvent_keeps_buffered: "vs_buffered (snd (flushEvent env ev t fr st)) = vs_buffered st"
  by (auto simp: flushEvent_def flush_value_def fail_stream_def enqueue_def Let_def split: option.splits prod.splits)

lemma drain_events_set: "set (vs_buffered (drain_events env st)) \<subseteq> set (vs_buffered st)"
proof (induction env st rule: drain_events.induct)
  case (1 env st)
  show ?case
  proof (cases "boundary_exec (vs_buffered st)")
    case None
    then show ?thesis by (simp add: drain_events.simps)
  next
    case (Some r)
    obtain i n where r: "r = (i, n)" by (cases r)
    let ?f = "flushEvent env (take (i + n) (vs_buffered st)) True True st"
    show ?thesis
    proof (cases "fst ?f")
      case True
      then have "set (vs_buffered (drain_events env st)) \<subseteq> set (drop (i + n) (vs_buffered st))"
        using "1.IH" [OF Some r [symmetric] refl True] Some r by (simp add: drain_events.simps [of env st])
      then show ?thesis using set_drop_subset by fastforce
    next
      case False
      then show ?thesis using Some r by (simp add: drain_events.simps [of env st] flushEvent_keeps_buffered)
    qed
  qed
qed

definition drained :: "'v validator \<Rightarrow> bool" where
  "drained st \<longleftrightarrow> vs_terminated st \<or> boundary_exec (vs_buffered st) = None \<and> CR \<notin> set (vs_buffered st)"

lemma transform_drained:
  assumes "drained st" and "CR \<notin> set c"
  shows "drained (stream_transform env c st)"
proof (cases "vs_terminated st")
  case False
  let ?s = "st\<lparr>vs_buffered := vs_buffered st @ c\<rparr>"
  have "CR \<notin> set (vs_buffered ?s)" using assms False by (simp add: drained_def)
  then show ?thesis using drain_events_set [of env ?s] drain_events_ends [of env ?s] False
    by (auto simp: drained_def stream_transform_def)
qed (use assms in \<open>simp add: stream_transform_def\<close>)

lemma transform_twice:
  assumes "drained st" and "CR \<notin> set c"
  shows "same_stream (stream_transform env d (stream_transform env c st)) (stream_transform env (c @ d) st)"
proof (cases "vs_terminated st")
  case False
  then show ?thesis
    using drain_events_extend [of "st\<lparr>vs_buffered := vs_buffered st @ c\<rparr>" env d] assms
    by (simp add: stream_transform_def drained_def)
qed (simp add: stream_transform_def)

lemma fold_transform:
  "drained st \<Longrightarrow> CR \<notin> set (concat cs) \<Longrightarrow> same_stream (fold (stream_transform env) cs st) (stream_transform env (concat cs) st)"
proof (induction cs arbitrary: st)
  case Nil
  then show ?case by (auto simp: stream_transform_def drained_def drain_events.simps [of env st])
next
  case (Cons c cs)
  have c: "CR \<notin> set c" "CR \<notin> set (concat cs)" using Cons.prems(2) by simp_all
  have "same_stream (fold (stream_transform env) (c # cs) st) (stream_transform env (concat cs) (stream_transform env c st))"
    using Cons.IH [OF transform_drained [OF Cons.prems(1) c(1)] c(2)] by simp
  then show ?case using same_stream_trans transform_twice [OF Cons.prems(1) c(1), of env "concat cs"] by auto
qed

lemma same_stream_flush: "same_stream s t \<Longrightarrow> same_stream (stream_flush s) (stream_flush t)"
proof -
  assume st: "same_stream s t"
  then have "s\<lparr>vs_buffered := []\<rparr> = t\<lparr>vs_buffered := []\<rparr>" by (simp add: same_stream_def)
  moreover from this have "vs_terminated s = vs_terminated t" "vs_failed s = vs_failed t" "vs_doneEvent s = vs_doneEvent t"
    by (metis validator.ext_inject validator.surjective validator.update_convs(1))+
  ultimately show ?thesis using st by (auto simp: same_stream_def stream_flush_def Let_def split: option.splits)
qed

lemma validated_at_once:
  assumes "CR \<notin> set (concat cs)"
  shows "same_stream (validateEventStream env cs) (validateEventStream env [concat cs])"
  unfolding validateEventStream_def
  using same_stream_flush [OF fold_transform [OF _ assms, of new_validator env]]
  by (simp add: drained_def new_validator_def)

section \<open>Reading\<close>

definition unframed :: "string \<Rightarrow> string" where
  "unframed s = (case last_boundary s of None \<Rightarrow> s | Some e \<Rightarrow> drop e s)"

lemma unframed_step:
  "boundary_exec s = None \<Longrightarrow> unframed s = s"
  "boundary_exec s = Some (i, n) \<Longrightarrow> unframed s = unframed (drop (i + n) s)"
  by (auto simp: unframed_def last_boundary.simps [of s] add.commute split: option.splits)

lemma unframed_extend:
  "CR \<notin> set b \<Longrightarrow> unframed (b @ c) = unframed (unframed b @ c)"
proof (induction b rule: last_boundary.induct)
  case (1 b)
  show ?case
  proof (cases "boundary_exec b")
    case None
    then show ?thesis by (simp add: unframed_step)
  next
    case (Some r)
    obtain i n where r: "r = (i, n)" by (cases r)
    have "i + n \<le> length b" using boundary_exec_pos Some r by blast
    moreover have "CR \<notin> set (drop (i + n) b)" using 1(2) set_drop_subset by fastforce
    ultimately show ?thesis
      using "1.IH" [OF Some r [symmetric]] boundary_exec_extend [OF 1(2), of i n c] Some r by (simp add: unframed_step(2))
  qed
qed


lemma unframed_set: "set (unframed s) \<subseteq> set s"
  using set_drop_subset by (fastforce simp: unframed_def split: option.splits)

lemma recover_chunk:
  assumes "\<not> rs_closed st"
  shows "\<not> rs_closed (recover_read (ReadChunk c) st) \<and> rs_buffered (recover_read (ReadChunk c) st) = unframed (rs_buffered st @ c) \<and>
     concat (rs_out (recover_read (ReadChunk c) st)) @ rs_buffered (recover_read (ReadChunk c) st) =
       concat (rs_out st) @ rs_buffered st @ c \<and> rs_errors (recover_read (ReadChunk c) st) = rs_errors st"
  using assms by (auto simp: recover_read_def Let_def unframed_def simp del: take_append drop_append split: option.splits)

lemma recovered_text:
  assumes "CR \<notin> set (concat cs)"
  shows "let st = fold recover_read (map ReadChunk cs) new_recoverer in
     \<not> rs_closed st \<and> rs_buffered st = unframed (concat cs) \<and> concat (rs_out st) @ rs_buffered st = concat cs \<and> rs_errors st = 0"
  using assms
proof (induction cs rule: rev_induct)
  case Nil
  then show ?case by (simp add: new_recoverer_def unframed_def last_boundary.simps)
next
  case (snoc c cs)
  let ?st = "fold recover_read (map ReadChunk cs) new_recoverer"
  have i: "\<not> rs_closed ?st" "rs_buffered ?st = unframed (concat cs)" "concat (rs_out ?st) @ rs_buffered ?st = concat cs" "rs_errors ?st = 0"
    using snoc unfolding Let_def by auto
  have u: "unframed (concat cs @ c) = unframed (rs_buffered ?st @ c)"
    using unframed_extend [of "concat cs" c] snoc.prems i(2) by simp
  have "fold recover_read (map ReadChunk (cs @ [c])) new_recoverer = recover_read (ReadChunk c) ?st" by simp
  moreover have "concat (rs_out ?st) @ rs_buffered ?st @ c = concat (cs @ [c])" using i(3) by (metis append.assoc concat_append concat.simps append_Nil2)
  ultimately show ?case
    using recover_chunk [OF i(1), of c] i(4) u unfolding Let_def by (metis concat_append concat.simps append_Nil2)
qed

text \<open>What reading ends with: nothing, or one error event.\<close>

definition read_tail :: "stream_read \<Rightarrow> string \<Rightarrow> string list" where
  "read_tail e rest =
     (case e of
        ReadChunk c \<Rightarrow> []
      | ReadEnd \<Rightarrow> if rest = [] then [] else [error_event ''The upstream stream ended mid-event.'']
      | ReadFails \<Rightarrow> [error_event ''The upstream stream failed.''])"

lemma recovered_end:
  assumes "CR \<notin> set (concat cs)" and "e = ReadEnd \<or> e = ReadFails"
  shows "\<exists>out. rs_out (recoverEventStreamReadErrors (map ReadChunk cs @ [e])) = out @ read_tail e (unframed (concat cs)) \<and>
     concat out @ unframed (concat cs) = concat cs"
proof -
  let ?st = "fold recover_read (map ReadChunk cs) new_recoverer"
  have "\<not> rs_closed ?st" "rs_buffered ?st = unframed (concat cs)" "concat (rs_out ?st) @ unframed (concat cs) = concat cs"
    using recovered_text [OF assms(1)] unfolding Let_def by auto
  then show ?thesis using assms(2)
    by (intro exI [of _ "rs_out ?st"])
      (auto simp: recoverEventStreamReadErrors_def recover_read_def recover_error_def read_tail_def)
qed

lemma read_tail_set: "CR \<notin> set (concat (read_tail e rest))"
  by (simp add: read_tail_def error_event_def quoted_def split: stream_read.split)

lemma proxied_text:
  assumes "CR \<notin> set (concat cs)" and "e = ReadEnd \<or> e = ReadFails"
  shows "same_stream (proxied_stream env (map ReadChunk cs @ [e]))
     (validateEventStream env
       [take (length (concat cs) - length (unframed (concat cs))) (concat cs) @ concat (read_tail e (unframed (concat cs)))])"
proof -
  obtain out where out: "rs_out (recoverEventStreamReadErrors (map ReadChunk cs @ [e])) = out @ read_tail e (unframed (concat cs))"
      "concat out @ unframed (concat cs) = concat cs" using recovered_end [OF assms] by blast
  have t: "concat out = take (length (concat cs) - length (unframed (concat cs))) (concat cs)"
    using out(2) by (metis add_diff_cancel_right' append_eq_conv_conj length_append)
  have "CR \<notin> set (concat out)" using assms(1) out(2) by (metis UnI1 set_append)
  then have "CR \<notin> set (concat (out @ read_tail e (unframed (concat cs))))" using read_tail_set by simp
  from validated_at_once [OF this, of env] show ?thesis unfolding proxied_stream_def out(1) by (simp add: t)
qed

lemma same_stream_seen:
  "same_stream s t \<Longrightarrow> vs_out s = vs_out t \<and> vs_validated s = vs_validated t \<and> vs_invalid s = vs_invalid t"
  unfolding same_stream_def by (metis validator.ext_inject validator.surjective validator.update_convs(1))

section \<open>How a stream ends\<close>

definition seen_choice :: "'v stream_env \<Rightarrow> 'v validator \<Rightarrow> int \<Rightarrow> bool list" where
  "seen_choice env st i =
     map snd (filter (\<lambda>(j, f). j = i) (concat (map (\<lambda>v. case se_choices env v of Some cs \<Rightarrow> cs | None \<Rightarrow> []) (vs_validated st))))"

definition tracks :: "(int, bool) js_map \<Rightarrow> (int \<Rightarrow> bool list) \<Rightarrow> bool" where
  "tracks m seen \<longleftrightarrow>
     (\<forall>i. js_get m i = (if seen i = [] then None else Some (last (seen i))) \<and> (\<forall>f \<in> set (butlast (seen i)). \<not> f)) \<and>
     (m = [] \<longleftrightarrow> (\<forall>i. seen i = []))"

lemma take_choices_tracks:
  assumes "tracks m seen" and "take_choices cs m = (True, m')"
  shows "tracks m' (\<lambda>i. seen i @ map snd (filter (\<lambda>(j, f). j = i) cs))"
  using assms
proof (induction cs m arbitrary: seen rule: take_choices.induct)
  case (1 m)
  then show ?case by simp
next
  case (2 i f cs m)
  have open_i: "js_get m i \<noteq> Some True" and rest: "take_choices cs (js_set i f m) = (True, m')"
    using 2(3) by (auto split: if_splits)
  let ?seen = "\<lambda>k. seen k @ (if k = i then [f] else [])"
  have all_open: "\<forall>b \<in> set (seen i). \<not> b"
  proof (cases "seen i" rule: rev_cases)
    case (snoc bs b)
    have "js_get m i = (if seen i = [] then None else Some (last (seen i)))" "\<forall>f \<in> set (butlast (seen i)). \<not> f"
      using 2(2) unfolding tracks_def by blast+
    then have "js_get m i = Some b" "\<forall>f \<in> set bs. \<not> f" using snoc by simp_all
    then show ?thesis using open_i snoc by auto
  qed simp
  have "js_set i f m \<noteq> []" by (cases "(i, f, m)" rule: js_set.cases) auto
  then have "tracks (js_set i f m) ?seen"
    using 2(2) all_open by (auto simp: tracks_def butlast_append)
  then have "tracks m' (\<lambda>k. ?seen k @ map snd (filter (\<lambda>(j, f). j = k) cs))" using "2.IH" open_i rest by blast
  moreover have "(\<lambda>k. ?seen k @ map snd (filter (\<lambda>(j, f). j = k) cs)) =
      (\<lambda>k. seen k @ map snd (filter (\<lambda>(j, f). j = k) ((i, f) # cs)))" by auto
  ultimately show ?case by (simp only:)
qed

text \<open>The last output is the event of an error that upstream reported.\<close>

definition ends_with_upstream_error :: "'v stream_env \<Rightarrow> 'v validator \<Rightarrow> bool" where
  "ends_with_upstream_error env st \<longleftrightarrow>
     vs_out st \<noteq> [] \<and> vs_validated st \<noteq> [] \<and> se_choices env (last (vs_validated st)) = None \<and>
     (\<exists>d. eventData (last (vs_out st)) = Some d \<and> se_parse env d = Some (last (vs_validated st)))"

definition stream_inv :: "'v stream_env \<Rightarrow> 'v validator \<Rightarrow> bool" where
  "stream_inv env st \<longleftrightarrow>
     (if vs_failed st then vs_terminated st \<and> vs_invalid st = 1 \<and> vs_out st \<noteq> [] \<and> last (vs_out st) = validationFailure
      else vs_invalid st = 0 \<and> tracks (vs_finished st) (seen_choice env st) \<and>
        (vs_terminated st \<longrightarrow> vs_doneEvent st = None \<and> ends_with_upstream_error env st) \<and>
        (\<forall>e. vs_doneEvent st = Some e \<longrightarrow>
           eventData e = Some ''[DONE]'' \<and> vs_finished st \<noteq> [] \<and> list_all (\<lambda>(i, f). f) (vs_finished st)))"

lemma stream_inv_new: "stream_inv env new_validator"
  by (simp add: stream_inv_def new_validator_def tracks_def seen_choice_def)

lemma fail_stream_inv:
  "stream_inv env st \<Longrightarrow> \<not> vs_failed st \<Longrightarrow> stream_inv env (snd (fail_stream True (st\<lparr>vs_validated := vs, vs_finished := m\<rparr>)))"
  by (simp add: stream_inv_def fail_stream_def enqueue_def)

lemma seen_choice_more:
  "seen_choice env (st\<lparr>vs_validated := vs @ [v]\<rparr>) =
     (\<lambda>i. seen_choice env (st\<lparr>vs_validated := vs\<rparr>) i @ map snd (filter (\<lambda>(j, f). j = i) (case se_choices env v of Some cs \<Rightarrow> cs | None \<Rightarrow> [])))"
  by (rule ext) (simp add: seen_choice_def)

lemma seen_choice_cong: "vs_validated s = vs_validated t \<Longrightarrow> seen_choice env s = seen_choice env t"
  by (rule ext) (simp add: seen_choice_def)

lemma flush_value_inv:
  assumes "stream_inv env st" and "\<not> vs_failed st" and "\<not> vs_terminated st" and "vs_doneEvent st = None"
    and "eventData ev = Some d" and "se_parse env d = Some v"
  shows "stream_inv env (snd (flush_value env True ev v st))"
proof (cases "se_choices env v")
  case None
  have "seen_choice env ((enqueue ev (st\<lparr>vs_validated := vs_validated st @ [v]\<rparr>))\<lparr>vs_terminated := True\<rparr>) = seen_choice env st"
    by (rule ext) (simp add: seen_choice_def enqueue_def None)
  then show ?thesis using assms None by (simp add: flush_value_def stream_inv_def enqueue_def ends_with_upstream_error_def)
next
  case (Some cs)
  obtain ok m where tc: "take_choices cs (vs_finished st) = (ok, m)" by (cases "take_choices cs (vs_finished st)")
  show ?thesis
  proof (cases ok)
    case True
    have "tracks (vs_finished st) (seen_choice env st)" using assms(1,2) by (simp add: stream_inv_def)
    from take_choices_tracks [OF this] tc True
    have t: "tracks m (\<lambda>i. seen_choice env st i @ map snd (filter (\<lambda>(j, f). j = i) cs))" by simp
    let ?s = "snd (flush_value env True ev v st)"
    have "vs_validated ?s = vs_validated st @ [v]" using Some tc True by (simp add: flush_value_def enqueue_def)
    then have "seen_choice env ?s = (\<lambda>i. seen_choice env st i @ map snd (filter (\<lambda>(j, f). j = i) cs))"
      by (intro ext) (simp add: seen_choice_def Some)
    then show ?thesis using assms Some tc True t by (simp add: flush_value_def stream_inv_def enqueue_def)
  next
    case False
    then show ?thesis
      using fail_stream_inv [OF assms(1,2), where m = m and vs = "vs_validated st @ [v]"] Some tc by (simp add: flush_value_def)
  qed
qed

lemma stream_inv_out:
  "stream_inv env st \<Longrightarrow> \<not> vs_failed st \<Longrightarrow> \<not> vs_terminated st \<Longrightarrow> stream_inv env (enqueue t st)"
  using seen_choice_cong [of "enqueue t st" st env] by (simp add: stream_inv_def enqueue_def)

lemma flushEvent_inv:
  assumes "stream_inv env st" and "\<not> vs_terminated st"
  shows "stream_inv env (snd (flushEvent env ev True fr st))"
proof -
  have f: "\<not> vs_failed st" using assms by (auto simp: stream_inv_def split: if_splits)
  have fail: "stream_inv env (snd (fail_stream True st))"
    using fail_stream_inv [OF assms(1) f, where m = "vs_finished st" and vs = "vs_validated st"] by simp
  have done_inv: "stream_inv env (st\<lparr>vs_doneEvent := Some ev\<rparr>)"
    if "eventData ev = Some ''[DONE]''" "vs_finished st \<noteq> []" "\<not> list_ex (\<lambda>(i, f). \<not> f) (vs_finished st)"
    using assms f that seen_choice_cong [of "st\<lparr>vs_doneEvent := Some ev\<rparr>" st env]
    by (auto simp: stream_inv_def list_ex_iff list_all_iff)
  show ?thesis
    using fail done_inv flush_value_inv [OF assms(1) f assms(2)] stream_inv_out [OF assms(1) f assms(2), of ev] assms(1)
    by (auto simp: flushEvent_def split: option.splits)
qed

lemma stream_inv_buffered [simp]: "stream_inv env (st\<lparr>vs_buffered := b\<rparr>) = stream_inv env st"
  using seen_choice_cong [of "st\<lparr>vs_buffered := b\<rparr>" st env] by (simp add: stream_inv_def ends_with_upstream_error_def)

lemma drain_events_inv:
  "stream_inv env st \<Longrightarrow> \<not> vs_terminated st \<Longrightarrow> stream_inv env (drain_events env st)"
proof (induction env st rule: drain_events.induct)
  case (1 env st)
  show ?case
  proof (cases "boundary_exec (vs_buffered st)")
    case None
    then show ?thesis using 1(2) by (simp add: drain_events.simps)
  next
    case (Some r)
    obtain i n where r: "r = (i, n)" by (cases r)
    let ?f = "flushEvent env (take (i + n) (vs_buffered st)) True True st"
    have inv: "stream_inv env (snd ?f)" by (rule flushEvent_inv [OF 1(2,3)])
    show ?thesis
    proof (cases "fst ?f")
      case True
      then show ?thesis
        using "1.IH" [OF Some r [symmetric] refl True] flushEvent_goes_on [OF True] inv 1(3) Some r
        by (simp add: drain_events.simps [of env st])
    next
      case False
      then show ?thesis using inv Some r by (simp add: drain_events.simps [of env st])
    qed
  qed
qed

lemma transforms_inv: "stream_inv env st \<Longrightarrow> stream_inv env (fold (stream_transform env) cs st)"
  by (induction cs arbitrary: st) (simp_all add: stream_transform_def drain_events_inv)

lemma validated_cases:
  fixes env cs
  defines "st \<equiv> validateEventStream env cs"
  shows "if vs_failed st then vs_invalid st = 1 \<and> vs_out st \<noteq> [] \<and> last (vs_out st) = validationFailure
    else vs_invalid st = 0 \<and>
      (if vs_terminated st then ends_with_upstream_error env st \<and> vs_doneEvent st = None
       else (\<exists>e. vs_doneEvent st = Some e \<and> eventData e = Some ''[DONE]'' \<and> vs_out st \<noteq> [] \<and> last (vs_out st) = e \<and>
         tracks (vs_finished st) (seen_choice env st) \<and> vs_finished st \<noteq> [] \<and> list_all (\<lambda>(i, f). f) (vs_finished st)))"
proof -
  let ?s = "fold (stream_transform env) cs new_validator"
  have inv: "stream_inv env ?s" by (rule transforms_inv [OF stream_inv_new])
  show ?thesis
  proof (cases "vs_terminated ?s")
    case True
    then show ?thesis using inv by (auto simp: st_def validateEventStream_def stream_flush_def stream_inv_def)
  next
    case False
    then have f: "\<not> vs_failed ?s" "vs_invalid ?s = 0" using inv by (auto simp: stream_inv_def split: if_splits)
    show ?thesis
    proof (cases "vs_buffered ?s = [] \<and> vs_doneEvent ?s \<noteq> None")
      case True
      then obtain e where e: "vs_doneEvent ?s = Some e" by blast
      have st: "st = enqueue e (?s\<lparr>vs_buffered := []\<rparr>)"
        using True e False f by (simp add: st_def validateEventStream_def stream_flush_def)
      have "seen_choice env st = seen_choice env ?s" by (rule seen_choice_cong) (simp add: st enqueue_def)
      then show ?thesis using inv e f False by (simp add: st enqueue_def stream_inv_def)
    next
      case False2: False
      then have "st = snd (fail_stream False (?s\<lparr>vs_buffered := []\<rparr>))"
        using False f by (auto simp: st_def validateEventStream_def stream_flush_def Let_def split: option.splits)
      then show ?thesis using f by (simp add: fail_stream_def enqueue_def)
    qed
  qed
qed

lemma tracks_closed:
  assumes "tracks m seen" and "list_all (\<lambda>(i, f). f) m" and "seen i \<noteq> []"
  shows "seen i = replicate (length (seen i) - 1) False @ [True]"
proof -
  have "js_get m i = (if seen i = [] then None else Some (last (seen i)))" "\<forall>f \<in> set (butlast (seen i)). \<not> f"
    using assms(1) unfolding tracks_def by blast+
  moreover from this have "(i, last (seen i)) \<in> set m" using assms(3) js_get_in_set by (metis (full_types))
  ultimately have "last (seen i)" "butlast (seen i) = replicate (length (butlast (seen i))) False"
    using assms(2) by (fastforce simp: list_all_iff intro!: replicate_eqI)+
  then show ?thesis using append_butlast_last_id [OF assms(3)] by (metis (full_types) length_butlast)
qed

section \<open>Properties\<close>

text \<open>
  C21: how the network cuts a stream does not matter.  A stream of lines ended by line feeds reaches the
  client as the same events, whatever chunks it arrives in, also when upstream ends or fails in the middle.
\<close>

theorem stream_chunking_irrelevant:
  assumes "concat cs = concat ds" and "CR \<notin> set (concat cs)" and "e = ReadEnd \<or> e = ReadFails"
  shows "vs_out (proxied_stream env (map ReadChunk cs @ [e])) = vs_out (proxied_stream env (map ReadChunk ds @ [e])) \<and>
    vs_validated (proxied_stream env (map ReadChunk cs @ [e])) = vs_validated (proxied_stream env (map ReadChunk ds @ [e])) \<and>
    vs_invalid (proxied_stream env (map ReadChunk cs @ [e])) = vs_invalid (proxied_stream env (map ReadChunk ds @ [e]))"
proof -
  have "CR \<notin> set (concat ds)" using assms by simp
  from same_stream_seen [OF proxied_text [OF this assms(3), of env]] same_stream_seen [OF proxied_text [OF assms(2,3), of env]]
  show ?thesis using assms(1) by simp
qed

definition demo_stream_env :: "(int \<times> bool) list stream_env" where
  "demo_stream_env =
     \<lparr>se_parse = (\<lambda>d. if d = ''{'' @ [LF] @ ''}'' then Some [(0, True)] else None), se_choices = Some, se_canonical = None\<rparr>"

definition demo_text :: string where
  "demo_text = ''data: {'' @ [LF] @ ''data: }'' @ [LF, LF] @ ''data: [DONE]'' @ [LF, LF]"

theorem stream_chunking_irrelevant_witness:
  "vs_out (proxied_stream demo_stream_env (map ReadChunk [demo_text] @ [ReadEnd])) =
   vs_out (proxied_stream demo_stream_env (map ReadChunk [take 9 demo_text, drop 9 demo_text] @ [ReadEnd]))"
  by (rule stream_chunking_irrelevant [THEN conjunct1]) (simp_all add: demo_text_def)

text \<open>
  C18: a stream always ends in a way the client can recognise.  The last thing it gets is the error event
  of the gateway, reported once; or the event whose data is an error upstream reported, with nothing
  reported by the gateway; or the \<open>[DONE]\<close> event, with nothing reported.
\<close>

theorem stream_always_concluded:
  "let st = validateEventStream env cs in
     (vs_invalid st = 1 \<and> vs_out st \<noteq> [] \<and> last (vs_out st) = validationFailure) \<or>
     (vs_invalid st = 0 \<and> vs_doneEvent st = None \<and> vs_out st \<noteq> [] \<and> vs_validated st \<noteq> [] \<and>
       se_choices env (last (vs_validated st)) = None \<and>
       (\<exists>d. eventData (last (vs_out st)) = Some d \<and> se_parse env d = Some (last (vs_validated st)))) \<or>
     (vs_invalid st = 0 \<and> vs_out st \<noteq> [] \<and> eventData (last (vs_out st)) = Some ''[DONE]'' \<and> vs_doneEvent st = Some (last (vs_out st)))"
  using validated_cases [of env cs] unfolding Let_def ends_with_upstream_error_def by (auto split: if_splits)

text \<open>
  C19: a stream that is reported complete is complete.  When nothing invalid was reported and \<open>[DONE]\<close> was
  reached, every choice in it has exactly one chunk with a finish reason, and that is its last chunk.
\<close>

theorem completed_stream_finished:
  assumes "vs_invalid (validateEventStream env cs) = 0" and "vs_doneEvent (validateEventStream env cs) = Some e"
    and "seen_choice env (validateEventStream env cs) i \<noteq> []"
  shows "\<exists>n. seen_choice env (validateEventStream env cs) i = replicate n False @ [True]"
proof -
  have "tracks (vs_finished (validateEventStream env cs)) (seen_choice env (validateEventStream env cs))"
      "list_all (\<lambda>(i, f). f) (vs_finished (validateEventStream env cs))"
    using validated_cases [of env cs] assms(1,2) by (auto split: if_splits)
  from tracks_closed [OF this assms(3)] show ?thesis by blast
qed

lemma demo_completed:
  "vs_invalid (validateEventStream demo_stream_env [demo_text]) = 0 \<and>
   vs_doneEvent (validateEventStream demo_stream_env [demo_text]) = Some (''data: [DONE]'' @ [LF, LF]) \<and>
   seen_choice demo_stream_env (validateEventStream demo_stream_env [demo_text]) 0 = [True]"
  by code_simp

theorem completed_stream_finished_witness:
  "\<exists>n. seen_choice demo_stream_env (validateEventStream demo_stream_env [demo_text]) 0 = replicate n False @ [True]"
  by (rule completed_stream_finished [of demo_stream_env "[demo_text]" "''data: [DONE]'' @ [LF, LF]"]) (simp_all add: demo_completed)



















end
