(* ===== verification/Spec2Isabelle.thy ===== *)
theory Spec2Isabelle
  imports Video_Jobs Catalog_Sources Memory_Estimate Inference_Queue Modality_Admission Memory_Safety Memory_Controller Reconciliation_Plan
    Gateway_Routes Auth_System Reconciler_Properties Managed_Safety
    Gateway_Safety Stream_Properties
begin

text \<open>
  A verification development of LocalBase, the gateway that serves local models over an
  OpenAI-compatible API (TypeScript, under \<^verbatim>\<open>src/src\<close>).

  The program.  One process listens for HTTP requests.  A request's path selects a route, the
  route and method a requirement, and the caller's principal decides whether it goes on.  An
  inference request is then admitted by its modality's controller, waits for a slot in that
  modality's queue, and is sent to the backend process that serves the modality.  Backends are
  started only when the memory controller reserves their demand against the host's pools; the
  safety policy watches those pools and unloads backends under pressure.  A changed configuration
  becomes a plan that says which backends to drain, replace or remove.  Browser users are granted
  roles by a policy kept in an SQLite database, with managed users and one-time sign-in links.

  Theories, bottom up, each with the files it models:

  \<^item> Prelude: JavaScript's insertion-ordered \<open>Map\<close>, runs of event-driven components, and the
    locales \<open>keyed_store\<close> (a store keyed by owner), \<open>invariant_system\<close> and \<open>total_system\<close> (a step
    function with an invariant, and one that is never stuck on allowed events).  Every stateful
    component interprets one of these on its own step function.
  \<^item> Modality: the served modalities.
  \<^item> Inference_Queue (\<^verbatim>\<open>domains/runtime/inference-queue.ts\<close>): the fair bounded queue.
    Its state is the class's fields; events are the calls of its clients and the timers and
    aborts that fire.  Lemmas: a structural invariant kept by every event; no lost wakeup (no
    eligible request waits while a permit is free); every acquire is accounted for exactly once;
    permits are exactly the unreleased leases; starts in arrival order among eligible requests;
    the bound on active requests; a closed queue stays empty; and the loop of \<open>dispatch\<close> terminates
    when no two waiting requests share an abort signal, with the divergence when they do.
  \<^item> Modality_Admission (\<^verbatim>\<open>domains/runtime/modality-admission.ts\<close>): leases, draining,
    cancellation and detachment of a modality.
  \<^item> Memory_Safety (\<^verbatim>\<open>domains/runtime/memory-safety.ts\<close>): admission of a demand against
    capacity, reservations and the reserve of a pool; pressure bands; the policy that latches
    critical pressure until three normal readings.  The memory sizes are JavaScript numbers; they
    are exact here, which IEEE doubles are up to 2 to the 53.
  \<^item> Memory_Controller (\<^verbatim>\<open>domains/runtime/memory-controller.ts\<close>): reservations,
    commitments, releases and preflight of switches over the safety policy.  Lemmas: no reservation takes
    the pools over their capacity, and a preflight that credits what running backends hold promises the
    reservation made once they have stopped and given exactly that back.
  \<^item> Reconciliation_Plan (\<^verbatim>\<open>domains/runtime/reconciliation-plan.ts\<close>, with
    \<^verbatim>\<open>config-snapshot.ts\<close> and \<open>backendBindHost\<close> of \<^verbatim>\<open>launch-plan.ts\<close>).
  \<^item> Authorization (\<^verbatim>\<open>domains/auth/authorization.ts\<close>): permissions and the decision.
  \<^item> Gateway_Routes (\<^verbatim>\<open>domains/runtime/route-dispatch.ts\<close>,
    \<^verbatim>\<open>route-authorization.ts\<close>): routes of a path, labels, hints and requirements.
    Percent decoding runs on fuel equal to the length of the input; every step consumes a
    character (\<open>decode_fuel_enough\<close>), so more fuel never changes the result.
  \<^item> Auth_Database (\<^verbatim>\<open>db/schema.ts\<close>): the authorization tables with their keys,
    foreign keys and cascades, and transactions as functions to an error or a new database.
  \<^item> Access_Control, Managed_Users, Magic_Links (\<^verbatim>\<open>domains/auth/access-control.ts\<close>,
    \<^verbatim>\<open>access-control-contract.ts\<close>, \<^verbatim>\<open>users.ts\<close>, \<^verbatim>\<open>magic-links.ts\<close>):
    the operations on those tables, and Auth_System: their invariant over any sequence of
    operations, and what it gives for policies, removed users and links.
  \<^item> Video_Jobs (\<^verbatim>\<open>domains/runtime/video/video-job-manager.ts\<close>): the asynchronous
    video jobs.  A job record holds the point at which each suspended call is; an event settles
    one awaited promise and runs the code to the next \<open>await\<close>.  Lemmas: every handler keeps the
    invariant of the manager and the outcome of ended jobs; from these, at most one unfinished job,
    bounded retention, one release of an admission, and that the active job can always be ended.
  \<^item> Js_Number, Parallel_Slots (\<^verbatim>\<open>domains/config/parallel.ts\<close>): numbers with NaN and
    infinities, and the slots a launch gets from its context and memory.
  \<^item> Gguf_Reader, Gguf_Geometry (\<^verbatim>\<open>domains/runtime/gguf-metadata.ts\<close>): the buffered
    reader of GGUF headers, shown to read the file's bytes and to read back what a writer of the
    format lays out: every scalar type, floats by their bit patterns, strings and arrays of these (an
    array of arrays is refused), and what the metadata says of a model's cache, with the token bound on
    value lengths where the code has no narrower one.  The loops recurse on the counts
    they read, which the reader limits before it loops.
  \<^item> Model_Catalog (\<^verbatim>\<open>catalog.ts\<close>): model specifications, the issues their schema's
    refinement raises, and the lookups, download locations and context recommendations over
    accepted ones.  Catalog_Sources (\<^verbatim>\<open>catalog/sources.ts\<close>): how the built-in catalogue, a
    feed and the user's entries become the effective catalogue, and whose measurements an entry
    may use.
  \<^item> Memory_Measurements, Memory_Estimate (\<^verbatim>\<open>domains/runtime/memory-measurements.ts\<close>,
    \<^verbatim>\<open>memory-estimate.ts\<close>): the memory demand of a launch, from the measured references, the
    geometry of the GGUF header, or the size of the file, never below the declared weights that are loaded,
    the parts of a video model included; the square and cube roots of the last are
    integer roots, shown equal to the documented formulas over the reals.
  \<^item> Model_Eligibility (\<^verbatim>\<open>domains/models/model-eligibility.ts\<close>): which catalog models
    a host may run.
  \<^item> Supervisor_Registry (\<^verbatim>\<open>domains/runtime/supervisor-registry.ts\<close>,
    \<^verbatim>\<open>lifecycle-snapshot.ts\<close>): the supervisors in service and what is reported of them.
  \<^item> Runtime_Reconciler (\<^verbatim>\<open>domains/runtime/runtime-reconciler.ts\<close>): the component that
    joins the admission barriers, the registry, the plan and the configuration snapshots.  Each
    modality has a chain of exclusive work; a \<open>point\<close> is an \<open>await\<close> at which that work is suspended,
    with its locals, and an event settles one awaited promise and runs the code to the next.  What
    supervisors, the store and the memory preflights answer comes with the events; the calls made to
    supervisors are recorded.  Between two events of the code nothing else runs, and the model allows
    at least the orders the event loop can produce.
    Reconciler_Safety has its invariant, kept by every event, and Reconciler_Properties what follows
    from it: open admissions are on the supervisor in service, a request gets the model it named, a
    reconciled modality has a backend exactly when it is configured, and a backend that is being
    stopped is idle; with the restart guard of a refresh, the switch that passes it by, and the state of a
    modality that is configured and reconciled but shut out, which requests and unchanged refreshes
    never leave.
  \<^item> Managed_Service (\<^verbatim>\<open>domains/runtime/supervisor.ts\<close>): the supervisor of one
    backend process.  Start attempts, kills, the shutdown, the callers of \<open>ensureRunning\<close> and the
    cleanup of an exited process are suspended calls, each at one of its \<open>await\<close>s; an event settles
    one promise.  Any order of events is allowed, so no fuel is needed.  Of the memory controller it
    has the entry of its own runtime.  Managed_Safety has its invariant and what it gives: one live
    process at most, whose reservation is held and is given back after its exit; a kill and the shutdown
    return only when what they stop is gone; and, from any settled state with a live process, the start
    that a kill reports as idle.
  \<^item> Gateway_Admission (\<^verbatim>\<open>domains/runtime/commands/serve.ts\<close>,
    \<^verbatim>\<open>memory-pressure-monitor.ts\<close>): one admitted request, from the readiness of its backend
    with the recovery by eviction, over its dispatch, to the end of its response; the reading of request
    bodies; the responses to memory and queue failures; the memory pressure monitor.  Gateway_Safety
    shows that the admission is settled once and that no admission leaks, that bodies are read within
    bounds and that pressure is handled before it is reported.
  \<^item> Event_Streams (\<^verbatim>\<open>serve.ts\<close>): the event streams of chat completions as
    transducers of chunks, with the boundary pattern as the regular expression engine matches it.
    Stream_Properties shows that chunks do not matter for streams with line feeds, that a stream always
    ends recognisably, with its own error event, the upstream's or the end marker, and that a complete
    stream has finished every choice, and how any event whose lines end in CRLF is broken.

  Conventions.  An operation that throws returns \<open>Inl\<close> of its error and leaves the state as it
  was; an event-driven component returns \<open>None\<close> when the synchronous code would not return.
  Promises are resolved by explicit events.  Strings are lists of 8-bit characters; the code
  treats identifiers, paths and email addresses, which are ASCII.  Random ids and tokens, clocks,
  SHA-256, \<open>localeCompare\<close> and zod's email and URL checks are parameters of the definitions; a
  theorem that relies on a law of one of them states it as a hypothesis.

  Not modelled: the HTTP server and its handlers beyond the parts above, the spawning of processes, the speech
  supervisor, file and network I/O (catalogue, downloads, Hugging Face, installation), observability, the command
  line and the user interface.  Of the reconciler, logging and the wait of a rolled back model's
  reload (its end is an event) are left out.
\<close>

end
